(* ===== verification/HkuPrelude.thy ===== *)
theory HkuPrelude
  imports Main "HOL-Library.Word"
begin

text \<open>
  Shared vocabulary of the development: the machine integers and strings of the C++ code, the
  exceptions it throws as values of a sum type, the collections the component proofs draw on and
  the few generic facts about lists, words and characters that several components need.
\<close>

unbundle bit_operations_syntax

section \<open>Machine types\<close>

text \<open>
  \<open>unsigned char\<close>, \<open>uint32_t\<close>/\<open>unsigned int\<close> and \<open>size_t\<close>/\<open>uint64_t\<close>/\<open>int64_t\<close> (LP64).
  A signed 64-bit value is read with \<open>sint\<close>.
\<close>

type_synonym byte = "8 word"
type_synonym u32 = "32 word"
type_synonym u64 = "64 word"

section \<open>Exceptions as values\<close>

text \<open>
  Every \<open>throw\<close> of the modelled code becomes \<open>Inl\<close> of one of these; the standard library's
  exceptions keep their names, the others are the classes the repository declares.
\<close>

datatype cpp_error =
    RuntimeError        \<comment> \<open>\<open>std::runtime_error\<close>\<close>
  | InvalidArgument     \<comment> \<open>\<open>std::invalid_argument\<close>\<close>
  | LogicError          \<comment> \<open>\<open>std::logic_error\<close>\<close>
  | OutOfRange          \<comment> \<open>\<open>std::out_of_range\<close>\<close>
  | DomainError         \<comment> \<open>\<open>std::domain_error\<close>\<close>
  | HkuException        \<comment> \<open>\<open>hku::exception\<close>, thrown by \<open>HKU_CHECK\<close> and \<open>HKU_ASSERT\<close>\<close>
  | KeyNotFound         \<comment> \<open>\<open>lru11::KeyNotFound\<close>\<close>
  | CreateResourceException
  | GetResourceTimeoutException
  | SqlException int    \<comment> \<open>\<open>hku::SQLException\<close> with its error code\<close>
  | NullBlobException   \<comment> \<open>\<open>hku::null_blob_exception\<close>\<close>

type_synonym 'a result = "cpp_error + 'a"

text \<open>Sequencing: the first exception ends the computation.\<close>

fun bind_result :: "'a result \<Rightarrow> ('a \<Rightarrow> 'b result) \<Rightarrow> 'b result" where
  "bind_result (Inl e) f = Inl e"
| "bind_result (Inr a) f = f a"

lemma bind_result_Inr_iff [simp]:
  "bind_result m f = Inr b \<longleftrightarrow> (\<exists>a. m = Inr a \<and> f a = Inr b)"
  by (cases m) auto

lemma bind_result_Inl_iff:
  "bind_result m f = Inl e \<longleftrightarrow> m = Inl e \<or> (\<exists>a. m = Inr a \<and> f a = Inl e)"
  by (cases m) auto

lemma bind_result_assoc: "bind_result (bind_result m f) g = bind_result m (\<lambda>a. bind_result (f a) g)"
  by (cases m) auto

text \<open>Whether a computation ended without an exception.\<close>

fun is_ok :: "'a result \<Rightarrow> bool" where
  "is_ok (Inl e) = False"
| "is_ok (Inr a) = True"

lemma is_ok_iff: "is_ok m \<longleftrightarrow> (\<exists>a. m = Inr a)"
  by (cases m) auto

text \<open>
  An operation on a state that may throw, and what it leaves of the state then: \<open>None\<close> is success.
\<close>

type_synonym 's outcome = "cpp_error option \<times> 's"

fun then_do :: "'s outcome \<Rightarrow> ('s \<Rightarrow> 's outcome) \<Rightarrow> 's outcome" where
  "then_do (None, s) f = f s"
| "then_do (Some e, s) f = (Some e, s)"

lemma then_do_None_iff:
  "then_do m f = (None, s) \<longleftrightarrow> (\<exists>s1. m = (None, s1) \<and> f s1 = (None, s))"
  by (cases m rule: prod.exhaust; cases "fst m") auto

lemma then_do_Some_iff:
  "then_do m f = (Some e, s) \<longleftrightarrow> m = (Some e, s) \<or> (\<exists>s1. m = (None, s1) \<and> f s1 = (Some e, s))"
  by (cases m rule: prod.exhaust; cases "fst m") auto

section \<open>Words as numbers\<close>

text \<open>
  Shifts and masks of unsigned values as division and remainder: the bit arithmetic of the code
  is proved over \<open>unat\<close>, with these rewrites.
\<close>

named_theorems unat_bits "shifts and masks of words as arithmetic on nat"

lemma unat_less_exp: "unat w < 2 ^ LENGTH('a)" for w :: "'a::len word"
  by (rule unsigned_less)

lemma unat_byte_less: "unat (b :: byte) < 256"
  using unat_less_exp [of b] by simp

lemma unat_of_nat_less: "n < 2 ^ LENGTH('a) \<Longrightarrow> unat (word_of_nat n :: 'a::len word) = n"
  by (simp add: unat_of_nat take_bit_nat_eq_self)

lemma unat_and_mask: "unat (w AND mask n) = unat w mod 2 ^ n" for w :: "'a::len word"
proof -
  have "unat (take_bit n w) = take_bit n (unat w)"
    by (rule unsigned_take_bit_eq)
  then show ?thesis
    by (simp add: take_bit_eq_mask [where 'a = "'a word"] take_bit_eq_mod [where 'a = nat]
             del: take_bit_eq_mod)
qed

lemma unat_drop_bit: "unat (drop_bit n w) = unat w div 2 ^ n" for w :: "'a::len word"
proof -
  have "unat (drop_bit n w) = drop_bit n (take_bit LENGTH('a) (unat w))"
    by (rule unsigned_drop_bit_eq)
  also have "\<dots> = drop_bit n (unat w)"
    by (simp only: take_bit_nat_eq_self [OF unat_less_exp])
  finally show ?thesis by (simp only: drop_bit_eq_div [where 'a = nat])
qed

lemma unat_push_bit:
  "unat w * 2 ^ n < 2 ^ LENGTH('a) \<Longrightarrow> unat (push_bit n w) = unat w * 2 ^ n" for w :: "'a::len word"
  by (simp only: unsigned_push_bit_eq push_bit_eq_mult [where 'a = nat] take_bit_nat_eq_self)

lemma unat_add_less:
  "unat x + unat y < 2 ^ LENGTH('a) \<Longrightarrow> unat (x + y) = unat x + unat y" for x y :: "'a::len word"
  by (simp only: unat_add_lem)

lemma unat_of_nat_add:
  "p + k < 2 ^ LENGTH('a) \<Longrightarrow> unat (word_of_nat p + word_of_nat k :: 'a::len word) = p + k"
  by (simp only: unat_of_nat_less flip: of_nat_add)

lemma unat_and_low [unat_bits]:
  "unat (w AND 0x03) = unat w mod 4"
  "unat (w AND 0x0f) = unat w mod 16"
  "unat (w AND 0x3f) = unat w mod 64"
  "unat (w AND 0xff) = unat w mod 256"
  "unat (w AND 0xffff) = unat w mod 65536"
  for w :: "'a::len word"
  using unat_and_mask [of w 2] unat_and_mask [of w 4] unat_and_mask [of w 6]
    unat_and_mask [of w 8] unat_and_mask [of w 16]
  by (simp_all add: mask_eq_exp_minus_1)

text \<open>Signed reading: on nonnegative values it is the unsigned one.\<close>

lemma sint_small: "unat w < 2 ^ 63 \<Longrightarrow> sint w = int (unat w)" for w :: u64
proof -
  assume "unat w < 2 ^ 63"
  then have "int (unat w) < int (2 ^ 63)" by (simp only: of_nat_less_iff)
  moreover have "- (2 ^ 63) \<le> int (unat w)" by (rule order_trans [of _ 0]) simp_all
  ultimately have "signed_take_bit 63 (int (unat w)) = int (unat w)"
    by (intro signed_take_bit_int_eq_self) simp_all
  then show ?thesis by (simp add: sint_uint)
qed

lemma unat_sint: "0 \<le> sint w \<Longrightarrow> int (unat w) = sint w" for w :: u64
proof -
  assume "0 \<le> sint w"
  moreover have "sint w < 2 ^ 63" using sint_lt [of w] by simp
  ultimately have "take_bit 64 (sint w) = sint w" by (simp add: take_bit_int_eq_self)
  moreover have "uint w = take_bit 64 (sint w)"
    using uint_word_of_int [of "sint w", where 'a = 64] by (simp add: take_bit_eq_mod)
  ultimately show ?thesis by simp
qed

lemma sint_diff: "0 \<le> sint x - sint y \<Longrightarrow> sint x - sint y < 2 ^ 63 \<Longrightarrow> sint (x - y) = sint x - sint y"
  for x y :: u64
  by (simp add: sint_word_diff signed_take_bit_int_eq_self)

text \<open>Disjoint bit fields: \<open>OR\<close> is addition.\<close>

lemma bit_unat_less: "unat b < 2 ^ n \<Longrightarrow> bit b m \<Longrightarrow> m < n" for b :: "'a::len word"
proof -
  assume less: "unat b < 2 ^ n" and bit: "bit b m"
  from bit have "bit (unat b) m" by (simp add: bit_unsigned_iff bit_imp_le_length)
  then have "bit (take_bit n (unat b)) m" using less by (simp only: take_bit_nat_eq_self)
  then show "m < n" unfolding bit_take_bit_iff by blast
qed

lemma or_shift: "unat b < 2 ^ n \<Longrightarrow> push_bit n a OR b = push_bit n a + b" for a b :: "'a::len word"
  using bit_unat_less [of b n]
  by (intro disjunctive_add [symmetric]) (auto simp: bit_push_bit_iff not_le)

lemma unat_shift_or:
  fixes a b :: "'a::len word"
  assumes "unat a * 2 ^ n + unat b < 2 ^ LENGTH('a)" "unat b < 2 ^ n"
  shows "unat (push_bit n a OR b) = unat a * 2 ^ n + unat b"
proof -
  have "unat (push_bit n a) = unat a * 2 ^ n" using assms(1) by (intro unat_push_bit) simp
  with assms show ?thesis by (simp only: or_shift unat_add_less)
qed

section \<open>Characters and bytes\<close>

text \<open>\<open>std::string\<close> is a sequence of bytes; \<open>char\<close> is HOL's 8-bit character.\<close>

definition byte_of_char :: "char \<Rightarrow> byte" where
  "byte_of_char c = word_of_nat (of_char c)"

definition char_of_byte :: "byte \<Rightarrow> char" where
  "char_of_byte b = char_of (unat b)"

lemma char_of_byte_of_char [simp]: "char_of_byte (byte_of_char c) = c"
proof -
  have "unat (byte_of_char c) = of_char c"
    unfolding byte_of_char_def
    by (subst unat_of_nat) (simp add: take_bit_nat_eq_self of_char_def)
  then show ?thesis by (simp add: char_of_byte_def)
qed

lemma byte_of_char_of_byte [simp]: "byte_of_char (char_of_byte b) = b"
proof -
  have "unat b < 2 ^ 8" using unat_less_exp [of b] by simp
  then have "(of_char (char_of (unat b)) :: nat) = unat b"
    by (simp add: of_char_mod_256)
  then show ?thesis by (simp add: char_of_byte_def byte_of_char_def)
qed

lemma map_char_of_byte_of_char [simp]:
  "map (char_of_byte \<circ> byte_of_char) cs = cs"
  "map (byte_of_char \<circ> char_of_byte) bs = bs"
  by (simp_all add: o_def)

section \<open>Lists\<close>

text \<open>
  Reading a string at its length yields the terminating null character (\<open>std::string\<close>'s
  \<open>operator[]\<close> and \<open>c_str()\<close>).
\<close>

definition at_or_nul :: "string \<Rightarrow> nat \<Rightarrow> char" where
  "at_or_nul s i = (if i < length s then s ! i else CHR 0x00)"

lemma at_or_nul_less [simp]: "i < length s \<Longrightarrow> at_or_nul s i = s ! i"
  by (simp add: at_or_nul_def)

lemma at_or_nul_beyond [simp]: "\<not> i < length s \<Longrightarrow> at_or_nul s i = CHR 0x00"
  by (simp add: at_or_nul_def)

text \<open>Every index below a numeral bound, enumerated: for tables of constants.\<close>

lemma all_less_numeral:
  "(\<forall>i < numeral k. P i) \<longleftrightarrow> (\<forall>i \<in> set [0..<numeral k]. P i)"
  by auto

section \<open>Decimal numbers\<close>

text \<open>The decimal form of an integer.\<close>

definition digit :: "nat \<Rightarrow> char" where
  "digit d = char_of (48 + d)"

fun show_nat :: "nat \<Rightarrow> string" where
  "show_nat n = (if n < 10 then [digit n] else show_nat (n div 10) @ [digit (n mod 10)])"

declare show_nat.simps [simp del]

definition show_int :: "int \<Rightarrow> string" where
  "show_int n = (if n < 0 then CHR ''-'' # show_nat (nat (- n)) else show_nat (nat n))"

lemma of_char_digit: "d < 10 \<Longrightarrow> (of_char (digit d) :: nat) = 48 + d"
  by (simp add: digit_def of_char_mod_256)

lemma show_nat_chars: "c \<in> set (show_nat n) \<Longrightarrow> (of_char c :: nat) \<in> {48..57}"
proof (induction n rule: show_nat.induct)
  case (1 n)
  show ?case
  proof (cases "n < 10")
    case True
    then show ?thesis using 1(2) by (subst (asm) show_nat.simps) (simp add: of_char_digit)
  next
    case False
    then have "c \<in> set (show_nat (n div 10)) \<or> c = digit (n mod 10)"
      using 1(2) by (subst (asm) show_nat.simps) auto
    then show ?thesis using 1(1) False by (auto simp: of_char_digit)
  qed
qed

end
