(* ===== verification/Base64.thy ===== *)
theory Base64
  imports HkuPrelude
begin

text \<open>
  \<open>hikyuu/utilities/base64.cpp\<close>: the encoder with its two alphabets and its 32-bit position
  counter, the line-breaking variants, and the decoder with its liberal alphabet and its optional
  padding. Lemmas: the encoder computes a structural reference encoding whenever its counter
  cannot wrap and never returns when it must; decoding inverts encoding, with and without line
  breaks; what an accepted input looks like.
\<close>

section \<open>Definitions\<close>

subsection \<open>The alphabets\<close>

definition base64_chars :: "bool \<Rightarrow> string" where
  "base64_chars url =
     (if url
      then ''ABCDEFGHIJKLMNOPQRSTUVWXYZabcdefghijklmnopqrstuvwxyz0123456789-_''
      else ''ABCDEFGHIJKLMNOPQRSTUVWXYZabcdefghijklmnopqrstuvwxyz0123456789+/'')"

text \<open>\<open>pos_of_char\<close>: the arithmetic on characters is the code's, on \<open>unsigned int\<close>.\<close>

definition pos_of_char :: "char \<Rightarrow> u32 result" where
  "pos_of_char chr =
     (let c = (of_char chr :: nat); code = (\<lambda>k. (of_char k :: nat)) in
      if code CHR ''A'' \<le> c \<and> c \<le> code CHR ''Z''
      then Inr (word_of_nat (c - code CHR ''A''))
      else if code CHR ''a'' \<le> c \<and> c \<le> code CHR ''z''
      then Inr (word_of_nat (c - code CHR ''a'' + (code CHR ''Z'' - code CHR ''A'') + 1))
      else if code CHR ''0'' \<le> c \<and> c \<le> code CHR ''9''
      then Inr (word_of_nat (c - code CHR ''0'' + (code CHR ''Z'' - code CHR ''A'') +
                              (code CHR ''z'' - code CHR ''a'') + 2))
      else if chr = CHR ''+'' \<or> chr = CHR ''-'' then Inr 62
      else if chr = CHR ''/'' \<or> chr = CHR ''_'' then Inr 63
      else Inl RuntimeError)"

subsection \<open>Encoding\<close>

text \<open>
  A byte as the \<open>int\<close> it is promoted to, and one table access. The index expressions below are
  the code's, on the promoted values.
\<close>

definition promote :: "byte \<Rightarrow> u32" where
  "promote b = ucast b"

definition enc_char :: "bool \<Rightarrow> u32 \<Rightarrow> char" where
  "enc_char url i = base64_chars url ! unat i"

definition trailing_char :: "bool \<Rightarrow> char" where
  "trailing_char url = (if url then CHR ''.'' else CHR ''='')"

text \<open>
  The loop of \<open>base64_encode\<close>. \<open>pos\<close> is an \<open>unsigned int\<close> and \<open>in_len\<close> a \<open>size_t\<close>, so \<open>pos + 1\<close>,
  \<open>pos + 2\<close> and \<open>pos += 3\<close> wrap at 32 bits and the comparison with the length does not;
  \<open>None\<close> is a loop that never ends.
\<close>

partial_function (option) base64_encode_loop ::
    "byte list \<Rightarrow> bool \<Rightarrow> u32 \<Rightarrow> string \<Rightarrow> string option" where
  "base64_encode_loop bytes url pos ret =
     (if unat pos < length bytes then
        let b0 = promote (bytes ! unat pos);
            c0 = enc_char url (drop_bit 2 (b0 AND 0xfc))
        in if unat (pos + 1) < length bytes then
             let b1 = promote (bytes ! unat (pos + 1));
                 c1 = enc_char url (push_bit 4 (b0 AND 0x03) + drop_bit 4 (b1 AND 0xf0))
             in if unat (pos + 2) < length bytes then
                  let b2 = promote (bytes ! unat (pos + 2));
                      c2 = enc_char url (push_bit 2 (b1 AND 0x0f) + drop_bit 6 (b2 AND 0xc0));
                      c3 = enc_char url (b2 AND 0x3f)
                  in base64_encode_loop bytes url (pos + 3) (ret @ [c0, c1, c2, c3])
                else
                  base64_encode_loop bytes url (pos + 3)
                    (ret @ [c0, c1, enc_char url (push_bit 2 (b1 AND 0x0f)), trailing_char url])
           else
             base64_encode_loop bytes url (pos + 3)
               (ret @ [c0, enc_char url (push_bit 4 (b0 AND 0x03)),
                       trailing_char url, trailing_char url])
      else Some ret)"

text \<open>
  \<open>base64_encode(unsigned char const*, size_t, bool)\<close> on a non-null buffer, and the overload on
  strings.
\<close>

definition base64_encode :: "byte list \<Rightarrow> bool \<Rightarrow> string option" where
  "base64_encode bytes url =
     (if length bytes = 0 then Some [] else base64_encode_loop bytes url 0 [])"

definition base64_encode_str :: "string \<Rightarrow> bool \<Rightarrow> string option" where
  "base64_encode_str s url = base64_encode (map byte_of_char s) url"

text \<open>
  \<open>insert_linebreaks\<close>: \<open>pos\<close> moves past each inserted character. The distances in use are the
  template arguments 64 and 76; \<open>None\<close> is again a loop that never ends (a distance of 0).
\<close>

partial_function (option) insert_linebreaks_loop :: "string \<Rightarrow> nat \<Rightarrow> nat \<Rightarrow> string option" where
  "insert_linebreaks_loop str distance pos =
     (if pos < length str
      then insert_linebreaks_loop (take pos str @ CHR 0x0A # drop pos str) distance
             (pos + distance + 1)
      else Some str)"

definition insert_linebreaks :: "string \<Rightarrow> nat \<Rightarrow> string option" where
  "insert_linebreaks str distance =
     (if length str = 0 then Some [] else insert_linebreaks_loop str distance distance)"

definition encode_with_line_breaks :: "nat \<Rightarrow> string \<Rightarrow> string option" where
  "encode_with_line_breaks line_length s =
     Option.bind (base64_encode_str s False) (\<lambda>e. insert_linebreaks e line_length)"

definition base64_encode_pem :: "string \<Rightarrow> string option" where
  "base64_encode_pem s = encode_with_line_breaks 64 s"

definition base64_encode_mime :: "string \<Rightarrow> string option" where
  "base64_encode_mime s = encode_with_line_breaks 76 s"

subsection \<open>Decoding\<close>

text \<open>\<open>static_cast<std::string::value_type>\<close> of an unsigned value: its low byte.\<close>

definition to_value_type :: "u32 \<Rightarrow> char" where
  "to_value_type w = char_of_byte (ucast w)"

text \<open>
  One chunk of \<open>decode\<close> at \<open>pos\<close>: the first output byte, the second unless the third character
  is missing or padding, the third unless the fourth is. A chunk of a single character reads the
  terminating null character as its second one.
\<close>

definition is_padding :: "char \<Rightarrow> bool" where
  "is_padding c \<longleftrightarrow> c = CHR ''='' \<or> c = CHR ''.''"

definition decode_chunk :: "string \<Rightarrow> nat \<Rightarrow> string result" where
  "decode_chunk s pos =
     bind_result (pos_of_char (at_or_nul s (pos + 1))) (\<lambda>p1.
     bind_result (pos_of_char (at_or_nul s pos)) (\<lambda>p0.
       let o1 = to_value_type (push_bit 2 p0 + drop_bit 4 (p1 AND 0x30)) in
       if pos + 2 < length s \<and> \<not> is_padding (s ! (pos + 2)) then
         bind_result (pos_of_char (s ! (pos + 2))) (\<lambda>p2.
           let o2 = to_value_type (push_bit 4 (p1 AND 0x0f) + drop_bit 2 (p2 AND 0x3c)) in
           if pos + 3 < length s \<and> \<not> is_padding (s ! (pos + 3)) then
             bind_result (pos_of_char (s ! (pos + 3))) (\<lambda>p3.
               Inr [o1, o2, to_value_type (push_bit 6 (p2 AND 0x03) + p3)])
           else Inr [o1, o2])
       else Inr [o1]))"

function decode_loop :: "string \<Rightarrow> nat \<Rightarrow> string \<Rightarrow> string result" where
  "decode_loop s pos ret =
     (if pos < length s
      then bind_result (decode_chunk s pos) (\<lambda>out. decode_loop s (pos + 4) (ret @ out))
      else Inr ret)"
  by pat_completeness auto
termination
  by (relation "measure (\<lambda>(s, pos, ret). length s - pos)") auto

declare decode_loop.simps [simp del]

text \<open>
  \<open>base64_decode(const std::string&, bool)\<close>: the copy without line breaks is decoded with
  \<open>remove_linebreaks\<close> false.
\<close>

definition base64_decode :: "string \<Rightarrow> bool \<Rightarrow> string result" where
  "base64_decode s remove_linebreaks =
     (if s = [] then Inr []
      else if remove_linebreaks
      then (let copy = filter (\<lambda>c. c \<noteq> CHR 0x0A) s in
            if copy = [] then Inr [] else decode_loop copy 0 [])
      else decode_loop s 0 [])"

section \<open>Encoding\<close>

lemma unat_promote [simp]: "unat (promote b) = unat b"
  unfolding promote_def using unat_less_exp [of b]
  by (simp add: unsigned_ucast_eq take_bit_nat_eq_self)


lemma unat_select_bits [unat_bits]:
  "unat (drop_bit 2 (x AND 0xfc)) = unat x div 4 mod 64"
  "unat (drop_bit 4 (x AND 0xf0)) = unat x div 16 mod 16"
  "unat (drop_bit 6 (x AND 0xc0)) = unat x div 64 mod 4"
  "unat (drop_bit 4 (x AND 0x30)) = unat x div 16 mod 4"
  "unat (drop_bit 2 (x AND 0x3c)) = unat x div 4 mod 16"
  for x :: u32
  by (simp_all add: unat_drop_bit unat_and_low)

declare push_bit_and [simp del] drop_bit_and [simp del]

lemma pos_of_base64_chars:
  "map pos_of_char (base64_chars url) = map (\<lambda>i. Inr (word_of_nat i)) [0..<64]"
  by (cases url) (simp_all add: base64_chars_def pos_of_char_def upt_rec)

lemma length_base64_chars [simp]: "length (base64_chars url) = 64"
  by (simp add: base64_chars_def)

lemma pos_of_enc_char:
  assumes "unat i < 64"
  shows "pos_of_char (enc_char url i) = Inr i"
proof -
  have "map pos_of_char (base64_chars url) ! unat i = Inr i"
    using assms by (simp only: pos_of_base64_chars) simp
  with assms show ?thesis by (simp add: enc_char_def)
qed

lemma unat_push_add [unat_bits]:
  "unat (push_bit 4 (x AND 3) + drop_bit 4 (y AND 0xf0)) = unat x mod 4 * 16 + unat y div 16 mod 16"
  "unat (push_bit 2 (x AND 0xf) + drop_bit 6 (y AND 0xc0)) = unat x mod 16 * 4 + unat y div 64 mod 4"
  "unat (push_bit 4 (x AND 3)) = unat x mod 4 * 16"
  "unat (push_bit 2 (x AND 0xf)) = unat x mod 16 * 4"
  for x :: u32
proof -
  have a: "unat x mod 4 < 4" "unat x mod 16 < 16"  "unat y div 16 mod 16 < 16" "unat y div 64 mod 4 < 4" by simp_all
  have p: "unat (push_bit 4 (x AND 3)) = unat x mod 4 * 16"
     "unat (push_bit 2 (x AND 0xf)) = unat x mod 16 * 4"
    using a by (subst unat_push_bit; simp add: unat_bits)+
  then show "unat (push_bit 4 (x AND 3)) = unat x mod 4 * 16"
  "unat (push_bit 2 (x AND 0xf)) = unat x mod 16 * 4" by simp_all
  show "unat (push_bit 4 (x AND 3) + drop_bit 4 (y AND 0xf0)) = unat x mod 4 * 16 + unat y div 16 mod 16"
  "unat (push_bit 2 (x AND 0xf) + drop_bit 6 (y AND 0xc0)) = unat x mod 16 * 4 + unat y div 64 mod 4"
    using a by (subst unat_add_less; simp add: p unat_bits)+
qed

lemma enc_index_less [simp]: 
  "unat (drop_bit 2 (promote a AND 0xfc)) < 64"
  "unat (push_bit 4 (promote a AND 3) + drop_bit 4 (promote b AND 0xf0)) < 64"
  "unat (push_bit 2 (promote a AND 0xf) + drop_bit 6 (promote b AND 0xc0)) < 64"
  "unat (push_bit 4 (promote a AND 3)) < 64"
  "unat (push_bit 2 (promote a AND 0xf)) < 64"
  "unat (promote a AND 0x3f) < 64"
  by (simp only: unat_bits unat_promote; presburger)+

fun enc3 :: "bool \<Rightarrow> byte list \<Rightarrow> string" where
  "enc3 url [] = []"
| "enc3 url [a] =
     [enc_char url (drop_bit 2 (promote a AND 0xfc)), enc_char url (push_bit 4 (promote a AND 0x03)),
      trailing_char url, trailing_char url]"
| "enc3 url [a, b] =
     [enc_char url (drop_bit 2 (promote a AND 0xfc)),
      enc_char url (push_bit 4 (promote a AND 0x03) + drop_bit 4 (promote b AND 0xf0)),
      enc_char url (push_bit 2 (promote b AND 0x0f)), trailing_char url]"
| "enc3 url (a # b # c # rest) =
     [enc_char url (drop_bit 2 (promote a AND 0xfc)),
      enc_char url (push_bit 4 (promote a AND 0x03) + drop_bit 4 (promote b AND 0xf0)),
      enc_char url (push_bit 2 (promote b AND 0x0f) + drop_bit 6 (promote c AND 0xc0)),
      enc_char url (promote c AND 0x3f)] @ enc3 url rest"

lemma drop_cases3:
  "p + 2 < length xs \<Longrightarrow> drop p xs = xs ! p # xs ! (p + 1) # xs ! (p + 2) # drop (p + 3) xs"
  "p + 2 = length xs \<Longrightarrow> drop p xs = [xs ! p, xs ! (p + 1)]"
  "p + 1 = length xs \<Longrightarrow> drop p xs = [xs ! p]"
  by (simp_all add: Cons_nth_drop_Suc [symmetric] eval_nat_numeral)

lemma base64_encode_loop_ref:
  assumes "length bytes < 2 ^ 32" "3 dvd p" "p < 2 ^ 32"
  shows "base64_encode_loop bytes url (word_of_nat p) ret = Some (ret @ enc3 url (drop p bytes))"
  using assms(2,3)
proof (induction "length bytes - p" arbitrary: p ret rule: less_induct)
  case less
  have p: "unat (word_of_nat p :: u32) = p"
    using less.prems by (intro unat_of_nat_less) simp
  show ?case
  proof (cases "p < length bytes")
    case True
    with assms(1) less.prems have next_less: "p + 3 < 2 ^ 32" "3 dvd p + 3"
      by (auto, presburger)
    have p1: "unat (word_of_nat p + 1 :: u32) = p + 1"
      using unat_of_nat_add [of p 1, where 'a = 32] next_less(1) by simp
    have p2: "unat (word_of_nat p + 2 :: u32) = p + 2"
      using unat_of_nat_add [of p 2, where 'a = 32] next_less(1) by simp
    have IH: "base64_encode_loop bytes url (word_of_nat p + 3) ret' = Some (ret' @ enc3 url (drop (p + 3) bytes))" for ret'
      using less.hyps [of "p + 3" ret'] True next_less by (simp add: add.commute)
    consider "p + 2 < length bytes" | "p + 2 = length bytes" | "p + 1 = length bytes"
      using True by linarith
    then show ?thesis
    proof cases
      case 1
      then show ?thesis
        by (subst base64_encode_loop.simps)
           (simp only: p p1 p2 IH Let_def drop_cases3(1) [OF 1] enc3.simps append_assoc, simp)
    next
      case 2
      then show ?thesis
        by (subst base64_encode_loop.simps)
           (simp only: p p1 p2 IH Let_def drop_cases3(2) [OF 2] enc3.simps append_assoc, simp)
    next
      case 3
      then show ?thesis
        by (subst base64_encode_loop.simps)
           (simp only: p p1 p2 IH Let_def drop_cases3(3) [OF 3] enc3.simps append_assoc, simp)
    qed
  next
    case False
    then show ?thesis by (subst base64_encode_loop.simps) (simp add: p)
  qed
qed

lemma base64_encode_ref:
  "length bytes < 2 ^ 32 \<Longrightarrow> base64_encode bytes url = Some (enc3 url bytes)"
  using base64_encode_loop_ref [of bytes 0 url "[]"] by (simp add: base64_encode_def)

lemma unat_ucast_byte: "unat (ucast (w :: u32) :: byte) = unat w mod 256"
  by (simp add: unsigned_ucast_eq take_bit_eq_mod)

lemma to_value_type_eqI: "unat w = unat b \<Longrightarrow> to_value_type w = char_of_byte b"
  unfolding to_value_type_def
  by (rule arg_cong [where f = char_of_byte], rule word_unat_eq_iff [THEN iffD2])
     (simp add: unat_ucast_byte mod_less [OF unat_byte_less])

lemma pos_of_char_not_padding: "pos_of_char c = Inr i \<Longrightarrow> \<not> is_padding c"
  by (auto simp: is_padding_def pos_of_char_def)

lemma is_padding_trailing [simp]: "is_padding (trailing_char url)"
  by (simp add: is_padding_def trailing_char_def)

lemma unat_decode_bits:
  "unat p0 < 64 \<Longrightarrow> unat (push_bit 2 p0 + drop_bit 4 (p1 AND 0x30)) = unat p0 * 4 + unat p1 div 16 mod 4"
  "unat (push_bit 4 (p1 AND 0x0f) + drop_bit 2 (p2 AND 0x3c)) = unat p1 mod 16 * 16 + unat p2 div 4 mod 16"
  "unat p3 < 64 \<Longrightarrow> unat (push_bit 6 (p2 AND 0x03) + p3) = unat p2 mod 4 * 64 + unat p3"
  for p0 p1 p2 p3 :: u32
proof -
  have a: "unat p1 mod 16 < 16" "unat p2 div 4 mod 16 < 16" "unat p1 div 16 mod 4 < 4" "unat p2 mod 4 < 4"
    by simp_all
  have p: "unat (push_bit 4 (p1 AND 0x0f)) = unat p1 mod 16 * 16"
    "unat (push_bit 6 (p2 AND 0x03)) = unat p2 mod 4 * 64"
    using a by (subst unat_push_bit; simp add: unat_bits)+
  show "unat p0 < 64 \<Longrightarrow> unat (push_bit 2 p0 + drop_bit 4 (p1 AND 0x30)) = unat p0 * 4 + unat p1 div 16 mod 4"
    using a by (subst unat_add_less; simp add: unat_push_bit unat_bits)
  show "unat (push_bit 4 (p1 AND 0x0f) + drop_bit 2 (p2 AND 0x3c)) = unat p1 mod 16 * 16 + unat p2 div 4 mod 16"
    using a by (subst unat_add_less; simp add: p unat_bits)
  show "unat p3 < 64 \<Longrightarrow> unat (push_bit 6 (p2 AND 0x03) + p3) = unat p2 mod 4 * 64 + unat p3"
    using a by (subst unat_add_less; simp add: p unat_bits)
qed

lemma div_mod_digit:
  "j < m \<Longrightarrow> (k * m + j) div m = k" "j < m \<Longrightarrow> (k * m + j) mod m = j" for k j m :: nat
  by simp_all

lemma nat_split_bits:
  "(k * 16 + y div 16 mod 16) div 16 mod 4 = k mod 4"
  "(k * 16 + y div 16 mod 16) mod 16 = y div 16 mod 16"
  "(k * 4 + y div 64 mod 4) div 4 mod 16 = k mod 16"
  "(k * 4 + y div 64 mod 4) mod 4 = y div 64 mod 4"
  "k * 16 div 16 mod 4 = k mod 4"
  "k * 4 div 4 mod 16 = k mod 16"
  for k y :: nat
  by (simp_all only: div_mod_digit mod_less_divisor zero_less_numeral) simp_all

lemma nat_join_bits:
  "n < 256 \<Longrightarrow> n div 4 mod 64 * 4 + n mod 4 mod 4 = n"
  "n < 256 \<Longrightarrow> n div 16 mod 16 * 16 + n mod 16 mod 16 = n"
  "n < 256 \<Longrightarrow> n div 64 mod 4 * 64 + n mod 64 = n"
  for n :: nat
  using div_mult_mod_eq [of n 4] div_mult_mod_eq [of n 16] div_mult_mod_eq [of n 64]
  by (simp_all add: less_mult_imp_div_less)

lemma decode_index_inverse:
  fixes a b c :: byte
  defines "i0 \<equiv> drop_bit 2 (promote a AND 0xfc)"
    and "i1 \<equiv> push_bit 4 (promote a AND 0x03) + drop_bit 4 (promote b AND 0xf0)"
    and "i2 \<equiv> push_bit 2 (promote b AND 0x0f) + drop_bit 6 (promote c AND 0xc0)"
    and "i3 \<equiv> promote c AND 0x3f"
    and "j1 \<equiv> push_bit 4 (promote a AND 0x03)"
    and "j2 \<equiv> push_bit 2 (promote b AND 0x0f)"
  shows "to_value_type (push_bit 2 i0 + drop_bit 4 (i1 AND 0x30)) = char_of_byte a"
    and "to_value_type (push_bit 2 i0 + drop_bit 4 (j1 AND 0x30)) = char_of_byte a"
    and "to_value_type (push_bit 4 (i1 AND 0x0f) + drop_bit 2 (i2 AND 0x3c)) = char_of_byte b"
    and "to_value_type (push_bit 4 (i1 AND 0x0f) + drop_bit 2 (j2 AND 0x3c)) = char_of_byte b"
    and "to_value_type (push_bit 6 (i2 AND 0x03) + i3) = char_of_byte c"
proof -
  have small: "unat i0 < 64" "unat i3 < 64"
    by (simp_all add: i0_def i3_def unat_bits)
  have u: "unat i0 = unat a div 4 mod 64" "unat i1 = unat a mod 4 * 16 + unat b div 16 mod 16"
    "unat i2 = unat b mod 16 * 4 + unat c div 64 mod 4" "unat i3 = unat c mod 64"
    "unat j1 = unat a mod 4 * 16" "unat j2 = unat b mod 16 * 4"
    by (simp_all add: i0_def i1_def i2_def i3_def j1_def j2_def unat_bits)
  note r = to_value_type_eqI trans [OF unat_decode_bits(1) [OF small(1)]] trans [OF unat_decode_bits(2)]
    trans [OF unat_decode_bits(3) [OF small(2)]]
  show "to_value_type (push_bit 2 i0 + drop_bit 4 (i1 AND 0x30)) = char_of_byte a"
    "to_value_type (push_bit 2 i0 + drop_bit 4 (j1 AND 0x30)) = char_of_byte a"
    "to_value_type (push_bit 4 (i1 AND 0x0f) + drop_bit 2 (i2 AND 0x3c)) = char_of_byte b"
    "to_value_type (push_bit 4 (i1 AND 0x0f) + drop_bit 2 (j2 AND 0x3c)) = char_of_byte b"
    "to_value_type (push_bit 6 (i2 AND 0x03) + i3) = char_of_byte c"
    by (intro r, simp only: u nat_split_bits nat_join_bits unat_byte_less)+
qed

section \<open>Decoding\<close>

function decode_ref :: "string \<Rightarrow> string result" where
  "decode_ref s =
     (if s = [] then Inr []
      else bind_result (decode_chunk s 0) (\<lambda>out. bind_result (decode_ref (drop 4 s)) (\<lambda>r. Inr (out @ r))))"
  by pat_completeness auto
termination by (relation "measure length") auto
declare decode_ref.simps [simp del]

lemma decode_chunk_drop: "pos \<le> length s \<Longrightarrow> decode_chunk s pos = decode_chunk (drop pos s) 0"
  by (simp add: decode_chunk_def at_or_nul_def less_diff_conv add.commute cong: if_cong)

lemma decode_loop_ref:
  "decode_loop s pos ret = bind_result (decode_ref (drop pos s)) (\<lambda>r. Inr (ret @ r))"
proof (induction s pos ret rule: decode_loop.induct)
  case (1 s pos ret)
  show ?case
  proof (cases "pos < length s")
    case True
    have "decode_loop s pos ret = bind_result (decode_chunk s pos)
        (\<lambda>out. bind_result (decode_ref (drop (pos + 4) s)) (\<lambda>r. Inr ((ret @ out) @ r)))"
      using True by (subst decode_loop.simps) (simp add: "1.IH" cong: )
    also have "\<dots> = bind_result (decode_ref (drop pos s)) (\<lambda>r. Inr (ret @ r))"
      using True by (subst (2) decode_ref.simps)
        (simp add: bind_result_assoc decode_chunk_drop [of pos] add.commute)
    finally show ?thesis .
  next
    case False
    then show ?thesis by (simp add: decode_loop.simps [of s] decode_ref.simps)
  qed
qed

lemma decode_ref_enc3: "decode_ref (enc3 url bytes) = Inr (map char_of_byte bytes)"
proof (induction url bytes rule: enc3.induct)
  case (1 url)
  then show ?case by (simp add: decode_ref.simps)
next
  case (2 url a)
  then show ?case
    by (subst decode_ref.simps) (simp add: decode_chunk_def at_or_nul_def pos_of_enc_char decode_index_inverse decode_ref.simps [of "[]"])
next
  case (3 url a b)
  show ?case
    by (subst decode_ref.simps) (simp add: decode_chunk_def at_or_nul_def pos_of_enc_char decode_index_inverse decode_ref.simps [of "[]"]
     pos_of_char_not_padding [OF pos_of_enc_char])
next
  case (4 url a b c rest)
  then show ?case
    by (subst decode_ref.simps) (simp add: decode_chunk_def at_or_nul_def pos_of_enc_char decode_index_inverse 
     pos_of_char_not_padding [OF pos_of_enc_char])
qed

section \<open>Line breaks\<close>

text \<open>
  The reference: lines of \<open>d\<close> characters, the last one shorter or equal, separated by newlines.
\<close>

function break_lines :: "nat \<Rightarrow> string \<Rightarrow> string" where
  "break_lines d s =
     (if d = 0 \<or> length s \<le> d then s else take d s @ CHR 0x0A # break_lines d (drop d s))"
  by pat_completeness auto
termination
  by (relation "measure (\<lambda>(d, s). length s)") auto

declare break_lines.simps [simp del]

lemma insert_linebreaks_loop_ref:
  assumes "0 < d"
  shows "insert_linebreaks_loop (pre @ s) d (length pre + d) = Some (pre @ break_lines d s)"
proof (induction "length s" arbitrary: pre s rule: less_induct)
  case less
  show ?case
  proof (cases "d < length s")
    case True
    let ?pre = "pre @ take d s @ [CHR 0x0A]"
    have "insert_linebreaks_loop (?pre @ drop d s) d (length ?pre + d) =
        Some (?pre @ break_lines d (drop d s))"
      using True assms by (intro less) simp
    with True assms show ?thesis
      by (subst insert_linebreaks_loop.simps) (simp add: break_lines.simps [of d s])
  next
    case False
    then show ?thesis
      by (subst insert_linebreaks_loop.simps) (simp add: break_lines.simps [of d s])
  qed
qed

lemma insert_linebreaks_ref:
  "0 < d \<Longrightarrow> insert_linebreaks s d = Some (break_lines d s)"
  using insert_linebreaks_loop_ref [of d "[]" s]
  by (simp add: insert_linebreaks_def break_lines.simps [of d "[]"])

lemma filter_break_lines:
  "filter (\<lambda>c. c \<noteq> CHR 0x0A) (break_lines d s) = filter (\<lambda>c. c \<noteq> CHR 0x0A) s"
proof (induction d s rule: break_lines.induct)
  case (1 d s)
  have "filter P (take d s) @ filter P (drop d s) = filter P s" for P
    by (simp flip: filter_append)
  with 1 show ?case
    by (subst break_lines.simps) simp
qed

lemma pos_of_newline: "pos_of_char CHR 0x0A = Inl RuntimeError"
  by (simp add: pos_of_char_def)

lemma enc_char_not_newline: "unat i < 64 \<Longrightarrow> CHR 0x0A \<noteq> enc_char url i"
  using pos_of_enc_char [of i url] pos_of_newline by (metis Inr_Inl_False)

lemma newline_notin_enc3: "CHR 0x0A \<notin> set (enc3 url bytes)"
  by (induction url bytes rule: enc3.induct) (simp_all add: trailing_char_def enc_char_not_newline)

lemma base64_decode_enc3: "base64_decode (enc3 url bytes) False = Inr (map char_of_byte bytes)"
  by (cases "enc3 url bytes = []")
    (use decode_ref_enc3 [of url bytes] in \<open>simp_all add: base64_decode_def decode_loop_ref
       decode_ref.simps [of "[]"]\<close>)

lemma base64_decode_linebreaks:
  assumes "CHR 0x0A \<notin> set e"
  shows "base64_decode (break_lines d e) True = base64_decode e False"
proof -
  have "filter (\<lambda>c. c \<noteq> CHR 0x0A) (break_lines d e) = e"
    using assms by (simp add: filter_break_lines filter_id_conv) blast
  moreover have "break_lines d e = [] \<longleftrightarrow> e = []"
    by (subst break_lines.simps) auto
  ultimately show ?thesis by (simp add: base64_decode_def)
qed

lemma length_enc3: "length (enc3 url bytes) = (length bytes + 2) div 3 * 4"
proof (induction url bytes rule: enc3.induct)
  case (4 url a b c rest)
  have "(length rest + 2 + 3) div 3 = (length rest + 2) div 3 + 1"
    by (rule div_add_self2) simp
  with 4 show ?case by (simp add: add.commute)
qed simp_all

lemmas base64_encode_str_ref =
  base64_encode_ref [of "map byte_of_char s" for s, folded base64_encode_str_def, simplified]

section \<open>Accepted inputs\<close>

text \<open>
  What \<open>decode\<close> accepts, position by position: a legal character in the first two places of a
  chunk, a legal or padding character in the third, and anything in the fourth once the third is
  padding (it is never looked at); a chunk of one character is refused.
\<close>

definition base64_legal :: "char \<Rightarrow> bool" where
  "base64_legal c \<longleftrightarrow> is_ok (pos_of_char c)"

definition valid_at :: "string \<Rightarrow> nat \<Rightarrow> bool" where
  "valid_at s i =
     (if i mod 4 \<le> 1 then base64_legal (s ! i)
      else if i mod 4 = 2 then base64_legal (s ! i) \<or> is_padding (s ! i)
      else base64_legal (s ! i) \<or> is_padding (s ! i) \<or> is_padding (s ! (i - 1)))"

definition valid_base64 :: "string \<Rightarrow> bool" where
  "valid_base64 s \<longleftrightarrow> length s mod 4 \<noteq> 1 \<and> list_all (valid_at s) [0..<length s]"

lemma base64_legal_nul [simp]: "\<not> base64_legal CHR 0x00"
  by (simp add: base64_legal_def pos_of_char_def)

lemma pos_of_char_legal: "base64_legal c \<Longrightarrow> \<exists>w. pos_of_char c = Inr w"
  by (simp add: base64_legal_def is_ok_iff)

lemma pos_of_char_illegal: "\<not> base64_legal c \<Longrightarrow> pos_of_char c = Inl RuntimeError"
  by (auto simp: base64_legal_def pos_of_char_def Let_def)

lemma pos_of_char_total: "pos_of_char c = Inl RuntimeError \<or> (\<exists>w. pos_of_char c = Inr w)"
  using pos_of_char_legal pos_of_char_illegal by blast

lemma all_min4: "(\<forall>i < min 4 n. P i) \<longleftrightarrow>
    (0 < n \<longrightarrow> P 0) \<and> (1 < n \<longrightarrow> P 1) \<and> (2 < n \<longrightarrow> P 2) \<and> (3 < n \<longrightarrow> P (3 :: nat))"
  by (auto simp: numeral_eq_Suc less_Suc_eq)

lemma decode_chunk_cases:
  assumes "s \<noteq> []"
  shows "if length s \<noteq> 1 \<and> (\<forall>i < min 4 (length s). valid_at s i)
         then is_ok (decode_chunk s 0) else decode_chunk s 0 = Inl RuntimeError"
proof (cases "base64_legal (at_or_nul s 1) \<and> base64_legal (s ! 0)")
  case False
  moreover have "length s = 1 \<or> 1 < length s"
    using assms by (cases s) auto
  ultimately show ?thesis
    using pos_of_char_total [of "at_or_nul s 1"] unfolding all_min4
    by (elim disjE)
       (auto simp: valid_at_def decode_chunk_def pos_of_char_illegal bind_result_Inl_iff
          dest!: pos_of_char_legal)
next
  case True
  then obtain w0 w1 where w: "pos_of_char (s ! 0) = Inr w0" "pos_of_char (at_or_nul s 1) = Inr w1"
    by (auto dest!: pos_of_char_legal)
  have len: "1 < length s"
    using True assms by (cases "length s") (auto simp: at_or_nul_def split: if_splits)
  show ?thesis
    using True assms w len
    unfolding all_min4
    by (cases "base64_legal (s ! 2)"; cases "base64_legal (s ! 3)")
       (auto simp: valid_at_def decode_chunk_def pos_of_char_illegal Let_def
          simp del: add_2_eq_Suc add_2_eq_Suc' dest!: pos_of_char_legal)
qed

lemma valid_at_drop4: "valid_at (drop 4 s) i \<longleftrightarrow> valid_at s (i + 4)" if "i + 4 < length s"
  using that by (auto simp: valid_at_def add.commute)

lemma all_less_split4:
  "(\<forall>i < n. P i) \<longleftrightarrow> (\<forall>i < min 4 n. P i) \<and> (\<forall>i < n - 4. P (i + 4 :: nat))"
proof -
  have "P j" if "\<forall>i < min 4 n. P i" "\<forall>i < n - 4. P (i + 4)" "j < n" for j
    using that(1) [rule_format, of j] that(2) [rule_format, of "j - 4"] that(3) by (cases "j < 4") auto
  then show ?thesis by auto
qed

lemma valid_base64_step:
  assumes "s \<noteq> []"
  shows "valid_base64 s \<longleftrightarrow>
    (length s \<noteq> 1 \<and> (\<forall>i < min 4 (length s). valid_at s i)) \<and> valid_base64 (drop 4 s)"
proof -
  have "length s mod 4 \<noteq> 1 \<longleftrightarrow> length s \<noteq> 1 \<and> (length s - 4) mod 4 \<noteq> 1"
    by (cases "length s < 4") (auto simp: le_mod_geq)
  moreover have "(\<forall>i < length s. valid_at s i) \<longleftrightarrow>
      (\<forall>i < min 4 (length s). valid_at s i) \<and> (\<forall>i < length s - 4. valid_at (drop 4 s) i)"
    by (subst all_less_split4) (simp add: valid_at_drop4 less_diff_conv)
  ultimately show ?thesis
    by (auto simp: valid_base64_def list_all_iff)
qed

lemma decode_ref_cases:
  "if valid_base64 s then is_ok (decode_ref s) else decode_ref s = Inl RuntimeError"
proof (induction s rule: decode_ref.induct)
  case (1 s)
  show ?case
  proof (cases "s = []")
    case True
    then show ?thesis by (simp add: decode_ref.simps valid_base64_def)
  next
    case False
    note IH = "1"[OF False, unfolded is_ok_iff]
    show ?thesis
    proof (cases "length s \<noteq> 1 \<and> (\<forall>i < min 4 (length s). valid_at s i)")
      case True
      with decode_chunk_cases [OF False] obtain out where "decode_chunk s 0 = Inr out"
        by (auto simp: is_ok_iff)
      with IH True False show ?thesis
        by (subst (1 2) decode_ref.simps) (auto simp: valid_base64_step is_ok_iff split: if_splits)
    next
      case no: False
      with decode_chunk_cases [OF False] have "decode_chunk s 0 = Inl RuntimeError" by simp
      with no False show ?thesis
        by (subst (1 2) decode_ref.simps) (auto simp: valid_base64_step)
    qed
  qed
qed

section \<open>Properties\<close>

text \<open>
  Property C16: below 4 GiB, encoding (with either alphabet) returns, its result has exactly the
  reserved length, and decoding it gives the original bytes back.
\<close>

theorem base64_roundtrip:
  assumes "length s < 2 ^ 32"
  shows "\<exists>e. base64_encode_str s url = Some e \<and> length e = (length s + 2) div 3 * 4 \<and>
    base64_decode e False = Inr s"
  using assms by (simp add: base64_encode_str_ref base64_decode_enc3 length_enc3)

theorem base64_roundtrip_witness:
  "\<exists>e. base64_encode_str ''hku'' True = Some e \<and> length e = 4 \<and> base64_decode e False = Inr ''hku''"
  using base64_roundtrip [of "''hku''" True] by simp

text \<open>
  The PEM and MIME variants are inverted by \<open>base64_decode\<close> with
  \<open>remove_linebreaks\<close> set.
\<close>

theorem base64_linebreaks_roundtrip:
  assumes "length s < 2 ^ 32" and "encode \<in> {base64_encode_pem, base64_encode_mime}"
  shows "\<exists>e. encode s = Some e \<and> base64_decode e True = Inr s"
  using assms
  by (auto simp: base64_encode_pem_def base64_encode_mime_def encode_with_line_breaks_def
      base64_encode_str_ref insert_linebreaks_ref base64_decode_linebreaks newline_notin_enc3
      base64_decode_enc3)

text \<open>
  Decoding succeeds exactly on the inputs described by \<open>valid_base64\<close> and throws
  \<open>std::runtime_error\<close> on every other input (the header's note says that illegal characters are
  skipped without a warning).
\<close>

theorem base64_decode_accepts:
  "if valid_base64 s then is_ok (base64_decode s False)
   else base64_decode s False = Inl RuntimeError"
  using decode_ref_cases [of s]
  by (auto simp: base64_decode_def decode_loop_ref is_ok_iff valid_base64_def split: if_splits)

text \<open>
  On 4 GiB or more the encoder's 32-bit position wraps before it reaches the length,
  and the loop never ends.
\<close>

theorem base64_encode_diverges:
  assumes "2 ^ 32 \<le> length bytes" 
  shows "base64_encode bytes url = None"
proof -
  have "False" if "base64_encode_loop bytes url pos ret = Some y" for pos ret y
    using assms
  proof (rule_tac base64_encode_loop.raw_induct [where P = "\<lambda>bytes url pos ret y. 2 ^ 32 \<le> length bytes \<longrightarrow> False", OF _ that, THEN mp], goal_cases)
    case (1 f bs url pos ret y)
    have "unat pos < 2 ^ 32" using unat_less_exp [of pos] by simp
    with 1 show ?case by (auto simp: Let_def split: if_splits)
  qed
  with assms show ?thesis by (cases "base64_encode_loop bytes url 0 []") (auto simp: base64_encode_def)
qed

end
