(* ===== verification/StringUtil.thy ===== *)
theory StringUtil
  imports HkuPrelude
begin

text \<open>
  The string helpers of \<open>hikyuu/utilities/arithmetic.h\<close> that the other components call: case
  conversion (in the C locale), \<open>trim\<close>, the two \<open>split\<close> families and the hexadecimal printers.
  Lemmas: each index-based loop equals a structural reference; splitting is inverted by joining;
  printing bytes in hexadecimal is inverted by reading them back.
\<close>

section \<open>Definitions\<close>

subsection \<open>Case conversion and trimming\<close>

definition tolower_char :: "char \<Rightarrow> char" where
  "tolower_char c =
     (let n = (of_char c :: nat) in if 65 \<le> n \<and> n \<le> 90 then char_of (n + 32) else c)"

definition toupper_char :: "char \<Rightarrow> char" where
  "toupper_char c =
     (let n = (of_char c :: nat) in if 97 \<le> n \<and> n \<le> 122 then char_of (n - 32) else c)"

definition to_lower :: "string \<Rightarrow> string" where
  "to_lower s = map tolower_char s"

definition to_upper :: "string \<Rightarrow> string" where
  "to_upper s = map toupper_char s"

text \<open>\<open>std::string\<close>'s searches; \<open>None\<close> is \<open>npos\<close>.\<close>

fun find_first_not_of :: "string \<Rightarrow> char \<Rightarrow> nat option" where
  "find_first_not_of [] c = None"
| "find_first_not_of (x # xs) c =
     (if x = c then map_option Suc (find_first_not_of xs c) else Some 0)"

definition find_last_not_of :: "string \<Rightarrow> char \<Rightarrow> nat option" where
  "find_last_not_of s c = map_option (\<lambda>i. length s - 1 - i) (find_first_not_of (rev s) c)"

text \<open>
  \<open>s.erase(0, n)\<close> removes everything for \<open>n = npos\<close>; \<open>npos + 1\<close> is 0, so \<open>s.erase(npos + 1)\<close>
  removes everything too.
\<close>

definition erase_front :: "string \<Rightarrow> nat option \<Rightarrow> string" where
  "erase_front s n = (case n of None \<Rightarrow> [] | Some k \<Rightarrow> drop k s)"

definition erase_behind :: "string \<Rightarrow> nat option \<Rightarrow> string" where
  "erase_behind s n = (case n of None \<Rightarrow> [] | Some k \<Rightarrow> take (k + 1) s)"

definition trim :: "string \<Rightarrow> string" where
  "trim s =
     (if s = [] then []
      else let s1 = erase_front s (find_first_not_of s CHR '' '');
               s2 = erase_behind s1 (find_last_not_of s1 CHR '' '');
               s3 = erase_behind s2 (find_last_not_of s2 CHR 0x0D)
           in erase_behind s3 (find_last_not_of s3 CHR 0x0A))"

subsection \<open>Splitting\<close>

text \<open>\<open>find_first_of(c, pos)\<close> and \<open>find(str, pos)\<close>: the first occurrence at or after \<open>pos\<close>.\<close>

function find_char_from :: "string \<Rightarrow> char \<Rightarrow> nat \<Rightarrow> nat option" where
  "find_char_from s c pos =
     (if pos < length s then if s ! pos = c then Some pos else find_char_from s c (Suc pos)
      else None)"
  by pat_completeness auto
termination
  by (relation "measure (\<lambda>(s, c, pos). length s - pos)") auto

declare find_char_from.simps [simp del]

function find_str_from :: "string \<Rightarrow> string \<Rightarrow> nat \<Rightarrow> nat option" where
  "find_str_from s sub pos =
     (if pos + length sub \<le> length s
      then if take (length sub) (drop pos s) = sub then Some pos else find_str_from s sub (Suc pos)
      else None)"
  by pat_completeness auto
termination
  by (relation "measure (\<lambda>(s, sub, pos). Suc (length s) - (pos + length sub))") auto

declare find_str_from.simps [simp del]

lemma find_char_from_bounds:
  "find_char_from s c pos = Some p \<Longrightarrow> pos \<le> p \<and> p < length s \<and> s ! p = c"
proof (induction s c pos rule: find_char_from.induct)
  case (1 s c pos)
  then show ?case
    by (subst (asm) find_char_from.simps) (auto split: if_splits dest: Suc_leD)
qed

lemma find_str_from_bounds:
  "find_str_from s sub pos = Some p \<Longrightarrow>
     pos \<le> p \<and> p + length sub \<le> length s \<and> take (length sub) (drop p s) = sub"
proof (induction s sub pos rule: find_str_from.induct)
  case (1 s sub pos)
  then show ?case
    by (subst (asm) find_str_from.simps) (auto split: if_splits dest: Suc_leD)
qed

text \<open>\<open>view.substr(prepos, pos - prepos)\<close>, and the loops of \<open>split\<close> over \<open>prepos\<close>.\<close>

definition substr :: "string \<Rightarrow> nat \<Rightarrow> nat \<Rightarrow> string" where
  "substr s pos n = take n (drop pos s)"

function split_char_loop :: "string \<Rightarrow> char \<Rightarrow> nat \<Rightarrow> string list \<Rightarrow> string list" where
  "split_char_loop view c prepos result =
     (case find_char_from view c prepos of
        Some pos \<Rightarrow> split_char_loop view c (pos + 1) (result @ [substr view prepos (pos - prepos)])
      | None \<Rightarrow> result @ [drop prepos view])"
  by pat_completeness auto
termination
  by (relation "measure (\<lambda>(view, c, prepos, result). length view - prepos)")
     (auto dest: find_char_from_bounds)

declare split_char_loop.simps [simp del]

definition split :: "string \<Rightarrow> char \<Rightarrow> string list" where
  "split str c = split_char_loop str c 0 []"

function split_str_loop :: "string \<Rightarrow> string \<Rightarrow> nat \<Rightarrow> string list \<Rightarrow> string list" where
  "split_str_loop str sub prepos result =
     (if sub = [] then result
      else case find_str_from str sub prepos of
        Some pos \<Rightarrow>
          split_str_loop str sub (pos + length sub) (result @ [substr str prepos (pos - prepos)])
      | None \<Rightarrow> result @ [drop prepos str])"
  by pat_completeness auto
termination
  by (relation "measure (\<lambda>(str, sub, prepos, result). length str - prepos)")
     (auto dest!: find_str_from_bounds simp flip: length_greater_0_conv)

declare split_str_loop.simps [simp del]

text \<open>The empty separator never reaches the loop.\<close>

definition split_str :: "string \<Rightarrow> string \<Rightarrow> string list" where
  "split_str str sub = (if length sub = 0 then [str] else split_str_loop str sub 0 [])"

subsection \<open>Hexadecimal\<close>

definition hex_digit :: "byte \<Rightarrow> char" where
  "hex_digit n = char_of_byte (if n \<le> 9 then n + 0x30 else n + 87)"

definition hex_high :: "byte \<Rightarrow> byte" where
  "hex_high b = drop_bit 4 b"

definition hex_low :: "byte \<Rightarrow> byte" where
  "hex_low b = b AND 0x0F"

fun byteToHexStr :: "byte list \<Rightarrow> string" where
  "byteToHexStr [] = []"
| "byteToHexStr (b # bytes) =
     hex_digit (hex_high b) # hex_digit (hex_low b) # byteToHexStr bytes"

text \<open>The printer that separates: the last blank is overwritten by the terminator.\<close>

fun hex_for_print_buf :: "byte list \<Rightarrow> string" where
  "hex_for_print_buf [] = []"
| "hex_for_print_buf (b # bytes) =
     [CHR ''0'', CHR ''x'', hex_digit (hex_high b), hex_digit (hex_low b), CHR '' '']
     @ hex_for_print_buf bytes"

definition byteToHexStrForPrint :: "byte list \<Rightarrow> string" where
  "byteToHexStrForPrint bytes = butlast (hex_for_print_buf bytes)"

section \<open>Trimming\<close>

text \<open>Stripping one character at the end, as a list function.\<close>

definition strip_end :: "char \<Rightarrow> string \<Rightarrow> string" where
  "strip_end c s = rev (dropWhile (\<lambda>x. x = c) (rev s))"

lemma find_first_not_of_None: "find_first_not_of s c = None \<Longrightarrow> dropWhile (\<lambda>x. x = c) s = []"
  by (induction s) (auto split: if_splits)

lemma find_first_not_of_Some:
  "find_first_not_of s c = Some i \<Longrightarrow> dropWhile (\<lambda>x. x = c) s = drop i s \<and> i < length s"
  by (induction s arbitrary: i) (auto split: if_splits)

lemma erase_front_first: "erase_front s (find_first_not_of s c) = dropWhile (\<lambda>x. x = c) s"
  using find_first_not_of_None [of s c] find_first_not_of_Some [of s c]
  by (simp only: erase_front_def split: option.split) metis

lemma erase_behind_last: "erase_behind s (find_last_not_of s c) = strip_end c s"
proof (cases "find_first_not_of (rev s) c")
  case None
  with find_first_not_of_None [OF None] show ?thesis
    by (simp only: erase_behind_def find_last_not_of_def strip_end_def) simp
next
  case (Some i)
  then have "dropWhile (\<lambda>x. x = c) (rev s) = drop i (rev s)" "i < length s"
    using find_first_not_of_Some [of "rev s" c i] by auto
  with Some show ?thesis
    by (simp add: erase_behind_def find_last_not_of_def strip_end_def rev_drop Suc_diff_Suc)
qed

lemma trim_eq:
  "trim s = strip_end CHR 0x0A (strip_end CHR 0x0D (strip_end CHR '' ''
     (dropWhile (\<lambda>x. x = CHR '' '') s)))"
  by (simp add: trim_def Let_def erase_front_first erase_behind_last) (simp add: strip_end_def)

lemma strip_end_prefix: "\<exists>t. s = strip_end c s @ t"
proof -
  have "s = rev (takeWhile (\<lambda>x. x = c) (rev s) @ dropWhile (\<lambda>x. x = c) (rev s))"
    by (simp only: takeWhile_dropWhile_id rev_rev_ident)
  then show ?thesis by (simp only: strip_end_def rev_append) blast
qed

lemma strip_end_id: "s = [] \<or> last s \<noteq> c \<Longrightarrow> strip_end c s = s"
  by (cases s rule: rev_cases) (auto simp: strip_end_def)

lemma last_strip_end: "strip_end c s \<noteq> [] \<Longrightarrow> last (strip_end c s) \<noteq> c"
  using hd_dropWhile [of "\<lambda>x. x = c" "rev s"] by (auto simp: strip_end_def last_rev)

lemma trim_prefix:
  obtains t where "dropWhile (\<lambda>x. x = CHR '' '') s = trim s @ t"
proof -
  let ?d = "dropWhile (\<lambda>x. x = CHR '' '') s"
  let ?d1 = "strip_end CHR '' '' ?d"
  let ?d2 = "strip_end CHR 0x0D ?d1"
  obtain t1 t2 t3 where "?d = ?d1 @ t1" "?d1 = ?d2 @ t2" "?d2 = trim s @ t3"
    unfolding trim_eq using strip_end_prefix by blast
  then have "?d = trim s @ t3 @ t2 @ t1" by (metis append.assoc)
  then show thesis by (rule that)
qed

lemma trim_hd: "trim s \<noteq> [] \<Longrightarrow> hd (trim s) \<noteq> CHR '' ''"
proof -
  assume ne: "trim s \<noteq> []"
  obtain t where t: "dropWhile (\<lambda>x. x = CHR '' '') s = trim s @ t"
    by (rule trim_prefix)
  then show ?thesis using ne hd_dropWhile [of "\<lambda>x. x = CHR '' ''" s] by simp
qed

lemma trim_id:
  "s = [] \<or> (hd s \<noteq> CHR '' '' \<and> last s \<notin> {CHR '' '', CHR 0x0D, CHR 0x0A}) \<Longrightarrow> trim s = s"
  by (cases s) (auto simp: trim_eq strip_end_id)

lemma trim_infix: "\<exists>u t. s = u @ trim s @ t"
proof -
  obtain t where "dropWhile (\<lambda>x. x = CHR '' '') s = trim s @ t"
    by (rule trim_prefix)
  then have "s = takeWhile (\<lambda>x. x = CHR '' '') s @ trim s @ t"
    by (metis takeWhile_dropWhile_id)
  then show ?thesis by blast
qed

section \<open>Splitting\<close>

fun join :: "string \<Rightarrow> string list \<Rightarrow> string" where
  "join sep [] = []"
| "join sep [x] = x"
| "join sep (x # y # ys) = x @ sep @ join sep (y # ys)"

lemma join_append: "xs \<noteq> [] \<Longrightarrow> ys \<noteq> [] \<Longrightarrow> join sep (xs @ ys) = join sep xs @ sep @ join sep ys"
  by (induction sep xs rule: join.induct) (auto simp: neq_Nil_conv)

lemma find_char_from_None: "find_char_from s c pos = None \<longleftrightarrow> c \<notin> set (drop pos s)"
proof (induction s c pos rule: find_char_from.induct)
  case (1 s c pos)
  then show ?case
    by (subst find_char_from.simps) (auto simp flip: Cons_nth_drop_Suc)
qed

lemma find_char_from_first:
  "find_char_from s c pos = Some p \<Longrightarrow> c \<notin> set (take (p - pos) (drop pos s))"
proof (induction s c pos rule: find_char_from.induct)
  case (1 s c pos)
  from "1.prems" have pos: "pos < length s"
    using find_char_from_bounds by fastforce
  show ?case
  proof (cases "s ! pos = c")
    case True
    with "1.prems" pos show ?thesis by (subst (asm) find_char_from.simps) simp
  next
    case False
    with "1.prems" pos have p: "find_char_from s c (Suc pos) = Some p"
      by (subst (asm) find_char_from.simps) simp
    from find_char_from_bounds [OF p] have "p - pos = Suc (p - Suc pos)" by linarith
    with "1.IH" [OF pos False p] False pos show ?thesis
      by (simp flip: Cons_nth_drop_Suc)
  qed
qed

lemma drop_prefix_split: "m \<le> n \<Longrightarrow> drop m xs = take (n - m) (drop m xs) @ drop n xs"
  by (metis append_take_drop_id drop_drop le_add_diff_inverse2)

lemma split_char_loop_join:
  "prepos \<le> length view \<Longrightarrow>
   \<exists>pieces. split_char_loop view c prepos result = result @ pieces \<and> pieces \<noteq> [] \<and>
     join [c] pieces = drop prepos view \<and> (\<forall>p \<in> set pieces. c \<notin> set p)"
proof (induction view c prepos result rule: split_char_loop.induct)
  case (1 view c prepos result)
  show ?case
  proof (cases "find_char_from view c prepos")
    case None
    then have "c \<notin> set (drop prepos view)"
      by (simp only: find_char_from_None not_False_eq_True)
    with None show ?thesis
      by (intro exI [of _ "[drop prepos view]"], subst split_char_loop.simps) simp
  next
    case (Some pos)
    note b = find_char_from_bounds [OF Some] and f = find_char_from_first [OF Some]
    let ?piece = "substr view prepos (pos - prepos)"
    from "1.IH" [OF Some] b obtain pieces where
      p: "split_char_loop view c (pos + 1) (result @ [?piece]) = (result @ [?piece]) @ pieces"
         "pieces \<noteq> []" "join [c] pieces = drop (pos + 1) view" "\<forall>p \<in> set pieces. c \<notin> set p"
      by auto
    have "drop prepos view = ?piece @ drop pos view"
      using b by (simp add: substr_def drop_prefix_split)
    also have "drop pos view = c # drop (pos + 1) view"
      using b by (metis Cons_nth_drop_Suc Suc_eq_plus1)
    finally have "join [c] (?piece # pieces) = drop prepos view"
      using p(2,3) by (cases pieces) auto
    then show ?thesis
      using p f Some
      by (intro exI [of _ "?piece # pieces"], subst split_char_loop.simps) (auto simp: substr_def)
  qed
qed

lemma split_str_loop_join:
  "prepos \<le> length str \<Longrightarrow> sub \<noteq> [] \<Longrightarrow>
   \<exists>pieces. split_str_loop str sub prepos result = result @ pieces \<and> pieces \<noteq> [] \<and>
     join sub pieces = drop prepos str"
proof (induction str sub prepos result rule: split_str_loop.induct)
  case (1 str sub prepos result)
  show ?case
  proof (cases "find_str_from str sub prepos")
    case None
    with "1.prems" show ?thesis by (subst split_str_loop.simps) simp
  next
    case (Some pos)
    note b = find_str_from_bounds [OF Some]
    let ?piece = "substr str prepos (pos - prepos)"
    from "1.IH" [OF _ Some] b "1.prems" obtain pieces where
      p: "split_str_loop str sub (pos + length sub) (result @ [?piece]) = (result @ [?piece]) @ pieces"
         "pieces \<noteq> []" "join sub pieces = drop (pos + length sub) str"
      by auto
    have "drop prepos str = ?piece @ drop pos str"
      using b by (simp add: substr_def drop_prefix_split)
    also have "drop pos str = sub @ drop (pos + length sub) str"
      using b by (metis append_take_drop_id drop_drop add.commute)
    finally have "join sub (?piece # pieces) = drop prepos str"
      using p(2,3) by (cases pieces) auto
    then show ?thesis
      using p Some "1.prems"
      by (intro exI [of _ "?piece # pieces"], subst split_str_loop.simps) auto
  qed
qed

lemma split_join: "join [c] (split s c) = s" "split s c \<noteq> []" "p \<in> set (split s c) \<Longrightarrow> c \<notin> set p"
  using split_char_loop_join [of 0 s c "[]"] by (auto simp: split_def)

lemma append_sep_unique:
  "c \<notin> set x \<Longrightarrow> c \<notin> set z \<Longrightarrow> x @ c # u = z @ c # v \<Longrightarrow> x = z \<and> u = v"
proof (induction x arbitrary: z)
  case Nil
  then show ?case by (cases z) auto
next
  case (Cons a x)
  then show ?case by (cases z) auto
qed

lemma join_unique:
  assumes "xs \<noteq> []" "ys \<noteq> []" "\<forall>p \<in> set xs \<union> set ys. c \<notin> set p" "join [c] xs = join [c] ys"
  shows "xs = ys"
  using assms
proof (induction xs arbitrary: ys rule: list_nonempty_induct)
  case (single x)
  then show ?case by (cases "([c], ys)" rule: join.cases) auto
next
  case (cons x xs)
  then obtain y zs where xs: "xs = y # zs" by (cases xs) auto
  with cons.prems obtain z w ws where ys: "ys = z # w # ws"
    by (cases "([c], ys)" rule: join.cases) auto
  from cons.prems(3) xs ys have e: "x @ c # join [c] xs = z @ c # join [c] (w # ws)" by simp
  from cons.prems ys have n: "c \<notin> set x" "c \<notin> set z" by auto
  have "xs = w # ws"
    using append_sep_unique [OF n e] cons.prems(2) ys by (intro cons.IH) auto
  with append_sep_unique [OF n e] ys show ?case by simp
qed

section \<open>Hexadecimal\<close>

text \<open>Reading a hexadecimal digit, and the bytes of a printed string.\<close>

definition hex_value :: "char \<Rightarrow> byte" where
  "hex_value c = (let n = byte_of_char c in if n \<le> 0x39 then n - 0x30 else n - 87)"

fun read_hex :: "string \<Rightarrow> byte list" where
  "read_hex (h # l # rest) = (push_bit 4 (hex_value h) + hex_value l) # read_hex rest"
| "read_hex _ = []"

lemma hex_value_digit:
  assumes "unat n < 16"
  shows "hex_value (hex_digit n) = n"
proof -
  have n: "n = word_of_nat (unat n)" by simp
  have "\<forall>i \<in> set [0..<16]. hex_value (hex_digit (word_of_nat i)) = word_of_nat i"
    by (simp add: upt_rec hex_value_def hex_digit_def Let_def word_le_nat_alt)
  with assms have "hex_value (hex_digit (word_of_nat (unat n))) = word_of_nat (unat n)"
    by (simp only: set_upt atLeastLessThan_iff Ball_def le0 simp_thms)
  then show ?thesis by simp
qed

lemma unat_hex_high [unat_bits]: "unat (hex_high b) = unat b div 16"
  by (simp add: hex_high_def unat_drop_bit)

lemma unat_hex_low [unat_bits]: "unat (hex_low b) = unat b mod 16"
  by (simp add: hex_low_def unat_bits)

lemma hex_halves_less [simp]: "unat (hex_high b) < 16" "unat (hex_low b) < 16"
  using unat_byte_less [of b] by (simp_all add: unat_bits less_mult_imp_div_less)

lemma hex_halves_join: "push_bit 4 (hex_high b) + hex_low b = b"
proof (rule word_unat_eq_iff [THEN iffD2])
  have b: "unat b div 16 * 16 + unat b mod 16 = unat b" by simp
  have p: "unat (push_bit 4 (hex_high b)) = unat b div 16 * 16"
    using unat_byte_less [of b] b by (subst unat_push_bit) (simp_all add: unat_bits)
  show "unat (push_bit 4 (hex_high b) + hex_low b) = unat b"
    using unat_byte_less [of b] b by (subst unat_add_less) (simp_all add: unat_bits p)
qed

lemma read_hex_byteToHexStr: "read_hex (byteToHexStr bytes) = bytes"
  by (induction bytes) (simp_all add: hex_value_digit hex_halves_join)

lemma length_byteToHexStr [simp]: "length (byteToHexStr bytes) = 2 * length bytes"
  by (induction bytes) simp_all

lemma byteToHexStr_append: "byteToHexStr (xs @ ys) = byteToHexStr xs @ byteToHexStr ys"
  by (induction xs) simp_all

lemma byteToHexStrForPrint_join:
  "byteToHexStrForPrint bytes = join '' '' (map (\<lambda>b. ''0x'' @ byteToHexStr [b]) bytes)"
  by (induction bytes rule: induct_list012) (simp_all add: byteToHexStrForPrint_def)

section \<open>Properties\<close>

text \<open>
  Splitting at a character is the inverse of joining with it: the pieces joined give
  the string back, no piece holds the separator, and any nonempty list of such pieces is what
  \<open>split\<close> returns for its join. Splitting at a nonempty string joins back as well.
\<close>

theorem split_join_inverse:
  "join [c] (split s c) = s \<and> (\<forall>p \<in> set (split s c). c \<notin> set p) \<and>
   (ps \<noteq> [] \<and> (\<forall>p \<in> set ps. c \<notin> set p) \<longrightarrow> split (join [c] ps) c = ps) \<and>
   join sub (split_str s sub) = s"
proof (intro conjI ballI impI)
  show "join [c] (split s c) = s" "\<And>p. p \<in> set (split s c) \<Longrightarrow> c \<notin> set p"
    using split_join by blast+
  show "split (join [c] ps) c = ps" if "ps \<noteq> [] \<and> (\<forall>p \<in> set ps. c \<notin> set p)"
    using that split_join [where s = "join [c] ps"] by (intro join_unique [where c = c]) auto
  show "join sub (split_str s sub) = s"
    using split_str_loop_join [of 0 s sub "[]"] by (auto simp: split_str_def)
qed

text \<open>
  What \<open>trim\<close> guarantees: its result is a contiguous part of the string that neither
  starts with a blank nor ends in a line feed; without carriage returns and line feeds it does
  not end in a blank either. With a carriage return behind a blank it does: the three trailing
  strips run once each, blank first, so \<open>trim\<close> of \<open>a\<close>, blank, CR ends in a blank and trimming
  again changes the result.
\<close>

theorem trim_result:
  "(\<exists>u t. s = u @ trim s @ t) \<and>
   (trim s = [] \<or> hd (trim s) \<noteq> CHR '' '' \<and> last (trim s) \<noteq> CHR 0x0A) \<and>
   (CHR 0x0D \<in> set s \<or> CHR 0x0A \<in> set s \<or> trim s = [] \<or> last (trim s) \<noteq> CHR '' '') \<and>
   trim [CHR ''a'', CHR '' '', CHR 0x0D] = ''a '' \<and>
   trim (trim [CHR ''a'', CHR '' '', CHR 0x0D]) = ''a''"
proof (intro conjI)
  show "\<exists>u t. s = u @ trim s @ t" by (rule trim_infix)
  show "trim s = [] \<or> hd (trim s) \<noteq> CHR '' '' \<and> last (trim s) \<noteq> CHR 0x0A"
    using trim_hd [of s] last_strip_end unfolding trim_eq by blast
  show "CHR 0x0D \<in> set s \<or> CHR 0x0A \<in> set s \<or> trim s = [] \<or> last (trim s) \<noteq> CHR '' ''"
  proof (rule ccontr)
    let ?d = "strip_end CHR '' '' (dropWhile (\<lambda>x. x = CHR '' '') s)"
    assume "\<not> ?thesis"
    then have *: "CHR 0x0D \<notin> set s" "CHR 0x0A \<notin> set s" "trim s \<noteq> []" "last (trim s) = CHR '' ''"
      by auto
    have "set ?d \<subseteq> set s"
      by (auto simp: strip_end_def dest!: set_dropWhileD)
    with * have "?d = [] \<or> last ?d \<noteq> CHR 0x0D \<and> last ?d \<noteq> CHR 0x0A"
      using last_in_set [of ?d] by (metis subsetD)
    then have "strip_end CHR 0x0D ?d = ?d" "strip_end CHR 0x0A ?d = ?d"
      by (auto intro!: strip_end_id)
    then have "trim s = ?d" by (simp only: trim_eq)
    with * last_strip_end show False by metis
  qed
  show "trim [CHR ''a'', CHR '' '', CHR 0x0D] = ''a ''"
    and "trim (trim [CHR ''a'', CHR '' '', CHR 0x0D]) = ''a''"
    by (simp_all add: trim_eq strip_end_def)
qed

text \<open>
  The hexadecimal printer writes two digits per byte and is inverted by reading
  them; the printer for display writes the same digits, each pair behind \<open>0x\<close>, one blank apart.
\<close>

theorem byteToHexStr_roundtrip:
  "read_hex (byteToHexStr bytes) = bytes \<and> length (byteToHexStr bytes) = 2 * length bytes \<and>
   byteToHexStrForPrint bytes = join '' '' (map (\<lambda>b. ''0x'' @ byteToHexStr [b]) bytes)"
  by (simp add: read_hex_byteToHexStr byteToHexStrForPrint_join)

end
