(* ===== verification/Md5.thy ===== *)
theory Md5
  imports StringUtil Rfc1321
begin

text \<open>
  \<open>hikyuu/utilities/md5.cpp\<close>: the four auxiliary functions, the 64 statements of
  \<open>scramble_block\<close>, the padding with its three 16-bit length digits, and the digest. Lemmas, against
  the independent definitions of \<open>Rfc1321\<close>: the unrolled block function equals the rotating,
  table-driven steps, the packing of words, the initial buffer, the output bytes and the printed
  digest agree, the padding does for messages whose bit length fits the 48 bits the code writes, and
  so does the digest.
\<close>

section \<open>Definitions\<close>

subsection \<open>The auxiliary functions and the four kinds of statement\<close>

definition md5_F :: "u32 \<Rightarrow> u32 \<Rightarrow> u32 \<Rightarrow> u32" where
  "md5_F x y z = (x AND y) OR (NOT x AND z)"

definition md5_G :: "u32 \<Rightarrow> u32 \<Rightarrow> u32 \<Rightarrow> u32" where
  "md5_G x y z = (x AND z) OR (y AND NOT z)"

definition md5_H :: "u32 \<Rightarrow> u32 \<Rightarrow> u32 \<Rightarrow> u32" where
  "md5_H x y z = x XOR y XOR z"

definition md5_I :: "u32 \<Rightarrow> u32 \<Rightarrow> u32 \<Rightarrow> u32" where
  "md5_I x y z = y XOR (x OR NOT z)"

definition rotate_left :: "u32 \<Rightarrow> nat \<Rightarrow> u32" where
  "rotate_left x n = push_bit n x OR drop_bit (32 - n) x"

definition md5_FF :: "u32 \<Rightarrow> u32 \<Rightarrow> u32 \<Rightarrow> u32 \<Rightarrow> u32 \<Rightarrow> nat \<Rightarrow> u32 \<Rightarrow> u32" where
  "md5_FF a b c d x s ac = rotate_left (a + (md5_F b c d + x + ac)) s + b"

definition md5_GG :: "u32 \<Rightarrow> u32 \<Rightarrow> u32 \<Rightarrow> u32 \<Rightarrow> u32 \<Rightarrow> nat \<Rightarrow> u32 \<Rightarrow> u32" where
  "md5_GG a b c d x s ac = rotate_left (a + (md5_G b c d + x + ac)) s + b"

definition md5_HH :: "u32 \<Rightarrow> u32 \<Rightarrow> u32 \<Rightarrow> u32 \<Rightarrow> u32 \<Rightarrow> nat \<Rightarrow> u32 \<Rightarrow> u32" where
  "md5_HH a b c d x s ac = rotate_left (a + (md5_H b c d + x + ac)) s + b"

definition md5_II :: "u32 \<Rightarrow> u32 \<Rightarrow> u32 \<Rightarrow> u32 \<Rightarrow> u32 \<Rightarrow> nat \<Rightarrow> u32 \<Rightarrow> u32" where
  "md5_II a b c d x s ac = rotate_left (a + (md5_I b c d + x + ac)) s + b"

subsection \<open>The block function\<close>

text \<open>
  A statement of \<open>scramble_block\<close> such as \<open>FF(d, a, b, c, x[1], S12, 0xe8c7b756)\<close> is a row: its
  function, the variable it updates (the other three follow in cyclic order, as in every statement
  of the code), the word of the block it reads, its rotation and its constant.
\<close>

type_synonym md5_state = "u32 \<times> u32 \<times> u32 \<times> u32"

datatype md5_op = FF | GG | HH | II

datatype md5_reg = RegA | RegB | RegC | RegD

fun md5_apply :: "md5_op \<Rightarrow> u32 \<Rightarrow> u32 \<Rightarrow> u32 \<Rightarrow> u32 \<Rightarrow> u32 \<Rightarrow> nat \<Rightarrow> u32 \<Rightarrow> u32" where
  "md5_apply FF = md5_FF"
| "md5_apply GG = md5_GG"
| "md5_apply HH = md5_HH"
| "md5_apply II = md5_II"

type_synonym md5_stmt = "md5_op \<times> md5_reg \<times> nat \<times> nat \<times> u32"

fun md5_exec :: "u32 list \<Rightarrow> md5_stmt \<Rightarrow> md5_state \<Rightarrow> md5_state" where
  "md5_exec x (f, RegA, k, s, ac) (a, b, c, d) = (md5_apply f a b c d (x ! k) s ac, b, c, d)"
| "md5_exec x (f, RegD, k, s, ac) (a, b, c, d) = (a, b, c, md5_apply f d a b c (x ! k) s ac)"
| "md5_exec x (f, RegC, k, s, ac) (a, b, c, d) = (a, b, md5_apply f c d a b (x ! k) s ac, d)"
| "md5_exec x (f, RegB, k, s, ac) (a, b, c, d) = (a, md5_apply f b c d a (x ! k) s ac, c, d)"

definition md5_stmts :: "md5_stmt list" where
  "md5_stmts =
    [\<comment> \<open>round 1\<close>
     (FF, RegA, 0, 7, 0xd76aa478), (FF, RegD, 1, 12, 0xe8c7b756),
     (FF, RegC, 2, 17, 0x242070db), (FF, RegB, 3, 22, 0xc1bdceee),
     (FF, RegA, 4, 7, 0xf57c0faf), (FF, RegD, 5, 12, 0x4787c62a),
     (FF, RegC, 6, 17, 0xa8304613), (FF, RegB, 7, 22, 0xfd469501),
     (FF, RegA, 8, 7, 0x698098d8), (FF, RegD, 9, 12, 0x8b44f7af),
     (FF, RegC, 10, 17, 0xffff5bb1), (FF, RegB, 11, 22, 0x895cd7be),
     (FF, RegA, 12, 7, 0x6b901122), (FF, RegD, 13, 12, 0xfd987193),
     (FF, RegC, 14, 17, 0xa679438e), (FF, RegB, 15, 22, 0x49b40821),
     \<comment> \<open>round 2\<close>
     (GG, RegA, 1, 5, 0xf61e2562), (GG, RegD, 6, 9, 0xc040b340),
     (GG, RegC, 11, 14, 0x265e5a51), (GG, RegB, 0, 20, 0xe9b6c7aa),
     (GG, RegA, 5, 5, 0xd62f105d), (GG, RegD, 10, 9, 0x2441453),
     (GG, RegC, 15, 14, 0xd8a1e681), (GG, RegB, 4, 20, 0xe7d3fbc8),
     (GG, RegA, 9, 5, 0x21e1cde6), (GG, RegD, 14, 9, 0xc33707d6),
     (GG, RegC, 3, 14, 0xf4d50d87), (GG, RegB, 8, 20, 0x455a14ed),
     (GG, RegA, 13, 5, 0xa9e3e905), (GG, RegD, 2, 9, 0xfcefa3f8),
     (GG, RegC, 7, 14, 0x676f02d9), (GG, RegB, 12, 20, 0x8d2a4c8a),
     \<comment> \<open>round 3\<close>
     (HH, RegA, 5, 4, 0xfffa3942), (HH, RegD, 8, 11, 0x8771f681),
     (HH, RegC, 11, 16, 0x6d9d6122), (HH, RegB, 14, 23, 0xfde5380c),
     (HH, RegA, 1, 4, 0xa4beea44), (HH, RegD, 4, 11, 0x4bdecfa9),
     (HH, RegC, 7, 16, 0xf6bb4b60), (HH, RegB, 10, 23, 0xbebfbc70),
     (HH, RegA, 13, 4, 0x289b7ec6), (HH, RegD, 0, 11, 0xeaa127fa),
     (HH, RegC, 3, 16, 0xd4ef3085), (HH, RegB, 6, 23, 0x4881d05),
     (HH, RegA, 9, 4, 0xd9d4d039), (HH, RegD, 12, 11, 0xe6db99e5),
     (HH, RegC, 15, 16, 0x1fa27cf8), (HH, RegB, 2, 23, 0xc4ac5665),
     \<comment> \<open>round 4\<close>
     (II, RegA, 0, 6, 0xf4292244), (II, RegD, 7, 10, 0x432aff97),
     (II, RegC, 14, 15, 0xab9423a7), (II, RegB, 5, 21, 0xfc93a039),
     (II, RegA, 12, 6, 0x655b59c3), (II, RegD, 3, 10, 0x8f0ccc92),
     (II, RegC, 10, 15, 0xffeff47d), (II, RegB, 1, 21, 0x85845dd1),
     (II, RegA, 8, 6, 0x6fa87e4f), (II, RegD, 15, 10, 0xfe2ce6e0),
     (II, RegC, 6, 15, 0xa3014314), (II, RegB, 13, 21, 0x4e0811a1),
     (II, RegA, 4, 6, 0xf7537e82), (II, RegD, 11, 10, 0xbd3af235),
     (II, RegC, 2, 15, 0x2ad7d2bb), (II, RegB, 9, 21, 0xeb86d391)]"

definition scramble_block :: "u32 list \<Rightarrow> md5_state \<Rightarrow> md5_state" where
  "scramble_block x st = fold (md5_exec x) md5_stmts st"

subsection \<open>Padding\<close>

text \<open>
  \<open>unsigned long\<close> is 64 bits wide. The bit length is computed in digits of base 65536 and written
  in six bytes; the last two bytes of the length field are 0.
\<close>

definition md5_extra_len :: "u64 \<Rightarrow> u64" where
  "md5_extra_len len =
     (let extra_len = 64 - len mod 64 in if extra_len \<le> 8 then extra_len + 64 else extra_len)"

definition byte_at :: "nat \<Rightarrow> u64 \<Rightarrow> byte" where
  "byte_at n w = ucast (drop_bit n w AND 0xFF)"

definition md5_length_field :: "u64 \<Rightarrow> byte list" where
  "md5_length_field len =
     (let low = len AND 0xFFFF;
          high = drop_bit 16 len;
          tmp = low * 8;
          low = tmp AND 0xFFFF;
          tmp = high * 8 + drop_bit 16 tmp;
          high = tmp AND 0xFFFF;
          upper = drop_bit 16 tmp
      in [byte_at 0 low, byte_at 8 low, byte_at 0 high, byte_at 8 high,
          byte_at 0 upper, byte_at 8 upper, 0, 0])"

definition md5_temp :: "byte list \<Rightarrow> byte list" where
  "md5_temp input =
     (let len = word_of_nat (length input);
          extra_len = md5_extra_len len
      in input @ [0x80] @ replicate (unat (extra_len - 8) - 1) 0 @ md5_length_field len)"

subsection \<open>The digest\<close>

definition md5_word :: "byte list \<Rightarrow> nat \<Rightarrow> u32" where
  "md5_word temp p =
     push_bit 24 (ucast (temp ! (p + 3))) OR push_bit 16 (ucast (temp ! (p + 2))) OR
     push_bit 8 (ucast (temp ! (p + 1))) OR ucast (temp ! p)"

definition md5_block :: "byte list \<Rightarrow> nat \<Rightarrow> u32 list" where
  "md5_block temp i = map (\<lambda>j. md5_word temp (4 * (j + 16 * i))) [0..<16]"

fun md5_add :: "md5_state \<Rightarrow> md5_state \<Rightarrow> md5_state" where
  "md5_add (a, b, c, d) (aa, bb, cc, dd) = (a + aa, b + bb, c + cc, d + dd)"

definition md5_init :: md5_state where
  "md5_init = (0x67452301, 0xefcdab89, 0x98badcfe, 0x10325476)"

definition md5_blocks :: "byte list \<Rightarrow> nat \<Rightarrow> md5_state" where
  "md5_blocks temp N =
     fold (\<lambda>i st. md5_add (scramble_block (md5_block temp i) st) st) [0..<N] md5_init"

definition md5_out_bytes :: "u32 \<Rightarrow> byte list" where
  "md5_out_bytes w = map (\<lambda>n. ucast (drop_bit n w AND 0xFF)) [0, 8, 16, 24]"

fun md5_output :: "md5_state \<Rightarrow> byte list" where
  "md5_output (a, b, c, d) =
     md5_out_bytes a @ md5_out_bytes b @ md5_out_bytes c @ md5_out_bytes d"

definition md5 :: "byte list \<Rightarrow> string" where
  "md5 input =
     (let len = word_of_nat (length input) :: u64;
          N = unat ((md5_extra_len len + len) div 64)
      in byteToHexStr (md5_output (md5_blocks (md5_temp input) N)))"

section \<open>The block function of RFC 1321\<close>

text \<open>The step function of statement \<open>i\<close>, the variable it updates, and the frame it reads.\<close>

definition stmt_op :: "nat \<Rightarrow> md5_op" where
  "stmt_op i = [FF, GG, HH, II] ! (i div 16)"

definition stmt_reg :: "nat \<Rightarrow> md5_reg" where
  "stmt_reg i = [RegA, RegD, RegC, RegB] ! (i mod 4)"

fun frame :: "md5_reg \<Rightarrow> md5_state \<Rightarrow> md5_state" where
  "frame RegA (a, b, c, d) = (a, b, c, d)"
| "frame RegD (a, b, c, d) = (d, a, b, c)"
| "frame RegC (a, b, c, d) = (c, d, a, b)"
| "frame RegB (a, b, c, d) = (b, c, d, a)"

lemma md5_stmts_rfc:
  "md5_stmts = map (\<lambda>i. (stmt_op i, stmt_reg i, rfc_index i, rfc_shift i, rfc_T ! i)) [0..<64]"
  by (simp add: md5_stmts_def rfc_T_def stmt_op_def stmt_reg_def rfc_index_def rfc_shift_def upt_rec)

lemma rfc_shift_less: "i < 64 \<Longrightarrow> rfc_shift i < 32"
proof -
  have "\<forall>i < 64. rfc_shift i < 32" unfolding all_less_numeral by (simp add: rfc_shift_def upt_rec)
  then show "i < 64 \<Longrightarrow> rfc_shift i < 32" by blast
qed

lemma md5_apply_rfc:
  assumes "i < 64"
  shows "md5_apply (stmt_op i) a b c d w (rfc_shift i) ac =
    b + word_rotl (rfc_shift i) (a + rfc_fun i b c d + w + ac)"
proof -
  have "i div 16 = 0 \<and> i < 16 \<or> i div 16 = 1 \<and> \<not> i < 16 \<and> i < 32 \<or>
      i div 16 = 2 \<and> \<not> i < 32 \<and> i < 48 \<or> i div 16 = 3 \<and> \<not> i < 48"
    using assms by linarith
  then show ?thesis
    by (elim disjE conjE)
      (simp_all add: stmt_op_def rfc_fun_def md5_FF_def md5_GG_def md5_HH_def md5_II_def md5_F_def
        md5_G_def md5_H_def md5_I_def rotate_left_def word_rotl_shifts [OF rfc_shift_less [OF assms]]
        ac_simps)
qed

lemma stmt_reg_cases:
  obtains "stmt_reg i = RegA" "stmt_reg (Suc i) = RegD"
  | "stmt_reg i = RegD" "stmt_reg (Suc i) = RegC"
  | "stmt_reg i = RegC" "stmt_reg (Suc i) = RegB"
  | "stmt_reg i = RegB" "stmt_reg (Suc i) = RegA"
proof -
  have "i mod 4 < 4" by simp
  then consider "i mod 4 = 0" | "i mod 4 = 1" | "i mod 4 = 2" | "i mod 4 = 3" by linarith
  then show thesis
    by cases (rule that; simp add: stmt_reg_def mod_Suc)+
qed

lemma frame_md5_exec:
  "i < 64 \<Longrightarrow>
   frame (stmt_reg (Suc i)) (md5_exec x (stmt_op i, stmt_reg i, rfc_index i, rfc_shift i, rfc_T ! i) st)
   = rfc_step x i (frame (stmt_reg i) st)"
  by (cases st; rule stmt_reg_cases [of i]) (simp_all add: md5_apply_rfc)

lemma frame_fold:
  "n \<le> 64 \<Longrightarrow>
   frame (stmt_reg n) (fold (\<lambda>i. md5_exec x (stmt_op i, stmt_reg i, rfc_index i, rfc_shift i, rfc_T ! i))
     [0..<n] st) = fold (rfc_step x) [0..<n] (frame (stmt_reg 0) st)"
  by (induction n) (simp_all add: frame_md5_exec)

lemma scramble_block_rfc: "scramble_block x st = fold (rfc_step x) [0..<64] st"
proof -
  have id: "frame RegA s = s" for s by (cases s) simp
  have "stmt_reg 64 = RegA" "stmt_reg 0 = RegA" by (simp_all add: stmt_reg_def)
  with frame_fold [of 64 x st] show ?thesis
    by (simp add: scramble_block_def md5_stmts_rfc fold_map o_def id)
qed

section \<open>Padding\<close>

lemma byte_at_eq: "byte_at k w = word_of_nat (unat w div 2 ^ k)"
  by (rule word_unat_eq_iff [THEN iffD2])
    (simp add: byte_at_def unsigned_ucast_eq take_bit_eq_mod unat_drop_bit unat_bits unat_of_nat)

lemma unat_low_mult8: "unat (x * 8 :: u64) = unat x * 8" if "unat x * 8 < 2 ^ 64" for x :: u64
  using that by (simp add: unat_word_ariths)

lemma length_digits:
  fixes len :: u64
  defines "tmp1 \<equiv> (len AND 0xFFFF) * 8"
  defines "tmp2 \<equiv> drop_bit 16 len * 8 + drop_bit 16 tmp1"
  shows "unat (tmp1 AND 0xFFFF) = 8 * unat len mod 2 ^ 16"
    and "unat (tmp2 AND 0xFFFF) = 8 * unat len div 2 ^ 16 mod 2 ^ 16"
    and "unat (drop_bit 16 tmp2) = 8 * unat len div 2 ^ 32"
proof -
  let ?n = "unat len"
  have n: "?n < 2 ^ 64" using unat_less_exp [of len] by simp
  have t1: "unat tmp1 = ?n mod 65536 * 8"
    unfolding tmp1_def by (subst unat_low_mult8) (simp_all add: unat_bits)
  have d1: "unat (drop_bit 16 tmp1) < 8"
    unfolding unat_drop_bit t1 by (simp add: less_mult_imp_div_less)
  have h: "unat (drop_bit 16 len) = ?n div 65536" by (simp add: unat_drop_bit)
  have h48: "?n div 65536 < 2 ^ 48" using n by (simp add: less_mult_imp_div_less)
  have h8: "unat (drop_bit 16 len * 8) = ?n div 65536 * 8"
    using h48 by (subst unat_low_mult8) (simp_all add: h)
  have t2: "unat tmp2 = ?n div 65536 * 8 + ?n mod 65536 * 8 div 65536"
    unfolding tmp2_def using h48 d1
    by (subst unat_add_less) (simp_all add: h8 unat_drop_bit t1)
  have n8: "8 * ?n = ?n mod 65536 * 8 + (?n div 65536 * 8) * 65536"
    using div_mult_mod_eq [of ?n 65536] by linarith
  have e1: "8 * ?n div 65536 = unat tmp2"
    unfolding t2 n8 by simp
  have e2: "8 * ?n mod 65536 = ?n mod 65536 * 8 mod 65536"
    unfolding n8 by (rule mod_mult_self1)
  show "unat (tmp1 AND 0xFFFF) = 8 * ?n mod 2 ^ 16"
    by (simp add: unat_bits t1 e2)
  show "unat (tmp2 AND 0xFFFF) = 8 * ?n div 2 ^ 16 mod 2 ^ 16"
    by (simp add: unat_bits e1)
  show "unat (drop_bit 16 tmp2) = 8 * ?n div 2 ^ 32"
    by (simp add: unat_drop_bit flip: e1 div_mult2_eq)
qed

lemma byte_of_digit:
  assumes "k \<le> 8"
  shows "(word_of_nat (a mod 2 ^ 16 div 2 ^ k) :: byte) = word_of_nat (a div 2 ^ k)"
proof (rule word_unat_eq_iff [THEN iffD2])
  have "a mod 2 ^ 16 div 2 ^ k = a div 2 ^ k mod 2 ^ (16 - k)"
    using drop_bit_take_bit [of k 16 a] by (simp only: drop_bit_eq_div take_bit_eq_mod)
  moreover have "(2 :: nat) ^ 8 dvd 2 ^ (16 - k)"
    using assms by (intro le_imp_power_dvd) simp
  ultimately show "unat (word_of_nat (a mod 2 ^ 16 div 2 ^ k) :: byte) = unat (word_of_nat (a div 2 ^ k) :: byte)"
    by (simp add: unat_of_nat take_bit_eq_mod mod_mod_cancel)
qed

lemma md5_length_field_rfc:
  assumes "8 * n < 2 ^ 48"
  shows "md5_length_field (word_of_nat n) = rfc_length_field n"
proof -
  have n: "unat (word_of_nat n :: u64) = n"
    using assms by (intro unat_of_nat_less) simp
  have z: "8 * n div 256 ^ 6 = 0" "8 * n div 256 ^ 7 = 0" using assms by simp_all
  show ?thesis
    unfolding md5_length_field_def rfc_length_field_def Let_def byte_at_eq length_digits n
    by (simp add: byte_of_digit [where k = 0, simplified] byte_of_digit [where k = 8, simplified]
        z [simplified] upt_rec flip: div_mult2_eq)
qed

lemma md5_extra_len_rfc:
  assumes "n < 2 ^ 63"
  shows "unat (md5_extra_len (word_of_nat n)) = 64 - n mod 64 + (if n mod 64 < 56 then 0 else 64)"
proof -
  have n: "unat (word_of_nat n :: u64) = n"
    using assms by (intro unat_of_nat_less) simp
  have m: "unat (word_of_nat n mod 64 :: u64) = n mod 64"
    by (simp add: unat_mod n)
  have "n mod 64 < 64" by simp
  then have d: "unat (64 - word_of_nat n mod 64 :: u64) = 64 - n mod 64"
    by (subst unat_sub) (simp_all add: word_le_nat_alt m)
  then have e: "unat (64 - word_of_nat n mod 64 + 64 :: u64) = 64 - n mod 64 + 64"
    by (subst unat_add_less) simp_all
  show ?thesis
  proof (cases "n mod 64 < 56")
    case True
    then have "\<not> 64 - word_of_nat n mod 64 \<le> (8 :: u64)"
      by (simp only: word_le_nat_alt d) simp
    with True d show ?thesis by (simp only: md5_extra_len_def Let_def if_False) simp
  next
    case False
    then have "64 - word_of_nat n mod 64 \<le> (8 :: u64)"
      by (simp only: word_le_nat_alt d) simp
    with False e show ?thesis by (simp only: md5_extra_len_def Let_def if_True) simp
  qed
qed

lemma zero_count:
  fixes r :: nat
  assumes "r < 64"
  shows "64 - r + (if r < 56 then 0 else 64) - 9 = (119 - r) mod 64"
proof (cases "r < 56")
  case True
  then have "119 - r = 55 - r + 64" by simp
  then have "(119 - r) mod 64 = (55 - r) mod 64" by (simp only: mod_add_self2)
  with True show ?thesis by simp
next
  case False
  with assms show ?thesis by simp
qed

lemma md5_temp_rfc:
  assumes "8 * length input < 2 ^ 48"
  shows "md5_temp input = rfc_pad input"
    and "unat ((md5_extra_len (word_of_nat (length input)) + word_of_nat (length input)) div 64)
      = length (rfc_pad input) div 64"
proof -
  let ?n = "length input" and ?len = "word_of_nat (length input) :: u64"
  have n: "unat ?len = ?n"
    using assms by (intro unat_of_nat_less) simp
  have x: "unat (md5_extra_len ?len) = 64 - ?n mod 64 + (if ?n mod 64 < 56 then 0 else 64)"
    using assms by (intro md5_extra_len_rfc) simp
  have m: "?n mod 64 < 64" by simp
  have "unat (md5_extra_len ?len - 8) = unat (md5_extra_len ?len) - 8"
    using m by (subst unat_sub) (auto simp: word_le_nat_alt x)
  moreover have z: "unat (md5_extra_len ?len) - 9 = (119 - ?n mod 64) mod 64"
    unfolding x by (rule zero_count [OF m])
  ultimately have k: "unat (md5_extra_len ?len - 8) - 1 = (119 - ?n mod 64) mod 64"
    by simp
  show "md5_temp input = rfc_pad input"
    using md5_length_field_rfc [OF assms]
    by (simp only: md5_temp_def rfc_pad_def Let_def k)
  have "unat (md5_extra_len ?len + ?len) = unat (md5_extra_len ?len) + ?n"
    using assms m by (subst unat_add_less) (auto simp: x n)
  moreover have "length (rfc_pad input) = unat (md5_extra_len ?len) + ?n"
    using m z by (auto simp: rfc_pad_def rfc_length_field_def x simp flip: z)
  ultimately show "unat ((md5_extra_len ?len + ?len) div 64) = length (rfc_pad input) div 64"
    by (simp add: unat_div)
qed
section \<open>Digest\<close>

lemma unat_byte_of_word: "unat (ucast (b :: byte) :: u32) = unat b"
  using unat_byte_less [of b] by (simp add: unsigned_ucast_eq take_bit_nat_eq_self)

text \<open>A word of a block: shifting four bytes together is reading them with the lowest first.\<close>

lemma md5_word_decode:
  assumes "p + 4 \<le> length temp"
  shows "md5_word temp p = rfc_decode (take 4 (drop p temp))"
proof -
  let ?b = "\<lambda>k. temp ! (p + k)"
  let ?u = "\<lambda>k. ucast (?b k) :: u32"
  have t: "take 4 (drop p temp) = [?b 0, ?b 1, ?b 2, ?b 3]"
    using assms by (intro nth_equalityI) (auto simp: nth_Cons' less_Suc_eq numeral_eq_Suc)
  have u: "unat (?u k) < 256" for k using unat_byte_less [of "?b k"] by (simp add: unat_byte_of_word)
  have low: "unat (push_bit 8 (?u 1) OR ?u 0) = unat (?u 1) * 2 ^ 8 + unat (?u 0)"
    using u [of 0] u [of 1] by (intro unat_shift_or) simp_all
  have mid: "push_bit 16 (?u 2) OR (push_bit 8 (?u 1) OR ?u 0) =
      push_bit 8 (push_bit 8 (?u 2) OR ?u 1) OR ?u 0"
    and top: "push_bit 24 (?u 3) OR push_bit 8 w OR ?u 0 = push_bit 8 (push_bit 16 (?u 3) OR w) OR ?u 0" for w
    by (simp_all add: push_bit_or push_bit_push_bit or.assoc)
  have split: "md5_word temp p = push_bit 8 (push_bit 8 (push_bit 8 (?u 3) OR ?u 2) OR ?u 1) OR ?u 0"
    by (simp add: md5_word_def push_bit_or push_bit_push_bit or.assoc)
  have 1: "unat (push_bit 8 (?u 3) OR ?u 2) = unat (?u 3) * 2 ^ 8 + unat (?u 2)"
    using u [of 3] u [of 2] by (intro unat_shift_or) simp_all
  have 2: "unat (push_bit 8 (push_bit 8 (?u 3) OR ?u 2) OR ?u 1) =
      unat (push_bit 8 (?u 3) OR ?u 2) * 2 ^ 8 + unat (?u 1)"
    using u [of 3] u [of 2] u [of 1] 1 by (intro unat_shift_or) simp_all
  have 3: "unat (md5_word temp p) =
      unat (push_bit 8 (push_bit 8 (?u 3) OR ?u 2) OR ?u 1) * 2 ^ 8 + unat (?u 0)"
    unfolding split using u [of 3] u [of 2] u [of 1] u [of 0] 1 2 by (intro unat_shift_or) simp_all
  have "rfc_decode (take 4 (drop p temp)) = word_of_nat (unat (md5_word temp p))"
    unfolding rfc_decode_def t 3 2 1 by (simp add: unat_byte_of_word algebra_simps)
  then show ?thesis by simp
qed

lemma md5_block_words:
  assumes "64 * k + 64 \<le> length temp"
  shows "md5_block temp k = rfc_words (take 64 (drop (64 * k) temp))"
proof -
  have "md5_word temp (4 * (j + 16 * k)) = rfc_decode (take 4 (drop (4 * j) (take 64 (drop (64 * k) temp))))"
    if "j < 16" for j
    using md5_word_decode [of "4 * (j + 16 * k)" temp] assms that
    by (simp add: drop_take algebra_simps)
  then show ?thesis by (simp add: md5_block_def rfc_words_def)
qed

lemma md5_add_rfc: "md5_add st st' = rfc_add st st'"
  by (cases st; cases st') simp

lemma md5_blocks_rfc:
  assumes "k \<le> N" and "N = length temp div 64"
  shows "fold (\<lambda>i st. md5_add (scramble_block (md5_block temp i) st) st) [k..<N] st
    = rfc_hash st (drop (64 * k) temp)"
  using assms(1)
proof (induction "N - k" arbitrary: k st)
  case 0
  then have "length (drop (64 * k) temp) < 64" using assms(2) by simp
  with 0 show ?case by (simp add: rfc_hash.simps)
next
  case (Suc m)
  then have k: "k < N" "64 * k + 64 \<le> length temp" using assms(2) by simp_all
  then have "\<not> length (drop (64 * k) temp) < 64" by simp
  with Suc.hyps(1) [of "Suc k"] Suc.hyps(2) k show ?case
    by (subst rfc_hash.simps)
       (simp add: upt_conv_Cons md5_block_words scramble_block_rfc md5_add_rfc rfc_block_def add.commute)
qed

lemma md5_init_rfc: "md5_init = rfc_init"
  by (simp add: md5_init_def rfc_init_def rfc_decode_def)

lemma md5_out_bytes_rfc: "md5_out_bytes w = rfc_encode w"
proof -
  have "(ucast (drop_bit n w AND 0xFF) :: byte) = word_of_nat (unat w div 2 ^ n)" for n
    by (rule word_unat_eq_iff [THEN iffD2])
      (simp add: unsigned_ucast_eq take_bit_eq_mod unat_drop_bit unat_bits unat_of_nat)
  then show ?thesis by (simp add: md5_out_bytes_def rfc_encode_def upt_rec)
qed

lemma md5_output_rfc: "md5_output st = rfc_output st"
  by (cases st) (simp add: md5_out_bytes_rfc)

lemma hex_digit_rfc: "unat n < 16 \<Longrightarrow> hex_digit n = ''0123456789abcdef'' ! unat n"
proof -
  have "\<forall>i < 16. hex_digit (word_of_nat i) = ''0123456789abcdef'' ! i"
    unfolding all_less_numeral by (simp add: hex_digit_def char_of_byte_def char_of_def bit_0 upt_rec word_le_nat_alt)
  then have "unat n < 16 \<longrightarrow> hex_digit (word_of_nat (unat n)) = ''0123456789abcdef'' ! unat n" by blast
  then show "unat n < 16 \<Longrightarrow> hex_digit n = ''0123456789abcdef'' ! unat n" by simp
qed

lemma byteToHexStr_rfc: "byteToHexStr bs = rfc_print bs"
  by (induction bs) (simp_all add: rfc_print_def hex_digit_rfc [OF hex_halves_less(1)] hex_digit_rfc [OF hex_halves_less(2)]
      unat_hex_high unat_hex_low)

section \<open>Properties\<close>

text \<open>
  Property C12: for every message whose bit length fits in 48 bits, \<open>md5\<close> is the digest of RFC
  1321 as \<open>Rfc1321\<close> defines it without reference to the code: padding, reading of words, initial
  buffer, functions, word indices, rotations and table of the 64 steps, output and printing. The
  test message \<open>abc\<close> of the RFC has the digest the RFC prints.
\<close>

theorem md5_rfc1321:
  assumes "8 * length input < 2 ^ 48"
  shows "md5 input = rfc_md5 input"
  using md5_temp_rfc [OF assms] md5_blocks_rfc [of 0 _ "rfc_pad input"]
  by (simp add: md5_def md5_blocks_def Let_def rfc_md5_def md5_init_rfc md5_output_rfc byteToHexStr_rfc)

theorem md5_rfc1321_witness:
  "md5 (ascii ''abc'') = ''900150983cd24fb0d6963f7d28e17f72''"
  using md5_rfc1321 [of "ascii ''abc''"] rfc_md5_abc by (simp add: ascii_def)

text \<open>
  The digest string is always 32 hexadecimal digits, and it reads back as the 16
  bytes of the final state.
\<close>

theorem md5_output_form:
  "\<exists>st. length (md5 input) = 32 \<and> read_hex (md5 input) = md5_output st"
proof -
  obtain st where st: "md5 input = byteToHexStr (md5_output st)"
    by (auto simp: md5_def Let_def)
  have "length (md5_output st) = 16"
    by (cases st) (simp add: md5_out_bytes_def)
  with st show ?thesis by (intro exI [of _ st]) (simp add: read_hex_byteToHexStr)
qed

end
