(* ===== verification/CacheInterface.thy ===== *)
theory CacheInterface
  imports HkuPrelude "HOL-Library.AList" "HOL-Library.Multiset"
begin

text \<open>
  What the clients of the two LRU caches rely on, as a locale over the cache's operations, and the
  client's theorem proved once inside it: after any sequence of operations, a hit returns the value
  last inserted under that key and not removed since. \<open>Lru11\<close> and \<open>LruCache\<close> interpret it. Also
  here: the facts about \<open>std::list\<close> nodes and \<open>std::unordered_map\<close> entries both caches use.
\<close>

section \<open>Linked lists with stable iterators\<close>

text \<open>
  A \<open>std::list\<close> is a list of nodes, each with an identity that iterators hold; \<open>splice\<close> to the
  front and \<open>erase\<close> keep the identities of the other nodes. A \<open>std::unordered_map\<close> is an
  association list with distinct keys (its iteration order is never used).
\<close>

definition splice_front :: "nat \<Rightarrow> (nat \<times> 'a) list \<Rightarrow> (nat \<times> 'a) list" where
  "splice_front it nodes =
     (case map_of nodes it of None \<Rightarrow> nodes | Some x \<Rightarrow> (it, x) # AList.delete it nodes)"

definition assign_node :: "nat \<Rightarrow> 'a \<Rightarrow> (nat \<times> 'a) list \<Rightarrow> (nat \<times> 'a) list" where
  "assign_node it x nodes = map (\<lambda>(i, y). (i, if i = it then x else y)) nodes"

text \<open>
  The loop shared by both eviction routines: while there are more than \<open>limit\<close> entries, erase the
  entry of the last node and the node. \<open>None\<close> is the undefined behaviour of \<open>back()\<close> on an empty
  list.
\<close>

function evict_loop ::
    "('a \<Rightarrow> 'k) \<Rightarrow> nat \<Rightarrow> ('k \<times> 'e) list \<Rightarrow> (nat \<times> 'a) list \<Rightarrow> nat \<Rightarrow>
     (('k \<times> 'e) list \<times> (nat \<times> 'a) list \<times> nat) option" where
  "evict_loop key limit entries nodes cnt =
     (if limit < length entries
      then if nodes = [] then None
           else evict_loop key limit (AList.delete (key (snd (last nodes))) entries)
                  (butlast nodes) (cnt + 1)
      else Some (entries, nodes, cnt))"
  by pat_completeness auto
termination
  by (relation "measure (\<lambda>(key, limit, entries, nodes, cnt). length nodes)") auto

declare evict_loop.simps [simp del]

text \<open>Entries and nodes hold the same keys, each once.\<close>

definition keys_match :: "('a \<Rightarrow> 'k) \<Rightarrow> ('k \<times> 'e) list \<Rightarrow> (nat \<times> 'a) list \<Rightarrow> bool" where
  "keys_match key entries nodes \<longleftrightarrow>
     mset (map fst entries) = mset (map (key \<circ> snd) nodes) \<and> distinct (map fst entries)"

lemma keys_match_length: "keys_match key entries nodes \<Longrightarrow> length entries = length nodes"
  unfolding keys_match_def by (metis length_map size_mset)

lemma keys_match_distinct:
  "keys_match key entries nodes \<Longrightarrow> distinct (map (key \<circ> snd) nodes)"
  unfolding keys_match_def by (metis mset_eq_imp_distinct_iff)

lemma alist_update_fresh: "map_of al k = None \<Longrightarrow> AList.update k v al = al @ [(k, v)]"
  by (induction al) (auto split: if_splits)

lemma keys_match_insert:
  assumes "keys_match key entries nodes" "map_of entries (key x) = None"
  shows "keys_match key (AList.update (key x) e entries) ((it, x) # nodes)"
  using assms by (simp add: keys_match_def alist_update_fresh map_of_eq_None_iff)

lemma mset_map_fst_delete:
  "mset (map fst (AList.delete k al)) = filter_mset (\<lambda>k'. k' \<noteq> k) (mset (map fst al))"
  by (induction al) auto

lemma keys_match_delete:
  assumes "keys_match key entries nodes"
  shows "keys_match key (AList.delete k entries) (filter (\<lambda>n. key (snd n) \<noteq> k) nodes)"
proof -
  have "mset (map (key \<circ> snd) (filter (\<lambda>n. key (snd n) \<noteq> k) nodes)) =
      filter_mset (\<lambda>k'. k' \<noteq> k) (mset (map (key \<circ> snd) nodes))"
    by (induction nodes) auto
  with assms show ?thesis
    unfolding keys_match_def by (simp only: mset_map_fst_delete distinct_delete simp_thms)
qed

lemma keys_match_butlast:
  assumes "keys_match key entries nodes" "nodes \<noteq> []"
  shows "keys_match key (AList.delete (key (snd (last nodes))) entries) (butlast nodes)"
proof -
  have "distinct (map (key \<circ> snd) (butlast nodes @ [last nodes]))"
    using keys_match_distinct [OF assms(1)] assms(2) by simp
  then have "key (snd (last nodes)) \<notin> set (map (key \<circ> snd) (butlast nodes))"
    by (simp only: map_append distinct_append) simp
  then have "\<forall>n \<in> set (butlast nodes). key (snd n) \<noteq> key (snd (last nodes))"
    unfolding set_map o_def by (metis imageI)
  then have "filter (\<lambda>n. key (snd n) \<noteq> key (snd (last nodes))) (butlast nodes @ [last nodes]) =
      butlast nodes"
    by (simp only: filter_append) (simp add: filter_id_conv)
  with keys_match_delete [OF assms(1)] assms(2) show ?thesis
    by (metis append_butlast_last_id)
qed

lemma evict_loop_keeps:
  assumes "keys_match key entries nodes"
  shows "\<exists>entries'. evict_loop key limit entries nodes cnt =
      Some (entries', take limit nodes, cnt + (length nodes - limit)) \<and>
      keys_match key entries' (take limit nodes) \<and>
      (\<forall>k \<in> set (map fst entries'). map_of entries' k = map_of entries k)"
  using assms
proof (induction key limit entries nodes cnt rule: evict_loop.induct)
  case (1 key limit entries nodes cnt)
  note len = keys_match_length [OF "1.prems"]
  show ?case
  proof (cases "limit < length entries")
    case True
    with len have ne: "nodes \<noteq> []" by auto
    let ?k = "key (snd (last nodes))"
    from "1.IH" [OF True ne keys_match_butlast [OF "1.prems" ne]] obtain entries' where
      e: "evict_loop key limit (AList.delete ?k entries) (butlast nodes) (cnt + 1) =
            Some (entries', take limit (butlast nodes), cnt + 1 + (length (butlast nodes) - limit))"
         "keys_match key entries' (take limit (butlast nodes))"
         "\<forall>k \<in> set (map fst entries'). map_of entries' k = map_of (AList.delete ?k entries) k"
      by auto
    have t: "take limit (butlast nodes) = take limit nodes"
      using True len by (simp add: take_butlast)
    have "map_of entries' k = map_of entries k" if "k \<in> set (map fst entries')" for k
    proof -
      have "map_of entries' k \<noteq> None" using that by (simp add: map_of_eq_None_iff)
      moreover have eq: "map_of entries' k = map_of (AList.delete ?k entries) k"
        using e(3) that by blast
      ultimately have "k \<noteq> ?k" by (auto simp: delete_conv')
      with eq show ?thesis by simp
    qed
    with e t True ne len show ?thesis
      by (subst evict_loop.simps) simp
  next
    case False
    with "1.prems" len show ?thesis
      by (subst evict_loop.simps) simp
  qed
qed

text \<open>Deleting a node by identity is deleting it by key.\<close>

lemma delete_node_by_key:
  assumes "(it, x) \<in> set nodes" "distinct (map fst nodes)" "distinct (map (key \<circ> snd) nodes)"
  shows "AList.delete it nodes = filter (\<lambda>n. key (snd n) \<noteq> key x) nodes"
proof -
  have "fst n = it \<longleftrightarrow> key (snd n) = key x" if "n \<in> set nodes" for n
  proof (cases n)
    case (Pair j y)
    with assms(1) that inj_onD [of fst "set nodes" n "(it, x)"]
      inj_onD [of "key \<circ> snd" "set nodes" n "(it, x)"] assms(2,3)
    show ?thesis by (auto simp: distinct_map)
  qed
  then show ?thesis
    unfolding AList.delete_eq case_prod_unfold by (intro filter_cong refl) metis
qed

section \<open>Recency lists\<close>

text \<open>Association lists with the most recently used pair first: the caches' specifications.\<close>

definition lru_front :: "'k \<Rightarrow> 'v \<Rightarrow> ('k \<times> 'v) list \<Rightarrow> ('k \<times> 'v) list" where
  "lru_front k v l = (k, v) # AList.delete k l"

lemma map_of_take: "map_of (take n l) j = None \<or> map_of (take n l) j = map_of l j"
  by (induction l arbitrary: n) (auto simp: take_Cons split: nat.splits)

lemma length_delete_le: "length (AList.delete k l) \<le> length l"
  by (simp add: AList.delete_eq)

lemma length_lru_front_hit:
  "map_of l k \<noteq> None \<Longrightarrow> length (lru_front k v l) \<le> length l"
proof (induction l)
  case (Cons p l)
  then show ?case using length_delete_le [of k l] by (cases p) (auto simp: lru_front_def)
qed simp

section \<open>The interface\<close>

datatype ('k, 'v) cache_op = Insert 'k 'v | Get 'k | Remove 'k | Clear

text \<open>The value last inserted under a key and neither removed nor cleared since.\<close>

fun written :: "('k, 'v) cache_op list \<Rightarrow> 'k \<Rightarrow> 'v option" where
  "written [] = (\<lambda>_. None)"
| "written (Insert k v # ops) = (written ops)(k := Some v)"
| "written (Get k # ops) = written ops"
| "written (Remove k # ops) = (written ops)(k := None)"
| "written (Clear # ops) = (\<lambda>_. None)"

text \<open>
  Running operations on a cache (\<open>ops\<close> holds the latest one first, as \<open>written\<close> reads it). \<open>None\<close>
  is undefined behaviour in an insertion.
\<close>

fun cache_run ::
    "('k \<Rightarrow> 'v \<Rightarrow> 'c \<Rightarrow> 'c option) \<Rightarrow> ('k \<Rightarrow> 'c \<Rightarrow> 'c) \<Rightarrow> ('k \<Rightarrow> 'c \<Rightarrow> 'c) \<Rightarrow> ('c \<Rightarrow> 'c) \<Rightarrow>
     'c \<Rightarrow> ('k, 'v) cache_op list \<Rightarrow> 'c option" where
  "cache_run ins get rem clr c [] = Some c"
| "cache_run ins get rem clr c (oper # ops) =
     Option.bind (cache_run ins get rem clr c ops) (\<lambda>c'.
       case oper of
         Insert k v \<Rightarrow> ins k v c'
       | Get k \<Rightarrow> Some (get k c')
       | Remove k \<Rightarrow> Some (rem k c')
       | Clear \<Rightarrow> Some (clr c'))"

locale kv_cache =
  fixes lookup :: "'c \<Rightarrow> 'k \<Rightarrow> 'v option"
    and ins :: "'k \<Rightarrow> 'v \<Rightarrow> 'c \<Rightarrow> 'c option"
    and get :: "'k \<Rightarrow> 'c \<Rightarrow> 'c"
    and rem :: "'k \<Rightarrow> 'c \<Rightarrow> 'c"
    and clr :: "'c \<Rightarrow> 'c"
    and invar :: "'c \<Rightarrow> bool"
  assumes ins_law: "invar c \<Longrightarrow> \<exists>c'. ins k v c = Some c' \<and> invar c' \<and> lookup c' k = Some v \<and>
        (\<forall>j. j \<noteq> k \<longrightarrow> lookup c' j = None \<or> lookup c' j = lookup c j)"
    and get_law: "invar c \<Longrightarrow> invar (get k c) \<and> lookup (get k c) = lookup c"
    and rem_law: "invar c \<Longrightarrow> invar (rem k c) \<and> lookup (rem k c) = (lookup c)(k := None)"
    and clr_law: "invar c \<Longrightarrow> invar (clr c) \<and> lookup (clr c) = (\<lambda>_. None)"
begin

lemma run_defined:
  assumes "invar c" "lookup c = (\<lambda>_. None)"
  shows "\<exists>c'. cache_run ins get rem clr c ops = Some c' \<and> invar c' \<and>
    (\<forall>k v. lookup c' k = Some v \<longrightarrow> written ops k = Some v)"
proof (induction ops)
  case Nil
  with assms show ?case by simp
next
  case (Cons oper ops)
  then obtain c' where c': "cache_run ins get rem clr c ops = Some c'" "invar c'"
      "\<And>k v. lookup c' k = Some v \<Longrightarrow> written ops k = Some v"
    by auto
  show ?case
  proof (cases oper)
    case (Insert k v)
    from ins_law [OF c'(2), of k v] obtain d where d: "ins k v c' = Some d" "invar d"
        "lookup d k = Some v" "\<And>j. j \<noteq> k \<Longrightarrow> lookup d j = None \<or> lookup d j = lookup c' j"
      by auto
    have "written (oper # ops) j = Some w" if "lookup d j = Some w" for j w
    proof (cases "j = k")
      case True
      with that d(3) Insert show ?thesis by simp
    next
      case False
      with that d(4) [of j] have "lookup c' j = Some w" by simp
      with c'(3) False Insert show ?thesis by simp
    qed
    with d c'(1) Insert show ?thesis by auto
  next
    case (Get k)
    with c' get_law [OF c'(2), of k] show ?thesis by auto
  next
    case (Remove k)
    with c' rem_law [OF c'(2), of k] show ?thesis by (auto split: if_splits)
  next
    case Clear
    with c' clr_law [OF c'(2)] show ?thesis by auto
  qed
qed

lemma hit_after_insert:
  assumes "invar c" "lookup c = (\<lambda>_. None)"
  shows "\<exists>c'. cache_run ins get rem clr c (Insert k v # ops) = Some c' \<and> lookup c' k = Some v"
proof -
  from run_defined [OF assms] obtain c' where
    "cache_run ins get rem clr c ops = Some c'" "invar c'" by blast
  with ins_law [of c' k v] show ?thesis by auto
qed

end

end
