(* ===== verification/Lru11.thy ===== *)
theory Lru11
  imports CacheInterface
begin

text \<open>
  \<open>hikyuu/utilities/LRUCache11.h\<close>: \<open>lru11::Cache\<close> with its list of nodes \<open>keys_\<close> (most recently
  used first) and its map \<open>cache_\<close> from keys to list iterators. Every operation runs under the
  cache's lock, so an operation is one step. Lemmas: the map and the list stay consistent, the
  operations refine an association list in recency order, the size stays below the pruning bound.
\<close>

section \<open>Definitions\<close>

record ('k, 'v) lru11 =
  l11_cache :: "('k \<times> nat) list"
  l11_keys :: "(nat \<times> 'k \<times> 'v) list"
  l11_next :: nat \<comment> \<open>identity of the next node the list allocates\<close>
  l11_maxSize :: u64
  l11_elasticity :: u64

definition lru11_new :: "u64 \<Rightarrow> u64 \<Rightarrow> ('k, 'v) lru11" where
  "lru11_new maxSize elasticity =
     \<lparr>l11_cache = [], l11_keys = [], l11_next = 0, l11_maxSize = maxSize, l11_elasticity = elasticity\<rparr>"

definition lru11_size :: "('k, 'v) lru11 \<Rightarrow> nat" where
  "lru11_size c = length (l11_cache c)"

definition lru11_empty :: "('k, 'v) lru11 \<Rightarrow> bool" where
  "lru11_empty c \<longleftrightarrow> l11_cache c = []"

definition lru11_clear :: "('k, 'v) lru11 \<Rightarrow> ('k, 'v) lru11" where
  "lru11_clear c = c\<lparr>l11_cache := [], l11_keys := []\<rparr>"

definition lru11_getMaxSize :: "('k, 'v) lru11 \<Rightarrow> u64" where
  "lru11_getMaxSize c = l11_maxSize c"

definition lru11_getElasticity :: "('k, 'v) lru11 \<Rightarrow> u64" where
  "lru11_getElasticity c = l11_elasticity c"

definition getMaxAllowedSize :: "('k, 'v) lru11 \<Rightarrow> u64" where
  "getMaxAllowedSize c = l11_maxSize c + l11_elasticity c"

text \<open>\<open>prune\<close>; the sum of the two sizes wraps at 64 bits.\<close>

definition lru11_prune :: "('k, 'v) lru11 \<Rightarrow> (('k, 'v) lru11 \<times> nat) option" where
  "lru11_prune c =
     (let maxAllowed = l11_maxSize c + l11_elasticity c in
      if l11_maxSize c = 0 \<or> length (l11_cache c) < unat maxAllowed then Some (c, 0)
      else map_option (\<lambda>(entries, nodes, cnt). (c\<lparr>l11_cache := entries, l11_keys := nodes\<rparr>, cnt))
             (evict_loop fst (unat (l11_maxSize c)) (l11_cache c) (l11_keys c) 0))"

definition lru11_insert :: "'k \<Rightarrow> 'v \<Rightarrow> ('k, 'v) lru11 \<Rightarrow> ('k, 'v) lru11 option" where
  "lru11_insert k v c =
     (case map_of (l11_cache c) k of
        Some it \<Rightarrow> Some (c\<lparr>l11_keys := splice_front it (assign_node it (k, v) (l11_keys c))\<rparr>)
      | None \<Rightarrow>
          let it = l11_next c;
              c1 = c\<lparr>l11_keys := (it, k, v) # l11_keys c, l11_next := Suc it\<rparr>;
              c2 = c1\<lparr>l11_cache := AList.update k it (l11_cache c1)\<rparr>
          in map_option fst (lru11_prune c2))"

text \<open>The value of the node an iterator points to.\<close>

definition node_value :: "('k, 'v) lru11 \<Rightarrow> nat \<Rightarrow> 'v option" where
  "node_value c it = map_option snd (map_of (l11_keys c) it)"

definition lru11_tryGet :: "'k \<Rightarrow> ('k, 'v) lru11 \<Rightarrow> 'v option \<times> ('k, 'v) lru11" where
  "lru11_tryGet k c =
     (case map_of (l11_cache c) k of
        None \<Rightarrow> (None, c)
      | Some it \<Rightarrow>
          let c1 = c\<lparr>l11_keys := splice_front it (l11_keys c)\<rparr> in (node_value c1 it, c1))"

text \<open>
  \<open>get\<close> and \<open>getCopy\<close>: \<open>KeyNotFound\<close> on a miss. (An iterator of the map always points to a
  node, by the invariant below; the inner \<open>None\<close> never occurs.)
\<close>

definition lru11_get :: "'k \<Rightarrow> ('k, 'v) lru11 \<Rightarrow> 'v result \<times> ('k, 'v) lru11" where
  "lru11_get k c =
     (case map_of (l11_cache c) k of
        None \<Rightarrow> (Inl KeyNotFound, c)
      | Some it \<Rightarrow>
          let c1 = c\<lparr>l11_keys := splice_front it (l11_keys c)\<rparr>
          in (case node_value c1 it of None \<Rightarrow> Inl KeyNotFound | Some v \<Rightarrow> Inr v, c1))"

definition lru11_remove :: "'k \<Rightarrow> ('k, 'v) lru11 \<Rightarrow> bool \<times> ('k, 'v) lru11" where
  "lru11_remove k c =
     (case map_of (l11_cache c) k of
        None \<Rightarrow> (False, c)
      | Some it \<Rightarrow>
          (True, c\<lparr>l11_keys := AList.delete it (l11_keys c), l11_cache := AList.delete k (l11_cache c)\<rparr>))"

definition lru11_contains :: "'k \<Rightarrow> ('k, 'v) lru11 \<Rightarrow> bool" where
  "lru11_contains k c \<longleftrightarrow> map_of (l11_cache c) k \<noteq> None"

text \<open>\<open>cwalk\<close>: the visitor sees the nodes from the most to the least recently used.\<close>

definition lru11_cwalk :: "('k \<times> 'v \<Rightarrow> 's \<Rightarrow> 's) \<Rightarrow> ('k, 'v) lru11 \<Rightarrow> 's \<Rightarrow> 's" where
  "lru11_cwalk f c s = fold f (map snd (l11_keys c)) s"

section \<open>Consistency\<close>

text \<open>
  Every node is reached from the map under its own key and nothing else is; identities are
  distinct and not reused.
\<close>

definition lru11_inv :: "('k, 'v) lru11 \<Rightarrow> bool" where
  "lru11_inv c \<longleftrightarrow>
     keys_match fst (l11_cache c) (l11_keys c) \<and> distinct (map fst (l11_keys c)) \<and>
     (\<forall>(i, k, v) \<in> set (l11_keys c). i < l11_next c \<and> map_of (l11_cache c) k = Some i)"

text \<open>The abstraction: keys and values in recency order.\<close>

definition lru11_list :: "('k, 'v) lru11 \<Rightarrow> ('k \<times> 'v) list" where
  "lru11_list c = map snd (l11_keys c)"

lemma lru11_invD:
  assumes "lru11_inv c"
  shows "keys_match fst (l11_cache c) (l11_keys c)"
    and "distinct (map fst (l11_keys c))"
    and "(i, k, v) \<in> set (l11_keys c) \<Longrightarrow> i < l11_next c \<and> map_of (l11_cache c) k = Some i"
  using assms by (auto simp: lru11_inv_def)

lemmas lru11_inv_distinct =
  lru11_invD(1) [THEN keys_match_distinct] lru11_invD(2) lru11_invD(1) [THEN keys_match_length]

text \<open>A hit of the map, and a miss.\<close>

lemma lru11_find_Some:
  assumes "lru11_inv c" "map_of (l11_cache c) k = Some it"
  obtains v where "(it, k, v) \<in> set (l11_keys c)" "map_of (l11_keys c) it = Some (k, v)"
    "map_of (lru11_list c) k = Some v"
proof -
  have "k \<in> set (map fst (l11_cache c))"
    using assms(2) by (metis map_of_eq_None_iff not_None_eq set_map)
  moreover have "set (map fst (l11_cache c)) = set (map (fst \<circ> snd) (l11_keys c))"
    using assms(1) unfolding lru11_inv_def keys_match_def by (metis set_mset_mset)
  ultimately obtain i v where n: "(i, k, v) \<in> set (l11_keys c)" by auto
  with assms have i: "i = it" unfolding lru11_inv_def by fastforce
  with n show thesis
    using lru11_inv_distinct [OF assms(1)]
    by (intro that [of v]) (force simp: lru11_list_def intro: map_of_is_SomeI)+
qed

lemma lru11_find_None:
  assumes "lru11_inv c"
  shows "map_of (l11_cache c) k = None \<longleftrightarrow> map_of (lru11_list c) k = None"
proof -
  have "set (map fst (l11_cache c)) = set (map (fst \<circ> snd) (l11_keys c))"
    using assms unfolding lru11_inv_def keys_match_def by (metis set_mset_mset)
  then show ?thesis by (simp add: map_of_eq_None_iff lru11_list_def image_image)
qed

section \<open>Refinement\<close>

text \<open>The specification on the recency list: a hit moves to the front, a new key may prune.\<close>

definition lru11_prune_spec :: "u64 \<Rightarrow> u64 \<Rightarrow> ('k \<times> 'v) list \<Rightarrow> ('k \<times> 'v) list" where
  "lru11_prune_spec maxSize elasticity l =
     (if maxSize = 0 \<or> length l < unat (maxSize + elasticity) then l
      else take (unat maxSize) l)"

definition lru11_insert_spec ::
    "u64 \<Rightarrow> u64 \<Rightarrow> 'k \<Rightarrow> 'v \<Rightarrow> ('k \<times> 'v) list \<Rightarrow> ('k \<times> 'v) list" where
  "lru11_insert_spec maxSize elasticity k v l =
     (if map_of l k = None then lru11_prune_spec maxSize elasticity ((k, v) # l)
      else lru_front k v l)"

lemma splice_assigned:
  assumes "(it, y) \<in> set nodes"
  shows "splice_front it (assign_node it x nodes) = (it, x) # AList.delete it nodes"
proof -
  have "map_of (assign_node it x nodes) it = Some x"
    using assms by (induction nodes) (auto simp: assign_node_def)
  moreover have "AList.delete it (assign_node it x nodes) = AList.delete it nodes"
    by (induction nodes) (auto simp: assign_node_def)
  ultimately show ?thesis by (simp add: splice_front_def)
qed

lemma lru11_delete_node:
  assumes "lru11_inv c" "(it, k, v) \<in> set (l11_keys c)"
  shows "AList.delete it (l11_keys c) = filter (\<lambda>n. fst (snd n) \<noteq> k) (l11_keys c)"
    and "map snd (AList.delete it (l11_keys c)) = AList.delete k (lru11_list c)"
proof -
  show *: "AList.delete it (l11_keys c) = filter (\<lambda>n. fst (snd n) \<noteq> k) (l11_keys c)"
    using delete_node_by_key [OF assms(2) lru11_inv_distinct(2) [OF assms(1)]
        lru11_inv_distinct(1) [OF assms(1)]]
    by simp
  show "map snd (AList.delete it (l11_keys c)) = AList.delete k (lru11_list c)"
    by (subst *) (simp add: lru11_list_def AList.delete_eq filter_map o_def case_prod_unfold
        eq_commute [of k])
qed

lemma lru11_refresh:
  fixes c :: "('k, 'v) lru11" and v :: 'v
  assumes "lru11_inv c" "(it, k, v0) \<in> set (l11_keys c)"
  defines "c' \<equiv> c\<lparr>l11_keys := (it, k, v) # AList.delete it (l11_keys c)\<rparr>"
  shows "lru11_inv c'" and "lru11_list c' = lru_front k v (lru11_list c)"
proof -
  note del = lru11_delete_node [OF assms(1,2)]
  note inv = assms(1) [unfolded lru11_inv_def]
  have "distinct (map (fst \<circ> snd) (l11_keys c'))"
    using lru11_inv_distinct(1) [OF assms(1)]
    by (auto simp: c'_def del(1) distinct_map_filter)
  moreover have "set (map (fst \<circ> snd) (l11_keys c')) = set (map (fst \<circ> snd) (l11_keys c))"
    using assms(2) by (force simp: c'_def del(1))
  ultimately have "mset (map (fst \<circ> snd) (l11_keys c')) = mset (map (fst \<circ> snd) (l11_keys c))"
    using lru11_inv_distinct(1) [OF assms(1)] by (metis set_eq_iff_mset_eq_distinct)
  then have "keys_match fst (l11_cache c') (l11_keys c')"
    using inv by (simp only: keys_match_def) (simp add: c'_def)
  moreover have "distinct (map fst (l11_keys c'))"
    using inv by (simp add: c'_def distinct_delete delete_notin_dom [simplified])
  moreover have "\<forall>(i, j, w) \<in> set (l11_keys c'). i < l11_next c' \<and> map_of (l11_cache c') j = Some i"
    using inv assms(2) by (auto simp: c'_def del(1))
  ultimately show "lru11_inv c'" by (simp add: lru11_inv_def)
  show "lru11_list c' = lru_front k v (lru11_list c)"
    using del(2) by (simp add: c'_def lru11_list_def lru_front_def)
qed

lemma lru11_prune_refines:
  assumes "lru11_inv c"
  shows "\<exists>c' cnt. lru11_prune c = Some (c', cnt) \<and> lru11_inv c' \<and>
    lru11_list c' = lru11_prune_spec (l11_maxSize c) (l11_elasticity c) (lru11_list c) \<and>
    l11_maxSize c' = l11_maxSize c \<and> l11_elasticity c' = l11_elasticity c"
proof (cases "l11_maxSize c = 0 \<or> length (l11_cache c) < unat (l11_maxSize c + l11_elasticity c)")
  case True
  with assms lru11_inv_distinct(3) [OF assms] show ?thesis
    by (simp add: lru11_prune_def lru11_prune_spec_def lru11_list_def)
next
  case False
  let ?n = "unat (l11_maxSize c)"
  from assms have km: "keys_match fst (l11_cache c) (l11_keys c)" by (simp add: lru11_inv_def)
  from evict_loop_keeps [OF km, of ?n 0] obtain entries where
    e: "evict_loop fst ?n (l11_cache c) (l11_keys c) 0 =
          Some (entries, take ?n (l11_keys c), length (l11_keys c) - ?n)"
       "keys_match fst entries (take ?n (l11_keys c))"
       "\<forall>k \<in> set (map fst entries). map_of entries k = map_of (l11_cache c) k"
    by auto
  let ?c = "c\<lparr>l11_cache := entries, l11_keys := take ?n (l11_keys c)\<rparr>"
  have "\<forall>(i, k, v) \<in> set (take ?n (l11_keys c)). i < l11_next c \<and> map_of entries k = Some i"
  proof clarify
    fix i k v assume n: "(i, k, v) \<in> set (take ?n (l11_keys c))"
    have "set (map fst entries) = set (map (fst \<circ> snd) (take ?n (l11_keys c)))"
      using e(2) unfolding keys_match_def by (metis set_mset_mset)
    with n have "k \<in> set (map fst entries)" by force
    moreover have "i < l11_next c \<and> map_of (l11_cache c) k = Some i"
      using assms in_set_takeD [OF n] by (auto simp: lru11_inv_def)
    ultimately show "i < l11_next c \<and> map_of entries k = Some i" using e(3) by metis
  qed
  moreover have "distinct (map fst (take ?n (l11_keys c)))"
    using lru11_inv_distinct(2) [OF assms] by (simp flip: take_map)
  ultimately have "lru11_inv ?c" using e(2) by (simp add: lru11_inv_def)
  with False e(1) lru11_inv_distinct(3) [OF assms] show ?thesis
    by (auto simp: lru11_prune_def lru11_prune_spec_def lru11_list_def take_map)
qed

lemma lru11_insert_refines:
  assumes "lru11_inv c"
  shows "\<exists>c'. lru11_insert k v c = Some c' \<and> lru11_inv c' \<and>
    lru11_list c' = lru11_insert_spec (l11_maxSize c) (l11_elasticity c) k v (lru11_list c) \<and>
    l11_maxSize c' = l11_maxSize c \<and> l11_elasticity c' = l11_elasticity c"
proof (cases "map_of (l11_cache c) k")
  case (Some it)
  from lru11_find_Some [OF assms Some] obtain w where
    w: "(it, k, w) \<in> set (l11_keys c)" "map_of (lru11_list c) k = Some w" by metis
  from lru11_refresh [OF assms w(1), of v] Some w show ?thesis
    by (simp add: lru11_insert_def splice_assigned [OF w(1)] lru11_insert_spec_def)
next
  case None
  let ?c = "c\<lparr>l11_keys := (l11_next c, k, v) # l11_keys c, l11_next := Suc (l11_next c),
      l11_cache := AList.update k (l11_next c) (l11_cache c)\<rparr>"
  note inv = assms [unfolded lru11_inv_def]
  have "keys_match fst (l11_cache ?c) (l11_keys ?c)"
    using inv None keys_match_insert [of fst "l11_cache c" "l11_keys c" "(k, v)"] by simp
  moreover have "distinct (map fst (l11_keys ?c))"
    using inv by auto
  moreover have "\<forall>(i, j, w) \<in> set (l11_keys ?c).
      i < l11_next ?c \<and> map_of (l11_cache ?c) j = Some i"
    using inv None
    by (auto simp: alist_update_fresh [OF None] map_add_def less_SucI split: option.splits)
  ultimately have "lru11_inv ?c" by (simp add: lru11_inv_def)
  from lru11_prune_refines [OF this] None lru11_find_None [OF assms, of k] show ?thesis
    by (auto simp: lru11_insert_def Let_def lru11_insert_spec_def lru11_list_def)
qed

lemma lru11_tryGet_refines:
  assumes "lru11_inv c"
  shows "fst (lru11_tryGet k c) = map_of (lru11_list c) k"
    and "lru11_inv (snd (lru11_tryGet k c))"
    and "lru11_list (snd (lru11_tryGet k c)) =
      (case map_of (lru11_list c) k of None \<Rightarrow> lru11_list c | Some v \<Rightarrow> lru_front k v (lru11_list c))"
proof -
  have "fst (lru11_tryGet k c) = map_of (lru11_list c) k \<and> lru11_inv (snd (lru11_tryGet k c)) \<and>
    lru11_list (snd (lru11_tryGet k c)) =
      (case map_of (lru11_list c) k of None \<Rightarrow> lru11_list c | Some v \<Rightarrow> lru_front k v (lru11_list c))"
  proof (cases "map_of (l11_cache c) k")
    case None
    with assms lru11_find_None [OF assms, of k] show ?thesis by (simp add: lru11_tryGet_def)
  next
    case (Some it)
    from lru11_find_Some [OF assms Some] obtain v where
      v: "(it, k, v) \<in> set (l11_keys c)" "map_of (l11_keys c) it = Some (k, v)"
        "map_of (lru11_list c) k = Some v" by metis
    from lru11_refresh [OF assms v(1), of v] Some v show ?thesis
      by (simp add: lru11_tryGet_def splice_front_def node_value_def)
  qed
  then show "fst (lru11_tryGet k c) = map_of (lru11_list c) k"
    "lru11_inv (snd (lru11_tryGet k c))"
    "lru11_list (snd (lru11_tryGet k c)) =
      (case map_of (lru11_list c) k of None \<Rightarrow> lru11_list c | Some v \<Rightarrow> lru_front k v (lru11_list c))"
    by simp_all
qed

lemma lru11_get_tryGet:
  assumes "lru11_inv c"
  shows "lru11_get k c =
    (case fst (lru11_tryGet k c) of None \<Rightarrow> Inl KeyNotFound | Some v \<Rightarrow> Inr v, snd (lru11_tryGet k c))"
proof (cases "map_of (l11_cache c) k")
  case None
  then show ?thesis by (simp add: lru11_get_def lru11_tryGet_def)
next
  case (Some it)
  then show ?thesis by (simp add: lru11_get_def lru11_tryGet_def Let_def)
qed

lemma lru11_remove_refines:
  assumes "lru11_inv c"
  shows "fst (lru11_remove k c) \<longleftrightarrow> map_of (lru11_list c) k \<noteq> None"
    and "lru11_inv (snd (lru11_remove k c))"
    and "lru11_list (snd (lru11_remove k c)) = AList.delete k (lru11_list c)"
proof -
  have "(fst (lru11_remove k c) \<longleftrightarrow> map_of (lru11_list c) k \<noteq> None) \<and>
    lru11_inv (snd (lru11_remove k c)) \<and>
    lru11_list (snd (lru11_remove k c)) = AList.delete k (lru11_list c)"
  proof (cases "map_of (l11_cache c) k")
    case None
    with lru11_find_None [OF assms, of k] have "map_of (lru11_list c) k = None" by simp
    moreover from this have "k \<notin> fst ` set (lru11_list c)" by (simp only: map_of_eq_None_iff not_False_eq_True)
    ultimately show ?thesis using assms None by (simp add: lru11_remove_def)
  next
    case (Some it)
    from lru11_find_Some [OF assms Some] obtain v where
      v: "(it, k, v) \<in> set (l11_keys c)" "map_of (lru11_list c) k = Some v" by metis
    note del = lru11_delete_node [OF assms v(1)]
    let ?c = "snd (lru11_remove k c)"
    have c: "l11_keys ?c = filter (\<lambda>n. fst (snd n) \<noteq> k) (l11_keys c)"
      "l11_cache ?c = AList.delete k (l11_cache c)" "l11_next ?c = l11_next c"
      using Some del(1) by (simp_all add: lru11_remove_def)
    have "lru11_inv ?c"
      using assms keys_match_delete [of fst "l11_cache c" "l11_keys c" k]
      by (auto simp: lru11_inv_def c distinct_map_filter)
    with Some v del(2) show ?thesis
      by (simp add: lru11_remove_def lru11_list_def)
  qed
  then show "fst (lru11_remove k c) \<longleftrightarrow> map_of (lru11_list c) k \<noteq> None"
    "lru11_inv (snd (lru11_remove k c))"
    "lru11_list (snd (lru11_remove k c)) = AList.delete k (lru11_list c)"
    by simp_all
qed

lemma lru11_new_inv: "lru11_inv (lru11_new m e)" "lru11_list (lru11_new m e) = []"
  by (simp_all add: lru11_inv_def lru11_new_def keys_match_def lru11_list_def)

lemma lru11_clear_inv: "lru11_inv (lru11_clear c)" "lru11_list (lru11_clear c) = []"
  by (simp_all add: lru11_inv_def lru11_clear_def keys_match_def lru11_list_def)

abbreviation lru11_touch :: "'k \<Rightarrow> ('k, 'v) lru11 \<Rightarrow> ('k, 'v) lru11" where
  "lru11_touch k c \<equiv> snd (lru11_tryGet k c)"

abbreviation lru11_drop :: "'k \<Rightarrow> ('k, 'v) lru11 \<Rightarrow> ('k, 'v) lru11" where
  "lru11_drop k c \<equiv> snd (lru11_remove k c)"

interpretation l11: kv_cache "\<lambda>c k. fst (lru11_tryGet k c)" lru11_insert lru11_touch lru11_drop
  lru11_clear lru11_inv
proof unfold_locales
  fix c :: "('k, 'v) lru11" and k :: 'k and v :: 'v
  assume inv: "lru11_inv c"
  from lru11_insert_refines [OF inv, of k v] obtain c' where
    c': "lru11_insert k v c = Some c'" "lru11_inv c'"
      "lru11_list c' = lru11_insert_spec (l11_maxSize c) (l11_elasticity c) k v (lru11_list c)" by auto
  let ?l = "lru11_list c"
  have "map_of (lru11_list c') k = Some v"
    unfolding c'(3) lru11_insert_spec_def lru11_prune_spec_def lru_front_def
    by (cases "unat (l11_maxSize c)") (auto simp: unat_eq_zero)
  moreover have "map_of (lru11_list c') j = None \<or> map_of (lru11_list c') j = map_of ?l j" if "j \<noteq> k" for j
    unfolding c'(3) lru11_insert_spec_def lru11_prune_spec_def lru_front_def
    using that map_of_take [of "unat (l11_maxSize c)" "(k, v) # ?l" j] by auto
  ultimately show "\<exists>c'. lru11_insert k v c = Some c' \<and> lru11_inv c' \<and>
      fst (lru11_tryGet k c') = Some v \<and>
      (\<forall>j. j \<noteq> k \<longrightarrow> fst (lru11_tryGet j c') = None \<or> fst (lru11_tryGet j c') = fst (lru11_tryGet j c))"
    using c' inv by (simp add: lru11_tryGet_refines(1))
next
  fix c :: "('k, 'v) lru11" and k :: 'k
  assume inv: "lru11_inv c"
  have "map_of (lru11_list (lru11_touch k c)) = map_of (lru11_list c)"
    unfolding lru11_tryGet_refines(3) [OF inv]
    by (auto simp: lru_front_def delete_conv' fun_eq_iff split: option.splits)
  then show "lru11_inv (lru11_touch k c) \<and>
      (\<lambda>j. fst (lru11_tryGet j (lru11_touch k c))) = (\<lambda>j. fst (lru11_tryGet j c))"
    using inv by (simp add: lru11_tryGet_refines(1,2))
  show "lru11_inv (lru11_drop k c) \<and>
      (\<lambda>j. fst (lru11_tryGet j (lru11_drop k c))) = (\<lambda>j. fst (lru11_tryGet j c))(k := None)"
    using inv lru11_remove_refines [OF inv, of k]
    by (simp add: lru11_tryGet_refines(1) delete_conv' fun_eq_iff)
  show "lru11_inv (lru11_clear c) \<and> (\<lambda>j. fst (lru11_tryGet j (lru11_clear c))) = (\<lambda>_. None)"
    by (simp add: lru11_tryGet_refines(1) lru11_clear_inv)
qed

section \<open>The size bound\<close>

definition lru11_bounded :: "u64 \<Rightarrow> u64 \<Rightarrow> ('k, 'v) lru11 \<Rightarrow> bool" where
  "lru11_bounded m e c \<longleftrightarrow> lru11_inv c \<and> l11_maxSize c = m \<and> l11_elasticity c = e \<and>
     length (lru11_list c) \<le> max (unat m) (unat (m + e) - 1)"

lemma lru11_insert_bounded:
  assumes "lru11_bounded m e c" "m \<noteq> 0"
  shows "\<exists>c'. lru11_insert k v c = Some c' \<and> lru11_bounded m e c'"
proof -
  from assms have inv: "lru11_inv c" by (simp add: lru11_bounded_def)
  have "length (lru11_insert_spec m e k v (lru11_list c)) \<le> max (unat m) (unat (m + e) - 1)"
    using assms length_lru_front_hit [of "lru11_list c" k v]
    by (auto simp: lru11_insert_spec_def lru11_prune_spec_def lru11_bounded_def)
  with lru11_insert_refines [OF inv, of k v] assms show ?thesis
    by (auto simp: lru11_bounded_def)
qed

lemma lru11_frame:
  "l11_maxSize (lru11_touch k c) = l11_maxSize c" "l11_elasticity (lru11_touch k c) = l11_elasticity c"
  "l11_maxSize (lru11_drop k c) = l11_maxSize c" "l11_elasticity (lru11_drop k c) = l11_elasticity c"
  "l11_maxSize (lru11_clear c) = l11_maxSize c" "l11_elasticity (lru11_clear c) = l11_elasticity c"
  by (simp_all add: lru11_tryGet_def lru11_remove_def lru11_clear_def Let_def split: option.splits)

lemma lru11_step_bounded:
  assumes "lru11_bounded m e c"
  shows "lru11_bounded m e (lru11_touch k c)" "lru11_bounded m e (lru11_drop k c)"
    "lru11_bounded m e (lru11_clear c)"
proof -
  from assms have inv: "lru11_inv c" by (simp add: lru11_bounded_def)
  show "lru11_bounded m e (lru11_touch k c)"
    using assms inv length_lru_front_hit [of "lru11_list c" k]
    by (auto simp: lru11_bounded_def lru11_frame lru11_tryGet_refines split: option.splits
        intro: order_trans)
  show "lru11_bounded m e (lru11_drop k c)"
    using assms inv length_delete_le [of k "lru11_list c"]
    by (auto simp: lru11_bounded_def lru11_frame lru11_remove_refines intro: order_trans)
  show "lru11_bounded m e (lru11_clear c)"
    using assms by (simp add: lru11_bounded_def lru11_frame lru11_clear_inv)
qed

lemma lru11_run_bounded:
  assumes "m \<noteq> 0"
  shows "\<exists>c. cache_run lru11_insert lru11_touch lru11_drop lru11_clear (lru11_new m e) ops = Some c \<and>
    lru11_bounded m e c"
proof (induction ops)
  case Nil
  show ?case
    by (simp add: lru11_bounded_def lru11_new_inv) (simp add: lru11_new_def)
next
  case (Cons oper ops)
  with lru11_insert_bounded [OF _ assms] lru11_step_bounded show ?case
    by (cases oper) fastforce+
qed

section \<open>Properties\<close>

text \<open>
  Property C19: from an empty cache, every sequence of insertions, lookups, removals and clears runs
  without undefined behaviour, and afterwards a hit is the value last inserted under that key and
  not removed or cleared since; directly after its insertion a key is always found.
\<close>

theorem lru11_hit_is_last_written:
  "\<exists>c. cache_run lru11_insert lru11_touch lru11_drop lru11_clear (lru11_new m e) ops = Some c \<and>
     (\<forall>k v. fst (lru11_tryGet k c) = Some v \<longrightarrow> written ops k = Some v) \<and>
     (\<forall>k v. \<exists>c'. lru11_insert k v c = Some c' \<and> fst (lru11_tryGet k c') = Some v)"
proof -
  have "(\<lambda>k. fst (lru11_tryGet k (lru11_new m e))) = (\<lambda>_. None)"
    by (simp add: lru11_tryGet_refines(1) lru11_new_inv)
  from l11.run_defined [OF lru11_new_inv(1) this, of ops] obtain c where
    c: "cache_run lru11_insert lru11_touch lru11_drop lru11_clear (lru11_new m e) ops = Some c"
      "lru11_inv c" "\<forall>k v. fst (lru11_tryGet k c) = Some v \<longrightarrow> written ops k = Some v"
    by blast
  moreover have "\<exists>c'. lru11_insert k v c = Some c' \<and> fst (lru11_tryGet k c') = Some v" for k v
    using l11.ins_law [OF c(2), of k v] by blast
  ultimately show ?thesis by blast
qed

theorem lru11_hit_is_last_written_witness:
  "\<exists>c. cache_run lru11_insert lru11_touch lru11_drop lru11_clear (lru11_new 2 1)
       [Insert (1 :: nat) ''b'', Get 1, Insert 1 ''a''] = Some c \<and>
     fst (lru11_tryGet 1 c) \<in> {None, Some ''b''}"
proof -
  let ?ops = "[Insert (1 :: nat) ''b'', Get 1, Insert 1 ''a'']"
  obtain c where c: "cache_run lru11_insert lru11_touch lru11_drop lru11_clear (lru11_new 2 1) ?ops = Some c"
      "\<forall>k v. fst (lru11_tryGet k c) = Some v \<longrightarrow> written ?ops k = Some v"
    using lru11_hit_is_last_written [of 2 1 ?ops] by blast
  have "written ?ops 1 = Some ''b''" by simp
  with c(2) have "fst (lru11_tryGet 1 c) \<in> {None, Some ''b''}"
    by (metis insertCI not_None_eq option.inject)
  with c(1) show ?thesis by blast
qed

text \<open>
  A client: a sequence of calls, each with what it returns. \<open>lru11_call\<close> runs one on the cache
  (\<open>None\<close> is undefined behaviour), \<open>recency_call\<close> on the list of pairs, most recently used first.
\<close>

datatype ('k, 'v) lru11_op =
    Size | Empty | MaxSize | Elasticity | MaxAllowed | ClearAll | Put 'k 'v | TryGet 'k | GetRef 'k
  | Erase 'k | Contains 'k | Walk

datatype ('k, 'v) reply =
    Done | Number nat | Flag bool | Bound u64 | Found "'v option" | Answer "'v result" | Seen "('k \<times> 'v) list"

fun lru11_call :: "('k, 'v) lru11_op \<Rightarrow> ('k, 'v) lru11 \<Rightarrow> (('k, 'v) reply \<times> ('k, 'v) lru11) option" where
  "lru11_call Size c = Some (Number (lru11_size c), c)"
| "lru11_call Empty c = Some (Flag (lru11_empty c), c)"
| "lru11_call MaxSize c = Some (Bound (lru11_getMaxSize c), c)"
| "lru11_call Elasticity c = Some (Bound (lru11_getElasticity c), c)"
| "lru11_call MaxAllowed c = Some (Bound (getMaxAllowedSize c), c)"
| "lru11_call ClearAll c = Some (Done, lru11_clear c)"
| "lru11_call (Put k v) c = map_option (Pair Done) (lru11_insert k v c)"
| "lru11_call (TryGet k) c = Some (map_prod Found id (lru11_tryGet k c))"
| "lru11_call (GetRef k) c = Some (map_prod Answer id (lru11_get k c))"
| "lru11_call (Erase k) c = Some (map_prod Flag id (lru11_remove k c))"
| "lru11_call (Contains k) c = Some (Flag (lru11_contains k c), c)"
| "lru11_call Walk c = Some (Seen (lru11_cwalk (\<lambda>p seen. seen @ [p]) c []), c)"

definition recency_hit :: "'k \<Rightarrow> ('k \<times> 'v) list \<Rightarrow> ('k \<times> 'v) list" where
  "recency_hit k l = (case map_of l k of None \<Rightarrow> l | Some v \<Rightarrow> (k, v) # AList.delete k l)"

fun recency_call ::
    "u64 \<Rightarrow> u64 \<Rightarrow> ('k, 'v) lru11_op \<Rightarrow> ('k \<times> 'v) list \<Rightarrow> ('k, 'v) reply \<times> ('k \<times> 'v) list" where
  "recency_call m e Size l = (Number (length l), l)"
| "recency_call m e Empty l = (Flag (l = []), l)"
| "recency_call m e MaxSize l = (Bound m, l)"
| "recency_call m e Elasticity l = (Bound e, l)"
| "recency_call m e MaxAllowed l = (Bound (m + e), l)"
| "recency_call m e ClearAll l = (Done, [])"
| "recency_call m e (Put k v) l =
     (Done, if map_of l k \<noteq> None then (k, v) # AList.delete k l
            else if m = 0 \<or> Suc (length l) < unat (m + e) then (k, v) # l
            else take (unat m) ((k, v) # l))"
| "recency_call m e (TryGet k) l = (Found (map_of l k), recency_hit k l)"
| "recency_call m e (GetRef k) l =
     (Answer (case map_of l k of None \<Rightarrow> Inl KeyNotFound | Some v \<Rightarrow> Inr v), recency_hit k l)"
| "recency_call m e (Erase k) l = (Flag (map_of l k \<noteq> None), AList.delete k l)"
| "recency_call m e (Contains k) l = (Flag (map_of l k \<noteq> None), l)"
| "recency_call m e Walk l = (Seen l, l)"

fun lru11_client :: "('k, 'v) lru11_op list \<Rightarrow> ('k, 'v) lru11 \<Rightarrow> ('k, 'v) reply list option" where
  "lru11_client [] c = Some []"
| "lru11_client (p # ps) c =
     Option.bind (lru11_call p c) (\<lambda>(r, c'). map_option ((#) r) (lru11_client ps c'))"

fun recency_client ::
    "u64 \<Rightarrow> u64 \<Rightarrow> ('k, 'v) lru11_op list \<Rightarrow> ('k \<times> 'v) list \<Rightarrow> ('k, 'v) reply list" where
  "recency_client m e [] l = []"
| "recency_client m e (p # ps) l = (let (r, l') = recency_call m e p l in r # recency_client m e ps l')"

lemma fold_snoc: "fold (\<lambda>p seen. seen @ [p]) xs ys = ys @ xs"
  by (induction xs arbitrary: ys) simp_all

lemma lru11_call_refines:
  assumes "lru11_inv c" "l11_maxSize c = m" "l11_elasticity c = e"
  shows "\<exists>c'. lru11_call p c = Some (fst (recency_call m e p (lru11_list c)), c') \<and> lru11_inv c' \<and>
    lru11_list c' = snd (recency_call m e p (lru11_list c)) \<and> l11_maxSize c' = m \<and> l11_elasticity c' = e"
proof -
  note get = lru11_tryGet_refines [OF assms(1)] and rem = lru11_remove_refines [OF assms(1)]
  have len: "length (l11_cache c) = length (lru11_list c)"
    using lru11_inv_distinct(3) [OF assms(1)] by (simp add: lru11_list_def)
  have hit: "lru11_list (lru11_touch k c) = recency_hit k (lru11_list c)" for k
    unfolding get(3) recency_hit_def lru_front_def by (rule refl)
  show ?thesis
  proof (cases p)
    case (Put k v)
    then show ?thesis
      using lru11_insert_refines [OF assms(1), of k v] assms(2,3)
      by (auto simp: lru11_insert_spec_def lru11_prune_spec_def lru_front_def)
  next
    case (TryGet k)
    then show ?thesis
      using assms(2,3) get(1,2) hit by (simp add: map_prod_def case_prod_unfold lru11_frame)
  next
    case (GetRef k)
    then show ?thesis
      using assms(2,3) get(1,2) hit by (simp add: lru11_get_tryGet [OF assms(1)] lru11_frame)
  next
    case (Erase k)
    then show ?thesis
      using assms(2,3) rem by (simp add: map_prod_def case_prod_unfold lru11_frame)
  next
    case (Contains k)
    then show ?thesis
      using assms by (simp add: lru11_contains_def lru11_find_None [OF assms(1)])
  next
    case Empty
    then show ?thesis using assms len by (auto simp: lru11_empty_def)
  next
    case ClearAll
    then show ?thesis using assms by (simp add: lru11_clear_inv lru11_frame)
  qed (use assms len in \<open>simp_all add: lru11_size_def lru11_getMaxSize_def
      lru11_getElasticity_def getMaxAllowedSize_def lru11_cwalk_def fold_snoc lru11_list_def\<close>)
qed

lemma lru11_client_refines:
  assumes "lru11_inv c" "l11_maxSize c = m" "l11_elasticity c = e"
  shows "lru11_client ps c = Some (recency_client m e ps (lru11_list c))"
  using assms
proof (induction ps arbitrary: c)
  case (Cons p ps)
  from lru11_call_refines [OF Cons.prems, of p] Cons.IH show ?case
    by (auto simp: case_prod_unfold Let_def)
qed simp

text \<open>
  Property C5: whatever sequence of calls a client makes on a new cache, none is undefined behaviour
  and each returns what it returns on a list of pairs kept in the order of their last use: \<open>size\<close>,
  \<open>empty\<close>, \<open>contains\<close> and \<open>cwalk\<close> read the list; \<open>insert\<close> of a known key, and a hit of \<open>tryGet\<close>, \<open>get\<close>
  or \<open>getCopy\<close>, move the pair to the front; a new key goes to the front and, at \<open>maxSize +
  elasticity\<close> entries or more, only the \<open>maxSize\<close> most recently used pairs stay (none is dropped when
  \<open>maxSize\<close> is 0); \<open>get\<close> throws \<open>KeyNotFound\<close> exactly on a miss; \<open>remove\<close> tells whether there was
  a pair to delete; \<open>clear\<close> leaves none.
\<close>

theorem lru11_refines_recency_list:
  "lru11_client ps (lru11_new m e) = Some (recency_client m e ps [])"
proof -
  have "l11_maxSize (lru11_new m e) = m" "l11_elasticity (lru11_new m e) = e"
    by (simp_all add: lru11_new_def)
  from lru11_client_refines [OF lru11_new_inv(1) this] show ?thesis by (simp add: lru11_new_inv(2))
qed

theorem lru11_refines_recency_list_witness:
  "lru11_client [Put 1 ''a'', Put 2 ''b'', TryGet 1, Put 3 ''c'', Contains 2, GetRef 1, GetRef 2, Walk,
       Erase (3 :: nat), Size, ClearAll, Empty] (lru11_new 2 0) =
     Some [Done, Done, Found (Some ''a''), Done, Flag False, Answer (Inr ''a''), Answer (Inl KeyNotFound),
       Seen [(1, ''a''), (3, ''c'')], Flag True, Number 1, Done, Flag True]"
  unfolding lru11_refines_recency_list by code_simp

text \<open>
  Property C22: with a positive \<open>maxSize\<close> whose sum with the elasticity does not wrap, no sequence
  of operations makes the cache larger than \<open>maxSize\<close> or \<open>maxSize + elasticity - 1\<close>, whichever is
  greater. (A \<open>maxSize\<close> of 0 means no bound.)
\<close>

theorem lru11_size_bound:
  assumes "m \<noteq> 0" "unat m + unat e < 2 ^ 64"
    and "cache_run lru11_insert lru11_touch lru11_drop lru11_clear (lru11_new m e) ops = Some c"
  shows "lru11_size c \<le> max (unat m) (unat m + unat e - 1)"
proof -
  from lru11_run_bounded [OF assms(1), of e ops] assms(3) have b: "lru11_bounded m e c" by auto
  then have "length (l11_cache c) = length (lru11_list c)"
    using lru11_inv_distinct(3) by (auto simp: lru11_bounded_def lru11_list_def)
  with b unat_add_less [of m e] assms(2) show ?thesis
    by (simp add: lru11_bounded_def lru11_size_def)
qed

theorem lru11_size_bound_witness:
  "\<exists>c. cache_run lru11_insert lru11_touch lru11_drop lru11_clear (lru11_new 2 2)
       [Insert 5 ''e'', Insert 4 ''d'', Get 1, Insert 3 ''c'', Insert 2 ''b'', Insert (1 :: nat) ''a''] = Some c \<and>
     lru11_size c \<le> 3"
proof -
  have "(2 :: u64) \<noteq> 0" by simp
  from lru11_run_bounded [OF this, of 2
      "[Insert 5 ''e'', Insert 4 ''d'', Get 1, Insert 3 ''c'', Insert 2 ''b'', Insert (1 :: nat) ''a'']"]
  obtain c where c: "cache_run lru11_insert lru11_touch lru11_drop lru11_clear (lru11_new 2 2)
      [Insert 5 ''e'', Insert 4 ''d'', Get 1, Insert 3 ''c'', Insert 2 ''b'', Insert (1 :: nat) ''a''] = Some c"
    by (elim exE conjE) (rule that)
  from lru11_size_bound [OF _ _ c] have "lru11_size c \<le> 3" by simp
  with c show ?thesis by blast
qed

end
