(* ===== verification/LruCache.thy ===== *)
theory LruCache
  imports CacheInterface
begin

text \<open>
  \<open>hikyuu/utilities/LruCache.h\<close>: \<open>hku::LruCache\<close>, whose lookups run under a shared lock and only set
  a node's atomic dirty flag; the list is reordered by the next insertion. \<open>m_lru_list\<close> holds the
  keys, \<open>m_cache\<close> maps a key to its list iterator, its value and its flag. A shared-lock operation
  writes at most one atomic flag, so it is one step as well. Lemmas: consistency, refinement of the
  list of keys, values and flags, the size bound.
\<close>

section \<open>Definitions\<close>

record ('k, 'v) lrucache =
  m_lru_list :: "(nat \<times> 'k) list"
  m_cache :: "('k \<times> nat \<times> 'v \<times> bool) list"
  lc_next :: nat \<comment> \<open>identity of the next node the list allocates\<close>
  m_capacity :: u64
  m_overflow :: u64

definition lc_new :: "u64 \<Rightarrow> u64 \<Rightarrow> ('k, 'v) lrucache" where
  "lc_new capacity overflow =
     \<lparr>m_lru_list = [], m_cache = [], lc_next = 0, m_capacity = capacity, m_overflow = overflow\<rparr>"

text \<open>\<open>_prune_if_needed\<close>; the sum wraps at 64 bits.\<close>

definition lc_prune_if_needed :: "('k, 'v) lrucache \<Rightarrow> (('k, 'v) lrucache \<times> nat) option" where
  "lc_prune_if_needed c =
     (let maxAllowed = m_capacity c + m_overflow c in
      if m_capacity c = 0 \<or> length (m_cache c) \<le> unat maxAllowed then Some (c, 0)
      else map_option (\<lambda>(entries, nodes, cnt). (c\<lparr>m_cache := entries, m_lru_list := nodes\<rparr>, cnt))
             (evict_loop id (unat (m_capacity c)) (m_cache c) (m_lru_list c) 0))"

text \<open>The reverse traversal of \<open>_batch_update_dirty_nodes\<close>: the first dirty node from the tail.\<close>

fun find_dirty :: "('k \<times> nat \<times> 'v \<times> bool) list \<Rightarrow> (nat \<times> 'k) list \<Rightarrow> (nat \<times> 'k) option" where
  "find_dirty entries [] = None"
| "find_dirty entries ((i, k) # nodes) =
     (case map_of entries k of
        None \<Rightarrow> find_dirty entries nodes
      | Some (_, _, dirty) \<Rightarrow> if dirty then Some (i, k) else find_dirty entries nodes)"

definition lc_batch_update_dirty_nodes :: "('k, 'v) lrucache \<Rightarrow> ('k, 'v) lrucache" where
  "lc_batch_update_dirty_nodes c =
     (case find_dirty (m_cache c) (rev (m_lru_list c)) of
        None \<Rightarrow> c
      | Some (i, k) \<Rightarrow>
          (case map_of (m_cache c) k of
             None \<Rightarrow> c
           | Some (it, v, _) \<Rightarrow>
               c\<lparr>m_cache := AList.update k (it, v, False) (m_cache c),
                 m_lru_list := splice_front i (m_lru_list c)\<rparr>))"

definition lc_insert :: "'k \<Rightarrow> 'v \<Rightarrow> ('k, 'v) lrucache \<Rightarrow> ('k, 'v) lrucache option" where
  "lc_insert k v c0 =
     (let c = lc_batch_update_dirty_nodes c0 in
      case map_of (m_cache c) k of
        Some (it, _, _) \<Rightarrow>
          Some (c\<lparr>m_cache := AList.update k (it, v, False) (m_cache c),
                  m_lru_list := splice_front it (m_lru_list c)\<rparr>)
      | None \<Rightarrow>
          let it = lc_next c;
              c1 = c\<lparr>m_lru_list := (it, k) # m_lru_list c, lc_next := Suc it\<rparr>;
              c2 = c1\<lparr>m_cache := AList.update k (it, v, False) (m_cache c1)\<rparr>
          in map_option fst (lc_prune_if_needed c2))"

text \<open>\<open>tryGet\<close>, and \<open>get\<close> with the default-constructed value \<open>dflt\<close> on a miss.\<close>

definition lc_tryGet :: "'k \<Rightarrow> ('k, 'v) lrucache \<Rightarrow> 'v option \<times> ('k, 'v) lrucache" where
  "lc_tryGet k c =
     (case map_of (m_cache c) k of
        None \<Rightarrow> (None, c)
      | Some (it, v, _) \<Rightarrow> (Some v, c\<lparr>m_cache := AList.update k (it, v, True) (m_cache c)\<rparr>))"

definition lc_get :: "'v \<Rightarrow> 'k \<Rightarrow> ('k, 'v) lrucache \<Rightarrow> 'v \<times> ('k, 'v) lrucache" where
  "lc_get dflt k c =
     (case map_of (m_cache c) k of
        None \<Rightarrow> (dflt, c)
      | Some (it, v, _) \<Rightarrow> (v, c\<lparr>m_cache := AList.update k (it, v, True) (m_cache c)\<rparr>))"

definition lc_contains :: "'k \<Rightarrow> ('k, 'v) lrucache \<Rightarrow> bool" where
  "lc_contains k c \<longleftrightarrow> map_of (m_cache c) k \<noteq> None"

definition lc_remove :: "'k \<Rightarrow> ('k, 'v) lrucache \<Rightarrow> bool \<times> ('k, 'v) lrucache" where
  "lc_remove k c =
     (case map_of (m_cache c) k of
        None \<Rightarrow> (False, c)
      | Some (it, _, _) \<Rightarrow>
          (True, c\<lparr>m_lru_list := AList.delete it (m_lru_list c), m_cache := AList.delete k (m_cache c)\<rparr>))"

definition lc_clear :: "('k, 'v) lrucache \<Rightarrow> ('k, 'v) lrucache" where
  "lc_clear c = c\<lparr>m_cache := [], m_lru_list := []\<rparr>"

definition lc_size :: "('k, 'v) lrucache \<Rightarrow> nat" where
  "lc_size c = length (m_cache c)"

definition lc_empty :: "('k, 'v) lrucache \<Rightarrow> bool" where
  "lc_empty c \<longleftrightarrow> m_cache c = []"

definition lc_capacity :: "('k, 'v) lrucache \<Rightarrow> u64" where
  "lc_capacity c = m_capacity c"

definition lc_overflow :: "('k, 'v) lrucache \<Rightarrow> u64" where
  "lc_overflow c = m_overflow c"

definition lc_resize :: "u64 \<Rightarrow> ('k, 'v) lrucache \<Rightarrow> ('k, 'v) lrucache option" where
  "lc_resize capacity c = map_option fst (lc_prune_if_needed (c\<lparr>m_capacity := capacity\<rparr>))"

definition lc_setOverflow :: "u64 \<Rightarrow> ('k, 'v) lrucache \<Rightarrow> ('k, 'v) lrucache option" where
  "lc_setOverflow overflow c = map_option fst (lc_prune_if_needed (c\<lparr>m_overflow := overflow\<rparr>))"

section \<open>Consistency\<close>

definition lc_inv :: "('k, 'v) lrucache \<Rightarrow> bool" where
  "lc_inv c \<longleftrightarrow>
     keys_match id (m_cache c) (m_lru_list c) \<and> distinct (map fst (m_lru_list c)) \<and>
     (\<forall>(i, k) \<in> set (m_lru_list c). i < lc_next c \<and> (\<exists>e. map_of (m_cache c) k = Some (i, e)))"

text \<open>The abstraction: keys with value and flag, in list order.\<close>

definition lc_items :: "('k, 'v) lrucache \<Rightarrow> ('k \<times> 'v \<times> bool) list" where
  "lc_items c = map (\<lambda>(i, k). (k, snd (the (map_of (m_cache c) k)))) (m_lru_list c)"

lemma lc_inv_keys: "lc_inv c \<Longrightarrow> set (map fst (m_cache c)) = set (map snd (m_lru_list c))"
  unfolding lc_inv_def keys_match_def by (metis id_comp set_mset_mset)

lemma lc_inv_distinct:
  assumes "lc_inv c"
  shows "distinct (map snd (m_lru_list c))" "distinct (map fst (m_lru_list c))"
    "length (m_cache c) = length (m_lru_list c)"
  using assms keys_match_distinct [of id "m_cache c" "m_lru_list c"]
    keys_match_length [of id "m_cache c" "m_lru_list c"]
  by (simp_all add: lc_inv_def)

lemma map_of_keyed:
  "map_of (map (\<lambda>(i, k). (k, f k)) l) k = (if k \<in> set (map snd l) then Some (f k) else None)"
  by (induction l) auto

lemma lc_items_lookup:
  assumes "lc_inv c"
  shows "map_of (lc_items c) k = map_option snd (map_of (m_cache c) k)"
proof (cases "map_of (m_cache c) k")
  case None
  then have "k \<notin> set (map snd (m_lru_list c))"
    using lc_inv_keys [OF assms] by (simp add: map_of_eq_None_iff)
  with None show ?thesis by (simp add: lc_items_def map_of_keyed)
next
  case (Some e)
  then have "k \<in> set (map snd (m_lru_list c))"
    using lc_inv_keys [OF assms] by (metis map_of_eq_None_iff not_None_eq set_map)
  with Some show ?thesis by (simp add: lc_items_def map_of_keyed)
qed

lemma lc_items_keys: "map fst (lc_items c) = map snd (m_lru_list c)"
  by (simp add: lc_items_def case_prod_unfold)

lemma lc_find_node:
  assumes "lc_inv c" "map_of (m_cache c) k = Some (i, e)"
  shows "(i, k) \<in> set (m_lru_list c)"
proof -
  have "k \<in> set (map snd (m_lru_list c))"
    using lc_inv_keys [OF assms(1)] assms(2) by (metis map_of_eq_None_iff not_None_eq set_map)
  then obtain j where "(j, k) \<in> set (m_lru_list c)" by auto
  with assms show ?thesis by (fastforce simp: lc_inv_def)
qed

section \<open>Refinement\<close>

text \<open>
  The specification on items: \<open>mark\<close> is a lookup, \<open>batch_spec\<close> moves the dirty item nearest to the
  end to the front, an insertion does so first.
\<close>

definition assign_key :: "'k \<Rightarrow> 'e \<Rightarrow> ('k \<times> 'e) list \<Rightarrow> ('k \<times> 'e) list" where
  "assign_key k e l = map (\<lambda>(j, y). (j, if j = k then e else y)) l"

definition batch_spec :: "('k \<times> 'v \<times> bool) list \<Rightarrow> ('k \<times> 'v \<times> bool) list" where
  "batch_spec l =
     (case find (\<lambda>(k, v, d). d) (rev l) of
        None \<Rightarrow> l
      | Some (k, v, d) \<Rightarrow> lru_front k (v, False) l)"

definition lc_prune_spec :: "u64 \<Rightarrow> u64 \<Rightarrow> ('k \<times> 'e) list \<Rightarrow> ('k \<times> 'e) list" where
  "lc_prune_spec capacity overflow l =
     (if capacity = 0 \<or> length l \<le> unat (capacity + overflow) then l else take (unat capacity) l)"

definition lc_insert_spec ::
    "u64 \<Rightarrow> u64 \<Rightarrow> 'k \<Rightarrow> 'v \<Rightarrow> ('k \<times> 'v \<times> bool) list \<Rightarrow> ('k \<times> 'v \<times> bool) list" where
  "lc_insert_spec capacity overflow k v l =
     (if map_of l k = None then lc_prune_spec capacity overflow ((k, v, False) # batch_spec l)
      else lru_front k (v, False) (batch_spec l))"

lemma keys_match_update:
  assumes "keys_match key entries nodes" "map_of entries k \<noteq> None"
  shows "keys_match key (AList.update k e entries) nodes"
proof -
  have "k \<in> set (map fst entries)" using assms(2) by (metis map_of_eq_None_iff set_map)
  with assms(1) show ?thesis by (simp add: keys_match_def update_keys)
qed

lemma lc_assign:
  fixes c :: "('k, 'v) lrucache" and e :: "'v \<times> bool"
  assumes "lc_inv c" "map_of (m_cache c) k = Some (i, e0)"
  defines "c' \<equiv> c\<lparr>m_cache := AList.update k (i, e) (m_cache c)\<rparr>"
  shows "lc_inv c'" and "lc_items c' = assign_key k e (lc_items c)"
proof -
  have look: "map_of (m_cache c') j = (if j = k then Some (i, e) else map_of (m_cache c) j)" for j
    by (simp add: c'_def update_conv')
  have "keys_match id (m_cache c') (m_lru_list c')"
    using assms(1,2) by (simp add: c'_def lc_inv_def keys_match_update)
  moreover have "\<forall>(j, q) \<in> set (m_lru_list c'). j < lc_next c' \<and>
      (\<exists>e. map_of (m_cache c') q = Some (j, e))"
    unfolding look using assms(1,2) by (fastforce simp: c'_def lc_inv_def)
  ultimately show "lc_inv c'" using assms(1) by (simp add: lc_inv_def c'_def)
  show "lc_items c' = assign_key k e (lc_items c)"
    unfolding lc_items_def assign_key_def look by (auto simp: c'_def)
qed

lemma lc_delete_node:
  assumes "lc_inv c" "(i, k) \<in> set (m_lru_list c)"
  shows "AList.delete i (m_lru_list c) = filter (\<lambda>n. snd n \<noteq> k) (m_lru_list c)"
    and "map (\<lambda>(i, k). (k, f k)) (AList.delete i (m_lru_list c)) =
      AList.delete k (map (\<lambda>(i, k). (k, f k)) (m_lru_list c))"
proof -
  show *: "AList.delete i (m_lru_list c) = filter (\<lambda>n. snd n \<noteq> k) (m_lru_list c)"
    using delete_node_by_key [OF assms(2) lc_inv_distinct(2) [OF assms(1)], of id]
      lc_inv_distinct(1) [OF assms(1)]
    by simp
  show "map (\<lambda>(i, k). (k, f k)) (AList.delete i (m_lru_list c)) =
      AList.delete k (map (\<lambda>(i, k). (k, f k)) (m_lru_list c))"
    by (subst *) (simp add: AList.delete_eq filter_map o_def case_prod_unfold eq_commute [of k])
qed

lemma lc_splice:
  assumes "lc_inv c" "map_of (m_cache c) k = Some (i, e)"
  defines "c' \<equiv> c\<lparr>m_lru_list := splice_front i (m_lru_list c)\<rparr>"
  shows "lc_inv c'" and "lc_items c' = lru_front k e (lc_items c)"
proof -
  note node = lc_find_node [OF assms(1,2)]
  note dist = lc_inv_distinct [OF assms(1)]
  note del = lc_delete_node [OF assms(1) node]
  have list: "m_lru_list c' = (i, k) # AList.delete i (m_lru_list c)"
    using node dist(2) by (simp add: c'_def splice_front_def)
  have "distinct (map snd (m_lru_list c'))"
    unfolding list del(1) using dist(1) by (auto simp: distinct_map_filter)
  moreover have "set (map snd (m_lru_list c')) = set (map snd (m_lru_list c))"
    unfolding list del(1) using node by force
  ultimately have "mset (map snd (m_lru_list c')) = mset (map snd (m_lru_list c))"
    using dist(1) by (metis set_eq_iff_mset_eq_distinct)
  then have "keys_match id (m_cache c') (m_lru_list c')"
    using assms(1) by (simp add: c'_def lc_inv_def keys_match_def)
  moreover have "distinct (map fst (m_lru_list c'))"
    unfolding list using dist(2) by (simp add: distinct_delete delete_notin_dom [simplified])
  moreover have "\<forall>(j, q) \<in> set (m_lru_list c'). j < lc_next c' \<and>
      (\<exists>e. map_of (m_cache c') q = Some (j, e))"
    unfolding list del(1) using assms(1) node by (auto simp: c'_def lc_inv_def)
  ultimately show "lc_inv c'" by (simp add: lc_inv_def)
  show "lc_items c' = lru_front k e (lc_items c)"
    unfolding lc_items_def list using assms(2)
    by (simp add: del(2) lru_front_def c'_def)
qed

lemma delete_assign_key [simp]: "AList.delete k (assign_key k e l) = AList.delete k l"
  by (induction l) (auto simp: assign_key_def)

lemma lc_refresh:
  fixes c :: "('k, 'v) lrucache" and e :: "'v \<times> bool"
  assumes "lc_inv c" "map_of (m_cache c) k = Some (i, e0)"
  defines "c' \<equiv> c\<lparr>m_cache := AList.update k (i, e) (m_cache c),
      m_lru_list := splice_front i (m_lru_list c)\<rparr>"
  shows "lc_inv c'" and "lc_items c' = lru_front k e (lc_items c)"
proof -
  let ?c1 = "c\<lparr>m_cache := AList.update k (i, e) (m_cache c)\<rparr>"
  note a = lc_assign [OF assms(1,2), of e]
  have c': "c' = ?c1\<lparr>m_lru_list := splice_front i (m_lru_list ?c1)\<rparr>" by (simp add: c'_def)
  have "map_of (m_cache ?c1) k = Some (i, e)" by (simp add: update_conv')
  from lc_splice [OF a(1) this] show "lc_inv c'" "lc_items c' = lru_front k e (lc_items c)"
    unfolding c' a(2) by (simp_all add: lru_front_def)
qed

text \<open>The traversal finds what \<open>find\<close> finds on the items.\<close>

lemma find_dirty_items:
  assumes "\<And>i k. (i, k) \<in> set ns \<Longrightarrow> \<exists>e. map_of entries k = Some (i, e)"
  shows "map_option (\<lambda>(i, k). (k, snd (the (map_of entries k)))) (find_dirty entries ns) =
    find (\<lambda>(k, v, d). d) (map (\<lambda>(i, k). (k, snd (the (map_of entries k)))) ns)"
  using assms
proof (induction ns)
  case (Cons n ns)
  obtain i k where n: "n = (i, k)" by (cases n)
  with Cons.prems obtain v d where "map_of entries k = Some (i, v, d)" by fastforce
  with Cons n show ?case by simp
qed simp

lemma find_dirty_mem: "find_dirty entries ns = Some n \<Longrightarrow> n \<in> set ns"
proof (induction entries ns rule: find_dirty.induct)
  case (2 entries i k nodes)
  then show ?case
    by (cases "map_of entries k") (auto split: prod.splits if_splits)
qed simp

lemma lc_batch_refines:
  assumes "lc_inv c"
  defines "c' \<equiv> lc_batch_update_dirty_nodes c"
  shows "lc_inv c' \<and> lc_items c' = batch_spec (lc_items c) \<and> lc_next c' = lc_next c \<and>
    m_capacity c' = m_capacity c \<and> m_overflow c' = m_overflow c"
proof -
  let ?f = "\<lambda>(i :: nat, k). (k, snd (the (map_of (m_cache c) k)))"
  have "map_option ?f (find_dirty (m_cache c) (rev (m_lru_list c))) =
      find (\<lambda>(k, v, d). d) (map ?f (rev (m_lru_list c)))"
    using assms(1) by (intro find_dirty_items) (auto simp: lc_inv_def)
  then have f: "map_option ?f (find_dirty (m_cache c) (rev (m_lru_list c))) =
      find (\<lambda>(k, v, d). d) (rev (lc_items c))"
    by (simp only: lc_items_def rev_map)
  show ?thesis
  proof (cases "find_dirty (m_cache c) (rev (m_lru_list c))")
    case None
    with f have "find (\<lambda>(k, v, d). d) (rev (lc_items c)) = None" by simp
    with None assms(1) show ?thesis
      by (simp add: c'_def lc_batch_update_dirty_nodes_def batch_spec_def)
  next
    case (Some n)
    obtain i k where n: "n = (i, k)" by (cases n)
    with find_dirty_mem [OF Some] have mem: "(i, k) \<in> set (m_lru_list c)" by simp
    with assms(1) obtain v d where e: "map_of (m_cache c) k = Some (i, v, d)"
      by (fastforce simp: lc_inv_def)
    have "batch_spec (lc_items c) = lru_front k (v, False) (lc_items c)"
      unfolding batch_spec_def f [symmetric] Some n by (simp add: e)
    with lc_refresh [OF assms(1) e, of "(v, False)"] Some n e show ?thesis
      by (simp add: c'_def lc_batch_update_dirty_nodes_def)
  qed
qed

lemma lc_prune_refines:
  assumes "lc_inv c"
  shows "\<exists>c' cnt. lc_prune_if_needed c = Some (c', cnt) \<and> lc_inv c' \<and>
    lc_items c' = lc_prune_spec (m_capacity c) (m_overflow c) (lc_items c) \<and>
    m_capacity c' = m_capacity c \<and> m_overflow c' = m_overflow c"
proof (cases "m_capacity c = 0 \<or> length (m_cache c) \<le> unat (m_capacity c + m_overflow c)")
  case True
  with assms lc_inv_distinct(3) [OF assms] show ?thesis
    by (simp add: lc_prune_if_needed_def lc_prune_spec_def lc_items_def)
next
  case False
  let ?n = "unat (m_capacity c)"
  from assms have km: "keys_match id (m_cache c) (m_lru_list c)" by (simp add: lc_inv_def)
  from evict_loop_keeps [OF km, of ?n 0] obtain entries where
    e: "evict_loop id ?n (m_cache c) (m_lru_list c) 0 =
          Some (entries, take ?n (m_lru_list c), length (m_lru_list c) - ?n)"
       "keys_match id entries (take ?n (m_lru_list c))"
       "\<forall>k \<in> set (map fst entries). map_of entries k = map_of (m_cache c) k"
    by auto
  have "set (map fst entries) = set (map snd (take ?n (m_lru_list c)))"
    using e(2) unfolding keys_match_def by (metis id_comp set_mset_mset)
  with e(3) have look: "map_of entries k = map_of (m_cache c) k"
    if "(i, k) \<in> set (take ?n (m_lru_list c))" for i k
    using that by force
  let ?c = "c\<lparr>m_cache := entries, m_lru_list := take ?n (m_lru_list c)\<rparr>"
  have "\<forall>(i, k) \<in> set (take ?n (m_lru_list c)). i < lc_next c \<and> (\<exists>e. map_of entries k = Some (i, e))"
    using assms look by (fastforce simp: lc_inv_def dest: in_set_takeD)
  moreover have "distinct (map fst (take ?n (m_lru_list c)))"
    using lc_inv_distinct(2) [OF assms] by (simp flip: take_map)
  ultimately have inv: "lc_inv ?c" using e(2) by (simp add: lc_inv_def)
  have "lc_items ?c = take ?n (lc_items c)"
    using look by (auto simp: lc_items_def take_map intro!: map_cong)
  with inv False e(1) lc_inv_distinct(3) [OF assms] show ?thesis
    by (auto simp: lc_prune_if_needed_def lc_prune_spec_def lc_items_def)
qed

lemma map_of_lru_front: "map_of (lru_front k e l) j = (if j = k then Some e else map_of l j)"
  by (simp add: lru_front_def delete_conv')

lemma find_rev_mem:
  assumes "find P (rev l) = Some x" "distinct (map fst l)"
  shows "map_of l (fst x) = Some (snd x)"
  using assms by (auto simp: find_Some_iff intro!: map_of_is_SomeI)
    (metis length_rev nth_mem set_rev)

lemma distinct_items: "lc_inv c \<Longrightarrow> distinct (map fst (lc_items c))"
  by (simp only: lc_items_keys lc_inv_distinct(1))

lemma batch_spec_keys:
  assumes "distinct (map fst l)"
  shows "map_option fst (map_of (batch_spec l) k) = map_option fst (map_of l k)"
  using find_rev_mem [OF _ assms]
  by (auto simp: batch_spec_def map_of_lru_front split: option.splits)

lemma lc_insert_refines:
  assumes "lc_inv c"
  shows "\<exists>c'. lc_insert k v c = Some c' \<and> lc_inv c' \<and>
    lc_items c' = lc_insert_spec (m_capacity c) (m_overflow c) k v (lc_items c) \<and>
    m_capacity c' = m_capacity c \<and> m_overflow c' = m_overflow c"
proof -
  let ?b = "lc_batch_update_dirty_nodes c"
  note b = lc_batch_refines [OF assms]
  have binv: "lc_inv ?b" using b by simp
  have keys: "map_of (lc_items c) k = None \<longleftrightarrow> map_of (m_cache ?b) k = None"
    using batch_spec_keys [OF distinct_items [OF assms], of k] lc_items_lookup [OF binv, of k] b
    by (metis None_eq_map_option_iff)
  show ?thesis
  proof (cases "map_of (m_cache ?b) k")
    case (Some e)
    obtain it w d where e: "e = (it, w, d)" by (cases e)
    from lc_refresh [OF binv Some [unfolded e], of "(v, False)"] Some e b keys show ?thesis
      by (auto simp: lc_insert_def lc_insert_spec_def Let_def)
  next
    case None
    let ?c = "?b\<lparr>m_lru_list := (lc_next ?b, k) # m_lru_list ?b, lc_next := Suc (lc_next ?b),
        m_cache := AList.update k (lc_next ?b, v, False) (m_cache ?b)\<rparr>"
    have fresh: "k \<notin> set (map snd (m_lru_list ?b))"
      using None lc_inv_keys [OF binv] by (metis map_of_eq_None_iff set_map)
    note binv' = binv [unfolded lc_inv_def]
    have "keys_match id (m_cache ?c) (m_lru_list ?c)"
      using binv' None keys_match_insert [of id "m_cache ?b" "m_lru_list ?b" k] by simp
    moreover have "distinct (map fst (m_lru_list ?c))" using binv' by auto
    moreover have "\<forall>(i, j) \<in> set (m_lru_list ?c).
        i < lc_next ?c \<and> (\<exists>e. map_of (m_cache ?c) j = Some (i, e))"
      using binv' None fresh by (force simp: update_conv' less_SucI)
    ultimately have inv: "lc_inv ?c" by (simp add: lc_inv_def)
    have "lc_items ?c = (k, v, False) # lc_items ?b"
      using fresh by (force simp: lc_items_def update_conv')
    with lc_prune_refines [OF inv] None b keys show ?thesis
      by (auto simp: lc_insert_def Let_def lc_insert_spec_def)
  qed
qed

lemma assign_key_lookup:
  "map_of (assign_key k e l) j = (if j = k then map_option (\<lambda>_. e) (map_of l k) else map_of l j)"
  by (induction l) (auto simp: assign_key_def)

lemma length_assign_key [simp]: "length (assign_key k e l) = length l"
  by (simp add: assign_key_def)

lemma lc_tryGet_refines:
  assumes "lc_inv c"
  shows "fst (lc_tryGet k c) = map_option fst (map_of (lc_items c) k)"
    and "lc_inv (snd (lc_tryGet k c))"
    and "lc_items (snd (lc_tryGet k c)) =
      (case map_of (lc_items c) k of None \<Rightarrow> lc_items c
       | Some (v, _) \<Rightarrow> assign_key k (v, True) (lc_items c))"
proof -
  have "fst (lc_tryGet k c) = map_option fst (map_of (lc_items c) k) \<and>
    lc_inv (snd (lc_tryGet k c)) \<and>
    lc_items (snd (lc_tryGet k c)) =
      (case map_of (lc_items c) k of None \<Rightarrow> lc_items c
       | Some (v, _) \<Rightarrow> assign_key k (v, True) (lc_items c))"
  proof (cases "map_of (m_cache c) k")
    case None
    with assms lc_items_lookup [OF assms, of k] show ?thesis by (simp add: lc_tryGet_def)
  next
    case (Some e)
    obtain it v d where e: "e = (it, v, d)" by (cases e)
    with Some lc_items_lookup [OF assms, of k] lc_assign [OF assms Some [unfolded e], of "(v, True)"]
    show ?thesis by (simp add: lc_tryGet_def)
  qed
  then show "fst (lc_tryGet k c) = map_option fst (map_of (lc_items c) k)"
    "lc_inv (snd (lc_tryGet k c))"
    "lc_items (snd (lc_tryGet k c)) =
      (case map_of (lc_items c) k of None \<Rightarrow> lc_items c
       | Some (v, _) \<Rightarrow> assign_key k (v, True) (lc_items c))"
    by blast+
qed

lemma lc_get_tryGet:
  "lc_get dflt k c =
     (case fst (lc_tryGet k c) of None \<Rightarrow> dflt | Some v \<Rightarrow> v, snd (lc_tryGet k c))"
  by (auto simp: lc_get_def lc_tryGet_def split: option.splits)

lemma lc_remove_refines:
  assumes "lc_inv c"
  shows "fst (lc_remove k c) \<longleftrightarrow> map_of (lc_items c) k \<noteq> None"
    and "lc_inv (snd (lc_remove k c))"
    and "lc_items (snd (lc_remove k c)) = AList.delete k (lc_items c)"
proof -
  have "(fst (lc_remove k c) \<longleftrightarrow> map_of (lc_items c) k \<noteq> None) \<and> lc_inv (snd (lc_remove k c)) \<and>
    lc_items (snd (lc_remove k c)) = AList.delete k (lc_items c)"
  proof (cases "map_of (m_cache c) k")
    case None
    with lc_items_lookup [OF assms, of k] have none: "map_of (lc_items c) k = None" by simp
    then have "k \<notin> fst ` set (lc_items c)" by (simp only: map_of_eq_None_iff not_False_eq_True)
    with none show ?thesis using assms None by (simp add: lc_remove_def)
  next
    case (Some e)
    obtain it v d where e: "e = (it, v, d)" by (cases e)
    note del = lc_delete_node [OF assms lc_find_node [OF assms Some [unfolded e]]]
    let ?c = "snd (lc_remove k c)"
    have c: "m_lru_list ?c = filter (\<lambda>n. snd n \<noteq> k) (m_lru_list c)"
      "m_cache ?c = AList.delete k (m_cache c)" "lc_next ?c = lc_next c"
      using Some e del(1) by (simp_all add: lc_remove_def)
    have "lc_inv ?c"
      using assms keys_match_delete [of id "m_cache c" "m_lru_list c" k]
      by (fastforce simp: lc_inv_def c distinct_map_filter delete_conv')
    moreover have "lc_items ?c = AList.delete k (lc_items c)"
    proof -
      have "lc_items ?c = map (\<lambda>(i, k). (k, snd (the (map_of (m_cache c) k))))
          (AList.delete it (m_lru_list c))"
        unfolding lc_items_def c del(1) by (auto simp: delete_conv')
      with del(2) show ?thesis by (simp only: lc_items_def)
    qed
    moreover have "fst (lc_remove k c)" "map_of (lc_items c) k \<noteq> None"
      using Some e lc_items_lookup [OF assms, of k] by (simp_all add: lc_remove_def)
    ultimately show ?thesis by blast
  qed
  then show "fst (lc_remove k c) \<longleftrightarrow> map_of (lc_items c) k \<noteq> None"
    "lc_inv (snd (lc_remove k c))" "lc_items (snd (lc_remove k c)) = AList.delete k (lc_items c)"
    by blast+
qed

lemma lc_new_inv: "lc_inv (lc_new m e)" "lc_items (lc_new m e) = []"
  by (simp_all add: lc_inv_def lc_new_def keys_match_def lc_items_def)

lemma lc_clear_inv: "lc_inv (lc_clear c)" "lc_items (lc_clear c) = []"
  by (simp_all add: lc_inv_def lc_clear_def keys_match_def lc_items_def)

abbreviation lc_touch :: "'k \<Rightarrow> ('k, 'v) lrucache \<Rightarrow> ('k, 'v) lrucache" where
  "lc_touch k c \<equiv> snd (lc_tryGet k c)"

abbreviation lc_drop :: "'k \<Rightarrow> ('k, 'v) lrucache \<Rightarrow> ('k, 'v) lrucache" where
  "lc_drop k c \<equiv> snd (lc_remove k c)"

lemma lc_touch_values:
  assumes "lc_inv c"
  shows "map_option fst (map_of (lc_items (lc_touch k c)) j) = map_option fst (map_of (lc_items c) j)"
  unfolding lc_tryGet_refines(3) [OF assms]
  by (auto simp: assign_key_lookup split: option.splits)

interpretation lc: kv_cache "\<lambda>c k. fst (lc_tryGet k c)" lc_insert lc_touch lc_drop lc_clear lc_inv
proof unfold_locales
  fix c :: "('k, 'v) lrucache" and k :: 'k and v :: 'v
  assume inv: "lc_inv c"
  from lc_insert_refines [OF inv, of k v] obtain c' where
    c': "lc_insert k v c = Some c'" "lc_inv c'"
      "lc_items c' = lc_insert_spec (m_capacity c) (m_overflow c) k v (lc_items c)" by auto
  let ?l = "lc_items c" and ?n = "unat (m_capacity c)"
  note vals = batch_spec_keys [OF distinct_items [OF inv]]
  have "map_of (lc_items c') k = Some (v, False)"
    unfolding c'(3) lc_insert_spec_def lc_prune_spec_def lru_front_def
    by (cases ?n) (auto simp: unat_eq_zero)
  moreover have "map_of (lc_items c') j = None \<or> map_of (lc_items c') j = map_of (batch_spec ?l) j"
    if "j \<noteq> k" for j
    unfolding c'(3) lc_insert_spec_def lc_prune_spec_def lru_front_def
    using that map_of_take [of ?n "(k, v, False) # batch_spec ?l" j] by auto
  ultimately show "\<exists>c'. lc_insert k v c = Some c' \<and> lc_inv c' \<and> fst (lc_tryGet k c') = Some v \<and>
      (\<forall>j. j \<noteq> k \<longrightarrow> fst (lc_tryGet j c') = None \<or> fst (lc_tryGet j c') = fst (lc_tryGet j c))"
    using c'(1,2) inv vals by (fastforce simp: lc_tryGet_refines(1))
next
  fix c :: "('k, 'v) lrucache" and k :: 'k
  assume inv: "lc_inv c"
  show "lc_inv (lc_touch k c) \<and>
      (\<lambda>j. fst (lc_tryGet j (lc_touch k c))) = (\<lambda>j. fst (lc_tryGet j c))"
    using inv lc_touch_values [OF inv] by (simp add: lc_tryGet_refines(1,2))
  show "lc_inv (lc_drop k c) \<and>
      (\<lambda>j. fst (lc_tryGet j (lc_drop k c))) = (\<lambda>j. fst (lc_tryGet j c))(k := None)"
    using inv lc_remove_refines [OF inv, of k]
    by (simp add: lc_tryGet_refines(1) delete_conv' fun_eq_iff)
  show "lc_inv (lc_clear c) \<and> (\<lambda>j. fst (lc_tryGet j (lc_clear c))) = (\<lambda>_. None)"
    by (simp add: lc_tryGet_refines(1) lc_clear_inv)
qed

section \<open>The size bound\<close>

definition lc_bounded :: "u64 \<Rightarrow> u64 \<Rightarrow> ('k, 'v) lrucache \<Rightarrow> bool" where
  "lc_bounded m e c \<longleftrightarrow> lc_inv c \<and> m_capacity c = m \<and> m_overflow c = e \<and>
     length (lc_items c) \<le> max (unat m) (unat (m + e))"

lemma length_batch_spec:
  assumes "distinct (map fst l)"
  shows "length (batch_spec l) \<le> length l"
proof (cases "find (\<lambda>(k, v, d). d) (rev l)")
  case (Some x)
  obtain k v d where x: "x = (k, v, d)" by (cases x)
  with find_rev_mem [OF Some assms] have "map_of l k \<noteq> None" by simp
  with Some x show ?thesis by (simp add: batch_spec_def length_lru_front_hit)
qed (simp add: batch_spec_def)

lemma lc_insert_bounded:
  assumes "lc_bounded m e c" "m \<noteq> 0"
  shows "\<exists>c'. lc_insert k v c = Some c' \<and> lc_bounded m e c'"
proof -
  from assms have inv: "lc_inv c" by (simp add: lc_bounded_def)
  let ?l = "batch_spec (lc_items c)"
  have b: "length ?l \<le> max (unat m) (unat (m + e))"
    using length_batch_spec [OF distinct_items [OF inv]] assms by (simp add: lc_bounded_def)
  have hit: "length (lru_front k (v, False) ?l) \<le> length ?l" if "map_of (lc_items c) k \<noteq> None"
    using that batch_spec_keys [OF distinct_items [OF inv], of k]
    by (intro length_lru_front_hit) (metis None_eq_map_option_iff)
  have "length (lc_insert_spec m e k v (lc_items c)) \<le> max (unat m) (unat (m + e))"
    using b hit assms(2) by (auto simp: lc_insert_spec_def lc_prune_spec_def intro: order_trans)
  with lc_insert_refines [OF inv, of k v] assms show ?thesis
    by (auto simp: lc_bounded_def)
qed

lemma lc_frame:
  "m_capacity (lc_touch k c) = m_capacity c" "m_overflow (lc_touch k c) = m_overflow c"
  "m_capacity (lc_drop k c) = m_capacity c" "m_overflow (lc_drop k c) = m_overflow c"
  "m_capacity (lc_clear c) = m_capacity c" "m_overflow (lc_clear c) = m_overflow c"
  by (auto simp: lc_tryGet_def lc_remove_def lc_clear_def split: option.splits)

lemma lc_step_bounded:
  assumes "lc_bounded m e c"
  shows "lc_bounded m e (lc_touch k c)" "lc_bounded m e (lc_drop k c)" "lc_bounded m e (lc_clear c)"
proof -
  from assms have inv: "lc_inv c" by (simp add: lc_bounded_def)
  show "lc_bounded m e (lc_touch k c)"
    using assms inv by (auto simp: lc_bounded_def lc_frame lc_tryGet_refines split: option.splits)
  show "lc_bounded m e (lc_drop k c)"
    using assms inv length_delete_le [of k "lc_items c"]
    by (auto simp: lc_bounded_def lc_frame lc_remove_refines intro: order_trans)
  show "lc_bounded m e (lc_clear c)"
    using assms by (simp add: lc_bounded_def lc_frame lc_clear_inv)
qed

lemma lc_run_bounded:
  assumes "m \<noteq> 0"
  shows "\<exists>c. cache_run lc_insert lc_touch lc_drop lc_clear (lc_new m e) ops = Some c \<and>
    lc_bounded m e c"
proof (induction ops)
  case Nil
  show ?case by (simp add: lc_bounded_def lc_new_inv) (simp add: lc_new_def)
next
  case (Cons oper ops)
  with lc_insert_bounded [OF _ assms] lc_step_bounded show ?case
    by (cases oper) fastforce+
qed

section \<open>Properties\<close>

text \<open>
  From an empty \<open>LruCache\<close>, every sequence of insertions, lookups, removals and
  clears runs without undefined behaviour, afterwards a hit is the value last inserted under that
  key and not removed since, and a key is found directly after its insertion - although lookups
  only mark nodes and the list is not in recency order.
\<close>

theorem lrucache_hit_is_last_written:
  "\<exists>c. cache_run lc_insert lc_touch lc_drop lc_clear (lc_new m e) ops = Some c \<and>
     (\<forall>k v. fst (lc_tryGet k c) = Some v \<longrightarrow> written ops k = Some v) \<and>
     (\<forall>k v. \<exists>c'. lc_insert k v c = Some c' \<and> fst (lc_tryGet k c') = Some v)"
proof -
  have "(\<lambda>k. fst (lc_tryGet k (lc_new m e))) = (\<lambda>_. None)"
    by (simp add: lc_tryGet_refines(1) lc_new_inv)
  from lc.run_defined [OF lc_new_inv(1) this, of ops] obtain c where
    c: "cache_run lc_insert lc_touch lc_drop lc_clear (lc_new m e) ops = Some c" "lc_inv c"
      "\<forall>k v. fst (lc_tryGet k c) = Some v \<longrightarrow> written ops k = Some v"
    by blast
  moreover have "\<exists>c'. lc_insert k v c = Some c' \<and> fst (lc_tryGet k c') = Some v" for k v
    using lc.ins_law [OF c(2), of k v] by blast
  ultimately show ?thesis by blast
qed

text \<open>
  A client: a sequence of calls, each with what it returns. \<open>lc_call\<close> runs one on the cache (\<open>None\<close>
  is undefined behaviour), \<open>items_call\<close> on capacity, overflow and the list of keys with value and flag.
\<close>

datatype ('k, 'v) lc_op =
    LcSize | LcEmpty | LcCapacity | LcOverflow | LcClear | LcInsert 'k 'v | LcTryGet 'k | LcGet 'k
  | LcRemove 'k | LcContains 'k | LcResize u64 | LcSetOverflow u64

datatype 'v lc_reply = LcDone | LcNumber nat | LcFlag bool | LcBound u64 | LcFound "'v option" | LcValue 'v

fun lc_call ::
    "'v \<Rightarrow> ('k, 'v) lc_op \<Rightarrow> ('k, 'v) lrucache \<Rightarrow> ('v lc_reply \<times> ('k, 'v) lrucache) option" where
  "lc_call dflt LcSize c = Some (LcNumber (lc_size c), c)"
| "lc_call dflt LcEmpty c = Some (LcFlag (lc_empty c), c)"
| "lc_call dflt LcCapacity c = Some (LcBound (lc_capacity c), c)"
| "lc_call dflt LcOverflow c = Some (LcBound (lc_overflow c), c)"
| "lc_call dflt LcClear c = Some (LcDone, lc_clear c)"
| "lc_call dflt (LcInsert k v) c = map_option (Pair LcDone) (lc_insert k v c)"
| "lc_call dflt (LcTryGet k) c = Some (map_prod LcFound id (lc_tryGet k c))"
| "lc_call dflt (LcGet k) c = Some (map_prod LcValue id (lc_get dflt k c))"
| "lc_call dflt (LcRemove k) c = Some (map_prod LcFlag id (lc_remove k c))"
| "lc_call dflt (LcContains k) c = Some (LcFlag (lc_contains k c), c)"
| "lc_call dflt (LcResize n) c = map_option (Pair LcDone) (lc_resize n c)"
| "lc_call dflt (LcSetOverflow n) c = map_option (Pair LcDone) (lc_setOverflow n c)"

type_synonym ('k, 'v) lc_view = "u64 \<times> u64 \<times> ('k \<times> 'v \<times> bool) list"

text \<open>
  A lookup flags its item where it is. Pruning starts when there are more than \<open>capacity + overflow\<close>
  items; insertion first brings the flagged item nearest to the end to the front, without its flag.
\<close>

definition items_hit :: "'k \<Rightarrow> ('k \<times> 'v \<times> bool) list \<Rightarrow> ('k \<times> 'v \<times> bool) list" where
  "items_hit k l = map (\<lambda>(j, v, d). (j, v, d \<or> j = k)) l"

definition items_prune :: "u64 \<Rightarrow> u64 \<Rightarrow> ('k \<times> 'e) list \<Rightarrow> ('k \<times> 'e) list" where
  "items_prune m e l = (if m = 0 \<or> length l \<le> unat (m + e) then l else take (unat m) l)"

definition items_refresh :: "('k \<times> 'v \<times> bool) list \<Rightarrow> ('k \<times> 'v \<times> bool) list" where
  "items_refresh l =
     (case filter (\<lambda>(k, v, d). d) l of
        [] \<Rightarrow> l
      | (q # qs) \<Rightarrow> (case last (q # qs) of (k, v, d) \<Rightarrow> (k, v, False) # AList.delete k l))"

fun items_call :: "'v \<Rightarrow> ('k, 'v) lc_op \<Rightarrow> ('k, 'v) lc_view \<Rightarrow> 'v lc_reply \<times> ('k, 'v) lc_view" where
  "items_call dflt LcSize (m, e, l) = (LcNumber (length l), m, e, l)"
| "items_call dflt LcEmpty (m, e, l) = (LcFlag (l = []), m, e, l)"
| "items_call dflt LcCapacity (m, e, l) = (LcBound m, m, e, l)"
| "items_call dflt LcOverflow (m, e, l) = (LcBound e, m, e, l)"
| "items_call dflt LcClear (m, e, l) = (LcDone, m, e, [])"
| "items_call dflt (LcInsert k v) (m, e, l) =
     (LcDone, m, e,
      if map_of l k = None then items_prune m e ((k, v, False) # items_refresh l)
      else (k, v, False) # AList.delete k (items_refresh l))"
| "items_call dflt (LcTryGet k) (m, e, l) = (LcFound (map_option fst (map_of l k)), m, e, items_hit k l)"
| "items_call dflt (LcGet k) (m, e, l) =
     (LcValue (case map_of l k of None \<Rightarrow> dflt | Some (v, _) \<Rightarrow> v), m, e, items_hit k l)"
| "items_call dflt (LcRemove k) (m, e, l) = (LcFlag (map_of l k \<noteq> None), m, e, AList.delete k l)"
| "items_call dflt (LcContains k) (m, e, l) = (LcFlag (map_of l k \<noteq> None), m, e, l)"
| "items_call dflt (LcResize n) (m, e, l) = (LcDone, n, e, items_prune n e l)"
| "items_call dflt (LcSetOverflow n) (m, e, l) = (LcDone, m, n, items_prune m n l)"

fun lc_client :: "'v \<Rightarrow> ('k, 'v) lc_op list \<Rightarrow> ('k, 'v) lrucache \<Rightarrow> 'v lc_reply list option" where
  "lc_client dflt [] c = Some []"
| "lc_client dflt (p # ps) c =
     Option.bind (lc_call dflt p c) (\<lambda>(r, c'). map_option ((#) r) (lc_client dflt ps c'))"

fun items_client :: "'v \<Rightarrow> ('k, 'v) lc_op list \<Rightarrow> ('k, 'v) lc_view \<Rightarrow> 'v lc_reply list" where
  "items_client dflt [] s = []"
| "items_client dflt (p # ps) s = (let (r, s') = items_call dflt p s in r # items_client dflt ps s')"

definition lc_view_of :: "('k, 'v) lrucache \<Rightarrow> ('k, 'v) lc_view" where
  "lc_view_of c = (m_capacity c, m_overflow c, lc_items c)"

lemma items_refresh_eq: "items_refresh l = batch_spec l"
proof -
  have f: "find P (rev l) = (case filter P l of [] \<Rightarrow> None | q # qs \<Rightarrow> Some (last (q # qs)))"
    for P :: "'a \<times> 'b \<times> bool \<Rightarrow> bool" and l
    by (induction l rule: rev_induct) (auto split: list.splits)
  show ?thesis
    unfolding items_refresh_def batch_spec_def f lru_front_def by (auto split: list.splits)
qed

lemma assign_key_hit:
  assumes "distinct (map fst l)"
  shows "items_hit k l =
    (case map_of l k of None \<Rightarrow> l | Some (v, _) \<Rightarrow> assign_key k (v, True) l)"
  using assms
proof (induction l)
  case (Cons x l)
  obtain j w d where x: "x = (j, w, d)" by (cases x)
  show ?case
  proof (cases "j = k")
    case True
    with Cons.prems x have "k \<notin> fst ` set l" by auto
    then have "map (\<lambda>(i, v, d). (i, v, d \<or> i = k)) l = l"
      "map (\<lambda>(i, y). (i, if i = k then (w, True) else y)) l = l"
      by (force intro!: map_idI)+
    with True x show ?thesis by (simp add: items_hit_def assign_key_def)
  next
    case False
    with Cons x show ?thesis
      by (auto simp: items_hit_def assign_key_def split: option.splits)
  qed
qed (simp add: items_hit_def)

lemma lc_call_refines:
  assumes "lc_inv c"
  shows "\<exists>c'. lc_call dflt p c = Some (fst (items_call dflt p (lc_view_of c)), c') \<and> lc_inv c' \<and>
    lc_view_of c' = snd (items_call dflt p (lc_view_of c))"
proof -
  note get = lc_tryGet_refines [OF assms] and rem = lc_remove_refines [OF assms]
  have len: "length (m_cache c) = length (lc_items c)"
    using lc_inv_distinct(3) [OF assms] by (simp add: lc_items_def)
  have hit: "lc_items (lc_touch k c) = items_hit k (lc_items c)" for k
    unfolding get(3) assign_key_hit [OF distinct_items [OF assms]] by (rule refl)
  have inv: "lc_inv (c\<lparr>m_capacity := n\<rparr>)" "lc_inv (c\<lparr>m_overflow := n\<rparr>)" for n
    using assms by (simp_all add: lc_inv_def)
  have prune: "lc_prune_spec = items_prune" by (simp add: fun_eq_iff lc_prune_spec_def items_prune_def)
  show ?thesis
  proof (cases p)
    case (LcInsert k v)
    then show ?thesis
      using lc_insert_refines [OF assms, of k v]
      by (auto simp: lc_view_of_def lc_insert_spec_def prune items_refresh_eq lru_front_def)
  next
    case (LcTryGet k)
    then show ?thesis
      using get(1,2) hit by (simp add: map_prod_def case_prod_unfold lc_frame lc_view_of_def)
  next
    case (LcGet k)
    then show ?thesis
      using get(1,2) hit
      by (auto simp: lc_get_tryGet lc_frame lc_view_of_def split: option.splits)
  next
    case (LcRemove k)
    then show ?thesis
      using rem by (simp add: map_prod_def case_prod_unfold lc_frame lc_view_of_def)
  next
    case (LcContains k)
    then show ?thesis
      using assms lc_items_lookup [OF assms, of k] by (simp add: lc_contains_def lc_view_of_def)
  next
    case (LcResize n)
    then show ?thesis
      using lc_prune_refines [OF inv(1) [of n]]
      by (auto simp: lc_resize_def lc_view_of_def prune lc_items_def)
  next
    case (LcSetOverflow n)
    then show ?thesis
      using lc_prune_refines [OF inv(2) [of n]]
      by (auto simp: lc_setOverflow_def lc_view_of_def prune lc_items_def)
  next
    case LcEmpty
    then show ?thesis using assms len by (auto simp: lc_empty_def lc_view_of_def)
  next
    case LcClear
    then show ?thesis using assms by (simp add: lc_clear_inv lc_frame lc_view_of_def)
  qed (use assms len in \<open>simp_all add: lc_size_def lc_capacity_def lc_overflow_def lc_view_of_def\<close>)
qed

lemma lc_client_refines:
  assumes "lc_inv c"
  shows "lc_client dflt ps c = Some (items_client dflt ps (lc_view_of c))"
  using assms
proof (induction ps arbitrary: c)
  case (Cons p ps)
  from lc_call_refines [OF Cons.prems, of dflt p] Cons.IH show ?case
    by (auto simp: case_prod_unfold Let_def)
qed simp

text \<open>
  Property C9: whatever sequence of calls a client makes on a new \<open>LruCache\<close>, none is undefined
  behaviour and each returns what it returns on capacity, overflow and a list of keys with their
  values and flags: \<open>size\<close>, \<open>empty\<close>, \<open>contains\<close>, \<open>capacity\<close> and \<open>overflow\<close> read them; \<open>tryGet\<close> and
  \<open>get\<close> flag the item where it is, a miss of \<open>get\<close> being the default value; \<open>insert\<close> first moves one
  item, the flagged one nearest to the end, to the front, then refreshes the key or adds it; \<open>remove\<close>
  tells whether there was an item to delete; \<open>clear\<close> leaves none; \<open>resize\<close> and \<open>setOverflow\<close> store
  their argument. A new key, \<open>resize\<close> and \<open>setOverflow\<close> prune to the first \<open>capacity\<close> items when there
  are more than \<open>capacity + overflow\<close> and \<open>capacity\<close> is not 0. This is the code: its comments say that
  eviction begins at \<open>capacity + overflow\<close> items already (line 58) and that all flagged items are
  moved, the one moved being the one read last (lines 251 to 275).
\<close>

theorem lrucache_refines_items:
  "lc_client dflt ps (lc_new m e) = Some (items_client dflt ps (m, e, []))"
  unfolding lc_client_refines [OF lc_new_inv(1)] lc_view_of_def lc_new_inv(2) by (simp add: lc_new_def)

theorem lrucache_refines_items_witness:
  "lc_client ''none'' [LcInsert 1 ''a'', LcInsert 2 ''b'', LcTryGet 1, LcInsert 3 ''c'', LcContains 2, LcGet 1,
       LcGet 2, LcResize 1, LcCapacity, LcSize, LcRemove 3, LcInsert (4 :: nat) ''d'', LcClear, LcEmpty]
       (lc_new 2 0) =
     Some [LcDone, LcDone, LcFound (Some ''a''), LcDone, LcFlag False, LcValue ''a'', LcValue ''none'',
       LcDone, LcBound 1, LcNumber 1, LcFlag True, LcDone, LcDone, LcFlag True]"
  unfolding lrucache_refines_items by code_simp

text \<open>
  With a positive capacity whose sum with the overflow does not wrap, no sequence of
  operations makes an \<open>LruCache\<close> larger than \<open>capacity + overflow\<close>.
\<close>

theorem lrucache_size_bound:
  assumes "m \<noteq> 0" "unat m + unat e < 2 ^ 64"
    and "cache_run lc_insert lc_touch lc_drop lc_clear (lc_new m e) ops = Some c"
  shows "lc_size c \<le> unat m + unat e"
proof -
  from lc_run_bounded [OF assms(1), of e ops] assms(3) have b: "lc_bounded m e c" by auto
  then have "length (m_cache c) = length (lc_items c)"
    using lc_inv_distinct(3) by (auto simp: lc_bounded_def lc_items_def)
  with b unat_add_less [of m e] assms(2) show ?thesis
    by (simp add: lc_bounded_def lc_size_def)
qed

text \<open>
  Only one lookup since the last insertion is honoured, and it is the one whose key
  lies nearest to the tail: with capacity 3, after inserting 1, 2 and 3 and looking up 1 and then
  2, inserting 4 evicts 2, the key read last, and keeps 3, which was never read.
\<close>

theorem lrucache_evicts_key_read_last:
  "map_option (\<lambda>c. map fst (lc_items c))
     (cache_run lc_insert lc_touch lc_drop lc_clear (lc_new 3 0)
        [Insert 4 ''d'', Get 2, Get 1, Insert 3 ''c'', Insert 2 ''b'', Insert (1 :: nat) ''a'']) =
   Some [4, 1, 3]"
  by (simp add: lc_new_def lc_insert_def lc_batch_update_dirty_nodes_def lc_prune_if_needed_def
      lc_tryGet_def evict_loop.simps lc_items_def splice_front_def Let_def)

end
