(* ===== verification/Snowflake.thy ===== *)
theory Snowflake
  imports HkuPrelude
begin

text \<open>
  \<open>hikyuu/utilities/snowflake.h\<close>: the id generator. \<open>int64_t\<close> values are 64-bit words read with
  \<open>sint\<close>; the clock (\<open>millsecond()\<close>) is the list of its readings, one per call, so a call that still
  waits for the next millisecond when the readings end is \<open>None\<close>. A call runs under the lock and
  is one step. Lemmas: the bit fields do not overlap, the ids of a generator strictly increase.
\<close>

section \<open>Definitions\<close>

record snowflake =
  sf_last_timestamp :: u64
  sf_workerid :: u64
  sf_datacenterid :: u64
  sf_sequence :: u64

definition sf_new :: snowflake where
  "sf_new = \<lparr>sf_last_timestamp = -1, sf_workerid = 0, sf_datacenterid = 0, sf_sequence = 0\<rparr>"

definition MAX_WORKER_ID :: u64 where "MAX_WORKER_ID = push_bit 5 1 - 1"
definition MAX_DATACENTER_ID :: u64 where "MAX_DATACENTER_ID = push_bit 5 1 - 1"
definition SEQUENCE_MASK :: u64 where "SEQUENCE_MASK = push_bit 12 1 - 1"

definition sf_init :: "u64 \<Rightarrow> u64 \<Rightarrow> snowflake \<Rightarrow> snowflake result" where
  "sf_init workerid datacenterid s =
     (if sint workerid > sint MAX_WORKER_ID \<or> sint workerid < 0 then Inl RuntimeError
      else if sint datacenterid > sint MAX_DATACENTER_ID \<or> sint datacenterid < 0
      then Inl RuntimeError
      else Inr (s\<lparr>sf_workerid := workerid, sf_datacenterid := datacenterid\<rparr>))"

fun wait_next_millis :: "u64 \<Rightarrow> u64 list \<Rightarrow> (u64 \<times> u64 list) option" where
  "wait_next_millis last_ts [] = None"
| "wait_next_millis last_ts (t # readings) =
     (if sint t \<le> sint last_ts then wait_next_millis last_ts readings else Some (t, readings))"

text \<open>The returned id: time since \<open>TWEPOCH\<close>, data center, worker, sequence number.\<close>

definition sf_id :: "u64 \<Rightarrow> snowflake \<Rightarrow> u64" where
  "sf_id TWEPOCH s =
     ((push_bit (12 + 5 + 5) (sf_last_timestamp s - TWEPOCH) OR
       push_bit (12 + 5) (sf_datacenterid s)) OR
      push_bit 12 (sf_workerid s)) OR sf_sequence s"

definition nextid :: "u64 \<Rightarrow> snowflake \<Rightarrow> u64 list \<Rightarrow> (u64 \<times> snowflake \<times> u64 list) option" where
  "nextid TWEPOCH s readings =
     (case readings of
        [] \<Rightarrow> None
      | timestamp # rest \<Rightarrow>
          map_option (\<lambda>(s1, t, rest').
              let s2 = s1\<lparr>sf_last_timestamp := t\<rparr> in (sf_id TWEPOCH s2, s2, rest'))
            (if sf_last_timestamp s = timestamp
             then (let s1 = s\<lparr>sf_sequence := (sf_sequence s + 1) AND SEQUENCE_MASK\<rparr> in
                   if sf_sequence s1 = 0
                   then map_option (\<lambda>(t, rest'). (s1, t, rest'))
                          (wait_next_millis (sf_last_timestamp s1) rest)
                   else Some (s1, timestamp, rest))
             else Some (s\<lparr>sf_sequence := 0\<rparr>, timestamp, rest)))"

text \<open>\<open>n\<close> calls in a row.\<close>

fun nextids :: "u64 \<Rightarrow> nat \<Rightarrow> snowflake \<Rightarrow> u64 list \<Rightarrow> (u64 list \<times> snowflake \<times> u64 list) option" where
  "nextids TWEPOCH 0 s readings = Some ([], s, readings)"
| "nextids TWEPOCH (Suc n) s readings =
     Option.bind (nextid TWEPOCH s readings) (\<lambda>(i, s', rest).
       map_option (\<lambda>(ids, s'', rest'). (i # ids, s'', rest')) (nextids TWEPOCH n s' rest))"

section \<open>The bit fields\<close>

text \<open>The invariant of a generator: fields in range, the last timestamp not before the start value.\<close>

definition sf_inv :: "snowflake \<Rightarrow> bool" where
  "sf_inv s \<longleftrightarrow> unat (sf_workerid s) < 32 \<and> unat (sf_datacenterid s) < 32 \<and>
     unat (sf_sequence s) < 4096 \<and> -1 \<le> sint (sf_last_timestamp s)"

text \<open>A clock reading that fits the 41-bit timestamp field.\<close>

definition in_epoch :: "u64 \<Rightarrow> u64 \<Rightarrow> bool" where
  "in_epoch tw t \<longleftrightarrow> 0 \<le> sint t \<and> 0 \<le> sint t - sint tw \<and> sint t - sint tw < 2 ^ 41"

text \<open>The id as a number, from its fields.\<close>

definition sf_enc :: "u64 \<Rightarrow> snowflake \<Rightarrow> int \<Rightarrow> int \<Rightarrow> int" where
  "sf_enc tw s t q = (t - sint tw) * 2 ^ 22 + int (unat (sf_datacenterid s)) * 2 ^ 17 +
     int (unat (sf_workerid s)) * 2 ^ 12 + q"

lemma below_of_int: "int n = x \<Longrightarrow> x < 2 ^ 41 \<Longrightarrow> n < 2 ^ 41"
  by simp

lemma low_fields_less:
  "d < 32 \<Longrightarrow> w < 32 \<Longrightarrow> q < 4096 \<Longrightarrow> int d * 2 ^ 17 + int w * 2 ^ 12 + q < 2 ^ 22"
  by simp

lemma fields_less:
  fixes t1 t2 q1 q2 d w e :: int
  shows "t1 < t2 \<or> t1 = t2 \<and> q1 < q2 \<Longrightarrow> d * 2 ^ 17 + w * 2 ^ 12 + q1 < 2 ^ 22 \<Longrightarrow>
    0 \<le> d \<Longrightarrow> 0 \<le> w \<Longrightarrow> 0 \<le> q2 \<Longrightarrow>
    (t1 - e) * 2 ^ 22 + d * 2 ^ 17 + w * 2 ^ 12 + q1 < (t2 - e) * 2 ^ 22 + d * 2 ^ 17 + w * 2 ^ 12 + q2"
  by (elim disjE conjE) (simp_all add: algebra_simps)

lemma position_less: "l < t \<Longrightarrow> q < 4096 \<Longrightarrow> l * 4096 + int q < t * 4096"
  by simp

lemma sf_id_number:
  assumes "sf_inv s" "in_epoch tw (sf_last_timestamp s)"
  shows "sint (sf_id tw s) = sf_enc tw s (sint (sf_last_timestamp s)) (int (unat (sf_sequence s)))"
proof -
  let ?t = "sf_last_timestamp s - tw" and ?d = "sf_datacenterid s"
    and ?w = "sf_workerid s" and ?q = "sf_sequence s"
  have bounds: "unat ?d < 32" "unat ?w < 32" "unat ?q < 4096"
    using assms(1) by (simp_all add: sf_inv_def)
  have st: "sint ?t = sint (sf_last_timestamp s) - sint tw"
    using assms(2) by (intro sint_diff) (simp_all add: in_epoch_def)
  with assms(2) have ut: "int (unat ?t) = sint (sf_last_timestamp s) - sint tw"
    using unat_sint [of ?t] by (simp only: in_epoch_def)
  with assms(2) have t: "unat ?t < 2 ^ 41" by (auto simp only: in_epoch_def intro: below_of_int)
  have id: "sf_id tw s = push_bit 22 ?t OR (push_bit 17 ?d OR (push_bit 12 ?w OR ?q))"
    by (simp add: sf_id_def or.assoc)
  have w: "unat (push_bit 12 ?w OR ?q) = unat ?w * 2 ^ 12 + unat ?q"
    using bounds by (intro unat_shift_or) simp_all
  have d: "unat (push_bit 17 ?d OR (push_bit 12 ?w OR ?q)) =
      unat ?d * 2 ^ 17 + (unat ?w * 2 ^ 12 + unat ?q)"
    unfolding w [symmetric] using bounds w by (intro unat_shift_or) simp_all
  have id': "unat (sf_id tw s) = unat ?t * 2 ^ 22 + (unat ?d * 2 ^ 17 + (unat ?w * 2 ^ 12 + unat ?q))"
    unfolding id d [symmetric] using bounds d t by (intro unat_shift_or) simp_all
  with bounds t have "unat (sf_id tw s) < 2 ^ 63" by simp
  then have "sint (sf_id tw s) = int (unat (sf_id tw s))" by (rule sint_small)
  then show ?thesis unfolding id' sf_enc_def ut [symmetric] by simp
qed

text \<open>Ids order as their timestamp and sequence number do.\<close>

lemma sf_enc_less:
  assumes "t1 * 4096 + q1 < t2 * 4096 + q2" "0 \<le> q1" "q1 < 4096" "0 \<le> q2" "q2 < 4096"
    and "sf_inv s"
  shows "sf_enc tw s t1 q1 < sf_enc tw s t2 q2"
proof -
  from assms(1-5) have "t1 < t2 \<or> t1 = t2 \<and> q1 < q2" by linarith
  moreover have "int (unat (sf_datacenterid s)) * 2 ^ 17 + int (unat (sf_workerid s)) * 2 ^ 12 + q1 < 2 ^ 22"
    using assms(3,6) unfolding sf_inv_def by (intro low_fields_less) simp_all
  ultimately show ?thesis
    using assms(4) unfolding sf_enc_def by (intro fields_less) simp_all
qed

section \<open>One call\<close>

definition sf_pos :: "snowflake \<Rightarrow> int" where
  "sf_pos s = sint (sf_last_timestamp s) * 4096 + int (unat (sf_sequence s))"

lemma wait_next_millis_Some:
  "wait_next_millis l rs = Some (t, rest) \<Longrightarrow>
   sint l < sint t \<and> (\<exists>pre. rs = pre @ t # rest \<and> (\<forall>r \<in> set pre. sint r \<le> sint l))"
proof (induction rs)
  case (Cons r rs)
  show ?case
  proof (cases "sint r \<le> sint l")
    case True
    with Cons obtain pre where "sint l < sint t" "rs = pre @ t # rest" "\<forall>r \<in> set pre. sint r \<le> sint l"
      by auto
    with True show ?thesis by (intro conjI exI [of _ "r # pre"]) auto
  next
    case False
    with Cons.prems show ?thesis by (intro conjI exI [of _ "[]"]) auto
  qed
qed simp

lemma wait_next_millis_None:
  "wait_next_millis l rs = None \<longleftrightarrow> (\<forall>r \<in> set rs. sint r \<le> sint l)"
  by (induction rs) auto

lemma unat_seq_mask: "unat (x AND SEQUENCE_MASK) = unat x mod 4096"
  using unat_and_mask [of x 12] by (simp add: SEQUENCE_MASK_def mask_eq_exp_minus_1)

lemma unat_seq_next:
  "unat q < 4096 \<Longrightarrow>
   unat ((q + 1) AND SEQUENCE_MASK) = (if unat q = 4095 then 0 else unat q + 1)" for q :: u64
proof -
  assume q: "unat q < 4096"
  have "unat (q + 1) = unat q + 1" using q by (subst unat_add_less) simp_all
  with q show ?thesis by (simp add: unat_seq_mask)
qed

lemma nextid_step:
  assumes "sf_inv s" "nextid tw s rs = Some (i, s', rest)" "sorted (map sint rs)"
    "\<forall>r \<in> set rs. in_epoch tw r \<and> sint (sf_last_timestamp s) \<le> sint r"
  shows "sf_inv s' \<and> sf_pos s < sf_pos s' \<and> i = sf_id tw s' \<and>
    in_epoch tw (sf_last_timestamp s') \<and> sf_workerid s' = sf_workerid s \<and>
    sf_datacenterid s' = sf_datacenterid s \<and> sorted (map sint rest) \<and>
    (\<forall>r \<in> set rest. in_epoch tw r \<and> sint (sf_last_timestamp s') \<le> sint r)"
proof -
  from assms(2) obtain t ts where rs: "rs = t # ts" by (cases rs) (auto simp: nextid_def)
  note q = unat_seq_next [of "sf_sequence s"]
  show ?thesis
  proof (cases "sf_last_timestamp s = t")
    case same: True
    show ?thesis
    proof (cases "unat (sf_sequence s) = 4095")
      case True
      with q have z: "(sf_sequence s + 1) AND SEQUENCE_MASK = 0" by (simp add: unat_eq_zero)
      from assms(2) rs same z obtain t' where w: "wait_next_millis t ts = Some (t', rest)"
        "s' = s\<lparr>sf_sequence := 0, sf_last_timestamp := t'\<rparr>" "i = sf_id tw s'"
        by (auto simp: nextid_def Let_def)
      from wait_next_millis_Some [OF w(1)] obtain pre where
        pre: "sint t < sint t'" "ts = pre @ t' # rest" by auto
      have "sf_pos s < sf_pos s'"
        using assms(1) pre(1) position_less [of "sint t" "sint t'" "unat (sf_sequence s)"]
        unfolding w same by (simp add: sf_pos_def sf_inv_def same)
      with assms w rs same pre show ?thesis
        by (auto simp: sf_inv_def sorted_append in_epoch_def)
    next
      case False
      with q assms(1) have nz: "unat ((sf_sequence s + 1) AND SEQUENCE_MASK) = unat (sf_sequence s) + 1"
        by (simp add: sf_inv_def)
      then have "(sf_sequence s + 1) AND SEQUENCE_MASK \<noteq> 0" by (metis add_is_0 unat_0 zero_neq_one)
      with assms(2) rs same have s': "s' = s\<lparr>sf_sequence := (sf_sequence s + 1) AND SEQUENCE_MASK\<rparr>"
        "rest = ts" "i = sf_id tw s'"
        by (auto simp: nextid_def Let_def)
      with assms nz rs same False show ?thesis
        by (auto simp: sf_inv_def sf_pos_def)
    qed
  next
    case False
    with assms(2) rs have s': "s' = s\<lparr>sf_sequence := 0, sf_last_timestamp := t\<rparr>" "rest = ts"
      "i = sf_id tw s'"
      by (auto simp: nextid_def Let_def)
    have "sint (sf_last_timestamp s) \<noteq> sint t" using False by (metis signed_word_eqI)
    with assms(4) rs have "sint (sf_last_timestamp s) < sint t" by fastforce
    then have "sf_pos s < sf_pos s'"
      using assms(1) position_less [of "sint (sf_last_timestamp s)" "sint t" "unat (sf_sequence s)"]
      unfolding s' by (simp add: sf_pos_def sf_inv_def)
    with assms s' rs show ?thesis
      by (auto simp: sf_inv_def in_epoch_def)
  qed
qed

section \<open>Several calls\<close>

lemma sf_inv_sequence: "sf_inv s \<Longrightarrow> int (unat (sf_sequence s)) < 4096"
proof -
  assume "sf_inv s"
  then have "int (unat (sf_sequence s)) < int 4096" unfolding sf_inv_def of_nat_less_iff by blast
  then show ?thesis by simp
qed

lemma nextids_sound:
  assumes "sf_inv s" "nextids tw n s rs = Some (ids, s', rest)" "sorted (map sint rs)"
    "\<forall>r \<in> set rs. in_epoch tw r \<and> sint (sf_last_timestamp s) \<le> sint r"
  shows "length ids = n \<and> sorted_wrt (<) (map sint ids) \<and>
    (\<forall>i \<in> set ids. \<exists>s1. i = sf_id tw s1 \<and> sf_inv s1 \<and> in_epoch tw (sf_last_timestamp s1) \<and>
      sf_workerid s1 = sf_workerid s \<and> sf_datacenterid s1 = sf_datacenterid s \<and>
      sf_pos s < sf_pos s1)"
  using assms
proof (induction n arbitrary: s rs ids)
  case (Suc n)
  from Suc.prems(2) obtain i s1 rs1 ids1 where
    step: "nextid tw s rs = Some (i, s1, rs1)" and
    more: "nextids tw n s1 rs1 = Some (ids1, s', rest)" "ids = i # ids1"
    by (auto simp: bind_eq_Some_conv)
  note s1 = nextid_step [OF Suc.prems(1) step Suc.prems(3,4)]
  then have inv1: "sf_inv s1" and i: "i = sf_id tw s1" and e1: "in_epoch tw (sf_last_timestamp s1)"
    by blast+
  have IH: "length ids1 = n \<and> sorted_wrt (<) (map sint ids1) \<and>
    (\<forall>j \<in> set ids1. \<exists>s2. j = sf_id tw s2 \<and> sf_inv s2 \<and> in_epoch tw (sf_last_timestamp s2) \<and>
      sf_workerid s2 = sf_workerid s1 \<and> sf_datacenterid s2 = sf_datacenterid s1 \<and>
      sf_pos s1 < sf_pos s2)"
    using s1 by (intro Suc.IH [OF _ more(1)]) blast+
  have "sint i < sint j" if j: "j \<in> set ids1" for j
  proof -
    from IH j obtain s2 where s2: "j = sf_id tw s2" "sf_inv s2" "in_epoch tw (sf_last_timestamp s2)"
      "sf_workerid s2 = sf_workerid s1" "sf_datacenterid s2 = sf_datacenterid s1"
      "sf_pos s1 < sf_pos s2" by blast
    have "sf_enc tw s1 (sint (sf_last_timestamp s1)) (int (unat (sf_sequence s1))) <
        sf_enc tw s1 (sint (sf_last_timestamp s2)) (int (unat (sf_sequence s2)))"
      using s2(2,6) inv1 by (intro sf_enc_less sf_inv_sequence) (simp_all add: sf_pos_def)
    moreover have "sf_enc tw s1 t q = sf_enc tw s2 t q" for t q
      using s2(4,5) by (simp add: sf_enc_def)
    ultimately show ?thesis
      using sf_id_number [OF s2(2,3)] sf_id_number [OF inv1 e1] s2(1) i by simp
  qed
  moreover have "\<exists>s2. j = sf_id tw s2 \<and> sf_inv s2 \<and> in_epoch tw (sf_last_timestamp s2) \<and>
      sf_workerid s2 = sf_workerid s \<and> sf_datacenterid s2 = sf_datacenterid s \<and>
      sf_pos s < sf_pos s2" if "j \<in> set ids" for j
    using that s1 IH more(2) by (fastforce elim: less_trans)
  ultimately show ?case using IH more(2) by simp
qed simp

lemma middle_field:
  fixes hi f lo m k :: nat
  assumes "lo < m" "f < k" "0 < m"
  shows "((hi * k + f) * m + lo) div m mod k = f"
  using assms by (simp add: div_add1_eq)

lemma sf_id_fields:
  assumes "sf_inv s" "in_epoch tw (sf_last_timestamp s)"
  shows "drop_bit 12 (sf_id tw s) AND 0x1f = sf_workerid s"
    and "drop_bit 17 (sf_id tw s) AND 0x1f = sf_datacenterid s"
proof -
  let ?t = "sint (sf_last_timestamp s) - sint tw" and ?d = "unat (sf_datacenterid s)"
    and ?w = "unat (sf_workerid s)" and ?q = "unat (sf_sequence s)"
  have bounds: "?d < 32" "?w < 32" "?q < 4096" "0 \<le> ?t"
    using assms by (simp_all add: sf_inv_def in_epoch_def)
  have n: "int (unat (sf_id tw s)) = ?t * 2 ^ 22 + int ?d * 2 ^ 17 + int ?w * 2 ^ 12 + int ?q"
    using sf_id_number [OF assms] bounds unat_sint [of "sf_id tw s"] by (simp add: sf_enc_def)
  obtain t where t: "?t = int t" using bounds(4) by (metis nonneg_int_cases)
  have num: "unat (sf_id tw s) = t * 2 ^ 22 + ?d * 2 ^ 17 + ?w * 2 ^ 12 + ?q"
    using n unfolding t by (metis (mono_tags, lifting) nat_int nat_int_add of_nat_add of_nat_mult of_nat_numeral of_nat_power)
  have m: "unat (x AND 0x1f) = unat x mod 32" for x :: u64
    using unat_and_mask [of x 5] by (simp add: mask_eq_exp_minus_1)
  have "unat (drop_bit 12 (sf_id tw s) AND 0x1f) = ?w"
    unfolding m unat_drop_bit num
    using middle_field [of ?q 4096 ?w 32 "t * 32 + ?d"] bounds by (simp add: algebra_simps)
  then show "drop_bit 12 (sf_id tw s) AND 0x1f = sf_workerid s" by (metis unsigned_word_eqI)
  have "unat (drop_bit 17 (sf_id tw s) AND 0x1f) = ?d"
    unfolding m unat_drop_bit num
    using middle_field [of "?w * 4096 + ?q" 131072 ?d 32 t] bounds by (simp add: algebra_simps)
  then show "drop_bit 17 (sf_id tw s) AND 0x1f = sf_datacenterid s" by (metis unsigned_word_eqI)
qed

lemma sf_init_ok:
  "sf_init w d s = (if 0 \<le> sint w \<and> sint w < 32 \<and> 0 \<le> sint d \<and> sint d < 32
     then Inr (s\<lparr>sf_workerid := w, sf_datacenterid := d\<rparr>) else Inl RuntimeError)"
  by (auto simp: sf_init_def MAX_WORKER_ID_def MAX_DATACENTER_ID_def)

lemma sf_init_inv:
  assumes "sf_init w d s0 = Inr s" "sf_inv s0"
  shows "sf_inv s" "sf_workerid s = w" "sf_datacenterid s = d"
    "sf_last_timestamp s = sf_last_timestamp s0"
proof -
  have b: "0 \<le> sint w" "sint w < 32" "0 \<le> sint d" "sint d < 32"
    and s: "s = s0\<lparr>sf_workerid := w, sf_datacenterid := d\<rparr>"
    using assms(1) by (auto simp: sf_init_ok split: if_splits)
  have "int (unat w) < int 32" "int (unat d) < int 32"
    using b unat_sint [of w] unat_sint [of d] by simp_all
  then have "unat w < 32" "unat d < 32" by (simp_all only: of_nat_less_iff)
  with assms(2) show "sf_inv s" by (simp add: s sf_inv_def)
  show "sf_workerid s = w" "sf_datacenterid s = d" "sf_last_timestamp s = sf_last_timestamp s0"
    by (simp_all add: s)
qed

section \<open>Properties\<close>

text \<open>
  Property C2: with a clock that does not go backwards and stays within the 41-bit epoch, the ids
  an initialised generator returns strictly increase, so no id is returned twice, and each carries
  the generator's worker and data-center number in its bit fields, so two generators with
  different numbers never return the same id.
\<close>

theorem snowflake_ids_increase:
  assumes "sf_init w d sf_new = Inr s" "nextids tw n s readings = Some (ids, s', rest)"
    "sorted (map sint readings)" "\<forall>t \<in> set readings. in_epoch tw t"
  shows "length ids = n \<and> sorted_wrt (<) (map sint ids) \<and>
    (\<forall>i \<in> set ids. drop_bit 12 i AND 0x1f = w \<and> drop_bit 17 i AND 0x1f = d)"
proof -
  have new: "sf_inv sf_new" by (simp add: sf_inv_def sf_new_def)
  note s = sf_init_inv [OF assms(1) new]
  have "sint (sf_last_timestamp s) = -1" using s(4) by (simp add: sf_new_def)
  with assms(4) have "\<forall>t \<in> set readings. in_epoch tw t \<and> sint (sf_last_timestamp s) \<le> sint t"
    by (auto simp: in_epoch_def)
  from nextids_sound [OF s(1) assms(2,3) this] s(2,3) show ?thesis
    by (auto simp: sf_id_fields)
qed

theorem snowflake_ids_increase_witness:
  "\<exists>a b s'. nextids 0 2 (sf_new\<lparr>sf_workerid := 3, sf_datacenterid := 1\<rparr>) [7, 7] =
     Some ([a, b], s', []) \<and> sint a < sint b \<and> drop_bit 12 b AND 0x1f = 3"
proof -
  let ?s = "sf_new\<lparr>sf_workerid := 3, sf_datacenterid := 1\<rparr>"
  have init: "sf_init 3 1 sf_new = Inr ?s" by (simp add: sf_init_ok)
  have ne: "(-1 :: u64) \<noteq> 7"
  proof
    assume "(-1 :: u64) = 7"
    then have "(-1 :: u64) + 1 = 7 + 1" by (rule arg_cong)
    then show False by simp
  qed
  then have "\<exists>ids s'. nextids 0 2 ?s [7, 7] = Some (ids, s', [])"
    by (simp add: nextid_def sf_new_def SEQUENCE_MASK_def numeral_2_eq_2 Let_def)
  then obtain ids s' where run: "nextids 0 2 ?s [7, 7] = Some (ids, s', [])" by blast
  have "length ids = 2 \<and> sorted_wrt (<) (map sint ids) \<and>
    (\<forall>i \<in> set ids. drop_bit 12 i AND 0x1f = 3 \<and> drop_bit 17 i AND 0x1f = 1)"
    by (rule snowflake_ids_increase [OF init run]) (simp_all add: in_epoch_def)
  with run show ?thesis by (auto simp: length_Suc_conv numeral_2_eq_2)
qed

text \<open>
  When a call waits. \<open>nextid\<close> returns with the first reading unless 4096 ids were
  already returned in that millisecond; then it returns exactly when a later reading is past it,
  and the id's timestamp is that of the first such reading. \<open>init\<close> accepts exactly the worker and
  data-center numbers from 0 to 31 and throws \<open>std::runtime_error\<close> on all others.
\<close>

theorem snowflake_waits:
  assumes "sf_inv s"
  shows "(nextid tw s (t # readings) = None) =
      (sf_last_timestamp s = t \<and> unat (sf_sequence s) = 4095 \<and>
       (\<forall>r \<in> set readings. sint r \<le> sint t)) \<and>
    (sf_init w d s = Inl RuntimeError) = (sint w \<notin> {0..31} \<or> sint d \<notin> {0..31})"
proof
  have q: "unat ((sf_sequence s + 1) AND SEQUENCE_MASK) =
      (if unat (sf_sequence s) = 4095 then 0 else unat (sf_sequence s) + 1)"
    using assms by (intro unat_seq_next) (simp add: sf_inv_def)
  then have "(sf_sequence s + 1) AND SEQUENCE_MASK = 0 \<longleftrightarrow> unat (sf_sequence s) = 4095"
    by (auto simp flip: unat_eq_zero)
  then show "(nextid tw s (t # readings) = None) =
      (sf_last_timestamp s = t \<and> unat (sf_sequence s) = 4095 \<and>
       (\<forall>r \<in> set readings. sint r \<le> sint t))"
    by (auto simp: nextid_def Let_def wait_next_millis_None)
  show "(sf_init w d s = Inl RuntimeError) = (sint w \<notin> {0..31} \<or> sint d \<notin> {0..31})"
    by (auto simp: sf_init_ok)
qed

end
