(* ===== verification/TimeDelta.thy ===== *)
theory TimeDelta
  imports HkuPrelude "HOL-Library.Signed_Division"
begin

text \<open>
  \<open>hikyuu/utilities/datetime/TimeDelta.{h,cpp}\<close>: durations of microseconds over
  \<open>boost::posix_time::time_duration\<close>. The boost type is a parameter: a record of the operations
  the class calls, with their documented behaviour as the predicate \<open>boost_duration\<close>. Values of
  \<open>int64_t\<close> are integers; \<open>is_int64\<close> states that a value has that type where an overflow is
  possible, and C++'s division is \<open>sdiv\<close>/\<open>smod\<close> (rounding towards zero). Operations on
  \<open>double\<close> (products, quotients, totals with a fraction, the parser and printer) are not modelled.
\<close>

section \<open>The boost duration\<close>

record 'd duration_ops =
  of_ticks :: "int \<Rightarrow> 'd"     \<comment> \<open>\<open>time_duration(0, 0, 0, n)\<close>\<close>
  ticks_of :: "'d \<Rightarrow> int"     \<comment> \<open>\<open>ticks()\<close> and \<open>total_microseconds()\<close>, at microsecond resolution\<close>
  hours_of :: "'d \<Rightarrow> int"
  minutes_of :: "'d \<Rightarrow> int"
  seconds_of :: "'d \<Rightarrow> int"
  is_negative_of :: "'d \<Rightarrow> bool"
  plus_of :: "'d \<Rightarrow> 'd \<Rightarrow> 'd"
  minus_of :: "'d \<Rightarrow> 'd \<Rightarrow> 'd"
  eq_of :: "'d \<Rightarrow> 'd \<Rightarrow> bool"
  less_of :: "'d \<Rightarrow> 'd \<Rightarrow> bool"

definition is_int64 :: "int \<Rightarrow> bool" where
  "is_int64 n \<longleftrightarrow> - (2 ^ 63) \<le> n \<and> n < 2 ^ 63"

text \<open>
  What the boost documentation states of finite durations: a count of microseconds, its normalised
  hours, minutes and seconds, its sign, sums and differences that fit, and the order of the counts.
\<close>

definition boost_duration :: "'d duration_ops \<Rightarrow> bool" where
  "boost_duration B \<longleftrightarrow>
     (\<forall>n. is_int64 n \<longrightarrow> ticks_of B (of_ticks B n) = n) \<and>
     (\<forall>d. hours_of B d = ticks_of B d sdiv 3600000000) \<and>
     (\<forall>d. minutes_of B d = (ticks_of B d sdiv 60000000) smod 60) \<and>
     (\<forall>d. seconds_of B d = (ticks_of B d sdiv 1000000) smod 60) \<and>
     (\<forall>d. is_negative_of B d \<longleftrightarrow> ticks_of B d < 0) \<and>
     (\<forall>d e. is_int64 (ticks_of B d + ticks_of B e) \<longrightarrow>
        ticks_of B (plus_of B d e) = ticks_of B d + ticks_of B e) \<and>
     (\<forall>d e. is_int64 (ticks_of B d - ticks_of B e) \<longrightarrow>
        ticks_of B (minus_of B d e) = ticks_of B d - ticks_of B e) \<and>
     (\<forall>d e. eq_of B d e \<longleftrightarrow> ticks_of B d = ticks_of B e) \<and>
     (\<forall>d e. less_of B d e \<longleftrightarrow> ticks_of B d < ticks_of B e)"

section \<open>Definitions\<close>

record 'd timedelta =
  m_duration :: 'd

definition m_max_micro_seconds :: int where
  "m_max_micro_seconds = 100000000 * 24 * 60 * 60 * 1000000 - 1"

definition m_min_micro_seconds :: int where
  "m_min_micro_seconds = -99999999 * 24 * 60 * 60 * 1000000"

definition m_one_day_ticks :: int where
  "m_one_day_ticks = 24 * 60 * 60 * 1000000"

definition in_total_range :: "int \<Rightarrow> bool" where
  "in_total_range us \<longleftrightarrow> us \<ge> m_min_micro_seconds \<and> us \<le> m_max_micro_seconds"

definition td_total :: "int \<Rightarrow> int \<Rightarrow> int \<Rightarrow> int \<Rightarrow> int \<Rightarrow> int \<Rightarrow> int" where
  "td_total days hours minutes seconds milliseconds microseconds =
     ((((days * 24 + hours) * 60 + minutes) * 60 + seconds) * 1000 + milliseconds) * 1000 +
     microseconds"

definition td_new ::
    "'d duration_ops \<Rightarrow> int \<Rightarrow> int \<Rightarrow> int \<Rightarrow> int \<Rightarrow> int \<Rightarrow> int \<Rightarrow> 'd timedelta result" where
  "td_new B days hours minutes seconds milliseconds microseconds =
     (if \<not> (days \<le> 99999999 \<and> days \<ge> -99999999) then Inl HkuException
      else if \<not> (hours \<ge> -100000 \<and> hours \<le> 100000) then Inl HkuException
      else if \<not> (minutes \<ge> -100000 \<and> minutes \<le> 100000) then Inl HkuException
      else if \<not> (seconds \<ge> -8639900 \<and> seconds \<le> 8639900) then Inl HkuException
      else if \<not> (milliseconds \<ge> -86399000000 \<and> milliseconds \<le> 86399000000) then Inl HkuException
      else if \<not> (microseconds \<ge> -86399000000 \<and> microseconds \<le> 86399000000) then Inl HkuException
      else let us = td_total days hours minutes seconds milliseconds microseconds in
        if \<not> in_total_range us then Inl HkuException
        else Inr \<lparr>m_duration = of_ticks B us\<rparr>)"

definition td_of_duration :: "'d duration_ops \<Rightarrow> 'd \<Rightarrow> 'd timedelta result" where
  "td_of_duration B td =
     (if \<not> in_total_range (ticks_of B td) then Inl HkuException else Inr \<lparr>m_duration = td\<rparr>)"

definition fromTicks :: "'d duration_ops \<Rightarrow> int \<Rightarrow> 'd timedelta result" where
  "fromTicks B ticks =
     (if \<not> in_total_range ticks then Inl HkuException else td_of_duration B (of_ticks B ticks))"

definition td_ticks :: "'d duration_ops \<Rightarrow> 'd timedelta \<Rightarrow> int" where
  "td_ticks B t = ticks_of B (m_duration t)"

definition td_isNegative :: "'d duration_ops \<Rightarrow> 'd timedelta \<Rightarrow> bool" where
  "td_isNegative B t = is_negative_of B (m_duration t)"

definition td_days :: "'d duration_ops \<Rightarrow> 'd timedelta \<Rightarrow> int" where
  "td_days B t =
     (if td_isNegative B t
      then (if td_ticks B t smod m_one_day_ticks = 0 then td_ticks B t sdiv m_one_day_ticks
            else td_ticks B t sdiv m_one_day_ticks - 1)
      else \<bar>hours_of B (m_duration t) sdiv 24\<bar>)"

definition pos_ticks :: "'d duration_ops \<Rightarrow> 'd timedelta \<Rightarrow> int" where
  "pos_ticks B t =
     \<bar>(td_ticks B t sdiv m_one_day_ticks - 1) * m_one_day_ticks\<bar> + td_ticks B t"

definition td_hours :: "'d duration_ops \<Rightarrow> 'd timedelta \<Rightarrow> int" where
  "td_hours B t =
     (if td_isNegative B t
      then (if td_ticks B t smod m_one_day_ticks = 0 then 0 else hours_of B (of_ticks B (pos_ticks B t)))
      else \<bar>hours_of B (m_duration t)\<bar> smod 24)"

definition td_minutes :: "'d duration_ops \<Rightarrow> 'd timedelta \<Rightarrow> int" where
  "td_minutes B t =
     (if td_isNegative B t
      then (if td_ticks B t smod m_one_day_ticks = 0 then 0
            else minutes_of B (of_ticks B (pos_ticks B t)))
      else \<bar>minutes_of B (m_duration t)\<bar>)"

definition td_seconds :: "'d duration_ops \<Rightarrow> 'd timedelta \<Rightarrow> int" where
  "td_seconds B t =
     (if td_isNegative B t
      then (if td_ticks B t smod m_one_day_ticks = 0 then 0
            else seconds_of B (of_ticks B (pos_ticks B t)))
      else \<bar>seconds_of B (m_duration t)\<bar>)"

definition td_microseconds :: "'d duration_ops \<Rightarrow> 'd timedelta \<Rightarrow> int" where
  "td_microseconds B t =
     (if td_isNegative B t
      then (if td_ticks B t smod m_one_day_ticks = 0 then 0
            else let micro = td_ticks B t smod 1000 in if micro = 0 then micro else 1000 + micro)
      else \<bar>td_ticks B t smod 1000\<bar>)"

definition td_milliseconds :: "'d duration_ops \<Rightarrow> 'd timedelta \<Rightarrow> int" where
  "td_milliseconds B t =
     (if td_isNegative B t
      then (if td_ticks B t smod m_one_day_ticks = 0 then 0
            else let milli = pos_ticks B t smod 1000000 in
              if milli = 0 then 0 else (milli - td_microseconds B t) sdiv 1000)
      else (\<bar>td_ticks B t\<bar> smod 1000000 - td_microseconds B t) sdiv 1000)"

text \<open>The operators; comparisons go through the boost ones.\<close>

definition td_plus :: "'d duration_ops \<Rightarrow> 'd timedelta \<Rightarrow> 'd timedelta \<Rightarrow> 'd timedelta result" where
  "td_plus B t td = td_of_duration B (plus_of B (m_duration td) (m_duration t))"

definition td_minus :: "'d duration_ops \<Rightarrow> 'd timedelta \<Rightarrow> 'd timedelta \<Rightarrow> 'd timedelta result" where
  "td_minus B t td = td_of_duration B (minus_of B (m_duration t) (m_duration td))"

definition td_uminus :: "'d duration_ops \<Rightarrow> 'd timedelta \<Rightarrow> 'd timedelta result" where
  "td_uminus B t = fromTicks B (- td_ticks B t)"

definition td_abs :: "'d duration_ops \<Rightarrow> 'd timedelta \<Rightarrow> 'd timedelta result" where
  "td_abs B t = fromTicks B \<bar>td_ticks B t\<bar>"

definition td_mod :: "'d duration_ops \<Rightarrow> 'd timedelta \<Rightarrow> 'd timedelta \<Rightarrow> 'd timedelta result" where
  "td_mod B t td =
     (if \<not> td_ticks B td \<noteq> 0 then Inl HkuException
      else fromTicks B (td_ticks B t smod td_ticks B td))"

definition td_eq :: "'d duration_ops \<Rightarrow> 'd timedelta \<Rightarrow> 'd timedelta \<Rightarrow> bool" where
  "td_eq B t td \<longleftrightarrow> eq_of B (m_duration t) (m_duration td)"

definition td_less :: "'d duration_ops \<Rightarrow> 'd timedelta \<Rightarrow> 'd timedelta \<Rightarrow> bool" where
  "td_less B t td \<longleftrightarrow> less_of B (m_duration t) (m_duration td)"

text \<open>The shortcuts for whole units: a range check in that unit, then the conversion.\<close>

definition td_Hours :: "'d duration_ops \<Rightarrow> int \<Rightarrow> 'd timedelta result" where
  "td_Hours B hours =
     (if \<not> (hours \<ge> m_min_micro_seconds sdiv 3600000000 \<and> hours \<le> m_max_micro_seconds sdiv 3600000000)
      then Inl HkuException else fromTicks B (hours * 3600000000))"

definition td_Minutes :: "'d duration_ops \<Rightarrow> int \<Rightarrow> 'd timedelta result" where
  "td_Minutes B mins =
     (if \<not> (mins \<ge> m_min_micro_seconds sdiv 60000000 \<and> mins \<le> m_max_micro_seconds sdiv 60000000)
      then Inl HkuException else fromTicks B (mins * 60000000))"

definition td_Seconds :: "'d duration_ops \<Rightarrow> int \<Rightarrow> 'd timedelta result" where
  "td_Seconds B secs =
     (if \<not> (secs \<ge> m_min_micro_seconds sdiv 1000000 \<and> secs \<le> m_max_micro_seconds sdiv 1000000)
      then Inl HkuException else fromTicks B (secs * 1000000))"

definition td_Milliseconds :: "'d duration_ops \<Rightarrow> int \<Rightarrow> 'd timedelta result" where
  "td_Milliseconds B milliseconds =
     (if \<not> (milliseconds \<ge> m_min_micro_seconds sdiv 1000 \<and>
            milliseconds \<le> m_max_micro_seconds sdiv 1000)
      then Inl HkuException else fromTicks B (milliseconds * 1000))"

definition td_min :: "'d duration_ops \<Rightarrow> 'd timedelta result" where
  "td_min B = td_new B (-99999999) 0 0 0 0 0"

definition td_max :: "'d duration_ops \<Rightarrow> 'd timedelta result" where
  "td_max B = td_new B 99999999 23 59 59 999 999"

section \<open>Truncating division\<close>

lemma sdiv_nonneg: "0 \<le> a \<Longrightarrow> 0 < b \<Longrightarrow> a sdiv b = a div b" for a b :: int
  by (cases "a = 0") (simp_all add: signed_divide_int_def)

lemma smod_nonneg: "0 \<le> a \<Longrightarrow> 0 < b \<Longrightarrow> a smod b = a mod b" for a b :: int
  by (cases "a = 0") (simp_all add: signed_modulo_int_def)

lemma smod_eq_0: "a smod b = 0 \<longleftrightarrow> b dvd a" for a b :: int
  by (auto simp: signed_modulo_int_def sgn_if dvd_eq_mod_eq_0 [symmetric])

lemma sdiv_exact: "b dvd a \<Longrightarrow> a sdiv b = a div b" for a b :: int
  by (simp add: signed_divide_int_eq_divide_int)

lemma sdiv_floor: "a < 0 \<Longrightarrow> 0 < b \<Longrightarrow> \<not> b dvd a \<Longrightarrow> a sdiv b - 1 = a div b" for a b :: int
  by (simp add: signed_divide_int_eq_divide_int)

lemma smod_floor: "a < 0 \<Longrightarrow> 0 < b \<Longrightarrow> \<not> b dvd a \<Longrightarrow> b + a smod b = a mod b" for a b :: int
proof -
  assume a: "a < 0" "0 < b" "\<not> b dvd a"
  have "a smod b = a - a sdiv b * b" by (rule minus_sdiv_mult_eq_smod [symmetric])
  also have "a sdiv b = a div b + 1" using sdiv_floor [OF a] by simp
  finally show ?thesis
    by (simp add: algebra_simps flip: minus_div_mult_eq_mod)
qed

section \<open>The value of a duration\<close>

lemma td_range_int64: "in_total_range n \<Longrightarrow> is_int64 n"
  by (simp add: in_total_range_def is_int64_def m_min_micro_seconds_def m_max_micro_seconds_def)

lemma boost_ticks: "boost_duration B \<Longrightarrow> is_int64 n \<Longrightarrow> ticks_of B (of_ticks B n) = n"
  by (simp add: boost_duration_def)

lemma boost_fields:
  assumes "boost_duration B"
  shows "hours_of B d = ticks_of B d sdiv 3600000000"
    and "minutes_of B d = (ticks_of B d sdiv 60000000) smod 60"
    and "seconds_of B d = (ticks_of B d sdiv 1000000) smod 60"
    and "is_negative_of B d \<longleftrightarrow> ticks_of B d < 0"
  using assms by (simp_all add: boost_duration_def)

text \<open>Whether a \<open>TimeDelta\<close> holds a value in the total range, as every constructor ensures.\<close>

definition td_valid :: "'d duration_ops \<Rightarrow> 'd timedelta \<Rightarrow> bool" where
  "td_valid B t \<longleftrightarrow> in_total_range (td_ticks B t)"

lemma fromTicks_spec:
  assumes "boost_duration B"
  shows "fromTicks B n =
    (if in_total_range n then Inr \<lparr>m_duration = of_ticks B n\<rparr> else Inl HkuException)"
  by (simp add: fromTicks_def td_of_duration_def boost_ticks [OF assms td_range_int64])

lemma td_ticks_of_ticks:
  assumes "boost_duration B" "in_total_range n"
  shows "td_ticks B \<lparr>m_duration = of_ticks B n\<rparr> = n"
  by (simp add: td_ticks_def boost_ticks [OF assms(1) td_range_int64 [OF assms(2)]])

lemma mod_div_swap:
  fixes a b c :: int
  assumes "0 < b" "0 < c"
  shows "a mod (b * c) div b = a div b mod c"
proof -
  have "a mod (b * c) = b * (a div b mod c) + a mod b" using assms by (simp add: zmod_zmult2_eq)
  with assms show ?thesis by simp
qed

lemma day_fields:
  fixes n :: int
  shows "n mod 86400000000 div 3600000000 = n div 3600000000 mod 24"
    and "n mod 86400000000 div 60000000 mod 60 = n div 60000000 mod 60"
    and "n mod 86400000000 div 1000000 mod 60 = n div 1000000 mod 60"
    and "n mod 1000000 div 1000 = n div 1000 mod 1000"
    and "n mod 86400000000 mod 1000000 = n mod 1000000"
    and "n div 3600000000 div 24 = n div 86400000000"
proof -
  show "n mod 86400000000 div 3600000000 = n div 3600000000 mod 24"
    using mod_div_swap [of 3600000000 24 n] by simp
  have "n mod 86400000000 div 60000000 = n div 60000000 mod 1440"
    using mod_div_swap [of 60000000 1440 n] by simp
  then show "n mod 86400000000 div 60000000 mod 60 = n div 60000000 mod 60"
    by (simp add: mod_mod_cancel)
  have "n mod 86400000000 div 1000000 = n div 1000000 mod 86400"
    using mod_div_swap [of 1000000 86400 n] by simp
  then show "n mod 86400000000 div 1000000 mod 60 = n div 1000000 mod 60"
    by (simp add: mod_mod_cancel)
  show "n mod 1000000 div 1000 = n div 1000 mod 1000"
    using mod_div_swap [of 1000 1000 n] by simp
  show "n mod 86400000000 mod 1000000 = n mod 1000000"
    by (simp add: mod_mod_cancel)
  show "n div 3600000000 div 24 = n div 86400000000"
    by (simp flip: zdiv_zmult2_eq)
qed

text \<open>A negative duration that is no whole number of days: the ticks since the start of its day.\<close>

lemma pos_ticks_mod:
  assumes "td_ticks B t < 0" "\<not> 86400000000 dvd td_ticks B t"
  shows "pos_ticks B t = td_ticks B t mod 86400000000"
proof -
  let ?n = "td_ticks B t"
  have "?n sdiv 86400000000 - 1 = ?n div 86400000000"
    using sdiv_floor [OF assms(1) _ assms(2)] by simp
  moreover have "?n div 86400000000 \<le> 0" using assms(1) by (simp add: div_nonpos_pos_le0)
  ultimately have "pos_ticks B t = ?n - ?n div 86400000000 * 86400000000"
    by (simp add: pos_ticks_def m_one_day_ticks_def)
  then show ?thesis by (simp only: minus_div_mult_eq_mod)
qed

lemma milliseconds_exact: "(n mod 1000000 - n mod 1000) sdiv 1000 = n div 1000 mod 1000" for n :: int
proof -
  have "n mod 1000000 = 1000 * (n div 1000 mod 1000) + n mod 1000"
    using zmod_zmult2_eq [of 1000 n 1000] by simp
  then show ?thesis by (simp add: sdiv_exact)
qed

lemma day_int64: "0 \<le> x \<Longrightarrow> x < 86400000000 \<Longrightarrow> is_int64 x"
  by (simp add: is_int64_def)

lemma td_components:
  assumes "boost_duration B" "td_valid B t"
  defines "n \<equiv> td_ticks B t"
  shows "td_days B t = n div 86400000000"
    and "td_hours B t = n div 3600000000 mod 24"
    and "td_minutes B t = n div 60000000 mod 60"
    and "td_seconds B t = n div 1000000 mod 60"
    and "td_microseconds B t = n mod 1000"
    and "td_milliseconds B t = n div 1000 mod 1000"
proof -
  note defs = td_isNegative_def td_days_def td_hours_def td_minutes_def td_seconds_def
    td_microseconds_def td_milliseconds_def m_one_day_ticks_def boost_fields [OF assms(1)]
  have tick: "ticks_of B (m_duration t) = n" by (simp add: n_def td_ticks_def)
  consider (nonneg) "0 \<le> n" | (whole) "n < 0" "86400000000 dvd n"
    | (part) "n < 0" "\<not> 86400000000 dvd n" by linarith
  then have "td_days B t = n div 86400000000 \<and> td_hours B t = n div 3600000000 mod 24 \<and>
    td_minutes B t = n div 60000000 mod 60 \<and> td_seconds B t = n div 1000000 mod 60 \<and>
    td_microseconds B t = n mod 1000 \<and> td_milliseconds B t = n div 1000 mod 1000"
  proof cases
    case nonneg
    with nonneg show ?thesis
      by (simp add: defs tick flip: n_def) (simp add: sdiv_nonneg smod_nonneg pos_imp_zdiv_nonneg_iff day_fields milliseconds_exact)
  next
    case whole
    have z: "n mod 86400000000 = 0" using whole(2) by simp
    have m: "n mod 1000000 = 0" by (rule trans [OF day_fields(5) [symmetric]]) (simp only: z mod_0)
    have "n div 3600000000 mod 24 = 0" "n div 60000000 mod 60 = 0" "n div 1000000 mod 60 = 0"
      "n div 1000 mod 1000 = 0"
      by (rule trans [OF day_fields(1) [symmetric]], simp only: z div_0,
          rule trans [OF day_fields(2) [symmetric]], simp only: z div_0 mod_0,
          rule trans [OF day_fields(3) [symmetric]], simp only: z div_0 mod_0,
          rule trans [OF day_fields(4) [symmetric]], simp only: m div_0)
    moreover have "n mod 1000 = 0"
      by (rule trans [OF mod_mod_cancel [of 1000 1000000 n, symmetric]]) (simp, simp only: m mod_0)
    moreover have "td_days B t = n div 86400000000" "td_hours B t = 0" "td_minutes B t = 0"
      "td_seconds B t = 0" "td_microseconds B t = 0" "td_milliseconds B t = 0"
      using whole by (simp_all add: defs tick smod_eq_0 sdiv_exact flip: n_def)
    ultimately show ?thesis by (simp only: simp_thms)
  next
    case part
    let ?p = "n mod 86400000000"
    have pos: "pos_ticks B t = ?p" using pos_ticks_mod [of B t] part by (simp add: n_def)
    have p: "0 \<le> ?p" "?p < 86400000000" by simp_all
    then have "is_int64 ?p" by (rule day_int64)
    with assms(1) have tp: "ticks_of B (of_ticks B ?p) = ?p" by (rule boost_ticks)
    have us: "(let micro = n smod 1000 in if micro = 0 then micro else 1000 + micro) = n mod 1000"
    proof (cases "1000 dvd n")
      case True
      then show ?thesis by (simp add: smod_eq_0 Let_def)
    next
      case False
      with part(1) show ?thesis by (simp add: smod_eq_0 Let_def smod_floor)
    qed
    have tdus: "td_microseconds B t = n mod 1000"
      using part us by (simp add: defs tick smod_eq_0 flip: n_def)
    have ms: "n div 1000 mod 1000 = 0" if "n mod 1000000 = 0"
      by (rule trans [OF day_fields(4) [symmetric]]) (simp only: that div_0)
    have "td_milliseconds B t = n div 1000 mod 1000"
      using part p by (simp add: ms milliseconds_exact td_milliseconds_def td_isNegative_def boost_fields [OF assms(1)]
          m_one_day_ticks_def tick smod_eq_0 pos smod_nonneg day_fields(5) tdus Let_def flip: n_def)
    with part tdus show ?thesis
      by (simp add: defs tick smod_eq_0 pos tp sdiv_floor sdiv_nonneg smod_nonneg
          pos_imp_zdiv_nonneg_iff day_fields flip: n_def)
  qed
  then show "td_days B t = n div 86400000000" "td_hours B t = n div 3600000000 mod 24"
    "td_minutes B t = n div 60000000 mod 60" "td_seconds B t = n div 1000000 mod 60"
    "td_microseconds B t = n mod 1000" "td_milliseconds B t = n div 1000 mod 1000"
    by blast+
qed

section \<open>A concrete boost duration\<close>

text \<open>
  Ticks in a 64-bit word: an instance with the documented behaviour, whose sums beyond 64 bits
  wrap around, as the machine addition does.
\<close>

definition word_duration :: "u64 duration_ops" where
  "word_duration = \<lparr>of_ticks = word_of_int, ticks_of = sint,
     hours_of = (\<lambda>d. sint d sdiv 3600000000), minutes_of = (\<lambda>d. (sint d sdiv 60000000) smod 60),
     seconds_of = (\<lambda>d. (sint d sdiv 1000000) smod 60), is_negative_of = (\<lambda>d. sint d < 0),
     plus_of = (+), minus_of = (-), eq_of = (=), less_of = (\<lambda>d e. sint d < sint e)\<rparr>"

lemma sint_of_int64: "is_int64 n \<Longrightarrow> sint (word_of_int n :: u64) = n"
  by (simp add: is_int64_def signed_of_int signed_take_bit_int_eq_self)

lemma word_duration_ok: "boost_duration word_duration"
proof -
  have "sint (d + e) = sint d + sint e" if "is_int64 (sint d + sint e)" for d e :: u64
    using that by (simp add: sint_word_add signed_take_bit_int_eq_self is_int64_def)
  moreover have "sint (d - e) = sint d - sint e" if "is_int64 (sint d - sint e)" for d e :: u64
    using that by (simp add: sint_word_diff signed_take_bit_int_eq_self is_int64_def)
  moreover have "sint d = sint e \<longleftrightarrow> d = e" for d e :: u64 by (metis signed_word_eqI)
  ultimately show ?thesis
    by (simp add: boost_duration_def word_duration_def sint_of_int64)
qed

section \<open>Properties\<close>

lemma div_step:
  fixes n b c :: int
  shows "0 < b \<Longrightarrow> 0 < c \<Longrightarrow> n div b = n div (b * c) * c + n div b mod c"
  by (simp add: zdiv_zmult2_eq)

lemma td_total_fields:
  fixes n :: int
  shows "td_total (n div 86400000000) (n div 3600000000 mod 24) (n div 60000000 mod 60)
    (n div 1000000 mod 60) (n div 1000 mod 1000) (n mod 1000) = n"
proof -
  have "n div 1000 = n div 1000000 * 1000 + n div 1000 mod 1000"
    and "n div 1000000 = n div 60000000 * 60 + n div 1000000 mod 60"
    and "n div 60000000 = n div 3600000000 * 60 + n div 60000000 mod 60"
    and "n div 3600000000 = n div 86400000000 * 24 + n div 3600000000 mod 24"
    using div_step [of 1000 1000 n] div_step [of 1000000 60 n] div_step [of 60000000 60 n]
      div_step [of 3600000000 24 n] by simp_all
  then show ?thesis unfolding td_total_def by (metis div_mult_mod_eq)
qed

lemma td_new_small:
  assumes "-99999999 \<le> days" "days \<le> 99999999" "hours \<in> {0..<24}" "minutes \<in> {0..<60}"
    "seconds \<in> {0..<60}" "milliseconds \<in> {0..<1000}" "microseconds \<in> {0..<1000}"
  shows "td_new B days hours minutes seconds milliseconds microseconds =
    (let us = td_total days hours minutes seconds milliseconds microseconds in
     if in_total_range us then Inr \<lparr>m_duration = of_ticks B us\<rparr> else Inl HkuException)"
  using assms by (simp add: td_new_def Let_def)

text \<open>
  Property C4: the components of every duration in the total range are those of python's
  \<open>timedelta\<close>: only \<open>days()\<close> can be negative, hours are below 24, minutes and seconds below 60,
  milliseconds and microseconds below 1000, together they make up exactly the ticks, and building
  a \<open>TimeDelta\<close> from them gives the same duration back.
\<close>

theorem td_components_normal:
  assumes "boost_duration B" "td_valid B t"
  shows "td_hours B t \<in> {0..<24} \<and> td_minutes B t \<in> {0..<60} \<and> td_seconds B t \<in> {0..<60} \<and>
    td_milliseconds B t \<in> {0..<1000} \<and> td_microseconds B t \<in> {0..<1000} \<and>
    td_total (td_days B t) (td_hours B t) (td_minutes B t) (td_seconds B t)
      (td_milliseconds B t) (td_microseconds B t) = td_ticks B t \<and>
    td_new B (td_days B t) (td_hours B t) (td_minutes B t) (td_seconds B t)
      (td_milliseconds B t) (td_microseconds B t) = fromTicks B (td_ticks B t)"
proof -
  let ?n = "td_ticks B t"
  have range: "in_total_range ?n" using assms(2) by (simp add: td_valid_def)
  note f = td_components [OF assms]
  have "-99999999 \<le> ?n div 86400000000"
    using range zdiv_mono1 [of m_min_micro_seconds ?n 86400000000]
    by (simp add: in_total_range_def m_min_micro_seconds_def)
  moreover have "?n div 86400000000 \<le> 99999999"
    using range zdiv_mono1 [of ?n m_max_micro_seconds 86400000000]
    by (simp add: in_total_range_def m_max_micro_seconds_def)
  ultimately have "td_new B (td_days B t) (td_hours B t) (td_minutes B t) (td_seconds B t)
      (td_milliseconds B t) (td_microseconds B t) = fromTicks B ?n"
    unfolding f fromTicks_spec [OF assms(1)]
    by (subst td_new_small) (simp_all add: td_total_fields Let_def)
  then show ?thesis
    unfolding f td_total_fields by simp
qed

lemmas range_defs = in_total_range_def m_min_micro_seconds_def m_max_micro_seconds_def

lemma word_duration_ticks:
  "in_total_range n \<Longrightarrow> td_ticks word_duration \<lparr>m_duration = word_of_int n\<rparr> = n"
  using td_ticks_of_ticks [OF word_duration_ok, of n] by (simp add: word_duration_def)

theorem td_components_normal_witness:
  "td_days word_duration \<lparr>m_duration = word_of_int (-1)\<rparr> = -1 \<and>
   td_hours word_duration \<lparr>m_duration = word_of_int (-1)\<rparr> \<in> {0..<24}"
proof -
  let ?t = "\<lparr>m_duration = word_of_int (-1)\<rparr> :: u64 timedelta"
  have ticks: "td_ticks word_duration ?t = -1"
    by (rule word_duration_ticks) (simp add: range_defs)
  have v: "td_valid word_duration ?t"
    unfolding td_valid_def ticks by (simp add: range_defs)
  from td_components_normal [OF word_duration_ok v] td_components(1) [OF word_duration_ok v] ticks
  show ?thesis by simp
qed

text \<open>The documented argument ranges, and every value the constructor computes, in order.\<close>

definition td_args_ok :: "int \<Rightarrow> int \<Rightarrow> int \<Rightarrow> int \<Rightarrow> int \<Rightarrow> int \<Rightarrow> bool" where
  "td_args_ok days hours minutes seconds milliseconds microseconds \<longleftrightarrow>
     \<bar>days\<bar> \<le> 99999999 \<and> \<bar>hours\<bar> \<le> 100000 \<and> \<bar>minutes\<bar> \<le> 100000 \<and> \<bar>seconds\<bar> \<le> 8639900 \<and>
     \<bar>milliseconds\<bar> \<le> 86399000000 \<and> \<bar>microseconds\<bar> \<le> 86399000000"

definition td_intermediates :: "int \<Rightarrow> int \<Rightarrow> int \<Rightarrow> int \<Rightarrow> int \<Rightarrow> int \<Rightarrow> int list" where
  "td_intermediates days hours minutes seconds milliseconds microseconds =
     [days * 24, days * 24 + hours, (days * 24 + hours) * 60, (days * 24 + hours) * 60 + minutes,
      ((days * 24 + hours) * 60 + minutes) * 60, ((days * 24 + hours) * 60 + minutes) * 60 + seconds,
      (((days * 24 + hours) * 60 + minutes) * 60 + seconds) * 1000,
      (((days * 24 + hours) * 60 + minutes) * 60 + seconds) * 1000 + milliseconds,
      ((((days * 24 + hours) * 60 + minutes) * 60 + seconds) * 1000 + milliseconds) * 1000,
      td_total days hours minutes seconds milliseconds microseconds]"

lemma abs_affine:
  fixes x y a b c :: int
  assumes "\<bar>x\<bar> \<le> a" "\<bar>y\<bar> \<le> b" "0 \<le> c"
  shows "\<bar>x * c + y\<bar> \<le> a * c + b"
proof -
  have "\<bar>x * c + y\<bar> \<le> \<bar>x\<bar> * c + \<bar>y\<bar>"
    using abs_triangle_ineq [of "x * c" y] assms(3) by (simp add: abs_mult)
  also have "\<dots> \<le> a * c + b" using assms by (intro add_mono mult_right_mono)
  finally show ?thesis .
qed

lemma small_int64: "\<bar>x\<bar> \<le> 9000000000000000000 \<Longrightarrow> is_int64 x"
  by (simp add: is_int64_def abs_le_iff)

text \<open>
  The constructor throws exactly when an argument is outside its documented range or
  the sum outside the total range; otherwise the duration holds the exact sum, and when the
  argument checks pass no step of the computation leaves \<open>int64_t\<close>.
\<close>

theorem td_new_exact:
  assumes "boost_duration B"
  shows "(case td_new B days hours minutes seconds milliseconds microseconds of
      Inl e \<Rightarrow> e = HkuException \<and>
        \<not> (td_args_ok days hours minutes seconds milliseconds microseconds \<and>
           in_total_range (td_total days hours minutes seconds milliseconds microseconds))
    | Inr t \<Rightarrow> td_args_ok days hours minutes seconds milliseconds microseconds \<and> td_valid B t \<and>
        td_ticks B t = td_total days hours minutes seconds milliseconds microseconds) \<and>
    (td_args_ok days hours minutes seconds milliseconds microseconds \<longrightarrow>
       list_all is_int64 (td_intermediates days hours minutes seconds milliseconds microseconds))"
proof
  let ?us = "td_total days hours minutes seconds milliseconds microseconds"
    and ?ok = "td_args_ok days hours minutes seconds milliseconds microseconds"
  have new: "td_new B days hours minutes seconds milliseconds microseconds =
      (if ?ok \<and> in_total_range ?us then Inr \<lparr>m_duration = of_ticks B ?us\<rparr> else Inl HkuException)"
    by (auto simp: td_new_def Let_def td_args_ok_def abs_le_iff)
  show "case td_new B days hours minutes seconds milliseconds microseconds of
      Inl e \<Rightarrow> e = HkuException \<and> \<not> (?ok \<and> in_total_range ?us)
    | Inr t \<Rightarrow> ?ok \<and> td_valid B t \<and> td_ticks B t = ?us"
    unfolding new using td_ticks_of_ticks [OF assms(1), of ?us]
    by (simp add: td_valid_def)
  show "?ok \<longrightarrow>
      list_all is_int64 (td_intermediates days hours minutes seconds milliseconds microseconds)"
  proof
    assume ok: ?ok
    let ?h = "days * 24 + hours" let ?m = "?h * 60 + minutes" let ?s = "?m * 60 + seconds"
    let ?l = "?s * 1000 + milliseconds"
    note ok' = ok [unfolded td_args_ok_def]
    have h: "\<bar>?h\<bar> \<le> 2400099976"
      using abs_affine [of days 99999999 hours 100000 24] ok' by simp
    have m: "\<bar>?m\<bar> \<le> 144006098560"
      using abs_affine [OF h, of minutes 100000 60] ok' by simp
    have s: "\<bar>?s\<bar> \<le> 8640374553500"
      using abs_affine [OF m, of seconds 8639900 60] ok' by simp
    have l: "\<bar>?l\<bar> \<le> 8640460952500000"
      using abs_affine [OF s, of milliseconds 86399000000 1000] ok' by simp
    have u: "\<bar>?us\<bar> \<le> 8640461038899000000"
      using abs_affine [OF l, of microseconds 86399000000 1000] ok' by (simp add: td_total_def)
    have mult: "is_int64 (x * c)" if "\<bar>x\<bar> \<le> a" "0 \<le> c" "a * c \<le> 9000000000000000000" for x a c :: int
      using abs_affine [OF that(1), of 0 0 c] that(2,3) by (intro small_int64) simp
    have d: "\<bar>days\<bar> \<le> 99999999" using ok' by simp
    have "is_int64 (days * 24)" "is_int64 (?h * 60)" "is_int64 (?m * 60)" "is_int64 (?s * 1000)"
      "is_int64 (?l * 1000)"
      by (rule mult [OF d], simp, simp, rule mult [OF h], simp, simp, rule mult [OF m], simp, simp,
          rule mult [OF s], simp, simp, rule mult [OF l], simp, simp)
    moreover have "is_int64 ?h" "is_int64 ?m" "is_int64 ?s" "is_int64 ?l" "is_int64 ?us"
      by (rule small_int64 [OF order_trans, OF h], simp, rule small_int64 [OF order_trans, OF m], simp,
          rule small_int64 [OF order_trans, OF s], simp, rule small_int64 [OF order_trans, OF l], simp,
          rule small_int64 [OF order_trans, OF u], simp)
    ultimately show "list_all is_int64
        (td_intermediates days hours minutes seconds milliseconds microseconds)"
      by (simp only: td_intermediates_def list.pred_inject simp_thms)
  qed
qed

definition checked_ticks :: "int \<Rightarrow> int result" where
  "checked_ticks n = (if in_total_range n then Inr n else Inl HkuException)"

lemma fromTicks_checked:
  assumes "boost_duration B"
  shows "map_sum id (td_ticks B) (fromTicks B n) = checked_ticks n"
  using td_ticks_of_ticks [OF assms, of n] by (simp add: fromTicks_spec [OF assms] checked_ticks_def)

lemma of_duration_checked:
  "map_sum id (td_ticks B) (td_of_duration B d) = checked_ticks (ticks_of B d)"
  by (simp add: td_of_duration_def checked_ticks_def td_ticks_def)

lemma smod_range: "in_total_range a \<Longrightarrow> in_total_range (a smod b)"
proof -
  assume a: "in_total_range a"
  have "0 \<le> \<bar>a\<bar> mod \<bar>b\<bar>" by (cases "b = 0") simp_all
  moreover have "\<bar>a\<bar> mod \<bar>b\<bar> \<le> \<bar>a\<bar>" by (simp add: zmod_le_nonneg_dividend)
  ultimately have "0 \<le> a \<Longrightarrow> 0 \<le> a smod b \<and> a smod b \<le> a" "a \<le> 0 \<Longrightarrow> a \<le> a smod b \<and> a smod b \<le> 0"
    by (auto simp: signed_modulo_int_def sgn_if)
  with a show ?thesis by (cases "0 \<le> a") (auto simp: range_defs)
qed

text \<open>
  The arithmetic of durations in the total range. A sum or difference that fits in 64
  bits is exact or throws, by the total range; the remainder is C's (the sign of the dividend,
  throwing only on a zero divisor), \<open>abs\<close> never throws, negation throws exactly beyond 99999999
  days, and the order is that of the ticks.
\<close>

theorem td_arithmetic:
  assumes "boost_duration B" "td_valid B t" "td_valid B td"
  defines "n \<equiv> td_ticks B t" and "k \<equiv> td_ticks B td"
  shows "(is_int64 (n + k) \<longrightarrow> map_sum id (td_ticks B) (td_plus B t td) = checked_ticks (n + k)) \<and>
    (is_int64 (n - k) \<longrightarrow> map_sum id (td_ticks B) (td_minus B t td) = checked_ticks (n - k)) \<and>
    map_sum id (td_ticks B) (td_mod B t td) = (if k = 0 then Inl HkuException else Inr (n smod k)) \<and>
    map_sum id (td_ticks B) (td_abs B t) = Inr \<bar>n\<bar> \<and>
    map_sum id (td_ticks B) (td_uminus B t) =
      (if n \<le> 99999999 * 86400000000 then Inr (- n) else Inl HkuException) \<and>
    (td_less B t td \<longleftrightarrow> n < k) \<and> (td_eq B t td \<longleftrightarrow> n = k)"
proof -
  have range: "in_total_range n" "in_total_range k" using assms(2,3) by (simp_all add: td_valid_def n_def k_def)
  have laws: "is_int64 (n + k) \<Longrightarrow> ticks_of B (plus_of B (m_duration td) (m_duration t)) = n + k"
    "is_int64 (n - k) \<Longrightarrow> ticks_of B (minus_of B (m_duration t) (m_duration td)) = n - k"
    "less_of B (m_duration t) (m_duration td) \<longleftrightarrow> n < k"
    "eq_of B (m_duration t) (m_duration td) \<longleftrightarrow> n = k"
    using assms(1) by (simp_all add: boost_duration_def n_def k_def td_ticks_def add.commute)
  have "checked_ticks \<bar>n\<bar> = Inr \<bar>n\<bar>"
    using range(1) by (auto simp: checked_ticks_def range_defs)
  moreover have "checked_ticks (- n) = (if n \<le> 99999999 * 86400000000 then Inr (- n) else Inl HkuException)"
    using range(1) by (auto simp: checked_ticks_def range_defs)
  moreover have "checked_ticks (n smod k) = Inr (n smod k)"
    using smod_range [OF range(1)] by (simp add: checked_ticks_def)
  ultimately show ?thesis
    using laws
    by (simp add: td_plus_def td_minus_def td_mod_def td_abs_def td_uminus_def td_less_def td_eq_def
        of_duration_checked fromTicks_checked [OF assms(1)] flip: n_def k_def)
qed

text \<open>
  The shortcuts \<open>Hours\<close>, \<open>Minutes\<close>, \<open>Seconds\<close> and \<open>Milliseconds\<close> accept exactly
  the counts whose ticks are in the total range, with the exact value, and throw on all others:
  their unit-wise check loses nothing to the truncating division.
\<close>

theorem td_units_exact:
  assumes "boost_duration B"
  shows "map_sum id (td_ticks B) (td_Hours B n) = checked_ticks (n * 3600000000) \<and>
    map_sum id (td_ticks B) (td_Minutes B n) = checked_ticks (n * 60000000) \<and>
    map_sum id (td_ticks B) (td_Seconds B n) = checked_ticks (n * 1000000) \<and>
    map_sum id (td_ticks B) (td_Milliseconds B n) = checked_ticks (n * 1000)"
  by (auto simp: td_Hours_def td_Minutes_def td_Seconds_def td_Milliseconds_def
      fromTicks_checked [OF assms] checked_ticks_def range_defs signed_divide_int_def)

text \<open>
  The range check of \<open>operator+\<close> comes after the boost addition. With ticks that wrap
  around at 64 bits, \<open>TimeDelta::max() + TimeDelta::max()\<close> does not throw: it is a negative
  duration, because the wrapped sum lies in the total range again. (The same holds for
  \<open>max() - min()\<close>.)
\<close>

theorem td_plus_overflow:
  "\<exists>t. td_max word_duration = Inr t \<and> td_ticks word_duration t = m_max_micro_seconds \<and>
     map_sum id (td_ticks word_duration) (td_plus word_duration t t) = Inr (-1166744073709551618)"
proof -
  let ?t = "\<lparr>m_duration = word_of_int 8639999999999999999\<rparr> :: u64 timedelta"
  have mx: "td_max word_duration = Inr ?t"
    by (simp add: td_max_def td_new_def td_total_def range_defs word_duration_def)
  have ticks: "td_ticks word_duration ?t = 8639999999999999999"
    by (rule word_duration_ticks) (simp add: range_defs)
  have "ticks_of word_duration (plus_of word_duration (m_duration ?t) (m_duration ?t)) =
      sint (word_of_int 17279999999999999998 :: u64)"
    by (simp add: word_duration_def)
  also have "\<dots> = -1166744073709551618"
    by (simp add: signed_of_int signed_take_bit_eq_take_bit_shift take_bit_eq_mod)
  finally have "map_sum id (td_ticks word_duration) (td_plus word_duration ?t ?t) =
      Inr (-1166744073709551618)"
    by (simp add: td_plus_def of_duration_checked checked_ticks_def range_defs)
  with mx ticks show ?thesis by (simp add: m_max_micro_seconds_def)
qed

end
