(* ===== verification/StdMap.thy ===== *)
theory StdMap
  imports HkuPrelude "HOL-Library.List_Lexorder" "HOL-Library.Char_ord"
begin

text \<open>
  \<open>std::map\<close>: an association list in increasing key order. \<open>std::string\<close> keys compare
  lexicographically by unsigned bytes, the order of \<open>List_Lexorder\<close> over \<open>Char_ord\<close>; \<open>find\<close> and
  \<open>count\<close> are \<open>map_of\<close>, an iteration sees the list.
\<close>

fun smap_put :: "'k::linorder \<Rightarrow> 'v \<Rightarrow> ('k \<times> 'v) list \<Rightarrow> ('k \<times> 'v) list" where
  "smap_put k v [] = [(k, v)]"
| "smap_put k v ((j, w) # l) =
     (if k < j then (k, v) # (j, w) # l
      else if k = j then (k, v) # l
      else (j, w) # smap_put k v l)"

text \<open>\<open>operator[]\<close>: the entry, created with the default value when it is missing.\<close>

definition smap_touch :: "'k::linorder \<Rightarrow> 'v \<Rightarrow> ('k \<times> 'v) list \<Rightarrow> ('k \<times> 'v) list" where
  "smap_touch k dflt l = (if map_of l k = None then smap_put k dflt l else l)"

definition smap_ok :: "('k::linorder \<times> 'v) list \<Rightarrow> bool" where
  "smap_ok l \<longleftrightarrow> sorted_wrt (<) (map fst l)"

lemma smap_ok_simps [simp]:
  "smap_ok []"
  "smap_ok ((k, v) # l) \<longleftrightarrow> (\<forall>j \<in> fst ` set l. k < j) \<and> smap_ok l"
  by (auto simp: smap_ok_def)

lemma smap_put_keys: "fst ` set (smap_put k v l) = insert k (fst ` set l)"
  by (induction k v l rule: smap_put.induct) auto

lemma smap_put_ok: "smap_ok l \<Longrightarrow> smap_ok (smap_put k v l)"
  by (induction k v l rule: smap_put.induct) (auto simp: smap_put_keys)

lemma smap_put_lookup [simp]: "smap_ok l \<Longrightarrow> map_of (smap_put k v l) = (map_of l)(k \<mapsto> v)"
proof (induction k v l rule: smap_put.induct)
  case (2 k v j w l)
  show ?case
  proof (cases "k < j")
    case True
    then show ?thesis by (auto simp: fun_eq_iff)
  next
    case False
    with 2 show ?thesis by (auto simp: fun_eq_iff)
  qed
qed (simp add: fun_eq_iff)

lemma smap_touch_ok: "smap_ok l \<Longrightarrow> smap_ok (smap_touch k v l)"
  by (simp add: smap_touch_def smap_put_ok)

lemma smap_touch_lookup:
  "smap_ok l \<Longrightarrow> map_of (smap_touch k d l) j =
     (if j = k \<and> map_of l k = None then Some d else map_of l j)"
  by (auto simp: smap_touch_def)

text \<open>A key above all others is appended.\<close>

lemma smap_put_append: "\<forall>j \<in> fst ` set l. j < k \<Longrightarrow> smap_put k v l = l @ [(k, v)]"
  by (induction k v l rule: smap_put.induct) (auto dest: less_asym)

lemma smap_put_append_again:
  "\<forall>j \<in> fst ` set l. j < k \<Longrightarrow> smap_put k v (l @ [(k, w)]) = l @ [(k, v)]"
  by (induction l) (auto dest: less_asym)

end
