(* ===== verification/IniParser.thy ===== *)
theory IniParser
  imports StringUtil StdMap
begin

text \<open>
  \<open>hikyuu/utilities/ini_parser/IniParser.{h,cpp}\<close>. A file is its contents, or \<open>None\<close> when it cannot
  be opened; \<open>m_sections\<close> is an ordered map of ordered maps. Reading keeps what it read before an
  error, so it returns the exception together with the parser's state. \<open>getFloat\<close> and
  \<open>getDouble\<close> (\<open>std::stof\<close>, \<open>std::stod\<close>) are not modelled.
\<close>

section \<open>Definitions\<close>

type_synonym ini_sections = "(string \<times> (string \<times> string) list) list"

text \<open>\<open>ParsingError\<close>: line numbers and texts, in order.\<close>

type_synonym parsing_error = "(nat \<times> string) list"

definition haveError :: "parsing_error \<Rightarrow> bool" where
  "haveError e \<longleftrightarrow> e \<noteq> []"

text \<open>The local variables of \<open>read\<close> that survive a line, with the parser's sections.\<close>

record ini_reader =
  m_sections :: ini_sections
  rd_section :: string
  rd_errors :: parsing_error

datatype line_outcome = Next ini_reader | Break ini_reader | Throw cpp_error ini_reader

definition pe_append :: "nat \<Rightarrow> string \<Rightarrow> ini_reader \<Rightarrow> ini_reader" where
  "pe_append lineno line r = r\<lparr>rd_errors := rd_errors r @ [(lineno, line)]\<rparr>"

text \<open>\<open>m_sections[section][key] = value\<close>.\<close>

definition put_option :: "string \<Rightarrow> string \<Rightarrow> string \<Rightarrow> ini_sections \<Rightarrow> ini_sections" where
  "put_option section key val secs =
     (let secs1 = smap_touch section [] secs in
      smap_put section (smap_put key val (the (map_of secs1 section))) secs1)"

text \<open>A line after trimming and the removal of its comment: a section line or an option line.\<close>

definition read_section_line :: "nat \<Rightarrow> string \<Rightarrow> ini_reader \<Rightarrow> ini_reader" where
  "read_section_line lineno line r =
     (let len = length line in
      if line ! (len - 1) \<noteq> CHR '']'' then pe_append lineno line r
      else
        let section = trim (substr line 1 (len - 2));
            r1 = r\<lparr>rd_section := section\<rparr>
        in if section = [] then pe_append lineno line r1
           else r1\<lparr>m_sections := smap_touch section [] (m_sections r1)\<rparr>)"

definition read_option_line :: "nat \<Rightarrow> string \<Rightarrow> ini_reader \<Rightarrow> line_outcome" where
  "read_option_line lineno line r =
     (if rd_section r = [] then Break (pe_append lineno ''Missing section header!'' r)
      else
        (case find_char_from line CHR ''='' 0 of
           None \<Rightarrow> Next (pe_append lineno line r)
         | Some pos \<Rightarrow>
             if pos = length line - 1 then Next (pe_append lineno line r)
             else
               let key = trim (substr line 0 pos) in
               if key = [] then Next (pe_append lineno line r)
               else
                 let val = trim (drop (pos + 1) line) in
                 if val = [] then Next (pe_append lineno line r)
                 else Next (r\<lparr>m_sections := put_option (rd_section r) key val (m_sections r)\<rparr>)))"

definition read_line :: "nat \<Rightarrow> string \<Rightarrow> ini_reader \<Rightarrow> line_outcome" where
  "read_line lineno raw r =
     (let line0 = trim raw in
      if line0 = [] \<or> line0 ! 0 = CHR '';'' then Next r
      else
        let line = (case find_char_from line0 CHR '';'' 0 of
                      None \<Rightarrow> line0
                    | Some pos \<Rightarrow> trim (substr line0 0 pos))
        in if line = [] then Throw OutOfRange r
           else if line ! 0 = CHR ''['' then Next (read_section_line lineno line r)
           else read_option_line lineno line r)"

fun read_lines :: "nat \<Rightarrow> string list \<Rightarrow> ini_reader \<Rightarrow> line_outcome" where
  "read_lines lineno [] r = Next r"
| "read_lines lineno (line # rest) r =
     (case read_line (lineno + 1) line r of
        Next r' \<Rightarrow> read_lines (lineno + 1) rest r'
      | Break r' \<Rightarrow> Break r'
      | Throw e r' \<Rightarrow> Throw e r')"

text \<open>The lines \<open>std::getline\<close> yields: a last line feed does not begin another line.\<close>

definition getlines :: "string \<Rightarrow> string list" where
  "getlines content =
     (let pieces = split content CHR 0x0A in
      if last pieces = [] then butlast pieces else pieces)"

definition ini_read :: "string option \<Rightarrow> ini_sections \<Rightarrow> cpp_error option \<times> parsing_error \<times> ini_sections" where
  "ini_read file secs =
     (case file of
        None \<Rightarrow> (Some InvalidArgument, [], secs)
      | Some content \<Rightarrow>
          let finish = (\<lambda>r. (if haveError (rd_errors r) then Some LogicError else None,
                 rd_errors r, m_sections r))
          in (case read_lines 0 (getlines content)
                     \<lparr>m_sections = secs, rd_section = [], rd_errors = []\<rparr> of
                Next r \<Rightarrow> finish r
              | Break r \<Rightarrow> finish r
              | Throw e r \<Rightarrow> (Some e, [], m_sections r)))"

definition ini_clear :: "ini_sections \<Rightarrow> ini_sections" where
  "ini_clear secs = []"

definition hasSection :: "string \<Rightarrow> ini_sections \<Rightarrow> bool" where
  "hasSection section secs \<longleftrightarrow> map_of secs section \<noteq> None"

definition hasOption :: "string \<Rightarrow> string \<Rightarrow> ini_sections \<Rightarrow> bool" where
  "hasOption section option secs =
     (case map_of secs section of None \<Rightarrow> False | Some opts \<Rightarrow> map_of opts option \<noteq> None)"

definition getSectionList :: "ini_sections \<Rightarrow> string list" where
  "getSectionList secs = map fst secs"

definition getOptionList :: "string \<Rightarrow> ini_sections \<Rightarrow> string list result" where
  "getOptionList section secs =
     (case map_of secs section of None \<Rightarrow> Inl InvalidArgument | Some opts \<Rightarrow> Inr (map fst opts))"

definition ini_get :: "string \<Rightarrow> string \<Rightarrow> string \<Rightarrow> ini_sections \<Rightarrow> string result" where
  "ini_get section option default_str secs =
     (case map_of secs section of
        None \<Rightarrow> Inl InvalidArgument
      | Some opts \<Rightarrow>
          (case map_of opts option of
             None \<Rightarrow> if default_str = [] then Inl InvalidArgument else Inr (trim default_str)
           | Some val \<Rightarrow> Inr val))"

text \<open>\<open>std::stoi\<close>: leading white space, a sign, digits; the value and the number of characters read.\<close>

definition is_space :: "char \<Rightarrow> bool" where
  "is_space c \<longleftrightarrow> c \<in> {CHR '' '', CHR 0x09, CHR 0x0A, CHR 0x0B, CHR 0x0C, CHR 0x0D}"

definition is_digit :: "char \<Rightarrow> bool" where
  "is_digit c \<longleftrightarrow> (of_char c :: nat) \<in> {48..57}"

definition digits_value :: "string \<Rightarrow> int" where
  "digits_value ds = foldl (\<lambda>n c. 10 * n + (of_char c - 48)) 0 ds"

definition stoi :: "string \<Rightarrow> (int \<times> nat) result" where
  "stoi s =
     (let ws = takeWhile is_space s;
          s1 = drop (length ws) s;
          neg = (s1 \<noteq> [] \<and> hd s1 = CHR ''-'');
          sgn_len = (if s1 \<noteq> [] \<and> (hd s1 = CHR ''-'' \<or> hd s1 = CHR ''+'') then 1 else 0);
          ds = takeWhile is_digit (drop sgn_len s1);
          n = (if neg then - digits_value ds else digits_value ds)
      in if ds = [] then Inl InvalidArgument
         else if \<not> (- (2 ^ 31) \<le> n \<and> n < 2 ^ 31) then Inl OutOfRange
         else Inr (n, length ws + sgn_len + length ds))"

definition ini_getInt :: "string \<Rightarrow> string \<Rightarrow> string \<Rightarrow> ini_sections \<Rightarrow> int result" where
  "ini_getInt section option default_str secs =
     bind_result
       (if default_str \<noteq> []
        then bind_result (stoi default_str) (\<lambda>(_, remain).
               if remain \<noteq> length default_str then Inl InvalidArgument else Inr ())
        else Inr ())
       (\<lambda>_. bind_result (ini_get section option default_str secs) (\<lambda>value_str.
          bind_result (stoi value_str) (\<lambda>(n, remain).
            if remain \<noteq> length value_str then Inl InvalidArgument else Inr n)))"

definition ini_getBool :: "string \<Rightarrow> string \<Rightarrow> string \<Rightarrow> ini_sections \<Rightarrow> bool result" where
  "ini_getBool section option default_str secs =
     bind_result
       (if default_str \<noteq> [] \<and> default_str \<noteq> ''1'' \<and> default_str \<noteq> ''0''
        then (let u = to_upper default_str in
              if u = ''TRUE'' \<or> u = ''YES'' \<or> u = ''ON'' then Inr ''1''
              else if u = ''FALSE'' \<or> u = ''NO'' \<or> u = ''OFF'' then Inr ''0''
              else Inl InvalidArgument)
        else Inr default_str)
       (\<lambda>new_default_str.
          bind_result (ini_get section option new_default_str secs) (\<lambda>value_str.
            if value_str = ''1'' then Inr True
            else if value_str = ''0'' then Inr False
            else let u = to_upper value_str in
              if u = ''TRUE'' \<or> u = ''YES'' \<or> u = ''ON'' then Inr True
              else if u = ''FALSE'' \<or> u = ''NO'' \<or> u = ''OFF'' then Inr False
              else Inl DomainError))"

section \<open>Lines as events\<close>

text \<open>What a line says, independently of the reader's state.\<close>

datatype ini_event = Blank | Crash | BadLine | Sec string | Opt string string

definition uncomment :: "string \<Rightarrow> string" where
  "uncomment line = (case find_char_from line CHR '';'' 0 of
     None \<Rightarrow> line | Some pos \<Rightarrow> trim (substr line 0 pos))"

definition section_name :: "string \<Rightarrow> string option" where
  "section_name line =
     (if line ! (length line - 1) \<noteq> CHR '']'' then None
      else let name = trim (substr line 1 (length line - 2)) in if name = [] then None else Some name)"

definition option_pair :: "string \<Rightarrow> (string \<times> string) option" where
  "option_pair line =
     (case find_char_from line CHR ''='' 0 of
        None \<Rightarrow> None
      | Some pos \<Rightarrow>
          if pos = length line - 1 \<or> trim (substr line 0 pos) = [] \<or> trim (drop (pos + 1) line) = []
          then None else Some (trim (substr line 0 pos), trim (drop (pos + 1) line)))"

definition event_of :: "string \<Rightarrow> ini_event" where
  "event_of raw =
     (let line0 = trim raw; line = uncomment line0 in
      if line0 = [] \<or> line0 ! 0 = CHR '';'' then Blank
      else if line = [] then Crash
      else if line ! 0 = CHR ''['' then (case section_name line of None \<Rightarrow> BadLine | Some s \<Rightarrow> Sec s)
      else (case option_pair line of None \<Rightarrow> BadLine | Some (k, v) \<Rightarrow> Opt k v))"

lemma pe_append_errors [simp]: "rd_errors (pe_append n l r) \<noteq> []"
  by (simp add: pe_append_def)

text \<open>The reader's step, by event; a bad line, or an option outside a section, leaves an error.\<close>

lemma read_line_event:
  "read_line n raw r =
     (case event_of raw of
        Blank \<Rightarrow> Next r
      | Crash \<Rightarrow> Throw OutOfRange r
      | Sec s \<Rightarrow> Next (r\<lparr>rd_section := s, m_sections := smap_touch s [] (m_sections r)\<rparr>)
      | Opt k v \<Rightarrow>
          if rd_section r = [] then Break (pe_append n ''Missing section header!'' r)
          else Next (r\<lparr>m_sections := put_option (rd_section r) k v (m_sections r)\<rparr>)
      | BadLine \<Rightarrow> read_line n raw r)"
proof -
  let ?line = "uncomment (trim raw)"
  have u: "(case find_char_from (trim raw) CHR '';'' 0 of
      None \<Rightarrow> trim raw | Some pos \<Rightarrow> trim (substr (trim raw) 0 pos)) = ?line"
    by (simp add: uncomment_def)
  show ?thesis
    by (auto simp: event_of_def read_line_def u Let_def section_name_def read_section_line_def
        option_pair_def read_option_line_def split: option.splits if_splits)
qed

lemma read_line_bad:
  assumes "event_of raw = BadLine"
  obtains r' where "read_line n raw r \<in> {Next r', Break r'}" "rd_errors r' \<noteq> []"
proof -
  let ?line = "uncomment (trim raw)"
  have u: "(case find_char_from (trim raw) CHR '';'' 0 of
      None \<Rightarrow> trim raw | Some pos \<Rightarrow> trim (substr (trim raw) 0 pos)) = ?line"
    by (simp add: uncomment_def)
  have "\<exists>r'. read_line n raw r \<in> {Next r', Break r'} \<and> rd_errors r' \<noteq> []"
    using assms
    by (auto simp: event_of_def read_line_def u Let_def section_name_def read_section_line_def
        option_pair_def read_option_line_def split: option.splits if_splits)
  with that show thesis by blast
qed

section \<open>The effect of a file\<close>

definition ini_wf :: "ini_sections \<Rightarrow> bool" where
  "ini_wf secs \<longleftrightarrow> smap_ok secs \<and> (\<forall>s opts. map_of secs s = Some opts \<longrightarrow> smap_ok opts)"

definition ini_lookup :: "ini_sections \<Rightarrow> string \<times> string \<Rightarrow> string option" where
  "ini_lookup secs sk = Option.bind (map_of secs (fst sk)) (\<lambda>opts. map_of opts (snd sk))"

text \<open>No bad line, and no option before the first section.\<close>

fun ok_events :: "ini_event list \<Rightarrow> string \<Rightarrow> bool" where
  "ok_events [] cur = True"
| "ok_events (Blank # es) cur = ok_events es cur"
| "ok_events (Sec s # es) cur = ok_events es s"
| "ok_events (Opt k v # es) cur = (cur \<noteq> [] \<and> ok_events es cur)"
| "ok_events (BadLine # es) cur = False"
| "ok_events (Crash # es) cur = False"

text \<open>Options in the order of the file, the last one of a section and key wins.\<close>

fun last_values ::
    "ini_event list \<Rightarrow> string \<Rightarrow> (string \<times> string \<Rightarrow> string option) \<Rightarrow> string \<times> string \<Rightarrow> string option"
  where
  "last_values [] cur m = m"
| "last_values (Sec s # es) cur m = last_values es s m"
| "last_values (Opt k v # es) cur m = last_values es cur (m((cur, k) \<mapsto> v))"
| "last_values (Blank # es) cur m = last_values es cur m"
| "last_values (BadLine # es) cur m = last_values es cur m"
| "last_values (Crash # es) cur m = last_values es cur m"

lemma ini_wf_touch: "ini_wf secs \<Longrightarrow> ini_wf (smap_touch s [] secs)"
  by (auto simp: ini_wf_def smap_touch_ok smap_touch_lookup split: if_splits)

lemma ini_lookup_touch: "ini_wf secs \<Longrightarrow> ini_lookup (smap_touch s [] secs) = ini_lookup secs"
  by (auto simp: ini_wf_def ini_lookup_def smap_touch_lookup fun_eq_iff split: if_splits)

lemma put_option_spec:
  assumes "ini_wf secs"
  shows "ini_wf (put_option s k v secs)"
    and "ini_lookup (put_option s k v secs) = (ini_lookup secs)((s, k) \<mapsto> v)"
    and "fst ` set (put_option s k v secs) = insert s (fst ` set secs)"
proof -
  let ?t = "smap_touch s [] secs"
  have t: "ini_wf ?t" by (rule ini_wf_touch [OF assms])
  have ok: "smap_ok secs" "smap_ok ?t" using assms t by (simp_all add: ini_wf_def)
  obtain opts where opts: "map_of ?t s = Some opts"
    using ok(1) by (cases "map_of secs s") (simp_all add: smap_touch_lookup)
  with t have o: "smap_ok opts" by (simp add: ini_wf_def)
  have eq: "put_option s k v secs = smap_put s (smap_put k v opts) ?t"
    by (simp add: put_option_def Let_def opts)
  show "ini_wf (put_option s k v secs)"
    using t o ok(2) by (auto simp: eq ini_wf_def smap_put_ok split: if_splits)
  have "ini_lookup (put_option s k v secs) = (ini_lookup ?t)((s, k) \<mapsto> v)"
    using ok(2) o opts by (auto simp: eq ini_lookup_def fun_eq_iff)
  then show "ini_lookup (put_option s k v secs) = (ini_lookup secs)((s, k) \<mapsto> v)"
    by (simp only: ini_lookup_touch [OF assms])
  have "fst ` set ?t = insert s (fst ` set secs)"
    by (cases "map_of secs s") (auto simp: smap_touch_def smap_put_keys map_of_eq_None_iff
        intro: rev_image_eqI dest: map_of_SomeD)
  then show "fst ` set (put_option s k v secs) = insert s (fst ` set secs)"
    by (simp add: eq smap_put_keys)
qed

lemma touch_keys: "fst ` set (smap_touch s d secs) = insert s (fst ` set secs)"
  by (cases "map_of secs s") (auto simp: smap_touch_def smap_put_keys
      intro: rev_image_eqI dest: map_of_SomeD)

text \<open>Once there is an error, or the loop is left early, the file is rejected.\<close>

fun outcome_reader :: "line_outcome \<Rightarrow> ini_reader" where
  "outcome_reader (Next r) = r"
| "outcome_reader (Break r) = r"
| "outcome_reader (Throw e r) = r"

fun accepted :: "line_outcome \<Rightarrow> bool" where
  "accepted (Next r) = (rd_errors r = [])"
| "accepted (Break r) = (rd_errors r = [])"
| "accepted (Throw e r) = False"

lemma read_line_wf:
  assumes "ini_wf (m_sections r)"
  shows "ini_wf (m_sections (outcome_reader (read_line n raw r)))"
proof -
  have pe: "m_sections (pe_append n l r) = m_sections r" for n l r by (simp add: pe_append_def)
  show ?thesis
    using assms put_option_spec(1) [OF assms] ini_wf_touch [OF assms]
    by (auto simp: read_line_def Let_def read_section_line_def read_option_line_def pe
        split: option.splits)
qed

lemma read_line_errors:
  assumes "rd_errors r \<noteq> []"
  shows "rd_errors (outcome_reader (read_line n raw r)) \<noteq> []"
proof -
  have pe: "rd_errors (pe_append n l r) \<noteq> []" for n l r by (simp add: pe_append_def)
  show ?thesis
    using assms by (auto simp: read_line_def Let_def read_section_line_def read_option_line_def pe
        split: option.splits)
qed

lemma read_lines_wf:
  "ini_wf (m_sections r) \<Longrightarrow> ini_wf (m_sections (outcome_reader (read_lines n ls r)))"
proof (induction n ls r rule: read_lines.induct)
  case (2 n l ls r)
  from read_line_wf [OF "2.prems", of "n + 1" l] "2.IH" show ?case
    by (cases "read_line (n + 1) l r") simp_all
qed simp

lemma read_lines_errors: "rd_errors r \<noteq> [] \<Longrightarrow> \<not> accepted (read_lines n ls r)"
proof (induction n ls r rule: read_lines.induct)
  case (2 n l ls r)
  from read_line_errors [OF "2.prems", of "n + 1" l] "2.IH" show ?case
    by (cases "read_line (n + 1) l r") simp_all
qed simp

lemma section_name_nonempty: "section_name l = Some s \<Longrightarrow> s \<noteq> []"
  by (auto simp: section_name_def Let_def split: if_splits)

lemma event_Sec_nonempty: "event_of l = Sec s \<Longrightarrow> s \<noteq> []"
  by (auto simp: event_of_def Let_def split: if_splits option.splits dest: section_name_nonempty)

lemma read_lines_events:
  assumes "ini_wf (m_sections r)" "rd_errors r = []"
    "rd_section r = [] \<or> rd_section r \<in> fst ` set (m_sections r)"
  shows "(accepted (read_lines n ls r) \<longleftrightarrow> ok_events (map event_of ls) (rd_section r)) \<and>
    (ok_events (map event_of ls) (rd_section r) \<longrightarrow>
      (let secs = m_sections (outcome_reader (read_lines n ls r)) in
       ini_lookup secs = last_values (map event_of ls) (rd_section r) (ini_lookup (m_sections r)) \<and>
       fst ` set secs = fst ` set (m_sections r) \<union> {s. Sec s \<in> event_of ` set ls}))"
  using assms
proof (induction n ls r rule: read_lines.induct)
  case (2 n l ls r)
  note step = read_line_event [of "n + 1" l r]
  show ?case
  proof (cases "event_of l")
    case Blank
    with "2.IH" "2.prems" step show ?thesis by (simp add: Let_def)
  next
    case Crash
    with step show ?thesis by simp
  next
    case BadLine
    obtain r' where r': "read_line (n + 1) l r \<in> {Next r', Break r'}" "rd_errors r' \<noteq> []"
      using read_line_bad [OF BadLine] by blast
    then have "\<not> accepted (read_lines n (l # ls) r)" using read_lines_errors by auto
    with BadLine show ?thesis by simp
  next
    case (Sec s)
    let ?r = "r\<lparr>rd_section := s, m_sections := smap_touch s [] (m_sections r)\<rparr>"
    from Sec step have s: "read_line (n + 1) l r = Next ?r" by simp
    have "ini_wf (m_sections ?r)" "rd_errors ?r = []" "rd_section ?r \<in> fst ` set (m_sections ?r)"
      using "2.prems" ini_wf_touch by (simp_all add: touch_keys)
    with "2.IH" [OF s] Sec s ini_lookup_touch [OF "2.prems"(1)] show ?thesis
      by (auto simp: Let_def touch_keys)
  next
    case (Opt k v)
    show ?thesis
    proof (cases "rd_section r = []")
      case True
      with Opt step show ?thesis by simp
    next
      case False
      let ?r = "r\<lparr>m_sections := put_option (rd_section r) k v (m_sections r)\<rparr>"
      from Opt step False have s: "read_line (n + 1) l r = Next ?r" by simp
      note put = put_option_spec [OF "2.prems"(1), of "rd_section r" k v]
      have sec: "rd_section r \<in> fst ` set (m_sections r)" using False "2.prems"(3) by blast
      have "ini_wf (m_sections ?r)" "rd_errors ?r = []" "rd_section ?r \<in> fst ` set (m_sections ?r)"
        using "2.prems" put by simp_all
      note IH = "2.IH" [OF s this(1,2) disjI2 [OF this(3)]]
      have keys: "fst ` set (m_sections ?r) = fst ` set (m_sections r)"
        using put(3) sec by (simp add: insert_absorb)
      have look: "ini_lookup (m_sections ?r) = (ini_lookup (m_sections r))((rd_section r, k) \<mapsto> v)"
        using put(2) by simp
      from IH [unfolded keys look] Opt s False show ?thesis by (simp add: Let_def fun_upd_def)
    qed
  qed
qed simp

section \<open>Written files\<close>

text \<open>A text that survives trimming and carries no comment or line break.\<close>

definition clean :: "string \<Rightarrow> bool" where
  "clean s \<longleftrightarrow> s \<noteq> [] \<and> hd s \<noteq> CHR '' '' \<and> last s \<notin> {CHR '' '', CHR 0x0D, CHR 0x0A} \<and>
     CHR '';'' \<notin> set s \<and> CHR 0x0A \<notin> set s"

definition clean_key :: "string \<Rightarrow> bool" where
  "clean_key k \<longleftrightarrow> clean k \<and> CHR ''='' \<notin> set k \<and> hd k \<noteq> CHR ''[''"

fun section_lines :: "string \<times> (string \<times> string) list \<Rightarrow> string list" where
  "section_lines (s, opts) = (''['' @ s @ '']'') # map (\<lambda>(k, v). k @ ''='' @ v) opts"

definition render :: "ini_sections \<Rightarrow> string" where
  "render secs = concat (map (\<lambda>l. l @ [CHR 0x0A]) (concat (map section_lines secs)))"

definition printable :: "ini_sections \<Rightarrow> bool" where
  "printable secs \<longleftrightarrow> smap_ok secs \<and>
     (\<forall>(s, opts) \<in> set secs. clean s \<and> smap_ok opts \<and> (\<forall>(k, v) \<in> set opts. clean_key k \<and> clean v))"

lemma clean_trim: "clean s \<Longrightarrow> trim s = s"
  by (simp add: clean_def trim_id)

lemma find_char_from_at:
  assumes "c \<notin> set k"
  shows "find_char_from (k @ c # v) c 0 = Some (length k)"
proof (cases "find_char_from (k @ c # v) c 0")
  case None
  then show ?thesis by (simp add: find_char_from_None)
next
  case (Some p)
  note b = find_char_from_bounds [OF Some] and f = find_char_from_first [OF Some]
  have "\<not> p < length k"
  proof
    assume "p < length k"
    with b have "k ! p = c" by (simp add: nth_append)
    with assms \<open>p < length k\<close> show False by (metis nth_mem)
  qed
  moreover have "\<not> length k < p"
  proof
    assume "length k < p"
    then have "c \<in> set (take p (k @ c # v))"
      by (simp add: take_Cons' )
    with f show False by simp
  qed
  ultimately show ?thesis using Some by simp
qed

lemma uncomment_id: "CHR '';'' \<notin> set l \<Longrightarrow> uncomment l = l"
  by (simp add: uncomment_def find_char_from_None [of l "CHR '';''" 0, THEN iffD2])

lemma event_section_line:
  assumes "clean s"
  shows "event_of (''['' @ s @ '']'') = Sec s"
proof -
  let ?l = "''['' @ s @ '']''"
  have "trim ?l = ?l" by (rule trim_id) simp
  moreover have "uncomment ?l = ?l" using assms by (intro uncomment_id) (simp add: clean_def)
  moreover have "section_name ?l = Some s"
    using assms clean_trim [OF assms]
    by (simp add: section_name_def substr_def Let_def nth_append clean_def)
  ultimately show ?thesis by (simp add: event_of_def Let_def)
qed

lemma event_option_line:
  assumes "clean_key k" "clean v"
  shows "event_of (k @ ''='' @ v) = Opt k v"
proof -
  let ?l = "k @ ''='' @ v"
  from assms obtain c k' where k: "k = c # k'" by (cases k) (auto simp: clean_key_def clean_def)
  have "trim ?l = ?l" using assms by (intro trim_id) (auto simp: clean_key_def clean_def)
  moreover have "uncomment ?l = ?l"
    using assms by (intro uncomment_id) (auto simp: clean_key_def clean_def)
  moreover have "option_pair ?l = Some (k, v)"
    using assms clean_trim [of k] clean_trim [of v] find_char_from_at [of "CHR ''=''" k v]
    by (simp add: option_pair_def substr_def clean_key_def clean_def)
  ultimately show ?thesis
    using assms k by (auto simp: event_of_def Let_def clean_key_def clean_def)
qed

lemma getlines_unlines:
  assumes "\<forall>l \<in> set ls. CHR 0x0A \<notin> set l"
  shows "getlines (concat (map (\<lambda>l. l @ [CHR 0x0A]) ls)) = ls"
proof -
  have j: "join [CHR 0x0A] (ls @ [[]]) = concat (map (\<lambda>l. l @ [CHR 0x0A]) ls)"
    by (induction ls rule: induct_list012) auto
  have "split (concat (map (\<lambda>l. l @ [CHR 0x0A]) ls)) CHR 0x0A = ls @ [[]]"
    using assms split_join [where s = "concat (map (\<lambda>l. l @ [CHR 0x0A]) ls)"] j
    by (intro join_unique [where c = "CHR 0x0A"]) auto
  then show ?thesis by (simp add: getlines_def)
qed

lemma section_line_no_break:
  assumes "printable secs" "l \<in> set (concat (map section_lines secs))"
  shows "CHR 0x0A \<notin> set l"
  using assms by (fastforce simp: printable_def clean_key_def clean_def)

text \<open>Reading the option lines of a section appends them to it.\<close>

lemma read_option_lines:
  assumes "smap_ok (o1 @ opts)" "\<forall>(k, v) \<in> set opts. clean_key k \<and> clean v" "s \<noteq> []"
    "\<forall>j \<in> fst ` set secs. j < s"
  shows "\<exists>n'. read_lines n (map (\<lambda>(k, v). k @ ''='' @ v) opts @ rest)
      \<lparr>m_sections = secs @ [(s, o1)], rd_section = s, rd_errors = []\<rparr> =
    read_lines n' rest \<lparr>m_sections = secs @ [(s, o1 @ opts)], rd_section = s, rd_errors = []\<rparr>"
  using assms(1,2)
proof (induction opts arbitrary: o1 n)
  case (Cons kv opts)
  obtain k v where kv: "kv = (k, v)" by (cases kv)
  let ?r = "\<lambda>o1. \<lparr>m_sections = secs @ [(s, o1)], rd_section = s, rd_errors = []\<rparr> :: ini_reader"
  have ev: "event_of (k @ ''='' @ v) = Opt k v"
    using Cons.prems(2) kv by (intro event_option_line) auto
  have last_key: "\<forall>j \<in> fst ` set o1. j < k"
    using Cons.prems(1) kv by (auto simp: smap_ok_def sorted_wrt_append)
  have none: "map_of secs s = None"
    using assms(4) by (auto simp: map_of_eq_None_iff)
  have "put_option s k v (secs @ [(s, o1)]) = secs @ [(s, o1 @ [(k, v)])]"
    using none by (simp add: put_option_def smap_touch_def smap_put_append_again [OF assms(4)]
        smap_put_append [OF last_key] map_add_def)
  then have "read_line (Suc n) (k @ ''='' @ v) (?r o1) = Next (?r (o1 @ [(k, v)]))"
    using read_line_event [of "Suc n" "k @ ''='' @ v" "?r o1"] ev assms(3) by simp
  moreover obtain n' where "read_lines (Suc n) (map (\<lambda>(k, v). k @ ''='' @ v) opts @ rest)
      (?r (o1 @ [(k, v)])) = read_lines n' rest (?r ((o1 @ [(k, v)]) @ opts))"
    using Cons.IH [of "o1 @ [(k, v)]" "Suc n"] Cons.prems kv by auto
  ultimately show ?case using kv by auto
qed auto

lemma read_section_lines:
  assumes "printable (secs0 @ secs)"
  shows "\<exists>n' cur'. read_lines n (concat (map section_lines secs))
      \<lparr>m_sections = secs0, rd_section = cur, rd_errors = []\<rparr> =
    Next \<lparr>m_sections = secs0 @ secs, rd_section = cur', rd_errors = []\<rparr>"
  using assms
proof (induction secs arbitrary: secs0 n cur)
  case (Cons so secs)
  obtain s opts where so: "so = (s, opts)" by (cases so)
  let ?r = "\<lambda>secs0 cur. \<lparr>m_sections = secs0, rd_section = cur, rd_errors = []\<rparr> :: ini_reader"
  from Cons.prems so have s: "clean s" "smap_ok opts" "\<forall>(k, v) \<in> set opts. clean_key k \<and> clean v"
    and less: "\<forall>j \<in> fst ` set secs0. j < s"
    by (auto simp: printable_def smap_ok_def sorted_wrt_append)
  have none: "map_of secs0 s = None" using less by (auto simp: map_of_eq_None_iff)
  have "read_line (Suc n) (''['' @ s @ '']'') (?r secs0 cur) = Next (?r (secs0 @ [(s, [])]) s)"
    using read_line_event [of "Suc n" "''['' @ s @ '']''" "?r secs0 cur"] event_section_line [OF s(1)]
      none by (simp add: smap_touch_def smap_put_append [OF less])
  moreover have "s \<noteq> []" using s(1) by (simp add: clean_def)
  ultimately obtain n1 where "read_lines n (concat (map section_lines (so # secs))) (?r secs0 cur) =
      read_lines n1 (concat (map section_lines secs)) (?r (secs0 @ [(s, opts)]) s)"
    using read_option_lines [of "[]" opts s secs0 "Suc n" "concat (map section_lines secs)"] s less so
    by auto
  with Cons.IH [of "secs0 @ [so]" n1 s] Cons.prems so show ?case by auto
qed auto

section \<open>Numbers\<close>

lemma of_char_digit_int: "d < 10 \<Longrightarrow> (of_char (digit d) :: int) = 48 + int d"
  using of_char_digit [of d] by (metis of_nat_add of_nat_numeral of_nat_of_char)

lemma is_digit_digit: "d < 10 \<Longrightarrow> is_digit (digit d)"
  by (simp add: is_digit_def of_char_digit)

lemma show_nat_digits: "show_nat n \<noteq> [] \<and> (\<forall>c \<in> set (show_nat n). is_digit c)"
proof (induction n rule: show_nat.induct)
  case (1 n)
  then show ?case
    by (subst (1 2) show_nat.simps) (simp add: is_digit_digit)
qed

lemma digits_value_append: "digits_value (ds @ [d]) = 10 * digits_value ds + (of_char d - 48)"
  by (simp add: digits_value_def)

lemma digits_value_show: "digits_value (show_nat n) = int n"
proof (induction n rule: show_nat.induct)
  case (1 n)
  show ?case
  proof (cases "n < 10")
    case True
    then show ?thesis
      by (subst show_nat.simps) (simp add: digits_value_def of_char_digit_int)
  next
    case False
    have "10 * int (n div 10) + int (n mod 10) = int n"
      by (metis mult_div_mod_eq of_nat_add of_nat_mult of_nat_numeral)
    with 1 False have "digits_value (show_nat (n div 10) @ [digit (n mod 10)]) = int n"
      by (simp only: digits_value_append of_char_digit_int mod_less_divisor zero_less_numeral) simp
    with False show ?thesis by (subst show_nat.simps) simp
  qed
qed

lemma digit_no_space: "is_digit c \<Longrightarrow> \<not> is_space c \<and> c \<noteq> CHR ''-'' \<and> c \<noteq> CHR ''+''"
  by (auto simp: is_digit_def is_space_def)

lemma stoi_show_int:
  assumes "- (2 ^ 31) \<le> n" "n < 2 ^ 31"
  shows "stoi (show_int n) = Inr (n, length (show_int n))"
proof -
  have digits: "takeWhile is_digit (show_nat m) = show_nat m" "show_nat m \<noteq> []" for m
    using show_nat_digits [of m] by (simp_all add: takeWhile_eq_all_conv)
  have head: "\<not> is_space (hd (show_nat m))" "hd (show_nat m) \<noteq> CHR ''-''" "hd (show_nat m) \<noteq> CHR ''+''" for m
    using show_nat_digits [of m] digit_no_space hd_in_set [of "show_nat m"] by blast+
  have no_ws: "takeWhile is_space (show_nat m) = []" for m
    using head(1) [of m] digits(2) [of m] by (cases "show_nat m") simp_all
  show ?thesis
  proof (cases "n < 0")
    case True
    have "\<not> is_space CHR ''-''" by (simp add: is_space_def)
    with True assms show ?thesis
      by (simp add: stoi_def show_int_def Let_def digits_value_show digits)
  next
    case False
    with assms head show ?thesis
      by (simp add: stoi_def show_int_def Let_def digits_value_show digits no_ws)
  qed
qed

lemma stoi_error: "stoi s = Inl e \<Longrightarrow> e \<in> {InvalidArgument, OutOfRange}"
  by (auto simp: stoi_def Let_def split: if_splits)

lemma ini_get_error: "ini_get s k d secs = Inl e \<Longrightarrow> e = InvalidArgument"
  by (auto simp: ini_get_def split: option.splits if_splits)

lemma ini_get_lookup: "ini_lookup secs (s, k) = Some v \<Longrightarrow> ini_get s k d secs = Inr v"
  by (auto simp: ini_lookup_def ini_get_def bind_eq_Some_conv)

lemma toupper_char_below:
  assumes "(of_char d :: nat) < 65"
  shows "toupper_char c = d \<longleftrightarrow> c = d"
proof (cases "97 \<le> (of_char c :: nat) \<and> (of_char c :: nat) \<le> 122")
  case True
  then have "(of_char c - 32 :: nat) < 256" by linarith
  with True have "(of_char (toupper_char c) :: nat) = of_char c - 32"
    by (simp add: toupper_char_def of_char_mod_256)
  with True assms show ?thesis by auto
next
  case False
  then show ?thesis by (auto simp: toupper_char_def Let_def)
qed

lemma to_upper_one: "to_upper v = ''1'' \<longleftrightarrow> v = ''1''" "to_upper v = ''0'' \<longleftrightarrow> v = ''0''"
  by (auto simp: to_upper_def map_eq_Cons_conv toupper_char_below)

lemma upper_digit: "to_upper ''1'' = ''1''" "to_upper ''0'' = ''0''"
  by (simp_all only: to_upper_one)

section \<open>Properties\<close>

text \<open>
  Property C3: what reading a file does to a parser. It succeeds exactly when no line is malformed
  and no option precedes the first section line; then every option of the file holds the last
  value given for its section and key, all other options keep their values, and the sections are
  the old ones and those of the file. Unreadable files throw \<open>std::invalid_argument\<close> and change
  nothing. In every case the ordered maps stay well formed.
\<close>

theorem ini_read_semantics:
  assumes "ini_wf secs"
  shows "(let events = map event_of (getlines content); (e, errs, secs') = ini_read (Some content) secs in
      ini_wf secs' \<and> (e = None \<longleftrightarrow> ok_events events []) \<and>
      e \<in> {None, Some LogicError, Some OutOfRange} \<and>
      (ok_events events [] \<longrightarrow>
        ini_lookup secs' = last_values events [] (ini_lookup secs) \<and>
        fst ` set secs' = fst ` set secs \<union> {s. Sec s \<in> set events})) \<and>
    ini_read None secs = (Some InvalidArgument, [], secs)"
proof -
  let ?r = "\<lparr>m_sections = secs, rd_section = [], rd_errors = []\<rparr>"
  let ?out = "read_lines 0 (getlines content) ?r"
  note ev = read_lines_events [of ?r 0 "getlines content"]
  note wf = read_lines_wf [of ?r 0 "getlines content"]
  have throw: "e = OutOfRange" if "?out = Throw e r" for e r
  proof -
    have "read_lines n ls q = Throw e r \<Longrightarrow> e = OutOfRange" for n ls q
    proof (induction n ls q rule: read_lines.induct)
      case (2 n l ls q)
      have "read_line (n + 1) l q = Throw e' r' \<Longrightarrow> e' = OutOfRange" for e' r'
        by (auto simp: read_line_def Let_def read_option_line_def split: if_splits option.splits)
      with 2 show ?case by (auto split: line_outcome.splits)
    qed simp
    with that show ?thesis by blast
  qed
  have "ini_read (Some content) secs =
      (if accepted ?out then None else Some (case ?out of Throw e r \<Rightarrow> e | _ \<Rightarrow> LogicError),
       case ?out of Throw e r \<Rightarrow> [] | _ \<Rightarrow> rd_errors (outcome_reader ?out),
       m_sections (outcome_reader ?out))"
    by (cases ?out) (simp_all add: ini_read_def haveError_def)
  with ev wf assms throw show ?thesis
    by (cases ?out) (auto simp: Let_def ini_read_def)
qed

theorem ini_read_semantics_witness:
  "fst (ini_read (Some ''[a]'') []) = None"
proof -
  have ev: "map event_of (getlines ''[a]'') = [Sec ''a'']"
    using event_section_line [of "''a''"] by (simp add: clean_def getlines_def split_def
        split_char_loop.simps find_char_from.simps)
  from ini_read_semantics [of "[]" "''[a]''"] show ?thesis
    unfolding ev by (simp add: ini_wf_def Let_def split: prod.splits)
qed

text \<open>
  Property C32: writing a configuration line by line and reading it with a fresh parser gives
  exactly the same ordered maps, for names and values that carry no surrounding blanks, comment
  characters or line breaks.
\<close>

theorem ini_roundtrip:
  assumes "printable secs"
  shows "ini_read (Some (render secs)) [] = (None, [], secs)"
proof -
  have lines: "getlines (render secs) = concat (map section_lines secs)"
    unfolding render_def using section_line_no_break [OF assms] by (intro getlines_unlines) blast
  from read_section_lines [of "[]" secs 0 "[]"] assms obtain cur where
    "read_lines 0 (concat (map section_lines secs)) \<lparr>m_sections = [], rd_section = [], rd_errors = []\<rparr> =
      Next \<lparr>m_sections = secs, rd_section = cur, rd_errors = []\<rparr>" by auto
  then show ?thesis by (simp add: ini_read_def lines haveError_def)
qed

theorem ini_roundtrip_witness:
  "ini_read (Some (render [(''db'', [(''host'', ''a b''), (''port'', ''80'')])])) [] =
     (None, [], [(''db'', [(''host'', ''a b''), (''port'', ''80'')])])"
  by (rule ini_roundtrip) (simp add: printable_def clean_key_def clean_def)

text \<open>
  Reading numbers and truth values. A stored decimal number in the range of \<open>int\<close> is
  returned; \<open>getInt\<close> fails only with \<open>std::invalid_argument\<close> or \<open>std::out_of_range\<close>, never with
  the documented \<open>std::domain_error\<close>. \<open>getBool\<close> ignores case, accepts exactly eight spellings and
  throws \<open>std::domain_error\<close> on every other stored value.
\<close>

theorem ini_typed_values:
  assumes "ini_lookup secs (s, k) = Some v"
  shows "(v = show_int n \<and> - (2 ^ 31) \<le> n \<and> n < 2 ^ 31 \<longrightarrow> ini_getInt s k [] secs = Inr n) \<and>
    (\<forall>e. ini_getInt s k d secs = Inl e \<longrightarrow> e \<in> {InvalidArgument, OutOfRange}) \<and>
    ini_getBool s k [] secs =
      (if to_upper v \<in> {''1'', ''TRUE'', ''YES'', ''ON''} then Inr True
       else if to_upper v \<in> {''0'', ''FALSE'', ''NO'', ''OFF''} then Inr False
       else Inl DomainError)"
proof (intro conjI impI allI)
  show "ini_getInt s k [] secs = Inr n" if "v = show_int n \<and> - (2 ^ 31) \<le> n \<and> n < 2 ^ 31"
    using that stoi_show_int [of n] ini_get_lookup [OF assms] by (simp add: ini_getInt_def)
  show "e \<in> {InvalidArgument, OutOfRange}" if "ini_getInt s k d secs = Inl e" for e
    using that stoi_error ini_get_error
    by (fastforce simp: ini_getInt_def bind_result_Inl_iff split: if_splits prod.splits)
  show "ini_getBool s k [] secs =
      (if to_upper v \<in> {''1'', ''TRUE'', ''YES'', ''ON''} then Inr True
       else if to_upper v \<in> {''0'', ''FALSE'', ''NO'', ''OFF''} then Inr False
       else Inl DomainError)"
    using ini_get_lookup [OF assms, of "[]"]
    by (auto simp: ini_getBool_def to_upper_one upper_digit Let_def)
qed

text \<open>
  A line of a carriage return before a comment is neither skipped nor reported: the
  comment's removal leaves a line that \<open>trim\<close> empties, and \<open>at(0)\<close> throws
  \<open>std::out_of_range\<close> through \<open>read\<close>, which documents only \<open>invalid_argument\<close> and \<open>logic_error\<close>.
  A tab before a comment makes the line a format error.
\<close>

theorem ini_read_comment_line_throws:
  "ini_read (Some [CHR 0x0D, CHR '';'', CHR ''c'']) secs = (Some OutOfRange, [], secs) \<and>
   fst (ini_read (Some [CHR 0x09, CHR '';'', CHR ''c'']) secs) = Some LogicError"
  by (simp add: ini_read_def getlines_def split_def split_char_loop.simps find_char_from.simps
      read_line_def trim_eq strip_end_def Let_def substr_def read_option_line_def pe_append_def haveError_def)

end
