(* ===== verification/ResourcePool.thy ===== *)
theory ResourcePool
  imports HkuPrelude "HOL-Library.Multiset"
begin

text \<open>
  \<open>hikyuu/utilities/ResourcePool.h\<close>: \<open>ResourcePool\<close> and \<open>ResourceVersionPool\<close>. Every operation
  holds the pool's mutex, so an operation is one step; a call of \<open>getWaitFor\<close> that waits on the
  condition variable is two (entering the wait, and leaving it by its predicate or its timeout).
  A resource handed out is its value with the identity of the \<open>ResourceCloser\<close> in the shared
  pointer. Creating a resource is user code: its outcome is an argument, \<open>None\<close> when it throws.
\<close>

section \<open>ResourcePool\<close>

record 'r pool =
  m_maxPoolSize :: u64
  m_maxIdelSize :: u64
  m_count :: u64
  m_resourceList :: "'r list"
  m_closer_set :: "nat list"
  next_closer :: nat \<comment> \<open>identity of the next \<open>ResourceCloser\<close>\<close>

definition rp_new :: "u64 \<Rightarrow> u64 \<Rightarrow> 'r pool" where
  "rp_new maxPoolSize maxIdleNum =
     \<lparr>m_maxPoolSize = maxPoolSize, m_maxIdelSize = maxIdleNum, m_count = 0, m_resourceList = [],
      m_closer_set = [], next_closer = 0\<rparr>"

text \<open>The getters; the one of the maximal size returns the idle size.\<close>

definition rp_get_maxPoolSize :: "('r, 'z) pool_scheme \<Rightarrow> u64" where
  "rp_get_maxPoolSize P = m_maxIdelSize P"

definition rp_get_maxIdleSize :: "('r, 'z) pool_scheme \<Rightarrow> u64" where
  "rp_get_maxIdleSize P = m_maxIdelSize P"

definition rp_set_maxPoolSize :: "u64 \<Rightarrow> ('r, 'z) pool_scheme \<Rightarrow> ('r, 'z) pool_scheme" where
  "rp_set_maxPoolSize num P = P\<lparr>m_maxPoolSize := num\<rparr>"

definition rp_set_maxIdleSize :: "u64 \<Rightarrow> ('r, 'z) pool_scheme \<Rightarrow> ('r, 'z) pool_scheme" where
  "rp_set_maxIdleSize num P = P\<lparr>m_maxIdelSize := num\<rparr>"

definition rp_idleCount :: "('r, 'z) pool_scheme \<Rightarrow> nat" where
  "rp_idleCount P = length (m_resourceList P)"

text \<open>\<open>result = ResourcePtr(p, ResourceCloser(this)); m_closer_set.insert(...)\<close>.\<close>

definition hand_out :: "'r \<Rightarrow> ('r, 'z) pool_scheme \<Rightarrow> (nat \<times> 'r) \<times> ('r, 'z) pool_scheme" where
  "hand_out p P =
     (let c = next_closer P in
      ((c, p), P\<lparr>m_closer_set := c # m_closer_set P, next_closer := Suc c\<rparr>))"

definition pop_front :: "('r, 'z) pool_scheme \<Rightarrow> (nat \<times> 'r) \<times> ('r, 'z) pool_scheme" where
  "pop_front P = hand_out (hd (m_resourceList P)) (P\<lparr>m_resourceList := tl (m_resourceList P)\<rparr>)"

definition rp_get ::
    "'r option \<Rightarrow> ('r, 'z) pool_scheme \<Rightarrow> (nat \<times> 'r) option result \<times> ('r, 'z) pool_scheme" where
  "rp_get new P =
     (if m_resourceList P = [] then
        if 0 < m_maxPoolSize P \<and> m_maxPoolSize P \<le> m_count P then (Inr None, P)
        else
          (case new of
             None \<Rightarrow> (Inl CreateResourceException, P)
           | Some p \<Rightarrow>
               let (h, P') = hand_out p (P\<lparr>m_count := m_count P + 1\<rparr>) in (Inr (Some h), P'))
      else let (h, P') = pop_front P in (Inr (Some h), P'))"

text \<open>
  \<open>getWaitFor\<close> up to the wait, and what the wait ends with: \<open>m_cond.wait\<close> returns when its
  predicate holds, \<open>m_cond.wait_for\<close> also after the timeout, with the predicate's value.
\<close>

datatype 'h wait_outcome = Returned "'h result" | Waits

definition rp_getWaitFor ::
    "'r option \<Rightarrow> ('r, 'z) pool_scheme \<Rightarrow> (nat \<times> 'r) wait_outcome \<times> ('r, 'z) pool_scheme" where
  "rp_getWaitFor new P =
     (if m_resourceList P = [] then
        if 0 < m_maxPoolSize P \<and> m_maxPoolSize P \<le> m_count P then (Waits, P)
        else
          (case new of
             None \<Rightarrow> (Returned (Inl CreateResourceException), P)
           | Some p \<Rightarrow>
               let (h, P') = hand_out p (P\<lparr>m_count := m_count P + 1\<rparr>) in (Returned (Inr h), P'))
      else let (h, P') = pop_front P in (Returned (Inr h), P'))"

definition rp_wake :: "('r, 'z) pool_scheme \<Rightarrow> ((nat \<times> 'r) \<times> ('r, 'z) pool_scheme) option" where
  "rp_wake P = (if m_resourceList P \<noteq> [] then Some (pop_front P) else None)"

definition rp_timeout ::
    "('r, 'z) pool_scheme \<Rightarrow> (nat \<times> 'r) result \<times> ('r, 'z) pool_scheme" where
  "rp_timeout P =
     (if m_resourceList P \<noteq> [] then (let (h, P') = pop_front P in (Inr h, P'))
      else (Inl GetResourceTimeoutException, P))"

definition rp_getAndWait ::
    "'r option \<Rightarrow> ('r, 'z) pool_scheme \<Rightarrow> (nat \<times> 'r) wait_outcome \<times> ('r, 'z) pool_scheme" where
  "rp_getAndWait new P = rp_getWaitFor new P"

text \<open>\<open>returnResource\<close>; \<open>None\<close> is a null pointer. Whether waiters are notified is the result.\<close>

definition rp_returnResource ::
    "'r option \<Rightarrow> nat \<Rightarrow> ('r, 'z) pool_scheme \<Rightarrow> bool \<times> ('r, 'z) pool_scheme" where
  "rp_returnResource p closer P =
     (let (notified, P1) =
        (case p of
           Some r \<Rightarrow>
             if length (m_resourceList P) < unat (m_maxIdelSize P)
             then (True, P\<lparr>m_resourceList := m_resourceList P @ [r]\<rparr>)
             else (False, P\<lparr>m_count := m_count P - 1\<rparr>)
         | None \<Rightarrow> (False, P\<lparr>m_count := m_count P - 1\<rparr>))
      in (notified, P1\<lparr>m_closer_set := removeAll closer (m_closer_set P1)\<rparr>))"

fun rp_release_loop :: "'r list \<Rightarrow> u64 \<Rightarrow> 'r list \<times> u64" where
  "rp_release_loop [] cnt = ([], cnt)"
| "rp_release_loop (p # ps) cnt = rp_release_loop ps (cnt - 1)"

definition rp_releaseIdleResource :: "('r, 'z) pool_scheme \<Rightarrow> ('r, 'z) pool_scheme" where
  "rp_releaseIdleResource P =
     (let (l, c) = rp_release_loop (m_resourceList P) (m_count P)
      in P\<lparr>m_resourceList := l, m_count := c\<rparr>)"

text \<open>
  The destructor: the closers it unbinds and the idle resources it deletes. A closer called later
  returns its resource to the pool if it is still bound and deletes it otherwise.
\<close>

definition rp_destroy :: "('r, 'z) pool_scheme \<Rightarrow> nat set \<times> 'r list" where
  "rp_destroy P = (set (m_closer_set P), m_resourceList P)"

datatype closer_action = ReturnToPool | DeleteResource

definition closer_call :: "nat set \<Rightarrow> nat \<Rightarrow> closer_action" where
  "closer_call unbound closer = (if closer \<notin> unbound then ReturnToPool else DeleteResource)"

section \<open>The interface of a pool\<close>

text \<open>
  What a client of a pool relies on. \<open>acquire\<close> (with the way it is called as an argument) hands
  out an idle resource or a new one, the latter only below the maximal size; \<open>ret\<close> puts a resource
  back or destroys it; \<open>other\<close> stands for the operations that hand out nothing: they keep the idle
  resources or release them all.
\<close>

datatype ('a, 'o) client_op = Acquire 'a | GiveBack nat | Other 'o

text \<open>A client keeps the handles it was given; only what it holds can be given back.\<close>

fun client_step ::
    "('a \<Rightarrow> 'p \<Rightarrow> (nat \<times> 'r) option result \<times> 'p) \<Rightarrow> ('r \<Rightarrow> nat \<Rightarrow> 'p \<Rightarrow> 'p) \<Rightarrow> ('o \<Rightarrow> 'p \<Rightarrow> 'p) \<Rightarrow>
     ('a, 'o) client_op \<Rightarrow> (nat \<times> 'r) list \<times> 'p \<Rightarrow> (nat \<times> 'r) list \<times> 'p" where
  "client_step acquire ret other (Acquire a) (hs, P) =
     (case acquire a P of
        (Inr (Some h), P') \<Rightarrow> (h # hs, P')
      | (_, P') \<Rightarrow> (hs, P'))"
| "client_step acquire ret other (GiveBack c) (hs, P) =
     (case map_of hs c of
        None \<Rightarrow> (hs, P)
      | Some r \<Rightarrow> (filter (\<lambda>h. fst h \<noteq> c) hs, ret r c P))"
| "client_step acquire ret other (Other x) (hs, P) = (hs, other x P)"

locale resource_pool =
  fixes idle :: "'p \<Rightarrow> 'r list" and cnt :: "'p \<Rightarrow> u64" and mx :: "'p \<Rightarrow> u64"
    and closers :: "'p \<Rightarrow> nat set" and fresh :: "'p \<Rightarrow> nat"
    and acquire :: "'a \<Rightarrow> 'p \<Rightarrow> (nat \<times> 'r) option result \<times> 'p"
    and ret :: "'r \<Rightarrow> nat \<Rightarrow> 'p \<Rightarrow> 'p"
    and other :: "'o \<Rightarrow> 'p \<Rightarrow> 'p"
  assumes acquire_law: "acquire a P = (res, P') \<Longrightarrow> mx P' = mx P \<and>
      (case res of
         Inr (Some (c, r)) \<Rightarrow> c = fresh P \<and> fresh P' = Suc c \<and> closers P' = insert c (closers P) \<and>
           (idle P = r # idle P' \<and> cnt P' = cnt P \<or>
            idle P = [] \<and> idle P' = [] \<and> cnt P' = cnt P + 1 \<and> (mx P = 0 \<or> cnt P < mx P))
       | _ \<Rightarrow> P' = P)"
    and ret_law: "mx (ret r c P) = mx P \<and> fresh (ret r c P) = fresh P \<and>
      closers (ret r c P) = closers P - {c} \<and>
      (idle (ret r c P) = idle P @ [r] \<and> cnt (ret r c P) = cnt P \<or>
       idle (ret r c P) = idle P \<and> cnt (ret r c P) = cnt P - 1)"
    and other_law: "fresh (other x P) = fresh P \<and> closers (other x P) = closers P \<and>
      (idle (other x P) = idle P \<and> cnt (other x P) = cnt P \<or>
       idle (other x P) = [] \<and> cnt (other x P) = cnt P - word_of_nat (length (idle P)))"
begin

abbreviation step :: "('a, 'o) client_op \<Rightarrow> (nat \<times> 'r) list \<times> 'p \<Rightarrow> (nat \<times> 'r) list \<times> 'p" where
  "step \<equiv> client_step acquire ret other"

definition accounted :: "(nat \<times> 'r) list \<times> 'p \<Rightarrow> bool" where
  "accounted s \<longleftrightarrow> (case s of (hs, P) \<Rightarrow>
     cnt P = word_of_nat (length (idle P) + length hs) \<and> closers P = fst ` set hs \<and>
     distinct (map fst hs) \<and> (\<forall>c \<in> closers P. c < fresh P))"

text \<open>Resources in existence: the idle ones and those handed out.\<close>

definition existing :: "(nat \<times> 'r) list \<times> 'p \<Rightarrow> nat" where
  "existing s = (case s of (hs, P) \<Rightarrow> length (idle P) + length hs)"

lemma length_filter_fst:
  "distinct (map fst hs) \<Longrightarrow> map_of hs c = Some r \<Longrightarrow>
   length hs = Suc (length (filter (\<lambda>h. fst h \<noteq> c) hs))"
proof (induction hs)
  case (Cons h hs)
  show ?case
  proof (cases "fst h = c")
    case True
    with Cons.prems(1) have "c \<notin> fst ` set hs" by simp
    then have "filter (\<lambda>h. fst h \<noteq> c) hs = hs" by (intro filter_True) auto
    with True show ?thesis by simp
  next
    case False
    with Cons show ?thesis by (cases h) simp
  qed
qed simp

lemma accounted_step:
  assumes "accounted s"
  shows "accounted (step e s)"
proof (cases s)
  case (Pair hs P)
  note inv = assms [unfolded accounted_def Pair prod.case]
  show ?thesis
  proof (cases e)
    case (Acquire a)
    obtain res P' where res: "acquire a P = (res, P')" by fastforce
    note law = acquire_law [OF res]
    show ?thesis
    proof (cases "\<exists>h. res = Inr (Some h)")
      case True
      then obtain c r where h: "res = Inr (Some (c, r))" by auto
      with inv law have "c \<notin> fst ` set hs" by auto
      with inv law h res Pair Acquire show ?thesis
        by (auto simp: accounted_def less_Suc_eq algebra_simps)
    next
      case False
      with law have "P' = P" by (auto split: sum.splits option.splits)
      with False inv res Pair Acquire show ?thesis
        by (auto simp: accounted_def split: sum.splits option.splits)
    qed
  next
    case (GiveBack c)
    show ?thesis
    proof (cases "map_of hs c")
      case None
      with GiveBack Pair assms show ?thesis by simp
    next
      case (Some r)
      let ?hs = "filter (\<lambda>h. fst h \<noteq> c) hs"
      have len: "length hs = Suc (length ?hs)"
        using inv Some by (intro length_filter_fst) simp_all
      have "distinct (map fst ?hs)" using inv by (simp add: distinct_map_filter)
      moreover have "fst ` set ?hs = fst ` set hs - {c}" by force
      ultimately show ?thesis
        using inv ret_law [of r c P] Some GiveBack Pair len
        by (auto simp: accounted_def algebra_simps)
    qed
  next
    case (Other x)
    with inv other_law [of x P] Pair show ?thesis
      by (auto simp: accounted_def algebra_simps)
  qed
qed

text \<open>No step makes more resources than the maximal size, if it is set and was not exceeded before.\<close>

lemma bounded_step:
  assumes "accounted s" "0 < mx (snd s)" "existing s \<le> unat (mx (snd s))"
  shows "existing (step e s) \<le> unat (mx (snd s))"
proof (cases s)
  case (Pair hs P)
  note inv = assms [unfolded accounted_def existing_def Pair prod.case snd_conv]
  show ?thesis
  proof (cases e)
    case (Acquire a)
    obtain res P' where res: "acquire a P = (res, P')" by fastforce
    note law = acquire_law [OF res]
    show ?thesis
    proof (cases "\<exists>h. res = Inr (Some h)")
      case True
      then obtain c r where h: "res = Inr (Some (c, r))" by auto
      show ?thesis
      proof (cases "idle P = []")
        case True
        have "length hs < unat (mx P)"
        proof -
          have "cnt P < mx P" using law h True inv(2) by auto
          moreover have "unat (cnt P) = length hs"
            using inv True unat_less_exp [of "mx P"] by (simp add: unat_of_nat_less)
          ultimately show ?thesis by (simp add: word_less_nat_alt)
        qed
        with True law h res Pair Acquire show ?thesis by (auto simp: existing_def)
      next
        case False
        with law h res Pair Acquire inv(3) show ?thesis by (auto simp: existing_def)
      qed
    next
      case False
      with law have "P' = P" by (auto split: sum.splits option.splits)
      with False inv(3) res Pair Acquire show ?thesis
        by (auto simp: existing_def split: sum.splits option.splits)
    qed
  next
    case (GiveBack c)
    show ?thesis
    proof (cases "map_of hs c")
      case None
      with GiveBack Pair inv(3) show ?thesis by (simp add: existing_def)
    next
      case (Some r)
      have "length hs = Suc (length (filter (\<lambda>h. fst h \<noteq> c) hs))"
        using inv(1) Some by (intro length_filter_fst) blast+
      moreover have "length (idle (ret r c P)) \<le> Suc (length (idle P))"
      proof -
        have "idle (ret r c P) = idle P @ [r] \<or> idle (ret r c P) = idle P"
          using ret_law [of r c P] by blast
        then show ?thesis by (elim disjE) simp_all
      qed
      moreover have "existing (step e s) =
          length (idle (ret r c P)) + length (filter (\<lambda>h. fst h \<noteq> c) hs)"
        using Some GiveBack Pair by (simp add: existing_def)
      ultimately show ?thesis using inv(3) Pair by simp
    qed
  next
    case (Other x)
    with other_law [of x P] Pair inv(3) show ?thesis by (auto simp: existing_def)
  qed
qed

lemma step_mx:
  assumes "\<forall>x P. e = Other x \<longrightarrow> mx (other x P) = mx P"
  shows "mx (snd (step e s)) = mx (snd s)"
proof (cases s)
  case (Pair hs P)
  show ?thesis
  proof (cases e)
    case (Acquire a)
    obtain res P' where res: "acquire a P = (res, P')" by fastforce
    with acquire_law [OF res] Acquire Pair show ?thesis
      by (cases res) (auto split: option.splits)
  next
    case (GiveBack c)
    with Pair ret_law show ?thesis by (cases "map_of hs c") simp_all
  next
    case (Other x)
    with Pair assms show ?thesis by simp
  qed
qed

lemma run_accounted: "accounted s \<Longrightarrow> accounted (fold step es s)"
  by (induction es arbitrary: s) (simp_all add: accounted_step)

lemma run_bounded:
  assumes "accounted s" "0 < mx (snd s)" "existing s \<le> unat (mx (snd s))"
    "\<forall>x. Other x \<in> set es \<longrightarrow> (\<forall>P. mx (other x P) = mx P)"
  shows "existing (fold step es s) \<le> unat (mx (snd s))"
  using assms
proof (induction es arbitrary: s)
  case (Cons e es)
  have m: "mx (snd (step e s)) = mx (snd s)" using Cons.prems(4) by (intro step_mx) auto
  have "existing (step e s) \<le> unat (mx (snd s))"
    using Cons.prems by (intro bounded_step) simp_all
  with Cons.IH [of "step e s"] Cons.prems accounted_step m show ?case by auto
qed simp

end

section \<open>ResourcePool as an instance\<close>

text \<open>The ways a resource is obtained, and the operations that hand out nothing.\<close>

datatype 'r acquisition = GetNow "'r option" | GetWaiting "'r option" | WakeUp | TimedOut

datatype pool_other = ReleaseIdle | SetMaxPoolSize u64 | SetMaxIdleSize u64

definition rp_acquire ::
    "'r acquisition \<Rightarrow> ('r, 'z) pool_scheme \<Rightarrow> (nat \<times> 'r) option result \<times> ('r, 'z) pool_scheme" where
  "rp_acquire a P =
     (case a of
        GetNow new \<Rightarrow> rp_get new P
      | GetWaiting new \<Rightarrow>
          (case rp_getWaitFor new P of
             (Returned r, P') \<Rightarrow> (map_sum id Some r, P')
           | (Waits, P') \<Rightarrow> (Inr None, P'))
      | WakeUp \<Rightarrow> (case rp_wake P of None \<Rightarrow> (Inr None, P) | Some (h, P') \<Rightarrow> (Inr (Some h), P'))
      | TimedOut \<Rightarrow> (case rp_timeout P of (r, P') \<Rightarrow> (map_sum id Some r, P')))"

definition rp_ret :: "'r \<Rightarrow> nat \<Rightarrow> ('r, 'z) pool_scheme \<Rightarrow> ('r, 'z) pool_scheme" where
  "rp_ret r c P = snd (rp_returnResource (Some r) c P)"

fun rp_other :: "pool_other \<Rightarrow> ('r, 'z) pool_scheme \<Rightarrow> ('r, 'z) pool_scheme" where
  "rp_other ReleaseIdle P = rp_releaseIdleResource P"
| "rp_other (SetMaxPoolSize n) P = rp_set_maxPoolSize n P"
| "rp_other (SetMaxIdleSize n) P = rp_set_maxIdleSize n P"

lemma rp_release_loop_eq: "rp_release_loop l c = ([], c - word_of_nat (length l))"
  by (induction l c rule: rp_release_loop.induct) (simp_all add: algebra_simps)

lemma pop_front_eq:
  "m_resourceList P \<noteq> [] \<Longrightarrow> pop_front P =
     ((next_closer P, hd (m_resourceList P)),
      P\<lparr>m_resourceList := tl (m_resourceList P), m_closer_set := next_closer P # m_closer_set P,
        next_closer := Suc (next_closer P)\<rparr>)"
  by (simp add: pop_front_def hand_out_def Let_def)

lemmas rp_acquire_defs = rp_acquire_def rp_get_def rp_getWaitFor_def rp_wake_def rp_timeout_def
  hand_out_def Let_def

interpretation rp: resource_pool m_resourceList m_count m_maxPoolSize "\<lambda>P. set (m_closer_set P)"
  next_closer rp_acquire rp_ret rp_other
proof unfold_locales
  fix a and P P' :: "('r, 'z) pool_scheme" and res
  assume "rp_acquire a P = (res, P')"
  then show "m_maxPoolSize P' = m_maxPoolSize P \<and>
      (case res of
         Inr (Some (c, r)) \<Rightarrow> c = next_closer P \<and> next_closer P' = Suc c \<and>
           set (m_closer_set P') = insert c (set (m_closer_set P)) \<and>
           (m_resourceList P = r # m_resourceList P' \<and> m_count P' = m_count P \<or>
            m_resourceList P = [] \<and> m_resourceList P' = [] \<and> m_count P' = m_count P + 1 \<and>
            (m_maxPoolSize P = 0 \<or> m_count P < m_maxPoolSize P))
       | _ \<Rightarrow> P' = P)"
    by (auto simp: rp_acquire_defs pop_front_eq not_le word_gt_0
        split: acquisition.splits option.splits if_splits)
next
  fix r :: 'r and c and P :: "('r, 'z) pool_scheme"
  show "m_maxPoolSize (rp_ret r c P) = m_maxPoolSize P \<and> next_closer (rp_ret r c P) = next_closer P \<and>
      set (m_closer_set (rp_ret r c P)) = set (m_closer_set P) - {c} \<and>
      (m_resourceList (rp_ret r c P) = m_resourceList P @ [r] \<and> m_count (rp_ret r c P) = m_count P \<or>
       m_resourceList (rp_ret r c P) = m_resourceList P \<and> m_count (rp_ret r c P) = m_count P - 1)"
    by (simp add: rp_ret_def rp_returnResource_def)
next
  fix x and P :: "('r, 'z) pool_scheme"
  show "next_closer (rp_other x P) = next_closer P \<and>
      set (m_closer_set (rp_other x P)) = set (m_closer_set P) \<and>
      (m_resourceList (rp_other x P) = m_resourceList P \<and> m_count (rp_other x P) = m_count P \<or>
       m_resourceList (rp_other x P) = [] \<and>
       m_count (rp_other x P) = m_count P - word_of_nat (length (m_resourceList P)))"
    by (cases x) (simp_all add: rp_releaseIdleResource_def rp_release_loop_eq rp_set_maxPoolSize_def
        rp_set_maxIdleSize_def)
qed

text \<open>A client of one pool.\<close>

abbreviation rp_run :: "('r acquisition, pool_other) client_op list \<Rightarrow>
    (nat \<times> 'r) list \<times> ('r, 'z) pool_scheme \<Rightarrow> (nat \<times> 'r) list \<times> ('r, 'z) pool_scheme" where
  "rp_run \<equiv> fold (client_step rp_acquire rp_ret rp_other)"

lemma rp_new_accounted: "rp.accounted ([], rp_new m i)"
  by (simp add: rp.accounted_def rp_new_def)

text \<open>The idle resources stay within their maximal number while it is not changed.\<close>

lemma rp_step_idle:
  assumes "length (m_resourceList (snd s)) \<le> unat (m_maxIdelSize (snd s))"
    "\<forall>n. e \<noteq> Other (SetMaxIdleSize n)"
  shows "length (m_resourceList (snd (client_step rp_acquire rp_ret rp_other e s)))
      \<le> unat (m_maxIdelSize (snd s)) \<and>
    m_maxIdelSize (snd (client_step rp_acquire rp_ret rp_other e s)) = m_maxIdelSize (snd s)"
proof (cases s)
  case (Pair hs P)
  show ?thesis
  proof (cases e)
    case (Acquire a)
    obtain res P' where res: "rp_acquire a P = (res, P')" by fastforce
    then have "length (m_resourceList P') \<le> length (m_resourceList P) \<and>
        m_maxIdelSize P' = m_maxIdelSize P"
      by (auto simp: rp_acquire_defs pop_front_eq
          split: acquisition.splits option.splits if_splits)
    with res Acquire Pair assms show ?thesis by (cases res) (auto split: option.splits)
  next
    case (GiveBack c)
    with Pair assms show ?thesis
      by (cases "map_of hs c") (simp_all add: rp_ret_def rp_returnResource_def)
  next
    case (Other x)
    with Pair assms show ?thesis
      by (cases x) (simp_all add: rp_releaseIdleResource_def rp_release_loop_eq
          rp_set_maxPoolSize_def)
  qed
qed

lemma rp_run_idle:
  assumes "length (m_resourceList (snd s)) \<le> unat (m_maxIdelSize (snd s))"
    "\<forall>n. Other (SetMaxIdleSize n) \<notin> set ops"
  shows "length (m_resourceList (snd (rp_run ops s))) \<le> unat (m_maxIdelSize (snd s))"
  using assms
proof (induction ops arbitrary: s)
  case (Cons e ops)
  have "\<forall>n. e \<noteq> Other (SetMaxIdleSize n)" using Cons.prems(2) by auto
  note step = rp_step_idle [OF Cons.prems(1) this]
  with Cons.IH [of "client_step rp_acquire rp_ret rp_other e s"] Cons.prems(2) show ?case by simp
qed simp

lemma rp_new_empty: "m_maxPoolSize (rp_new m i) = m" "rp.existing ([], rp_new m i) = 0"
  by (simp_all add: rp_new_def rp.existing_def)

section \<open>Properties\<close>

text \<open>
  Property C1: whatever its clients do, a pool's \<open>count()\<close> is the number of idle resources and of
  resources handed out, its closer set holds exactly the closers of the resources handed out, and
  so the destructor unbinds them all: no closer called later returns a resource to a dead pool.
\<close>

theorem rp_accounting:
  assumes "rp_run ops ([], rp_new m i) = (hs, P)"
  shows "m_count P = word_of_nat (rp_idleCount P + length hs) \<and>
    set (m_closer_set P) = fst ` set hs \<and> distinct (map fst hs) \<and>
    (\<forall>(c, r) \<in> set hs. closer_call (fst (rp_destroy P)) c = DeleteResource)"
proof -
  have "rp.accounted (hs, P)"
    using rp.run_accounted [OF rp_new_accounted, of ops m i] assms by simp
  then show ?thesis
    by (force simp: rp.accounted_def rp_idleCount_def closer_call_def rp_destroy_def)
qed

theorem rp_accounting_witness:
  "\<exists>hs P. rp_run [Acquire (GetNow (Some ''db'')), GiveBack 0] ([], rp_new 1 1) = (hs, P) \<and>
     m_count P = word_of_nat (rp_idleCount P + length hs)"
proof -
  obtain hs P where run: "rp_run [Acquire (GetNow (Some ''db'')), GiveBack 0] ([], rp_new 1 1) = (hs, P)"
    by fastforce
  with rp_accounting [OF run] show ?thesis by blast
qed

text \<open>
  While the limits are not changed, a pool never owns more than \<open>maxPoolSize\<close>
  resources (if that is not 0) and never keeps more than \<open>maxIdleNum\<close> idle ones.
\<close>

theorem rp_limits:
  assumes "rp_run ops ([], rp_new m i) = (hs, P)" "0 < m"
    "\<forall>n. Other (SetMaxPoolSize n) \<notin> set ops" "\<forall>n. Other (SetMaxIdleSize n) \<notin> set ops"
  shows "rp_idleCount P + length hs \<le> unat m \<and> rp_idleCount P \<le> unat i"
proof -
  have "\<forall>P. m_maxPoolSize (rp_other x P) = m_maxPoolSize P" if "Other x \<in> set ops" for x
    using that assms(3) by (cases x) (auto simp: rp_releaseIdleResource_def rp_release_loop_eq
        rp_set_maxIdleSize_def)
  then have keep: "\<forall>x. Other x \<in> set ops \<longrightarrow> (\<forall>P. m_maxPoolSize (rp_other x P) = m_maxPoolSize P)"
    by blast
  have "rp.existing (rp_run ops ([], rp_new m i)) \<le> unat m"
    using rp.run_bounded [OF rp_new_accounted _ _ keep, of m i] assms(2) by (simp add: rp_new_empty)
  moreover have "length (m_resourceList (snd (rp_run ops ([], rp_new m i)))) \<le> unat i"
    using rp_run_idle [of "([], rp_new m i)" ops] assms(4) by (simp add: rp_new_def)
  ultimately show ?thesis using assms(1) by (simp add: rp.existing_def rp_idleCount_def)
qed

text \<open>
  A pool without idle resources (\<open>maxIdleNum\<close> 0, documented as releasing every
  resource after use) starves its waiters. Whatever happens to it, a thread in \<open>getAndWait\<close> is
  never woken and one in \<open>getWaitFor\<close> always times out - also when all resources were given back
  and the pool is far from its maximal size, since \<open>returnResource\<close> then destroys the resource
  and wakes nobody.
\<close>

theorem rp_waiter_starves:
  assumes "rp_run ops ([], rp_new m 0) = (hs, P)" "\<forall>n. Other (SetMaxIdleSize n) \<notin> set ops"
  shows "rp_wake P = None \<and> fst (rp_timeout P) = Inl GetResourceTimeoutException"
proof -
  have "length (m_resourceList P) \<le> 0"
    using rp_run_idle [of "([], rp_new m 0)" ops] assms by (simp add: rp_new_def)
  then show ?thesis by (simp add: rp_wake_def rp_timeout_def)
qed

lemma rp_maxPoolSize_getter: "rp_get_maxPoolSize (rp_new m i) = i"
  by (simp add: rp_get_maxPoolSize_def rp_new_def)

end
