(* ===== verification/Parameter.thy ===== *)
theory Parameter
  imports HkuPrelude Complex_Main "HOL-Library.AList"
begin

text \<open>
  \<open>hikyuu/utilities/Parameter.{h,cpp}\<close>: named parameters of several types in a
  \<open>std::unordered_map<std::string, boost::any>\<close>, an association list here. A \<open>boost::any\<close> is a
  value tagged with its type; finite floating-point values are rationals, and \<open>to_float\<close> (the
  conversion of a \<open>double\<close> to \<open>float\<close>) is an argument. The member templates are one definition per
  specialisation. Serialisation and printing (yas, fmt) are not modelled.
\<close>

section \<open>Definitions\<close>

datatype any_type =
  T_int | T_int64 | T_bool | T_double | T_float | T_string | T_Datetime | T_TimeDelta | T_other nat

datatype any =
    A_int int | A_int64 int | A_bool bool | A_double rat | A_float rat | A_string string
  | A_Datetime int | A_TimeDelta int
  | A_other nat nat \<comment> \<open>a type the class does not know, and a value of it\<close>

fun any_typeid :: "any \<Rightarrow> any_type" where
  "any_typeid (A_int n) = T_int"
| "any_typeid (A_int64 n) = T_int64"
| "any_typeid (A_bool b) = T_bool"
| "any_typeid (A_double x) = T_double"
| "any_typeid (A_float x) = T_float"
| "any_typeid (A_string s) = T_string"
| "any_typeid (A_Datetime d) = T_Datetime"
| "any_typeid (A_TimeDelta d) = T_TimeDelta"
| "any_typeid (A_other t v) = T_other t"

type_synonym params = "(string \<times> any) list"

definition support :: "any \<Rightarrow> bool" where
  "support v \<longleftrightarrow> any_typeid v \<in> {T_int, T_bool, T_int64, T_Datetime, T_TimeDelta, T_double, T_float, T_string}"

definition p_have :: "string \<Rightarrow> params \<Rightarrow> bool" where
  "p_have name m \<longleftrightarrow> map_of m name \<noteq> None"

definition p_type :: "string \<Rightarrow> params \<Rightarrow> string result" where
  "p_type name m =
     (case map_of m name of
        None \<Rightarrow> Inl OutOfRange
      | Some v \<Rightarrow> Inr
          (if any_typeid v = T_int \<or> any_typeid v = T_int64 then ''int''
           else if any_typeid v = T_bool then ''bool''
           else if any_typeid v = T_Datetime then ''Datetime''
           else if any_typeid v = T_TimeDelta then ''TimeDelta''
           else if any_typeid v = T_double \<or> any_typeid v = T_float then ''double''
           else if any_typeid v = T_string then ''string''
           else ''Unknow''))"

definition p_names :: "params \<Rightarrow> string list" where
  "p_names m = map fst m"

definition p_clear :: "params \<Rightarrow> params" where
  "p_clear m = []"

definition p_size :: "params \<Rightarrow> nat" where
  "p_size m = length m"

definition p_empty :: "params \<Rightarrow> bool" where
  "p_empty m \<longleftrightarrow> m = []"

text \<open>\<open>get<T>\<close>: the primary template, and the specialisations for \<open>boost::any\<close>, \<open>int\<close>, \<open>float\<close>.\<close>

definition p_get_as :: "any_type \<Rightarrow> string \<Rightarrow> params \<Rightarrow> any result" where
  "p_get_as T name m =
     (case map_of m name of
        None \<Rightarrow> Inl OutOfRange
      | Some v \<Rightarrow> if any_typeid v = T then Inr v else Inl LogicError)"

definition p_get_any :: "string \<Rightarrow> params \<Rightarrow> any result" where
  "p_get_any name m = (case map_of m name of None \<Rightarrow> Inl OutOfRange | Some v \<Rightarrow> Inr v)"

definition p_get_int :: "string \<Rightarrow> params \<Rightarrow> int result" where
  "p_get_int name m =
     (case map_of m name of
        None \<Rightarrow> Inl OutOfRange
      | Some (A_int64 x) \<Rightarrow> if x > 2 ^ 31 - 1 \<or> x < - (2 ^ 31) then Inl OutOfRange else Inr x
      | Some _ \<Rightarrow> Inl LogicError)"

text \<open>\<open>std::numeric_limits<float>::max()\<close> and \<open>min()\<close>: the latter is the least positive normal value.\<close>

definition float_max :: rat where
  "float_max = (2 - 1 / 2 ^ 23) * 2 ^ 127"

definition float_min :: rat where
  "float_min = 1 / 2 ^ 126"

definition p_get_float :: "(rat \<Rightarrow> rat) \<Rightarrow> string \<Rightarrow> params \<Rightarrow> rat result" where
  "p_get_float to_float name m =
     (case map_of m name of
        None \<Rightarrow> Inl OutOfRange
      | Some (A_double x) \<Rightarrow> if x > float_max \<or> x < float_min then Inl OutOfRange else Inr (to_float x)
      | Some _ \<Rightarrow> Inl LogicError)"

fun p_get :: "(rat \<Rightarrow> rat) \<Rightarrow> any_type \<Rightarrow> string \<Rightarrow> params \<Rightarrow> any result" where
  "p_get to_float T_int name m = map_sum id A_int (p_get_int name m)"
| "p_get to_float T_float name m = map_sum id A_float (p_get_float to_float name m)"
| "p_get to_float T name m = p_get_as T name m"

text \<open>\<open>set<T>\<close> likewise; the value's tag is \<open>T\<close>.\<close>

definition p_set_as :: "string \<Rightarrow> any \<Rightarrow> params \<Rightarrow> params result" where
  "p_set_as name v m =
     (case map_of m name of
        None \<Rightarrow> if \<not> support v then Inl LogicError else Inr (AList.update name v m)
      | Some w \<Rightarrow>
          if any_typeid w \<noteq> any_typeid v then Inl LogicError else Inr (AList.update name v m))"

definition p_set_any :: "string \<Rightarrow> any \<Rightarrow> params \<Rightarrow> params result" where
  "p_set_any name v m =
     (case map_of m name of
        None \<Rightarrow> Inr (AList.update name v m)
      | Some w \<Rightarrow>
          if any_typeid w \<noteq> any_typeid v then Inl LogicError else Inr (AList.update name v m))"

definition p_set_int :: "string \<Rightarrow> int \<Rightarrow> params \<Rightarrow> params result" where
  "p_set_int name n m =
     (case map_of m name of
        None \<Rightarrow> Inr (AList.update name (A_int64 n) m)
      | Some w \<Rightarrow>
          if any_typeid w \<noteq> T_int64 then Inl LogicError else Inr (AList.update name (A_int64 n) m))"

definition p_set_float :: "string \<Rightarrow> rat \<Rightarrow> params \<Rightarrow> params result" where
  "p_set_float name x m =
     (case map_of m name of
        None \<Rightarrow> Inr (AList.update name (A_double x) m)
      | Some w \<Rightarrow>
          if any_typeid w \<noteq> T_double then Inl LogicError else Inr (AList.update name (A_double x) m))"

fun p_set :: "string \<Rightarrow> any \<Rightarrow> params \<Rightarrow> params result" where
  "p_set name (A_int n) m = p_set_int name n m"
| "p_set name (A_float x) m = p_set_float name x m"
| "p_set name v m = p_set_as name v m"

text \<open>The members of \<open>PARAMETER_SUPPORT\<close> that do more than forward.\<close>

definition tryGetParam :: "(rat \<Rightarrow> rat) \<Rightarrow> string \<Rightarrow> any \<Rightarrow> params \<Rightarrow> any" where
  "tryGetParam to_float name default_val m =
     (case p_get to_float (any_typeid default_val) name m of Inl e \<Rightarrow> default_val | Inr v \<Rightarrow> v)"

definition initSingleParam :: "(rat \<Rightarrow> rat) \<Rightarrow> params \<Rightarrow> string \<Rightarrow> any \<Rightarrow> params \<Rightarrow> params result" where
  "initSingleParam to_float param name default_value m =
     (if p_have name param
      then bind_result (p_get to_float (any_typeid default_value) name param) (\<lambda>v. p_set name v m)
      else p_set name default_value m)"

definition getParamFromOther ::
    "(rat \<Rightarrow> rat) \<Rightarrow> params \<Rightarrow> string \<Rightarrow> any \<Rightarrow> params \<Rightarrow> (any \<times> params) result" where
  "getParamFromOther to_float other name default_value m =
     bind_result
       (if p_have name other
        then bind_result (p_get to_float (any_typeid default_value) name other) (\<lambda>v. p_set name v m)
        else p_set name default_value m)
       (\<lambda>m'. bind_result (p_get to_float (any_typeid default_value) name m') (\<lambda>v. Inr (v, m')))"

section \<open>Properties\<close>

text \<open>The type under which a value is stored, and what reading it at its own type gives.\<close>

fun stored_type :: "any_type \<Rightarrow> any_type" where
  "stored_type T_int = T_int64"
| "stored_type T_float = T_double"
| "stored_type T = T"

fun read_back :: "any \<Rightarrow> any result" where
  "read_back (A_float x) = (if 0 < x then Inr (A_float x) else Inl OutOfRange)"
| "read_back v = Inr v"

text \<open>Values of the C++ type: \<open>int\<close> has 32 bits, a \<open>float\<close> is zero or normal and converts exactly.\<close>

fun cpp_value :: "(rat \<Rightarrow> rat) \<Rightarrow> any \<Rightarrow> bool" where
  "cpp_value to_float (A_int n) = (- (2 ^ 31) \<le> n \<and> n < 2 ^ 31)"
| "cpp_value to_float (A_float x) =
     (to_float x = x \<and> x \<le> float_max \<and> (0 < x \<longrightarrow> float_min \<le> x))"
| "cpp_value to_float v = True"

lemma float_min_pos: "0 < float_min"
  by (simp add: float_min_def)

lemma p_set_stored:
  assumes "p_set name v m = Inr m'"
  shows "\<exists>w. m' = AList.update name w m \<and> any_typeid w = stored_type (any_typeid v) \<and>
    (cpp_value to_float v \<longrightarrow> p_get to_float (any_typeid v) name m' = read_back v)"
proof (cases v)
  case (A_int n)
  with assms show ?thesis
    by (intro exI [of _ "A_int64 n"]) (auto simp: p_set_int_def p_get_int_def update_conv' split: option.splits if_splits)
next
  case (A_float x)
  with assms float_min_pos show ?thesis
    by (intro exI [of _ "A_double x"]) (auto simp: p_set_float_def p_get_float_def update_conv' split: option.splits if_splits)
qed (use assms in \<open>auto simp: p_set_as_def p_get_as_def update_conv' intro!: exI [of _ v]
    split: option.splits if_splits\<close>)

lemma p_set_fails:
  "p_set name v m = Inl e \<longleftrightarrow> e = LogicError \<and>
     (case map_of m name of None \<Rightarrow> \<not> support v | Some w \<Rightarrow> any_typeid w \<noteq> stored_type (any_typeid v))"
  by (cases v) (auto simp: p_set_int_def p_set_float_def p_set_as_def support_def split: option.splits)

text \<open>
  Setting and getting parameters. \<open>set\<close> throws \<open>std::logic_error\<close> exactly when the
  name exists with another stored type, or is new with an unsupported type, and then nothing
  changes. Otherwise reading the name at the same type gives the value back - except for a
  \<open>float\<close> that is not positive: reading zero or a negative one throws \<open>std::out_of_range\<close>, because
  the range check uses \<open>numeric_limits<float>::min()\<close>. All other names are untouched.
\<close>

theorem param_set_get:
  assumes "cpp_value to_float v"
  shows "(case p_set name v m of
      Inl e \<Rightarrow> e = LogicError \<and>
        (case map_of m name of None \<Rightarrow> \<not> support v
         | Some w \<Rightarrow> any_typeid w \<noteq> stored_type (any_typeid v))
    | Inr m' \<Rightarrow>
        p_get to_float (any_typeid v) name m' =
          (case v of A_float x \<Rightarrow> if 0 < x then Inr v else Inl OutOfRange | _ \<Rightarrow> Inr v) \<and>
        (\<forall>other. other \<noteq> name \<longrightarrow> map_of m' other = map_of m other))"
proof (cases "p_set name v m")
  case (Inl e)
  with p_set_fails [of name v m e] show ?thesis by simp
next
  case (Inr m')
  from p_set_stored [OF Inr] obtain w where
    w: "m' = AList.update name w m" "p_get to_float (any_typeid v) name m' = read_back v"
    using assms by blast
  then have "map_of m' other = map_of m other" if "other \<noteq> name" for other
    using that by (simp add: update_conv')
  with Inr w(2) show ?thesis by (cases v) simp_all
qed

end
