(* ===== verification/VersionPool.thy ===== *)
theory VersionPool
  imports ResourcePool Parameter
begin

text \<open>
  \<open>ResourceVersionPool\<close> of \<open>hikyuu/utilities/ResourcePool.h\<close>: the pool extended by its parameters
  and a version, whose resources carry the version they were created under. The class repeats the
  members of \<open>ResourcePool\<close>; those that are the same text are the same definitions here. Creating a
  resource depends on the current parameters: it is a function from them, \<open>None\<close> when it throws.
\<close>

section \<open>Definitions\<close>

text \<open>\<open>ResourceWithVersion\<close>: a resource and its version.\<close>

type_synonym 'r versioned = "'r \<times> int"

definition getVersion :: "'r versioned \<Rightarrow> int" where
  "getVersion p = snd p"

definition setVersion :: "int \<Rightarrow> 'r versioned \<Rightarrow> 'r versioned" where
  "setVersion version p = (fst p, version)"

record 'r vpool = "'r versioned pool" +
  m_param :: params
  m_version :: int

definition vp_new :: "params \<Rightarrow> u64 \<Rightarrow> u64 \<Rightarrow> 'r vpool" where
  "vp_new param maxPoolSize maxIdleNum =
     \<lparr>m_maxPoolSize = maxPoolSize, m_maxIdelSize = maxIdleNum, m_count = 0, m_resourceList = [],
      m_closer_set = [], next_closer = 0, m_param = param, m_version = 0\<rparr>"

definition vp_get ::
    "(params \<Rightarrow> 'r versioned option) \<Rightarrow> 'r vpool \<Rightarrow> (nat \<times> 'r versioned) option result \<times> 'r vpool" where
  "vp_get create P =
     (if m_resourceList P = [] then
        if 0 < m_maxPoolSize P \<and> m_maxPoolSize P \<le> m_count P then (Inr None, P)
        else
          (case create (m_param P) of
             None \<Rightarrow> (Inl CreateResourceException, P)
           | Some p \<Rightarrow>
               let (h, P') = hand_out (setVersion (m_version P) p) (P\<lparr>m_count := m_count P + 1\<rparr>)
               in (Inr (Some h), P'))
      else let (h, P') = pop_front P in (Inr (Some h), P'))"

definition vp_getWaitFor ::
    "(params \<Rightarrow> 'r versioned option) \<Rightarrow> 'r vpool \<Rightarrow> (nat \<times> 'r versioned) wait_outcome \<times> 'r vpool" where
  "vp_getWaitFor create P =
     (if m_resourceList P = [] then
        if 0 < m_maxPoolSize P \<and> m_maxPoolSize P \<le> m_count P then (Waits, P)
        else
          (case create (m_param P) of
             None \<Rightarrow> (Returned (Inl CreateResourceException), P)
           | Some p \<Rightarrow>
               let (h, P') = hand_out (setVersion (m_version P) p) (P\<lparr>m_count := m_count P + 1\<rparr>)
               in (Returned (Inr h), P'))
      else let (h, P') = pop_front P in (Returned (Inr h), P'))"

text \<open>A resource is taken back only if its version is the pool's.\<close>

definition vp_returnResource ::
    "'r versioned option \<Rightarrow> nat \<Rightarrow> 'r vpool \<Rightarrow> bool \<times> 'r vpool" where
  "vp_returnResource p closer P =
     (let (notified, P1) =
        (case p of
           Some r \<Rightarrow>
             if getVersion r = m_version P \<and> length (m_resourceList P) < unat (m_maxIdelSize P)
             then (True, P\<lparr>m_resourceList := m_resourceList P @ [r]\<rparr>)
             else (False, P\<lparr>m_count := m_count P - 1\<rparr>)
         | None \<Rightarrow> (False, P\<lparr>m_count := m_count P - 1\<rparr>))
      in (notified, P1\<lparr>m_closer_set := removeAll closer (m_closer_set P1)\<rparr>))"

definition vp_haveParam :: "string \<Rightarrow> 'r vpool \<Rightarrow> bool" where
  "vp_haveParam name P = p_have name (m_param P)"

definition vp_getParam :: "(rat \<Rightarrow> rat) \<Rightarrow> any_type \<Rightarrow> string \<Rightarrow> 'r vpool \<Rightarrow> any result" where
  "vp_getParam to_float T name P = p_get to_float T name (m_param P)"

text \<open>
  \<open>setParam\<close>: an unchanged value changes nothing; otherwise the idle resources are released. The
  exceptions of \<open>Parameter\<close> leave the pool as it was.
\<close>

definition vp_setParam :: "(rat \<Rightarrow> rat) \<Rightarrow> string \<Rightarrow> any \<Rightarrow> 'r vpool \<Rightarrow> unit result \<times> 'r vpool" where
  "vp_setParam to_float name v P =
     (case (if p_have name (m_param P)
            then map_sum id (\<lambda>w. w = v) (p_get to_float (any_typeid v) name (m_param P))
            else Inr False) of
        Inl e \<Rightarrow> (Inl e, P)
      | Inr True \<Rightarrow> (Inr (), P)
      | Inr False \<Rightarrow>
          (case p_set name v (m_param P) of
             Inl e \<Rightarrow> (Inl e, P)
           | Inr m' \<Rightarrow>
               (Inr (), rp_releaseIdleResource (P\<lparr>m_param := m', m_version := m_version P + 1\<rparr>))))"

definition vp_setParameter :: "params \<Rightarrow> 'r vpool \<Rightarrow> 'r vpool" where
  "vp_setParameter param P =
     rp_releaseIdleResource (P\<lparr>m_param := param, m_version := m_version P + 1\<rparr>)"

text \<open>\<open>incVersion(int)\<close>: the argument is not used.\<close>

definition vp_incVersion :: "int \<Rightarrow> 'r vpool \<Rightarrow> 'r vpool" where
  "vp_incVersion version P = P\<lparr>m_version := m_version P + 1\<rparr>"

section \<open>The pool interface\<close>

datatype 'r vp_acquisition =
    VGetNow "params \<Rightarrow> 'r versioned option" | VGetWaiting "params \<Rightarrow> 'r versioned option"
  | VWakeUp | VTimedOut

datatype vp_other =
    VBase pool_other | VSetParam string any | VSetParameter params | VIncVersion int

definition vp_acquire ::
    "'r vp_acquisition \<Rightarrow> 'r vpool \<Rightarrow> (nat \<times> 'r versioned) option result \<times> 'r vpool" where
  "vp_acquire a P =
     (case a of
        VGetNow create \<Rightarrow> vp_get create P
      | VGetWaiting create \<Rightarrow>
          (case vp_getWaitFor create P of
             (Returned r, P') \<Rightarrow> (map_sum id Some r, P')
           | (Waits, P') \<Rightarrow> (Inr None, P'))
      | VWakeUp \<Rightarrow> (case rp_wake P of None \<Rightarrow> (Inr None, P) | Some (h, P') \<Rightarrow> (Inr (Some h), P'))
      | VTimedOut \<Rightarrow> (case rp_timeout P of (r, P') \<Rightarrow> (map_sum id Some r, P')))"

definition vp_ret :: "'r versioned \<Rightarrow> nat \<Rightarrow> 'r vpool \<Rightarrow> 'r vpool" where
  "vp_ret r c P = snd (vp_returnResource (Some r) c P)"

fun vp_do_other :: "(rat \<Rightarrow> rat) \<Rightarrow> vp_other \<Rightarrow> 'r vpool \<Rightarrow> 'r vpool" where
  "vp_do_other to_float (VBase x) P = rp_other x P"
| "vp_do_other to_float (VSetParam name v) P = snd (vp_setParam to_float name v P)"
| "vp_do_other to_float (VSetParameter param) P = vp_setParameter param P"
| "vp_do_other to_float (VIncVersion version) P = vp_incVersion version P"

text \<open>The waiting and releasing members are those of \<open>ResourcePool\<close>, and so is the way in.\<close>

lemma vp_acquire_base:
  "vp_acquire a P = rp_acquire
     (case a of
        VGetNow create \<Rightarrow> GetNow (map_option (setVersion (m_version P)) (create (m_param P)))
      | VGetWaiting create \<Rightarrow> GetWaiting (map_option (setVersion (m_version P)) (create (m_param P)))
      | VWakeUp \<Rightarrow> WakeUp
      | VTimedOut \<Rightarrow> TimedOut) P"
  by (auto simp: vp_acquire_def vp_get_def vp_getWaitFor_def rp_acquire_def rp_get_def
      rp_getWaitFor_def hand_out_def Let_def split: vp_acquisition.split option.split)

lemma rp_releaseIdle_eq:
  "rp_releaseIdleResource P =
     P\<lparr>m_resourceList := [], m_count := m_count P - word_of_nat (length (m_resourceList P))\<rparr>"
  by (simp add: rp_releaseIdleResource_def rp_release_loop_eq)

lemmas vp_other_defs = rp_releaseIdle_eq rp_set_maxPoolSize_def rp_set_maxIdleSize_def
  vp_setParam_def vp_setParameter_def vp_incVersion_def

interpretation vp: resource_pool m_resourceList m_count m_maxPoolSize "\<lambda>P. set (m_closer_set P)"
  next_closer vp_acquire vp_ret "vp_do_other to_float" for to_float
proof unfold_locales
  fix a and P P' :: "'r vpool" and res
  assume "vp_acquire a P = (res, P')"
  then show "m_maxPoolSize P' = m_maxPoolSize P \<and>
      (case res of
         Inr (Some (c, r)) \<Rightarrow> c = next_closer P \<and> next_closer P' = Suc c \<and>
           set (m_closer_set P') = insert c (set (m_closer_set P)) \<and>
           (m_resourceList P = r # m_resourceList P' \<and> m_count P' = m_count P \<or>
            m_resourceList P = [] \<and> m_resourceList P' = [] \<and> m_count P' = m_count P + 1 \<and>
            (m_maxPoolSize P = 0 \<or> m_count P < m_maxPoolSize P))
       | _ \<Rightarrow> P' = P)"
    unfolding vp_acquire_base by (rule rp.acquire_law)
next
  fix r :: "'r versioned" and c and P :: "'r vpool"
  show "m_maxPoolSize (vp_ret r c P) = m_maxPoolSize P \<and> next_closer (vp_ret r c P) = next_closer P \<and>
      set (m_closer_set (vp_ret r c P)) = set (m_closer_set P) - {c} \<and>
      (m_resourceList (vp_ret r c P) = m_resourceList P @ [r] \<and> m_count (vp_ret r c P) = m_count P \<or>
       m_resourceList (vp_ret r c P) = m_resourceList P \<and> m_count (vp_ret r c P) = m_count P - 1)"
    by (simp add: vp_ret_def vp_returnResource_def)
next
  fix x and P :: "'r vpool"
  show "next_closer (vp_do_other to_float x P) = next_closer P \<and>
      set (m_closer_set (vp_do_other to_float x P)) = set (m_closer_set P) \<and>
      (m_resourceList (vp_do_other to_float x P) = m_resourceList P \<and>
       m_count (vp_do_other to_float x P) = m_count P \<or>
       m_resourceList (vp_do_other to_float x P) = [] \<and>
       m_count (vp_do_other to_float x P) = m_count P - word_of_nat (length (m_resourceList P)))"
  proof (cases x)
    case (VBase y)
    then show ?thesis using rp.other_law [of y P] by simp
  qed (auto simp: vp_other_defs split: sum.split bool.split)
qed

abbreviation vp_run :: "(rat \<Rightarrow> rat) \<Rightarrow> ('r vp_acquisition, vp_other) client_op list \<Rightarrow>
    (nat \<times> 'r versioned) list \<times> 'r vpool \<Rightarrow> (nat \<times> 'r versioned) list \<times> 'r vpool" where
  "vp_run to_float \<equiv> fold (client_step vp_acquire vp_ret (vp_do_other to_float))"

section \<open>Versions\<close>

definition idle_current :: "'r vpool \<Rightarrow> bool" where
  "idle_current P \<longleftrightarrow> (\<forall>r \<in> set (m_resourceList P). getVersion r = m_version P)"

lemma vp_acquire_version:
  assumes "vp_acquire a P = (res, P')" "idle_current P"
  shows "idle_current P' \<and> m_version P' = m_version P \<and>
    (\<forall>c r. res = Inr (Some (c, r)) \<longrightarrow> getVersion r = m_version P)"
proof -
  have v: "m_version P' = m_version P"
    using assms(1) by (auto simp: vp_acquire_base rp_acquire_defs pop_front_eq
        split: vp_acquisition.splits option.splits if_splits)
  have new: "getVersion r = m_version P" if "res = Inr (Some (c, r))" "m_resourceList P = []" for c r
    using assms(1) that by (auto simp: vp_acquire_base rp_acquire_defs setVersion_def getVersion_def
        split: vp_acquisition.splits option.splits if_splits)
  note law = vp.acquire_law [OF assms(1)]
  show ?thesis
  proof (cases "\<exists>c r. res = Inr (Some (c, r))")
    case True
    then obtain c r where h: "res = Inr (Some (c, r))" by blast
    with law have "m_resourceList P = r # m_resourceList P' \<or>
        m_resourceList P = [] \<and> m_resourceList P' = []" by auto
    then show ?thesis
    proof (elim disjE conjE)
      assume "m_resourceList P = r # m_resourceList P'"
      with assms(2) v h show ?thesis by (auto simp: idle_current_def)
    next
      assume e: "m_resourceList P = []" "m_resourceList P' = []"
      from new [OF h e(1)] e v h show ?thesis by (auto simp: idle_current_def)
    qed
  next
    case False
    with law have "P' = P" by (cases res) (auto split: option.splits)
    with False assms(2) show ?thesis by simp
  qed
qed

lemma vp_ret_version: "idle_current P \<Longrightarrow> idle_current (vp_ret r c P)"
  by (simp add: vp_ret_def vp_returnResource_def idle_current_def)

lemma vp_other_version:
  assumes "idle_current P" "\<forall>n. x \<noteq> VIncVersion n"
  shows "idle_current (vp_do_other to_float x P)"
proof (cases x)
  case (VBase y)
  with assms show ?thesis by (cases y) (simp_all add: idle_current_def vp_other_defs)
qed (use assms in \<open>auto simp: idle_current_def vp_other_defs split: sum.split bool.split\<close>)

lemma vp_run_version:
  assumes "idle_current (snd s)" "\<forall>n. Other (VIncVersion n) \<notin> set ops"
  shows "idle_current (snd (vp_run to_float ops s))"
  using assms
proof (induction ops arbitrary: s)
  case (Cons e ops)
  obtain hs P where s: "s = (hs, P)" by (cases s)
  have "idle_current (snd (client_step vp_acquire vp_ret (vp_do_other to_float) e s))"
  proof (cases e)
    case (Acquire a)
    obtain res P' where res: "vp_acquire a P = (res, P')" by fastforce
    with vp_acquire_version [OF res] Cons.prems(1) s have "idle_current P'" by simp
    with res Acquire s show ?thesis by (cases res) (auto split: option.splits)
  next
    case (GiveBack c)
    with Cons.prems(1) s show ?thesis by (cases "map_of hs c") (simp_all add: vp_ret_version)
  next
    case (Other x)
    with Cons.prems s show ?thesis by (auto intro: vp_other_version)
  qed
  with Cons show ?case by simp
qed simp

lemma vp_new_accounted: "vp.accounted ([], vp_new param m i)"
  by (simp add: vp.accounted_def vp_new_def)

lemma vp_new_empty:
  "m_maxPoolSize (vp_new param m i) = m" "vp.existing ([], vp_new param m i) = 0"
  "idle_current (vp_new param m i)"
  by (simp_all add: vp_new_def vp.existing_def idle_current_def)

section \<open>Properties\<close>

text \<open>
  For every run of a versioned pool, parameter and version changes included,
  \<open>count()\<close> is the number of idle resources and of resources handed out, the closer set holds
  exactly the closers handed out, and while \<open>maxPoolSize\<close> is positive and not changed the pool
  never owns more resources than that.
\<close>

theorem vp_accounting:
  assumes "vp_run to_float ops ([], vp_new param m i) = (hs, P)"
  shows "m_count P = word_of_nat (rp_idleCount P + length hs) \<and>
    set (m_closer_set P) = fst ` set hs \<and> distinct (map fst hs) \<and>
    (0 < m \<and> (\<forall>n. Other (VBase (SetMaxPoolSize n)) \<notin> set ops) \<longrightarrow>
      rp_idleCount P + length hs \<le> unat m)"
proof (intro conjI impI)
  have "vp.accounted (hs, P)"
    using vp.run_accounted [OF vp_new_accounted, of to_float ops param m i] assms by simp
  then show "m_count P = word_of_nat (rp_idleCount P + length hs)"
    "set (m_closer_set P) = fst ` set hs" "distinct (map fst hs)"
    by (auto simp: vp.accounted_def rp_idleCount_def)
  assume m: "0 < m \<and> (\<forall>n. Other (VBase (SetMaxPoolSize n)) \<notin> set ops)"
  have "\<forall>P. m_maxPoolSize (vp_do_other to_float x P) = m_maxPoolSize P" if "Other x \<in> set ops" for x
  proof (cases x)
    case (VBase y)
    with that m show ?thesis by (cases y) (auto simp: vp_other_defs)
  qed (auto simp: vp_other_defs split: sum.split bool.split)
  then have keep: "\<forall>x. Other x \<in> set ops \<longrightarrow>
      (\<forall>P. m_maxPoolSize (vp_do_other to_float x P) = m_maxPoolSize P)" by blast
  have "vp.existing (vp_run to_float ops ([], vp_new param m i)) \<le> unat m"
    using vp.run_bounded [OF vp_new_accounted _ _ keep, of param m i] m by (simp add: vp_new_empty)
  with assms show "rp_idleCount P + length hs \<le> unat m"
    by (simp add: vp.existing_def rp_idleCount_def)
qed

text \<open>
  Property C10: as long as the version is changed through the parameters (\<open>setParam\<close>,
  \<open>setParameter\<close>) and not by \<open>incVersion\<close>, every resource handed out - idle before, new, or
  after a wait - has the pool's current version: none created under older parameters is ever
  handed out again.
\<close>

theorem vp_hands_out_current:
  assumes "vp_run to_float ops ([], vp_new param m i) = (hs, P)"
    "\<forall>n. Other (VIncVersion n) \<notin> set ops" "vp_acquire a P = (Inr (Some (c, r)), P')"
  shows "getVersion r = m_version P' \<and> m_version P' = m_version P"
proof -
  have "idle_current (snd ([], vp_new param m i))" by (simp add: vp_new_empty)
  from vp_run_version [OF this assms(2), of to_float] assms(1) have "idle_current P" by simp
  from vp_acquire_version [OF assms(3) this] show ?thesis by metis
qed

theorem vp_hands_out_current_witness:
  "\<exists>c r P'. vp_acquire (VGetNow (\<lambda>_. Some (''db'', 7))) (vp_setParameter [] (vp_new [] 1 1)) =
     (Inr (Some (c, r)), P') \<and> getVersion r = 1 \<and> m_version P' = 1"
proof -
  let ?P = "vp_setParameter [] (vp_new [] 1 1)"
  have run: "vp_run id [Other (VSetParameter [])] ([], vp_new [] 1 1) = ([], ?P)" by simp
  have v: "m_version ?P = 1" by (simp add: vp_setParameter_def rp_releaseIdle_eq vp_new_def)
  obtain c r P' where acq:
    "vp_acquire (VGetNow (\<lambda>_. Some (''db'', 7))) ?P = (Inr (Some (c, r)), P')"
    by (simp add: vp_acquire_def vp_get_def hand_out_def Let_def vp_setParameter_def
        rp_releaseIdle_eq vp_new_def)
  from vp_hands_out_current [OF run _ acq] v acq show ?thesis by auto
qed

text \<open>
  \<open>incVersion\<close> announces that the resources have a new version but neither uses its
  argument nor releases the idle resources: one created before is handed out after it with the
  old version.
\<close>

theorem vp_incVersion_keeps_idle:
  "case vp_run id [Acquire (VGetNow (\<lambda>_. Some (''db'', 0))), GiveBack 0, Other (VIncVersion 7)]
       ([], vp_new [] 1 1) of
     (hs, P) \<Rightarrow> m_version P = 1 \<and>
       (case vp_acquire (VGetNow (\<lambda>_. None)) P of
          (res, P') \<Rightarrow> res = Inr (Some (1, (''db'', 0))) \<and> m_version P' = 1)"
  by (simp add: vp_acquire_def vp_get_def hand_out_def pop_front_eq Let_def vp_incVersion_def
      vp_new_def vp_ret_def vp_returnResource_def setVersion_def getVersion_def)

end
