(* ===== verification/SQLStatement.thy ===== *)
theory SQLStatement
  imports HkuPrelude
begin

text \<open>
  \<open>db_connect/SQLStatementBase.h\<close>: the base class of a prepared statement. The virtual
  \<open>sub_...\<close> functions, which the SQLite, MySQL and DuckDB drivers implement over their C
  libraries, are the fields of a record, a parameter of every operation; a driver's own state is
  the type \<open>'st\<close>. What the base class does itself is modelled: which \<open>sub_\<close> function an overload
  of \<open>bind\<close> or \<open>getColumn\<close> calls for a C++ type, the conversions between the type and the 64-bit
  or double column, the numbering of a sequence of arguments, and the exceptions passed on or
  swallowed.
\<close>

section \<open>The driver's interface\<close>

text \<open>
  \<open>'d\<close> is \<open>double\<close>, \<open>'t\<close> is \<open>Datetime\<close>. A blob and a text are byte strings; the two overloads of
  \<open>sub_bindBlob\<close> and of \<open>sub_getColumnAsBlob\<close> (string and \<open>vector<char>\<close>) are kept apart, as a
  driver implements both.
\<close>

record ('st, 'd, 't) sql_driver =
  sub_exec :: "'st \<Rightarrow> 'st outcome"
  sub_moveNext :: "'st \<Rightarrow> bool result \<times> 'st"
  sub_getLastRowid :: "'st \<Rightarrow> u64"
  sub_bindNull :: "nat \<Rightarrow> 'st \<Rightarrow> 'st outcome"
  sub_bindInt :: "nat \<Rightarrow> u64 \<Rightarrow> 'st \<Rightarrow> 'st outcome"
  sub_bindDouble :: "nat \<Rightarrow> 'd \<Rightarrow> 'st \<Rightarrow> 'st outcome"
  sub_bindDatetime :: "nat \<Rightarrow> 't \<Rightarrow> 'st \<Rightarrow> 'st outcome"
  sub_bindText :: "nat \<Rightarrow> string \<Rightarrow> 'st \<Rightarrow> 'st outcome"
  sub_bindBlob :: "nat \<Rightarrow> string \<Rightarrow> 'st \<Rightarrow> 'st outcome"
  sub_bindBlobChars :: "nat \<Rightarrow> string \<Rightarrow> 'st \<Rightarrow> 'st outcome"
  sub_getNumColumns :: "'st \<Rightarrow> nat"
  sub_getColumnAsInt64 :: "nat \<Rightarrow> 'st \<Rightarrow> u64 result"
  sub_getColumnAsDouble :: "nat \<Rightarrow> 'st \<Rightarrow> 'd result"
  sub_getColumnAsDatetime :: "nat \<Rightarrow> 'st \<Rightarrow> 't result"
  sub_getColumnAsText :: "nat \<Rightarrow> 'st \<Rightarrow> string result"
  sub_getColumnAsBlob :: "nat \<Rightarrow> 'st \<Rightarrow> string result"
  sub_getColumnAsBlobChars :: "nat \<Rightarrow> 'st \<Rightarrow> string result"

text \<open>
  The conversions the base class relies on: \<open>(float)\<close> of a double, and the serialisation library
  (yas) for the types that have no overload of their own.
\<close>

record ('d, 'o) sql_codec =
  to_float :: "'d \<Rightarrow> 'd"
  yas_save :: "'o \<Rightarrow> string"
  yas_load :: "string \<Rightarrow> 'o result"

section \<open>C++ values and the overloads\<close>

text \<open>
  A variable passed to \<open>bind\<close> or \<open>getColumn\<close>, tagged with its C++ type as overload resolution sees
  it: an integer type is given by its signedness and width,
  \<open>bool\<close> apart (its conversion tests for zero), a \<open>float\<close> is a double that
  \<open>to_float\<close> leaves alone.
\<close>

datatype ('d, 't, 'o) sql_item =
    IntItem bool nat int         \<comment> \<open>signed?, width, value\<close>
  | BoolItem bool
  | DoubleItem 'd
  | FloatItem 'd
  | TextItem string              \<comment> \<open>\<open>std::string\<close>\<close>
  | DatetimeItem 't
  | CharsItem string             \<comment> \<open>\<open>std::vector<char>\<close>\<close>
  | ObjItem 'o                   \<comment> \<open>anything else: serialised\<close>

text \<open>\<open>(T)temp\<close> for an integer type \<open>T\<close>: the value modulo the width.\<close>

definition int_cast :: "bool \<Rightarrow> nat \<Rightarrow> int \<Rightarrow> int" where
  "int_cast sg bits v = (if sg then signed_take_bit (bits - 1) v else take_bit bits v)"

definition int_in_range :: "bool \<Rightarrow> nat \<Rightarrow> int \<Rightarrow> bool" where
  "int_in_range sg bits v =
     (if sg then - (2 ^ (bits - 1)) \<le> v \<and> v < 2 ^ (bits - 1) else 0 \<le> v \<and> v < 2 ^ bits)"

fun bind_item ::
  "('st, 'd, 't) sql_driver \<Rightarrow> ('d, 'o) sql_codec \<Rightarrow> nat \<Rightarrow> ('d, 't, 'o) sql_item \<Rightarrow> 'st \<Rightarrow> 'st outcome"
  where
  "bind_item D C idx (IntItem sg bits v) st = sub_bindInt D idx (word_of_int v) st"
| "bind_item D C idx (BoolItem b) st = sub_bindInt D idx (if b then 1 else 0) st"
| "bind_item D C idx (DoubleItem d) st = sub_bindDouble D idx d st"
| "bind_item D C idx (FloatItem d) st = sub_bindDouble D idx d st"
| "bind_item D C idx (TextItem s) st = sub_bindText D idx s st"
| "bind_item D C idx (DatetimeItem t) st = sub_bindDatetime D idx t st"
| "bind_item D C idx (CharsItem s) st = sub_bindBlobChars D idx s st"
| "bind_item D C idx (ObjItem x) st = sub_bindBlob D idx (yas_save C x) st"

text \<open>\<open>bind(idx)\<close> binds null; \<open>bind(idx, a, b, ...)\<close> binds \<open>a\<close> and goes on at \<open>idx + 1\<close>.\<close>

fun bind_args ::
  "('st, 'd, 't) sql_driver \<Rightarrow> ('d, 'o) sql_codec \<Rightarrow> nat \<Rightarrow> ('d, 't, 'o) sql_item list \<Rightarrow> 'st \<Rightarrow>
   'st outcome"
  where
  "bind_args D C idx [] st = sub_bindNull D idx st"
| "bind_args D C idx [x] st = bind_item D C idx x st"
| "bind_args D C idx (x # y # rest) st =
     then_do (bind_item D C idx x st) (\<lambda>st'. bind_args D C (idx + 1) (y # rest) st')"

text \<open>
  \<open>getColumn(idx, item)\<close>: the new value of the variable. A null blob leaves an object of a
  serialised type as it is; every other exception goes to the caller.
\<close>

fun getColumn_item ::
  "('st, 'd, 't) sql_driver \<Rightarrow> ('d, 'o) sql_codec \<Rightarrow> nat \<Rightarrow> 'st \<Rightarrow> ('d, 't, 'o) sql_item \<Rightarrow>
   ('d, 't, 'o) sql_item result"
  where
  "getColumn_item D C idx st (IntItem sg bits v) =
     bind_result (sub_getColumnAsInt64 D idx st) (\<lambda>w. Inr (IntItem sg bits (int_cast sg bits (sint w))))"
| "getColumn_item D C idx st (BoolItem b) =
     bind_result (sub_getColumnAsInt64 D idx st) (\<lambda>w. Inr (BoolItem (w \<noteq> 0)))"
| "getColumn_item D C idx st (DoubleItem d) =
     bind_result (sub_getColumnAsDouble D idx st) (\<lambda>x. Inr (DoubleItem x))"
| "getColumn_item D C idx st (FloatItem d) =
     bind_result (sub_getColumnAsDouble D idx st) (\<lambda>x. Inr (FloatItem (to_float C x)))"
| "getColumn_item D C idx st (TextItem s) =
     bind_result (sub_getColumnAsText D idx st) (\<lambda>x. Inr (TextItem x))"
| "getColumn_item D C idx st (DatetimeItem t) =
     bind_result (sub_getColumnAsDatetime D idx st) (\<lambda>x. Inr (DatetimeItem x))"
| "getColumn_item D C idx st (CharsItem s) =
     bind_result (sub_getColumnAsBlobChars D idx st) (\<lambda>x. Inr (CharsItem x))"
| "getColumn_item D C idx st (ObjItem x) =
     (case sub_getColumnAsBlob D idx st of
        Inl e \<Rightarrow> if e = NullBlobException then Inr (ObjItem x) else Inl e
      | Inr s \<Rightarrow> bind_result (yas_load C s) (\<lambda>y. Inr (ObjItem y)))"

text \<open>
  \<open>getColumn(idx, a, b, ...)\<close> assigns the variables from left to right: when a column throws, the
  variables before it already have their new values. The second component is the exception.
\<close>

fun getColumn_args ::
  "('st, 'd, 't) sql_driver \<Rightarrow> ('d, 'o) sql_codec \<Rightarrow> nat \<Rightarrow> 'st \<Rightarrow> ('d, 't, 'o) sql_item list \<Rightarrow>
   ('d, 't, 'o) sql_item list \<times> cpp_error option"
  where
  "getColumn_args D C idx st [] = ([], None)"
| "getColumn_args D C idx st (x # rest) =
     (case getColumn_item D C idx st x of
        Inl e \<Rightarrow> (x # rest, Some e)
      | Inr y \<Rightarrow> (let (ys, e) = getColumn_args D C (idx + 1) st rest in (y # ys, e)))"

text \<open>\<open>exec\<close>, \<open>moveNext\<close>, \<open>getLastRowid\<close> and \<open>getNumColumns\<close> are the driver's own.\<close>

definition st_exec :: "('st, 'd, 't) sql_driver \<Rightarrow> 'st \<Rightarrow> 'st outcome" where
  "st_exec D st = sub_exec D st"

definition st_moveNext :: "('st, 'd, 't) sql_driver \<Rightarrow> 'st \<Rightarrow> bool result \<times> 'st" where
  "st_moveNext D st = sub_moveNext D st"

definition st_getLastRowid :: "('st, 'd, 't) sql_driver \<Rightarrow> 'st \<Rightarrow> u64" where
  "st_getLastRowid D st = sub_getLastRowid D st"

definition st_getNumColumns :: "('st, 'd, 't) sql_driver \<Rightarrow> 'st \<Rightarrow> nat" where
  "st_getNumColumns D st = sub_getNumColumns D st"

end
