(* ===== verification/TableSchema.thy ===== *)
theory TableSchema
  imports SQLStatement
begin

text \<open>
  What the macros of \<open>db_connect/TableMacro.h\<close> add to a class, as a record: each macro of
  \<open>TableBind\<close>, \<open>TableNoAutoId\<close> and \<open>ColTableBind\<close> is a definition that yields such a record from
  the macro's arguments. Here are the objects of the class, the statements of the generated move
  operations, and, as the reference the macros are compared with, one schema per family over a
  list of fields of any length, with a reader of the SQL texts.
\<close>

section \<open>Objects\<close>

text \<open>
  A bound object: its row id (\<open>m_id\<close>, or \<open>m_rowid\<close> in the family without automatic id) and its
  members by name.
\<close>

record ('d, 't, 'o) table_obj =
  m_id :: u64
  member :: "string \<Rightarrow> ('d, 't, 'o) sql_item"

text \<open>An argument of \<open>st->bind\<close> or \<open>st->getColumn\<close> in a macro: the id or a field.\<close>

datatype mref = IdRef | Fld string

fun get_ref :: "('d, 't, 'o) table_obj \<Rightarrow> mref \<Rightarrow> ('d, 't, 'o) sql_item" where
  "get_ref x IdRef = IntItem False 64 (uint (m_id x))"
| "get_ref x (Fld f) = member x f"

fun set_ref :: "mref \<Rightarrow> ('d, 't, 'o) sql_item \<Rightarrow> ('d, 't, 'o) table_obj \<Rightarrow> ('d, 't, 'o) table_obj" where
  "set_ref IdRef (IntItem sg bits v) x = x\<lparr>m_id := word_of_int v\<rparr>"
| "set_ref IdRef i x = x"
| "set_ref (Fld f) i x = x\<lparr>member := (member x)(f := i)\<rparr>"

text \<open>\<open>st->bind(idx, a, b, ...)\<close> and \<open>st->getColumn(idx, a, b, ...)\<close> on members of an object.\<close>

definition st_bind ::
  "nat \<Rightarrow> mref list \<Rightarrow> ('st, 'd, 't) sql_driver \<Rightarrow> ('d, 'o) sql_codec \<Rightarrow> ('d, 't, 'o) table_obj \<Rightarrow> 'st \<Rightarrow>
   'st outcome" where
  "st_bind idx rs D C x st = bind_args D C idx (map (get_ref x) rs) st"

definition st_getColumn ::
  "nat \<Rightarrow> mref list \<Rightarrow> ('st, 'd, 't) sql_driver \<Rightarrow> ('d, 'o) sql_codec \<Rightarrow> 'st \<Rightarrow> ('d, 't, 'o) table_obj \<Rightarrow>
   ('d, 't, 'o) table_obj \<times> cpp_error option" where
  "st_getColumn idx rs D C st x =
     (let (items, e) = getColumn_args D C idx st (map (get_ref x) rs)
      in (fold (\<lambda>(r, i). set_ref r i) (zip rs items) x, e))"

text \<open>Two statements of a body in sequence.\<close>

definition bind_then where
  "bind_then f g D C x st = then_do (f D C x st) (\<lambda>st'. g D C x st')"

definition getColumn_then where
  "getColumn_then f g D C st x =
     (case f D C st x of (x', None) \<Rightarrow> g D C st x' | (x', Some e) \<Rightarrow> (x', Some e))"

section \<open>Move statements\<close>

text \<open>
  The statements of the generated move constructor and move assignment, on the pair of the object
  written (\<open>this\<close>) and the one moved from (\<open>rv\<close>). What \<open>std::move\<close> leaves in a member is a
  parameter \<open>mv\<close>.
\<close>

type_synonym ('d, 't, 'o) move_state = "('d, 't, 'o) table_obj \<times> ('d, 't, 'o) table_obj"

fun copy_id :: "('d, 't, 'o) move_state \<Rightarrow> ('d, 't, 'o) move_state" where
  "copy_id (this, rv) = (this\<lparr>m_id := m_id rv\<rparr>, rv)"

fun reset_id :: "('d, 't, 'o) move_state \<Rightarrow> ('d, 't, 'o) move_state" where
  "reset_id (this, rv) = (this, rv\<lparr>m_id := 0\<rparr>)"

fun move_field ::
  "(('d, 't, 'o) sql_item \<Rightarrow> ('d, 't, 'o) sql_item) \<Rightarrow> string \<Rightarrow> ('d, 't, 'o) move_state \<Rightarrow>
   ('d, 't, 'o) move_state" where
  "move_field mv f (this, rv) =
     (this\<lparr>member := (member this)(f := member rv f)\<rparr>,
      rv\<lparr>member := (member rv)(f := mv (member rv f))\<rparr>)"

fun run_stmts :: "('s \<Rightarrow> 's) list \<Rightarrow> 's \<Rightarrow> 's" where
  "run_stmts [] s = s"
| "run_stmts (c # cs) s = run_stmts cs (c s)"

section \<open>The class\<close>

text \<open>
  What a macro declares; \<open>None\<close> where it declares nothing, or, for a move assignment, where the
  text is not a well-formed function. \<open>df\<close> gives the values the member initialisers of the class
  itself produce.
\<close>

record ('st, 'd, 't, 'o) table_class =
  default_ctor :: "((string \<Rightarrow> ('d, 't, 'o) sql_item) \<Rightarrow> ('d, 't, 'o) table_obj) option"
  move_ctor :: "((('d, 't, 'o) sql_item \<Rightarrow> ('d, 't, 'o) sql_item) \<Rightarrow> (string \<Rightarrow> ('d, 't, 'o) sql_item) \<Rightarrow>
     ('d, 't, 'o) table_obj \<Rightarrow> ('d, 't, 'o) move_state) option"
  move_assign :: "((('d, 't, 'o) sql_item \<Rightarrow> ('d, 't, 'o) sql_item) \<Rightarrow> bool \<Rightarrow>
     ('d, 't, 'o) move_state \<Rightarrow> ('d, 't, 'o) move_state) option"
  valid :: "('d, 't, 'o) table_obj \<Rightarrow> bool"
  getId :: "(('d, 't, 'o) table_obj \<Rightarrow> u64) option"
  setId :: "(u64 \<Rightarrow> ('d, 't, 'o) table_obj \<Rightarrow> ('d, 't, 'o) table_obj) option"
  getRowid :: "('d, 't, 'o) table_obj \<Rightarrow> u64"
  setRowid :: "u64 \<Rightarrow> ('d, 't, 'o) table_obj \<Rightarrow> ('d, 't, 'o) table_obj"
  getIndexFieldName :: "string option"
  getTableName :: string
  getInsertSQL :: "string option"
  getUpdateSQL :: "string option"
  getSelectSQL :: string
  save :: "(('st, 'd, 't) sql_driver \<Rightarrow> ('d, 'o) sql_codec \<Rightarrow> ('d, 't, 'o) table_obj \<Rightarrow> 'st \<Rightarrow>
     'st outcome) option"
  update :: "(('st, 'd, 't) sql_driver \<Rightarrow> ('d, 'o) sql_codec \<Rightarrow> ('d, 't, 'o) table_obj \<Rightarrow> 'st \<Rightarrow>
     'st outcome) option"
  load :: "('st, 'd, 't) sql_driver \<Rightarrow> ('d, 'o) sql_codec \<Rightarrow> 'st \<Rightarrow> ('d, 't, 'o) table_obj \<Rightarrow>
     ('d, 't, 'o) table_obj \<times> cpp_error option"

section \<open>The schemas\<close>

text \<open>SQL texts of the three forms the macros produce, over already quoted names.\<close>

fun sep_by :: "string \<Rightarrow> string list \<Rightarrow> string" where
  "sep_by sep [] = []"
| "sep_by sep [x] = x"
| "sep_by sep (x # y # ys) = x @ sep @ sep_by sep (y # ys)"

definition quote :: "char \<Rightarrow> string \<Rightarrow> string" where
  "quote q s = q # s @ [q]"

definition insert_sql :: "string \<Rightarrow> string \<Rightarrow> string list \<Rightarrow> string \<Rightarrow> string" where
  "insert_sql table first cols params =
     ''insert into '' @ table @ '' ('' @ first @ sep_by '','' cols @ '') values ('' @ params @ '')''"

definition update_sql :: "string \<Rightarrow> string list \<Rightarrow> string \<Rightarrow> string" where
  "update_sql table cols idcol =
     ''update '' @ table @ '' set '' @ sep_by '','' (map (\<lambda>c. c @ ''=?'') cols) @ '' where '' @
     idcol @ ''=?''"

definition select_sql :: "string \<Rightarrow> string list \<Rightarrow> string" where
  "select_sql table cols = ''select '' @ sep_by '','' cols @ '' from '' @ table"

definition params_sql :: "nat \<Rightarrow> string" where
  "params_sql n = sep_by '','' (replicate n ''?'')"

text \<open>The move operations every class with an automatic id gets.\<close>

definition schema_move_ctor where
  "schema_move_ctor fs = (\<lambda>mv df rv.
     run_stmts ([copy_id] @ map (move_field mv) fs @ [reset_id]) (\<lparr>m_id = 0, member = df\<rparr>, rv))"

definition schema_move_assign where
  "schema_move_assign fs = (\<lambda>mv same p.
     if same then p else run_stmts ([copy_id] @ map (move_field mv) fs @ [reset_id]) p)"

text \<open>
  The class of \<open>TABLE_BIND\<close> with fields \<open>fs\<close>. Without fields there is nothing to insert or update:
  the macro declares neither text and neither function.
\<close>

definition table_schema :: "string \<Rightarrow> string list \<Rightarrow> ('st, 'd, 't, 'o) table_class" where
  "table_schema table fs =
     (let T = quote CHR ''`'' table; cols = map (quote CHR ''`'') fs; idcol = quote CHR ''`'' ''id'';
          bound = (\<lambda>x. if fs = [] then None else Some x)
      in \<lparr>default_ctor = Some (\<lambda>df. \<lparr>m_id = 0, member = df\<rparr>),
          move_ctor = Some (schema_move_ctor fs),
          move_assign = Some (schema_move_assign fs),
          valid = (\<lambda>x. m_id x \<noteq> 0),
          getId = Some m_id, setId = Some (\<lambda>i x. x\<lparr>m_id := i\<rparr>),
          getRowid = m_id, setRowid = (\<lambda>i x. x\<lparr>m_id := i\<rparr>),
          getIndexFieldName = None,
          getTableName = table,
          getInsertSQL = bound (insert_sql T [] cols (params_sql (length fs))),
          getUpdateSQL = bound (update_sql T cols idcol),
          getSelectSQL = select_sql T (idcol # cols),
          save = (if fs = [] then None else Some (st_bind 0 (map Fld fs))),
          update = (if fs = [] then None else Some (st_bind 0 (map Fld fs @ [IdRef]))),
          load = st_getColumn 0 (IdRef # map Fld fs)\<rparr>)"

text \<open>The class of \<open>TABLE_NO_AUTOID_BIND\<close>, its row id column called \<open>rowid\<close>.\<close>

definition no_autoid_schema :: "string \<Rightarrow> string \<Rightarrow> string list \<Rightarrow> ('st, 'd, 't, 'o) table_class" where
  "no_autoid_schema rowid table fs =
     (let T = quote CHR ''`'' table; cols = map (quote CHR ''`'') fs
      in \<lparr>default_ctor = None, move_ctor = None, move_assign = None,
          valid = (\<lambda>x. m_id x \<noteq> 0),
          getId = None, setId = None,
          getRowid = m_id, setRowid = (\<lambda>i x. x\<lparr>m_id := i\<rparr>),
          getIndexFieldName = None,
          getTableName = table,
          getInsertSQL = Some (insert_sql T [] cols (params_sql (length fs))),
          getUpdateSQL = Some (update_sql T cols (quote CHR ''`'' rowid)),
          getSelectSQL = select_sql T cols,
          save = Some (st_bind 0 (map Fld fs)),
          update = Some (st_bind 0 (map Fld fs @ [IdRef])),
          load = st_getColumn 0 (map Fld fs)\<rparr>)"

text \<open>
  The class of \<open>COL_TABLE_BIND\<close>: the id is a column of the insertion, whose placeholder list is a
  parameter here; \<open>idx\<close> is the index field the macro declares and \<open>assigned\<close> whether its move
  assignment is a function.
\<close>

definition col_schema ::
  "string \<Rightarrow> string option \<Rightarrow> bool \<Rightarrow> string \<Rightarrow> string list \<Rightarrow> ('st, 'd, 't, 'o) table_class" where
  "col_schema params idx assigned table fs =
     (let T = quote CHR 0x22 table; cols = map (quote CHR 0x22) fs; idcol = quote CHR 0x22 ''id'';
          bound = (\<lambda>x. if fs = [] then None else Some x)
      in \<lparr>default_ctor = Some (\<lambda>df. \<lparr>m_id = 0, member = df\<rparr>),
          move_ctor = Some (schema_move_ctor fs),
          move_assign = (if assigned then Some (schema_move_assign fs) else None),
          valid = (\<lambda>x. m_id x \<noteq> 0),
          getId = Some m_id, setId = Some (\<lambda>i x. x\<lparr>m_id := i\<rparr>),
          getRowid = m_id, setRowid = (\<lambda>i x. x\<lparr>m_id := i\<rparr>),
          getIndexFieldName = idx,
          getTableName = table,
          getInsertSQL = bound (insert_sql T ''id, '' cols params),
          getUpdateSQL = bound (update_sql T cols idcol),
          getSelectSQL = select_sql T (idcol # cols),
          save = (if fs = [] then None else Some (st_bind 0 (IdRef # map Fld fs))),
          update = (if fs = [] then None else Some (st_bind 0 (map Fld fs @ [IdRef]))),
          load = st_getColumn 0 (IdRef # map Fld fs)\<rparr>)"

lemmas table_schema_defs = table_schema_def no_autoid_schema_def col_schema_def schema_move_ctor_def
  schema_move_assign_def quote_def insert_sql_def update_sql_def select_sql_def params_sql_def

section \<open>Reading the SQL texts\<close>

text \<open>
  The quoted identifiers of an SQL text, in order, and the number of its placeholders: a question
  mark counts outside quotes only. The second argument is \<open>None\<close> outside quotes and the
  characters read so far, reversed, inside.
\<close>

fun sql_scan :: "char \<Rightarrow> string option \<Rightarrow> string \<Rightarrow> string list \<times> nat" where
  "sql_scan q m [] = ([], 0)"
| "sql_scan q None (c # s) =
     (if c = q then sql_scan q (Some []) s
      else let (ids, n) = sql_scan q None s in (ids, if c = CHR ''?'' then n + 1 else n))"
| "sql_scan q (Some acc) (c # s) =
     (if c = q then let (ids, n) = sql_scan q None s in (rev acc # ids, n)
      else sql_scan q (Some (c # acc)) s)"

definition sql_idents :: "char \<Rightarrow> string \<Rightarrow> string list" where
  "sql_idents q s = fst (sql_scan q None s)"

definition sql_params :: "char \<Rightarrow> string \<Rightarrow> nat" where
  "sql_params q s = snd (sql_scan q None s)"

lemma sql_scan_inside:
  "q \<notin> set name \<Longrightarrow>
   sql_scan q (Some acc) (name @ q # s) =
     (let (ids, n) = sql_scan q None s in ((rev acc @ name) # ids, n))"
  by (induction name arbitrary: acc) (auto split: prod.split)

lemma sql_scan_quote:
  "q \<notin> set name \<Longrightarrow>
   sql_scan q None (quote q name @ s) = (let (ids, n) = sql_scan q None s in (name # ids, n))"
  by (simp add: quote_def sql_scan_inside)

lemma sql_scan_Nil [simp]: "sql_idents q [] = []" "sql_params q [] = 0"
  by (simp_all add: sql_idents_def sql_params_def)

lemma sql_scan_Cons [simp]:
  "c \<noteq> q \<Longrightarrow> sql_idents q (c # s) = sql_idents q s"
  "c \<noteq> q \<Longrightarrow> sql_params q (c # s) = (if c = CHR ''?'' then 1 else 0) + sql_params q s"
  by (simp_all add: sql_idents_def sql_params_def split: prod.split)

lemma sql_scan_quoted [simp]:
  "q \<notin> set n \<Longrightarrow> sql_idents q (quote q n @ s) = n # sql_idents q s"
  "q \<notin> set n \<Longrightarrow> sql_params q (quote q n @ s) = sql_params q s"
  by (simp_all add: sql_idents_def sql_params_def sql_scan_quote split: prod.split)

lemma sql_scan_plain:
  "q \<notin> set p \<Longrightarrow> sql_idents q (p @ s) = sql_idents q s"
  "q \<notin> set p \<Longrightarrow> sql_params q (p @ s) = length (filter ((=) CHR ''?'') p) + sql_params q s"
  by (induction p) auto

lemma sep_by_Cons: "sep_by sep (x # xs) = x @ (if xs = [] then [] else sep @ sep_by sep xs)"
  by (cases xs) simp_all

text \<open>A comma-separated list of quoted names, each followed by the same unquoted text.\<close>

lemma sql_scan_sep_by:
  assumes "q \<noteq> CHR '',''" "q \<notin> set after" "\<forall>f \<in> set fs. q \<notin> set f"
  shows "sql_idents q (sep_by '','' (map (\<lambda>f. quote q f @ after) fs) @ s) = fs @ sql_idents q s"
    and "sql_params q (sep_by '','' (map (\<lambda>f. quote q f @ after) fs) @ s) =
           length fs * length (filter ((=) CHR ''?'') after) + sql_params q s"
  using assms by (induction fs) (simp_all add: sep_by_Cons sql_scan_plain)

lemmas sql_scan_cols = sql_scan_sep_by [where after = "[]", simplified]

lemma params_sql_scan:
  assumes "q \<noteq> CHR ''?''" "q \<noteq> CHR '',''"
  shows "sql_idents q (params_sql n @ s) = sql_idents q s"
    and "sql_params q (params_sql n @ s) = n + sql_params q s"
  using assms unfolding params_sql_def by (induction n) (simp_all add: sep_by_Cons)

text \<open>What a reader finds in the three texts.\<close>

lemma insert_sql_scan:
  assumes "q \<notin> set ''?,insert into () values''" "q \<notin> set first" "q \<notin> set table" "\<forall>f \<in> set fs. q \<notin> set f"
  shows "sql_idents q (insert_sql (quote q table) first (map (quote q) fs) ps) =
           table # fs @ sql_idents q (ps @ '')'')"
    and "sql_params q (insert_sql (quote q table) first (map (quote q) fs) ps) =
           length (filter ((=) CHR ''?'') first) + sql_params q (ps @ '')'')"
  using assms unfolding insert_sql_def
  by (auto simp: sql_scan_cols sql_scan_plain)

lemma update_sql_scan:
  assumes "q \<notin> set ''?,update set where=''" "q \<notin> set table" "q \<notin> set idcol" "\<forall>f \<in> set fs. q \<notin> set f"
  shows "sql_idents q (update_sql (quote q table) (map (quote q) fs) (quote q idcol)) =
           table # fs @ [idcol]"
    and "sql_params q (update_sql (quote q table) (map (quote q) fs) (quote q idcol)) = length fs + 1"
  using assms unfolding update_sql_def map_map o_def
  by (auto simp: sql_scan_sep_by)

lemma select_sql_scan:
  assumes "q \<notin> set '',select from''" "q \<notin> set table" "\<forall>f \<in> set fs. q \<notin> set f"
  shows "sql_idents q (select_sql (quote q table) (map (quote q) fs)) = fs @ [table]"
  using assms sql_scan_quoted(1) [of q table "[]"] unfolding select_sql_def
  by (auto simp: sql_scan_cols)

section \<open>A driver that stores what it is given\<close>

text \<open>
  The contract of the \<open>sub_bind...\<close> functions for the first \<open>n\<close> parameters of a statement and of
  the \<open>sub_getColumn...\<close> functions on a row, over the values SQL knows: \<open>bound st i\<close> is the value
  parameter \<open>i\<close> of \<open>st\<close> is bound to, \<open>cell st i\<close> the value in column \<open>i\<close> of the current row.
\<close>

datatype ('d, 't) sqlval =
    SqlNull | SqlInt u64 | SqlDouble 'd | SqlDatetime 't | SqlText string | SqlBlob string

definition binds_to where
  "binds_to bound i v st r \<longleftrightarrow> (\<exists>st'. r = (None, st') \<and> bound st' = (bound st)(i := v))"

definition driver_binds ::
  "('st, 'd, 't) sql_driver \<Rightarrow> nat \<Rightarrow> ('st \<Rightarrow> nat \<Rightarrow> ('d, 't) sqlval) \<Rightarrow> bool" where
  "driver_binds D n bound \<longleftrightarrow> (\<forall>i < n. \<forall>st.
     (\<forall>w. binds_to bound i (SqlInt w) st (sub_bindInt D i w st)) \<and>
     (\<forall>d. binds_to bound i (SqlDouble d) st (sub_bindDouble D i d st)) \<and>
     (\<forall>t. binds_to bound i (SqlDatetime t) st (sub_bindDatetime D i t st)) \<and>
     (\<forall>s. binds_to bound i (SqlText s) st (sub_bindText D i s st)) \<and>
     (\<forall>s. binds_to bound i (SqlBlob s) st (sub_bindBlob D i s st)) \<and>
     (\<forall>s. binds_to bound i (SqlBlob s) st (sub_bindBlobChars D i s st)))"

definition driver_reads ::
  "('st, 'd, 't) sql_driver \<Rightarrow> ('st \<Rightarrow> nat \<Rightarrow> ('d, 't) sqlval) \<Rightarrow> bool" where
  "driver_reads D cell \<longleftrightarrow> (\<forall>i st.
     (\<forall>w. cell st i = SqlInt w \<longrightarrow> sub_getColumnAsInt64 D i st = Inr w) \<and>
     (\<forall>d. cell st i = SqlDouble d \<longrightarrow> sub_getColumnAsDouble D i st = Inr d) \<and>
     (\<forall>t. cell st i = SqlDatetime t \<longrightarrow> sub_getColumnAsDatetime D i st = Inr t) \<and>
     (\<forall>s. cell st i = SqlText s \<longrightarrow> sub_getColumnAsText D i st = Inr s) \<and>
     (\<forall>s. cell st i = SqlBlob s \<longrightarrow> sub_getColumnAsBlob D i st = Inr s) \<and>
     (\<forall>s. cell st i = SqlBlob s \<longrightarrow> sub_getColumnAsBlobChars D i st = Inr s))"

text \<open>The SQL value of a C++ value, the C++ values that survive the conversion, and their types.\<close>

fun col_of :: "('d, 'o) sql_codec \<Rightarrow> ('d, 't, 'o) sql_item \<Rightarrow> ('d, 't) sqlval" where
  "col_of C (IntItem sg bits v) = SqlInt (word_of_int v)"
| "col_of C (BoolItem b) = SqlInt (if b then 1 else 0)"
| "col_of C (DoubleItem d) = SqlDouble d"
| "col_of C (FloatItem d) = SqlDouble d"
| "col_of C (TextItem s) = SqlText s"
| "col_of C (DatetimeItem t) = SqlDatetime t"
| "col_of C (CharsItem s) = SqlBlob s"
| "col_of C (ObjItem x) = SqlBlob (yas_save C x)"

fun item_ok :: "('d, 'o) sql_codec \<Rightarrow> ('d, 't, 'o) sql_item \<Rightarrow> bool" where
  "item_ok C (IntItem sg bits v) \<longleftrightarrow> 0 < bits \<and> bits \<le> 64 \<and> int_in_range sg bits v"
| "item_ok C (FloatItem d) \<longleftrightarrow> to_float C d = d"
| "item_ok C (ObjItem x) \<longleftrightarrow> yas_load C (yas_save C x) = Inr x"
| "item_ok C x \<longleftrightarrow> True"

fun same_type :: "('d, 't, 'o) sql_item \<Rightarrow> ('d, 't, 'o) sql_item \<Rightarrow> bool" where
  "same_type (IntItem sg bits v) (IntItem sg' bits' v') \<longleftrightarrow> sg = sg' \<and> bits = bits'"
| "same_type (BoolItem _) (BoolItem _) \<longleftrightarrow> True"
| "same_type (DoubleItem _) (DoubleItem _) \<longleftrightarrow> True"
| "same_type (FloatItem _) (FloatItem _) \<longleftrightarrow> True"
| "same_type (TextItem _) (TextItem _) \<longleftrightarrow> True"
| "same_type (DatetimeItem _) (DatetimeItem _) \<longleftrightarrow> True"
| "same_type (CharsItem _) (CharsItem _) \<longleftrightarrow> True"
| "same_type (ObjItem _) (ObjItem _) \<longleftrightarrow> True"
| "same_type _ _ \<longleftrightarrow> False"

lemma sint_of_int_u64: "sint (word_of_int v :: u64) = signed_take_bit 63 v"
  by (simp add: signed_of_int)

lemma int_cast_range:
  assumes "0 < bits" "bits \<le> 64" "int_in_range sg bits v"
  shows "int_cast sg bits (sint (word_of_int v :: u64)) = v"
proof (cases sg)
  case True
  have "min (bits - 1) 63 = bits - 1" using assms(2) by simp
  then have "signed_take_bit (bits - 1) (signed_take_bit 63 v) = signed_take_bit (bits - 1) v"
    by (simp only: signed_take_bit_signed_take_bit)
  with True assms show ?thesis
    by (simp add: int_cast_def int_in_range_def signed_take_bit_int_eq_self sint_of_int_u64)
next
  case False
  have "take_bit bits (signed_take_bit 63 v) = take_bit bits v"
    using assms(1,2) by (simp add: take_bit_signed_take_bit)
  with False assms show ?thesis
    by (simp add: int_cast_def int_in_range_def take_bit_int_eq_self sint_of_int_u64)
qed

lemma getColumn_item_col:
  assumes "driver_reads D cell" "cell st i = col_of C x" "item_ok C x" "same_type old x"
  shows "getColumn_item D C i st old = Inr x"
  using assms int_cast_range
  by (cases x; cases old) (fastforce simp: driver_reads_def)+

lemma getColumn_args_cols:
  assumes "driver_reads D cell" "length olds = length xs"
    "\<And>k. k < length xs \<Longrightarrow> cell st (idx + k) = col_of C (xs ! k) \<and> item_ok C (xs ! k) \<and>
       same_type (olds ! k) (xs ! k)"
  shows "getColumn_args D C idx st olds = (xs, None)"
  using assms(2,3)
proof (induction xs arbitrary: olds idx)
  case (Cons x xs)
  then obtain old os where olds: "olds = old # os" by (cases olds) auto
  have "getColumn_item D C idx st old = Inr x"
    using Cons.prems(2) [of 0] assms(1) olds by (intro getColumn_item_col [where cell = cell]) auto
  moreover have "getColumn_args D C (idx + 1) st os = (xs, None)"
    using Cons.prems olds by (intro Cons.IH) force+
  ultimately show ?case by (simp add: olds)
qed simp

lemma bind_item_col:
  assumes "driver_binds D n bound" "i < n"
  shows "\<exists>st'. bind_item D C i x st = (None, st') \<and> bound st' = (bound st)(i := col_of C x)"
  using assms by (cases x) (auto simp: driver_binds_def binds_to_def)

lemma bind_args_cols:
  assumes "driver_binds D n bound" "idx + length xs \<le> n" "xs \<noteq> []"
  shows "\<exists>st'. bind_args D C idx xs st = (None, st') \<and>
    (\<forall>k < length xs. bound st' (idx + k) = col_of C (xs ! k)) \<and>
    (\<forall>i < idx. bound st' i = bound st i)"
  using assms(2,3)
proof (induction xs arbitrary: idx st)
  case (Cons x xs)
  obtain st1 where 1: "bind_item D C idx x st = (None, st1)" "bound st1 = (bound st)(idx := col_of C x)"
    using bind_item_col [OF assms(1), of idx C x st] Cons.prems by auto
  show ?case
  proof (cases xs)
    case Nil
    with 1 show ?thesis by auto
  next
    case (Cons y ys)
    then obtain st2 where 2: "bind_args D C (idx + 1) xs st1 = (None, st2)"
      "\<forall>k < length xs. bound st2 (idx + 1 + k) = col_of C (xs ! k)"
      "\<forall>i < idx + 1. bound st2 i = bound st1 i"
      using Cons.IH [of "idx + 1" st1] Cons.prems by auto
    have "bound st2 (idx + k) = col_of C ((x # xs) ! k)" if "k < length (x # xs)" for k
      using that 1 2 by (cases k) (auto simp: nth_Cons')
    moreover have "\<forall>i < idx. bound st2 i = bound st i" using 1 2 by auto
    ultimately show ?thesis using 1 2 Cons by auto
  qed
qed simp

section \<open>Storing and loading an object\<close>

text \<open>
  The two sides of a row: \<open>st_bind\<close> hands over the SQL values of the members it lists, and
  \<open>st_getColumn\<close> over a row that holds the SQL values of an object's members assigns the object
  it reads into those members, whatever the order.
\<close>

lemma st_bind_cols:
  assumes "driver_binds D n bound" "length rs \<le> n" "rs \<noteq> []"
  shows "\<exists>st'. st_bind 0 rs D C x st = (None, st') \<and>
    (\<forall>k < length rs. bound st' k = col_of C (get_ref x (rs ! k)))"
  using bind_args_cols [OF assms(1), of 0 "map (get_ref x) rs" C st] assms(2,3)
  by (auto simp: st_bind_def)

lemma get_set_ref:
  "get_ref (set_ref (Fld f) i x) r = (if r = Fld f then i else get_ref x r)"
  "get_ref (set_ref IdRef (IntItem False 64 (uint (w :: u64))) x) r =
     (if r = IdRef then IntItem False 64 (uint w) else get_ref x r)"
  by (cases r; cases i; simp) (cases r; simp add: ucast_id)

lemma set_refs_get:
  assumes "distinct rs" "length items = length rs"
    "\<And>k. k < length rs \<Longrightarrow> rs ! k = IdRef \<Longrightarrow> \<exists>w :: u64. items ! k = IntItem False 64 (uint w)"
  shows "get_ref (fold (\<lambda>(r, i). set_ref r i) (zip rs items) y) r =
    (case map_of (zip rs items) r of Some i \<Rightarrow> i | None \<Rightarrow> get_ref y r)"
  using assms
proof (induction rs arbitrary: items y)
  case (Cons r' rs)
  then obtain i its where items: "items = i # its" by (cases items) auto
  have IH: "get_ref (fold (\<lambda>(r, i). set_ref r i) (zip rs its) z) r =
    (case map_of (zip rs its) r of Some i \<Rightarrow> i | None \<Rightarrow> get_ref z r)" for z
    using Cons.prems items by (intro Cons.IH) force+
  have none: "map_of (zip rs its) r' = None"
    using Cons.prems items by (auto simp: map_of_zip_is_None)
  have step: "get_ref (set_ref r' i y) s = (if s = r' then i else get_ref y s)" for s
    using Cons.prems(3) [of 0] items by (cases r') (auto simp: get_set_ref simp del: set_ref.simps get_ref.simps)
  show ?case using none by (simp add: items IH step split: option.split)
qed simp

lemma st_getColumn_cols:
  assumes "driver_reads D cell" "distinct rs"
    "\<And>k. k < length rs \<Longrightarrow> cell cur k = col_of C (get_ref x (rs ! k))"
    "\<And>f. Fld f \<in> set rs \<Longrightarrow> item_ok C (member x f) \<and> same_type (member y f) (member x f)"
  shows "\<exists>y'. st_getColumn 0 rs D C cur y = (y', None) \<and>
    (\<forall>r. get_ref y' r = (if r \<in> set rs then get_ref x r else get_ref y r))"
proof -
  have item: "item_ok C (get_ref x r) \<and> same_type (get_ref y r) (get_ref x r)" if "r \<in> set rs" for r
    using assms(4) that unsigned_less [of "m_id x"] by (cases r) (auto simp: int_in_range_def)
  have "getColumn_args D C 0 cur (map (get_ref y) rs) = (map (get_ref x) rs, None)"
    using assms(3) item by (intro getColumn_args_cols [OF assms(1)]) auto
  then have load: "st_getColumn 0 rs D C cur y =
      (fold (\<lambda>(r, i). set_ref r i) (zip rs (map (get_ref x) rs)) y, None)"
    by (simp add: st_getColumn_def)
  have "get_ref (fold (\<lambda>(r, i). set_ref r i) (zip rs (map (get_ref x) rs)) y) r =
      (if r \<in> set rs then get_ref x r else get_ref y r)" for r
  proof -
    have "map_of (zip rs (map (get_ref x) rs)) r = (if r \<in> set rs then Some (get_ref x r) else None)"
      by (simp add: map_of_zip_map)
    then show ?thesis
      by (subst set_refs_get [OF assms(2)]) auto
  qed
  with load show ?thesis by blast
qed

lemma get_ref_eq_iff: "get_ref x IdRef = get_ref y IdRef \<longleftrightarrow> m_id x = m_id y"
  by (simp add: word_uint_eq_iff)

text \<open>
  A driver in memory, for instances: a statement is the values of its parameters, which are also
  the columns of its row; a float, a date and an object carry nothing.
\<close>

definition memory_driver :: "(nat \<Rightarrow> (unit, unit) sqlval, unit, unit) sql_driver" where
  "memory_driver = \<lparr>
     sub_exec = Pair None, sub_moveNext = (\<lambda>st. (Inr False, st)), sub_getLastRowid = (\<lambda>st. 1),
     sub_bindNull = (\<lambda>i st. (None, st(i := SqlNull))),
     sub_bindInt = (\<lambda>i w st. (None, st(i := SqlInt w))),
     sub_bindDouble = (\<lambda>i d st. (None, st(i := SqlDouble d))),
     sub_bindDatetime = (\<lambda>i t st. (None, st(i := SqlDatetime t))),
     sub_bindText = (\<lambda>i s st. (None, st(i := SqlText s))),
     sub_bindBlob = (\<lambda>i s st. (None, st(i := SqlBlob s))),
     sub_bindBlobChars = (\<lambda>i s st. (None, st(i := SqlBlob s))),
     sub_getNumColumns = (\<lambda>st. 0),
     sub_getColumnAsInt64 = (\<lambda>i st. case st i of SqlInt w \<Rightarrow> Inr w | _ \<Rightarrow> Inr 0),
     sub_getColumnAsDouble = (\<lambda>i st. Inr ()),
     sub_getColumnAsDatetime = (\<lambda>i st. Inr ()),
     sub_getColumnAsText = (\<lambda>i st. case st i of SqlText s \<Rightarrow> Inr s | _ \<Rightarrow> Inr []),
     sub_getColumnAsBlob = (\<lambda>i st. case st i of SqlBlob s \<Rightarrow> Inr s | _ \<Rightarrow> Inl NullBlobException),
     sub_getColumnAsBlobChars =
       (\<lambda>i st. case st i of SqlBlob s \<Rightarrow> Inr s | _ \<Rightarrow> Inl NullBlobException)\<rparr>"

definition unit_codec :: "(unit, unit) sql_codec" where
  "unit_codec = \<lparr>to_float = id, yas_save = (\<lambda>_. []), yas_load = (\<lambda>_. Inr ())\<rparr>"

lemma memory_driver_laws: "driver_binds memory_driver n id" "driver_reads memory_driver id"
  by (simp_all add: memory_driver_def driver_binds_def driver_reads_def binds_to_def)

text \<open>Two calls in sequence are one call with both arguments.\<close>

lemma bind_then_st_bind: "bind_then (st_bind i [r]) (st_bind (i + 1) (r' # rs)) = st_bind i (r # r' # rs)"
  by (intro ext) (simp add: bind_then_def st_bind_def)

lemma getColumn_then_Id:
  "getColumn_then (st_getColumn i [IdRef]) (st_getColumn (i + 1) [Fld f]) = st_getColumn i [IdRef, Fld f]"
  by (intro ext)
    (auto simp: getColumn_then_def st_getColumn_def split: sum.split prod.split)

lemmas bind_then_01 = bind_then_st_bind [where i = 0, simplified]
  getColumn_then_Id [where i = 0, simplified]

text \<open>
  The names a class is declared with are C++ identifiers: they hold neither quote character nor
  the other marks of the texts.
\<close>

definition plain_name :: "string \<Rightarrow> bool" where
  "plain_name s \<longleftrightarrow> CHR ''`'' \<notin> set s \<and> CHR 0x22 \<notin> set s"

lemma plain_id: "plain_name ''id''"
  by (simp add: plain_name_def)

text \<open>The texts of \<open>TABLE_BIND\<close> against its bindings.\<close>

lemma table_schema_texts:
  assumes "plain_name t" "\<forall>f \<in> set fs. plain_name f" "fs \<noteq> []"
  shows "\<exists>ins upd. getInsertSQL (table_schema t fs) = Some ins \<and> getUpdateSQL (table_schema t fs) = Some upd \<and>
    sql_idents CHR ''`'' ins = t # fs \<and> sql_params CHR ''`'' ins = length fs \<and>
    sql_idents CHR ''`'' upd = t # fs @ [''id''] \<and> sql_params CHR ''`'' upd = length fs + 1 \<and>
    sql_idents CHR ''`'' (getSelectSQL (table_schema t fs)) = ''id'' # fs @ [t]"
proof -
  let ?q = "CHR ''`''"
  have names: "?q \<notin> set t" "\<forall>f \<in> set fs. ?q \<notin> set f" "\<forall>f \<in> set (''id'' # fs). ?q \<notin> set f"
    using assms(1,2) by (auto simp: plain_name_def)
  have "sql_idents ?q (insert_sql (quote ?q t) [] (map (quote ?q) fs) (params_sql (length fs))) = t # fs"
    "sql_params ?q (insert_sql (quote ?q t) [] (map (quote ?q) fs) (params_sql (length fs))) = length fs"
    using names by (subst insert_sql_scan; simp add: params_sql_scan)+
  moreover have
    "sql_idents ?q (update_sql (quote ?q t) (map (quote ?q) fs) (quote ?q ''id'')) = t # fs @ [''id'']"
    "sql_params ?q (update_sql (quote ?q t) (map (quote ?q) fs) (quote ?q ''id'')) = length fs + 1"
    using names by (subst update_sql_scan; simp)+
  moreover have
    "sql_idents ?q (select_sql (quote ?q t) (quote ?q ''id'' # map (quote ?q) fs)) = ''id'' # fs @ [t]"
    using select_sql_scan [of ?q t "''id'' # fs"] names by simp
  ultimately show ?thesis using assms(3) by (simp add: table_schema_def Let_def)
qed

end
