(* ===== verification/TableBind.thy ===== *)
theory TableBind
  imports TableSchema
begin

text \<open>
  The macros \<open>TABLE_BIND0\<close> to \<open>TABLE_BIND20\<close> of \<open>db_connect/TableMacro.h\<close>, one definition per
  macro, transcribed statement by statement: back-quoted identifiers, a row id given out by the
  database on insertion. Each is the family's schema at its arity.
\<close>

section \<open>The macros\<close>

definition TABLE_BIND0 where
  "TABLE_BIND0 table =
   \<lparr>default_ctor = Some (\<lambda>df. \<lparr>m_id = 0, member = df\<rparr>),
    move_ctor = Some (\<lambda>mv df rv. run_stmts [copy_id, reset_id] (\<lparr>m_id = 0,
        member = df\<rparr>, rv)),
    move_assign = Some (\<lambda>mv same p. if same then p else run_stmts [copy_id, reset_id]
        p),
    valid = (\<lambda>x. m_id x \<noteq> 0),
    getId = Some m_id,
    setId = Some (\<lambda>i x. x\<lparr>m_id := i\<rparr>),
    getRowid = m_id,
    setRowid = (\<lambda>i x. x\<lparr>m_id := i\<rparr>),
    getIndexFieldName = None,
    getTableName = table,
    getInsertSQL = None,
    getUpdateSQL = None,
    getSelectSQL = ''select `id` from `'' @ table @ ''`'',
    save = None,
    update = None,
    load = st_getColumn 0 [IdRef]\<rparr>"

definition TABLE_BIND1 where
  "TABLE_BIND1 table f1 =
   \<lparr>default_ctor = Some (\<lambda>df. \<lparr>m_id = 0, member = df\<rparr>),
    move_ctor = Some (\<lambda>mv df rv. run_stmts [copy_id, move_field mv f1, reset_id]
        (\<lparr>m_id = 0, member = df\<rparr>, rv)),
    move_assign = Some (\<lambda>mv same p. if same then p else run_stmts [copy_id,
        move_field mv f1, reset_id] p),
    valid = (\<lambda>x. m_id x \<noteq> 0),
    getId = Some m_id,
    setId = Some (\<lambda>i x. x\<lparr>m_id := i\<rparr>),
    getRowid = m_id,
    setRowid = (\<lambda>i x. x\<lparr>m_id := i\<rparr>),
    getIndexFieldName = None,
    getTableName = table,
    getInsertSQL = Some (''insert into `'' @ table @ ''` (`'' @ f1 @ ''`) values (?)''),
    getUpdateSQL = Some (''update `'' @ table @ ''` set `'' @ f1 @ ''`=? where `id`=?''),
    getSelectSQL = ''select `id`,`'' @ f1 @ ''` from `'' @ table @ ''`'',
    save = Some (st_bind 0 [Fld f1]),
    update = Some (st_bind 0 [Fld f1, IdRef]),
    load = st_getColumn 0 [IdRef, Fld f1]\<rparr>"

definition TABLE_BIND2 where
  "TABLE_BIND2 table f1 f2 =
   \<lparr>default_ctor = Some (\<lambda>df. \<lparr>m_id = 0, member = df\<rparr>),
    move_ctor = Some (\<lambda>mv df rv. run_stmts [copy_id, move_field mv f1,
        move_field mv f2, reset_id] (\<lparr>m_id = 0, member = df\<rparr>, rv)),
    move_assign = Some (\<lambda>mv same p. if same then p else run_stmts [copy_id, reset_id,
        move_field mv f1, move_field mv f2] p),
    valid = (\<lambda>x. m_id x \<noteq> 0),
    getId = Some m_id,
    setId = Some (\<lambda>i x. x\<lparr>m_id := i\<rparr>),
    getRowid = m_id,
    setRowid = (\<lambda>i x. x\<lparr>m_id := i\<rparr>),
    getIndexFieldName = None,
    getTableName = table,
    getInsertSQL = Some (''insert into `'' @ table @ ''` (`'' @ f1 @ ''`,`'' @ f2 @
        ''`) values (?,?)''),
    getUpdateSQL = Some (''update `'' @ table @ ''` set `'' @ f1 @ ''`=?,`'' @ f2 @
        ''`=? where `id`=?''),
    getSelectSQL = ''select `id`,`'' @ f1 @ ''`,`'' @ f2 @ ''` from `'' @ table @ ''`'',
    save = Some (st_bind 0 [Fld f1, Fld f2]),
    update = Some (st_bind 0 [Fld f1, Fld f2, IdRef]),
    load = st_getColumn 0 [IdRef, Fld f1, Fld f2]\<rparr>"

definition TABLE_BIND3 where
  "TABLE_BIND3 table f1 f2 f3 =
   \<lparr>default_ctor = Some (\<lambda>df. \<lparr>m_id = 0, member = df\<rparr>),
    move_ctor = Some (\<lambda>mv df rv. run_stmts [copy_id, move_field mv f1,
        move_field mv f2, move_field mv f3, reset_id] (\<lparr>m_id = 0, member = df\<rparr>, rv)),
    move_assign = Some (\<lambda>mv same p. if same then p else run_stmts [copy_id,
        move_field mv f1, move_field mv f2, move_field mv f3, reset_id] p),
    valid = (\<lambda>x. m_id x \<noteq> 0),
    getId = Some m_id,
    setId = Some (\<lambda>i x. x\<lparr>m_id := i\<rparr>),
    getRowid = m_id,
    setRowid = (\<lambda>i x. x\<lparr>m_id := i\<rparr>),
    getIndexFieldName = None,
    getTableName = table,
    getInsertSQL = Some (''insert into `'' @ table @ ''` (`'' @ f1 @ ''`,`'' @ f2 @ ''`,`'' @
        f3 @ ''`) values (?,?,?)''),
    getUpdateSQL = Some (''update `'' @ table @ ''` set `'' @ f1 @ ''`=?,`'' @ f2 @ ''`=?,`''
        @ f3 @ ''`=? where `id`=?''),
    getSelectSQL = ''select `id`,`'' @ f1 @ ''`,`'' @ f2 @ ''`,`'' @ f3 @ ''` from `'' @ table
        @ ''`'',
    save = Some (st_bind 0 [Fld f1, Fld f2, Fld f3]),
    update = Some (st_bind 0 [Fld f1, Fld f2, Fld f3, IdRef]),
    load = st_getColumn 0 [IdRef, Fld f1, Fld f2, Fld f3]\<rparr>"

definition TABLE_BIND4 where
  "TABLE_BIND4 table f1 f2 f3 f4 =
   \<lparr>default_ctor = Some (\<lambda>df. \<lparr>m_id = 0, member = df\<rparr>),
    move_ctor = Some (\<lambda>mv df rv. run_stmts [copy_id, move_field mv f1,
        move_field mv f2, move_field mv f3, move_field mv f4, reset_id] (\<lparr>m_id = 0, member
        = df\<rparr>, rv)),
    move_assign = Some (\<lambda>mv same p. if same then p else run_stmts [copy_id,
        move_field mv f1, move_field mv f2, move_field mv f3, move_field mv f4, reset_id] p),
    valid = (\<lambda>x. m_id x \<noteq> 0),
    getId = Some m_id,
    setId = Some (\<lambda>i x. x\<lparr>m_id := i\<rparr>),
    getRowid = m_id,
    setRowid = (\<lambda>i x. x\<lparr>m_id := i\<rparr>),
    getIndexFieldName = None,
    getTableName = table,
    getInsertSQL = Some (''insert into `'' @ table @ ''` (`'' @ f1 @ ''`,`'' @ f2 @ ''`,`'' @
        f3 @ ''`,`'' @ f4 @ ''`) values (?,?,?,?)''),
    getUpdateSQL = Some (''update `'' @ table @ ''` set `'' @ f1 @ ''`=?,`'' @ f2 @ ''`=?,`''
        @ f3 @ ''`=?,`'' @ f4 @ ''`=? where `id`=?''),
    getSelectSQL = ''select `id`,`'' @ f1 @ ''`,`'' @ f2 @ ''`,`'' @ f3 @ ''`,`'' @ f4 @
        ''` from `'' @ table @ ''`'',
    save = Some (st_bind 0 [Fld f1, Fld f2, Fld f3, Fld f4]),
    update = Some (st_bind 0 [Fld f1, Fld f2, Fld f3, Fld f4, IdRef]),
    load = st_getColumn 0 [IdRef, Fld f1, Fld f2, Fld f3, Fld f4]\<rparr>"

definition TABLE_BIND5 where
  "TABLE_BIND5 table f1 f2 f3 f4 f5 =
   \<lparr>default_ctor = Some (\<lambda>df. \<lparr>m_id = 0, member = df\<rparr>),
    move_ctor = Some (\<lambda>mv df rv. run_stmts [copy_id, move_field mv f1,
        move_field mv f2, move_field mv f3, move_field mv f4, move_field mv f5, reset_id]
        (\<lparr>m_id = 0, member = df\<rparr>, rv)),
    move_assign = Some (\<lambda>mv same p. if same then p else run_stmts [copy_id,
        move_field mv f1, move_field mv f2, move_field mv f3, move_field mv f4, move_field mv f5,
        reset_id] p),
    valid = (\<lambda>x. m_id x \<noteq> 0),
    getId = Some m_id,
    setId = Some (\<lambda>i x. x\<lparr>m_id := i\<rparr>),
    getRowid = m_id,
    setRowid = (\<lambda>i x. x\<lparr>m_id := i\<rparr>),
    getIndexFieldName = None,
    getTableName = table,
    getInsertSQL = Some (''insert into `'' @ table @ ''` (`'' @ f1 @ ''`,`'' @ f2 @ ''`,`'' @
        f3 @ ''`,`'' @ f4 @ ''`,`'' @ f5 @ ''`) values (?,?,?,?,?)''),
    getUpdateSQL = Some (''update `'' @ table @ ''` set `'' @ f1 @ ''`=?,`'' @ f2 @ ''`=?,`''
        @ f3 @ ''`=?,`'' @ f4 @ ''`=?,`'' @ f5 @ ''`=? where `id`=?''),
    getSelectSQL = ''select `id`,`'' @ f1 @ ''`,`'' @ f2 @ ''`,`'' @ f3 @ ''`,`'' @ f4 @
        ''`,`'' @ f5 @ ''` from `'' @ table @ ''`'',
    save = Some (st_bind 0 [Fld f1, Fld f2, Fld f3, Fld f4, Fld f5]),
    update = Some (st_bind 0 [Fld f1, Fld f2, Fld f3, Fld f4, Fld f5, IdRef]),
    load = st_getColumn 0 [IdRef, Fld f1, Fld f2, Fld f3, Fld f4, Fld f5]\<rparr>"

definition TABLE_BIND6 where
  "TABLE_BIND6 table f1 f2 f3 f4 f5 f6 =
   \<lparr>default_ctor = Some (\<lambda>df. \<lparr>m_id = 0, member = df\<rparr>),
    move_ctor = Some (\<lambda>mv df rv. run_stmts [copy_id, move_field mv f1,
        move_field mv f2, move_field mv f3, move_field mv f4, move_field mv f5, move_field mv f6,
        reset_id] (\<lparr>m_id = 0, member = df\<rparr>, rv)),
    move_assign = Some (\<lambda>mv same p. if same then p else run_stmts [copy_id,
        move_field mv f1, move_field mv f2, move_field mv f3, move_field mv f4, move_field mv f5,
        move_field mv f6, reset_id] p),
    valid = (\<lambda>x. m_id x \<noteq> 0),
    getId = Some m_id,
    setId = Some (\<lambda>i x. x\<lparr>m_id := i\<rparr>),
    getRowid = m_id,
    setRowid = (\<lambda>i x. x\<lparr>m_id := i\<rparr>),
    getIndexFieldName = None,
    getTableName = table,
    getInsertSQL = Some (''insert into `'' @ table @ ''` (`'' @ f1 @ ''`,`'' @ f2 @ ''`,`'' @
        f3 @ ''`,`'' @ f4 @ ''`,`'' @ f5 @ ''`,`'' @ f6 @ ''`) values (?,?,?,?,?,?)''),
    getUpdateSQL = Some (''update `'' @ table @ ''` set `'' @ f1 @ ''`=?,`'' @ f2 @ ''`=?,`''
        @ f3 @ ''`=?,`'' @ f4 @ ''`=?,`'' @ f5 @ ''`=?,`'' @ f6 @ ''`=? where `id`=?''),
    getSelectSQL = ''select `id`,`'' @ f1 @ ''`,`'' @ f2 @ ''`,`'' @ f3 @ ''`,`'' @ f4 @
        ''`,`'' @ f5 @ ''`,`'' @ f6 @ ''` from `'' @ table @ ''`'',
    save = Some (st_bind 0 [Fld f1, Fld f2, Fld f3, Fld f4, Fld f5, Fld f6]),
    update = Some (st_bind 0 [Fld f1, Fld f2, Fld f3, Fld f4, Fld f5, Fld f6, IdRef]),
    load = st_getColumn 0 [IdRef, Fld f1, Fld f2, Fld f3, Fld f4, Fld f5, Fld f6]\<rparr>"

definition TABLE_BIND7 where
  "TABLE_BIND7 table f1 f2 f3 f4 f5 f6 f7 =
   \<lparr>default_ctor = Some (\<lambda>df. \<lparr>m_id = 0, member = df\<rparr>),
    move_ctor = Some (\<lambda>mv df rv. run_stmts [copy_id, move_field mv f1,
        move_field mv f2, move_field mv f3, move_field mv f4, move_field mv f5, move_field mv f6,
        move_field mv f7, reset_id] (\<lparr>m_id = 0, member = df\<rparr>, rv)),
    move_assign = Some (\<lambda>mv same p. if same then p else run_stmts [copy_id,
        move_field mv f1, move_field mv f2, move_field mv f3, move_field mv f4, move_field mv f5,
        move_field mv f6, move_field mv f7, reset_id] p),
    valid = (\<lambda>x. m_id x \<noteq> 0),
    getId = Some m_id,
    setId = Some (\<lambda>i x. x\<lparr>m_id := i\<rparr>),
    getRowid = m_id,
    setRowid = (\<lambda>i x. x\<lparr>m_id := i\<rparr>),
    getIndexFieldName = None,
    getTableName = table,
    getInsertSQL = Some (''insert into `'' @ table @ ''` (`'' @ f1 @ ''`,`'' @ f2 @ ''`,`'' @
        f3 @ ''`,`'' @ f4 @ ''`,`'' @ f5 @ ''`,`'' @ f6 @ ''`,`'' @ f7 @
        ''`) values (?,?,?,?,?,?,?)''),
    getUpdateSQL = Some (''update `'' @ table @ ''` set `'' @ f1 @ ''`=?,`'' @ f2 @ ''`=?,`''
        @ f3 @ ''`=?,`'' @ f4 @ ''`=?,`'' @ f5 @ ''`=?,`'' @ f6 @ ''`=?,`'' @ f7 @
        ''`=? where `id`=?''),
    getSelectSQL = ''select `id`,`'' @ f1 @ ''`,`'' @ f2 @ ''`,`'' @ f3 @ ''`,`'' @ f4 @
        ''`,`'' @ f5 @ ''`,`'' @ f6 @ ''`,`'' @ f7 @ ''` from `'' @ table @ ''`'',
    save = Some (st_bind 0 [Fld f1, Fld f2, Fld f3, Fld f4, Fld f5, Fld f6, Fld f7]),
    update = Some (st_bind 0 [Fld f1, Fld f2, Fld f3, Fld f4, Fld f5, Fld f6, Fld f7, IdRef]),
    load = st_getColumn 0 [IdRef, Fld f1, Fld f2, Fld f3, Fld f4, Fld f5, Fld f6, Fld f7]\<rparr>"

definition TABLE_BIND8 where
  "TABLE_BIND8 table f1 f2 f3 f4 f5 f6 f7 f8 =
   \<lparr>default_ctor = Some (\<lambda>df. \<lparr>m_id = 0, member = df\<rparr>),
    move_ctor = Some (\<lambda>mv df rv. run_stmts [copy_id, move_field mv f1,
        move_field mv f2, move_field mv f3, move_field mv f4, move_field mv f5, move_field mv f6,
        move_field mv f7, move_field mv f8, reset_id] (\<lparr>m_id = 0, member = df\<rparr>, rv)),
    move_assign = Some (\<lambda>mv same p. if same then p else run_stmts [copy_id,
        move_field mv f1, move_field mv f2, move_field mv f3, move_field mv f4, move_field mv f5,
        move_field mv f6, move_field mv f7, move_field mv f8, reset_id] p),
    valid = (\<lambda>x. m_id x \<noteq> 0),
    getId = Some m_id,
    setId = Some (\<lambda>i x. x\<lparr>m_id := i\<rparr>),
    getRowid = m_id,
    setRowid = (\<lambda>i x. x\<lparr>m_id := i\<rparr>),
    getIndexFieldName = None,
    getTableName = table,
    getInsertSQL = Some (''insert into `'' @ table @ ''` (`'' @ f1 @ ''`,`'' @ f2 @ ''`,`'' @
        f3 @ ''`,`'' @ f4 @ ''`,`'' @ f5 @ ''`,`'' @ f6 @ ''`,`'' @ f7 @ ''`,`'' @ f8 @
        ''`) values (?,?,?,?,?,?,?,?)''),
    getUpdateSQL = Some (''update `'' @ table @ ''` set `'' @ f1 @ ''`=?,`'' @ f2 @ ''`=?,`''
        @ f3 @ ''`=?,`'' @ f4 @ ''`=?,`'' @ f5 @ ''`=?,`'' @ f6 @ ''`=?,`'' @ f7 @ ''`=?,`'' @ f8
        @ ''`=? where `id`=?''),
    getSelectSQL = ''select `id`,`'' @ f1 @ ''`,`'' @ f2 @ ''`,`'' @ f3 @ ''`,`'' @ f4 @
        ''`,`'' @ f5 @ ''`,`'' @ f6 @ ''`,`'' @ f7 @ ''`,`'' @ f8 @ ''` from `'' @ table @ ''`'',
    save = Some (st_bind 0 [Fld f1, Fld f2, Fld f3, Fld f4, Fld f5, Fld f6, Fld f7, Fld f8]),
    update = Some (st_bind 0 [Fld f1, Fld f2, Fld f3, Fld f4, Fld f5, Fld f6, Fld f7, Fld f8,
        IdRef]),
    load = st_getColumn 0 [IdRef, Fld f1, Fld f2, Fld f3, Fld f4, Fld f5, Fld f6, Fld f7,
        Fld f8]\<rparr>"

definition TABLE_BIND9 where
  "TABLE_BIND9 table f1 f2 f3 f4 f5 f6 f7 f8 f9 =
   \<lparr>default_ctor = Some (\<lambda>df. \<lparr>m_id = 0, member = df\<rparr>),
    move_ctor = Some (\<lambda>mv df rv. run_stmts [copy_id, move_field mv f1,
        move_field mv f2, move_field mv f3, move_field mv f4, move_field mv f5, move_field mv f6,
        move_field mv f7, move_field mv f8, move_field mv f9, reset_id] (\<lparr>m_id = 0, member
        = df\<rparr>, rv)),
    move_assign = Some (\<lambda>mv same p. if same then p else run_stmts [copy_id,
        move_field mv f1, move_field mv f2, move_field mv f3, move_field mv f4, move_field mv f5,
        move_field mv f6, move_field mv f7, move_field mv f8, move_field mv f9, reset_id] p),
    valid = (\<lambda>x. m_id x \<noteq> 0),
    getId = Some m_id,
    setId = Some (\<lambda>i x. x\<lparr>m_id := i\<rparr>),
    getRowid = m_id,
    setRowid = (\<lambda>i x. x\<lparr>m_id := i\<rparr>),
    getIndexFieldName = None,
    getTableName = table,
    getInsertSQL = Some (''insert into `'' @ table @ ''` (`'' @ f1 @ ''`,`'' @ f2 @ ''`,`'' @
        f3 @ ''`,`'' @ f4 @ ''`,`'' @ f5 @ ''`,`'' @ f6 @ ''`,`'' @ f7 @ ''`,`'' @ f8 @ ''`,`'' @
        f9 @ ''`) values (?,?,?,?,?,?,?,?,?)''),
    getUpdateSQL = Some (''update `'' @ table @ ''` set `'' @ f1 @ ''`=?,`'' @ f2 @ ''`=?,`''
        @ f3 @ ''`=?,`'' @ f4 @ ''`=?,`'' @ f5 @ ''`=?,`'' @ f6 @ ''`=?,`'' @ f7 @ ''`=?,`'' @ f8
        @ ''`=?,`'' @ f9 @ ''`=? where `id`=?''),
    getSelectSQL = ''select `id`,`'' @ f1 @ ''`,`'' @ f2 @ ''`,`'' @ f3 @ ''`,`'' @ f4 @
        ''`,`'' @ f5 @ ''`,`'' @ f6 @ ''`,`'' @ f7 @ ''`,`'' @ f8 @ ''`,`'' @ f9 @ ''` from `'' @
        table @ ''`'',
    save = Some (st_bind 0 [Fld f1, Fld f2, Fld f3, Fld f4, Fld f5, Fld f6, Fld f7, Fld f8,
        Fld f9]),
    update = Some (st_bind 0 [Fld f1, Fld f2, Fld f3, Fld f4, Fld f5, Fld f6, Fld f7, Fld f8,
        Fld f9, IdRef]),
    load = st_getColumn 0 [IdRef, Fld f1, Fld f2, Fld f3, Fld f4, Fld f5, Fld f6, Fld f7,
        Fld f8, Fld f9]\<rparr>"

definition TABLE_BIND10 where
  "TABLE_BIND10 table f1 f2 f3 f4 f5 f6 f7 f8 f9 f10 =
   \<lparr>default_ctor = Some (\<lambda>df. \<lparr>m_id = 0, member = df\<rparr>),
    move_ctor = Some (\<lambda>mv df rv. run_stmts [copy_id, move_field mv f1,
        move_field mv f2, move_field mv f3, move_field mv f4, move_field mv f5, move_field mv f6,
        move_field mv f7, move_field mv f8, move_field mv f9, move_field mv f10, reset_id]
        (\<lparr>m_id = 0, member = df\<rparr>, rv)),
    move_assign = Some (\<lambda>mv same p. if same then p else run_stmts [copy_id,
        move_field mv f1, move_field mv f2, move_field mv f3, move_field mv f4, move_field mv f5,
        move_field mv f6, move_field mv f7, move_field mv f8, move_field mv f9, move_field mv f10,
        reset_id] p),
    valid = (\<lambda>x. m_id x \<noteq> 0),
    getId = Some m_id,
    setId = Some (\<lambda>i x. x\<lparr>m_id := i\<rparr>),
    getRowid = m_id,
    setRowid = (\<lambda>i x. x\<lparr>m_id := i\<rparr>),
    getIndexFieldName = None,
    getTableName = table,
    getInsertSQL = Some (''insert into `'' @ table @ ''` (`'' @ f1 @ ''`,`'' @ f2 @ ''`,`'' @
        f3 @ ''`,`'' @ f4 @ ''`,`'' @ f5 @ ''`,`'' @ f6 @ ''`,`'' @ f7 @ ''`,`'' @ f8 @ ''`,`'' @
        f9 @ ''`,`'' @ f10 @ ''`) values (?,?,?,?,?,?,?,?,?,?)''),
    getUpdateSQL = Some (''update `'' @ table @ ''` set `'' @ f1 @ ''`=?,`'' @ f2 @ ''`=?,`''
        @ f3 @ ''`=?,`'' @ f4 @ ''`=?,`'' @ f5 @ ''`=?,`'' @ f6 @ ''`=?,`'' @ f7 @ ''`=?,`'' @ f8
        @ ''`=?,`'' @ f9 @ ''`=?,`'' @ f10 @ ''`=? where `id`=?''),
    getSelectSQL = ''select `id`,`'' @ f1 @ ''`,`'' @ f2 @ ''`,`'' @ f3 @ ''`,`'' @ f4 @
        ''`,`'' @ f5 @ ''`,`'' @ f6 @ ''`,`'' @ f7 @ ''`,`'' @ f8 @ ''`,`'' @ f9 @ ''`,`'' @ f10 @
        ''` from `'' @ table @ ''`'',
    save = Some (st_bind 0 [Fld f1, Fld f2, Fld f3, Fld f4, Fld f5, Fld f6, Fld f7, Fld f8,
        Fld f9, Fld f10]),
    update = Some (st_bind 0 [Fld f1, Fld f2, Fld f3, Fld f4, Fld f5, Fld f6, Fld f7, Fld f8,
        Fld f9, Fld f10, IdRef]),
    load = st_getColumn 0 [IdRef, Fld f1, Fld f2, Fld f3, Fld f4, Fld f5, Fld f6, Fld f7,
        Fld f8, Fld f9, Fld f10]\<rparr>"

definition TABLE_BIND11 where
  "TABLE_BIND11 table f1 f2 f3 f4 f5 f6 f7 f8 f9 f10 f11 =
   \<lparr>default_ctor = Some (\<lambda>df. \<lparr>m_id = 0, member = df\<rparr>),
    move_ctor = Some (\<lambda>mv df rv. run_stmts [copy_id, move_field mv f1,
        move_field mv f2, move_field mv f3, move_field mv f4, move_field mv f5, move_field mv f6,
        move_field mv f7, move_field mv f8, move_field mv f9, move_field mv f10,
        move_field mv f11, reset_id] (\<lparr>m_id = 0, member = df\<rparr>, rv)),
    move_assign = Some (\<lambda>mv same p. if same then p else run_stmts [copy_id,
        move_field mv f1, move_field mv f2, move_field mv f3, move_field mv f4, move_field mv f5,
        move_field mv f6, move_field mv f7, move_field mv f8, move_field mv f9, move_field mv f10,
        move_field mv f11, reset_id] p),
    valid = (\<lambda>x. m_id x \<noteq> 0),
    getId = Some m_id,
    setId = Some (\<lambda>i x. x\<lparr>m_id := i\<rparr>),
    getRowid = m_id,
    setRowid = (\<lambda>i x. x\<lparr>m_id := i\<rparr>),
    getIndexFieldName = None,
    getTableName = table,
    getInsertSQL = Some (''insert into `'' @ table @ ''` (`'' @ f1 @ ''`,`'' @ f2 @ ''`,`'' @
        f3 @ ''`,`'' @ f4 @ ''`,`'' @ f5 @ ''`,`'' @ f6 @ ''`,`'' @ f7 @ ''`,`'' @ f8 @ ''`,`'' @
        f9 @ ''`,`'' @ f10 @ ''`,`'' @ f11 @ ''`) values (?,?,?,?,?,?,?,?,?,?,?)''),
    getUpdateSQL = Some (''update `'' @ table @ ''` set `'' @ f1 @ ''`=?,`'' @ f2 @ ''`=?,`''
        @ f3 @ ''`=?,`'' @ f4 @ ''`=?,`'' @ f5 @ ''`=?,`'' @ f6 @ ''`=?,`'' @ f7 @ ''`=?,`'' @ f8
        @ ''`=?,`'' @ f9 @ ''`=?,`'' @ f10 @ ''`=?,`'' @ f11 @ ''`=? where `id`=?''),
    getSelectSQL = ''select `id`,`'' @ f1 @ ''`,`'' @ f2 @ ''`,`'' @ f3 @ ''`,`'' @ f4 @
        ''`,`'' @ f5 @ ''`,`'' @ f6 @ ''`,`'' @ f7 @ ''`,`'' @ f8 @ ''`,`'' @ f9 @ ''`,`'' @ f10 @
        ''`,`'' @ f11 @ ''` from `'' @ table @ ''`'',
    save = Some (st_bind 0 [Fld f1, Fld f2, Fld f3, Fld f4, Fld f5, Fld f6, Fld f7, Fld f8,
        Fld f9, Fld f10, Fld f11]),
    update = Some (st_bind 0 [Fld f1, Fld f2, Fld f3, Fld f4, Fld f5, Fld f6, Fld f7, Fld f8,
        Fld f9, Fld f10, Fld f11, IdRef]),
    load = st_getColumn 0 [IdRef, Fld f1, Fld f2, Fld f3, Fld f4, Fld f5, Fld f6, Fld f7,
        Fld f8, Fld f9, Fld f10, Fld f11]\<rparr>"

definition TABLE_BIND12 where
  "TABLE_BIND12 table f1 f2 f3 f4 f5 f6 f7 f8 f9 f10 f11 f12 =
   \<lparr>default_ctor = Some (\<lambda>df. \<lparr>m_id = 0, member = df\<rparr>),
    move_ctor = Some (\<lambda>mv df rv. run_stmts [copy_id, move_field mv f1,
        move_field mv f2, move_field mv f3, move_field mv f4, move_field mv f5, move_field mv f6,
        move_field mv f7, move_field mv f8, move_field mv f9, move_field mv f10,
        move_field mv f11, move_field mv f12, reset_id] (\<lparr>m_id = 0, member = df\<rparr>,
        rv)),
    move_assign = Some (\<lambda>mv same p. if same then p else run_stmts [copy_id,
        move_field mv f1, move_field mv f2, move_field mv f3, move_field mv f4, move_field mv f5,
        move_field mv f6, move_field mv f7, move_field mv f8, move_field mv f9, move_field mv f10,
        move_field mv f11, move_field mv f12, reset_id] p),
    valid = (\<lambda>x. m_id x \<noteq> 0),
    getId = Some m_id,
    setId = Some (\<lambda>i x. x\<lparr>m_id := i\<rparr>),
    getRowid = m_id,
    setRowid = (\<lambda>i x. x\<lparr>m_id := i\<rparr>),
    getIndexFieldName = None,
    getTableName = table,
    getInsertSQL = Some (''insert into `'' @ table @ ''` (`'' @ f1 @ ''`,`'' @ f2 @ ''`,`'' @
        f3 @ ''`,`'' @ f4 @ ''`,`'' @ f5 @ ''`,`'' @ f6 @ ''`,`'' @ f7 @ ''`,`'' @ f8 @ ''`,`'' @
        f9 @ ''`,`'' @ f10 @ ''`,`'' @ f11 @ ''`,`'' @ f12 @
        ''`) values (?,?,?,?,?,?,?,?,?,?,?,?)''),
    getUpdateSQL = Some (''update `'' @ table @ ''` set `'' @ f1 @ ''`=?,`'' @ f2 @ ''`=?,`''
        @ f3 @ ''`=?,`'' @ f4 @ ''`=?,`'' @ f5 @ ''`=?,`'' @ f6 @ ''`=?,`'' @ f7 @ ''`=?,`'' @ f8
        @ ''`=?,`'' @ f9 @ ''`=?,`'' @ f10 @ ''`=?,`'' @ f11 @ ''`=?,`'' @ f12 @
        ''`=? where `id`=?''),
    getSelectSQL = ''select `id`,`'' @ f1 @ ''`,`'' @ f2 @ ''`,`'' @ f3 @ ''`,`'' @ f4 @
        ''`,`'' @ f5 @ ''`,`'' @ f6 @ ''`,`'' @ f7 @ ''`,`'' @ f8 @ ''`,`'' @ f9 @ ''`,`'' @ f10 @
        ''`,`'' @ f11 @ ''`,`'' @ f12 @ ''` from `'' @ table @ ''`'',
    save = Some (st_bind 0 [Fld f1, Fld f2, Fld f3, Fld f4, Fld f5, Fld f6, Fld f7, Fld f8,
        Fld f9, Fld f10, Fld f11, Fld f12]),
    update = Some (st_bind 0 [Fld f1, Fld f2, Fld f3, Fld f4, Fld f5, Fld f6, Fld f7, Fld f8,
        Fld f9, Fld f10, Fld f11, Fld f12, IdRef]),
    load = st_getColumn 0 [IdRef, Fld f1, Fld f2, Fld f3, Fld f4, Fld f5, Fld f6, Fld f7,
        Fld f8, Fld f9, Fld f10, Fld f11, Fld f12]\<rparr>"

definition TABLE_BIND13 where
  "TABLE_BIND13 table f1 f2 f3 f4 f5 f6 f7 f8 f9 f10 f11 f12 f13 =
   \<lparr>default_ctor = Some (\<lambda>df. \<lparr>m_id = 0, member = df\<rparr>),
    move_ctor = Some (\<lambda>mv df rv. run_stmts [copy_id, move_field mv f1,
        move_field mv f2, move_field mv f3, move_field mv f4, move_field mv f5, move_field mv f6,
        move_field mv f7, move_field mv f8, move_field mv f9, move_field mv f10,
        move_field mv f11, move_field mv f12, move_field mv f13, reset_id] (\<lparr>m_id = 0,
        member = df\<rparr>, rv)),
    move_assign = Some (\<lambda>mv same p. if same then p else run_stmts [copy_id,
        move_field mv f1, move_field mv f2, move_field mv f3, move_field mv f4, move_field mv f5,
        move_field mv f6, move_field mv f7, move_field mv f8, move_field mv f9, move_field mv f10,
        move_field mv f11, move_field mv f12, move_field mv f13, reset_id] p),
    valid = (\<lambda>x. m_id x \<noteq> 0),
    getId = Some m_id,
    setId = Some (\<lambda>i x. x\<lparr>m_id := i\<rparr>),
    getRowid = m_id,
    setRowid = (\<lambda>i x. x\<lparr>m_id := i\<rparr>),
    getIndexFieldName = None,
    getTableName = table,
    getInsertSQL = Some (''insert into `'' @ table @ ''` (`'' @ f1 @ ''`,`'' @ f2 @ ''`,`'' @
        f3 @ ''`,`'' @ f4 @ ''`,`'' @ f5 @ ''`,`'' @ f6 @ ''`,`'' @ f7 @ ''`,`'' @ f8 @ ''`,`'' @
        f9 @ ''`,`'' @ f10 @ ''`,`'' @ f11 @ ''`,`'' @ f12 @ ''`,`'' @ f13 @
        ''`) values (?,?,?,?,?,?,?,?,?,?,?,?,?)''),
    getUpdateSQL = Some (''update `'' @ table @ ''` set `'' @ f1 @ ''`=?,`'' @ f2 @ ''`=?,`''
        @ f3 @ ''`=?,`'' @ f4 @ ''`=?,`'' @ f5 @ ''`=?,`'' @ f6 @ ''`=?,`'' @ f7 @ ''`=?,`'' @ f8
        @ ''`=?,`'' @ f9 @ ''`=?,`'' @ f10 @ ''`=?,`'' @ f11 @ ''`=?,`'' @ f12 @ ''`=?,`'' @ f13 @
        ''`=? where `id`=?''),
    getSelectSQL = ''select `id`,`'' @ f1 @ ''`,`'' @ f2 @ ''`,`'' @ f3 @ ''`,`'' @ f4 @
        ''`,`'' @ f5 @ ''`,`'' @ f6 @ ''`,`'' @ f7 @ ''`,`'' @ f8 @ ''`,`'' @ f9 @ ''`,`'' @ f10 @
        ''`,`'' @ f11 @ ''`,`'' @ f12 @ ''`,`'' @ f13 @ ''` from `'' @ table @ ''`'',
    save = Some (st_bind 0 [Fld f1, Fld f2, Fld f3, Fld f4, Fld f5, Fld f6, Fld f7, Fld f8,
        Fld f9, Fld f10, Fld f11, Fld f12, Fld f13]),
    update = Some (st_bind 0 [Fld f1, Fld f2, Fld f3, Fld f4, Fld f5, Fld f6, Fld f7, Fld f8,
        Fld f9, Fld f10, Fld f11, Fld f12, Fld f13, IdRef]),
    load = st_getColumn 0 [IdRef, Fld f1, Fld f2, Fld f3, Fld f4, Fld f5, Fld f6, Fld f7,
        Fld f8, Fld f9, Fld f10, Fld f11, Fld f12, Fld f13]\<rparr>"

definition TABLE_BIND14 where
  "TABLE_BIND14 table f1 f2 f3 f4 f5 f6 f7 f8 f9 f10 f11 f12 f13 f14 =
   \<lparr>default_ctor = Some (\<lambda>df. \<lparr>m_id = 0, member = df\<rparr>),
    move_ctor = Some (\<lambda>mv df rv. run_stmts [copy_id, move_field mv f1,
        move_field mv f2, move_field mv f3, move_field mv f4, move_field mv f5, move_field mv f6,
        move_field mv f7, move_field mv f8, move_field mv f9, move_field mv f10,
        move_field mv f11, move_field mv f12, move_field mv f13, move_field mv f14, reset_id]
        (\<lparr>m_id = 0, member = df\<rparr>, rv)),
    move_assign = Some (\<lambda>mv same p. if same then p else run_stmts [copy_id,
        move_field mv f1, move_field mv f2, move_field mv f3, move_field mv f4, move_field mv f5,
        move_field mv f6, move_field mv f7, move_field mv f8, move_field mv f9, move_field mv f10,
        move_field mv f11, move_field mv f12, move_field mv f13, move_field mv f14, reset_id] p),
    valid = (\<lambda>x. m_id x \<noteq> 0),
    getId = Some m_id,
    setId = Some (\<lambda>i x. x\<lparr>m_id := i\<rparr>),
    getRowid = m_id,
    setRowid = (\<lambda>i x. x\<lparr>m_id := i\<rparr>),
    getIndexFieldName = None,
    getTableName = table,
    getInsertSQL = Some (''insert into `'' @ table @ ''` (`'' @ f1 @ ''`,`'' @ f2 @ ''`,`'' @
        f3 @ ''`,`'' @ f4 @ ''`,`'' @ f5 @ ''`,`'' @ f6 @ ''`,`'' @ f7 @ ''`,`'' @ f8 @ ''`,`'' @
        f9 @ ''`,`'' @ f10 @ ''`,`'' @ f11 @ ''`,`'' @ f12 @ ''`,`'' @ f13 @ ''`,`'' @ f14 @
        ''`) values (?,?,?,?,?,?,?,?,?,?,?,?,?,?)''),
    getUpdateSQL = Some (''update `'' @ table @ ''` set `'' @ f1 @ ''`=?,`'' @ f2 @ ''`=?,`''
        @ f3 @ ''`=?,`'' @ f4 @ ''`=?,`'' @ f5 @ ''`=?,`'' @ f6 @ ''`=?,`'' @ f7 @ ''`=?,`'' @ f8
        @ ''`=?,`'' @ f9 @ ''`=?,`'' @ f10 @ ''`=?,`'' @ f11 @ ''`=?,`'' @ f12 @ ''`=?,`'' @ f13 @
        ''`=?,`'' @ f14 @ ''`=? where `id`=?''),
    getSelectSQL = ''select `id`,`'' @ f1 @ ''`,`'' @ f2 @ ''`,`'' @ f3 @ ''`,`'' @ f4 @
        ''`,`'' @ f5 @ ''`,`'' @ f6 @ ''`,`'' @ f7 @ ''`,`'' @ f8 @ ''`,`'' @ f9 @ ''`,`'' @ f10 @
        ''`,`'' @ f11 @ ''`,`'' @ f12 @ ''`,`'' @ f13 @ ''`,`'' @ f14 @ ''` from `'' @ table @
        ''`'',
    save = Some (st_bind 0 [Fld f1, Fld f2, Fld f3, Fld f4, Fld f5, Fld f6, Fld f7, Fld f8,
        Fld f9, Fld f10, Fld f11, Fld f12, Fld f13, Fld f14]),
    update = Some (st_bind 0 [Fld f1, Fld f2, Fld f3, Fld f4, Fld f5, Fld f6, Fld f7, Fld f8,
        Fld f9, Fld f10, Fld f11, Fld f12, Fld f13, Fld f14, IdRef]),
    load = st_getColumn 0 [IdRef, Fld f1, Fld f2, Fld f3, Fld f4, Fld f5, Fld f6, Fld f7,
        Fld f8, Fld f9, Fld f10, Fld f11, Fld f12, Fld f13, Fld f14]\<rparr>"

definition TABLE_BIND15 where
  "TABLE_BIND15 table f1 f2 f3 f4 f5 f6 f7 f8 f9 f10 f11 f12 f13 f14 f15 =
   \<lparr>default_ctor = Some (\<lambda>df. \<lparr>m_id = 0, member = df\<rparr>),
    move_ctor = Some (\<lambda>mv df rv. run_stmts [copy_id, move_field mv f1,
        move_field mv f2, move_field mv f3, move_field mv f4, move_field mv f5, move_field mv f6,
        move_field mv f7, move_field mv f8, move_field mv f9, move_field mv f10,
        move_field mv f11, move_field mv f12, move_field mv f13, move_field mv f14,
        move_field mv f15, reset_id] (\<lparr>m_id = 0, member = df\<rparr>, rv)),
    move_assign = Some (\<lambda>mv same p. if same then p else run_stmts [copy_id,
        move_field mv f1, move_field mv f2, move_field mv f3, move_field mv f4, move_field mv f5,
        move_field mv f6, move_field mv f7, move_field mv f8, move_field mv f9, move_field mv f10,
        move_field mv f11, move_field mv f12, move_field mv f13, move_field mv f14,
        move_field mv f15, reset_id] p),
    valid = (\<lambda>x. m_id x \<noteq> 0),
    getId = Some m_id,
    setId = Some (\<lambda>i x. x\<lparr>m_id := i\<rparr>),
    getRowid = m_id,
    setRowid = (\<lambda>i x. x\<lparr>m_id := i\<rparr>),
    getIndexFieldName = None,
    getTableName = table,
    getInsertSQL = Some (''insert into `'' @ table @ ''` (`'' @ f1 @ ''`,`'' @ f2 @ ''`,`'' @
        f3 @ ''`,`'' @ f4 @ ''`,`'' @ f5 @ ''`,`'' @ f6 @ ''`,`'' @ f7 @ ''`,`'' @ f8 @ ''`,`'' @
        f9 @ ''`,`'' @ f10 @ ''`,`'' @ f11 @ ''`,`'' @ f12 @ ''`,`'' @ f13 @ ''`,`'' @ f14 @
        ''`,`'' @ f15 @ ''`) values (?,?,?,?,?,?,?,?,?,?,?,?,?,?,?)''),
    getUpdateSQL = Some (''update `'' @ table @ ''` set `'' @ f1 @ ''`=?,`'' @ f2 @ ''`=?,`''
        @ f3 @ ''`=?,`'' @ f4 @ ''`=?,`'' @ f5 @ ''`=?,`'' @ f6 @ ''`=?,`'' @ f7 @ ''`=?,`'' @ f8
        @ ''`=?,`'' @ f9 @ ''`=?,`'' @ f10 @ ''`=?,`'' @ f11 @ ''`=?,`'' @ f12 @ ''`=?,`'' @ f13 @
        ''`=?,`'' @ f14 @ ''`=?,`'' @ f15 @ ''`=? where `id`=?''),
    getSelectSQL = ''select `id`,`'' @ f1 @ ''`,`'' @ f2 @ ''`,`'' @ f3 @ ''`,`'' @ f4 @
        ''`,`'' @ f5 @ ''`,`'' @ f6 @ ''`,`'' @ f7 @ ''`,`'' @ f8 @ ''`,`'' @ f9 @ ''`,`'' @ f10 @
        ''`,`'' @ f11 @ ''`,`'' @ f12 @ ''`,`'' @ f13 @ ''`,`'' @ f14 @ ''`,`'' @ f15 @
        ''` from `'' @ table @ ''`'',
    save = Some (st_bind 0 [Fld f1, Fld f2, Fld f3, Fld f4, Fld f5, Fld f6, Fld f7, Fld f8,
        Fld f9, Fld f10, Fld f11, Fld f12, Fld f13, Fld f14, Fld f15]),
    update = Some (st_bind 0 [Fld f1, Fld f2, Fld f3, Fld f4, Fld f5, Fld f6, Fld f7, Fld f8,
        Fld f9, Fld f10, Fld f11, Fld f12, Fld f13, Fld f14, Fld f15, IdRef]),
    load = st_getColumn 0 [IdRef, Fld f1, Fld f2, Fld f3, Fld f4, Fld f5, Fld f6, Fld f7,
        Fld f8, Fld f9, Fld f10, Fld f11, Fld f12, Fld f13, Fld f14, Fld f15]\<rparr>"

definition TABLE_BIND16 where
  "TABLE_BIND16 table f1 f2 f3 f4 f5 f6 f7 f8 f9 f10 f11 f12 f13 f14 f15 f16 =
   \<lparr>default_ctor = Some (\<lambda>df. \<lparr>m_id = 0, member = df\<rparr>),
    move_ctor = Some (\<lambda>mv df rv. run_stmts [copy_id, move_field mv f1,
        move_field mv f2, move_field mv f3, move_field mv f4, move_field mv f5, move_field mv f6,
        move_field mv f7, move_field mv f8, move_field mv f9, move_field mv f10,
        move_field mv f11, move_field mv f12, move_field mv f13, move_field mv f14,
        move_field mv f15, move_field mv f16, reset_id] (\<lparr>m_id = 0, member = df\<rparr>,
        rv)),
    move_assign = Some (\<lambda>mv same p. if same then p else run_stmts [copy_id,
        move_field mv f1, move_field mv f2, move_field mv f3, move_field mv f4, move_field mv f5,
        move_field mv f6, move_field mv f7, move_field mv f8, move_field mv f9, move_field mv f10,
        move_field mv f11, move_field mv f12, move_field mv f13, move_field mv f14,
        move_field mv f15, move_field mv f16, reset_id] p),
    valid = (\<lambda>x. m_id x \<noteq> 0),
    getId = Some m_id,
    setId = Some (\<lambda>i x. x\<lparr>m_id := i\<rparr>),
    getRowid = m_id,
    setRowid = (\<lambda>i x. x\<lparr>m_id := i\<rparr>),
    getIndexFieldName = None,
    getTableName = table,
    getInsertSQL = Some (''insert into `'' @ table @ ''` (`'' @ f1 @ ''`,`'' @ f2 @ ''`,`'' @
        f3 @ ''`,`'' @ f4 @ ''`,`'' @ f5 @ ''`,`'' @ f6 @ ''`,`'' @ f7 @ ''`,`'' @ f8 @ ''`,`'' @
        f9 @ ''`,`'' @ f10 @ ''`,`'' @ f11 @ ''`,`'' @ f12 @ ''`,`'' @ f13 @ ''`,`'' @ f14 @
        ''`,`'' @ f15 @ ''`,`'' @ f16 @ ''`) values (?,?,?,?,?,?,?,?,?,?,?,?,?,?,?,?)''),
    getUpdateSQL = Some (''update `'' @ table @ ''` set `'' @ f1 @ ''`=?,`'' @ f2 @ ''`=?,`''
        @ f3 @ ''`=?,`'' @ f4 @ ''`=?,`'' @ f5 @ ''`=?,`'' @ f6 @ ''`=?,`'' @ f7 @ ''`=?,`'' @ f8
        @ ''`=?,`'' @ f9 @ ''`=?,`'' @ f10 @ ''`=?,`'' @ f11 @ ''`=?,`'' @ f12 @ ''`=?,`'' @ f13 @
        ''`=?,`'' @ f14 @ ''`=?,`'' @ f15 @ ''`=?,`'' @ f16 @ ''`=? where `id`=?''),
    getSelectSQL = ''select `id`,`'' @ f1 @ ''`,`'' @ f2 @ ''`,`'' @ f3 @ ''`,`'' @ f4 @
        ''`,`'' @ f5 @ ''`,`'' @ f6 @ ''`,`'' @ f7 @ ''`,`'' @ f8 @ ''`,`'' @ f9 @ ''`,`'' @ f10 @
        ''`,`'' @ f11 @ ''`,`'' @ f12 @ ''`,`'' @ f13 @ ''`,`'' @ f14 @ ''`,`'' @ f15 @ ''`,`'' @
        f16 @ ''` from `'' @ table @ ''`'',
    save = Some (st_bind 0 [Fld f1, Fld f2, Fld f3, Fld f4, Fld f5, Fld f6, Fld f7, Fld f8,
        Fld f9, Fld f10, Fld f11, Fld f12, Fld f13, Fld f14, Fld f15, Fld f16]),
    update = Some (st_bind 0 [Fld f1, Fld f2, Fld f3, Fld f4, Fld f5, Fld f6, Fld f7, Fld f8,
        Fld f9, Fld f10, Fld f11, Fld f12, Fld f13, Fld f14, Fld f15, Fld f16, IdRef]),
    load = st_getColumn 0 [IdRef, Fld f1, Fld f2, Fld f3, Fld f4, Fld f5, Fld f6, Fld f7,
        Fld f8, Fld f9, Fld f10, Fld f11, Fld f12, Fld f13, Fld f14, Fld f15, Fld f16]\<rparr>"

definition TABLE_BIND17 where
  "TABLE_BIND17 table f1 f2 f3 f4 f5 f6 f7 f8 f9 f10 f11 f12 f13 f14 f15 f16 f17 =
   \<lparr>default_ctor = Some (\<lambda>df. \<lparr>m_id = 0, member = df\<rparr>),
    move_ctor = Some (\<lambda>mv df rv. run_stmts [copy_id, move_field mv f1,
        move_field mv f2, move_field mv f3, move_field mv f4, move_field mv f5, move_field mv f6,
        move_field mv f7, move_field mv f8, move_field mv f9, move_field mv f10,
        move_field mv f11, move_field mv f12, move_field mv f13, move_field mv f14,
        move_field mv f15, move_field mv f16, move_field mv f17, reset_id] (\<lparr>m_id = 0,
        member = df\<rparr>, rv)),
    move_assign = Some (\<lambda>mv same p. if same then p else run_stmts [copy_id,
        move_field mv f1, move_field mv f2, move_field mv f3, move_field mv f4, move_field mv f5,
        move_field mv f6, move_field mv f7, move_field mv f8, move_field mv f9, move_field mv f10,
        move_field mv f11, move_field mv f12, move_field mv f13, move_field mv f14,
        move_field mv f15, move_field mv f16, move_field mv f17, reset_id] p),
    valid = (\<lambda>x. m_id x \<noteq> 0),
    getId = Some m_id,
    setId = Some (\<lambda>i x. x\<lparr>m_id := i\<rparr>),
    getRowid = m_id,
    setRowid = (\<lambda>i x. x\<lparr>m_id := i\<rparr>),
    getIndexFieldName = None,
    getTableName = table,
    getInsertSQL = Some (''insert into `'' @ table @ ''` (`'' @ f1 @ ''`,`'' @ f2 @ ''`,`'' @
        f3 @ ''`,`'' @ f4 @ ''`,`'' @ f5 @ ''`,`'' @ f6 @ ''`,`'' @ f7 @ ''`,`'' @ f8 @ ''`,`'' @
        f9 @ ''`,`'' @ f10 @ ''`,`'' @ f11 @ ''`,`'' @ f12 @ ''`,`'' @ f13 @ ''`,`'' @ f14 @
        ''`,`'' @ f15 @ ''`,`'' @ f16 @ ''`,`'' @ f17 @
        ''`) values (?,?,?,?,?,?,?,?,?,?,?,?,?,?,?,?,?)''),
    getUpdateSQL = Some (''update `'' @ table @ ''` set `'' @ f1 @ ''`=?,`'' @ f2 @ ''`=?,`''
        @ f3 @ ''`=?,`'' @ f4 @ ''`=?,`'' @ f5 @ ''`=?,`'' @ f6 @ ''`=?,`'' @ f7 @ ''`=?,`'' @ f8
        @ ''`=?,`'' @ f9 @ ''`=?,`'' @ f10 @ ''`=?,`'' @ f11 @ ''`=?,`'' @ f12 @ ''`=?,`'' @ f13 @
        ''`=?,`'' @ f14 @ ''`=?,`'' @ f15 @ ''`=?,`'' @ f16 @ ''`=?,`'' @ f17 @
        ''`=? where `id`=?''),
    getSelectSQL = ''select `id`,`'' @ f1 @ ''`,`'' @ f2 @ ''`,`'' @ f3 @ ''`,`'' @ f4 @
        ''`,`'' @ f5 @ ''`,`'' @ f6 @ ''`,`'' @ f7 @ ''`,`'' @ f8 @ ''`,`'' @ f9 @ ''`,`'' @ f10 @
        ''`,`'' @ f11 @ ''`,`'' @ f12 @ ''`,`'' @ f13 @ ''`,`'' @ f14 @ ''`,`'' @ f15 @ ''`,`'' @
        f16 @ ''`,`'' @ f17 @ ''` from `'' @ table @ ''`'',
    save = Some (st_bind 0 [Fld f1, Fld f2, Fld f3, Fld f4, Fld f5, Fld f6, Fld f7, Fld f8,
        Fld f9, Fld f10, Fld f11, Fld f12, Fld f13, Fld f14, Fld f15, Fld f16, Fld f17]),
    update = Some (st_bind 0 [Fld f1, Fld f2, Fld f3, Fld f4, Fld f5, Fld f6, Fld f7, Fld f8,
        Fld f9, Fld f10, Fld f11, Fld f12, Fld f13, Fld f14, Fld f15, Fld f16, Fld f17, IdRef]),
    load = st_getColumn 0 [IdRef, Fld f1, Fld f2, Fld f3, Fld f4, Fld f5, Fld f6, Fld f7,
        Fld f8, Fld f9, Fld f10, Fld f11, Fld f12, Fld f13, Fld f14, Fld f15, Fld f16, Fld f17]\<rparr>"

definition TABLE_BIND18 where
  "TABLE_BIND18 table f1 f2 f3 f4 f5 f6 f7 f8 f9 f10 f11 f12 f13 f14 f15 f16 f17 f18 =
   \<lparr>default_ctor = Some (\<lambda>df. \<lparr>m_id = 0, member = df\<rparr>),
    move_ctor = Some (\<lambda>mv df rv. run_stmts [copy_id, move_field mv f1,
        move_field mv f2, move_field mv f3, move_field mv f4, move_field mv f5, move_field mv f6,
        move_field mv f7, move_field mv f8, move_field mv f9, move_field mv f10,
        move_field mv f11, move_field mv f12, move_field mv f13, move_field mv f14,
        move_field mv f15, move_field mv f16, move_field mv f17, move_field mv f18, reset_id]
        (\<lparr>m_id = 0, member = df\<rparr>, rv)),
    move_assign = Some (\<lambda>mv same p. if same then p else run_stmts [copy_id,
        move_field mv f1, move_field mv f2, move_field mv f3, move_field mv f4, move_field mv f5,
        move_field mv f6, move_field mv f7, move_field mv f8, move_field mv f9, move_field mv f10,
        move_field mv f11, move_field mv f12, move_field mv f13, move_field mv f14,
        move_field mv f15, move_field mv f16, move_field mv f17, move_field mv f18, reset_id] p),
    valid = (\<lambda>x. m_id x \<noteq> 0),
    getId = Some m_id,
    setId = Some (\<lambda>i x. x\<lparr>m_id := i\<rparr>),
    getRowid = m_id,
    setRowid = (\<lambda>i x. x\<lparr>m_id := i\<rparr>),
    getIndexFieldName = None,
    getTableName = table,
    getInsertSQL = Some (''insert into `'' @ table @ ''` (`'' @ f1 @ ''`,`'' @ f2 @ ''`,`'' @
        f3 @ ''`,`'' @ f4 @ ''`,`'' @ f5 @ ''`,`'' @ f6 @ ''`,`'' @ f7 @ ''`,`'' @ f8 @ ''`,`'' @
        f9 @ ''`,`'' @ f10 @ ''`,`'' @ f11 @ ''`,`'' @ f12 @ ''`,`'' @ f13 @ ''`,`'' @ f14 @
        ''`,`'' @ f15 @ ''`,`'' @ f16 @ ''`,`'' @ f17 @ ''`,`'' @ f18 @
        ''`) values (?,?,?,?,?,?,?,?,?,?,?,?,?,?,?,?,?,?)''),
    getUpdateSQL = Some (''update `'' @ table @ ''` set `'' @ f1 @ ''`=?,`'' @ f2 @ ''`=?,`''
        @ f3 @ ''`=?,`'' @ f4 @ ''`=?,`'' @ f5 @ ''`=?,`'' @ f6 @ ''`=?,`'' @ f7 @ ''`=?,`'' @ f8
        @ ''`=?,`'' @ f9 @ ''`=?,`'' @ f10 @ ''`=?,`'' @ f11 @ ''`=?,`'' @ f12 @ ''`=?,`'' @ f13 @
        ''`=?,`'' @ f14 @ ''`=?,`'' @ f15 @ ''`=?,`'' @ f16 @ ''`=?,`'' @ f17 @ ''`=?,`'' @ f18 @
        ''`=? where `id`=?''),
    getSelectSQL = ''select `id`,`'' @ f1 @ ''`,`'' @ f2 @ ''`,`'' @ f3 @ ''`,`'' @ f4 @
        ''`,`'' @ f5 @ ''`,`'' @ f6 @ ''`,`'' @ f7 @ ''`,`'' @ f8 @ ''`,`'' @ f9 @ ''`,`'' @ f10 @
        ''`,`'' @ f11 @ ''`,`'' @ f12 @ ''`,`'' @ f13 @ ''`,`'' @ f14 @ ''`,`'' @ f15 @ ''`,`'' @
        f16 @ ''`,`'' @ f17 @ ''`,`'' @ f18 @ ''` from `'' @ table @ ''`'',
    save = Some (st_bind 0 [Fld f1, Fld f2, Fld f3, Fld f4, Fld f5, Fld f6, Fld f7, Fld f8,
        Fld f9, Fld f10, Fld f11, Fld f12, Fld f13, Fld f14, Fld f15, Fld f16, Fld f17, Fld f18]),
    update = Some (st_bind 0 [Fld f1, Fld f2, Fld f3, Fld f4, Fld f5, Fld f6, Fld f7, Fld f8,
        Fld f9, Fld f10, Fld f11, Fld f12, Fld f13, Fld f14, Fld f15, Fld f16, Fld f17, Fld f18,
        IdRef]),
    load = st_getColumn 0 [IdRef, Fld f1, Fld f2, Fld f3, Fld f4, Fld f5, Fld f6, Fld f7,
        Fld f8, Fld f9, Fld f10, Fld f11, Fld f12, Fld f13, Fld f14, Fld f15, Fld f16, Fld f17,
        Fld f18]\<rparr>"

definition TABLE_BIND19 where
  "TABLE_BIND19 table f1 f2 f3 f4 f5 f6 f7 f8 f9 f10 f11 f12 f13 f14 f15 f16 f17 f18 f19 =
   \<lparr>default_ctor = Some (\<lambda>df. \<lparr>m_id = 0, member = df\<rparr>),
    move_ctor = Some (\<lambda>mv df rv. run_stmts [copy_id, move_field mv f1,
        move_field mv f2, move_field mv f3, move_field mv f4, move_field mv f5, move_field mv f6,
        move_field mv f7, move_field mv f8, move_field mv f9, move_field mv f10,
        move_field mv f11, move_field mv f12, move_field mv f13, move_field mv f14,
        move_field mv f15, move_field mv f16, move_field mv f17, move_field mv f18,
        move_field mv f19, reset_id] (\<lparr>m_id = 0, member = df\<rparr>, rv)),
    move_assign = Some (\<lambda>mv same p. if same then p else run_stmts [copy_id,
        move_field mv f1, move_field mv f2, move_field mv f3, move_field mv f4, move_field mv f5,
        move_field mv f6, move_field mv f7, move_field mv f8, move_field mv f9, move_field mv f10,
        move_field mv f11, move_field mv f12, move_field mv f13, move_field mv f14,
        move_field mv f15, move_field mv f16, move_field mv f17, move_field mv f18,
        move_field mv f19, reset_id] p),
    valid = (\<lambda>x. m_id x \<noteq> 0),
    getId = Some m_id,
    setId = Some (\<lambda>i x. x\<lparr>m_id := i\<rparr>),
    getRowid = m_id,
    setRowid = (\<lambda>i x. x\<lparr>m_id := i\<rparr>),
    getIndexFieldName = None,
    getTableName = table,
    getInsertSQL = Some (''insert into `'' @ table @ ''` (`'' @ f1 @ ''`,`'' @ f2 @ ''`,`'' @
        f3 @ ''`,`'' @ f4 @ ''`,`'' @ f5 @ ''`,`'' @ f6 @ ''`,`'' @ f7 @ ''`,`'' @ f8 @ ''`,`'' @
        f9 @ ''`,`'' @ f10 @ ''`,`'' @ f11 @ ''`,`'' @ f12 @ ''`,`'' @ f13 @ ''`,`'' @ f14 @
        ''`,`'' @ f15 @ ''`,`'' @ f16 @ ''`,`'' @ f17 @ ''`,`'' @ f18 @ ''`,`'' @ f19 @
        ''`) values (?,?,?,?,?,?,?,?,?,?,?,?,?,?,?,?,?,?,?)''),
    getUpdateSQL = Some (''update `'' @ table @ ''` set `'' @ f1 @ ''`=?,`'' @ f2 @ ''`=?,`''
        @ f3 @ ''`=?,`'' @ f4 @ ''`=?,`'' @ f5 @ ''`=?,`'' @ f6 @ ''`=?,`'' @ f7 @ ''`=?,`'' @ f8
        @ ''`=?,`'' @ f9 @ ''`=?,`'' @ f10 @ ''`=?,`'' @ f11 @ ''`=?,`'' @ f12 @ ''`=?,`'' @ f13 @
        ''`=?,`'' @ f14 @ ''`=?,`'' @ f15 @ ''`=?,`'' @ f16 @ ''`=?,`'' @ f17 @ ''`=?,`'' @ f18 @
        ''`=?,`'' @ f19 @ ''`=? where `id`=?''),
    getSelectSQL = ''select `id`,`'' @ f1 @ ''`,`'' @ f2 @ ''`,`'' @ f3 @ ''`,`'' @ f4 @
        ''`,`'' @ f5 @ ''`,`'' @ f6 @ ''`,`'' @ f7 @ ''`,`'' @ f8 @ ''`,`'' @ f9 @ ''`,`'' @ f10 @
        ''`,`'' @ f11 @ ''`,`'' @ f12 @ ''`,`'' @ f13 @ ''`,`'' @ f14 @ ''`,`'' @ f15 @ ''`,`'' @
        f16 @ ''`,`'' @ f17 @ ''`,`'' @ f18 @ ''`,`'' @ f19 @ ''` from `'' @ table @ ''`'',
    save = Some (st_bind 0 [Fld f1, Fld f2, Fld f3, Fld f4, Fld f5, Fld f6, Fld f7, Fld f8,
        Fld f9, Fld f10, Fld f11, Fld f12, Fld f13, Fld f14, Fld f15, Fld f16, Fld f17, Fld f18,
        Fld f19]),
    update = Some (st_bind 0 [Fld f1, Fld f2, Fld f3, Fld f4, Fld f5, Fld f6, Fld f7, Fld f8,
        Fld f9, Fld f10, Fld f11, Fld f12, Fld f13, Fld f14, Fld f15, Fld f16, Fld f17, Fld f18,
        Fld f19, IdRef]),
    load = st_getColumn 0 [IdRef, Fld f1, Fld f2, Fld f3, Fld f4, Fld f5, Fld f6, Fld f7,
        Fld f8, Fld f9, Fld f10, Fld f11, Fld f12, Fld f13, Fld f14, Fld f15, Fld f16, Fld f17,
        Fld f18, Fld f19]\<rparr>"

definition TABLE_BIND20 where
  "TABLE_BIND20 table f1 f2 f3 f4 f5 f6 f7 f8 f9 f10 f11 f12 f13 f14 f15 f16 f17 f18 f19 f20 =
   \<lparr>default_ctor = Some (\<lambda>df. \<lparr>m_id = 0, member = df\<rparr>),
    move_ctor = Some (\<lambda>mv df rv. run_stmts [copy_id, move_field mv f1,
        move_field mv f2, move_field mv f3, move_field mv f4, move_field mv f5, move_field mv f6,
        move_field mv f7, move_field mv f8, move_field mv f9, move_field mv f10,
        move_field mv f11, move_field mv f12, move_field mv f13, move_field mv f14,
        move_field mv f15, move_field mv f16, move_field mv f17, move_field mv f18,
        move_field mv f19, move_field mv f20, reset_id] (\<lparr>m_id = 0, member = df\<rparr>,
        rv)),
    move_assign = Some (\<lambda>mv same p. if same then p else run_stmts [copy_id,
        move_field mv f1, move_field mv f2, move_field mv f3, move_field mv f4, move_field mv f5,
        move_field mv f6, move_field mv f7, move_field mv f8, move_field mv f9, move_field mv f10,
        move_field mv f11, move_field mv f12, move_field mv f13, move_field mv f14,
        move_field mv f15, move_field mv f16, move_field mv f17, move_field mv f18,
        move_field mv f19, move_field mv f20, reset_id] p),
    valid = (\<lambda>x. m_id x \<noteq> 0),
    getId = Some m_id,
    setId = Some (\<lambda>i x. x\<lparr>m_id := i\<rparr>),
    getRowid = m_id,
    setRowid = (\<lambda>i x. x\<lparr>m_id := i\<rparr>),
    getIndexFieldName = None,
    getTableName = table,
    getInsertSQL = Some (''insert into `'' @ table @ ''` (`'' @ f1 @ ''`,`'' @ f2 @ ''`,`'' @
        f3 @ ''`,`'' @ f4 @ ''`,`'' @ f5 @ ''`,`'' @ f6 @ ''`,`'' @ f7 @ ''`,`'' @ f8 @ ''`,`'' @
        f9 @ ''`,`'' @ f10 @ ''`,`'' @ f11 @ ''`,`'' @ f12 @ ''`,`'' @ f13 @ ''`,`'' @ f14 @
        ''`,`'' @ f15 @ ''`,`'' @ f16 @ ''`,`'' @ f17 @ ''`,`'' @ f18 @ ''`,`'' @ f19 @ ''`,`'' @
        f20 @ ''`) values (?,?,?,?,?,?,?,?,?,?,?,?,?,?,?,?,?,?,?,?)''),
    getUpdateSQL = Some (''update `'' @ table @ ''` set `'' @ f1 @ ''`=?,`'' @ f2 @ ''`=?,`''
        @ f3 @ ''`=?,`'' @ f4 @ ''`=?,`'' @ f5 @ ''`=?,`'' @ f6 @ ''`=?,`'' @ f7 @ ''`=?,`'' @ f8
        @ ''`=?,`'' @ f9 @ ''`=?,`'' @ f10 @ ''`=?,`'' @ f11 @ ''`=?,`'' @ f12 @ ''`=?,`'' @ f13 @
        ''`=?,`'' @ f14 @ ''`=?,`'' @ f15 @ ''`=?,`'' @ f16 @ ''`=?,`'' @ f17 @ ''`=?,`'' @ f18 @
        ''`=?,`'' @ f19 @ ''`=?,`'' @ f20 @ ''`=? where `id`=?''),
    getSelectSQL = ''select `id`,`'' @ f1 @ ''`,`'' @ f2 @ ''`,`'' @ f3 @ ''`,`'' @ f4 @
        ''`,`'' @ f5 @ ''`,`'' @ f6 @ ''`,`'' @ f7 @ ''`,`'' @ f8 @ ''`,`'' @ f9 @ ''`,`'' @ f10 @
        ''`,`'' @ f11 @ ''`,`'' @ f12 @ ''`,`'' @ f13 @ ''`,`'' @ f14 @ ''`,`'' @ f15 @ ''`,`'' @
        f16 @ ''`,`'' @ f17 @ ''`,`'' @ f18 @ ''`,`'' @ f19 @ ''`,`'' @ f20 @ ''` from `'' @ table
        @ ''`'',
    save = Some (st_bind 0 [Fld f1, Fld f2, Fld f3, Fld f4, Fld f5, Fld f6, Fld f7, Fld f8,
        Fld f9, Fld f10, Fld f11, Fld f12, Fld f13, Fld f14, Fld f15, Fld f16, Fld f17, Fld f18,
        Fld f19, Fld f20]),
    update = Some (st_bind 0 [Fld f1, Fld f2, Fld f3, Fld f4, Fld f5, Fld f6, Fld f7, Fld f8,
        Fld f9, Fld f10, Fld f11, Fld f12, Fld f13, Fld f14, Fld f15, Fld f16, Fld f17, Fld f18,
        Fld f19, Fld f20, IdRef]),
    load = st_getColumn 0 [IdRef, Fld f1, Fld f2, Fld f3, Fld f4, Fld f5, Fld f6, Fld f7,
        Fld f8, Fld f9, Fld f10, Fld f11, Fld f12, Fld f13, Fld f14, Fld f15, Fld f16, Fld f17,
        Fld f18, Fld f19, Fld f20]\<rparr>"

text \<open>The macro of the family for a list of fields, when there is one of that arity.\<close>

definition TABLE_BIND_n ::
  "string \<Rightarrow> string list \<Rightarrow> ('st, 'd, 't, 'o) table_class option" where
  "TABLE_BIND_n table fs = (case fs of
        [] \<Rightarrow> Some (TABLE_BIND0 table)
      | [f1] \<Rightarrow> Some (TABLE_BIND1 table f1)
      | [f1, f2] \<Rightarrow> Some (TABLE_BIND2 table f1 f2)
      | [f1, f2, f3] \<Rightarrow> Some (TABLE_BIND3 table f1 f2 f3)
      | [f1, f2, f3, f4] \<Rightarrow> Some (TABLE_BIND4 table f1 f2 f3 f4)
      | [f1, f2, f3, f4, f5] \<Rightarrow> Some (TABLE_BIND5 table f1 f2 f3 f4 f5)
      | [f1, f2, f3, f4, f5, f6] \<Rightarrow> Some (TABLE_BIND6 table f1 f2 f3 f4 f5 f6)
      | [f1, f2, f3, f4, f5, f6, f7] \<Rightarrow> Some (TABLE_BIND7 table f1 f2 f3 f4 f5 f6 f7)
      | [f1, f2, f3, f4, f5, f6, f7, f8] \<Rightarrow> Some (TABLE_BIND8 table f1 f2 f3 f4 f5 f6
          f7 f8)
      | [f1, f2, f3, f4, f5, f6, f7, f8, f9] \<Rightarrow> Some (TABLE_BIND9 table f1 f2 f3 f4
          f5 f6 f7 f8 f9)
      | [f1, f2, f3, f4, f5, f6, f7, f8, f9, f10] \<Rightarrow> Some (TABLE_BIND10 table f1 f2
          f3 f4 f5 f6 f7 f8 f9 f10)
      | [f1, f2, f3, f4, f5, f6, f7, f8, f9, f10, f11] \<Rightarrow> Some (TABLE_BIND11 table f1
          f2 f3 f4 f5 f6 f7 f8 f9 f10 f11)
      | [f1, f2, f3, f4, f5, f6, f7, f8, f9, f10, f11, f12] \<Rightarrow> Some (TABLE_BIND12
          table f1 f2 f3 f4 f5 f6 f7 f8 f9 f10 f11 f12)
      | [f1, f2, f3, f4, f5, f6, f7, f8, f9, f10, f11, f12, f13] \<Rightarrow> Some
          (TABLE_BIND13 table f1 f2 f3 f4 f5 f6 f7 f8 f9 f10 f11 f12 f13)
      | [f1, f2, f3, f4, f5, f6, f7, f8, f9, f10, f11, f12, f13, f14] \<Rightarrow> Some
          (TABLE_BIND14 table f1 f2 f3 f4 f5 f6 f7 f8 f9 f10 f11 f12 f13 f14)
      | [f1, f2, f3, f4, f5, f6, f7, f8, f9, f10, f11, f12, f13, f14, f15] \<Rightarrow> Some
          (TABLE_BIND15 table f1 f2 f3 f4 f5 f6 f7 f8 f9 f10 f11 f12 f13 f14 f15)
      | [f1, f2, f3, f4, f5, f6, f7, f8, f9, f10, f11, f12, f13, f14, f15, f16] \<Rightarrow>
          Some (TABLE_BIND16 table f1 f2 f3 f4 f5 f6 f7 f8 f9 f10 f11 f12 f13 f14 f15 f16)
      | [f1, f2, f3, f4, f5, f6, f7, f8, f9, f10, f11, f12, f13, f14, f15, f16, f17]
          \<Rightarrow> Some (TABLE_BIND17 table f1 f2 f3 f4 f5 f6 f7 f8 f9 f10 f11 f12 f13 f14
          f15 f16 f17)
      | [f1, f2, f3, f4, f5, f6, f7, f8, f9, f10, f11, f12, f13, f14, f15, f16, f17, f18]
          \<Rightarrow> Some (TABLE_BIND18 table f1 f2 f3 f4 f5 f6 f7 f8 f9 f10 f11 f12 f13 f14
          f15 f16 f17 f18)
      | [f1, f2, f3, f4, f5, f6, f7, f8, f9, f10, f11, f12, f13, f14, f15, f16, f17, f18, f19]
          \<Rightarrow> Some (TABLE_BIND19 table f1 f2 f3 f4 f5 f6 f7 f8 f9 f10 f11 f12 f13 f14
          f15 f16 f17 f18 f19)
      | [f1, f2, f3, f4, f5, f6, f7, f8, f9, f10, f11, f12, f13, f14, f15, f16, f17, f18, f19,
          f20] \<Rightarrow> Some (TABLE_BIND20 table f1 f2 f3 f4 f5 f6 f7 f8 f9 f10 f11 f12 f13
          f14 f15 f16 f17 f18 f19 f20)
      | _ \<Rightarrow> None)"

section \<open>Each macro is the schema\<close>

lemma table_bind2:
  "TABLE_BIND2 t f1 f2 = table_schema t [f1, f2]"
  by (simp add: table_schema_defs fun_eq_iff TABLE_BIND2_def)

lemma table_bind_arity:
  "TABLE_BIND0 t  = table_schema t []"
  "TABLE_BIND1 t f1 = table_schema t [f1]"
  "TABLE_BIND3 t f1 f2 f3 = table_schema t [f1, f2, f3]"
  "TABLE_BIND4 t f1 f2 f3 f4 = table_schema t [f1, f2, f3, f4]"
  "TABLE_BIND5 t f1 f2 f3 f4 f5 = table_schema t [f1, f2, f3, f4, f5]"
  "TABLE_BIND6 t f1 f2 f3 f4 f5 f6 = table_schema t [f1, f2, f3, f4, f5, f6]"
  "TABLE_BIND7 t f1 f2 f3 f4 f5 f6 f7 = table_schema t [f1, f2, f3, f4, f5, f6, f7]"
  "TABLE_BIND8 t f1 f2 f3 f4 f5 f6 f7 f8 = table_schema t [f1, f2, f3, f4, f5, f6, f7, f8]"
  "TABLE_BIND9 t f1 f2 f3 f4 f5 f6 f7 f8 f9 = table_schema t [f1, f2, f3, f4, f5, f6, f7, f8,
    f9]"
  "TABLE_BIND10 t f1 f2 f3 f4 f5 f6 f7 f8 f9 f10 = table_schema t [f1, f2, f3, f4, f5, f6, f7,
    f8, f9, f10]"
  "TABLE_BIND11 t f1 f2 f3 f4 f5 f6 f7 f8 f9 f10 f11 = table_schema t [f1, f2, f3, f4, f5, f6,
    f7, f8, f9, f10, f11]"
  "TABLE_BIND12 t f1 f2 f3 f4 f5 f6 f7 f8 f9 f10 f11 f12 = table_schema t [f1, f2, f3, f4, f5,
    f6, f7, f8, f9, f10, f11, f12]"
  "TABLE_BIND13 t f1 f2 f3 f4 f5 f6 f7 f8 f9 f10 f11 f12 f13 = table_schema t [f1, f2, f3, f4,
    f5, f6, f7, f8, f9, f10, f11, f12, f13]"
  "TABLE_BIND14 t f1 f2 f3 f4 f5 f6 f7 f8 f9 f10 f11 f12 f13 f14 = table_schema t [f1, f2, f3,
    f4, f5, f6, f7, f8, f9, f10, f11, f12, f13, f14]"
  "TABLE_BIND15 t f1 f2 f3 f4 f5 f6 f7 f8 f9 f10 f11 f12 f13 f14 f15 = table_schema t [f1, f2,
    f3, f4, f5, f6, f7, f8, f9, f10, f11, f12, f13, f14, f15]"
  "TABLE_BIND16 t f1 f2 f3 f4 f5 f6 f7 f8 f9 f10 f11 f12 f13 f14 f15 f16 = table_schema t [f1,
    f2, f3, f4, f5, f6, f7, f8, f9, f10, f11, f12, f13, f14, f15, f16]"
  "TABLE_BIND17 t f1 f2 f3 f4 f5 f6 f7 f8 f9 f10 f11 f12 f13 f14 f15 f16 f17 = table_schema t
    [f1, f2, f3, f4, f5, f6, f7, f8, f9, f10, f11, f12, f13, f14, f15, f16, f17]"
  "TABLE_BIND18 t f1 f2 f3 f4 f5 f6 f7 f8 f9 f10 f11 f12 f13 f14 f15 f16 f17 f18 = table_schema
    t [f1, f2, f3, f4, f5, f6, f7, f8, f9, f10, f11, f12, f13, f14, f15, f16, f17, f18]"
  "TABLE_BIND19 t f1 f2 f3 f4 f5 f6 f7 f8 f9 f10 f11 f12 f13 f14 f15 f16 f17 f18 f19 =
    table_schema t [f1, f2, f3, f4, f5, f6, f7, f8, f9, f10, f11, f12, f13, f14, f15, f16, f17,
    f18, f19]"
  "TABLE_BIND20 t f1 f2 f3 f4 f5 f6 f7 f8 f9 f10 f11 f12 f13 f14 f15 f16 f17 f18 f19 f20 =
    table_schema t [f1, f2, f3, f4, f5, f6, f7, f8, f9, f10, f11, f12, f13, f14, f15, f16, f17,
    f18, f19, f20]"
  by (simp_all add: table_schema_defs fun_eq_iff TABLE_BIND0_def TABLE_BIND1_def
      TABLE_BIND3_def TABLE_BIND4_def TABLE_BIND5_def TABLE_BIND6_def TABLE_BIND7_def
      TABLE_BIND8_def TABLE_BIND9_def TABLE_BIND10_def TABLE_BIND11_def TABLE_BIND12_def
      TABLE_BIND13_def TABLE_BIND14_def TABLE_BIND15_def TABLE_BIND16_def TABLE_BIND17_def
      TABLE_BIND18_def TABLE_BIND19_def TABLE_BIND20_def del: run_stmts.simps)

lemma table_bind_class:
  "TABLE_BIND_n t fs = (if length fs \<le> 20 then Some (table_schema t fs) else None)"
  by (auto simp: TABLE_BIND_n_def table_bind_arity table_bind2 split: list.split)

text \<open>
  Property C23: every \<open>TABLE_BIND\<close> macro, from no field to twenty, declares exactly the class of the
  schema over its fields: the same three SQL texts, the same binding and loading orders, and move
  operations with the same effect although \<open>TABLE_BIND2\<close> resets the id before it moves the fields.
\<close>

theorem table_bind_is_schema:
  "TABLE_BIND_n t fs = (if length fs \<le> 20 then Some (table_schema t fs) else None)"
  by (rule table_bind_class)

section \<open>What is saved is loaded\<close>

text \<open>
  Property C20: for every macro with fields, every table and field names, and every driver that
  binds the parameters the insertion's text has: \<open>save\<close> succeeds, and any row whose selected
  columns hold, by name, what the inserted columns were bound to, loads into an object with the
  row's id and the saved members.
\<close>

theorem table_bind_roundtrip:
  assumes "TABLE_BIND_n t fs = Some c" "save c = Some sv" "getInsertSQL c = Some ins"
    and "plain_name t" "\<forall>f \<in> set fs. plain_name f" "distinct fs"
    and "driver_binds D (sql_params CHR ''`'' ins) bound" "driver_reads D cell"
    and "\<forall>f \<in> set fs. item_ok C (member x f) \<and> same_type (member y f) (member x f)"
  shows "\<exists>st1. sv D C x st = (None, st1) \<and>
    (\<forall>cur rid. cell cur 0 = SqlInt rid \<and>
       (\<forall>i < length fs. \<forall>j \<in> {1..length fs}.
          tl (sql_idents CHR ''`'' ins) ! i = sql_idents CHR ''`'' (getSelectSQL c) ! j \<longrightarrow>
          cell cur j = bound st1 i) \<longrightarrow>
       (\<exists>y'. load c D C cur y = (y', None) \<and> m_id y' = rid \<and>
          (\<forall>f \<in> set fs. member y' f = member x f)))"
proof -
  have c: "c = table_schema t fs" and "fs \<noteq> []"
    using assms(1,2) unfolding table_bind_class by (auto simp: table_schema_def Let_def split: if_splits)
  then have sv: "sv = st_bind 0 (map Fld fs)" and ld: "load c = st_getColumn 0 (IdRef # map Fld fs)"
    using assms(2) by (simp_all add: table_schema_def Let_def)
  from table_schema_texts [OF assms(4,5) \<open>fs \<noteq> []\<close>, where 'a = 'a and 'b = 'b and 'c = 'c and 'd = 'd]
  have texts: "tl (sql_idents CHR ''`'' ins) = fs" "sql_params CHR ''`'' ins = length fs"
    "sql_idents CHR ''`'' (getSelectSQL c) = ''id'' # fs @ [t]"
    using assms(3) by (auto simp: c)
  obtain st1 where st1: "sv D C x st = (None, st1)" "\<forall>k < length fs. bound st1 k = col_of C (member x (fs ! k))"
    using st_bind_cols [OF assms(7), of "map Fld fs" C x st] \<open>fs \<noteq> []\<close> by (auto simp: sv texts(2))
  have "\<exists>y'. load c D C cur y = (y', None) \<and> m_id y' = rid \<and> (\<forall>f \<in> set fs. member y' f = member x f)"
    if "cell cur 0 = SqlInt rid"
      and row: "\<forall>i < length fs. \<forall>j \<in> {1..length fs}. fs ! i = (''id'' # fs @ [t]) ! j \<longrightarrow> cell cur j = bound st1 i"
    for cur rid
  proof -
    let ?x = "x\<lparr>m_id := rid\<rparr>" and ?rs = "IdRef # map Fld fs"
    have "cell cur (Suc k) = bound st1 k" if "k < length fs" for k
      using row that by (auto simp: nth_append)
    then have "cell cur k = col_of C (get_ref ?x (?rs ! k))" if "k < length ?rs" for k
      using that \<open>cell cur 0 = SqlInt rid\<close> st1(2) by (cases k) (auto simp: ucast_id)
    moreover have "distinct ?rs" using assms(6) by (auto simp: distinct_map inj_on_def)
    moreover have "item_ok C (member ?x f) \<and> same_type (member y f) (member ?x f)" if "Fld f \<in> set ?rs" for f
      using that assms(9) by auto
    ultimately obtain y' where y': "load c D C cur y = (y', None)"
      "\<forall>r. get_ref y' r = (if r \<in> set ?rs then get_ref ?x r else get_ref y r)"
      using st_getColumn_cols [OF assms(8), of ?rs cur C ?x y] unfolding ld by blast
    have "get_ref y' IdRef = get_ref ?x IdRef" "\<forall>f \<in> set fs. get_ref y' (Fld f) = get_ref ?x (Fld f)"
      using y'(2) by (simp_all del: get_ref.simps)
    with y'(1) show ?thesis unfolding get_ref_eq_iff by auto
  qed
  with st1(1) show ?thesis unfolding texts by blast
qed

theorem table_bind_roundtrip_witness:
  "\<exists>y'. load (TABLE_BIND2 ''T'' ''a'' ''b'') memory_driver unit_codec
          ((\<lambda>_. SqlNull)(0 := SqlInt 9, 1 := SqlInt (word_of_int (-7)), 2 := SqlText ''hi''))
          \<lparr>m_id = 0, member = (\<lambda>f. if f = ''a'' then IntItem True 32 0 else TextItem [])\<rparr> = (y', None) \<and>
        m_id y' = 9 \<and> member y' ''a'' = IntItem True 32 (-7) \<and> member y' ''b'' = TextItem ''hi''"
proof -
  let ?x = "\<lparr>m_id = 0, member = (\<lambda>f. if f = ''a'' then IntItem True 32 (-7) else TextItem ''hi'')\<rparr>
    :: (unit, unit, unit) table_obj"
  let ?y = "\<lparr>m_id = 0, member = (\<lambda>f. if f = ''a'' then IntItem True 32 0 else TextItem [])\<rparr>
    :: (unit, unit, unit) table_obj"
  let ?cur = "(\<lambda>_. SqlNull)(0 := SqlInt 9, 1 := SqlInt (word_of_int (-7)), 2 := SqlText ''hi'')
    :: nat \<Rightarrow> (unit, unit) sqlval"
  let ?c = "TABLE_BIND2 ''T'' ''a'' ''b'' :: (nat \<Rightarrow> (unit, unit) sqlval, unit, unit, unit) table_class"
  let ?sv = "st_bind 0 [Fld ''a'', Fld ''b''] :: (nat \<Rightarrow> (unit, unit) sqlval, unit, unit) sql_driver \<Rightarrow>
    (unit, unit) sql_codec \<Rightarrow> (unit, unit, unit) table_obj \<Rightarrow> (nat \<Rightarrow> (unit, unit) sqlval) \<Rightarrow>
    (nat \<Rightarrow> (unit, unit) sqlval) outcome"
  let ?ins = "''insert into `T` (`a`,`b`) values (?,?)''"
  have c: "TABLE_BIND_n ''T'' [''a'', ''b''] = Some ?c" "save ?c = Some ?sv" "getInsertSQL ?c = Some ?ins"
    by (simp_all add: TABLE_BIND_n_def TABLE_BIND2_def)
  have sel: "sql_idents CHR ''`'' (getSelectSQL ?c) = [''id'', ''a'', ''b'', ''T'']"
    by (simp add: TABLE_BIND2_def sql_idents_def)
  have ins: "sql_idents CHR ''`'' ?ins = [''T'', ''a'', ''b'']"
    by (simp add: sql_idents_def)
  have names: "plain_name ''T''" "\<forall>f \<in> set [''a'', ''b'']. plain_name f" "distinct [''a'', ''b'']"
    by (simp_all add: plain_name_def)
  have items: "\<forall>f \<in> set [''a'', ''b'']. item_ok unit_codec (member ?x f) \<and> same_type (member ?y f) (member ?x f)"
    by (simp add: int_in_range_def)
  obtain st1 where "?sv memory_driver unit_codec ?x (\<lambda>_. SqlNull) = (None, st1)" and
    all: "\<forall>cur rid. id cur 0 = SqlInt rid \<and>
       (\<forall>i < length [''a'', ''b'']. \<forall>j \<in> {1..length [''a'', ''b'']}.
          tl (sql_idents CHR ''`'' ?ins) ! i = sql_idents CHR ''`'' (getSelectSQL ?c) ! j \<longrightarrow>
          id cur j = id st1 i) \<longrightarrow>
       (\<exists>y'. load ?c memory_driver unit_codec cur ?y = (y', None) \<and> m_id y' = rid \<and>
          (\<forall>f \<in> set [''a'', ''b'']. member y' f = member ?x f))"
    using table_bind_roundtrip [OF c names memory_driver_laws items, of "\<lambda>_. SqlNull"] by blast
  then have "st1 = (\<lambda>_. SqlNull)(0 := SqlInt (word_of_int (-7)), 1 := SqlText ''hi'')"
    by (auto simp: st_bind_def memory_driver_def)
  then have "\<forall>i < length [''a'', ''b'']. \<forall>j \<in> {1..length [''a'', ''b'']}.
      tl (sql_idents CHR ''`'' ?ins) ! i = sql_idents CHR ''`'' (getSelectSQL ?c) ! j \<longrightarrow>
      id ?cur j = id st1 i"
    unfolding sel ins by (auto simp: less_Suc_eq atLeastAtMostSuc_conv numeral_2_eq_2)
  moreover have "id ?cur 0 = SqlInt 9" by simp
  ultimately have "\<exists>y'. load ?c memory_driver unit_codec ?cur ?y = (y', None) \<and> m_id y' = 9 \<and>
      (\<forall>f \<in> set [''a'', ''b'']. member y' f = member ?x f)"
    using all by blast
  then show ?thesis by auto
qed

end
