(* ===== verification/TableNoAutoId.thy ===== *)
theory TableNoAutoId
  imports TableSchema
begin

text \<open>
  The macros \<open>TABLE_NO_AUTOID_BIND1\<close> to \<open>TABLE_NO_AUTOID_BIND20\<close> of
  \<open>db_connect/TableMacro.h\<close>: tables without an automatic id, whose row id column is named by the
  macro's first argument (\<open>m_id\<close> is the member \<open>m_rowid\<close>) and whose objects keep the move
  operations of their class.
\<close>

section \<open>The macros\<close>

definition TABLE_NO_AUTOID_BIND1 where
  "TABLE_NO_AUTOID_BIND1 ROWID table f1 =
   \<lparr>default_ctor = None,
    move_ctor = None,
    move_assign = None,
    valid = (\<lambda>x. m_id x \<noteq> 0),
    getId = None,
    setId = None,
    getRowid = m_id,
    setRowid = (\<lambda>i x. x\<lparr>m_id := i\<rparr>),
    getIndexFieldName = None,
    getTableName = table,
    getInsertSQL = Some (''insert into `'' @ table @ ''` (`'' @ f1 @ ''`) values (?)''),
    getUpdateSQL = Some (''update `'' @ table @ ''` set `'' @ f1 @ ''`=? where `'' @ ROWID @
        ''`=?''),
    getSelectSQL = ''select `'' @ f1 @ ''` from `'' @ table @ ''`'',
    save = Some (st_bind 0 [Fld f1]),
    update = Some (st_bind 0 [Fld f1, IdRef]),
    load = st_getColumn 0 [Fld f1]\<rparr>"

definition TABLE_NO_AUTOID_BIND2 where
  "TABLE_NO_AUTOID_BIND2 ROWID table f1 f2 =
   \<lparr>default_ctor = None,
    move_ctor = None,
    move_assign = None,
    valid = (\<lambda>x. m_id x \<noteq> 0),
    getId = None,
    setId = None,
    getRowid = m_id,
    setRowid = (\<lambda>i x. x\<lparr>m_id := i\<rparr>),
    getIndexFieldName = None,
    getTableName = table,
    getInsertSQL = Some (''insert into `'' @ table @ ''` (`'' @ f1 @ ''`,`'' @ f2 @
        ''`) values (?,?)''),
    getUpdateSQL = Some (''update `'' @ table @ ''` set `'' @ f1 @ ''`=?,`'' @ f2 @
        ''`=? where `'' @ ROWID @ ''`=?''),
    getSelectSQL = ''select `'' @ f1 @ ''`,`'' @ f2 @ ''` from `'' @ table @ ''`'',
    save = Some (st_bind 0 [Fld f1, Fld f2]),
    update = Some (st_bind 0 [Fld f1, Fld f2, IdRef]),
    load = st_getColumn 0 [Fld f1, Fld f2]\<rparr>"

definition TABLE_NO_AUTOID_BIND3 where
  "TABLE_NO_AUTOID_BIND3 ROWID table f1 f2 f3 =
   \<lparr>default_ctor = None,
    move_ctor = None,
    move_assign = None,
    valid = (\<lambda>x. m_id x \<noteq> 0),
    getId = None,
    setId = None,
    getRowid = m_id,
    setRowid = (\<lambda>i x. x\<lparr>m_id := i\<rparr>),
    getIndexFieldName = None,
    getTableName = table,
    getInsertSQL = Some (''insert into `'' @ table @ ''` (`'' @ f1 @ ''`,`'' @ f2 @ ''`,`'' @
        f3 @ ''`) values (?,?,?)''),
    getUpdateSQL = Some (''update `'' @ table @ ''` set `'' @ f1 @ ''`=?,`'' @ f2 @ ''`=?,`''
        @ f3 @ ''`=? where `'' @ ROWID @ ''`=?''),
    getSelectSQL = ''select `'' @ f1 @ ''`,`'' @ f2 @ ''`,`'' @ f3 @ ''` from `'' @ table @
        ''`'',
    save = Some (st_bind 0 [Fld f1, Fld f2, Fld f3]),
    update = Some (st_bind 0 [Fld f1, Fld f2, Fld f3, IdRef]),
    load = st_getColumn 0 [Fld f1, Fld f2, Fld f3]\<rparr>"

definition TABLE_NO_AUTOID_BIND4 where
  "TABLE_NO_AUTOID_BIND4 ROWID table f1 f2 f3 f4 =
   \<lparr>default_ctor = None,
    move_ctor = None,
    move_assign = None,
    valid = (\<lambda>x. m_id x \<noteq> 0),
    getId = None,
    setId = None,
    getRowid = m_id,
    setRowid = (\<lambda>i x. x\<lparr>m_id := i\<rparr>),
    getIndexFieldName = None,
    getTableName = table,
    getInsertSQL = Some (''insert into `'' @ table @ ''` (`'' @ f1 @ ''`,`'' @ f2 @ ''`,`'' @
        f3 @ ''`,`'' @ f4 @ ''`) values (?,?,?,?)''),
    getUpdateSQL = Some (''update `'' @ table @ ''` set `'' @ f1 @ ''`=?,`'' @ f2 @ ''`=?,`''
        @ f3 @ ''`=?,`'' @ f4 @ ''`=? where `'' @ ROWID @ ''`=?''),
    getSelectSQL = ''select `'' @ f1 @ ''`,`'' @ f2 @ ''`,`'' @ f3 @ ''`,`'' @ f4 @
        ''` from `'' @ table @ ''`'',
    save = Some (st_bind 0 [Fld f1, Fld f2, Fld f3, Fld f4]),
    update = Some (st_bind 0 [Fld f1, Fld f2, Fld f3, IdRef]),
    load = st_getColumn 0 [Fld f1, Fld f2, Fld f3]\<rparr>"

definition TABLE_NO_AUTOID_BIND5 where
  "TABLE_NO_AUTOID_BIND5 ROWID table f1 f2 f3 f4 f5 =
   \<lparr>default_ctor = None,
    move_ctor = None,
    move_assign = None,
    valid = (\<lambda>x. m_id x \<noteq> 0),
    getId = None,
    setId = None,
    getRowid = m_id,
    setRowid = (\<lambda>i x. x\<lparr>m_id := i\<rparr>),
    getIndexFieldName = None,
    getTableName = table,
    getInsertSQL = Some (''insert into `'' @ table @ ''` (`'' @ f1 @ ''`,`'' @ f2 @ ''`,`'' @
        f3 @ ''`,`'' @ f4 @ ''`,`'' @ f5 @ ''`) values (?,?,?,?,?)''),
    getUpdateSQL = Some (''update `'' @ table @ ''` set `'' @ f1 @ ''`=?,`'' @ f2 @ ''`=?,`''
        @ f3 @ ''`=?,`'' @ f4 @ ''`=?,`'' @ f5 @ ''`=? where `'' @ ROWID @ ''`=?''),
    getSelectSQL = ''select `'' @ f1 @ ''`,`'' @ f2 @ ''`,`'' @ f3 @ ''`,`'' @ f4 @ ''`,`'' @
        f5 @ ''` from `'' @ table @ ''`'',
    save = Some (st_bind 0 [Fld f1, Fld f2, Fld f3, Fld f4, Fld f5]),
    update = Some (st_bind 0 [Fld f1, Fld f2, Fld f3, Fld f4, Fld f5, IdRef]),
    load = st_getColumn 0 [Fld f1, Fld f2, Fld f3, Fld f4, Fld f5]\<rparr>"

definition TABLE_NO_AUTOID_BIND6 where
  "TABLE_NO_AUTOID_BIND6 ROWID table f1 f2 f3 f4 f5 f6 =
   \<lparr>default_ctor = None,
    move_ctor = None,
    move_assign = None,
    valid = (\<lambda>x. m_id x \<noteq> 0),
    getId = None,
    setId = None,
    getRowid = m_id,
    setRowid = (\<lambda>i x. x\<lparr>m_id := i\<rparr>),
    getIndexFieldName = None,
    getTableName = table,
    getInsertSQL = Some (''insert into `'' @ table @ ''` (`'' @ f1 @ ''`,`'' @ f2 @ ''`,`'' @
        f3 @ ''`,`'' @ f4 @ ''`,`'' @ f5 @ ''`,`'' @ f6 @ ''`) values (?,?,?,?,?,?)''),
    getUpdateSQL = Some (''update `'' @ table @ ''` set `'' @ f1 @ ''`=?,`'' @ f2 @ ''`=?,`''
        @ f3 @ ''`=?,`'' @ f4 @ ''`=?,`'' @ f5 @ ''`=?,`'' @ f6 @ ''`=? where `'' @ ROWID @
        ''`=?''),
    getSelectSQL = ''select `'' @ f1 @ ''`,`'' @ f2 @ ''`,`'' @ f3 @ ''`,`'' @ f4 @ ''`,`'' @
        f5 @ ''`,`'' @ f6 @ ''` from `'' @ table @ ''`'',
    save = Some (st_bind 0 [Fld f1, Fld f2, Fld f3, Fld f4, Fld f5, Fld f6]),
    update = Some (st_bind 0 [Fld f1, Fld f2, Fld f3, Fld f4, Fld f5, Fld f6, IdRef]),
    load = st_getColumn 0 [Fld f1, Fld f2, Fld f3, Fld f4, Fld f5, Fld f6]\<rparr>"

definition TABLE_NO_AUTOID_BIND7 where
  "TABLE_NO_AUTOID_BIND7 ROWID table f1 f2 f3 f4 f5 f6 f7 =
   \<lparr>default_ctor = None,
    move_ctor = None,
    move_assign = None,
    valid = (\<lambda>x. m_id x \<noteq> 0),
    getId = None,
    setId = None,
    getRowid = m_id,
    setRowid = (\<lambda>i x. x\<lparr>m_id := i\<rparr>),
    getIndexFieldName = None,
    getTableName = table,
    getInsertSQL = Some (''insert into `'' @ table @ ''` (`'' @ f1 @ ''`,`'' @ f2 @ ''`,`'' @
        f3 @ ''`,`'' @ f4 @ ''`,`'' @ f5 @ ''`,`'' @ f6 @ ''`,`'' @ f7 @
        ''`) values (?,?,?,?,?,?,?)''),
    getUpdateSQL = Some (''update `'' @ table @ ''` set `'' @ f1 @ ''`=?,`'' @ f2 @ ''`=?,`''
        @ f3 @ ''`=?,`'' @ f4 @ ''`=?,`'' @ f5 @ ''`=?,`'' @ f6 @ ''`=?,`'' @ f7 @ ''`=? where `''
        @ ROWID @ ''`=?''),
    getSelectSQL = ''select `'' @ f1 @ ''`,`'' @ f2 @ ''`,`'' @ f3 @ ''`,`'' @ f4 @ ''`,`'' @
        f5 @ ''`,`'' @ f6 @ ''`,`'' @ f7 @ ''` from `'' @ table @ ''`'',
    save = Some (st_bind 0 [Fld f1, Fld f2, Fld f3, Fld f4, Fld f5, Fld f6, Fld f7]),
    update = Some (st_bind 0 [Fld f1, Fld f2, Fld f3, Fld f4, Fld f5, Fld f6, Fld f7, IdRef]),
    load = st_getColumn 0 [Fld f1, Fld f2, Fld f3, Fld f4, Fld f5, Fld f6, Fld f7]\<rparr>"

definition TABLE_NO_AUTOID_BIND8 where
  "TABLE_NO_AUTOID_BIND8 ROWID table f1 f2 f3 f4 f5 f6 f7 f8 =
   \<lparr>default_ctor = None,
    move_ctor = None,
    move_assign = None,
    valid = (\<lambda>x. m_id x \<noteq> 0),
    getId = None,
    setId = None,
    getRowid = m_id,
    setRowid = (\<lambda>i x. x\<lparr>m_id := i\<rparr>),
    getIndexFieldName = None,
    getTableName = table,
    getInsertSQL = Some (''insert into `'' @ table @ ''` (`'' @ f1 @ ''`,`'' @ f2 @ ''`,`'' @
        f3 @ ''`,`'' @ f4 @ ''`,`'' @ f5 @ ''`,`'' @ f6 @ ''`,`'' @ f7 @ ''`,`'' @ f8 @
        ''`) values (?,?,?,?,?,?,?,?)''),
    getUpdateSQL = Some (''update `'' @ table @ ''` set `'' @ f1 @ ''`=?,`'' @ f2 @ ''`=?,`''
        @ f3 @ ''`=?,`'' @ f4 @ ''`=?,`'' @ f5 @ ''`=?,`'' @ f6 @ ''`=?,`'' @ f7 @ ''`=?,`'' @ f8
        @ ''`=? where `'' @ ROWID @ ''`=?''),
    getSelectSQL = ''select `'' @ f1 @ ''`,`'' @ f2 @ ''`,`'' @ f3 @ ''`,`'' @ f4 @ ''`,`'' @
        f5 @ ''`,`'' @ f6 @ ''`,`'' @ f7 @ ''`,`'' @ f8 @ ''` from `'' @ table @ ''`'',
    save = Some (st_bind 0 [Fld f1, Fld f2, Fld f3, Fld f4, Fld f5, Fld f6, Fld f7, Fld f8]),
    update = Some (st_bind 0 [Fld f1, Fld f2, Fld f3, Fld f4, Fld f5, Fld f6, Fld f7, Fld f8,
        IdRef]),
    load = st_getColumn 0 [Fld f1, Fld f2, Fld f3, Fld f4, Fld f5, Fld f6, Fld f7, Fld f8]\<rparr>"

definition TABLE_NO_AUTOID_BIND9 where
  "TABLE_NO_AUTOID_BIND9 ROWID table f1 f2 f3 f4 f5 f6 f7 f8 f9 =
   \<lparr>default_ctor = None,
    move_ctor = None,
    move_assign = None,
    valid = (\<lambda>x. m_id x \<noteq> 0),
    getId = None,
    setId = None,
    getRowid = m_id,
    setRowid = (\<lambda>i x. x\<lparr>m_id := i\<rparr>),
    getIndexFieldName = None,
    getTableName = table,
    getInsertSQL = Some (''insert into `'' @ table @ ''` (`'' @ f1 @ ''`,`'' @ f2 @ ''`,`'' @
        f3 @ ''`,`'' @ f4 @ ''`,`'' @ f5 @ ''`,`'' @ f6 @ ''`,`'' @ f7 @ ''`,`'' @ f8 @ ''`,`'' @
        f9 @ ''`) values (?,?,?,?,?,?,?,?,?)''),
    getUpdateSQL = Some (''update `'' @ table @ ''` set `'' @ f1 @ ''`=?,`'' @ f2 @ ''`=?,`''
        @ f3 @ ''`=?,`'' @ f4 @ ''`=?,`'' @ f5 @ ''`=?,`'' @ f6 @ ''`=?,`'' @ f7 @ ''`=?,`'' @ f8
        @ ''`=?,`'' @ f9 @ ''`=? where `'' @ ROWID @ ''`=?''),
    getSelectSQL = ''select `'' @ f1 @ ''`,`'' @ f2 @ ''`,`'' @ f3 @ ''`,`'' @ f4 @ ''`,`'' @
        f5 @ ''`,`'' @ f6 @ ''`,`'' @ f7 @ ''`,`'' @ f8 @ ''`,`'' @ f9 @ ''` from `'' @ table @
        ''`'',
    save = Some (st_bind 0 [Fld f1, Fld f2, Fld f3, Fld f4, Fld f5, Fld f6, Fld f7, Fld f8,
        Fld f9]),
    update = Some (st_bind 0 [Fld f1, Fld f2, Fld f3, Fld f4, Fld f5, Fld f6, Fld f7, Fld f8,
        Fld f9, IdRef]),
    load = st_getColumn 0 [Fld f1, Fld f2, Fld f3, Fld f4, Fld f5, Fld f6, Fld f7, Fld f8,
        Fld f9]\<rparr>"

definition TABLE_NO_AUTOID_BIND10 where
  "TABLE_NO_AUTOID_BIND10 ROWID table f1 f2 f3 f4 f5 f6 f7 f8 f9 f10 =
   \<lparr>default_ctor = None,
    move_ctor = None,
    move_assign = None,
    valid = (\<lambda>x. m_id x \<noteq> 0),
    getId = None,
    setId = None,
    getRowid = m_id,
    setRowid = (\<lambda>i x. x\<lparr>m_id := i\<rparr>),
    getIndexFieldName = None,
    getTableName = table,
    getInsertSQL = Some (''insert into `'' @ table @ ''` (`'' @ f1 @ ''`,`'' @ f2 @ ''`,`'' @
        f3 @ ''`,`'' @ f4 @ ''`,`'' @ f5 @ ''`,`'' @ f6 @ ''`,`'' @ f7 @ ''`,`'' @ f8 @ ''`,`'' @
        f9 @ ''`,`'' @ f10 @ ''`) values (?,?,?,?,?,?,?,?,?,?)''),
    getUpdateSQL = Some (''update `'' @ table @ ''` set `'' @ f1 @ ''`=?,`'' @ f2 @ ''`=?,`''
        @ f3 @ ''`=?,`'' @ f4 @ ''`=?,`'' @ f5 @ ''`=?,`'' @ f6 @ ''`=?,`'' @ f7 @ ''`=?,`'' @ f8
        @ ''`=?,`'' @ f9 @ ''`=?,`'' @ f10 @ ''`=? where `'' @ ROWID @ ''`=?''),
    getSelectSQL = ''select `'' @ f1 @ ''`,`'' @ f2 @ ''`,`'' @ f3 @ ''`,`'' @ f4 @ ''`,`'' @
        f5 @ ''`,`'' @ f6 @ ''`,`'' @ f7 @ ''`,`'' @ f8 @ ''`,`'' @ f9 @ ''`,`'' @ f10 @
        ''` from `'' @ table @ ''`'',
    save = Some (st_bind 0 [Fld f1, Fld f2, Fld f3, Fld f4, Fld f5, Fld f6, Fld f7, Fld f8,
        Fld f9, Fld f10]),
    update = Some (st_bind 0 [Fld f1, Fld f2, Fld f3, Fld f4, Fld f5, Fld f6, Fld f7, Fld f8,
        Fld f9, Fld f10, IdRef]),
    load = st_getColumn 0 [Fld f1, Fld f2, Fld f3, Fld f4, Fld f5, Fld f6, Fld f7, Fld f8,
        Fld f9, Fld f10]\<rparr>"

definition TABLE_NO_AUTOID_BIND11 where
  "TABLE_NO_AUTOID_BIND11 ROWID table f1 f2 f3 f4 f5 f6 f7 f8 f9 f10 f11 =
   \<lparr>default_ctor = None,
    move_ctor = None,
    move_assign = None,
    valid = (\<lambda>x. m_id x \<noteq> 0),
    getId = None,
    setId = None,
    getRowid = m_id,
    setRowid = (\<lambda>i x. x\<lparr>m_id := i\<rparr>),
    getIndexFieldName = None,
    getTableName = table,
    getInsertSQL = Some (''insert into `'' @ table @ ''` (`'' @ f1 @ ''`,`'' @ f2 @ ''`,`'' @
        f3 @ ''`,`'' @ f4 @ ''`,`'' @ f5 @ ''`,`'' @ f6 @ ''`,`'' @ f7 @ ''`,`'' @ f8 @ ''`,`'' @
        f9 @ ''`,`'' @ f10 @ ''`,`'' @ f11 @ ''`) values (?,?,?,?,?,?,?,?,?,?,?)''),
    getUpdateSQL = Some (''update `'' @ table @ ''` set `'' @ f1 @ ''`=?,`'' @ f2 @ ''`=?,`''
        @ f3 @ ''`=?,`'' @ f4 @ ''`=?,`'' @ f5 @ ''`=?,`'' @ f6 @ ''`=?,`'' @ f7 @ ''`=?,`'' @ f8
        @ ''`=?,`'' @ f9 @ ''`=?,`'' @ f10 @ ''`=?,`'' @ f11 @ ''`=? where `'' @ ROWID @ ''`=?''),
    getSelectSQL = ''select `'' @ f1 @ ''`,`'' @ f2 @ ''`,`'' @ f3 @ ''`,`'' @ f4 @ ''`,`'' @
        f5 @ ''`,`'' @ f6 @ ''`,`'' @ f7 @ ''`,`'' @ f8 @ ''`,`'' @ f9 @ ''`,`'' @ f10 @ ''`,`'' @
        f11 @ ''` from `'' @ table @ ''`'',
    save = Some (st_bind 0 [Fld f1, Fld f2, Fld f3, Fld f4, Fld f5, Fld f6, Fld f7, Fld f8,
        Fld f9, Fld f10, Fld f11]),
    update = Some (st_bind 0 [Fld f1, Fld f2, Fld f3, Fld f4, Fld f5, Fld f6, Fld f7, Fld f8,
        Fld f9, Fld f10, Fld f11, IdRef]),
    load = st_getColumn 0 [Fld f1, Fld f2, Fld f3, Fld f4, Fld f5, Fld f6, Fld f7, Fld f8,
        Fld f9, Fld f10, Fld f11]\<rparr>"

definition TABLE_NO_AUTOID_BIND12 where
  "TABLE_NO_AUTOID_BIND12 ROWID table f1 f2 f3 f4 f5 f6 f7 f8 f9 f10 f11 f12 =
   \<lparr>default_ctor = None,
    move_ctor = None,
    move_assign = None,
    valid = (\<lambda>x. m_id x \<noteq> 0),
    getId = None,
    setId = None,
    getRowid = m_id,
    setRowid = (\<lambda>i x. x\<lparr>m_id := i\<rparr>),
    getIndexFieldName = None,
    getTableName = table,
    getInsertSQL = Some (''insert into `'' @ table @ ''` (`'' @ f1 @ ''`,`'' @ f2 @ ''`,`'' @
        f3 @ ''`,`'' @ f4 @ ''`,`'' @ f5 @ ''`,`'' @ f6 @ ''`,`'' @ f7 @ ''`,`'' @ f8 @ ''`,`'' @
        f9 @ ''`,`'' @ f10 @ ''`,`'' @ f11 @ ''`,`'' @ f12 @
        ''`) values (?,?,?,?,?,?,?,?,?,?,?,?)''),
    getUpdateSQL = Some (''update `'' @ table @ ''` set `'' @ f1 @ ''`=?,`'' @ f2 @ ''`=?,`''
        @ f3 @ ''`=?,`'' @ f4 @ ''`=?,`'' @ f5 @ ''`=?,`'' @ f6 @ ''`=?,`'' @ f7 @ ''`=?,`'' @ f8
        @ ''`=?,`'' @ f9 @ ''`=?,`'' @ f10 @ ''`=?,`'' @ f11 @ ''`=?,`'' @ f12 @ ''`=? where `'' @
        ROWID @ ''`=?''),
    getSelectSQL = ''select `'' @ f1 @ ''`,`'' @ f2 @ ''`,`'' @ f3 @ ''`,`'' @ f4 @ ''`,`'' @
        f5 @ ''`,`'' @ f6 @ ''`,`'' @ f7 @ ''`,`'' @ f8 @ ''`,`'' @ f9 @ ''`,`'' @ f10 @ ''`,`'' @
        f11 @ ''`,`'' @ f12 @ ''` from `'' @ table @ ''`'',
    save = Some (st_bind 0 [Fld f1, Fld f2, Fld f3, Fld f4, Fld f5, Fld f6, Fld f7, Fld f8,
        Fld f9, Fld f10, Fld f11, Fld f12]),
    update = Some (st_bind 0 [Fld f1, Fld f2, Fld f3, Fld f4, Fld f5, Fld f6, Fld f7, Fld f8,
        Fld f9, Fld f10, Fld f11, Fld f12, IdRef]),
    load = st_getColumn 0 [Fld f1, Fld f2, Fld f3, Fld f4, Fld f5, Fld f6, Fld f7, Fld f8,
        Fld f9, Fld f10, Fld f11, Fld f12]\<rparr>"

definition TABLE_NO_AUTOID_BIND13 where
  "TABLE_NO_AUTOID_BIND13 ROWID table f1 f2 f3 f4 f5 f6 f7 f8 f9 f10 f11 f12 f13 =
   \<lparr>default_ctor = None,
    move_ctor = None,
    move_assign = None,
    valid = (\<lambda>x. m_id x \<noteq> 0),
    getId = None,
    setId = None,
    getRowid = m_id,
    setRowid = (\<lambda>i x. x\<lparr>m_id := i\<rparr>),
    getIndexFieldName = None,
    getTableName = table,
    getInsertSQL = Some (''insert into `'' @ table @ ''` (`'' @ f1 @ ''`,`'' @ f2 @ ''`,`'' @
        f3 @ ''`,`'' @ f4 @ ''`,`'' @ f5 @ ''`,`'' @ f6 @ ''`,`'' @ f7 @ ''`,`'' @ f8 @ ''`,`'' @
        f9 @ ''`,`'' @ f10 @ ''`,`'' @ f11 @ ''`,`'' @ f12 @ ''`,`'' @ f13 @
        ''`) values (?,?,?,?,?,?,?,?,?,?,?,?,?)''),
    getUpdateSQL = Some (''update `'' @ table @ ''` set `'' @ f1 @ ''`=?,`'' @ f2 @ ''`=?,`''
        @ f3 @ ''`=?,`'' @ f4 @ ''`=?,`'' @ f5 @ ''`=?,`'' @ f6 @ ''`=?,`'' @ f7 @ ''`=?,`'' @ f8
        @ ''`=?,`'' @ f9 @ ''`=?,`'' @ f10 @ ''`=?,`'' @ f11 @ ''`=?,`'' @ f12 @ ''`=?,`'' @ f13 @
        ''`=? where `'' @ ROWID @ ''`=?''),
    getSelectSQL = ''select `'' @ f1 @ ''`,`'' @ f2 @ ''`,`'' @ f3 @ ''`,`'' @ f4 @ ''`,`'' @
        f5 @ ''`,`'' @ f6 @ ''`,`'' @ f7 @ ''`,`'' @ f8 @ ''`,`'' @ f9 @ ''`,`'' @ f10 @ ''`,`'' @
        f11 @ ''`,`'' @ f12 @ ''`,`'' @ f13 @ ''` from `'' @ table @ ''`'',
    save = Some (st_bind 0 [Fld f1, Fld f2, Fld f3, Fld f4, Fld f5, Fld f6, Fld f7, Fld f8,
        Fld f9, Fld f10, Fld f11, Fld f12, Fld f13]),
    update = Some (st_bind 0 [Fld f1, Fld f2, Fld f3, Fld f4, Fld f5, Fld f6, Fld f7, Fld f8,
        Fld f9, Fld f10, Fld f11, Fld f12, Fld f13, IdRef]),
    load = st_getColumn 0 [Fld f1, Fld f2, Fld f3, Fld f4, Fld f5, Fld f6, Fld f7, Fld f8,
        Fld f9, Fld f10, Fld f11, Fld f12, Fld f13]\<rparr>"

definition TABLE_NO_AUTOID_BIND14 where
  "TABLE_NO_AUTOID_BIND14 ROWID table f1 f2 f3 f4 f5 f6 f7 f8 f9 f10 f11 f12 f13 f14 =
   \<lparr>default_ctor = None,
    move_ctor = None,
    move_assign = None,
    valid = (\<lambda>x. m_id x \<noteq> 0),
    getId = None,
    setId = None,
    getRowid = m_id,
    setRowid = (\<lambda>i x. x\<lparr>m_id := i\<rparr>),
    getIndexFieldName = None,
    getTableName = table,
    getInsertSQL = Some (''insert into `'' @ table @ ''` (`'' @ f1 @ ''`,`'' @ f2 @ ''`,`'' @
        f3 @ ''`,`'' @ f4 @ ''`,`'' @ f5 @ ''`,`'' @ f6 @ ''`,`'' @ f7 @ ''`,`'' @ f8 @ ''`,`'' @
        f9 @ ''`,`'' @ f10 @ ''`,`'' @ f11 @ ''`,`'' @ f12 @ ''`,`'' @ f13 @ ''`,`'' @ f14 @
        ''`) values (?,?,?,?,?,?,?,?,?,?,?,?,?,?)''),
    getUpdateSQL = Some (''update `'' @ table @ ''` set `'' @ f1 @ ''`=?,`'' @ f2 @ ''`=?,`''
        @ f3 @ ''`=?,`'' @ f4 @ ''`=?,`'' @ f5 @ ''`=?,`'' @ f6 @ ''`=?,`'' @ f7 @ ''`=?,`'' @ f8
        @ ''`=?,`'' @ f9 @ ''`=?,`'' @ f10 @ ''`=?,`'' @ f11 @ ''`=?,`'' @ f12 @ ''`=?,`'' @ f13 @
        ''`=?,`'' @ f14 @ ''`=? where `'' @ ROWID @ ''`=?''),
    getSelectSQL = ''select `'' @ f1 @ ''`,`'' @ f2 @ ''`,`'' @ f3 @ ''`,`'' @ f4 @ ''`,`'' @
        f5 @ ''`,`'' @ f6 @ ''`,`'' @ f7 @ ''`,`'' @ f8 @ ''`,`'' @ f9 @ ''`,`'' @ f10 @ ''`,`'' @
        f11 @ ''`,`'' @ f12 @ ''`,`'' @ f13 @ ''`,`'' @ f14 @ ''` from `'' @ table @ ''`'',
    save = Some (st_bind 0 [Fld f1, Fld f2, Fld f3, Fld f4, Fld f5, Fld f6, Fld f7, Fld f8,
        Fld f9, Fld f10, Fld f11, Fld f12, Fld f13, Fld f14]),
    update = Some (st_bind 0 [Fld f1, Fld f2, Fld f3, Fld f4, Fld f5, Fld f6, Fld f7, Fld f8,
        Fld f9, Fld f10, Fld f11, Fld f12, Fld f13, Fld f14, IdRef]),
    load = st_getColumn 0 [Fld f1, Fld f2, Fld f3, Fld f4, Fld f5, Fld f6, Fld f7, Fld f8,
        Fld f9, Fld f10, Fld f11, Fld f12, Fld f13, Fld f14]\<rparr>"

definition TABLE_NO_AUTOID_BIND15 where
  "TABLE_NO_AUTOID_BIND15 ROWID table f1 f2 f3 f4 f5 f6 f7 f8 f9 f10 f11 f12 f13 f14 f15 =
   \<lparr>default_ctor = None,
    move_ctor = None,
    move_assign = None,
    valid = (\<lambda>x. m_id x \<noteq> 0),
    getId = None,
    setId = None,
    getRowid = m_id,
    setRowid = (\<lambda>i x. x\<lparr>m_id := i\<rparr>),
    getIndexFieldName = None,
    getTableName = table,
    getInsertSQL = Some (''insert into `'' @ table @ ''` (`'' @ f1 @ ''`,`'' @ f2 @ ''`,`'' @
        f3 @ ''`,`'' @ f4 @ ''`,`'' @ f5 @ ''`,`'' @ f6 @ ''`,`'' @ f7 @ ''`,`'' @ f8 @ ''`,`'' @
        f9 @ ''`,`'' @ f10 @ ''`,`'' @ f11 @ ''`,`'' @ f12 @ ''`,`'' @ f13 @ ''`,`'' @ f14 @
        ''`,`'' @ f15 @ ''`) values (?,?,?,?,?,?,?,?,?,?,?,?,?,?,?)''),
    getUpdateSQL = Some (''update `'' @ table @ ''` set `'' @ f1 @ ''`=?,`'' @ f2 @ ''`=?,`''
        @ f3 @ ''`=?,`'' @ f4 @ ''`=?,`'' @ f5 @ ''`=?,`'' @ f6 @ ''`=?,`'' @ f7 @ ''`=?,`'' @ f8
        @ ''`=?,`'' @ f9 @ ''`=?,`'' @ f10 @ ''`=?,`'' @ f11 @ ''`=?,`'' @ f12 @ ''`=?,`'' @ f13 @
        ''`=?,`'' @ f14 @ ''`=?,`'' @ f15 @ ''`=? where `'' @ ROWID @ ''`=?''),
    getSelectSQL = ''select `'' @ f1 @ ''`,`'' @ f2 @ ''`,`'' @ f3 @ ''`,`'' @ f4 @ ''`,`'' @
        f5 @ ''`,`'' @ f6 @ ''`,`'' @ f7 @ ''`,`'' @ f8 @ ''`,`'' @ f9 @ ''`,`'' @ f10 @ ''`,`'' @
        f11 @ ''`,`'' @ f12 @ ''`,`'' @ f13 @ ''`,`'' @ f14 @ ''`,`'' @ f15 @ ''` from `'' @ table
        @ ''`'',
    save = Some (st_bind 0 [Fld f1, Fld f2, Fld f3, Fld f4, Fld f5, Fld f6, Fld f7, Fld f8,
        Fld f9, Fld f10, Fld f11, Fld f12, Fld f13, Fld f14, Fld f15]),
    update = Some (st_bind 0 [Fld f1, Fld f2, Fld f3, Fld f4, Fld f5, Fld f6, Fld f7, Fld f8,
        Fld f9, Fld f10, Fld f11, Fld f12, Fld f13, Fld f14, Fld f15, IdRef]),
    load = st_getColumn 0 [Fld f1, Fld f2, Fld f3, Fld f4, Fld f5, Fld f6, Fld f7, Fld f8,
        Fld f9, Fld f10, Fld f11, Fld f12, Fld f13, Fld f14, Fld f15]\<rparr>"

definition TABLE_NO_AUTOID_BIND16 where
  "TABLE_NO_AUTOID_BIND16 ROWID table f1 f2 f3 f4 f5 f6 f7 f8 f9 f10 f11 f12 f13 f14 f15 f16 =
   \<lparr>default_ctor = None,
    move_ctor = None,
    move_assign = None,
    valid = (\<lambda>x. m_id x \<noteq> 0),
    getId = None,
    setId = None,
    getRowid = m_id,
    setRowid = (\<lambda>i x. x\<lparr>m_id := i\<rparr>),
    getIndexFieldName = None,
    getTableName = table,
    getInsertSQL = Some (''insert into `'' @ table @ ''` (`'' @ f1 @ ''`,`'' @ f2 @ ''`,`'' @
        f3 @ ''`,`'' @ f4 @ ''`,`'' @ f5 @ ''`,`'' @ f6 @ ''`,`'' @ f7 @ ''`,`'' @ f8 @ ''`,`'' @
        f9 @ ''`,`'' @ f10 @ ''`,`'' @ f11 @ ''`,`'' @ f12 @ ''`,`'' @ f13 @ ''`,`'' @ f14 @
        ''`,`'' @ f15 @ ''`,`'' @ f16 @ ''`) values (?,?,?,?,?,?,?,?,?,?,?,?,?,?,?,?)''),
    getUpdateSQL = Some (''update `'' @ table @ ''` set `'' @ f1 @ ''`=?,`'' @ f2 @ ''`=?,`''
        @ f3 @ ''`=?,`'' @ f4 @ ''`=?,`'' @ f5 @ ''`=?,`'' @ f6 @ ''`=?,`'' @ f7 @ ''`=?,`'' @ f8
        @ ''`=?,`'' @ f9 @ ''`=?,`'' @ f10 @ ''`=?,`'' @ f11 @ ''`=?,`'' @ f12 @ ''`=?,`'' @ f13 @
        ''`=?,`'' @ f14 @ ''`=?,`'' @ f15 @ ''`=?,`'' @ f16 @ ''`=? where `'' @ ROWID @ ''`=?''),
    getSelectSQL = ''select `'' @ f1 @ ''`,`'' @ f2 @ ''`,`'' @ f3 @ ''`,`'' @ f4 @ ''`,`'' @
        f5 @ ''`,`'' @ f6 @ ''`,`'' @ f7 @ ''`,`'' @ f8 @ ''`,`'' @ f9 @ ''`,`'' @ f10 @ ''`,`'' @
        f11 @ ''`,`'' @ f12 @ ''`,`'' @ f13 @ ''`,`'' @ f14 @ ''`,`'' @ f15 @ ''`,`'' @ f16 @
        ''` from `'' @ table @ ''`'',
    save = Some (st_bind 0 [Fld f1, Fld f2, Fld f3, Fld f4, Fld f5, Fld f6, Fld f7, Fld f8,
        Fld f9, Fld f10, Fld f11, Fld f12, Fld f13, Fld f14, Fld f15, Fld f16]),
    update = Some (st_bind 0 [Fld f1, Fld f2, Fld f3, Fld f4, Fld f5, Fld f6, Fld f7, Fld f8,
        Fld f9, Fld f10, Fld f11, Fld f12, Fld f13, Fld f14, Fld f15, Fld f16, IdRef]),
    load = st_getColumn 0 [Fld f1, Fld f2, Fld f3, Fld f4, Fld f5, Fld f6, Fld f7, Fld f8,
        Fld f9, Fld f10, Fld f11, Fld f12, Fld f13, Fld f14, Fld f15, Fld f16]\<rparr>"

definition TABLE_NO_AUTOID_BIND17 where
  "TABLE_NO_AUTOID_BIND17 ROWID table f1 f2 f3 f4 f5 f6 f7 f8 f9 f10 f11 f12 f13 f14 f15 f16 f17 =
   \<lparr>default_ctor = None,
    move_ctor = None,
    move_assign = None,
    valid = (\<lambda>x. m_id x \<noteq> 0),
    getId = None,
    setId = None,
    getRowid = m_id,
    setRowid = (\<lambda>i x. x\<lparr>m_id := i\<rparr>),
    getIndexFieldName = None,
    getTableName = table,
    getInsertSQL = Some (''insert into `'' @ table @ ''` (`'' @ f1 @ ''`,`'' @ f2 @ ''`,`'' @
        f3 @ ''`,`'' @ f4 @ ''`,`'' @ f5 @ ''`,`'' @ f6 @ ''`,`'' @ f7 @ ''`,`'' @ f8 @ ''`,`'' @
        f9 @ ''`,`'' @ f10 @ ''`,`'' @ f11 @ ''`,`'' @ f12 @ ''`,`'' @ f13 @ ''`,`'' @ f14 @
        ''`,`'' @ f15 @ ''`,`'' @ f16 @ ''`,`'' @ f17 @
        ''`) values (?,?,?,?,?,?,?,?,?,?,?,?,?,?,?,?,?)''),
    getUpdateSQL = Some (''update `'' @ table @ ''` set `'' @ f1 @ ''`=?,`'' @ f2 @ ''`=?,`''
        @ f3 @ ''`=?,`'' @ f4 @ ''`=?,`'' @ f5 @ ''`=?,`'' @ f6 @ ''`=?,`'' @ f7 @ ''`=?,`'' @ f8
        @ ''`=?,`'' @ f9 @ ''`=?,`'' @ f10 @ ''`=?,`'' @ f11 @ ''`=?,`'' @ f12 @ ''`=?,`'' @ f13 @
        ''`=?,`'' @ f14 @ ''`=?,`'' @ f15 @ ''`=?,`'' @ f16 @ ''`=?,`'' @ f17 @ ''`=? where `'' @
        ROWID @ ''`=?''),
    getSelectSQL = ''select `'' @ f1 @ ''`,`'' @ f2 @ ''`,`'' @ f3 @ ''`,`'' @ f4 @ ''`,`'' @
        f5 @ ''`,`'' @ f6 @ ''`,`'' @ f7 @ ''`,`'' @ f8 @ ''`,`'' @ f9 @ ''`,`'' @ f10 @ ''`,`'' @
        f11 @ ''`,`'' @ f12 @ ''`,`'' @ f13 @ ''`,`'' @ f14 @ ''`,`'' @ f15 @ ''`,`'' @ f16 @
        ''`,`'' @ f17 @ ''` from `'' @ table @ ''`'',
    save = Some (st_bind 0 [Fld f1, Fld f2, Fld f3, Fld f4, Fld f5, Fld f6, Fld f7, Fld f8,
        Fld f9, Fld f10, Fld f11, Fld f12, Fld f13, Fld f14, Fld f15, Fld f16, Fld f17]),
    update = Some (st_bind 0 [Fld f1, Fld f2, Fld f3, Fld f4, Fld f5, Fld f6, Fld f7, Fld f8,
        Fld f9, Fld f10, Fld f11, Fld f12, Fld f13, Fld f14, Fld f15, Fld f16, Fld f17, IdRef]),
    load = st_getColumn 0 [Fld f1, Fld f2, Fld f3, Fld f4, Fld f5, Fld f6, Fld f7, Fld f8,
        Fld f9, Fld f10, Fld f11, Fld f12, Fld f13, Fld f14, Fld f15, Fld f16, Fld f17]\<rparr>"

definition TABLE_NO_AUTOID_BIND18 where
  "TABLE_NO_AUTOID_BIND18 ROWID table f1 f2 f3 f4 f5 f6 f7 f8 f9 f10 f11 f12 f13 f14 f15 f16 f17
     f18 =
   \<lparr>default_ctor = None,
    move_ctor = None,
    move_assign = None,
    valid = (\<lambda>x. m_id x \<noteq> 0),
    getId = None,
    setId = None,
    getRowid = m_id,
    setRowid = (\<lambda>i x. x\<lparr>m_id := i\<rparr>),
    getIndexFieldName = None,
    getTableName = table,
    getInsertSQL = Some (''insert into `'' @ table @ ''` (`'' @ f1 @ ''`,`'' @ f2 @ ''`,`'' @
        f3 @ ''`,`'' @ f4 @ ''`,`'' @ f5 @ ''`,`'' @ f6 @ ''`,`'' @ f7 @ ''`,`'' @ f8 @ ''`,`'' @
        f9 @ ''`,`'' @ f10 @ ''`,`'' @ f11 @ ''`,`'' @ f12 @ ''`,`'' @ f13 @ ''`,`'' @ f14 @
        ''`,`'' @ f15 @ ''`,`'' @ f16 @ ''`,`'' @ f17 @ ''`,`'' @ f18 @
        ''`) values (?,?,?,?,?,?,?,?,?,?,?,?,?,?,?,?,?,?)''),
    getUpdateSQL = Some (''update `'' @ table @ ''` set `'' @ f1 @ ''`=?,`'' @ f2 @ ''`=?,`''
        @ f3 @ ''`=?,`'' @ f4 @ ''`=?,`'' @ f5 @ ''`=?,`'' @ f6 @ ''`=?,`'' @ f7 @ ''`=?,`'' @ f8
        @ ''`=?,`'' @ f9 @ ''`=?,`'' @ f10 @ ''`=?,`'' @ f11 @ ''`=?,`'' @ f12 @ ''`=?,`'' @ f13 @
        ''`=?,`'' @ f14 @ ''`=?,`'' @ f15 @ ''`=?,`'' @ f16 @ ''`=?,`'' @ f17 @ ''`=?,`'' @ f18 @
        ''`=? where `'' @ ROWID @ ''`=?''),
    getSelectSQL = ''select `'' @ f1 @ ''`,`'' @ f2 @ ''`,`'' @ f3 @ ''`,`'' @ f4 @ ''`,`'' @
        f5 @ ''`,`'' @ f6 @ ''`,`'' @ f7 @ ''`,`'' @ f8 @ ''`,`'' @ f9 @ ''`,`'' @ f10 @ ''`,`'' @
        f11 @ ''`,`'' @ f12 @ ''`,`'' @ f13 @ ''`,`'' @ f14 @ ''`,`'' @ f15 @ ''`,`'' @ f16 @
        ''`,`'' @ f17 @ ''`,`'' @ f18 @ ''` from `'' @ table @ ''`'',
    save = Some (st_bind 0 [Fld f1, Fld f2, Fld f3, Fld f4, Fld f5, Fld f6, Fld f7, Fld f8,
        Fld f9, Fld f10, Fld f11, Fld f12, Fld f13, Fld f14, Fld f15, Fld f16, Fld f17, Fld f18]),
    update = Some (st_bind 0 [Fld f1, Fld f2, Fld f3, Fld f4, Fld f5, Fld f6, Fld f7, Fld f8,
        Fld f9, Fld f10, Fld f11, Fld f12, Fld f13, Fld f14, Fld f15, Fld f16, Fld f17, Fld f18,
        IdRef]),
    load = st_getColumn 0 [Fld f1, Fld f2, Fld f3, Fld f4, Fld f5, Fld f6, Fld f7, Fld f8,
        Fld f9, Fld f10, Fld f11, Fld f12, Fld f13, Fld f14, Fld f15, Fld f16, Fld f17, Fld f18]\<rparr>"

definition TABLE_NO_AUTOID_BIND19 where
  "TABLE_NO_AUTOID_BIND19 ROWID table f1 f2 f3 f4 f5 f6 f7 f8 f9 f10 f11 f12 f13 f14 f15 f16 f17
     f18 f19 =
   \<lparr>default_ctor = None,
    move_ctor = None,
    move_assign = None,
    valid = (\<lambda>x. m_id x \<noteq> 0),
    getId = None,
    setId = None,
    getRowid = m_id,
    setRowid = (\<lambda>i x. x\<lparr>m_id := i\<rparr>),
    getIndexFieldName = None,
    getTableName = table,
    getInsertSQL = Some (''insert into `'' @ table @ ''` (`'' @ f1 @ ''`,`'' @ f2 @ ''`,`'' @
        f3 @ ''`,`'' @ f4 @ ''`,`'' @ f5 @ ''`,`'' @ f6 @ ''`,`'' @ f7 @ ''`,`'' @ f8 @ ''`,`'' @
        f9 @ ''`,`'' @ f10 @ ''`,`'' @ f11 @ ''`,`'' @ f12 @ ''`,`'' @ f13 @ ''`,`'' @ f14 @
        ''`,`'' @ f15 @ ''`,`'' @ f16 @ ''`,`'' @ f17 @ ''`,`'' @ f18 @ ''`,`'' @ f19 @
        ''`) values (?,?,?,?,?,?,?,?,?,?,?,?,?,?,?,?,?,?,?)''),
    getUpdateSQL = Some (''update `'' @ table @ ''` set `'' @ f1 @ ''`=?,`'' @ f2 @ ''`=?,`''
        @ f3 @ ''`=?,`'' @ f4 @ ''`=?,`'' @ f5 @ ''`=?,`'' @ f6 @ ''`=?,`'' @ f7 @ ''`=?,`'' @ f8
        @ ''`=?,`'' @ f9 @ ''`=?,`'' @ f10 @ ''`=?,`'' @ f11 @ ''`=?,`'' @ f12 @ ''`=?,`'' @ f13 @
        ''`=?,`'' @ f14 @ ''`=?,`'' @ f15 @ ''`=?,`'' @ f16 @ ''`=?,`'' @ f17 @ ''`=?,`'' @ f18 @
        ''`=?,`'' @ f19 @ ''`=? where `'' @ ROWID @ ''`=?''),
    getSelectSQL = ''select `'' @ f1 @ ''`,`'' @ f2 @ ''`,`'' @ f3 @ ''`,`'' @ f4 @ ''`,`'' @
        f5 @ ''`,`'' @ f6 @ ''`,`'' @ f7 @ ''`,`'' @ f8 @ ''`,`'' @ f9 @ ''`,`'' @ f10 @ ''`,`'' @
        f11 @ ''`,`'' @ f12 @ ''`,`'' @ f13 @ ''`,`'' @ f14 @ ''`,`'' @ f15 @ ''`,`'' @ f16 @
        ''`,`'' @ f17 @ ''`,`'' @ f18 @ ''`,`'' @ f19 @ ''` from `'' @ table @ ''`'',
    save = Some (st_bind 0 [Fld f1, Fld f2, Fld f3, Fld f4, Fld f5, Fld f6, Fld f7, Fld f8,
        Fld f9, Fld f10, Fld f11, Fld f12, Fld f13, Fld f14, Fld f15, Fld f16, Fld f17, Fld f18,
        Fld f19]),
    update = Some (st_bind 0 [Fld f1, Fld f2, Fld f3, Fld f4, Fld f5, Fld f6, Fld f7, Fld f8,
        Fld f9, Fld f10, Fld f11, Fld f12, Fld f13, Fld f14, Fld f15, Fld f16, Fld f17, Fld f18,
        Fld f19, IdRef]),
    load = st_getColumn 0 [Fld f1, Fld f2, Fld f3, Fld f4, Fld f5, Fld f6, Fld f7, Fld f8,
        Fld f9, Fld f10, Fld f11, Fld f12, Fld f13, Fld f14, Fld f15, Fld f16, Fld f17, Fld f18,
        Fld f19]\<rparr>"

definition TABLE_NO_AUTOID_BIND20 where
  "TABLE_NO_AUTOID_BIND20 ROWID table f1 f2 f3 f4 f5 f6 f7 f8 f9 f10 f11 f12 f13 f14 f15 f16 f17
     f18 f19 f20 =
   \<lparr>default_ctor = None,
    move_ctor = None,
    move_assign = None,
    valid = (\<lambda>x. m_id x \<noteq> 0),
    getId = None,
    setId = None,
    getRowid = m_id,
    setRowid = (\<lambda>i x. x\<lparr>m_id := i\<rparr>),
    getIndexFieldName = None,
    getTableName = table,
    getInsertSQL = Some (''insert into `'' @ table @ ''` (`'' @ f1 @ ''`,`'' @ f2 @ ''`,`'' @
        f3 @ ''`,`'' @ f4 @ ''`,`'' @ f5 @ ''`,`'' @ f6 @ ''`,`'' @ f7 @ ''`,`'' @ f8 @ ''`,`'' @
        f9 @ ''`,`'' @ f10 @ ''`,`'' @ f11 @ ''`,`'' @ f12 @ ''`,`'' @ f13 @ ''`,`'' @ f14 @
        ''`,`'' @ f15 @ ''`,`'' @ f16 @ ''`,`'' @ f17 @ ''`,`'' @ f18 @ ''`,`'' @ f19 @ ''`,`'' @
        f20 @ ''`) values (?,?,?,?,?,?,?,?,?,?,?,?,?,?,?,?,?,?,?,?)''),
    getUpdateSQL = Some (''update `'' @ table @ ''` set `'' @ f1 @ ''`=?,`'' @ f2 @ ''`=?,`''
        @ f3 @ ''`=?,`'' @ f4 @ ''`=?,`'' @ f5 @ ''`=?,`'' @ f6 @ ''`=?,`'' @ f7 @ ''`=?,`'' @ f8
        @ ''`=?,`'' @ f9 @ ''`=?,`'' @ f10 @ ''`=?,`'' @ f11 @ ''`=?,`'' @ f12 @ ''`=?,`'' @ f13 @
        ''`=?,`'' @ f14 @ ''`=?,`'' @ f15 @ ''`=?,`'' @ f16 @ ''`=?,`'' @ f17 @ ''`=?,`'' @ f18 @
        ''`=?,`'' @ f19 @ ''`=?,`'' @ f20 @ ''`=? where `'' @ ROWID @ ''`=?''),
    getSelectSQL = ''select `'' @ f1 @ ''`,`'' @ f2 @ ''`,`'' @ f3 @ ''`,`'' @ f4 @ ''`,`'' @
        f5 @ ''`,`'' @ f6 @ ''`,`'' @ f7 @ ''`,`'' @ f8 @ ''`,`'' @ f9 @ ''`,`'' @ f10 @ ''`,`'' @
        f11 @ ''`,`'' @ f12 @ ''`,`'' @ f13 @ ''`,`'' @ f14 @ ''`,`'' @ f15 @ ''`,`'' @ f16 @
        ''`,`'' @ f17 @ ''`,`'' @ f18 @ ''`,`'' @ f19 @ ''`,`'' @ f20 @ ''` from `'' @ table @
        ''`'',
    save = Some (st_bind 0 [Fld f1, Fld f2, Fld f3, Fld f4, Fld f5, Fld f6, Fld f7, Fld f8,
        Fld f9, Fld f10, Fld f11, Fld f12, Fld f13, Fld f14, Fld f15, Fld f16, Fld f17, Fld f18,
        Fld f19, Fld f20]),
    update = Some (st_bind 0 [Fld f1, Fld f2, Fld f3, Fld f4, Fld f5, Fld f6, Fld f7, Fld f8,
        Fld f9, Fld f10, Fld f11, Fld f12, Fld f13, Fld f14, Fld f15, Fld f16, Fld f17, Fld f18,
        Fld f19, Fld f20, IdRef]),
    load = st_getColumn 0 [Fld f1, Fld f2, Fld f3, Fld f4, Fld f5, Fld f6, Fld f7, Fld f8,
        Fld f9, Fld f10, Fld f11, Fld f12, Fld f13, Fld f14, Fld f15, Fld f16, Fld f17, Fld f18,
        Fld f19, Fld f20]\<rparr>"

text \<open>The macro of the family for a list of fields, when there is one of that arity.\<close>

definition TABLE_NO_AUTOID_BIND_n ::
  "string \<Rightarrow> string \<Rightarrow> string list \<Rightarrow> ('st, 'd, 't, 'o) table_class option" where
  "TABLE_NO_AUTOID_BIND_n rowid table fs = (case fs of
        [f1] \<Rightarrow> Some (TABLE_NO_AUTOID_BIND1 rowid table f1)
      | [f1, f2] \<Rightarrow> Some (TABLE_NO_AUTOID_BIND2 rowid table f1 f2)
      | [f1, f2, f3] \<Rightarrow> Some (TABLE_NO_AUTOID_BIND3 rowid table f1 f2 f3)
      | [f1, f2, f3, f4] \<Rightarrow> Some (TABLE_NO_AUTOID_BIND4 rowid table f1 f2 f3 f4)
      | [f1, f2, f3, f4, f5] \<Rightarrow> Some (TABLE_NO_AUTOID_BIND5 rowid table f1 f2 f3 f4
          f5)
      | [f1, f2, f3, f4, f5, f6] \<Rightarrow> Some (TABLE_NO_AUTOID_BIND6 rowid table f1 f2 f3
          f4 f5 f6)
      | [f1, f2, f3, f4, f5, f6, f7] \<Rightarrow> Some (TABLE_NO_AUTOID_BIND7 rowid table f1 f2
          f3 f4 f5 f6 f7)
      | [f1, f2, f3, f4, f5, f6, f7, f8] \<Rightarrow> Some (TABLE_NO_AUTOID_BIND8 rowid table
          f1 f2 f3 f4 f5 f6 f7 f8)
      | [f1, f2, f3, f4, f5, f6, f7, f8, f9] \<Rightarrow> Some (TABLE_NO_AUTOID_BIND9 rowid
          table f1 f2 f3 f4 f5 f6 f7 f8 f9)
      | [f1, f2, f3, f4, f5, f6, f7, f8, f9, f10] \<Rightarrow> Some (TABLE_NO_AUTOID_BIND10
          rowid table f1 f2 f3 f4 f5 f6 f7 f8 f9 f10)
      | [f1, f2, f3, f4, f5, f6, f7, f8, f9, f10, f11] \<Rightarrow> Some
          (TABLE_NO_AUTOID_BIND11 rowid table f1 f2 f3 f4 f5 f6 f7 f8 f9 f10 f11)
      | [f1, f2, f3, f4, f5, f6, f7, f8, f9, f10, f11, f12] \<Rightarrow> Some
          (TABLE_NO_AUTOID_BIND12 rowid table f1 f2 f3 f4 f5 f6 f7 f8 f9 f10 f11 f12)
      | [f1, f2, f3, f4, f5, f6, f7, f8, f9, f10, f11, f12, f13] \<Rightarrow> Some
          (TABLE_NO_AUTOID_BIND13 rowid table f1 f2 f3 f4 f5 f6 f7 f8 f9 f10 f11 f12 f13)
      | [f1, f2, f3, f4, f5, f6, f7, f8, f9, f10, f11, f12, f13, f14] \<Rightarrow> Some
          (TABLE_NO_AUTOID_BIND14 rowid table f1 f2 f3 f4 f5 f6 f7 f8 f9 f10 f11 f12 f13 f14)
      | [f1, f2, f3, f4, f5, f6, f7, f8, f9, f10, f11, f12, f13, f14, f15] \<Rightarrow> Some
          (TABLE_NO_AUTOID_BIND15 rowid table f1 f2 f3 f4 f5 f6 f7 f8 f9 f10 f11 f12 f13 f14 f15)
      | [f1, f2, f3, f4, f5, f6, f7, f8, f9, f10, f11, f12, f13, f14, f15, f16] \<Rightarrow>
          Some (TABLE_NO_AUTOID_BIND16 rowid table f1 f2 f3 f4 f5 f6 f7 f8 f9 f10 f11 f12 f13 f14
          f15 f16)
      | [f1, f2, f3, f4, f5, f6, f7, f8, f9, f10, f11, f12, f13, f14, f15, f16, f17]
          \<Rightarrow> Some (TABLE_NO_AUTOID_BIND17 rowid table f1 f2 f3 f4 f5 f6 f7 f8 f9 f10
          f11 f12 f13 f14 f15 f16 f17)
      | [f1, f2, f3, f4, f5, f6, f7, f8, f9, f10, f11, f12, f13, f14, f15, f16, f17, f18]
          \<Rightarrow> Some (TABLE_NO_AUTOID_BIND18 rowid table f1 f2 f3 f4 f5 f6 f7 f8 f9 f10
          f11 f12 f13 f14 f15 f16 f17 f18)
      | [f1, f2, f3, f4, f5, f6, f7, f8, f9, f10, f11, f12, f13, f14, f15, f16, f17, f18, f19]
          \<Rightarrow> Some (TABLE_NO_AUTOID_BIND19 rowid table f1 f2 f3 f4 f5 f6 f7 f8 f9 f10
          f11 f12 f13 f14 f15 f16 f17 f18 f19)
      | [f1, f2, f3, f4, f5, f6, f7, f8, f9, f10, f11, f12, f13, f14, f15, f16, f17, f18, f19,
          f20] \<Rightarrow> Some (TABLE_NO_AUTOID_BIND20 rowid table f1 f2 f3 f4 f5 f6 f7 f8 f9
          f10 f11 f12 f13 f14 f15 f16 f17 f18 f19 f20)
      | _ \<Rightarrow> None)"

section \<open>Each macro but one is the schema\<close>

text \<open>
  The macro of arity four updates and loads three of its four fields: \<open>update\<close> binds \<open>f1\<close>, \<open>f2\<close>,
  \<open>f3\<close> and the row id to a statement with five placeholders, and \<open>load\<close> leaves \<open>f4\<close> as it is.
\<close>

definition no_autoid_class :: "string \<Rightarrow> string \<Rightarrow> string list \<Rightarrow> ('st, 'd, 't, 'o) table_class" where
  "no_autoid_class r t fs =
     (if length fs = 4
      then (no_autoid_schema r t fs)
        \<lparr>update := Some (st_bind 0 (map Fld (take 3 fs) @ [IdRef])),
         load := st_getColumn 0 (map Fld (take 3 fs))\<rparr>
      else no_autoid_schema r t fs)"

lemma table_no_autoid_bind_arity:
  "TABLE_NO_AUTOID_BIND1 r t f1 = no_autoid_class r t [f1]"
  "TABLE_NO_AUTOID_BIND2 r t f1 f2 = no_autoid_class r t [f1, f2]"
  "TABLE_NO_AUTOID_BIND3 r t f1 f2 f3 = no_autoid_class r t [f1, f2, f3]"
  "TABLE_NO_AUTOID_BIND4 r t f1 f2 f3 f4 = no_autoid_class r t [f1, f2, f3, f4]"
  "TABLE_NO_AUTOID_BIND5 r t f1 f2 f3 f4 f5 = no_autoid_class r t [f1, f2, f3, f4, f5]"
  "TABLE_NO_AUTOID_BIND6 r t f1 f2 f3 f4 f5 f6 = no_autoid_class r t [f1, f2, f3, f4, f5, f6]"
  "TABLE_NO_AUTOID_BIND7 r t f1 f2 f3 f4 f5 f6 f7 = no_autoid_class r t [f1, f2, f3, f4, f5, f6,
    f7]"
  "TABLE_NO_AUTOID_BIND8 r t f1 f2 f3 f4 f5 f6 f7 f8 = no_autoid_class r t [f1, f2, f3, f4, f5,
    f6, f7, f8]"
  "TABLE_NO_AUTOID_BIND9 r t f1 f2 f3 f4 f5 f6 f7 f8 f9 = no_autoid_class r t [f1, f2, f3, f4,
    f5, f6, f7, f8, f9]"
  "TABLE_NO_AUTOID_BIND10 r t f1 f2 f3 f4 f5 f6 f7 f8 f9 f10 = no_autoid_class r t [f1, f2, f3,
    f4, f5, f6, f7, f8, f9, f10]"
  "TABLE_NO_AUTOID_BIND11 r t f1 f2 f3 f4 f5 f6 f7 f8 f9 f10 f11 = no_autoid_class r t [f1, f2,
    f3, f4, f5, f6, f7, f8, f9, f10, f11]"
  "TABLE_NO_AUTOID_BIND12 r t f1 f2 f3 f4 f5 f6 f7 f8 f9 f10 f11 f12 = no_autoid_class r t [f1,
    f2, f3, f4, f5, f6, f7, f8, f9, f10, f11, f12]"
  "TABLE_NO_AUTOID_BIND13 r t f1 f2 f3 f4 f5 f6 f7 f8 f9 f10 f11 f12 f13 = no_autoid_class r t
    [f1, f2, f3, f4, f5, f6, f7, f8, f9, f10, f11, f12, f13]"
  "TABLE_NO_AUTOID_BIND14 r t f1 f2 f3 f4 f5 f6 f7 f8 f9 f10 f11 f12 f13 f14 = no_autoid_class r
    t [f1, f2, f3, f4, f5, f6, f7, f8, f9, f10, f11, f12, f13, f14]"
  "TABLE_NO_AUTOID_BIND15 r t f1 f2 f3 f4 f5 f6 f7 f8 f9 f10 f11 f12 f13 f14 f15 =
    no_autoid_class r t [f1, f2, f3, f4, f5, f6, f7, f8, f9, f10, f11, f12, f13, f14, f15]"
  "TABLE_NO_AUTOID_BIND16 r t f1 f2 f3 f4 f5 f6 f7 f8 f9 f10 f11 f12 f13 f14 f15 f16 =
    no_autoid_class r t [f1, f2, f3, f4, f5, f6, f7, f8, f9, f10, f11, f12, f13, f14, f15, f16]"
  "TABLE_NO_AUTOID_BIND17 r t f1 f2 f3 f4 f5 f6 f7 f8 f9 f10 f11 f12 f13 f14 f15 f16 f17 =
    no_autoid_class r t [f1, f2, f3, f4, f5, f6, f7, f8, f9, f10, f11, f12, f13, f14, f15, f16,
    f17]"
  "TABLE_NO_AUTOID_BIND18 r t f1 f2 f3 f4 f5 f6 f7 f8 f9 f10 f11 f12 f13 f14 f15 f16 f17 f18 =
    no_autoid_class r t [f1, f2, f3, f4, f5, f6, f7, f8, f9, f10, f11, f12, f13, f14, f15, f16,
    f17, f18]"
  "TABLE_NO_AUTOID_BIND19 r t f1 f2 f3 f4 f5 f6 f7 f8 f9 f10 f11 f12 f13 f14 f15 f16 f17 f18 f19
    = no_autoid_class r t [f1, f2, f3, f4, f5, f6, f7, f8, f9, f10, f11, f12, f13, f14, f15, f16,
    f17, f18, f19]"
  "TABLE_NO_AUTOID_BIND20 r t f1 f2 f3 f4 f5 f6 f7 f8 f9 f10 f11 f12 f13 f14 f15 f16 f17 f18 f19
    f20 = no_autoid_class r t [f1, f2, f3, f4, f5, f6, f7, f8, f9, f10, f11, f12, f13, f14, f15,
    f16, f17, f18, f19, f20]"
  by (simp_all add: table_schema_defs no_autoid_class_def TABLE_NO_AUTOID_BIND1_def
      TABLE_NO_AUTOID_BIND2_def TABLE_NO_AUTOID_BIND3_def TABLE_NO_AUTOID_BIND4_def
      TABLE_NO_AUTOID_BIND5_def TABLE_NO_AUTOID_BIND6_def TABLE_NO_AUTOID_BIND7_def
      TABLE_NO_AUTOID_BIND8_def TABLE_NO_AUTOID_BIND9_def TABLE_NO_AUTOID_BIND10_def
      TABLE_NO_AUTOID_BIND11_def TABLE_NO_AUTOID_BIND12_def TABLE_NO_AUTOID_BIND13_def
      TABLE_NO_AUTOID_BIND14_def TABLE_NO_AUTOID_BIND15_def TABLE_NO_AUTOID_BIND16_def
      TABLE_NO_AUTOID_BIND17_def TABLE_NO_AUTOID_BIND18_def TABLE_NO_AUTOID_BIND19_def
      TABLE_NO_AUTOID_BIND20_def)

lemma table_no_autoid_class:
  "TABLE_NO_AUTOID_BIND_n r t fs =
     (if 1 \<le> length fs \<and> length fs \<le> 20 then Some (no_autoid_class r t fs) else None)"
  by (auto simp: TABLE_NO_AUTOID_BIND_n_def table_no_autoid_bind_arity split: list.split)

text \<open>
  Every \<open>TABLE_NO_AUTOID_BIND\<close> macro declares the class of the schema over its fields,
  except that of arity four, whose \<open>update\<close> and \<open>load\<close> leave out the fourth field.
\<close>

theorem table_no_autoid_is_schema:
  "TABLE_NO_AUTOID_BIND_n r t fs =
     (if 1 \<le> length fs \<and> length fs \<le> 20 then Some (no_autoid_class r t fs) else None)"
  by (rule table_no_autoid_class)

end
