(* ===== verification/ColTableBind.thy ===== *)
theory ColTableBind
  imports TableSchema
begin

text \<open>
  The macros \<open>COL_TABLE_BIND0\<close> to \<open>COL_TABLE_BIND20\<close> of \<open>db_connect/TableMacro.h\<close>: double-quoted
  identifiers, and an id that is inserted with the other columns. \<open>move_assign\<close> is \<open>None\<close> from
  \<open>COL_TABLE_BIND12\<close> on: the assignment operator the macro writes there has an unmatched
  parenthesis in \<open>f1 = std::move(rv.f1));\<close> and is not a C++ function.
\<close>

section \<open>The macros\<close>

definition COL_TABLE_BIND0 where
  "COL_TABLE_BIND0 table =
   \<lparr>default_ctor = Some (\<lambda>df. \<lparr>m_id = 0, member = df\<rparr>),
    move_ctor = Some (\<lambda>mv df rv. run_stmts [copy_id, reset_id] (\<lparr>m_id = 0,
        member = df\<rparr>, rv)),
    move_assign = Some (\<lambda>mv same p. if same then p else run_stmts [copy_id, reset_id]
        p),
    valid = (\<lambda>x. m_id x \<noteq> 0),
    getId = Some m_id,
    setId = Some (\<lambda>i x. x\<lparr>m_id := i\<rparr>),
    getRowid = m_id,
    setRowid = (\<lambda>i x. x\<lparr>m_id := i\<rparr>),
    getIndexFieldName = None,
    getTableName = table,
    getInsertSQL = None,
    getUpdateSQL = None,
    getSelectSQL = ''select \"id\" from \"'' @ table @ ''\"'',
    save = None,
    update = None,
    load = st_getColumn 0 [IdRef]\<rparr>"

definition COL_TABLE_BIND1 where
  "COL_TABLE_BIND1 table f1 =
   \<lparr>default_ctor = Some (\<lambda>df. \<lparr>m_id = 0, member = df\<rparr>),
    move_ctor = Some (\<lambda>mv df rv. run_stmts [copy_id, move_field mv f1, reset_id]
        (\<lparr>m_id = 0, member = df\<rparr>, rv)),
    move_assign = Some (\<lambda>mv same p. if same then p else run_stmts [copy_id,
        move_field mv f1, reset_id] p),
    valid = (\<lambda>x. m_id x \<noteq> 0),
    getId = Some m_id,
    setId = Some (\<lambda>i x. x\<lparr>m_id := i\<rparr>),
    getRowid = m_id,
    setRowid = (\<lambda>i x. x\<lparr>m_id := i\<rparr>),
    getIndexFieldName = None,
    getTableName = table,
    getInsertSQL = Some (''insert into \"'' @ table @ ''\" (id, \"'' @ f1 @
        ''\") values (?, ?)''),
    getUpdateSQL = Some (''update \"'' @ table @ ''\" set \"'' @ f1 @ ''\"=? where \"id\"=?''),
    getSelectSQL = ''select \"id\",\"'' @ f1 @ ''\" from \"'' @ table @ ''\"'',
    save = Some (bind_then (st_bind 0 [IdRef]) (st_bind 1 [Fld f1])),
    update = Some (bind_then (st_bind 0 [Fld f1]) (st_bind 1 [IdRef])),
    load = getColumn_then (st_getColumn 0 [IdRef]) (st_getColumn 1 [Fld f1])\<rparr>"

definition COL_TABLE_BIND2 where
  "COL_TABLE_BIND2 table f1 f2 =
   \<lparr>default_ctor = Some (\<lambda>df. \<lparr>m_id = 0, member = df\<rparr>),
    move_ctor = Some (\<lambda>mv df rv. run_stmts [copy_id, move_field mv f1,
        move_field mv f2, reset_id] (\<lparr>m_id = 0, member = df\<rparr>, rv)),
    move_assign = Some (\<lambda>mv same p. if same then p else run_stmts [copy_id, reset_id,
        move_field mv f1, move_field mv f2] p),
    valid = (\<lambda>x. m_id x \<noteq> 0),
    getId = Some m_id,
    setId = Some (\<lambda>i x. x\<lparr>m_id := i\<rparr>),
    getRowid = m_id,
    setRowid = (\<lambda>i x. x\<lparr>m_id := i\<rparr>),
    getIndexFieldName = None,
    getTableName = table,
    getInsertSQL = Some (''insert into \"'' @ table @ ''\" (id, \"'' @ f1 @ ''\",\"'' @ f2 @
        ''\") values (?,?,?)''),
    getUpdateSQL = Some (''update \"'' @ table @ ''\" set \"'' @ f1 @ ''\"=?,\"'' @ f2 @
        ''\"=? where \"id\"=?''),
    getSelectSQL = ''select \"id\",\"'' @ f1 @ ''\",\"'' @ f2 @ ''\" from \"'' @ table @
        ''\"'',
    save = Some (st_bind 0 [IdRef, Fld f1, Fld f2]),
    update = Some (st_bind 0 [Fld f1, Fld f2, IdRef]),
    load = st_getColumn 0 [IdRef, Fld f1, Fld f2]\<rparr>"

definition COL_TABLE_BIND3 where
  "COL_TABLE_BIND3 table f1 f2 f3 =
   \<lparr>default_ctor = Some (\<lambda>df. \<lparr>m_id = 0, member = df\<rparr>),
    move_ctor = Some (\<lambda>mv df rv. run_stmts [copy_id, move_field mv f1,
        move_field mv f2, move_field mv f3, reset_id] (\<lparr>m_id = 0, member = df\<rparr>, rv)),
    move_assign = Some (\<lambda>mv same p. if same then p else run_stmts [copy_id,
        move_field mv f1, move_field mv f2, move_field mv f3, reset_id] p),
    valid = (\<lambda>x. m_id x \<noteq> 0),
    getId = Some m_id,
    setId = Some (\<lambda>i x. x\<lparr>m_id := i\<rparr>),
    getRowid = m_id,
    setRowid = (\<lambda>i x. x\<lparr>m_id := i\<rparr>),
    getIndexFieldName = None,
    getTableName = table,
    getInsertSQL = Some (''insert into \"'' @ table @ ''\" (id, \"'' @ f1 @ ''\",\"'' @ f2 @
        ''\",\"'' @ f3 @ ''\") values (?,?,?,?)''),
    getUpdateSQL = Some (''update \"'' @ table @ ''\" set \"'' @ f1 @ ''\"=?,\"'' @ f2 @
        ''\"=?,\"'' @ f3 @ ''\"=? where \"id\"=?''),
    getSelectSQL = ''select \"id\",\"'' @ f1 @ ''\",\"'' @ f2 @ ''\",\"'' @ f3 @
        ''\" from \"'' @ table @ ''\"'',
    save = Some (st_bind 0 [IdRef, Fld f1, Fld f2, Fld f3]),
    update = Some (st_bind 0 [Fld f1, Fld f2, Fld f3, IdRef]),
    load = st_getColumn 0 [IdRef, Fld f1, Fld f2, Fld f3]\<rparr>"

definition COL_TABLE_BIND4 where
  "COL_TABLE_BIND4 table f1 f2 f3 f4 =
   \<lparr>default_ctor = Some (\<lambda>df. \<lparr>m_id = 0, member = df\<rparr>),
    move_ctor = Some (\<lambda>mv df rv. run_stmts [copy_id, move_field mv f1,
        move_field mv f2, move_field mv f3, move_field mv f4, reset_id] (\<lparr>m_id = 0, member
        = df\<rparr>, rv)),
    move_assign = Some (\<lambda>mv same p. if same then p else run_stmts [copy_id,
        move_field mv f1, move_field mv f2, move_field mv f3, move_field mv f4, reset_id] p),
    valid = (\<lambda>x. m_id x \<noteq> 0),
    getId = Some m_id,
    setId = Some (\<lambda>i x. x\<lparr>m_id := i\<rparr>),
    getRowid = m_id,
    setRowid = (\<lambda>i x. x\<lparr>m_id := i\<rparr>),
    getIndexFieldName = Some ''id'',
    getTableName = table,
    getInsertSQL = Some (''insert into \"'' @ table @ ''\" (id, \"'' @ f1 @ ''\",\"'' @ f2 @
        ''\",\"'' @ f3 @ ''\",\"'' @ f4 @ ''\") values (?,?,?,?,?)''),
    getUpdateSQL = Some (''update \"'' @ table @ ''\" set \"'' @ f1 @ ''\"=?,\"'' @ f2 @
        ''\"=?,\"'' @ f3 @ ''\"=?,\"'' @ f4 @ ''\"=? where \"id\"=?''),
    getSelectSQL = ''select \"id\",\"'' @ f1 @ ''\",\"'' @ f2 @ ''\",\"'' @ f3 @ ''\",\"'' @
        f4 @ ''\" from \"'' @ table @ ''\"'',
    save = Some (st_bind 0 [IdRef, Fld f1, Fld f2, Fld f3, Fld f4]),
    update = Some (st_bind 0 [Fld f1, Fld f2, Fld f3, Fld f4, IdRef]),
    load = st_getColumn 0 [IdRef, Fld f1, Fld f2, Fld f3, Fld f4]\<rparr>"

definition COL_TABLE_BIND5 where
  "COL_TABLE_BIND5 table f1 f2 f3 f4 f5 =
   \<lparr>default_ctor = Some (\<lambda>df. \<lparr>m_id = 0, member = df\<rparr>),
    move_ctor = Some (\<lambda>mv df rv. run_stmts [copy_id, move_field mv f1,
        move_field mv f2, move_field mv f3, move_field mv f4, move_field mv f5, reset_id]
        (\<lparr>m_id = 0, member = df\<rparr>, rv)),
    move_assign = Some (\<lambda>mv same p. if same then p else run_stmts [copy_id,
        move_field mv f1, move_field mv f2, move_field mv f3, move_field mv f4, move_field mv f5,
        reset_id] p),
    valid = (\<lambda>x. m_id x \<noteq> 0),
    getId = Some m_id,
    setId = Some (\<lambda>i x. x\<lparr>m_id := i\<rparr>),
    getRowid = m_id,
    setRowid = (\<lambda>i x. x\<lparr>m_id := i\<rparr>),
    getIndexFieldName = Some ''id'',
    getTableName = table,
    getInsertSQL = Some (''insert into \"'' @ table @ ''\" (id, \"'' @ f1 @ ''\",\"'' @ f2 @
        ''\",\"'' @ f3 @ ''\",\"'' @ f4 @ ''\",\"'' @ f5 @ ''\") values (?,?,?,?,?,?)''),
    getUpdateSQL = Some (''update \"'' @ table @ ''\" set \"'' @ f1 @ ''\"=?,\"'' @ f2 @
        ''\"=?,\"'' @ f3 @ ''\"=?,\"'' @ f4 @ ''\"=?,\"'' @ f5 @ ''\"=? where \"id\"=?''),
    getSelectSQL = ''select \"id\",\"'' @ f1 @ ''\",\"'' @ f2 @ ''\",\"'' @ f3 @ ''\",\"'' @
        f4 @ ''\",\"'' @ f5 @ ''\" from \"'' @ table @ ''\"'',
    save = Some (st_bind 0 [IdRef, Fld f1, Fld f2, Fld f3, Fld f4, Fld f5]),
    update = Some (st_bind 0 [Fld f1, Fld f2, Fld f3, Fld f4, Fld f5, IdRef]),
    load = st_getColumn 0 [IdRef, Fld f1, Fld f2, Fld f3, Fld f4, Fld f5]\<rparr>"

definition COL_TABLE_BIND6 where
  "COL_TABLE_BIND6 table f1 f2 f3 f4 f5 f6 =
   \<lparr>default_ctor = Some (\<lambda>df. \<lparr>m_id = 0, member = df\<rparr>),
    move_ctor = Some (\<lambda>mv df rv. run_stmts [copy_id, move_field mv f1,
        move_field mv f2, move_field mv f3, move_field mv f4, move_field mv f5, move_field mv f6,
        reset_id] (\<lparr>m_id = 0, member = df\<rparr>, rv)),
    move_assign = Some (\<lambda>mv same p. if same then p else run_stmts [copy_id,
        move_field mv f1, move_field mv f2, move_field mv f3, move_field mv f4, move_field mv f5,
        move_field mv f6, reset_id] p),
    valid = (\<lambda>x. m_id x \<noteq> 0),
    getId = Some m_id,
    setId = Some (\<lambda>i x. x\<lparr>m_id := i\<rparr>),
    getRowid = m_id,
    setRowid = (\<lambda>i x. x\<lparr>m_id := i\<rparr>),
    getIndexFieldName = Some ''id'',
    getTableName = table,
    getInsertSQL = Some (''insert into \"'' @ table @ ''\" (id, \"'' @ f1 @ ''\",\"'' @ f2 @
        ''\",\"'' @ f3 @ ''\",\"'' @ f4 @ ''\",\"'' @ f5 @ ''\",\"'' @ f6 @
        ''\") values (?,?,?,?,?,?)''),
    getUpdateSQL = Some (''update \"'' @ table @ ''\" set \"'' @ f1 @ ''\"=?,\"'' @ f2 @
        ''\"=?,\"'' @ f3 @ ''\"=?,\"'' @ f4 @ ''\"=?,\"'' @ f5 @ ''\"=?,\"'' @ f6 @
        ''\"=? where \"id\"=?''),
    getSelectSQL = ''select \"id\",\"'' @ f1 @ ''\",\"'' @ f2 @ ''\",\"'' @ f3 @ ''\",\"'' @
        f4 @ ''\",\"'' @ f5 @ ''\",\"'' @ f6 @ ''\" from \"'' @ table @ ''\"'',
    save = Some (st_bind 0 [IdRef, Fld f1, Fld f2, Fld f3, Fld f4, Fld f5, Fld f6]),
    update = Some (st_bind 0 [Fld f1, Fld f2, Fld f3, Fld f4, Fld f5, Fld f6, IdRef]),
    load = st_getColumn 0 [IdRef, Fld f1, Fld f2, Fld f3, Fld f4, Fld f5, Fld f6]\<rparr>"

definition COL_TABLE_BIND7 where
  "COL_TABLE_BIND7 table f1 f2 f3 f4 f5 f6 f7 =
   \<lparr>default_ctor = Some (\<lambda>df. \<lparr>m_id = 0, member = df\<rparr>),
    move_ctor = Some (\<lambda>mv df rv. run_stmts [copy_id, move_field mv f1,
        move_field mv f2, move_field mv f3, move_field mv f4, move_field mv f5, move_field mv f6,
        move_field mv f7, reset_id] (\<lparr>m_id = 0, member = df\<rparr>, rv)),
    move_assign = Some (\<lambda>mv same p. if same then p else run_stmts [copy_id,
        move_field mv f1, move_field mv f2, move_field mv f3, move_field mv f4, move_field mv f5,
        move_field mv f6, move_field mv f7, reset_id] p),
    valid = (\<lambda>x. m_id x \<noteq> 0),
    getId = Some m_id,
    setId = Some (\<lambda>i x. x\<lparr>m_id := i\<rparr>),
    getRowid = m_id,
    setRowid = (\<lambda>i x. x\<lparr>m_id := i\<rparr>),
    getIndexFieldName = Some ''id'',
    getTableName = table,
    getInsertSQL = Some (''insert into \"'' @ table @ ''\" (id, \"'' @ f1 @ ''\",\"'' @ f2 @
        ''\",\"'' @ f3 @ ''\",\"'' @ f4 @ ''\",\"'' @ f5 @ ''\",\"'' @ f6 @ ''\",\"'' @ f7 @
        ''\") values (?,?,?,?,?,?)''),
    getUpdateSQL = Some (''update \"'' @ table @ ''\" set \"'' @ f1 @ ''\"=?,\"'' @ f2 @
        ''\"=?,\"'' @ f3 @ ''\"=?,\"'' @ f4 @ ''\"=?,\"'' @ f5 @ ''\"=?,\"'' @ f6 @ ''\"=?,\"'' @
        f7 @ ''\"=? where \"id\"=?''),
    getSelectSQL = ''select \"id\",\"'' @ f1 @ ''\",\"'' @ f2 @ ''\",\"'' @ f3 @ ''\",\"'' @
        f4 @ ''\",\"'' @ f5 @ ''\",\"'' @ f6 @ ''\",\"'' @ f7 @ ''\" from \"'' @ table @ ''\"'',
    save = Some (st_bind 0 [IdRef, Fld f1, Fld f2, Fld f3, Fld f4, Fld f5, Fld f6, Fld f7]),
    update = Some (st_bind 0 [Fld f1, Fld f2, Fld f3, Fld f4, Fld f5, Fld f6, Fld f7, IdRef]),
    load = st_getColumn 0 [IdRef, Fld f1, Fld f2, Fld f3, Fld f4, Fld f5, Fld f6, Fld f7]\<rparr>"

definition COL_TABLE_BIND8 where
  "COL_TABLE_BIND8 table f1 f2 f3 f4 f5 f6 f7 f8 =
   \<lparr>default_ctor = Some (\<lambda>df. \<lparr>m_id = 0, member = df\<rparr>),
    move_ctor = Some (\<lambda>mv df rv. run_stmts [copy_id, move_field mv f1,
        move_field mv f2, move_field mv f3, move_field mv f4, move_field mv f5, move_field mv f6,
        move_field mv f7, move_field mv f8, reset_id] (\<lparr>m_id = 0, member = df\<rparr>, rv)),
    move_assign = Some (\<lambda>mv same p. if same then p else run_stmts [copy_id,
        move_field mv f1, move_field mv f2, move_field mv f3, move_field mv f4, move_field mv f5,
        move_field mv f6, move_field mv f7, move_field mv f8, reset_id] p),
    valid = (\<lambda>x. m_id x \<noteq> 0),
    getId = Some m_id,
    setId = Some (\<lambda>i x. x\<lparr>m_id := i\<rparr>),
    getRowid = m_id,
    setRowid = (\<lambda>i x. x\<lparr>m_id := i\<rparr>),
    getIndexFieldName = Some ''id'',
    getTableName = table,
    getInsertSQL = Some (''insert into \"'' @ table @ ''\" (id, \"'' @ f1 @ ''\",\"'' @ f2 @
        ''\",\"'' @ f3 @ ''\",\"'' @ f4 @ ''\",\"'' @ f5 @ ''\",\"'' @ f6 @ ''\",\"'' @ f7 @
        ''\",\"'' @ f8 @ ''\") values (?,?,?,?,?,?)''),
    getUpdateSQL = Some (''update \"'' @ table @ ''\" set \"'' @ f1 @ ''\"=?,\"'' @ f2 @
        ''\"=?,\"'' @ f3 @ ''\"=?,\"'' @ f4 @ ''\"=?,\"'' @ f5 @ ''\"=?,\"'' @ f6 @ ''\"=?,\"'' @
        f7 @ ''\"=?,\"'' @ f8 @ ''\"=? where \"id\"=?''),
    getSelectSQL = ''select \"id\",\"'' @ f1 @ ''\",\"'' @ f2 @ ''\",\"'' @ f3 @ ''\",\"'' @
        f4 @ ''\",\"'' @ f5 @ ''\",\"'' @ f6 @ ''\",\"'' @ f7 @ ''\",\"'' @ f8 @ ''\" from \"'' @
        table @ ''\"'',
    save = Some (st_bind 0 [IdRef, Fld f1, Fld f2, Fld f3, Fld f4, Fld f5, Fld f6, Fld f7,
        Fld f8]),
    update = Some (st_bind 0 [Fld f1, Fld f2, Fld f3, Fld f4, Fld f5, Fld f6, Fld f7, Fld f8,
        IdRef]),
    load = st_getColumn 0 [IdRef, Fld f1, Fld f2, Fld f3, Fld f4, Fld f5, Fld f6, Fld f7,
        Fld f8]\<rparr>"

definition COL_TABLE_BIND9 where
  "COL_TABLE_BIND9 table f1 f2 f3 f4 f5 f6 f7 f8 f9 =
   \<lparr>default_ctor = Some (\<lambda>df. \<lparr>m_id = 0, member = df\<rparr>),
    move_ctor = Some (\<lambda>mv df rv. run_stmts [copy_id, move_field mv f1,
        move_field mv f2, move_field mv f3, move_field mv f4, move_field mv f5, move_field mv f6,
        move_field mv f7, move_field mv f8, move_field mv f9, reset_id] (\<lparr>m_id = 0, member
        = df\<rparr>, rv)),
    move_assign = Some (\<lambda>mv same p. if same then p else run_stmts [copy_id,
        move_field mv f1, move_field mv f2, move_field mv f3, move_field mv f4, move_field mv f5,
        move_field mv f6, move_field mv f7, move_field mv f8, move_field mv f9, reset_id] p),
    valid = (\<lambda>x. m_id x \<noteq> 0),
    getId = Some m_id,
    setId = Some (\<lambda>i x. x\<lparr>m_id := i\<rparr>),
    getRowid = m_id,
    setRowid = (\<lambda>i x. x\<lparr>m_id := i\<rparr>),
    getIndexFieldName = Some ''id'',
    getTableName = table,
    getInsertSQL = Some (''insert into \"'' @ table @ ''\" (id, \"'' @ f1 @ ''\",\"'' @ f2 @
        ''\",\"'' @ f3 @ ''\",\"'' @ f4 @ ''\",\"'' @ f5 @ ''\",\"'' @ f6 @ ''\",\"'' @ f7 @
        ''\",\"'' @ f8 @ ''\",\"'' @ f9 @ ''\") values (?,?,?,?,?,?)''),
    getUpdateSQL = Some (''update \"'' @ table @ ''\" set \"'' @ f1 @ ''\"=?,\"'' @ f2 @
        ''\"=?,\"'' @ f3 @ ''\"=?,\"'' @ f4 @ ''\"=?,\"'' @ f5 @ ''\"=?,\"'' @ f6 @ ''\"=?,\"'' @
        f7 @ ''\"=?,\"'' @ f8 @ ''\"=?,\"'' @ f9 @ ''\"=? where \"id\"=?''),
    getSelectSQL = ''select \"id\",\"'' @ f1 @ ''\",\"'' @ f2 @ ''\",\"'' @ f3 @ ''\",\"'' @
        f4 @ ''\",\"'' @ f5 @ ''\",\"'' @ f6 @ ''\",\"'' @ f7 @ ''\",\"'' @ f8 @ ''\",\"'' @ f9 @
        ''\" from \"'' @ table @ ''\"'',
    save = Some (st_bind 0 [IdRef, Fld f1, Fld f2, Fld f3, Fld f4, Fld f5, Fld f6, Fld f7,
        Fld f8, Fld f9]),
    update = Some (st_bind 0 [Fld f1, Fld f2, Fld f3, Fld f4, Fld f5, Fld f6, Fld f7, Fld f8,
        Fld f9, IdRef]),
    load = st_getColumn 0 [IdRef, Fld f1, Fld f2, Fld f3, Fld f4, Fld f5, Fld f6, Fld f7,
        Fld f8, Fld f9]\<rparr>"

definition COL_TABLE_BIND10 where
  "COL_TABLE_BIND10 table f1 f2 f3 f4 f5 f6 f7 f8 f9 f10 =
   \<lparr>default_ctor = Some (\<lambda>df. \<lparr>m_id = 0, member = df\<rparr>),
    move_ctor = Some (\<lambda>mv df rv. run_stmts [copy_id, move_field mv f1,
        move_field mv f2, move_field mv f3, move_field mv f4, move_field mv f5, move_field mv f6,
        move_field mv f7, move_field mv f8, move_field mv f9, move_field mv f10, reset_id]
        (\<lparr>m_id = 0, member = df\<rparr>, rv)),
    move_assign = Some (\<lambda>mv same p. if same then p else run_stmts [copy_id,
        move_field mv f1, move_field mv f2, move_field mv f3, move_field mv f4, move_field mv f5,
        move_field mv f6, move_field mv f7, move_field mv f8, move_field mv f9, move_field mv f10,
        reset_id] p),
    valid = (\<lambda>x. m_id x \<noteq> 0),
    getId = Some m_id,
    setId = Some (\<lambda>i x. x\<lparr>m_id := i\<rparr>),
    getRowid = m_id,
    setRowid = (\<lambda>i x. x\<lparr>m_id := i\<rparr>),
    getIndexFieldName = Some ''id'',
    getTableName = table,
    getInsertSQL = Some (''insert into \"'' @ table @ ''\" (id, \"'' @ f1 @ ''\",\"'' @ f2 @
        ''\",\"'' @ f3 @ ''\",\"'' @ f4 @ ''\",\"'' @ f5 @ ''\",\"'' @ f6 @ ''\",\"'' @ f7 @
        ''\",\"'' @ f8 @ ''\",\"'' @ f9 @ ''\",\"'' @ f10 @ ''\") values (?,?,?,?,?,?)''),
    getUpdateSQL = Some (''update \"'' @ table @ ''\" set \"'' @ f1 @ ''\"=?,\"'' @ f2 @
        ''\"=?,\"'' @ f3 @ ''\"=?,\"'' @ f4 @ ''\"=?,\"'' @ f5 @ ''\"=?,\"'' @ f6 @ ''\"=?,\"'' @
        f7 @ ''\"=?,\"'' @ f8 @ ''\"=?,\"'' @ f9 @ ''\"=?,\"'' @ f10 @ ''\"=? where \"id\"=?''),
    getSelectSQL = ''select \"id\",\"'' @ f1 @ ''\",\"'' @ f2 @ ''\",\"'' @ f3 @ ''\",\"'' @
        f4 @ ''\",\"'' @ f5 @ ''\",\"'' @ f6 @ ''\",\"'' @ f7 @ ''\",\"'' @ f8 @ ''\",\"'' @ f9 @
        ''\",\"'' @ f10 @ ''\" from \"'' @ table @ ''\"'',
    save = Some (st_bind 0 [IdRef, Fld f1, Fld f2, Fld f3, Fld f4, Fld f5, Fld f6, Fld f7,
        Fld f8, Fld f9, Fld f10]),
    update = Some (st_bind 0 [Fld f1, Fld f2, Fld f3, Fld f4, Fld f5, Fld f6, Fld f7, Fld f8,
        Fld f9, Fld f10, IdRef]),
    load = st_getColumn 0 [IdRef, Fld f1, Fld f2, Fld f3, Fld f4, Fld f5, Fld f6, Fld f7,
        Fld f8, Fld f9, Fld f10]\<rparr>"

definition COL_TABLE_BIND11 where
  "COL_TABLE_BIND11 table f1 f2 f3 f4 f5 f6 f7 f8 f9 f10 f11 =
   \<lparr>default_ctor = Some (\<lambda>df. \<lparr>m_id = 0, member = df\<rparr>),
    move_ctor = Some (\<lambda>mv df rv. run_stmts [copy_id, move_field mv f1,
        move_field mv f2, move_field mv f3, move_field mv f4, move_field mv f5, move_field mv f6,
        move_field mv f7, move_field mv f8, move_field mv f9, move_field mv f10,
        move_field mv f11, reset_id] (\<lparr>m_id = 0, member = df\<rparr>, rv)),
    move_assign = Some (\<lambda>mv same p. if same then p else run_stmts [copy_id,
        move_field mv f1, move_field mv f2, move_field mv f3, move_field mv f4, move_field mv f5,
        move_field mv f6, move_field mv f7, move_field mv f8, move_field mv f9, move_field mv f10,
        move_field mv f11, reset_id] p),
    valid = (\<lambda>x. m_id x \<noteq> 0),
    getId = Some m_id,
    setId = Some (\<lambda>i x. x\<lparr>m_id := i\<rparr>),
    getRowid = m_id,
    setRowid = (\<lambda>i x. x\<lparr>m_id := i\<rparr>),
    getIndexFieldName = Some ''id'',
    getTableName = table,
    getInsertSQL = Some (''insert into \"'' @ table @ ''\" (id, \"'' @ f1 @ ''\",\"'' @ f2 @
        ''\",\"'' @ f3 @ ''\",\"'' @ f4 @ ''\",\"'' @ f5 @ ''\",\"'' @ f6 @ ''\",\"'' @ f7 @
        ''\",\"'' @ f8 @ ''\",\"'' @ f9 @ ''\",\"'' @ f10 @ ''\",\"'' @ f11 @
        ''\") values (?,?,?,?,?,?)''),
    getUpdateSQL = Some (''update \"'' @ table @ ''\" set \"'' @ f1 @ ''\"=?,\"'' @ f2 @
        ''\"=?,\"'' @ f3 @ ''\"=?,\"'' @ f4 @ ''\"=?,\"'' @ f5 @ ''\"=?,\"'' @ f6 @ ''\"=?,\"'' @
        f7 @ ''\"=?,\"'' @ f8 @ ''\"=?,\"'' @ f9 @ ''\"=?,\"'' @ f10 @ ''\"=?,\"'' @ f11 @
        ''\"=? where \"id\"=?''),
    getSelectSQL = ''select \"id\",\"'' @ f1 @ ''\",\"'' @ f2 @ ''\",\"'' @ f3 @ ''\",\"'' @
        f4 @ ''\",\"'' @ f5 @ ''\",\"'' @ f6 @ ''\",\"'' @ f7 @ ''\",\"'' @ f8 @ ''\",\"'' @ f9 @
        ''\",\"'' @ f10 @ ''\",\"'' @ f11 @ ''\" from \"'' @ table @ ''\"'',
    save = Some (st_bind 0 [IdRef, Fld f1, Fld f2, Fld f3, Fld f4, Fld f5, Fld f6, Fld f7,
        Fld f8, Fld f9, Fld f10, Fld f11]),
    update = Some (st_bind 0 [Fld f1, Fld f2, Fld f3, Fld f4, Fld f5, Fld f6, Fld f7, Fld f8,
        Fld f9, Fld f10, Fld f11, IdRef]),
    load = st_getColumn 0 [IdRef, Fld f1, Fld f2, Fld f3, Fld f4, Fld f5, Fld f6, Fld f7,
        Fld f8, Fld f9, Fld f10, Fld f11]\<rparr>"

definition COL_TABLE_BIND12 where
  "COL_TABLE_BIND12 table f1 f2 f3 f4 f5 f6 f7 f8 f9 f10 f11 f12 =
   \<lparr>default_ctor = Some (\<lambda>df. \<lparr>m_id = 0, member = df\<rparr>),
    move_ctor = Some (\<lambda>mv df rv. run_stmts [copy_id, move_field mv f1,
        move_field mv f2, move_field mv f3, move_field mv f4, move_field mv f5, move_field mv f6,
        move_field mv f7, move_field mv f8, move_field mv f9, move_field mv f10,
        move_field mv f11, move_field mv f12, reset_id] (\<lparr>m_id = 0, member = df\<rparr>,
        rv)),
    move_assign = None,
    valid = (\<lambda>x. m_id x \<noteq> 0),
    getId = Some m_id,
    setId = Some (\<lambda>i x. x\<lparr>m_id := i\<rparr>),
    getRowid = m_id,
    setRowid = (\<lambda>i x. x\<lparr>m_id := i\<rparr>),
    getIndexFieldName = Some ''id'',
    getTableName = table,
    getInsertSQL = Some (''insert into \"'' @ table @ ''\" (id, \"'' @ f1 @ ''\",\"'' @ f2 @
        ''\",\"'' @ f3 @ ''\",\"'' @ f4 @ ''\",\"'' @ f5 @ ''\",\"'' @ f6 @ ''\",\"'' @ f7 @
        ''\",\"'' @ f8 @ ''\",\"'' @ f9 @ ''\",\"'' @ f10 @ ''\",\"'' @ f11 @ ''\",\"'' @ f12 @
        ''\") values (?,?,?,?,?,?)''),
    getUpdateSQL = Some (''update \"'' @ table @ ''\" set \"'' @ f1 @ ''\"=?,\"'' @ f2 @
        ''\"=?,\"'' @ f3 @ ''\"=?,\"'' @ f4 @ ''\"=?,\"'' @ f5 @ ''\"=?,\"'' @ f6 @ ''\"=?,\"'' @
        f7 @ ''\"=?,\"'' @ f8 @ ''\"=?,\"'' @ f9 @ ''\"=?,\"'' @ f10 @ ''\"=?,\"'' @ f11 @
        ''\"=?,\"'' @ f12 @ ''\"=? where \"id\"=?''),
    getSelectSQL = ''select \"id\",\"'' @ f1 @ ''\",\"'' @ f2 @ ''\",\"'' @ f3 @ ''\",\"'' @
        f4 @ ''\",\"'' @ f5 @ ''\",\"'' @ f6 @ ''\",\"'' @ f7 @ ''\",\"'' @ f8 @ ''\",\"'' @ f9 @
        ''\",\"'' @ f10 @ ''\",\"'' @ f11 @ ''\",\"'' @ f12 @ ''\" from \"'' @ table @ ''\"'',
    save = Some (st_bind 0 [IdRef, Fld f1, Fld f2, Fld f3, Fld f4, Fld f5, Fld f6, Fld f7,
        Fld f8, Fld f9, Fld f10, Fld f11, Fld f12]),
    update = Some (st_bind 0 [Fld f1, Fld f2, Fld f3, Fld f4, Fld f5, Fld f6, Fld f7, Fld f8,
        Fld f9, Fld f10, Fld f11, Fld f12, IdRef]),
    load = st_getColumn 0 [IdRef, Fld f1, Fld f2, Fld f3, Fld f4, Fld f5, Fld f6, Fld f7,
        Fld f8, Fld f9, Fld f10, Fld f11, Fld f12]\<rparr>"

definition COL_TABLE_BIND13 where
  "COL_TABLE_BIND13 table f1 f2 f3 f4 f5 f6 f7 f8 f9 f10 f11 f12 f13 =
   \<lparr>default_ctor = Some (\<lambda>df. \<lparr>m_id = 0, member = df\<rparr>),
    move_ctor = Some (\<lambda>mv df rv. run_stmts [copy_id, move_field mv f1,
        move_field mv f2, move_field mv f3, move_field mv f4, move_field mv f5, move_field mv f6,
        move_field mv f7, move_field mv f8, move_field mv f9, move_field mv f10,
        move_field mv f11, move_field mv f12, move_field mv f13, reset_id] (\<lparr>m_id = 0,
        member = df\<rparr>, rv)),
    move_assign = None,
    valid = (\<lambda>x. m_id x \<noteq> 0),
    getId = Some m_id,
    setId = Some (\<lambda>i x. x\<lparr>m_id := i\<rparr>),
    getRowid = m_id,
    setRowid = (\<lambda>i x. x\<lparr>m_id := i\<rparr>),
    getIndexFieldName = Some ''id'',
    getTableName = table,
    getInsertSQL = Some (''insert into \"'' @ table @ ''\" (id, \"'' @ f1 @ ''\",\"'' @ f2 @
        ''\",\"'' @ f3 @ ''\",\"'' @ f4 @ ''\",\"'' @ f5 @ ''\",\"'' @ f6 @ ''\",\"'' @ f7 @
        ''\",\"'' @ f8 @ ''\",\"'' @ f9 @ ''\",\"'' @ f10 @ ''\",\"'' @ f11 @ ''\",\"'' @ f12 @
        ''\",\"'' @ f13 @ ''\") values (?,?,?,?,?,?)''),
    getUpdateSQL = Some (''update \"'' @ table @ ''\" set \"'' @ f1 @ ''\"=?,\"'' @ f2 @
        ''\"=?,\"'' @ f3 @ ''\"=?,\"'' @ f4 @ ''\"=?,\"'' @ f5 @ ''\"=?,\"'' @ f6 @ ''\"=?,\"'' @
        f7 @ ''\"=?,\"'' @ f8 @ ''\"=?,\"'' @ f9 @ ''\"=?,\"'' @ f10 @ ''\"=?,\"'' @ f11 @
        ''\"=?,\"'' @ f12 @ ''\"=?,\"'' @ f13 @ ''\"=? where \"id\"=?''),
    getSelectSQL = ''select \"id\",\"'' @ f1 @ ''\",\"'' @ f2 @ ''\",\"'' @ f3 @ ''\",\"'' @
        f4 @ ''\",\"'' @ f5 @ ''\",\"'' @ f6 @ ''\",\"'' @ f7 @ ''\",\"'' @ f8 @ ''\",\"'' @ f9 @
        ''\",\"'' @ f10 @ ''\",\"'' @ f11 @ ''\",\"'' @ f12 @ ''\",\"'' @ f13 @ ''\" from \"'' @
        table @ ''\"'',
    save = Some (st_bind 0 [IdRef, Fld f1, Fld f2, Fld f3, Fld f4, Fld f5, Fld f6, Fld f7,
        Fld f8, Fld f9, Fld f10, Fld f11, Fld f12, Fld f13]),
    update = Some (st_bind 0 [Fld f1, Fld f2, Fld f3, Fld f4, Fld f5, Fld f6, Fld f7, Fld f8,
        Fld f9, Fld f10, Fld f11, Fld f12, Fld f13, IdRef]),
    load = st_getColumn 0 [IdRef, Fld f1, Fld f2, Fld f3, Fld f4, Fld f5, Fld f6, Fld f7,
        Fld f8, Fld f9, Fld f10, Fld f11, Fld f12, Fld f13]\<rparr>"

definition COL_TABLE_BIND14 where
  "COL_TABLE_BIND14 table f1 f2 f3 f4 f5 f6 f7 f8 f9 f10 f11 f12 f13 f14 =
   \<lparr>default_ctor = Some (\<lambda>df. \<lparr>m_id = 0, member = df\<rparr>),
    move_ctor = Some (\<lambda>mv df rv. run_stmts [copy_id, move_field mv f1,
        move_field mv f2, move_field mv f3, move_field mv f4, move_field mv f5, move_field mv f6,
        move_field mv f7, move_field mv f8, move_field mv f9, move_field mv f10,
        move_field mv f11, move_field mv f12, move_field mv f13, move_field mv f14, reset_id]
        (\<lparr>m_id = 0, member = df\<rparr>, rv)),
    move_assign = None,
    valid = (\<lambda>x. m_id x \<noteq> 0),
    getId = Some m_id,
    setId = Some (\<lambda>i x. x\<lparr>m_id := i\<rparr>),
    getRowid = m_id,
    setRowid = (\<lambda>i x. x\<lparr>m_id := i\<rparr>),
    getIndexFieldName = Some ''id'',
    getTableName = table,
    getInsertSQL = Some (''insert into \"'' @ table @ ''\" (id, \"'' @ f1 @ ''\",\"'' @ f2 @
        ''\",\"'' @ f3 @ ''\",\"'' @ f4 @ ''\",\"'' @ f5 @ ''\",\"'' @ f6 @ ''\",\"'' @ f7 @
        ''\",\"'' @ f8 @ ''\",\"'' @ f9 @ ''\",\"'' @ f10 @ ''\",\"'' @ f11 @ ''\",\"'' @ f12 @
        ''\",\"'' @ f13 @ ''\",\"'' @ f14 @ ''\") values (?,?,?,?,?,?)''),
    getUpdateSQL = Some (''update \"'' @ table @ ''\" set \"'' @ f1 @ ''\"=?,\"'' @ f2 @
        ''\"=?,\"'' @ f3 @ ''\"=?,\"'' @ f4 @ ''\"=?,\"'' @ f5 @ ''\"=?,\"'' @ f6 @ ''\"=?,\"'' @
        f7 @ ''\"=?,\"'' @ f8 @ ''\"=?,\"'' @ f9 @ ''\"=?,\"'' @ f10 @ ''\"=?,\"'' @ f11 @
        ''\"=?,\"'' @ f12 @ ''\"=?,\"'' @ f13 @ ''\"=?,\"'' @ f14 @ ''\"=? where \"id\"=?''),
    getSelectSQL = ''select \"id\",\"'' @ f1 @ ''\",\"'' @ f2 @ ''\",\"'' @ f3 @ ''\",\"'' @
        f4 @ ''\",\"'' @ f5 @ ''\",\"'' @ f6 @ ''\",\"'' @ f7 @ ''\",\"'' @ f8 @ ''\",\"'' @ f9 @
        ''\",\"'' @ f10 @ ''\",\"'' @ f11 @ ''\",\"'' @ f12 @ ''\",\"'' @ f13 @ ''\",\"'' @ f14 @
        ''\" from \"'' @ table @ ''\"'',
    save = Some (st_bind 0 [IdRef, Fld f1, Fld f2, Fld f3, Fld f4, Fld f5, Fld f6, Fld f7,
        Fld f8, Fld f9, Fld f10, Fld f11, Fld f12, Fld f13, Fld f14]),
    update = Some (st_bind 0 [Fld f1, Fld f2, Fld f3, Fld f4, Fld f5, Fld f6, Fld f7, Fld f8,
        Fld f9, Fld f10, Fld f11, Fld f12, Fld f13, Fld f14, IdRef]),
    load = st_getColumn 0 [IdRef, Fld f1, Fld f2, Fld f3, Fld f4, Fld f5, Fld f6, Fld f7,
        Fld f8, Fld f9, Fld f10, Fld f11, Fld f12, Fld f13, Fld f14]\<rparr>"

definition COL_TABLE_BIND15 where
  "COL_TABLE_BIND15 table f1 f2 f3 f4 f5 f6 f7 f8 f9 f10 f11 f12 f13 f14 f15 =
   \<lparr>default_ctor = Some (\<lambda>df. \<lparr>m_id = 0, member = df\<rparr>),
    move_ctor = Some (\<lambda>mv df rv. run_stmts [copy_id, move_field mv f1,
        move_field mv f2, move_field mv f3, move_field mv f4, move_field mv f5, move_field mv f6,
        move_field mv f7, move_field mv f8, move_field mv f9, move_field mv f10,
        move_field mv f11, move_field mv f12, move_field mv f13, move_field mv f14,
        move_field mv f15, reset_id] (\<lparr>m_id = 0, member = df\<rparr>, rv)),
    move_assign = None,
    valid = (\<lambda>x. m_id x \<noteq> 0),
    getId = Some m_id,
    setId = Some (\<lambda>i x. x\<lparr>m_id := i\<rparr>),
    getRowid = m_id,
    setRowid = (\<lambda>i x. x\<lparr>m_id := i\<rparr>),
    getIndexFieldName = Some ''id'',
    getTableName = table,
    getInsertSQL = Some (''insert into \"'' @ table @ ''\" (id, \"'' @ f1 @ ''\",\"'' @ f2 @
        ''\",\"'' @ f3 @ ''\",\"'' @ f4 @ ''\",\"'' @ f5 @ ''\",\"'' @ f6 @ ''\",\"'' @ f7 @
        ''\",\"'' @ f8 @ ''\",\"'' @ f9 @ ''\",\"'' @ f10 @ ''\",\"'' @ f11 @ ''\",\"'' @ f12 @
        ''\",\"'' @ f13 @ ''\",\"'' @ f14 @ ''\",\"'' @ f15 @ ''\") values (?,?,?,?,?,?)''),
    getUpdateSQL = Some (''update \"'' @ table @ ''\" set \"'' @ f1 @ ''\"=?,\"'' @ f2 @
        ''\"=?,\"'' @ f3 @ ''\"=?,\"'' @ f4 @ ''\"=?,\"'' @ f5 @ ''\"=?,\"'' @ f6 @ ''\"=?,\"'' @
        f7 @ ''\"=?,\"'' @ f8 @ ''\"=?,\"'' @ f9 @ ''\"=?,\"'' @ f10 @ ''\"=?,\"'' @ f11 @
        ''\"=?,\"'' @ f12 @ ''\"=?,\"'' @ f13 @ ''\"=?,\"'' @ f14 @ ''\"=?,\"'' @ f15 @
        ''\"=? where \"id\"=?''),
    getSelectSQL = ''select \"id\",\"'' @ f1 @ ''\",\"'' @ f2 @ ''\",\"'' @ f3 @ ''\",\"'' @
        f4 @ ''\",\"'' @ f5 @ ''\",\"'' @ f6 @ ''\",\"'' @ f7 @ ''\",\"'' @ f8 @ ''\",\"'' @ f9 @
        ''\",\"'' @ f10 @ ''\",\"'' @ f11 @ ''\",\"'' @ f12 @ ''\",\"'' @ f13 @ ''\",\"'' @ f14 @
        ''\",\"'' @ f15 @ ''\" from \"'' @ table @ ''\"'',
    save = Some (st_bind 0 [IdRef, Fld f1, Fld f2, Fld f3, Fld f4, Fld f5, Fld f6, Fld f7,
        Fld f8, Fld f9, Fld f10, Fld f11, Fld f12, Fld f13, Fld f14, Fld f15]),
    update = Some (st_bind 0 [Fld f1, Fld f2, Fld f3, Fld f4, Fld f5, Fld f6, Fld f7, Fld f8,
        Fld f9, Fld f10, Fld f11, Fld f12, Fld f13, Fld f14, Fld f15, IdRef]),
    load = st_getColumn 0 [IdRef, Fld f1, Fld f2, Fld f3, Fld f4, Fld f5, Fld f6, Fld f7,
        Fld f8, Fld f9, Fld f10, Fld f11, Fld f12, Fld f13, Fld f14, Fld f15]\<rparr>"

definition COL_TABLE_BIND16 where
  "COL_TABLE_BIND16 table f1 f2 f3 f4 f5 f6 f7 f8 f9 f10 f11 f12 f13 f14 f15 f16 =
   \<lparr>default_ctor = Some (\<lambda>df. \<lparr>m_id = 0, member = df\<rparr>),
    move_ctor = Some (\<lambda>mv df rv. run_stmts [copy_id, move_field mv f1,
        move_field mv f2, move_field mv f3, move_field mv f4, move_field mv f5, move_field mv f6,
        move_field mv f7, move_field mv f8, move_field mv f9, move_field mv f10,
        move_field mv f11, move_field mv f12, move_field mv f13, move_field mv f14,
        move_field mv f15, move_field mv f16, reset_id] (\<lparr>m_id = 0, member = df\<rparr>,
        rv)),
    move_assign = None,
    valid = (\<lambda>x. m_id x \<noteq> 0),
    getId = Some m_id,
    setId = Some (\<lambda>i x. x\<lparr>m_id := i\<rparr>),
    getRowid = m_id,
    setRowid = (\<lambda>i x. x\<lparr>m_id := i\<rparr>),
    getIndexFieldName = Some ''id'',
    getTableName = table,
    getInsertSQL = Some (''insert into \"'' @ table @ ''\" (id, \"'' @ f1 @ ''\",\"'' @ f2 @
        ''\",\"'' @ f3 @ ''\",\"'' @ f4 @ ''\",\"'' @ f5 @ ''\",\"'' @ f6 @ ''\",\"'' @ f7 @
        ''\",\"'' @ f8 @ ''\",\"'' @ f9 @ ''\",\"'' @ f10 @ ''\",\"'' @ f11 @ ''\",\"'' @ f12 @
        ''\",\"'' @ f13 @ ''\",\"'' @ f14 @ ''\",\"'' @ f15 @ ''\",\"'' @ f16 @
        ''\") values (?,?,?,?,?,?)''),
    getUpdateSQL = Some (''update \"'' @ table @ ''\" set \"'' @ f1 @ ''\"=?,\"'' @ f2 @
        ''\"=?,\"'' @ f3 @ ''\"=?,\"'' @ f4 @ ''\"=?,\"'' @ f5 @ ''\"=?,\"'' @ f6 @ ''\"=?,\"'' @
        f7 @ ''\"=?,\"'' @ f8 @ ''\"=?,\"'' @ f9 @ ''\"=?,\"'' @ f10 @ ''\"=?,\"'' @ f11 @
        ''\"=?,\"'' @ f12 @ ''\"=?,\"'' @ f13 @ ''\"=?,\"'' @ f14 @ ''\"=?,\"'' @ f15 @
        ''\"=?,\"'' @ f16 @ ''\"=? where \"id\"=?''),
    getSelectSQL = ''select \"id\",\"'' @ f1 @ ''\",\"'' @ f2 @ ''\",\"'' @ f3 @ ''\",\"'' @
        f4 @ ''\",\"'' @ f5 @ ''\",\"'' @ f6 @ ''\",\"'' @ f7 @ ''\",\"'' @ f8 @ ''\",\"'' @ f9 @
        ''\",\"'' @ f10 @ ''\",\"'' @ f11 @ ''\",\"'' @ f12 @ ''\",\"'' @ f13 @ ''\",\"'' @ f14 @
        ''\",\"'' @ f15 @ ''\",\"'' @ f16 @ ''\" from \"'' @ table @ ''\"'',
    save = Some (st_bind 0 [IdRef, Fld f1, Fld f2, Fld f3, Fld f4, Fld f5, Fld f6, Fld f7,
        Fld f8, Fld f9, Fld f10, Fld f11, Fld f12, Fld f13, Fld f14, Fld f15, Fld f16]),
    update = Some (st_bind 0 [Fld f1, Fld f2, Fld f3, Fld f4, Fld f5, Fld f6, Fld f7, Fld f8,
        Fld f9, Fld f10, Fld f11, Fld f12, Fld f13, Fld f14, Fld f15, Fld f16, IdRef]),
    load = st_getColumn 0 [IdRef, Fld f1, Fld f2, Fld f3, Fld f4, Fld f5, Fld f6, Fld f7,
        Fld f8, Fld f9, Fld f10, Fld f11, Fld f12, Fld f13, Fld f14, Fld f15, Fld f16]\<rparr>"

definition COL_TABLE_BIND17 where
  "COL_TABLE_BIND17 table f1 f2 f3 f4 f5 f6 f7 f8 f9 f10 f11 f12 f13 f14 f15 f16 f17 =
   \<lparr>default_ctor = Some (\<lambda>df. \<lparr>m_id = 0, member = df\<rparr>),
    move_ctor = Some (\<lambda>mv df rv. run_stmts [copy_id, move_field mv f1,
        move_field mv f2, move_field mv f3, move_field mv f4, move_field mv f5, move_field mv f6,
        move_field mv f7, move_field mv f8, move_field mv f9, move_field mv f10,
        move_field mv f11, move_field mv f12, move_field mv f13, move_field mv f14,
        move_field mv f15, move_field mv f16, move_field mv f17, reset_id] (\<lparr>m_id = 0,
        member = df\<rparr>, rv)),
    move_assign = None,
    valid = (\<lambda>x. m_id x \<noteq> 0),
    getId = Some m_id,
    setId = Some (\<lambda>i x. x\<lparr>m_id := i\<rparr>),
    getRowid = m_id,
    setRowid = (\<lambda>i x. x\<lparr>m_id := i\<rparr>),
    getIndexFieldName = Some ''id'',
    getTableName = table,
    getInsertSQL = Some (''insert into \"'' @ table @ ''\" (id, \"'' @ f1 @ ''\",\"'' @ f2 @
        ''\",\"'' @ f3 @ ''\",\"'' @ f4 @ ''\",\"'' @ f5 @ ''\",\"'' @ f6 @ ''\",\"'' @ f7 @
        ''\",\"'' @ f8 @ ''\",\"'' @ f9 @ ''\",\"'' @ f10 @ ''\",\"'' @ f11 @ ''\",\"'' @ f12 @
        ''\",\"'' @ f13 @ ''\",\"'' @ f14 @ ''\",\"'' @ f15 @ ''\",\"'' @ f16 @ ''\",\"'' @ f17 @
        ''\") values (?,?,?,?,?,?)''),
    getUpdateSQL = Some (''update \"'' @ table @ ''\" set \"'' @ f1 @ ''\"=?,\"'' @ f2 @
        ''\"=?,\"'' @ f3 @ ''\"=?,\"'' @ f4 @ ''\"=?,\"'' @ f5 @ ''\"=?,\"'' @ f6 @ ''\"=?,\"'' @
        f7 @ ''\"=?,\"'' @ f8 @ ''\"=?,\"'' @ f9 @ ''\"=?,\"'' @ f10 @ ''\"=?,\"'' @ f11 @
        ''\"=?,\"'' @ f12 @ ''\"=?,\"'' @ f13 @ ''\"=?,\"'' @ f14 @ ''\"=?,\"'' @ f15 @
        ''\"=?,\"'' @ f16 @ ''\"=?,\"'' @ f17 @ ''\"=? where \"id\"=?''),
    getSelectSQL = ''select \"id\",\"'' @ f1 @ ''\",\"'' @ f2 @ ''\",\"'' @ f3 @ ''\",\"'' @
        f4 @ ''\",\"'' @ f5 @ ''\",\"'' @ f6 @ ''\",\"'' @ f7 @ ''\",\"'' @ f8 @ ''\",\"'' @ f9 @
        ''\",\"'' @ f10 @ ''\",\"'' @ f11 @ ''\",\"'' @ f12 @ ''\",\"'' @ f13 @ ''\",\"'' @ f14 @
        ''\",\"'' @ f15 @ ''\",\"'' @ f16 @ ''\",\"'' @ f17 @ ''\" from \"'' @ table @ ''\"'',
    save = Some (st_bind 0 [IdRef, Fld f1, Fld f2, Fld f3, Fld f4, Fld f5, Fld f6, Fld f7,
        Fld f8, Fld f9, Fld f10, Fld f11, Fld f12, Fld f13, Fld f14, Fld f15, Fld f16, Fld f17]),
    update = Some (st_bind 0 [Fld f1, Fld f2, Fld f3, Fld f4, Fld f5, Fld f6, Fld f7, Fld f8,
        Fld f9, Fld f10, Fld f11, Fld f12, Fld f13, Fld f14, Fld f15, Fld f16, Fld f17, IdRef]),
    load = st_getColumn 0 [IdRef, Fld f1, Fld f2, Fld f3, Fld f4, Fld f5, Fld f6, Fld f7,
        Fld f8, Fld f9, Fld f10, Fld f11, Fld f12, Fld f13, Fld f14, Fld f15, Fld f16, Fld f17]\<rparr>"

definition COL_TABLE_BIND18 where
  "COL_TABLE_BIND18 table f1 f2 f3 f4 f5 f6 f7 f8 f9 f10 f11 f12 f13 f14 f15 f16 f17 f18 =
   \<lparr>default_ctor = Some (\<lambda>df. \<lparr>m_id = 0, member = df\<rparr>),
    move_ctor = Some (\<lambda>mv df rv. run_stmts [copy_id, move_field mv f1,
        move_field mv f2, move_field mv f3, move_field mv f4, move_field mv f5, move_field mv f6,
        move_field mv f7, move_field mv f8, move_field mv f9, move_field mv f10,
        move_field mv f11, move_field mv f12, move_field mv f13, move_field mv f14,
        move_field mv f15, move_field mv f16, move_field mv f17, move_field mv f18, reset_id]
        (\<lparr>m_id = 0, member = df\<rparr>, rv)),
    move_assign = None,
    valid = (\<lambda>x. m_id x \<noteq> 0),
    getId = Some m_id,
    setId = Some (\<lambda>i x. x\<lparr>m_id := i\<rparr>),
    getRowid = m_id,
    setRowid = (\<lambda>i x. x\<lparr>m_id := i\<rparr>),
    getIndexFieldName = Some ''id'',
    getTableName = table,
    getInsertSQL = Some (''insert into \"'' @ table @ ''\" (id, \"'' @ f1 @ ''\",\"'' @ f2 @
        ''\",\"'' @ f3 @ ''\",\"'' @ f4 @ ''\",\"'' @ f5 @ ''\",\"'' @ f6 @ ''\",\"'' @ f7 @
        ''\",\"'' @ f8 @ ''\",\"'' @ f9 @ ''\",\"'' @ f10 @ ''\",\"'' @ f11 @ ''\",\"'' @ f12 @
        ''\",\"'' @ f13 @ ''\",\"'' @ f14 @ ''\",\"'' @ f15 @ ''\",\"'' @ f16 @ ''\",\"'' @ f17 @
        ''\",\"'' @ f18 @ ''\") values (?,?,?,?,?,?)''),
    getUpdateSQL = Some (''update \"'' @ table @ ''\" set \"'' @ f1 @ ''\"=?,\"'' @ f2 @
        ''\"=?,\"'' @ f3 @ ''\"=?,\"'' @ f4 @ ''\"=?,\"'' @ f5 @ ''\"=?,\"'' @ f6 @ ''\"=?,\"'' @
        f7 @ ''\"=?,\"'' @ f8 @ ''\"=?,\"'' @ f9 @ ''\"=?,\"'' @ f10 @ ''\"=?,\"'' @ f11 @
        ''\"=?,\"'' @ f12 @ ''\"=?,\"'' @ f13 @ ''\"=?,\"'' @ f14 @ ''\"=?,\"'' @ f15 @
        ''\"=?,\"'' @ f16 @ ''\"=?,\"'' @ f17 @ ''\"=?,\"'' @ f18 @ ''\"=? where \"id\"=?''),
    getSelectSQL = ''select \"id\",\"'' @ f1 @ ''\",\"'' @ f2 @ ''\",\"'' @ f3 @ ''\",\"'' @
        f4 @ ''\",\"'' @ f5 @ ''\",\"'' @ f6 @ ''\",\"'' @ f7 @ ''\",\"'' @ f8 @ ''\",\"'' @ f9 @
        ''\",\"'' @ f10 @ ''\",\"'' @ f11 @ ''\",\"'' @ f12 @ ''\",\"'' @ f13 @ ''\",\"'' @ f14 @
        ''\",\"'' @ f15 @ ''\",\"'' @ f16 @ ''\",\"'' @ f17 @ ''\",\"'' @ f18 @ ''\" from \"'' @
        table @ ''\"'',
    save = Some (st_bind 0 [IdRef, Fld f1, Fld f2, Fld f3, Fld f4, Fld f5, Fld f6, Fld f7,
        Fld f8, Fld f9, Fld f10, Fld f11, Fld f12, Fld f13, Fld f14, Fld f15, Fld f16, Fld f17,
        Fld f18]),
    update = Some (st_bind 0 [Fld f1, Fld f2, Fld f3, Fld f4, Fld f5, Fld f6, Fld f7, Fld f8,
        Fld f9, Fld f10, Fld f11, Fld f12, Fld f13, Fld f14, Fld f15, Fld f16, Fld f17, Fld f18,
        IdRef]),
    load = st_getColumn 0 [IdRef, Fld f1, Fld f2, Fld f3, Fld f4, Fld f5, Fld f6, Fld f7,
        Fld f8, Fld f9, Fld f10, Fld f11, Fld f12, Fld f13, Fld f14, Fld f15, Fld f16, Fld f17,
        Fld f18]\<rparr>"

definition COL_TABLE_BIND19 where
  "COL_TABLE_BIND19 table f1 f2 f3 f4 f5 f6 f7 f8 f9 f10 f11 f12 f13 f14 f15 f16 f17 f18 f19 =
   \<lparr>default_ctor = Some (\<lambda>df. \<lparr>m_id = 0, member = df\<rparr>),
    move_ctor = Some (\<lambda>mv df rv. run_stmts [copy_id, move_field mv f1,
        move_field mv f2, move_field mv f3, move_field mv f4, move_field mv f5, move_field mv f6,
        move_field mv f7, move_field mv f8, move_field mv f9, move_field mv f10,
        move_field mv f11, move_field mv f12, move_field mv f13, move_field mv f14,
        move_field mv f15, move_field mv f16, move_field mv f17, move_field mv f18,
        move_field mv f19, reset_id] (\<lparr>m_id = 0, member = df\<rparr>, rv)),
    move_assign = None,
    valid = (\<lambda>x. m_id x \<noteq> 0),
    getId = Some m_id,
    setId = Some (\<lambda>i x. x\<lparr>m_id := i\<rparr>),
    getRowid = m_id,
    setRowid = (\<lambda>i x. x\<lparr>m_id := i\<rparr>),
    getIndexFieldName = Some ''id'',
    getTableName = table,
    getInsertSQL = Some (''insert into \"'' @ table @ ''\" (id, \"'' @ f1 @ ''\",\"'' @ f2 @
        ''\",\"'' @ f3 @ ''\",\"'' @ f4 @ ''\",\"'' @ f5 @ ''\",\"'' @ f6 @ ''\",\"'' @ f7 @
        ''\",\"'' @ f8 @ ''\",\"'' @ f9 @ ''\",\"'' @ f10 @ ''\",\"'' @ f11 @ ''\",\"'' @ f12 @
        ''\",\"'' @ f13 @ ''\",\"'' @ f14 @ ''\",\"'' @ f15 @ ''\",\"'' @ f16 @ ''\",\"'' @ f17 @
        ''\",\"'' @ f18 @ ''\",\"'' @ f19 @ ''\") values (?,?,?,?,?,?)''),
    getUpdateSQL = Some (''update \"'' @ table @ ''\" set \"'' @ f1 @ ''\"=?,\"'' @ f2 @
        ''\"=?,\"'' @ f3 @ ''\"=?,\"'' @ f4 @ ''\"=?,\"'' @ f5 @ ''\"=?,\"'' @ f6 @ ''\"=?,\"'' @
        f7 @ ''\"=?,\"'' @ f8 @ ''\"=?,\"'' @ f9 @ ''\"=?,\"'' @ f10 @ ''\"=?,\"'' @ f11 @
        ''\"=?,\"'' @ f12 @ ''\"=?,\"'' @ f13 @ ''\"=?,\"'' @ f14 @ ''\"=?,\"'' @ f15 @
        ''\"=?,\"'' @ f16 @ ''\"=?,\"'' @ f17 @ ''\"=?,\"'' @ f18 @ ''\"=?,\"'' @ f19 @
        ''\"=? where \"id\"=?''),
    getSelectSQL = ''select \"id\",\"'' @ f1 @ ''\",\"'' @ f2 @ ''\",\"'' @ f3 @ ''\",\"'' @
        f4 @ ''\",\"'' @ f5 @ ''\",\"'' @ f6 @ ''\",\"'' @ f7 @ ''\",\"'' @ f8 @ ''\",\"'' @ f9 @
        ''\",\"'' @ f10 @ ''\",\"'' @ f11 @ ''\",\"'' @ f12 @ ''\",\"'' @ f13 @ ''\",\"'' @ f14 @
        ''\",\"'' @ f15 @ ''\",\"'' @ f16 @ ''\",\"'' @ f17 @ ''\",\"'' @ f18 @ ''\",\"'' @ f19 @
        ''\" from \"'' @ table @ ''\"'',
    save = Some (st_bind 0 [IdRef, Fld f1, Fld f2, Fld f3, Fld f4, Fld f5, Fld f6, Fld f7,
        Fld f8, Fld f9, Fld f10, Fld f11, Fld f12, Fld f13, Fld f14, Fld f15, Fld f16, Fld f17,
        Fld f18, Fld f19]),
    update = Some (st_bind 0 [Fld f1, Fld f2, Fld f3, Fld f4, Fld f5, Fld f6, Fld f7, Fld f8,
        Fld f9, Fld f10, Fld f11, Fld f12, Fld f13, Fld f14, Fld f15, Fld f16, Fld f17, Fld f18,
        Fld f19, IdRef]),
    load = st_getColumn 0 [IdRef, Fld f1, Fld f2, Fld f3, Fld f4, Fld f5, Fld f6, Fld f7,
        Fld f8, Fld f9, Fld f10, Fld f11, Fld f12, Fld f13, Fld f14, Fld f15, Fld f16, Fld f17,
        Fld f18, Fld f19]\<rparr>"

definition COL_TABLE_BIND20 where
  "COL_TABLE_BIND20 table f1 f2 f3 f4 f5 f6 f7 f8 f9 f10 f11 f12 f13 f14 f15 f16 f17 f18 f19 f20 =
   \<lparr>default_ctor = Some (\<lambda>df. \<lparr>m_id = 0, member = df\<rparr>),
    move_ctor = Some (\<lambda>mv df rv. run_stmts [copy_id, move_field mv f1,
        move_field mv f2, move_field mv f3, move_field mv f4, move_field mv f5, move_field mv f6,
        move_field mv f7, move_field mv f8, move_field mv f9, move_field mv f10,
        move_field mv f11, move_field mv f12, move_field mv f13, move_field mv f14,
        move_field mv f15, move_field mv f16, move_field mv f17, move_field mv f18,
        move_field mv f19, move_field mv f20, reset_id] (\<lparr>m_id = 0, member = df\<rparr>,
        rv)),
    move_assign = None,
    valid = (\<lambda>x. m_id x \<noteq> 0),
    getId = Some m_id,
    setId = Some (\<lambda>i x. x\<lparr>m_id := i\<rparr>),
    getRowid = m_id,
    setRowid = (\<lambda>i x. x\<lparr>m_id := i\<rparr>),
    getIndexFieldName = Some ''id'',
    getTableName = table,
    getInsertSQL = Some (''insert into \"'' @ table @ ''\" (id, \"'' @ f1 @ ''\",\"'' @ f2 @
        ''\",\"'' @ f3 @ ''\",\"'' @ f4 @ ''\",\"'' @ f5 @ ''\",\"'' @ f6 @ ''\",\"'' @ f7 @
        ''\",\"'' @ f8 @ ''\",\"'' @ f9 @ ''\",\"'' @ f10 @ ''\",\"'' @ f11 @ ''\",\"'' @ f12 @
        ''\",\"'' @ f13 @ ''\",\"'' @ f14 @ ''\",\"'' @ f15 @ ''\",\"'' @ f16 @ ''\",\"'' @ f17 @
        ''\",\"'' @ f18 @ ''\",\"'' @ f19 @ ''\",\"'' @ f20 @ ''\") values (?,?,?,?,?,?)''),
    getUpdateSQL = Some (''update \"'' @ table @ ''\" set \"'' @ f1 @ ''\"=?,\"'' @ f2 @
        ''\"=?,\"'' @ f3 @ ''\"=?,\"'' @ f4 @ ''\"=?,\"'' @ f5 @ ''\"=?,\"'' @ f6 @ ''\"=?,\"'' @
        f7 @ ''\"=?,\"'' @ f8 @ ''\"=?,\"'' @ f9 @ ''\"=?,\"'' @ f10 @ ''\"=?,\"'' @ f11 @
        ''\"=?,\"'' @ f12 @ ''\"=?,\"'' @ f13 @ ''\"=?,\"'' @ f14 @ ''\"=?,\"'' @ f15 @
        ''\"=?,\"'' @ f16 @ ''\"=?,\"'' @ f17 @ ''\"=?,\"'' @ f18 @ ''\"=?,\"'' @ f19 @
        ''\"=?,\"'' @ f20 @ ''\"=? where \"id\"=?''),
    getSelectSQL = ''select \"id\",\"'' @ f1 @ ''\",\"'' @ f2 @ ''\",\"'' @ f3 @ ''\",\"'' @
        f4 @ ''\",\"'' @ f5 @ ''\",\"'' @ f6 @ ''\",\"'' @ f7 @ ''\",\"'' @ f8 @ ''\",\"'' @ f9 @
        ''\",\"'' @ f10 @ ''\",\"'' @ f11 @ ''\",\"'' @ f12 @ ''\",\"'' @ f13 @ ''\",\"'' @ f14 @
        ''\",\"'' @ f15 @ ''\",\"'' @ f16 @ ''\",\"'' @ f17 @ ''\",\"'' @ f18 @ ''\",\"'' @ f19 @
        ''\",\"'' @ f20 @ ''\" from \"'' @ table @ ''\"'',
    save = Some (st_bind 0 [IdRef, Fld f1, Fld f2, Fld f3, Fld f4, Fld f5, Fld f6, Fld f7,
        Fld f8, Fld f9, Fld f10, Fld f11, Fld f12, Fld f13, Fld f14, Fld f15, Fld f16, Fld f17,
        Fld f18, Fld f19, Fld f20]),
    update = Some (st_bind 0 [Fld f1, Fld f2, Fld f3, Fld f4, Fld f5, Fld f6, Fld f7, Fld f8,
        Fld f9, Fld f10, Fld f11, Fld f12, Fld f13, Fld f14, Fld f15, Fld f16, Fld f17, Fld f18,
        Fld f19, Fld f20, IdRef]),
    load = st_getColumn 0 [IdRef, Fld f1, Fld f2, Fld f3, Fld f4, Fld f5, Fld f6, Fld f7,
        Fld f8, Fld f9, Fld f10, Fld f11, Fld f12, Fld f13, Fld f14, Fld f15, Fld f16, Fld f17,
        Fld f18, Fld f19, Fld f20]\<rparr>"

text \<open>The macro of the family for a list of fields, when there is one of that arity.\<close>

definition COL_TABLE_BIND_n ::
  "string \<Rightarrow> string list \<Rightarrow> ('st, 'd, 't, 'o) table_class option" where
  "COL_TABLE_BIND_n table fs = (case fs of
        [] \<Rightarrow> Some (COL_TABLE_BIND0 table)
      | [f1] \<Rightarrow> Some (COL_TABLE_BIND1 table f1)
      | [f1, f2] \<Rightarrow> Some (COL_TABLE_BIND2 table f1 f2)
      | [f1, f2, f3] \<Rightarrow> Some (COL_TABLE_BIND3 table f1 f2 f3)
      | [f1, f2, f3, f4] \<Rightarrow> Some (COL_TABLE_BIND4 table f1 f2 f3 f4)
      | [f1, f2, f3, f4, f5] \<Rightarrow> Some (COL_TABLE_BIND5 table f1 f2 f3 f4 f5)
      | [f1, f2, f3, f4, f5, f6] \<Rightarrow> Some (COL_TABLE_BIND6 table f1 f2 f3 f4 f5 f6)
      | [f1, f2, f3, f4, f5, f6, f7] \<Rightarrow> Some (COL_TABLE_BIND7 table f1 f2 f3 f4 f5 f6
          f7)
      | [f1, f2, f3, f4, f5, f6, f7, f8] \<Rightarrow> Some (COL_TABLE_BIND8 table f1 f2 f3 f4
          f5 f6 f7 f8)
      | [f1, f2, f3, f4, f5, f6, f7, f8, f9] \<Rightarrow> Some (COL_TABLE_BIND9 table f1 f2 f3
          f4 f5 f6 f7 f8 f9)
      | [f1, f2, f3, f4, f5, f6, f7, f8, f9, f10] \<Rightarrow> Some (COL_TABLE_BIND10 table f1
          f2 f3 f4 f5 f6 f7 f8 f9 f10)
      | [f1, f2, f3, f4, f5, f6, f7, f8, f9, f10, f11] \<Rightarrow> Some (COL_TABLE_BIND11
          table f1 f2 f3 f4 f5 f6 f7 f8 f9 f10 f11)
      | [f1, f2, f3, f4, f5, f6, f7, f8, f9, f10, f11, f12] \<Rightarrow> Some (COL_TABLE_BIND12
          table f1 f2 f3 f4 f5 f6 f7 f8 f9 f10 f11 f12)
      | [f1, f2, f3, f4, f5, f6, f7, f8, f9, f10, f11, f12, f13] \<Rightarrow> Some
          (COL_TABLE_BIND13 table f1 f2 f3 f4 f5 f6 f7 f8 f9 f10 f11 f12 f13)
      | [f1, f2, f3, f4, f5, f6, f7, f8, f9, f10, f11, f12, f13, f14] \<Rightarrow> Some
          (COL_TABLE_BIND14 table f1 f2 f3 f4 f5 f6 f7 f8 f9 f10 f11 f12 f13 f14)
      | [f1, f2, f3, f4, f5, f6, f7, f8, f9, f10, f11, f12, f13, f14, f15] \<Rightarrow> Some
          (COL_TABLE_BIND15 table f1 f2 f3 f4 f5 f6 f7 f8 f9 f10 f11 f12 f13 f14 f15)
      | [f1, f2, f3, f4, f5, f6, f7, f8, f9, f10, f11, f12, f13, f14, f15, f16] \<Rightarrow>
          Some (COL_TABLE_BIND16 table f1 f2 f3 f4 f5 f6 f7 f8 f9 f10 f11 f12 f13 f14 f15 f16)
      | [f1, f2, f3, f4, f5, f6, f7, f8, f9, f10, f11, f12, f13, f14, f15, f16, f17]
          \<Rightarrow> Some (COL_TABLE_BIND17 table f1 f2 f3 f4 f5 f6 f7 f8 f9 f10 f11 f12 f13
          f14 f15 f16 f17)
      | [f1, f2, f3, f4, f5, f6, f7, f8, f9, f10, f11, f12, f13, f14, f15, f16, f17, f18]
          \<Rightarrow> Some (COL_TABLE_BIND18 table f1 f2 f3 f4 f5 f6 f7 f8 f9 f10 f11 f12 f13
          f14 f15 f16 f17 f18)
      | [f1, f2, f3, f4, f5, f6, f7, f8, f9, f10, f11, f12, f13, f14, f15, f16, f17, f18, f19]
          \<Rightarrow> Some (COL_TABLE_BIND19 table f1 f2 f3 f4 f5 f6 f7 f8 f9 f10 f11 f12 f13
          f14 f15 f16 f17 f18 f19)
      | [f1, f2, f3, f4, f5, f6, f7, f8, f9, f10, f11, f12, f13, f14, f15, f16, f17, f18, f19,
          f20] \<Rightarrow> Some (COL_TABLE_BIND20 table f1 f2 f3 f4 f5 f6 f7 f8 f9 f10 f11 f12
          f13 f14 f15 f16 f17 f18 f19 f20)
      | _ \<Rightarrow> None)"

section \<open>Each macro is the schema with its placeholder list\<close>

text \<open>
  The list of placeholders the insertion of arity \<open>k\<close> is written with: it stops growing at six.
\<close>

definition col_params :: "nat \<Rightarrow> string" where
  "col_params k = (if k = 1 then ''?, ?'' else if k \<le> 5 then params_sql (k + 1) else params_sql 6)"

definition col_index :: "nat \<Rightarrow> string option" where
  "col_index k = (if 4 \<le> k then Some ''id'' else None)"

definition col_class :: "string \<Rightarrow> string list \<Rightarrow> ('st, 'd, 't, 'o) table_class" where
  "col_class t fs =
     col_schema (col_params (length fs)) (col_index (length fs)) (length fs < 12) t fs"

lemma col_table_bind2:
  "COL_TABLE_BIND2 t f1 f2 = col_class t [f1, f2]"
  by (simp add: table_schema_defs fun_eq_iff COL_TABLE_BIND2_def col_class_def col_params_def col_index_def numeral_eq_Suc)

lemma col_table_bind1:
  "COL_TABLE_BIND1 t f1 = col_class t [f1]"
  by (simp add: table_schema_defs fun_eq_iff COL_TABLE_BIND1_def col_class_def col_params_def col_index_def
      bind_then_01)

lemma col_table_bind_arity:
  "COL_TABLE_BIND0 t  = col_class t []"
  "COL_TABLE_BIND3 t f1 f2 f3 = col_class t [f1, f2, f3]"
  "COL_TABLE_BIND4 t f1 f2 f3 f4 = col_class t [f1, f2, f3, f4]"
  "COL_TABLE_BIND5 t f1 f2 f3 f4 f5 = col_class t [f1, f2, f3, f4, f5]"
  "COL_TABLE_BIND6 t f1 f2 f3 f4 f5 f6 = col_class t [f1, f2, f3, f4, f5, f6]"
  "COL_TABLE_BIND7 t f1 f2 f3 f4 f5 f6 f7 = col_class t [f1, f2, f3, f4, f5, f6, f7]"
  "COL_TABLE_BIND8 t f1 f2 f3 f4 f5 f6 f7 f8 = col_class t [f1, f2, f3, f4, f5, f6, f7, f8]"
  "COL_TABLE_BIND9 t f1 f2 f3 f4 f5 f6 f7 f8 f9 = col_class t [f1, f2, f3, f4, f5, f6, f7, f8,
    f9]"
  "COL_TABLE_BIND10 t f1 f2 f3 f4 f5 f6 f7 f8 f9 f10 = col_class t [f1, f2, f3, f4, f5, f6, f7,
    f8, f9, f10]"
  "COL_TABLE_BIND11 t f1 f2 f3 f4 f5 f6 f7 f8 f9 f10 f11 = col_class t [f1, f2, f3, f4, f5, f6,
    f7, f8, f9, f10, f11]"
  "COL_TABLE_BIND12 t f1 f2 f3 f4 f5 f6 f7 f8 f9 f10 f11 f12 = col_class t [f1, f2, f3, f4, f5,
    f6, f7, f8, f9, f10, f11, f12]"
  "COL_TABLE_BIND13 t f1 f2 f3 f4 f5 f6 f7 f8 f9 f10 f11 f12 f13 = col_class t [f1, f2, f3, f4,
    f5, f6, f7, f8, f9, f10, f11, f12, f13]"
  "COL_TABLE_BIND14 t f1 f2 f3 f4 f5 f6 f7 f8 f9 f10 f11 f12 f13 f14 = col_class t [f1, f2, f3,
    f4, f5, f6, f7, f8, f9, f10, f11, f12, f13, f14]"
  "COL_TABLE_BIND15 t f1 f2 f3 f4 f5 f6 f7 f8 f9 f10 f11 f12 f13 f14 f15 = col_class t [f1, f2,
    f3, f4, f5, f6, f7, f8, f9, f10, f11, f12, f13, f14, f15]"
  "COL_TABLE_BIND16 t f1 f2 f3 f4 f5 f6 f7 f8 f9 f10 f11 f12 f13 f14 f15 f16 = col_class t [f1,
    f2, f3, f4, f5, f6, f7, f8, f9, f10, f11, f12, f13, f14, f15, f16]"
  "COL_TABLE_BIND17 t f1 f2 f3 f4 f5 f6 f7 f8 f9 f10 f11 f12 f13 f14 f15 f16 f17 = col_class t
    [f1, f2, f3, f4, f5, f6, f7, f8, f9, f10, f11, f12, f13, f14, f15, f16, f17]"
  "COL_TABLE_BIND18 t f1 f2 f3 f4 f5 f6 f7 f8 f9 f10 f11 f12 f13 f14 f15 f16 f17 f18 = col_class
    t [f1, f2, f3, f4, f5, f6, f7, f8, f9, f10, f11, f12, f13, f14, f15, f16, f17, f18]"
  "COL_TABLE_BIND19 t f1 f2 f3 f4 f5 f6 f7 f8 f9 f10 f11 f12 f13 f14 f15 f16 f17 f18 f19 =
    col_class t [f1, f2, f3, f4, f5, f6, f7, f8, f9, f10, f11, f12, f13, f14, f15, f16, f17, f18,
    f19]"
  "COL_TABLE_BIND20 t f1 f2 f3 f4 f5 f6 f7 f8 f9 f10 f11 f12 f13 f14 f15 f16 f17 f18 f19 f20 =
    col_class t [f1, f2, f3, f4, f5, f6, f7, f8, f9, f10, f11, f12, f13, f14, f15, f16, f17, f18,
    f19, f20]"
  by (simp_all add: table_schema_defs fun_eq_iff col_class_def col_params_def col_index_def
      numeral_eq_Suc COL_TABLE_BIND0_def COL_TABLE_BIND3_def COL_TABLE_BIND4_def
      COL_TABLE_BIND5_def COL_TABLE_BIND6_def COL_TABLE_BIND7_def COL_TABLE_BIND8_def
      COL_TABLE_BIND9_def COL_TABLE_BIND10_def COL_TABLE_BIND11_def COL_TABLE_BIND12_def
      COL_TABLE_BIND13_def COL_TABLE_BIND14_def COL_TABLE_BIND15_def COL_TABLE_BIND16_def
      COL_TABLE_BIND17_def COL_TABLE_BIND18_def COL_TABLE_BIND19_def COL_TABLE_BIND20_def del:
      run_stmts.simps)

lemma col_table_class:
  "COL_TABLE_BIND_n t fs = (if length fs \<le> 20 then Some (col_class t fs) else None)"
  by (auto simp: COL_TABLE_BIND_n_def col_table_bind_arity col_table_bind2 col_table_bind1
      split: list.split)

text \<open>
  Every \<open>COL_TABLE_BIND\<close> macro declares the class of the schema over its fields, with the
  placeholder list \<open>col_params\<close> and, from arity twelve on, no move assignment.
\<close>

theorem col_table_is_schema:
  "COL_TABLE_BIND_n t fs = (if length fs \<le> 20 then Some (col_class t fs) else None)"
  by (rule col_table_class)

section \<open>Placeholders and bindings\<close>

lemma col_params_scan:
  "0 < k \<Longrightarrow> sql_idents CHR 0x22 (col_params k @ '')'') = [] \<and>
     sql_params CHR 0x22 (col_params k @ '')'') = min (k + 1) 6"
  by (auto simp: col_params_def params_sql_scan)

text \<open>
  The insertion of a class with \<open>k\<close> fields names the \<open>k\<close> columns beside the id, in the order
  \<open>save\<close> binds them after the id, \<open>k + 1\<close> values in all; but its text has only the smaller of
  \<open>k + 1\<close> and 6 placeholders, so from six fields on the two numbers differ.
\<close>

theorem col_insert_placeholders:
  assumes "COL_TABLE_BIND_n t fs = Some c" "getInsertSQL c = Some ins"
    and "plain_name t" "\<forall>f \<in> set fs. plain_name f"
  shows "save c = Some (st_bind 0 (IdRef # map Fld fs)) \<and> sql_idents CHR 0x22 ins = t # fs \<and>
    sql_params CHR 0x22 ins = min (length (IdRef # map Fld fs)) 6"
proof -
  let ?q = "CHR 0x22"
  have c: "c = col_class t fs" and fs: "fs \<noteq> []"
    using assms(1,2) unfolding col_table_class
    by (auto simp: col_class_def col_schema_def Let_def split: if_splits)
  have ins: "ins = insert_sql (quote ?q t) ''id, '' (map (quote ?q) fs) (col_params (length fs))"
    using assms(2) fs by (simp add: c col_class_def col_schema_def Let_def)
  have "?q \<notin> set t" "\<forall>f \<in> set fs. ?q \<notin> set f" using assms(3,4) by (auto simp: plain_name_def)
  then have "sql_idents ?q ins = t # fs" "sql_params ?q ins = min (length fs + 1) 6"
    using fs by (simp_all add: ins insert_sql_scan col_params_scan)
  moreover have "save c = Some (st_bind 0 (IdRef # map Fld fs))"
    using fs by (simp add: c col_class_def col_schema_def Let_def)
  ultimately show ?thesis by simp
qed

end
