(* ===== verification/ThreadQueue.thy ===== *)
theory ThreadQueue
  imports HkuPrelude "HOL-Library.Multiset"
begin

text \<open>
  The task queues of \<open>thread/\<close>: the wrapped task (\<open>FuncWrapper.h\<close>), the interrupt flag
  (\<open>InterruptFlag.h\<close>) and the three queues (\<open>ThreadSafeQueue.h\<close>, \<open>WorkStealQueue.h\<close>,
  \<open>MQStealQueue.h\<close>). Every operation holds the queue's mutex from its first to its last access, so
  each is one function on the contents. What the thread pools need of a queue is a locale; each
  queue interprets it.
\<close>

section \<open>Tasks and flags\<close>

text \<open>
  A \<open>FuncWrapper\<close> holds a callable or nothing; the empty one is the pools' stop message. Calling
  it yields the callable that runs, if any; moving from it leaves it empty.
\<close>

datatype 'a task = NullTask | Task 'a

definition isNullTask :: "'a task \<Rightarrow> bool" where
  "isNullTask t = (case t of NullTask \<Rightarrow> True | Task _ \<Rightarrow> False)"

fun call_task :: "'a task \<Rightarrow> 'a option" where
  "call_task NullTask = None"
| "call_task (Task f) = Some f"

definition move_task :: "'a task \<Rightarrow> 'a task \<times> 'a task" where
  "move_task other = (other, NullTask)"

lemma isNullTask_simps [simp]: "isNullTask NullTask" "\<not> isNullTask (Task f)"
  by (simp_all add: isNullTask_def)

lemma isNullTask_iff: "isNullTask t \<longleftrightarrow> t = NullTask"
  by (cases t) simp_all

type_synonym interrupt_flag = bool

definition flag_new :: interrupt_flag where
  "flag_new = False"

definition flag_set :: "interrupt_flag \<Rightarrow> interrupt_flag" where
  "flag_set f = True"

definition flag_isSet :: "interrupt_flag \<Rightarrow> bool" where
  "flag_isSet f = f"

text \<open>The callables in a list of tasks.\<close>

fun real_tasks :: "'a task list \<Rightarrow> 'a list" where
  "real_tasks [] = []"
| "real_tasks (NullTask # ts) = real_tasks ts"
| "real_tasks (Task f # ts) = f # real_tasks ts"

lemma real_tasks_append [simp]: "real_tasks (xs @ ys) = real_tasks xs @ real_tasks ys"
  by (induction xs rule: real_tasks.induct) auto

lemma set_real_tasks: "f \<in> set (real_tasks ts) \<longleftrightarrow> Task f \<in> set ts"
  by (induction ts rule: real_tasks.induct) auto

text \<open>A sum over the workers when one of them changes.\<close>

lemma sum_fun_upd:
  fixes g :: "'b \<Rightarrow> 'c::comm_monoid_add"
  assumes "i < (n :: nat)"
  shows "(\<Sum>j<n. g ((f(i := x)) j)) + g (f i) = (\<Sum>j<n. g (f j)) + g x"
proof -
  have "(\<Sum>j\<in>{..<n} - {i}. g ((f(i := x)) j)) = (\<Sum>j\<in>{..<n} - {i}. g (f j))"
    by (intro sum.cong) auto
  with assms show ?thesis
    by (simp add: sum.remove [of "{..<n}" i] ac_simps)
qed

section \<open>\<open>ThreadSafeQueue\<close>\<close>

text \<open>
  A FIFO queue. \<open>wait_and_pop\<close> blocks on an empty queue: it is a function only of a nonempty one.
  Both overloads of the two pops hand the element out, one through a reference and one in a fresh
  shared pointer.
\<close>

definition tsq_push :: "'a \<Rightarrow> 'a list \<Rightarrow> 'a list" where
  "tsq_push item q = q @ [item]"

fun tsq_wait_and_pop :: "'a list \<Rightarrow> ('a \<times> 'a list) option" where
  "tsq_wait_and_pop [] = None"
| "tsq_wait_and_pop (x # q) = Some (x, q)"

fun tsq_try_pop :: "'a list \<Rightarrow> ('a \<times> 'a list) option" where
  "tsq_try_pop [] = None"
| "tsq_try_pop (x # q) = Some (x, q)"

definition tsq_empty :: "'a list \<Rightarrow> bool" where
  "tsq_empty q = (q = [])"

definition tsq_size :: "'a list \<Rightarrow> nat" where
  "tsq_size q = length q"

definition tsq_clear :: "'a list \<Rightarrow> 'a list" where
  "tsq_clear q = []"

section \<open>\<open>WorkStealQueue\<close>\<close>

text \<open>
  A deque of tasks: its owner pushes and pops at the front, a thief takes from the back and never
  takes a stop message.
\<close>

definition wsq_push_front :: "'a task \<Rightarrow> 'a task list \<Rightarrow> 'a task list" where
  "wsq_push_front d q = d # q"

definition wsq_push_back :: "'a task \<Rightarrow> 'a task list \<Rightarrow> 'a task list" where
  "wsq_push_back d q = q @ [d]"

definition wsq_empty :: "'a task list \<Rightarrow> bool" where
  "wsq_empty q = (q = [])"

definition wsq_size :: "'a task list \<Rightarrow> nat" where
  "wsq_size q = length q"

definition wsq_clear :: "'a task list \<Rightarrow> 'a task list" where
  "wsq_clear q = []"

definition wsq_try_pop :: "'a task list \<Rightarrow> ('a task \<times> 'a task list) option" where
  "wsq_try_pop q = (if q = [] then None else Some (hd q, tl q))"

definition wsq_try_steal :: "'a task list \<Rightarrow> ('a task \<times> 'a task list) option" where
  "wsq_try_steal q =
     (if q = [] then None
      else if isNullTask (last q) then None
      else Some (last q, butlast q))"

section \<open>\<open>MQStealQueue\<close>\<close>

definition mqs_push :: "'a task \<Rightarrow> 'a task list \<Rightarrow> 'a task list" where
  "mqs_push item q = q @ [item]"

definition mqs_push_front :: "'a task \<Rightarrow> 'a task list \<Rightarrow> 'a task list" where
  "mqs_push_front d q = d # q"

fun mqs_wait_and_pop :: "'a task list \<Rightarrow> ('a task \<times> 'a task list) option" where
  "mqs_wait_and_pop [] = None"
| "mqs_wait_and_pop (x # q) = Some (x, q)"

definition mqs_try_pop :: "'a task list \<Rightarrow> ('a task \<times> 'a task list) option" where
  "mqs_try_pop q = (if q = [] then None else Some (hd q, tl q))"

definition mqs_try_steal :: "'a task list \<Rightarrow> ('a task \<times> 'a task list) option" where
  "mqs_try_steal q =
     (if q = [] then None
      else if isNullTask (last q) then None
      else Some (last q, butlast q))"

definition mqs_empty :: "'a task list \<Rightarrow> bool" where
  "mqs_empty q = (q = [])"

definition mqs_size :: "'a task list \<Rightarrow> nat" where
  "mqs_size q = length q"

definition mqs_clear :: "'a task list \<Rightarrow> 'a task list" where
  "mqs_clear q = []"

section \<open>The contract\<close>

text \<open>
  What a pool relies on: a queue holds a multiset of items, an insertion adds one, a removal takes
  one out and fails on the empty queue only. Nothing is duplicated or lost.
\<close>

locale task_bag =
  fixes put :: "'a \<Rightarrow> 'q \<Rightarrow> 'q"
    and take :: "'q \<Rightarrow> ('a \<times> 'q) option"
    and items :: "'q \<Rightarrow> 'a multiset"
  assumes items_put: "items (put x q) = add_mset x (items q)"
    and items_take: "take q = Some (x, q') \<Longrightarrow> items q = add_mset x (items q')"
    and take_empty: "take q = None \<longleftrightarrow> items q = {#}"
begin

text \<open>A sequence of insertions (\<open>Inl\<close>) and attempts at removal, and what came out of it.\<close>

fun run_ops :: "('a + unit) list \<Rightarrow> 'q \<Rightarrow> 'a list \<times> 'q" where
  "run_ops [] q = ([], q)"
| "run_ops (Inl x # ops) q = run_ops ops (put x q)"
| "run_ops (Inr u # ops) q =
     (case take q of None \<Rightarrow> run_ops ops q
      | Some (x, q') \<Rightarrow> let (out, q'') = run_ops ops q' in (x # out, q''))"

fun put_items :: "('a + unit) list \<Rightarrow> 'a multiset" where
  "put_items [] = {#}"
| "put_items (Inl x # ops) = add_mset x (put_items ops)"
| "put_items (Inr u # ops) = put_items ops"

lemma run_ops_conserves:
  "run_ops ops q = (out, q') \<Longrightarrow> items q + put_items ops = mset out + items q'"
  by (induction ops q arbitrary: out q' rule: run_ops.induct)
    (auto simp: items_put items_take split: option.splits prod.splits)

lemma take_some: "items q \<noteq> {#} \<Longrightarrow> \<exists>x q'. take q = Some (x, q') \<and> x \<in># items q"
  using take_empty [of q] items_take [of q] by (cases "take q") auto

lemma drain: "\<exists>q'. (\<forall>n \<ge> size (items q). \<exists>out. run_ops (replicate n (Inr ())) q = (out, q') \<and> mset out = items q)"
proof (induction "size (items q)" arbitrary: q)
  case 0
  then have "take q = None" by (simp add: take_empty)
  then have "run_ops (replicate n (Inr ())) q = ([], q)" for n by (induction n) auto
  with 0 show ?case by auto
next
  case (Suc k)
  then obtain x q1 where q1: "take q = Some (x, q1)" using take_some [of q] by force
  then have size: "k = size (items q1)" using Suc.hyps(2) items_take by fastforce
  obtain q' where q': "\<forall>n \<ge> k. \<exists>out. run_ops (replicate n (Inr ())) q1 = (out, q') \<and> mset out = items q1"
    using Suc.hyps(1) [OF size] size by auto
  have "\<exists>out. run_ops (replicate n (Inr ())) q = (out, q') \<and> mset out = items q" if "n \<ge> Suc k" for n
  proof -
    from that obtain m where n: "n = Suc m" and "m \<ge> k" by (cases n) auto
    then obtain out where "run_ops (replicate m (Inr ())) q1 = (out, q')" "mset out = items q1"
      using q' by blast
    with q1 show ?thesis by (auto simp: n items_take)
  qed
  with Suc.hyps(2) show ?case by auto
qed

end

text \<open>A queue that others may steal from: what they take is an item too, and never a stop message.\<close>

locale stealing_bag = task_bag put take items
  for put :: "'a task \<Rightarrow> 'q \<Rightarrow> 'q" and take items +
  fixes steal :: "'q \<Rightarrow> ('a task \<times> 'q) option"
  assumes items_steal: "steal q = Some (x, q') \<Longrightarrow> items q = add_mset x (items q')"
    and steal_real: "steal q = Some (x, q') \<Longrightarrow> \<not> isNullTask x"
begin

lemma steal_keeps_stop_messages:
  "steal q = Some (x, q') \<Longrightarrow> Multiset.count (items q') NullTask = Multiset.count (items q) NullTask"
  using items_steal [of q x q'] steal_real [of q x q'] by (auto simp: isNullTask_iff)

end

section \<open>The queues keep it\<close>

interpretation tsq: task_bag tsq_push tsq_try_pop mset
  by unfold_locales (auto simp: tsq_push_def elim: tsq_try_pop.elims)

interpretation tsq_wait: task_bag tsq_push tsq_wait_and_pop mset
  by unfold_locales (auto simp: tsq_push_def elim: tsq_wait_and_pop.elims)

lemma wsq_steal_items:
  "wsq_try_steal q = Some (x, q') \<Longrightarrow> mset q = add_mset x (mset q')"
  "wsq_try_steal q = Some (x, q') \<Longrightarrow> \<not> isNullTask x"
  by (cases q rule: rev_cases; auto simp: wsq_try_steal_def split: if_splits)+

lemma wsq_pop_items:
  "wsq_try_pop q = Some (x, q') \<Longrightarrow> mset q = add_mset x (mset q')"
  "wsq_try_pop q = None \<longleftrightarrow> mset q = {#}"
  by (cases q; auto simp: wsq_try_pop_def)+

lemma mqs_same: "mqs_try_pop = wsq_try_pop" "mqs_try_steal = wsq_try_steal"
  by (simp_all add: fun_eq_iff mqs_try_pop_def wsq_try_pop_def mqs_try_steal_def wsq_try_steal_def)

interpretation wsq: stealing_bag wsq_push_front wsq_try_pop mset wsq_try_steal
  by unfold_locales (auto simp: wsq_push_front_def wsq_pop_items wsq_steal_items)

interpretation wsq_back: stealing_bag wsq_push_back wsq_try_pop mset wsq_try_steal
  by unfold_locales (auto simp: wsq_push_back_def wsq_pop_items wsq_steal_items)

interpretation mqs: stealing_bag mqs_push mqs_try_pop mset mqs_try_steal
  unfolding mqs_same by unfold_locales (auto simp: mqs_push_def wsq_pop_items wsq_steal_items)

lemma mqs_wait_items:
  "mqs_wait_and_pop q = Some (x, q') \<Longrightarrow> mset q = add_mset x (mset q')"
  "mqs_wait_and_pop q = None \<longleftrightarrow> mset q = {#}"
  by (cases q; auto)+

interpretation mqs_front: stealing_bag mqs_push_front mqs_wait_and_pop mset mqs_try_steal
  unfolding mqs_same
  by unfold_locales (auto simp: mqs_push_front_def mqs_wait_items wsq_steal_items)

end
