(* ===== verification/ThreadPool.thy ===== *)
theory ThreadPool
  imports ThreadQueue
begin

text \<open>
  \<open>thread/ThreadPool.h\<close>: one queue shared by all workers. The threads are interleaved at their
  accesses to shared state: an operation on the queue (under its mutex) and a read or write of the
  atomic \<open>m_done\<close> is one step. \<open>stop\<close> and \<open>join\<close> are called by one thread, the controller; any
  thread, a worker inside a task included, may submit. A task is its identity: what it computes is
  not modelled, only that it is called.
\<close>

section \<open>State\<close>

text \<open>
  A worker is at the test of its loop, blocked in or about to do \<open>wait_and_pop\<close>, looking at the
  task it got, running it, or has left \<open>worker_thread\<close>.
\<close>

datatype 'a worker_pc = AtLoop | AtPop | Holding "'a task" | Running 'a | Exited

text \<open>
  Where the controller is: in no call; in \<open>join\<close> or \<open>stop\<close>, having pushed so many stop messages;
  waiting for the threads; about to clear the queue.
\<close>

datatype ctl_pc = CtlFree | JoinPush nat | JoinWait | JoinClear | StopPush nat | StopWait | StopClear

text \<open>
  Beside the members of the class: the tasks of callers between the test of \<open>m_done\<close> and the push
  in \<open>submit\<close>, and a record of the past (what was accepted, called, completed, and dropped by
  clearing the queue, what had been pushed when \<open>join\<close> was called, and whether a \<open>join\<close> returned).
\<close>

record 'a thread_pool =
  m_done :: bool
  m_worker_num :: nat
  m_running_until_empty :: bool
  m_master_work_queue :: "'a task list"
  m_threads :: "nat \<Rightarrow> 'a worker_pc"
  ctl :: ctl_pc
  inflight :: "'a multiset"
  submitted :: "'a multiset"
  called :: "'a multiset"
  finished :: "'a multiset"
  dropped :: "'a multiset"
  before_join :: "'a set"
  joined :: bool

definition tp_new :: "nat \<Rightarrow> bool \<Rightarrow> 'a thread_pool" where
  "tp_new n until_empty = \<lparr>
     m_done = False, m_worker_num = n, m_running_until_empty = until_empty,
     m_master_work_queue = [], m_threads = (\<lambda>_. AtLoop), ctl = CtlFree,
     inflight = {#}, submitted = {#}, called = {#}, finished = {#}, dropped = {#},
     before_join = {}, joined = False\<rparr>"

definition tp_remain_task_count :: "'a thread_pool \<Rightarrow> nat" where
  "tp_remain_task_count s = tsq_size (m_master_work_queue s)"

section \<open>Operations\<close>

text \<open>\<open>submit\<close>: the test, then the push.\<close>

definition tp_submit :: "'a \<Rightarrow> 'a thread_pool \<Rightarrow> 'a thread_pool result" where
  "tp_submit a s =
     (if m_done s then Inl LogicError
      else Inr (s\<lparr>inflight := add_mset a (inflight s), submitted := add_mset a (submitted s)\<rparr>))"

definition tp_submit_push :: "'a \<Rightarrow> 'a thread_pool \<Rightarrow> 'a thread_pool" where
  "tp_submit_push a s =
     s\<lparr>m_master_work_queue := tsq_push (Task a) (m_master_work_queue s),
       inflight := inflight s - {#a#}\<rparr>"

text \<open>One step of \<open>worker_thread\<close>; \<open>None\<close> where the thread cannot move.\<close>

definition tp_worker :: "nat \<Rightarrow> 'a thread_pool \<Rightarrow> 'a thread_pool option" where
  "tp_worker i s =
     (case m_threads s i of
        AtLoop \<Rightarrow> Some (s\<lparr>m_threads := (m_threads s)(i := if m_done s then Exited else AtPop)\<rparr>)
      | AtPop \<Rightarrow>
          (case tsq_wait_and_pop (m_master_work_queue s) of
             None \<Rightarrow> None
           | Some (task, q) \<Rightarrow>
               Some (s\<lparr>m_master_work_queue := q, m_threads := (m_threads s)(i := Holding task)\<rparr>))
      | Holding task \<Rightarrow>
          (if isNullTask task then Some (s\<lparr>m_threads := (m_threads s)(i := Exited)\<rparr>)
           else case call_task task of
             None \<Rightarrow> Some (s\<lparr>m_threads := (m_threads s)(i := AtLoop)\<rparr>)
           | Some a \<Rightarrow> Some (s\<lparr>m_threads := (m_threads s)(i := Running a), called := add_mset a (called s)\<rparr>))
      | Running a \<Rightarrow>
          Some (s\<lparr>m_threads := (m_threads s)(i := AtLoop), finished := add_mset a (finished s)\<rparr>)
      | Exited \<Rightarrow> None)"

definition tp_all_exited :: "'a thread_pool \<Rightarrow> bool" where
  "tp_all_exited s \<longleftrightarrow> (\<forall>i \<in> set [0..<m_worker_num s]. m_threads s i = Exited)"

text \<open>\<open>join\<close> and \<open>stop\<close>: the call, and the steps of the call in progress.\<close>

definition tp_join :: "'a thread_pool \<Rightarrow> 'a thread_pool" where
  "tp_join s =
     (if m_done s then s
      else s\<lparr>m_done := \<not> m_running_until_empty s, ctl := JoinPush 0,
             before_join := set_mset (submitted s) - set_mset (inflight s)\<rparr>)"

definition tp_stop :: "'a thread_pool \<Rightarrow> 'a thread_pool" where
  "tp_stop s = (if m_done s then s else s\<lparr>m_done := True, ctl := StopPush 0\<rparr>)"

definition tp_clear :: "'a thread_pool \<Rightarrow> 'a thread_pool" where
  "tp_clear s =
     s\<lparr>m_master_work_queue := tsq_clear (m_master_work_queue s),
       dropped := dropped s + mset (real_tasks (m_master_work_queue s))\<rparr>"

definition tp_push_null :: "'a thread_pool \<Rightarrow> 'a thread_pool" where
  "tp_push_null s = s\<lparr>m_master_work_queue := tsq_push NullTask (m_master_work_queue s)\<rparr>"

definition tp_ctl :: "'a thread_pool \<Rightarrow> 'a thread_pool option" where
  "tp_ctl s =
     (case ctl s of
        CtlFree \<Rightarrow> None
      | JoinPush k \<Rightarrow>
          (if k < 2 * m_worker_num s then Some ((tp_push_null s)\<lparr>ctl := JoinPush (k + 1)\<rparr>)
           else Some (s\<lparr>ctl := JoinWait\<rparr>))
      | JoinWait \<Rightarrow> (if tp_all_exited s then Some (s\<lparr>m_done := True, ctl := JoinClear\<rparr>) else None)
      | JoinClear \<Rightarrow> Some ((tp_clear s)\<lparr>ctl := CtlFree, joined := True\<rparr>)
      | StopPush k \<Rightarrow>
          (if k < m_worker_num s then Some ((tp_push_null s)\<lparr>ctl := StopPush (k + 1)\<rparr>)
           else Some (s\<lparr>ctl := StopWait\<rparr>))
      | StopWait \<Rightarrow> (if tp_all_exited s then Some (s\<lparr>ctl := StopClear\<rparr>) else None)
      | StopClear \<Rightarrow> Some ((tp_clear s)\<lparr>ctl := CtlFree\<rparr>))"

section \<open>Interleaving\<close>

inductive tp_step :: "'a thread_pool \<Rightarrow> 'a thread_pool \<Rightarrow> bool" where
  submit: "a \<notin># submitted s \<Longrightarrow> tp_submit a s = Inr s' \<Longrightarrow> tp_step s s'"
| push: "a \<in># inflight s \<Longrightarrow> tp_step s (tp_submit_push a s)"
| worker: "i < m_worker_num s \<Longrightarrow> tp_worker i s = Some s' \<Longrightarrow> tp_step s s'"
| join: "ctl s = CtlFree \<Longrightarrow> tp_step s (tp_join s)"
| stop: "ctl s = CtlFree \<Longrightarrow> tp_step s (tp_stop s)"
| ctl: "tp_ctl s = Some s' \<Longrightarrow> tp_step s s'"

inductive tp_reach :: "nat \<Rightarrow> bool \<Rightarrow> 'a thread_pool \<Rightarrow> bool" for n until_empty where
  init: "tp_reach n until_empty (tp_new n until_empty)"
| step: "tp_reach n until_empty s \<Longrightarrow> tp_step s s' \<Longrightarrow> tp_reach n until_empty s'"

section \<open>Where the tasks are\<close>

fun held :: "'a worker_pc \<Rightarrow> 'a multiset" where
  "held (Holding (Task a)) = {#a#}"
| "held _ = {#}"

fun running :: "'a worker_pc \<Rightarrow> 'a multiset" where
  "running (Running a) = {#a#}"
| "running _ = {#}"

abbreviation over_workers :: "('a worker_pc \<Rightarrow> 'a multiset) \<Rightarrow> 'a thread_pool \<Rightarrow> 'a multiset" where
  "over_workers g s \<equiv> (\<Sum>i<m_worker_num s. g (m_threads s i))"

text \<open>
  Every accepted task is on its way to the queue, in it, in a worker's hand, called, or dropped; a
  called task runs or has finished; tasks are distinct.
\<close>

definition tp_accounted :: "'a thread_pool \<Rightarrow> bool" where
  "tp_accounted s \<longleftrightarrow>
     submitted s = inflight s + mset (real_tasks (m_master_work_queue s)) + over_workers held s +
       called s + dropped s \<and>
     called s = finished s + over_workers running s"

definition tp_distinct :: "'a thread_pool \<Rightarrow> bool" where
  "tp_distinct s \<longleftrightarrow> (\<forall>a. Multiset.count (submitted s) a \<le> 1)"

lemma tp_acc_init: "tp_accounted (tp_new n u)"
  by (simp add: tp_accounted_def tp_new_def)

lemma tp_acc_submit:
  "tp_accounted s \<Longrightarrow> tp_submit a s = Inr s' \<Longrightarrow> tp_accounted s'"
  by (auto simp: tp_accounted_def tp_submit_def split: if_splits)

lemma tp_acc_push:
  assumes "tp_accounted s" "a \<in># inflight s"
  shows "tp_accounted (tp_submit_push a s)"
proof -
  obtain M where "inflight s = add_mset a M" using assms(2) by (metis insert_DiffM)
  with assms(1) show ?thesis by (simp add: tp_accounted_def tp_submit_push_def tsq_push_def)
qed

lemma tp_acc_worker:
  assumes "tp_accounted s" "i < m_worker_num s" "tp_worker i s = Some s'"
  shows "tp_accounted s'"
proof -
  note upd = sum_fun_upd [OF assms(2), where f = "m_threads s" and g = held]
    sum_fun_upd [OF assms(2), where f = "m_threads s" and g = running]
  show ?thesis
  proof (cases "m_threads s i")
    case AtPop
    with assms(3) obtain t q where "m_master_work_queue s = t # q"
      "s' = s\<lparr>m_master_work_queue := q, m_threads := (m_threads s)(i := Holding t)\<rparr>"
      by (cases "m_master_work_queue s") (auto simp: tp_worker_def)
    with assms(1) AtPop upd [of "Holding t"] show ?thesis
      by (cases t) (simp_all add: tp_accounted_def)
  next
    case (Holding t)
    with assms(1,3) upd [of Exited] upd [of "Running a" for a] show ?thesis
      by (cases t) (auto simp: tp_accounted_def tp_worker_def)
  next
    case (Running a)
    with assms(1,3) upd [of AtLoop] show ?thesis
      by (auto simp: tp_accounted_def tp_worker_def)
  qed (use assms(1,3) upd [of Exited] upd [of AtPop] in \<open>auto simp: tp_accounted_def tp_worker_def\<close>)
qed

lemma tp_acc_ctl:
  assumes "tp_accounted s" "tp_ctl s = Some s'"
  shows "tp_accounted s'"
  using assms
  by (auto simp: tp_accounted_def tp_ctl_def tp_push_null_def tp_clear_def tsq_push_def tsq_clear_def
      split: ctl_pc.splits if_splits)

lemma tp_acc_calls: "tp_accounted s \<Longrightarrow> tp_accounted (tp_join s)" "tp_accounted s \<Longrightarrow> tp_accounted (tp_stop s)"
  by (auto simp: tp_accounted_def tp_join_def tp_stop_def)

lemma tp_acc_step: "tp_step s s' \<Longrightarrow> tp_accounted s \<Longrightarrow> tp_accounted s'"
  by (induction rule: tp_step.induct)
    (auto intro: tp_acc_submit tp_acc_push tp_acc_worker tp_acc_ctl tp_acc_calls)

lemma submitted_steps:
  "tp_worker i s = Some s' \<Longrightarrow> submitted s' = submitted s"
  "tp_ctl s = Some s' \<Longrightarrow> submitted s' = submitted s"
  "submitted (tp_submit_push a s) = submitted s"
  "submitted (tp_join s) = submitted s"
  "submitted (tp_stop s) = submitted s"
  by (auto simp: tp_worker_def tp_ctl_def tp_push_null_def tp_clear_def tp_submit_push_def tp_join_def
      tp_stop_def split: worker_pc.splits option.splits ctl_pc.splits if_splits)

lemma distinct_step: "tp_step s s' \<Longrightarrow> tp_distinct s \<Longrightarrow> tp_distinct s'"
  by (induction rule: tp_step.induct)
    (auto simp: tp_distinct_def submitted_steps tp_submit_def not_in_iff split: if_splits)

lemma tp_reach_accounted: "tp_reach n u s \<Longrightarrow> tp_accounted s \<and> tp_distinct s"
proof (induction rule: tp_reach.induct)
  case init
  show ?case using tp_acc_init [of n u] by (simp add: tp_distinct_def tp_new_def)
qed (auto intro: tp_acc_step distinct_step)

lemma tp_step_params:
  "tp_step s s' \<Longrightarrow> m_worker_num s' = m_worker_num s \<and> m_running_until_empty s' = m_running_until_empty s"
  by (induction rule: tp_step.induct)
    (auto simp: tp_worker_def tp_ctl_def tp_push_null_def tp_clear_def tp_submit_def tp_submit_push_def
      tp_join_def tp_stop_def split: worker_pc.splits option.splits ctl_pc.splits if_splits)

lemma tp_reach_params: "tp_reach n u s \<Longrightarrow> m_worker_num s = n \<and> m_running_until_empty s = u"
  by (induction rule: tp_reach.induct) (auto simp: tp_new_def dest: tp_step_params)

section \<open>What a join leaves done\<close>

text \<open>
  In a pool that runs until empty, the stop messages of \<open>join\<close> stand behind every task pushed
  before: a worker that has met one of them leaves no such task in the queue.
\<close>

abbreviation behind_stop :: "'a task list \<Rightarrow> 'a set" where
  "behind_stop q \<equiv> set (real_tasks (dropWhile (\<lambda>t. \<not> isNullTask t) q))"

definition stop_seen :: "'a thread_pool \<Rightarrow> bool" where
  "stop_seen s \<longleftrightarrow> (\<exists>i < m_worker_num s. m_threads s i \<in> {Exited, Holding NullTask})"

definition tp_fresh :: "'a thread_pool \<Rightarrow> bool" where
  "tp_fresh s \<longleftrightarrow> NullTask \<notin> set (m_master_work_queue s) \<and> \<not> stop_seen s \<and> dropped s = {#}"

definition tp_joining :: "'a thread_pool \<Rightarrow> bool" where
  "tp_joining s \<longleftrightarrow> before_join s \<subseteq> set_mset (submitted s) \<and> before_join s \<inter> set_mset (inflight s) = {} \<and>
     dropped s = {#} \<and> behind_stop (m_master_work_queue s) \<inter> before_join s = {} \<and>
     (stop_seen s \<longrightarrow> set (real_tasks (m_master_work_queue s)) \<inter> before_join s = {})"

definition tp_join_inv :: "'a thread_pool \<Rightarrow> bool" where
  "tp_join_inv s \<longleftrightarrow>
     (case ctl s of
        CtlFree \<Rightarrow> if m_done s then joined s \<longrightarrow> before_join s \<subseteq> set_mset (finished s)
                   else tp_fresh s \<and> \<not> joined s
      | JoinPush k \<Rightarrow> tp_joining s \<and> \<not> m_done s \<and> \<not> joined s
      | JoinWait \<Rightarrow> tp_joining s \<and> \<not> m_done s \<and> \<not> joined s
      | JoinClear \<Rightarrow> tp_joining s \<and> tp_all_exited s \<and> m_done s \<and> \<not> joined s
      | _ \<Rightarrow> m_done s \<and> \<not> joined s)"

lemma dropWhile_real: "NullTask \<notin> set q \<Longrightarrow> dropWhile (\<lambda>t. \<not> isNullTask t) q = []"
  by (auto simp: isNullTask_iff)

lemma behind_stop_snoc: "behind_stop (q @ [t]) \<subseteq> behind_stop q \<union> set (real_tasks [t])"
proof (induction q)
  case (Cons a q)
  then show ?case by (cases a) auto
qed auto

lemma behind_stop_null: "behind_stop (q @ [NullTask]) = behind_stop q"
proof (induction q)
  case (Cons a q)
  then show ?case by (cases a) auto
qed simp

text \<open>A worker that tests an unset \<open>m_done\<close> goes on, and only a stop message makes it leave.\<close>

lemma worker_fresh:
  assumes "tp_fresh s" "\<not> m_done s" "i < m_worker_num s" "tp_worker i s = Some s'"
  shows "tp_fresh s'"
  using assms
  by (fastforce simp: tp_fresh_def stop_seen_def tp_worker_def isNullTask_iff
      split: worker_pc.splits option.splits if_splits elim: tsq_wait_and_pop.elims)

lemma stop_seen_upd:
  "stop_seen (s\<lparr>m_threads := (m_threads s)(i := p)\<rparr>) \<Longrightarrow> p \<notin> {Exited, Holding NullTask} \<Longrightarrow> stop_seen s"
  "stop_seen (s\<lparr>m_master_work_queue := q, m_threads := (m_threads s)(i := p)\<rparr>) \<Longrightarrow>
     p \<notin> {Exited, Holding NullTask} \<Longrightarrow> stop_seen s"
  by (auto simp: stop_seen_def split: if_splits)

lemma stop_seenI: "i < m_worker_num s \<Longrightarrow> m_threads s i \<in> {Exited, Holding NullTask} \<Longrightarrow> stop_seen s"
  by (auto simp: stop_seen_def)

lemma worker_joining:
  assumes "tp_joining s" "\<not> m_done s" "i < m_worker_num s" "tp_worker i s = Some s'"
  shows "tp_joining s'"
proof (cases "m_threads s i")
  case AtPop
  with assms(4) obtain t q where q: "m_master_work_queue s = t # q"
    "s' = s\<lparr>m_master_work_queue := q, m_threads := (m_threads s)(i := Holding t)\<rparr>"
    by (cases "m_master_work_queue s") (auto simp: tp_worker_def)
  show ?thesis
  proof (cases t)
    case NullTask
    then have "behind_stop q \<subseteq> set (real_tasks q)"
      by (auto simp: set_real_tasks dest: set_dropWhileD)
    with assms(1) q NullTask show ?thesis by (auto simp: tp_joining_def)
  next
    case (Task a)
    with assms(1) q stop_seen_upd(2) [where s = s and q = q and i = i and p = "Holding t"] show ?thesis by (auto simp: tp_joining_def)
  qed
next
  case (Holding t)
  show ?thesis
  proof (cases t)
    case NullTask
    with Holding assms show ?thesis
      using stop_seenI [of i s] by (auto simp: tp_joining_def tp_worker_def)
  next
    case (Task a)
    with Holding assms stop_seen_upd(1) [where s = s and i = i and p = "Running a"] show ?thesis
      by (auto simp: tp_joining_def tp_worker_def stop_seen_def split: if_splits)
  qed
qed (use assms stop_seen_upd(1) [where s = s and i = i] in
      \<open>auto simp: tp_joining_def tp_worker_def stop_seen_def split: if_splits\<close>)

lemma worker_join_inv:
  assumes "tp_join_inv s" "i < m_worker_num s" "tp_worker i s = Some s'"
  shows "tp_join_inv s'"
proof -
  have same: "ctl s' = ctl s" "m_done s' = m_done s" "joined s' = joined s" "before_join s' = before_join s"
    "finished s \<subseteq># finished s'"
    using assms(3) by (auto simp: tp_worker_def split: worker_pc.splits option.splits if_splits)
  have "m_threads s i \<noteq> Exited" using assms(3) by (auto simp: tp_worker_def)
  then have "\<not> tp_all_exited s" using assms(2) by (auto simp: tp_all_exited_def)
  then show ?thesis
    using assms(1) worker_joining [OF _ _ assms(2,3)] worker_fresh [OF _ _ assms(2,3)] same set_mset_mono [OF same(5)]
    by (auto simp: tp_join_inv_def split: ctl_pc.splits if_splits)
qed

lemma submit_join_inv:
  assumes "tp_join_inv s" "a \<notin># submitted s" "tp_submit a s = Inr s'"
  shows "tp_join_inv s'"
proof -
  have "s' = s\<lparr>inflight := add_mset a (inflight s), submitted := add_mset a (submitted s)\<rparr>"
    using assms(3) by (simp add: tp_submit_def split: if_splits)
  with assms(1,2) show ?thesis
    by (auto simp: tp_join_inv_def tp_fresh_def tp_joining_def stop_seen_def tp_all_exited_def
        split: ctl_pc.splits if_splits)
qed

lemma push_join_inv:
  assumes "tp_join_inv s" "a \<in># inflight s"
  shows "tp_join_inv (tp_submit_push a s)"
proof -
  have "tp_joining (tp_submit_push a s)" if "tp_joining s"
    using that assms(2) behind_stop_snoc [of "m_master_work_queue s" "Task a"]
    by (auto simp: tp_joining_def tp_submit_push_def tsq_push_def stop_seen_def dest: in_diffD)
  moreover have "tp_fresh (tp_submit_push a s)" if "tp_fresh s"
    using that by (auto simp: tp_fresh_def tp_submit_push_def tsq_push_def stop_seen_def)
  ultimately show ?thesis
    using assms(1)
    by (auto simp: tp_join_inv_def tp_submit_push_def tp_all_exited_def split: ctl_pc.splits if_splits)
qed

lemma join_join_inv:
  assumes "tp_join_inv s" "m_running_until_empty s" "ctl s = CtlFree"
  shows "tp_join_inv (tp_join s)"
proof (cases "m_done s")
  case False
  then have "tp_fresh s" "\<not> joined s" using assms by (simp_all add: tp_join_inv_def)
  with False assms(2) show ?thesis
    by (auto simp: tp_join_inv_def tp_join_def tp_fresh_def tp_joining_def dropWhile_real stop_seen_def)
qed (use assms in \<open>simp add: tp_join_def\<close>)

lemma stop_join_inv:
  "tp_join_inv s \<Longrightarrow> ctl s = CtlFree \<Longrightarrow> tp_join_inv (tp_stop s)"
  by (auto simp: tp_join_inv_def tp_stop_def)

lemma joining_push_null: "tp_joining s \<Longrightarrow> tp_joining ((tp_push_null s)\<lparr>ctl := c\<rparr>)"
  by (simp add: tp_joining_def tp_push_null_def tsq_push_def behind_stop_null stop_seen_def)

lemma joining_other: "tp_joining s \<Longrightarrow> tp_joining (s\<lparr>m_done := d, ctl := c\<rparr>)" "tp_joining s \<Longrightarrow> tp_joining (s\<lparr>ctl := c\<rparr>)"
  by (simp_all add: tp_joining_def stop_seen_def)

lemma join_returns_finished:
  assumes "tp_joining s" "tp_all_exited s" "0 < m_worker_num s" "tp_accounted s"
  shows "before_join s \<subseteq> set_mset (finished s)"
proof
  fix a assume a: "a \<in> before_join s"
  have exited: "m_threads s i = Exited" if "i < m_worker_num s" for i
    using assms(2) that by (auto simp: tp_all_exited_def)
  then have none: "over_workers held s = {#}" "over_workers running s = {#}"
    by (auto intro!: sum.neutral)
  have "stop_seen s" using exited assms(3) by (auto simp: stop_seen_def)
  then have "a \<notin> set (real_tasks (m_master_work_queue s))" "a \<notin># inflight s" "a \<in># submitted s" "dropped s = {#}"
    using a assms(1) by (auto simp: tp_joining_def)
  with assms(4) none show "a \<in># finished s" by (auto simp: tp_accounted_def)
qed

lemma ctl_join_inv:
  assumes "tp_join_inv s" "0 < m_worker_num s" "tp_accounted s" "tp_ctl s = Some s'"
  shows "tp_join_inv s'"
proof (cases "ctl s")
  case (JoinPush k)
  with assms joining_push_null [of s] joining_other(2) [of s] show ?thesis
    by (auto simp: tp_join_inv_def tp_ctl_def split: if_splits) (simp_all add: tp_push_null_def)
next
  case JoinWait
  with assms joining_other(1) [of s] show ?thesis
    by (auto simp: tp_join_inv_def tp_ctl_def tp_all_exited_def split: if_splits)
next
  case JoinClear
  with assms(1) have "before_join s \<subseteq> set_mset (finished s)"
    by (intro join_returns_finished assms(2,3)) (simp_all add: tp_join_inv_def)
  with JoinClear assms show ?thesis
    by (auto simp: tp_join_inv_def tp_ctl_def tp_clear_def)
qed (use assms in \<open>auto simp: tp_join_inv_def tp_ctl_def tp_push_null_def tp_clear_def split: if_splits\<close>)

lemma tp_reach_join_inv:
  assumes "0 < n" "tp_reach n True s"
  shows "tp_join_inv s"
  using assms(2)
proof (induction rule: tp_reach.induct)
  case init
  show ?case by (simp add: tp_join_inv_def tp_new_def tp_fresh_def stop_seen_def)
next
  case (step s s')
  note params = tp_reach_params [OF step.hyps(1)] and acc = tp_reach_accounted [OF step.hyps(1)]
  from step.hyps(2) step.IH params acc assms(1) show ?case
    by (cases rule: tp_step.cases)
      (auto intro: submit_join_inv push_join_inv worker_join_inv join_join_inv stop_join_inv ctl_join_inv)
qed

section \<open>Why a join ends\<close>

text \<open>
  \<open>join\<close> pushes two stop messages per worker, and until it has seen every worker leave, a worker
  leaves by consuming one: enough are left for those still waiting.
\<close>

definition stops_used :: "'a thread_pool \<Rightarrow> nat" where
  "stops_used s = (\<Sum>i<m_worker_num s. if m_threads s i \<in> {Exited, Holding NullTask} then 1 else 0)"

definition stops_left :: "'a thread_pool \<Rightarrow> nat" where
  "stops_left s = length (filter isNullTask (m_master_work_queue s))"

definition tp_stops_inv :: "'a thread_pool \<Rightarrow> bool" where
  "tp_stops_inv s \<longleftrightarrow> (\<not> m_done s \<longrightarrow>
     stops_left s + stops_used s =
       (case ctl s of CtlFree \<Rightarrow> 0 | JoinPush k \<Rightarrow> k | JoinWait \<Rightarrow> 2 * m_worker_num s | _ \<Rightarrow> 0) \<and>
     (case ctl s of CtlFree \<Rightarrow> True | JoinPush k \<Rightarrow> k \<le> 2 * m_worker_num s | JoinWait \<Rightarrow> True | _ \<Rightarrow> False))"

lemma stops_used_upd:
  assumes "i < m_worker_num s" "m_threads t = (m_threads s)(i := p)" "m_worker_num t = m_worker_num s"
  shows "stops_used t + (if m_threads s i \<in> {Exited, Holding NullTask} then 1 else 0) =
    stops_used s + (if p \<in> {Exited, Holding NullTask} then 1 else 0)"
  using sum_fun_upd [OF assms(1), where f = "m_threads s" and x = p
      and g = "\<lambda>pc. if pc \<in> {Exited, Holding NullTask} then 1 else (0 :: nat)"] assms(2,3)
  by (simp add: stops_used_def)

lemma worker_stops:
  assumes "\<not> m_done s" "i < m_worker_num s" "tp_worker i s = Some s'"
  shows "stops_left s' + stops_used s' = stops_left s + stops_used s"
proof (cases "m_threads s i")
  case AtPop
  with assms(3) obtain t q where q: "m_master_work_queue s = t # q"
    "s' = s\<lparr>m_master_work_queue := q, m_threads := (m_threads s)(i := Holding t)\<rparr>"
    by (cases "m_master_work_queue s") (auto simp: tp_worker_def)
  with AtPop stops_used_upd [OF assms(2), of s' "Holding t"] show ?thesis
    by (cases t) (auto simp: stops_left_def)
next
  case (Holding t)
  with assms(3) stops_used_upd [OF assms(2), of s' Exited] stops_used_upd [OF assms(2), of s' "Running a" for a]
  show ?thesis by (cases t) (auto simp: stops_left_def tp_worker_def)
next
  case (Running a)
  with assms(3) stops_used_upd [OF assms(2), of s' AtLoop] show ?thesis
    by (auto simp: stops_left_def tp_worker_def)
next
  case AtLoop
  with assms(1,3) stops_used_upd [OF assms(2), of s' AtPop] show ?thesis
    by (auto simp: stops_left_def tp_worker_def)
next
  case Exited
  with assms(3) show ?thesis by (simp add: tp_worker_def)
qed

lemma stops_used_cong: "m_threads t = m_threads s \<Longrightarrow> m_worker_num t = m_worker_num s \<Longrightarrow> stops_used t = stops_used s"
  by (simp add: stops_used_def)

lemma stops_step: "tp_step s s' \<Longrightarrow> m_running_until_empty s \<Longrightarrow> tp_stops_inv s \<Longrightarrow> tp_stops_inv s'"
proof (induction rule: tp_step.induct)
  case (submit a s s')
  then show ?case
    by (auto simp: tp_stops_inv_def tp_submit_def stops_left_def stops_used_def
        split: if_splits ctl_pc.splits)
next
  case (push a s)
  then show ?case by (auto simp: tp_stops_inv_def tp_submit_push_def tsq_push_def stops_left_def
        stops_used_def split: ctl_pc.splits)
next
  case (worker i s s')
  have same: "ctl s' = ctl s" "m_done s' = m_done s" "m_worker_num s' = m_worker_num s"
    using worker.hyps(2) by (auto simp: tp_worker_def split: worker_pc.splits option.splits if_splits)
  with worker worker_stops [OF _ worker.hyps] show ?case
    by (auto simp: tp_stops_inv_def split: ctl_pc.splits)
next
  case (join s)
  then show ?case by (auto simp: tp_stops_inv_def tp_join_def stops_left_def stops_used_def)
next
  case (stop s)
  then show ?case by (auto simp: tp_stops_inv_def tp_stop_def)
next
  case (ctl s s')
  then show ?case
    by (auto simp: tp_stops_inv_def tp_ctl_def tp_push_null_def tp_clear_def tsq_push_def tsq_clear_def
        stops_left_def stops_used_def split: ctl_pc.splits if_splits)
qed

lemma tp_reach_stops: "tp_reach n True s \<Longrightarrow> tp_stops_inv s"
proof (induction rule: tp_reach.induct)
  case init
  show ?case by (simp add: tp_stops_inv_def tp_new_def stops_left_def stops_used_def)
qed (auto intro: stops_step dest: tp_reach_params)

lemma stops_used_less:
  assumes "i < m_worker_num s" "m_threads s i \<notin> {Exited, Holding NullTask}"
  shows "stops_used s < m_worker_num s"
proof -
  let ?g = "\<lambda>i. if m_threads s i \<in> {Exited, Holding NullTask} then 1 else (0 :: nat)"
  have "stops_used s = sum ?g ({..<m_worker_num s} - {i})"
    using assms by (simp add: stops_used_def sum.remove [of _ i])
  also have "\<dots> \<le> sum (\<lambda>_. 1) ({..<m_worker_num s} - {i})"
    by (intro sum_mono) simp
  also have "\<dots> < m_worker_num s" using assms(1) by simp
  finally show ?thesis .
qed

text \<open>How far a worker is from leaving, counting what is in the queue.\<close>

fun pc_weight :: "'a worker_pc \<Rightarrow> nat" where
  "pc_weight AtLoop = 1"
| "pc_weight AtPop = 0"
| "pc_weight (Holding t) = 3"
| "pc_weight (Running a) = 2"
| "pc_weight Exited = 0"

definition tp_measure :: "'a thread_pool \<Rightarrow> nat" where
  "tp_measure s = 4 * length (m_master_work_queue s) + (\<Sum>i<m_worker_num s. pc_weight (m_threads s i))"

lemma worker_decreases:
  assumes "i < m_worker_num s" "tp_worker i s = Some s'"
  shows "tp_measure s' < tp_measure s"
proof -
  note upd = sum_fun_upd [OF assms(1), where f = "m_threads s" and g = pc_weight]
  show ?thesis
  proof (cases "m_threads s i")
    case AtPop
    with assms(2) obtain t q where "m_master_work_queue s = t # q"
      "s' = s\<lparr>m_master_work_queue := q, m_threads := (m_threads s)(i := Holding t)\<rparr>"
      by (cases "m_master_work_queue s") (auto simp: tp_worker_def)
    with AtPop upd [of "Holding t"] show ?thesis by (simp add: tp_measure_def)
  next
    case (Holding t)
    show ?thesis
    proof (cases t)
      case (Task a)
      with Holding assms(2) upd [of "Running a"] show ?thesis by (auto simp: tp_measure_def tp_worker_def)
    qed (use Holding assms(2) upd [of Exited] in \<open>auto simp: tp_measure_def tp_worker_def\<close>)
  qed (use assms(2) upd [of Exited] upd [of AtPop] upd [of AtLoop] in \<open>auto simp: tp_measure_def tp_worker_def\<close>)
qed

lemma join_worker_moves:
  assumes "tp_stops_inv s" "ctl s = JoinWait" "\<not> m_done s" "i < m_worker_num s" "m_threads s i \<noteq> Exited"
  shows "tp_worker i s \<noteq> None"
proof (cases "m_threads s i = AtPop")
  case True
  then have "stops_used s < m_worker_num s" using assms(4) by (intro stops_used_less) auto
  then have "0 < stops_left s" using assms(1-3) by (simp add: tp_stops_inv_def)
  then have "m_master_work_queue s \<noteq> []" by (auto simp: stops_left_def)
  with True show ?thesis by (cases "m_master_work_queue s") (auto simp: tp_worker_def)
qed (use assms(5) in \<open>auto simp: tp_worker_def split: worker_pc.splits option.splits\<close>)

text \<open>Runs of the workers alone.\<close>

inductive tp_workers :: "'a thread_pool \<Rightarrow> nat \<Rightarrow> 'a thread_pool \<Rightarrow> bool" where
  none: "tp_workers s 0 s"
| more: "i < m_worker_num s \<Longrightarrow> tp_worker i s = Some s' \<Longrightarrow> tp_workers s' k s'' \<Longrightarrow>
    tp_workers s (Suc k) s''"

lemma tp_workers_measure: "tp_workers s k s' \<Longrightarrow> tp_measure s' + k \<le> tp_measure s"
  by (induction rule: tp_workers.induct) (auto dest: worker_decreases)

lemma worker_ctl: "tp_worker i s = Some s' \<Longrightarrow> ctl s' = ctl s"
  by (auto simp: tp_worker_def split: worker_pc.splits option.splits if_splits)

lemma join_workers_leave:
  assumes "0 < n" "tp_reach n True s" "ctl s = JoinWait"
  shows "\<exists>k s'. tp_workers s k s' \<and> tp_all_exited s'"
  using assms(2,3)
proof (induction "tp_measure s" arbitrary: s rule: less_induct)
  case less
  show ?case
  proof (cases "tp_all_exited s")
    case True
    then show ?thesis using tp_workers.none by blast
  next
    case False
    then obtain i where i: "i < m_worker_num s" "m_threads s i \<noteq> Exited" by (auto simp: tp_all_exited_def)
    have "\<not> m_done s" using tp_reach_join_inv [OF assms(1) less.prems(1)] less.prems(2) by (simp add: tp_join_inv_def)
    then obtain s' where s': "tp_worker i s = Some s'"
      using join_worker_moves [OF tp_reach_stops [OF less.prems(1)] less.prems(2)] i by blast
    then have "tp_reach n True s'"
      using less.prems(1) i(1) by (auto intro: tp_reach.step tp_step.worker)
    then obtain k s'' where "tp_workers s' k s''" "tp_all_exited s''"
      using less.hyps [OF worker_decreases [OF i(1) s']] worker_ctl [OF s'] less.prems(2) by auto
    then show ?thesis using tp_workers.more [OF i(1) s'] by blast
  qed
qed

section \<open>Properties\<close>

text \<open>
  Property C34: at every moment every accepted task is in exactly one place (on its way into the
  queue, in the queue, in a worker's hand, called, or dropped when \<open>join\<close> or \<open>stop\<close> cleared the
  queue), and none is called twice.
\<close>

theorem tp_tasks_conserved:
  assumes "tp_reach n u s"
  shows "submitted s = inflight s + mset (real_tasks (m_master_work_queue s)) + over_workers held s +
      called s + dropped s \<and> Multiset.count (called s) a \<le> 1"
proof -
  have "tp_accounted s" "tp_distinct s" using tp_reach_accounted [OF assms] by simp_all
  then have eq: "submitted s = inflight s + mset (real_tasks (m_master_work_queue s)) + over_workers held s +
      called s + dropped s" and le: "Multiset.count (submitted s) a \<le> 1"
    by (auto simp: tp_accounted_def tp_distinct_def)
  have "Multiset.count (called s) a \<le> Multiset.count (submitted s) a" unfolding eq by simp
  with eq le show ?thesis by simp
qed

text \<open>
  Property C26: when \<open>join\<close> has returned on a pool with at least one worker that runs until empty,
  every task that was in the queue or further when \<open>join\<close> was called has been called and has
  finished, whatever was submitted meanwhile and however the threads were interleaved.
\<close>

theorem tp_join_completes:
  assumes "0 < n" "tp_reach n True s" "ctl s = CtlFree" "joined s"
  shows "before_join s \<subseteq> set_mset (finished s)"
proof -
  have "tp_join_inv s" using assms by (intro tp_reach_join_inv)
  with assms(3,4) show ?thesis by (auto simp: tp_join_inv_def split: if_splits)
qed

text \<open>
  Property C33: while \<open>join\<close> waits, the workers alone can always bring every thread to its end, no
  run of theirs is longer than the measure, and a worker that has not left can always move: \<open>join\<close>
  returns, provided the tasks do, under every schedule.
\<close>

theorem tp_join_returns:
  assumes "0 < n" "tp_reach n True s" "ctl s = JoinWait"
  shows "(\<exists>k s'. tp_workers s k s' \<and> tp_all_exited s') \<and>
    {k. \<exists>s'. tp_workers s k s'} \<subseteq> {..tp_measure s} \<and>
    {i. i < m_worker_num s \<and> m_threads s i \<noteq> Exited} \<subseteq> {i. tp_worker i s \<noteq> None}"
proof -
  have "\<not> m_done s" using tp_reach_join_inv [OF assms(1,2)] assms(3) by (simp add: tp_join_inv_def)
  with join_workers_leave [OF assms] tp_workers_measure join_worker_moves [OF tp_reach_stops [OF assms(2)] assms(3)]
  show ?thesis by fastforce
qed

section \<open>Executions\<close>

text \<open>A schedule as a list of events, for concrete runs.\<close>

datatype 'a tp_event = Submit 'a | Push 'a | Move nat | Join | Stop | Ctl

fun tp_event_step :: "'a tp_event \<Rightarrow> 'a thread_pool \<Rightarrow> 'a thread_pool option" where
  "tp_event_step (Submit a) s =
     (if a \<in># submitted s then None else case tp_submit a s of Inl e \<Rightarrow> None | Inr s' \<Rightarrow> Some s')"
| "tp_event_step (Push a) s = (if a \<in># inflight s then Some (tp_submit_push a s) else None)"
| "tp_event_step (Move i) s = (if i < m_worker_num s then tp_worker i s else None)"
| "tp_event_step Join s = (if ctl s = CtlFree then Some (tp_join s) else None)"
| "tp_event_step Stop s = (if ctl s = CtlFree then Some (tp_stop s) else None)"
| "tp_event_step Ctl s = tp_ctl s"

fun tp_run :: "'a tp_event list \<Rightarrow> 'a thread_pool \<Rightarrow> 'a thread_pool option" where
  "tp_run [] s = Some s"
| "tp_run (e # es) s = (case tp_event_step e s of None \<Rightarrow> None | Some s' \<Rightarrow> tp_run es s')"

lemma tp_event_step_sound: "tp_event_step e s = Some s' \<Longrightarrow> tp_step s s'"
  by (cases e) (auto intro: tp_step.intros split: if_splits sum.splits)

lemma tp_run_reach: "tp_reach n u s \<Longrightarrow> tp_run es s = Some s' \<Longrightarrow> tp_reach n u s'"
  by (induction es s rule: tp_run.induct)
    (auto split: option.splits intro: tp_reach.step dest!: tp_event_step_sound)

lemmas tp_run_new = tp_run_reach [OF tp_reach.init]

lemmas tp_exec_simps = tp_new_def tp_submit_def tp_submit_push_def tp_worker_def tp_join_def tp_stop_def
  tp_ctl_def tp_push_null_def tp_clear_def tp_all_exited_def tsq_push_def tsq_clear_def

theorem tp_tasks_conserved_witness:
  "\<exists>s. tp_run [Submit (7 :: nat), Push 7, Move 0, Move 0, Move 0] (tp_new 1 True) = Some s \<and>
     called s = {#7#} \<and> Multiset.count (called s) 7 \<le> 1"
proof -
  obtain s where s: "tp_run [Submit (7 :: nat), Push 7, Move 0, Move 0, Move 0] (tp_new 1 True) = Some s"
    and c: "called s = {#7#}"
    by (simp add: tp_exec_simps)
  show ?thesis using s c tp_tasks_conserved [OF tp_run_new [OF s], of 7] by blast
qed

theorem tp_join_completes_witness:
  "\<exists>s. tp_run [Submit (7 :: nat), Push 7, Join, Ctl, Ctl, Move 0, Move 0, Move 0, Move 0, Move 0, Move 0,
      Move 0, Ctl, Ctl, Ctl] (tp_new 1 True) = Some s \<and> before_join s = {7} \<and> before_join s \<subseteq> set_mset (finished s)"
proof -
  obtain s where s: "tp_run [Submit (7 :: nat), Push 7, Join, Ctl, Ctl, Move 0, Move 0, Move 0, Move 0, Move 0,
      Move 0, Move 0, Ctl, Ctl, Ctl] (tp_new 1 True) = Some s"
    and c: "before_join s = {7}" "ctl s = CtlFree" "joined s"
    by (simp add: tp_exec_simps)
  show ?thesis using s c(1) tp_join_completes [OF _ tp_run_new [OF s] c(2,3)] by simp
qed

theorem tp_join_returns_witness:
  "\<exists>s. tp_run [Submit (7 :: nat), Push 7, Join, Ctl, Ctl, Ctl] (tp_new 1 True) = Some s \<and>
     ctl s = JoinWait \<and> (\<exists>k s'. tp_workers s k s' \<and> tp_all_exited s')"
proof -
  obtain s where s: "tp_run [Submit (7 :: nat), Push 7, Join, Ctl, Ctl, Ctl] (tp_new 1 True) = Some s"
    and c: "ctl s = JoinWait"
    by (simp add: tp_exec_simps)
  show ?thesis using s c tp_join_returns [OF _ tp_run_new [OF s] c] by simp
qed

end
