(* ===== verification/StealThreadPool.thy ===== *)
theory StealThreadPool
  imports ThreadQueue
begin

text \<open>
  \<open>thread/StealThreadPool.h\<close>: a master queue, a work-stealing queue per worker, and idle workers
  on a condition variable. As in \<open>ThreadPool\<close> the threads are interleaved at their accesses to
  shared state: every operation of a queue, every read or write of \<open>m_done\<close> or of a worker's flag,
  and the parts of the wait on \<open>m_cv\<close> are steps of their own. \<open>join\<close> and \<open>stop\<close> are called by one
  thread, the controller.
\<close>

section \<open>State\<close>

text \<open>
  Where a worker is in \<open>worker_thread\<close> and \<open>run_pending_task\<close>: at the loop test; popping its own
  queue; popping the master queue; looking at a task it popped; at the \<open>k\<close>-th victim, reading its
  flag, then stealing; running a task; about to lock \<open>m_cv_mutex\<close>; evaluating the two parts of the
  predicate with the mutex held; about to block, still with the mutex; blocked; gone.
\<close>

datatype 'a sp_pc =
    SLoop | SPopLocal | SPopMaster | SHold "'a task" | SVictim nat | SSteal nat | SRun 'a
  | SCvLock | SCvDone | SCvEmpty | SCvBlock | SBlocked | SExited

text \<open>
  Where the controller is: in no call; in \<open>join\<close>, reading the master queue's size, reading the
  \<open>k\<close>-th local queue, setting \<open>m_done\<close>, setting the \<open>k\<close>-th flag, pushing the \<open>k\<close>-th stop message,
  notifying, waiting for the threads, clearing; the same for \<open>stop\<close>.
\<close>

datatype sp_ctl_pc =
    SpFree | JMaster | JLocal nat | JDone | JFlag nat | JPush nat | JNotify | JWait | JClear
  | StFlag nat | StPush nat | StNotify | StWait | StClear

text \<open>
  Beside the members of the class: the calls of \<open>submit\<close> that have passed the test of \<open>m_done\<close>,
  with the submitting worker if it is one; those that have chosen a queue (a worker's own or the
  master queue); the calls of \<open>notify_one\<close> to come; and a record of the past.
\<close>

record 'a steal_pool =
  sp_done :: bool
  sp_worker_num :: nat
  sp_until_empty :: bool
  sp_cv_mutex :: "nat option"
  sp_flags :: "nat \<Rightarrow> interrupt_flag"
  sp_master :: "'a task list"
  sp_queues :: "nat \<Rightarrow> 'a task list"
  sp_threads :: "nat \<Rightarrow> 'a sp_pc"
  sp_ctl :: sp_ctl_pc
  sp_submitting :: "('a \<times> nat option) multiset"
  sp_pushing :: "('a \<times> nat option) multiset"
  sp_notify :: nat
  sp_submitted :: "'a multiset"
  sp_called :: "'a multiset"
  sp_finished :: "'a multiset"
  sp_dropped :: "'a multiset"
  sp_late :: bool
  sp_joined :: bool

definition sp_new :: "nat \<Rightarrow> bool \<Rightarrow> 'a steal_pool" where
  "sp_new n until_empty = \<lparr>
     sp_done = False, sp_worker_num = n, sp_until_empty = until_empty, sp_cv_mutex = None,
     sp_flags = (\<lambda>_. flag_new), sp_master = [], sp_queues = (\<lambda>_. []), sp_threads = (\<lambda>_. SLoop),
     sp_ctl = SpFree, sp_submitting = {#}, sp_pushing = {#}, sp_notify = 0,
     sp_submitted = {#}, sp_called = {#}, sp_finished = {#}, sp_dropped = {#},
     sp_late = False, sp_joined = False\<rparr>"

definition sp_remain_task_count :: "'a steal_pool \<Rightarrow> nat" where
  "sp_remain_task_count s =
     (if sp_done s then 0
      else tsq_size (sp_master s) + sum_list (map (\<lambda>i. wsq_size (sp_queues s i)) [0..<sp_worker_num s]))"

section \<open>\<open>submit\<close>\<close>

text \<open>
  The test of \<open>m_done\<close> by an outside thread (\<open>None\<close>) or by worker \<open>i\<close> in a task; the choice of the
  queue; the push, at the front of the worker's own queue or at the end of the master queue; and,
  for the master queue, the call of \<open>notify_one\<close>.
\<close>

definition sp_submit :: "'a \<Rightarrow> nat option \<Rightarrow> 'a steal_pool \<Rightarrow> 'a steal_pool result" where
  "sp_submit a me s =
     (if sp_done s then Inl LogicError
      else Inr (s\<lparr>sp_submitting := add_mset (a, me) (sp_submitting s),
                  sp_submitted := add_mset a (sp_submitted s),
                  sp_late := (sp_late s \<or> sp_ctl s \<noteq> SpFree)\<rparr>))"

definition sp_choose :: "'a \<Rightarrow> nat option \<Rightarrow> 'a steal_pool \<Rightarrow> 'a steal_pool" where
  "sp_choose a me s =
     (let target = (case me of Some i \<Rightarrow> if flag_isSet (sp_flags s i) then None else Some i | None \<Rightarrow> None)
      in s\<lparr>sp_submitting := sp_submitting s - {#(a, me)#},
           sp_pushing := add_mset (a, target) (sp_pushing s)\<rparr>)"

definition sp_push :: "'a \<Rightarrow> nat option \<Rightarrow> 'a steal_pool \<Rightarrow> 'a steal_pool" where
  "sp_push a target s =
     (let s' = s\<lparr>sp_pushing := sp_pushing s - {#(a, target)#}\<rparr>
      in case target of
           Some i \<Rightarrow> s'\<lparr>sp_queues := (sp_queues s)(i := wsq_push_front (Task a) (sp_queues s i))\<rparr>
         | None \<Rightarrow> s'\<lparr>sp_master := tsq_push (Task a) (sp_master s), sp_notify := sp_notify s + 1\<rparr>)"

text \<open>\<open>notify_one\<close> wakes a blocked worker if there is one; it is lost otherwise.\<close>

definition sp_wake :: "nat \<Rightarrow> 'a steal_pool \<Rightarrow> 'a steal_pool" where
  "sp_wake i s = s\<lparr>sp_threads := (sp_threads s)(i := SCvLock), sp_notify := sp_notify s - 1\<rparr>"

definition sp_notify_lost :: "'a steal_pool \<Rightarrow> 'a steal_pool option" where
  "sp_notify_lost s =
     (if 0 < sp_notify s \<and> (\<forall>i \<in> set [0..<sp_worker_num s]. sp_threads s i \<noteq> SBlocked)
      then Some (s\<lparr>sp_notify := sp_notify s - 1\<rparr>) else None)"

definition sp_notify_all :: "'a steal_pool \<Rightarrow> 'a steal_pool" where
  "sp_notify_all s =
     s\<lparr>sp_threads := (\<lambda>i. case sp_threads s i of SBlocked \<Rightarrow> SCvLock | pc \<Rightarrow> pc)\<rparr>"

section \<open>The worker\<close>

definition sp_goto :: "nat \<Rightarrow> 'a sp_pc \<Rightarrow> 'a steal_pool \<Rightarrow> 'a steal_pool" where
  "sp_goto i pc s = s\<lparr>sp_threads := (sp_threads s)(i := pc)\<rparr>"

text \<open>
  One step of worker \<open>i\<close>; \<open>None\<close> where it cannot move (blocked, waiting for the mutex, gone). A
  stop message in a queue sets the worker's flag; when no queue gives a task the worker locks
  \<open>m_cv_mutex\<close>, and blocks unless \<open>m_done\<close> is set or the master queue is not empty. A worker woken
  up takes the mutex and evaluates the predicate again.
\<close>

definition sp_worker :: "nat \<Rightarrow> 'a steal_pool \<Rightarrow> 'a steal_pool option" where
  "sp_worker i s =
     (case sp_threads s i of
        SLoop \<Rightarrow>
          Some (sp_goto i (if \<not> sp_done s \<and> \<not> flag_isSet (sp_flags s i) then SPopLocal else SExited) s)
      | SPopLocal \<Rightarrow>
          (case wsq_try_pop (sp_queues s i) of
             Some (t, q) \<Rightarrow> Some (sp_goto i (SHold t) (s\<lparr>sp_queues := (sp_queues s)(i := q)\<rparr>))
           | None \<Rightarrow> Some (sp_goto i SPopMaster s))
      | SPopMaster \<Rightarrow>
          (case tsq_try_pop (sp_master s) of
             Some (t, q) \<Rightarrow> Some (sp_goto i (SHold t) (s\<lparr>sp_master := q\<rparr>))
           | None \<Rightarrow> Some (sp_goto i (SVictim 0) s))
      | SHold t \<Rightarrow>
          (case t of
             NullTask \<Rightarrow> Some (sp_goto i SLoop (s\<lparr>sp_flags := (sp_flags s)(i := flag_set (sp_flags s i))\<rparr>))
           | Task a \<Rightarrow> Some (sp_goto i (SRun a) (s\<lparr>sp_called := add_mset a (sp_called s)\<rparr>)))
      | SVictim k \<Rightarrow>
          (if k < sp_worker_num s
           then let pos = (i + k + 1) mod sp_worker_num s
                in Some (sp_goto i (if pos \<noteq> i \<and> \<not> flag_isSet (sp_flags s pos) then SSteal k else SVictim (k + 1)) s)
           else Some (sp_goto i SCvLock s))
      | SSteal k \<Rightarrow>
          (let pos = (i + k + 1) mod sp_worker_num s
           in case wsq_try_steal (sp_queues s pos) of
                None \<Rightarrow> Some (sp_goto i (SVictim (k + 1)) s)
              | Some (t, q) \<Rightarrow>
                  (let s' = s\<lparr>sp_queues := (sp_queues s)(pos := q)\<rparr>
                   in case call_task t of
                        None \<Rightarrow> Some (sp_goto i SLoop s')
                      | Some a \<Rightarrow> Some (sp_goto i (SRun a) (s'\<lparr>sp_called := add_mset a (sp_called s)\<rparr>))))
      | SRun a \<Rightarrow> Some (sp_goto i SLoop (s\<lparr>sp_finished := add_mset a (sp_finished s)\<rparr>))
      | SCvLock \<Rightarrow>
          (if sp_cv_mutex s = None then Some (sp_goto i SCvDone (s\<lparr>sp_cv_mutex := Some i\<rparr>)) else None)
      | SCvDone \<Rightarrow>
          (if sp_done s then Some (sp_goto i SLoop (s\<lparr>sp_cv_mutex := None\<rparr>))
           else Some (sp_goto i SCvEmpty s))
      | SCvEmpty \<Rightarrow>
          (if tsq_empty (sp_master s) then Some (sp_goto i SCvBlock s)
           else Some (sp_goto i SLoop (s\<lparr>sp_cv_mutex := None\<rparr>)))
      | SCvBlock \<Rightarrow> Some (sp_goto i SBlocked (s\<lparr>sp_cv_mutex := None\<rparr>))
      | SBlocked \<Rightarrow> None
      | SExited \<Rightarrow> None)"

section \<open>\<open>join\<close> and \<open>stop\<close>\<close>

definition sp_all_exited :: "'a steal_pool \<Rightarrow> bool" where
  "sp_all_exited s \<longleftrightarrow> (\<forall>i \<in> set [0..<sp_worker_num s]. sp_threads s i = SExited)"

definition sp_join :: "'a steal_pool \<Rightarrow> 'a steal_pool" where
  "sp_join s =
     (if sp_done s then s
      else s\<lparr>sp_ctl := (if sp_until_empty s then JMaster else JPush 0),
             sp_late := (sp_submitting s \<noteq> {#} \<or> sp_pushing s \<noteq> {#})\<rparr>)"

definition sp_stop :: "'a steal_pool \<Rightarrow> 'a steal_pool" where
  "sp_stop s = (if sp_done s then s else s\<lparr>sp_done := True, sp_ctl := StFlag 0\<rparr>)"

definition sp_set_flag :: "nat \<Rightarrow> 'a steal_pool \<Rightarrow> 'a steal_pool" where
  "sp_set_flag i s = s\<lparr>sp_flags := (sp_flags s)(i := flag_set (sp_flags s i))\<rparr>"

definition sp_clear :: "'a steal_pool \<Rightarrow> 'a steal_pool" where
  "sp_clear s =
     s\<lparr>sp_master := tsq_clear (sp_master s),
       sp_queues := (\<lambda>i. if i < sp_worker_num s then wsq_clear (sp_queues s i) else sp_queues s i),
       sp_dropped := sp_dropped s + mset (real_tasks (sp_master s)) +
         (\<Sum>i \<in> {..<sp_worker_num s}. mset (real_tasks (sp_queues s i)))\<rparr>"

definition sp_controller :: "'a steal_pool \<Rightarrow> 'a steal_pool option" where
  "sp_controller s =
     (case sp_ctl s of
        SpFree \<Rightarrow> None
      | JMaster \<Rightarrow> Some (s\<lparr>sp_ctl := (if tsq_size (sp_master s) \<noteq> 0 then JMaster else JLocal 0)\<rparr>)
      | JLocal k \<Rightarrow>
          (if k < sp_worker_num s
           then Some (s\<lparr>sp_ctl := (if wsq_empty (sp_queues s k) then JLocal (k + 1) else JMaster)\<rparr>)
           else Some (s\<lparr>sp_ctl := JDone\<rparr>))
      | JDone \<Rightarrow> Some (s\<lparr>sp_done := True, sp_ctl := JFlag 0\<rparr>)
      | JFlag k \<Rightarrow>
          (if k < sp_worker_num s then Some ((sp_set_flag k s)\<lparr>sp_ctl := JFlag (k + 1)\<rparr>)
           else Some (s\<lparr>sp_ctl := JPush 0\<rparr>))
      | JPush k \<Rightarrow>
          (if k < sp_worker_num s
           then Some (s\<lparr>sp_master := tsq_push NullTask (sp_master s), sp_ctl := JPush (k + 1)\<rparr>)
           else Some (s\<lparr>sp_ctl := JNotify\<rparr>))
      | JNotify \<Rightarrow> Some ((sp_notify_all s)\<lparr>sp_ctl := JWait\<rparr>)
      | JWait \<Rightarrow> (if sp_all_exited s then Some (s\<lparr>sp_done := True, sp_ctl := JClear\<rparr>) else None)
      | JClear \<Rightarrow> Some ((sp_clear s)\<lparr>sp_ctl := SpFree, sp_joined := True\<rparr>)
      | StFlag k \<Rightarrow>
          (if k < sp_worker_num s then Some ((sp_set_flag k s)\<lparr>sp_ctl := StPush k\<rparr>)
           else Some (s\<lparr>sp_ctl := StNotify\<rparr>))
      | StPush k \<Rightarrow>
          Some (s\<lparr>sp_queues := (sp_queues s)(k := wsq_push_front NullTask (sp_queues s k)),
                  sp_ctl := StFlag (k + 1)\<rparr>)
      | StNotify \<Rightarrow> Some ((sp_notify_all s)\<lparr>sp_ctl := StWait\<rparr>)
      | StWait \<Rightarrow> (if sp_all_exited s then Some (s\<lparr>sp_ctl := StClear\<rparr>) else None)
      | StClear \<Rightarrow> Some ((sp_clear s)\<lparr>sp_ctl := SpFree\<rparr>))"

section \<open>Interleaving\<close>

text \<open>
  The events of a schedule: the steps of the callers of \<open>submit\<close>, a notification reaching a blocked
  worker or nobody, a worker's step, a spurious wake-up, and the controller's calls and steps.
\<close>

datatype 'a sp_event =
    SpSubmit 'a "nat option" | SpChoose 'a "nat option" | SpPush 'a "nat option" | SpWake nat | SpNotifyLost
  | SpMove nat | SpSpurious nat | SpJoin | SpStop | SpCtl

definition in_task :: "'a steal_pool \<Rightarrow> nat option \<Rightarrow> bool" where
  "in_task s me = (case me of None \<Rightarrow> True
     | Some i \<Rightarrow> i < sp_worker_num s \<and> (case sp_threads s i of SRun a \<Rightarrow> True | _ \<Rightarrow> False))"

fun sp_event_step :: "'a sp_event \<Rightarrow> 'a steal_pool \<Rightarrow> 'a steal_pool option" where
  "sp_event_step (SpSubmit a me) s =
     (if a \<in># sp_submitted s \<or> \<not> in_task s me then None
      else case sp_submit a me s of Inl e \<Rightarrow> None | Inr s' \<Rightarrow> Some s')"
| "sp_event_step (SpChoose a me) s = (if (a, me) \<in># sp_submitting s then Some (sp_choose a me s) else None)"
| "sp_event_step (SpPush a target) s =
     (if (a, target) \<in># sp_pushing s then Some (sp_push a target s) else None)"
| "sp_event_step (SpWake i) s =
     (if 0 < sp_notify s \<and> i < sp_worker_num s \<and> sp_threads s i = SBlocked then Some (sp_wake i s) else None)"
| "sp_event_step SpNotifyLost s = sp_notify_lost s"
| "sp_event_step (SpMove i) s = (if i < sp_worker_num s then sp_worker i s else None)"
| "sp_event_step (SpSpurious i) s =
     (if i < sp_worker_num s \<and> sp_threads s i = SBlocked then Some (sp_goto i SCvLock s) else None)"
| "sp_event_step SpJoin s = (if sp_ctl s = SpFree then Some (sp_join s) else None)"
| "sp_event_step SpStop s = (if sp_ctl s = SpFree then Some (sp_stop s) else None)"
| "sp_event_step SpCtl s = sp_controller s"

inductive sp_reach :: "nat \<Rightarrow> bool \<Rightarrow> 'a steal_pool \<Rightarrow> bool" for n until_empty where
  init: "sp_reach n until_empty (sp_new n until_empty)"
| step: "sp_reach n until_empty s \<Longrightarrow> sp_event_step e s = Some s' \<Longrightarrow> sp_reach n until_empty s'"

fun sp_run :: "'a sp_event list \<Rightarrow> 'a steal_pool \<Rightarrow> 'a steal_pool option" where
  "sp_run [] s = Some s"
| "sp_run (e # es) s = (case sp_event_step e s of None \<Rightarrow> None | Some s' \<Rightarrow> sp_run es s')"

lemma sp_run_reach: "sp_reach n u s \<Longrightarrow> sp_run es s = Some s' \<Longrightarrow> sp_reach n u s'"
  by (induction es s rule: sp_run.induct) (auto split: option.splits intro: sp_reach.step)

lemmas sp_run_new = sp_run_reach [OF sp_reach.init]

section \<open>Where the tasks are\<close>

fun sp_held :: "'a sp_pc \<Rightarrow> 'a multiset" where
  "sp_held (SHold (Task a)) = {#a#}"
| "sp_held _ = {#}"

fun sp_running :: "'a sp_pc \<Rightarrow> 'a multiset" where
  "sp_running (SRun a) = {#a#}"
| "sp_running _ = {#}"

abbreviation over_threads :: "('a sp_pc \<Rightarrow> 'a multiset) \<Rightarrow> 'a steal_pool \<Rightarrow> 'a multiset" where
  "over_threads g s \<equiv> (\<Sum>i \<in> {..<sp_worker_num s}. g (sp_threads s i))"

abbreviation in_queues :: "'a steal_pool \<Rightarrow> 'a multiset" where
  "in_queues s \<equiv> (\<Sum>i \<in> {..<sp_worker_num s}. mset (real_tasks (sp_queues s i)))"

definition sp_accounted :: "'a steal_pool \<Rightarrow> bool" where
  "sp_accounted s \<longleftrightarrow>
     sp_submitted s = image_mset fst (sp_submitting s) + image_mset fst (sp_pushing s) +
       mset (real_tasks (sp_master s)) + in_queues s + over_threads sp_held s + sp_called s + sp_dropped s \<and>
     sp_called s = sp_finished s + over_threads sp_running s \<and>
     (\<forall>(a, t) \<in># sp_submitting s + sp_pushing s. \<forall>i. t = Some i \<longrightarrow> i < sp_worker_num s)"

text \<open>Taking from a queue, in terms of the tasks it holds.\<close>

lemma wsq_pop_real: "wsq_try_pop q = Some (t, q') \<Longrightarrow> real_tasks q = real_tasks [t] @ real_tasks q'"
  by (cases q; cases t) (auto simp: wsq_try_pop_def)

lemma tsq_pop_real: "tsq_try_pop q = Some (t, q') \<Longrightarrow> real_tasks q = real_tasks [t] @ real_tasks q'"
  by (cases q; cases t) auto

lemma wsq_steal_real: "wsq_try_steal q = Some (t, q') \<Longrightarrow> \<exists>a. t = Task a \<and> real_tasks q = real_tasks q' @ [a]"
  by (cases q rule: rev_cases; cases t) (auto simp: wsq_try_steal_def split: if_splits)

lemma sp_goto_sums:
  assumes "i < sp_worker_num s"
  shows "over_threads sp_held (sp_goto i pc s) + sp_held (sp_threads s i) = over_threads sp_held s + sp_held pc"
    and "over_threads sp_running (sp_goto i pc s) + sp_running (sp_threads s i) = over_threads sp_running s + sp_running pc"
  using sum_fun_upd [OF assms, where f = "sp_threads s" and x = pc and g = sp_held]
    sum_fun_upd [OF assms, where f = "sp_threads s" and x = pc and g = sp_running]
  by (simp_all add: sp_goto_def)

lemma sp_queue_sums:
  assumes "i < sp_worker_num s"
  shows "in_queues (s\<lparr>sp_queues := (sp_queues s)(i := q)\<rparr>) + mset (real_tasks (sp_queues s i)) =
    in_queues s + mset (real_tasks q)"
  using sum_fun_upd [OF assms, where f = "sp_queues s" and x = q and g = "\<lambda>q. mset (real_tasks q)"] by simp

lemma sp_accounted_update [simp]:
  "sp_accounted (s\<lparr>sp_flags := f\<rparr>) = sp_accounted s"
  "sp_accounted (s\<lparr>sp_cv_mutex := m\<rparr>) = sp_accounted s"
  "sp_accounted (s\<lparr>sp_notify := k\<rparr>) = sp_accounted s"
  "sp_accounted (s\<lparr>sp_ctl := c\<rparr>) = sp_accounted s"
  "sp_accounted (s\<lparr>sp_done := d\<rparr>) = sp_accounted s"
  "sp_accounted (s\<lparr>sp_late := l\<rparr>) = sp_accounted s"
  "sp_accounted (s\<lparr>sp_joined := j\<rparr>) = sp_accounted s"
  by (simp_all add: sp_accounted_def)

lemma sp_goto_simps [simp]:
  "sp_worker_num (sp_goto i pc s) = sp_worker_num s" "sp_submitted (sp_goto i pc s) = sp_submitted s"
  "sp_submitting (sp_goto i pc s) = sp_submitting s" "sp_pushing (sp_goto i pc s) = sp_pushing s"
  "sp_master (sp_goto i pc s) = sp_master s" "sp_queues (sp_goto i pc s) = sp_queues s"
  "sp_called (sp_goto i pc s) = sp_called s" "sp_finished (sp_goto i pc s) = sp_finished s"
  "sp_dropped (sp_goto i pc s) = sp_dropped s" "sp_done (sp_goto i pc s) = sp_done s"
  "sp_flags (sp_goto i pc s) = sp_flags s" "sp_ctl (sp_goto i pc s) = sp_ctl s"
  "sp_late (sp_goto i pc s) = sp_late s" "sp_joined (sp_goto i pc s) = sp_joined s"
  "sp_until_empty (sp_goto i pc s) = sp_until_empty s" "sp_notify (sp_goto i pc s) = sp_notify s"
  "sp_cv_mutex (sp_goto i pc s) = sp_cv_mutex s"
  by (simp_all add: sp_goto_def)

text \<open>The four ways a worker moves a task: out of a queue, into a call, straight from a theft, done.\<close>

lemma accounted_goto:
  assumes "sp_accounted s" "i < sp_worker_num s" "sp_held pc = sp_held (sp_threads s i)"
    "sp_running pc = sp_running (sp_threads s i)"
  shows "sp_accounted (sp_goto i pc s)"
  using assms(1) sp_goto_sums [OF assms(2), of pc] unfolding assms(3,4)
  by (simp add: sp_accounted_def)

lemma accounted_pop:
  assumes "sp_accounted s" "i < sp_worker_num s" "sp_held (sp_threads s i) = {#}" "sp_running (sp_threads s i) = {#}"
    and q: "mset (real_tasks (sp_master s)) + in_queues s = sp_held (SHold t) + (mset (real_tasks m) + in_queues (s\<lparr>sp_queues := qs\<rparr>))"
  shows "sp_accounted (sp_goto i (SHold t) (s\<lparr>sp_master := m, sp_queues := qs\<rparr>))"
proof -
  have "over_threads sp_held (sp_goto i (SHold t) s) = over_threads sp_held s + sp_held (SHold t)"
    "over_threads sp_running (sp_goto i (SHold t) s) = over_threads sp_running s"
    using sp_goto_sums [OF assms(2), of "SHold t"] assms(3,4) by simp_all
  moreover have "sp_submitted s = image_mset fst (sp_submitting s) + image_mset fst (sp_pushing s) +
       (mset (real_tasks (sp_master s)) + in_queues s) + over_threads sp_held s + sp_called s + sp_dropped s"
    using assms(1) by (simp add: sp_accounted_def ac_simps)
  ultimately show ?thesis using assms(1) unfolding q
    by (simp add: sp_accounted_def sp_goto_def ac_simps)
qed

lemma accounted_call:
  assumes "sp_accounted s" "i < sp_worker_num s" "sp_threads s i = SHold (Task a)"
  shows "sp_accounted (sp_goto i (SRun a) (s\<lparr>sp_called := add_mset a (sp_called s)\<rparr>))"
  using assms(1) sp_goto_sums [OF assms(2), of "SRun a"] assms(3)
  by (auto simp: sp_accounted_def sp_goto_def)

lemma accounted_steal:
  assumes "sp_accounted s" "i < sp_worker_num s" "sp_held (sp_threads s i) = {#}" "sp_running (sp_threads s i) = {#}"
    and q: "in_queues s = add_mset a (in_queues (s\<lparr>sp_queues := qs\<rparr>))"
  shows "sp_accounted (sp_goto i (SRun a) (s\<lparr>sp_queues := qs, sp_called := add_mset a (sp_called s)\<rparr>))"
  using assms(1) sp_goto_sums [OF assms(2), of "SRun a"] assms(3,4) q
  by (simp add: sp_accounted_def sp_goto_def)

lemma accounted_finish:
  assumes "sp_accounted s" "i < sp_worker_num s" "sp_threads s i = SRun a"
  shows "sp_accounted (sp_goto i SLoop (s\<lparr>sp_finished := add_mset a (sp_finished s)\<rparr>))"
  using assms(1) sp_goto_sums [OF assms(2), of SLoop] assms(3)
  by (auto simp: sp_accounted_def sp_goto_def)

lemma sp_worker_accounted:
  assumes "sp_accounted s" "i < sp_worker_num s" "sp_worker i s = Some s'"
  shows "sp_accounted s'"
proof (cases "sp_threads s i")
  case SPopLocal
  show ?thesis
  proof (cases "wsq_try_pop (sp_queues s i)")
    case (Some p)
    then obtain t q where p: "wsq_try_pop (sp_queues s i) = Some (t, q)" by (cases p) auto
    have "mset (real_tasks (sp_queues s i)) = sp_held (SHold t) + mset (real_tasks q)"
      using wsq_pop_real [OF p] by (cases t) auto
    then have "sp_accounted (sp_goto i (SHold t) (s\<lparr>sp_master := sp_master s, sp_queues := (sp_queues s)(i := q)\<rparr>))"
      using sp_queue_sums [OF assms(2), of q] SPopLocal by (intro accounted_pop assms) (auto simp: ac_simps)
    with SPopLocal p assms(3) show ?thesis by (simp add: sp_worker_def)
  qed (use SPopLocal assms accounted_goto [OF assms(1,2), of SPopMaster] in \<open>simp add: sp_worker_def\<close>)
next
  case SPopMaster
  show ?thesis
  proof (cases "tsq_try_pop (sp_master s)")
    case (Some p)
    then obtain t q where p: "tsq_try_pop (sp_master s) = Some (t, q)" by (cases p) auto
    have "mset (real_tasks (sp_master s)) = sp_held (SHold t) + mset (real_tasks q)"
      using tsq_pop_real [OF p] by (cases t) auto
    then have "sp_accounted (sp_goto i (SHold t) (s\<lparr>sp_master := q, sp_queues := sp_queues s\<rparr>))"
      using SPopMaster by (intro accounted_pop assms) auto
    with SPopMaster p assms(3) show ?thesis by (simp add: sp_worker_def)
  qed (use SPopMaster assms accounted_goto [OF assms(1,2), of "SVictim 0"] in \<open>simp add: sp_worker_def\<close>)
next
  case (SHold t)
  show ?thesis
  proof (cases t)
    case (Task a)
    with SHold assms accounted_call [OF assms(1,2), of a] show ?thesis by (auto simp: sp_worker_def)
  qed (use SHold assms accounted_goto [of "s\<lparr>sp_flags := f\<rparr>" i SLoop for f] in \<open>auto simp: sp_worker_def\<close>)
next
  case (SSteal k)
  let ?pos = "(i + k + 1) mod sp_worker_num s"
  have pos: "?pos < sp_worker_num s" using assms(2) by simp
  show ?thesis
  proof (cases "wsq_try_steal (sp_queues s ?pos)")
    case (Some p)
    then obtain t q where p: "wsq_try_steal (sp_queues s ?pos) = Some (t, q)" by (cases p) auto
    then obtain a where t: "t = Task a" "real_tasks (sp_queues s ?pos) = real_tasks q @ [a]"
      using wsq_steal_real by blast
    then have "in_queues s = add_mset a (in_queues (s\<lparr>sp_queues := (sp_queues s)(?pos := q)\<rparr>))"
      using sp_queue_sums [OF pos, of q] by simp
    then have "sp_accounted (sp_goto i (SRun a) (s\<lparr>sp_queues := (sp_queues s)(?pos := q),
        sp_called := add_mset a (sp_called s)\<rparr>))"
      using SSteal by (intro accounted_steal assms) auto
    with SSteal p t assms(3) show ?thesis by (simp add: sp_worker_def Let_def)
  qed (use SSteal assms accounted_goto [OF assms(1,2), of "SVictim (k + 1)"] in \<open>simp add: sp_worker_def Let_def\<close>)
next
  case (SRun a)
  with assms accounted_finish [OF assms(1,2), of a] show ?thesis by (auto simp: sp_worker_def)
next
  case (SVictim k)
  with assms show ?thesis by (auto simp: sp_worker_def Let_def split: if_splits intro: accounted_goto)
qed (use assms in \<open>auto simp: sp_worker_def split: if_splits intro!: accounted_goto\<close>)

lemma sp_submit_accounted:
  assumes "sp_accounted s" "in_task s me" "sp_submit a me s = Inr s'"
  shows "sp_accounted s'"
proof -
  have "s' = s\<lparr>sp_submitting := add_mset (a, me) (sp_submitting s), sp_submitted := add_mset a (sp_submitted s),
      sp_late := (sp_late s \<or> sp_ctl s \<noteq> SpFree)\<rparr>"
    using assms(3) by (simp add: sp_submit_def split: if_splits)
  with assms(1,2) show ?thesis by (auto simp: sp_accounted_def in_task_def split: option.splits)
qed

lemma sp_choose_accounted:
  assumes "sp_accounted s" "(a, me) \<in># sp_submitting s"
  shows "sp_accounted (sp_choose a me s)"
proof -
  obtain M where "sp_submitting s = add_mset (a, me) M" using assms(2) by (metis insert_DiffM)
  with assms(1) show ?thesis
    by (auto simp: sp_accounted_def sp_choose_def Let_def split: option.splits if_splits)
qed

lemma sp_push_accounted:
  assumes "sp_accounted s" "(a, target) \<in># sp_pushing s"
  shows "sp_accounted (sp_push a target s)"
proof -
  obtain M where M: "sp_pushing s = add_mset (a, target) M" using assms(2) by (metis insert_DiffM)
  show ?thesis
  proof (cases target)
    case None
    with assms(1) M show ?thesis by (simp add: sp_accounted_def sp_push_def tsq_push_def)
  next
    case (Some i)
    then have "i < sp_worker_num s" using assms by (fastforce simp: sp_accounted_def)
    from sp_queue_sums [OF this, of "wsq_push_front (Task a) (sp_queues s i)"]
    have "in_queues (s\<lparr>sp_queues := (sp_queues s)(i := wsq_push_front (Task a) (sp_queues s i))\<rparr>) =
        add_mset a (in_queues s)" by (simp add: wsq_push_front_def)
    with assms(1) M Some show ?thesis by (simp add: sp_accounted_def sp_push_def)
  qed
qed

lemma notify_all_accounted: "sp_accounted s \<Longrightarrow> sp_accounted (sp_notify_all s)"
proof -
  have "sp_held (case pc of SBlocked \<Rightarrow> SCvLock | x \<Rightarrow> x) = sp_held pc"
    "sp_running (case pc of SBlocked \<Rightarrow> SCvLock | x \<Rightarrow> x) = sp_running pc" for pc :: "'a sp_pc"
    by (cases pc; simp)+
  then show "sp_accounted s \<Longrightarrow> sp_accounted (sp_notify_all s)"
    by (simp add: sp_accounted_def sp_notify_all_def)
qed

lemma sp_clear_accounted: "sp_accounted s \<Longrightarrow> sp_accounted (sp_clear s)"
proof -
  have none: "(\<Sum>i \<in> {..<sp_worker_num s}. mset (real_tasks (sp_queues (sp_clear s) i))) = {#}"
    by (intro sum.neutral) (simp add: sp_clear_def wsq_clear_def)
  assume "sp_accounted s"
  with none show "sp_accounted (sp_clear s)"
    by (simp add: sp_accounted_def sp_clear_def tsq_clear_def ac_simps)
qed

lemma push_null_accounted:
  assumes "sp_accounted s"
  shows "sp_accounted (s\<lparr>sp_queues := (sp_queues s)(k := wsq_push_front NullTask (sp_queues s k))\<rparr>)"
    and "sp_accounted (s\<lparr>sp_master := tsq_push NullTask (sp_master s)\<rparr>)"
proof -
  have "real_tasks (((sp_queues s)(k := wsq_push_front NullTask (sp_queues s k))) i) = real_tasks (sp_queues s i)" for i
    by (simp add: wsq_push_front_def)
  with assms show "sp_accounted (s\<lparr>sp_queues := (sp_queues s)(k := wsq_push_front NullTask (sp_queues s k))\<rparr>)"
    by (simp add: sp_accounted_def)
qed (use assms in \<open>simp add: sp_accounted_def tsq_push_def\<close>)

lemma sp_controller_accounted:
  assumes "sp_accounted s" "sp_controller s = Some s'"
  shows "sp_accounted s'"
proof -
  have commute: "s\<lparr>sp_queues := q, sp_ctl := c\<rparr> = (s\<lparr>sp_queues := q\<rparr>)\<lparr>sp_ctl := c\<rparr>"
    "s\<lparr>sp_master := m, sp_ctl := c\<rparr> = (s\<lparr>sp_master := m\<rparr>)\<lparr>sp_ctl := c\<rparr>" for q m c by simp_all
  show ?thesis
    using assms notify_all_accounted [OF assms(1)] sp_clear_accounted [OF assms(1)]
      push_null_accounted [OF assms(1)]
    by (auto simp: sp_controller_def sp_set_flag_def split: sp_ctl_pc.splits if_splits)
qed

lemma sp_step_accounted:
  assumes "sp_accounted s" "sp_event_step e s = Some s'"
  shows "sp_accounted s'"
proof (cases e)
  case (SpSubmit a me)
  with assms sp_submit_accounted [OF assms(1)] show ?thesis by (auto split: if_splits sum.splits)
next
  case (SpWake i)
  with assms have "s' = sp_goto i SCvLock (s\<lparr>sp_notify := sp_notify s - 1\<rparr>)" "i < sp_worker_num s"
    "sp_threads s i = SBlocked" by (auto simp: sp_wake_def sp_goto_def split: if_splits)
  with assms(1) show ?thesis by (simp add: accounted_goto)
next
  case SpNotifyLost
  with assms show ?thesis by (auto simp: sp_notify_lost_def split: if_splits)
next
  case (SpMove i)
  with assms show ?thesis by (auto intro: sp_worker_accounted split: if_splits)
next
  case (SpSpurious i)
  with assms show ?thesis by (auto intro: accounted_goto split: if_splits)
next
  case SpCtl
  with assms show ?thesis by (auto intro: sp_controller_accounted)
qed (use assms in \<open>auto intro: sp_choose_accounted sp_push_accounted simp: sp_join_def sp_stop_def split: if_splits\<close>)

lemma sp_new_accounted: "sp_accounted (sp_new n u)"
  by (simp add: sp_accounted_def sp_new_def)

lemma sp_worker_same:
  assumes "sp_worker i s = Some s'"
  shows "sp_submitted s' = sp_submitted s" "sp_worker_num s' = sp_worker_num s" "sp_done s' = sp_done s"
    "sp_ctl s' = sp_ctl s" "sp_submitting s' = sp_submitting s" "sp_pushing s' = sp_pushing s"
    "sp_dropped s' = sp_dropped s" "sp_late s' = sp_late s" "sp_joined s' = sp_joined s"
    "sp_until_empty s' = sp_until_empty s"
  using assms
  by (auto simp: sp_worker_def Let_def split: sp_pc.splits option.splits task.splits if_splits)

lemma sp_controller_same:
  assumes "sp_controller s = Some s'"
  shows "sp_submitted s' = sp_submitted s" "sp_worker_num s' = sp_worker_num s"
    "sp_submitting s' = sp_submitting s" "sp_pushing s' = sp_pushing s" "sp_late s' = sp_late s"
    "sp_until_empty s' = sp_until_empty s" "sp_notify s' = sp_notify s"
  using assms
  by (auto simp: sp_controller_def sp_set_flag_def sp_clear_def sp_notify_all_def split: sp_ctl_pc.splits if_splits)

lemma sp_step_submitted:
  assumes "sp_event_step e s = Some s'"
  shows "sp_worker_num s' = sp_worker_num s \<and> sp_until_empty s' = sp_until_empty s \<and>
    (sp_submitted s' = sp_submitted s \<or>
      (\<exists>a me. e = SpSubmit a me \<and> a \<notin># sp_submitted s \<and> sp_submitted s' = add_mset a (sp_submitted s)))"
  using assms
  by (cases e)
    (auto simp: sp_submit_def sp_choose_def sp_push_def sp_wake_def sp_notify_lost_def sp_join_def sp_stop_def
      Let_def sp_worker_same sp_controller_same split: if_splits option.splits sum.splits)

lemma sp_reach_inv:
  "sp_reach n u s \<Longrightarrow> sp_accounted s \<and> sp_worker_num s = n \<and> sp_until_empty s = u \<and>
     (\<forall>a. Multiset.count (sp_submitted s) a \<le> 1)"
proof (induction rule: sp_reach.induct)
  case init
  show ?case using sp_new_accounted [of n u] by (simp add: sp_new_def)
next
  case (step s e s')
  with sp_step_submitted [OF step.hyps(2)] sp_step_accounted [OF _ step.hyps(2)] show ?case
    by (auto simp: not_in_iff)
qed

section \<open>What a join leaves done\<close>

text \<open>
  If nothing is being submitted when \<open>join\<close> is called or later (not \<open>sp_late\<close>), the queues it has
  found empty stay without tasks, and what the workers hold they run.
\<close>

definition sp_quiet :: "'a steal_pool \<Rightarrow> bool" where
  "sp_quiet s \<longleftrightarrow> sp_submitting s = {#} \<and> sp_pushing s = {#} \<and> sp_dropped s = {#}"

definition no_tasks_below :: "nat \<Rightarrow> 'a steal_pool \<Rightarrow> bool" where
  "no_tasks_below k s \<longleftrightarrow> real_tasks (sp_master s) = [] \<and> (\<forall>j < k. real_tasks (sp_queues s j) = [])"

definition sp_join_inv :: "'a steal_pool \<Rightarrow> bool" where
  "sp_join_inv s \<longleftrightarrow>
     (case sp_ctl s of
        SpFree \<Rightarrow> if sp_done s
          then sp_joined s \<and> \<not> sp_late s \<longrightarrow> sp_quiet s \<and> sp_submitted s \<subseteq># sp_finished s
          else sp_dropped s = {#} \<and> \<not> sp_joined s
      | JMaster \<Rightarrow> \<not> sp_joined s \<and> (\<not> sp_late s \<longrightarrow> sp_quiet s)
      | JLocal k \<Rightarrow> \<not> sp_joined s \<and> k \<le> sp_worker_num s \<and> (\<not> sp_late s \<longrightarrow> sp_quiet s \<and> no_tasks_below k s)
      | JClear \<Rightarrow> \<not> sp_joined s \<and> sp_done s \<and> sp_all_exited s \<and>
          (\<not> sp_late s \<longrightarrow> sp_quiet s \<and> no_tasks_below (sp_worker_num s) s)
      | JDone \<Rightarrow> \<not> sp_joined s \<and> (\<not> sp_late s \<longrightarrow> sp_quiet s \<and> no_tasks_below (sp_worker_num s) s)
      | JFlag k \<Rightarrow> \<not> sp_joined s \<and> (\<not> sp_late s \<longrightarrow> sp_quiet s \<and> no_tasks_below (sp_worker_num s) s)
      | JPush k \<Rightarrow> \<not> sp_joined s \<and> (\<not> sp_late s \<longrightarrow> sp_quiet s \<and> no_tasks_below (sp_worker_num s) s)
      | JNotify \<Rightarrow> \<not> sp_joined s \<and> (\<not> sp_late s \<longrightarrow> sp_quiet s \<and> no_tasks_below (sp_worker_num s) s)
      | JWait \<Rightarrow> \<not> sp_joined s \<and> (\<not> sp_late s \<longrightarrow> sp_quiet s \<and> no_tasks_below (sp_worker_num s) s)
      | _ \<Rightarrow> sp_done s \<and> \<not> sp_joined s)"

lemma worker_no_tasks:
  assumes "no_tasks_below k s" "sp_worker i s = Some s'"
  shows "no_tasks_below k s'"
proof -
  have "real_tasks (sp_master s') = []"
    using assms tsq_pop_real [of "sp_master s"]
    by (auto simp: no_tasks_below_def sp_worker_def Let_def split: sp_pc.splits option.splits task.splits if_splits)
  moreover have "real_tasks (sp_queues s' j) = []" if "real_tasks (sp_queues s j) = []" for j
    using assms(2) that wsq_pop_real [of "sp_queues s j"] wsq_steal_real [of "sp_queues s j"]
    by (auto simp: sp_worker_def Let_def split: sp_pc.splits option.splits task.splits if_splits)
  ultimately show ?thesis using assms(1) by (auto simp: no_tasks_below_def)
qed

lemma worker_finished: "sp_worker i s = Some s' \<Longrightarrow> sp_finished s \<subseteq># sp_finished s'"
  by (auto simp: sp_worker_def Let_def split: sp_pc.splits option.splits task.splits if_splits)

lemma worker_sp_join_inv:
  assumes "sp_join_inv s" "i < sp_worker_num s" "sp_worker i s = Some s'"
  shows "sp_join_inv s'"
proof -
  note same = sp_worker_same [OF assms(3)]
  have "sp_threads s i \<noteq> SExited" using assms(3) by (auto simp: sp_worker_def)
  then have "\<not> sp_all_exited s" using assms(2) by (auto simp: sp_all_exited_def)
  moreover have "sp_quiet s' = sp_quiet s" by (simp add: sp_quiet_def same)
  ultimately show ?thesis
    using assms(1) worker_no_tasks [OF _ assms(3)] worker_finished [OF assms(3)] same
    by (auto simp: sp_join_inv_def intro: subset_mset.trans split: sp_ctl_pc.splits if_splits)
qed

lemma joined_finished:
  assumes "sp_quiet s" "no_tasks_below (sp_worker_num s) s" "sp_all_exited s" "sp_accounted s"
  shows "sp_dropped (sp_clear s) = {#} \<and> sp_submitted s \<subseteq># sp_finished s"
proof -
  have "in_queues s = {#}" using assms(2) by (intro sum.neutral) (auto simp: no_tasks_below_def)
  moreover have "sp_threads s i = SExited" if "i < sp_worker_num s" for i
    using assms(3) that by (auto simp: sp_all_exited_def)
  then have "over_threads sp_held s = {#}" "over_threads sp_running s = {#}"
    by (auto intro!: sum.neutral)
  ultimately show ?thesis using assms(1,2,4)
    by (simp add: sp_accounted_def sp_quiet_def no_tasks_below_def sp_clear_def)
qed

lemma controller_join_inv:
  assumes "sp_join_inv s" "sp_accounted s" "sp_controller s = Some s'"
  shows "sp_join_inv s'"
proof (cases "sp_ctl s")
  case JMaster
  with assms show ?thesis
    by (auto simp: sp_join_inv_def sp_controller_def sp_quiet_def no_tasks_below_def tsq_size_def)
next
  case (JLocal k)
  with assms show ?thesis
    by (auto simp: sp_join_inv_def sp_controller_def sp_quiet_def no_tasks_below_def wsq_empty_def less_Suc_eq
        split: if_splits)
next
  case JClear
  with assms joined_finished [OF _ _ _ assms(2)] show ?thesis
    by (auto simp: sp_join_inv_def sp_controller_def sp_quiet_def sp_clear_def)
qed (use assms in \<open>auto simp: sp_join_inv_def sp_controller_def sp_quiet_def no_tasks_below_def sp_set_flag_def
    sp_notify_all_def sp_all_exited_def sp_clear_def tsq_push_def split: if_splits\<close>)

text \<open>While a submission is under way the invariant says little, and survives.\<close>

lemma not_quiet_join_inv:
  assumes "sp_join_inv s" "\<not> sp_quiet s" "sp_ctl t = sp_ctl s" "sp_done t = sp_done s" "sp_joined t = sp_joined s"
    "sp_late t = sp_late s" "sp_dropped t = sp_dropped s" "sp_worker_num t = sp_worker_num s"
    "sp_all_exited t = sp_all_exited s"
  shows "sp_join_inv t"
  using assms(1,2) unfolding sp_join_inv_def assms(3-9)
  by (cases "sp_ctl s") (auto split: if_splits)

lemma blocked_not_exited: "i < sp_worker_num s \<Longrightarrow> sp_threads s i = SBlocked \<Longrightarrow> \<not> sp_all_exited s"
proof
  assume i: "i < sp_worker_num s" "sp_threads s i = SBlocked" and "sp_all_exited s"
  then have "sp_threads s i = SExited" unfolding sp_all_exited_def by simp
  with i show False by simp
qed

lemma same_join_inv:
  assumes "sp_join_inv s" "sp_ctl t = sp_ctl s" "sp_done t = sp_done s" "sp_joined t = sp_joined s"
    "sp_late t = sp_late s" "sp_dropped t = sp_dropped s" "sp_worker_num t = sp_worker_num s"
    "sp_quiet t = sp_quiet s" "\<And>k. no_tasks_below k t = no_tasks_below k s" "sp_finished t = sp_finished s"
    "sp_submitted t = sp_submitted s" "sp_all_exited s \<Longrightarrow> sp_all_exited t"
  shows "sp_join_inv t"
  using assms(1,12) unfolding sp_join_inv_def assms(2-11)
  by (cases "sp_ctl s") auto

lemma sp_step_join_inv:
  assumes "sp_join_inv s" "sp_accounted s" "sp_until_empty s" "sp_event_step e s = Some s'"
  shows "sp_join_inv s'"
proof (cases e)
  case (SpMove i)
  with assms show ?thesis by (auto intro: worker_sp_join_inv split: if_splits)
next
  case SpCtl
  with assms show ?thesis by (auto intro: controller_join_inv)
next
  case (SpSubmit a me)
  then have "s' = s\<lparr>sp_submitting := add_mset (a, me) (sp_submitting s), sp_submitted := add_mset a (sp_submitted s),
      sp_late := (sp_late s \<or> sp_ctl s \<noteq> SpFree)\<rparr>" "\<not> sp_done s"
    using assms(4) by (auto simp: sp_submit_def split: if_splits)
  with assms(1) show ?thesis
    by (auto simp: sp_join_inv_def sp_all_exited_def split: sp_ctl_pc.splits if_splits)
next
  case SpJoin
  with assms show ?thesis
    by (auto simp: sp_join_inv_def sp_join_def sp_quiet_def split: if_splits)
next
  case SpStop
  with assms show ?thesis by (auto simp: sp_join_inv_def sp_stop_def split: if_splits)
next
  case (SpChoose a me)
  with assms(4) have "(a, me) \<in># sp_submitting s" "s' = sp_choose a me s" by (auto split: if_splits)
  then show ?thesis
    by (intro not_quiet_join_inv [OF assms(1)])
      (auto simp: sp_choose_def sp_quiet_def Let_def sp_all_exited_def)
next
  case (SpPush a target)
  with assms(4) have "(a, target) \<in># sp_pushing s" "s' = sp_push a target s" by (auto split: if_splits)
  then show ?thesis
    by (intro not_quiet_join_inv [OF assms(1)])
      (auto simp: sp_push_def sp_quiet_def Let_def sp_all_exited_def split: option.splits)
next
  case (SpWake i)
  with assms(4) have "s' = sp_wake i s" "\<not> sp_all_exited s"
    using blocked_not_exited [of i s] by (auto split: if_splits)
  then show ?thesis by (intro same_join_inv [OF assms(1)]) (auto simp: sp_wake_def sp_quiet_def no_tasks_below_def)
next
  case SpNotifyLost
  with assms(4) have "s' = s\<lparr>sp_notify := sp_notify s - 1\<rparr>" by (auto simp: sp_notify_lost_def split: if_splits)
  then show ?thesis
    by (intro same_join_inv [OF assms(1)]) (auto simp: sp_quiet_def no_tasks_below_def sp_all_exited_def)
next
  case (SpSpurious i)
  with assms(4) have "s' = sp_goto i SCvLock s" "\<not> sp_all_exited s"
    using blocked_not_exited [of i s] by (auto split: if_splits)
  then show ?thesis by (intro same_join_inv [OF assms(1)]) (auto simp: sp_quiet_def no_tasks_below_def)
qed

lemma sp_reach_join_inv: "sp_reach n True s \<Longrightarrow> sp_join_inv s"
proof (induction rule: sp_reach.induct)
  case init
  show ?case by (simp add: sp_join_inv_def sp_new_def)
next
  case (step s e s')
  with sp_reach_inv [OF step.hyps(1)] show ?case by (auto intro: sp_step_join_inv)
qed

section \<open>Properties\<close>

lemmas sp_exec_simps = sp_new_def sp_worker_def sp_goto_def sp_submit_def sp_choose_def sp_push_def
  sp_notify_lost_def sp_join_def in_task_def flag_new_def flag_isSet_def wsq_try_pop_def tsq_empty_def
  tsq_push_def sp_controller_def sp_set_flag_def sp_clear_def sp_notify_all_def sp_all_exited_def
  tsq_size_def wsq_empty_def wsq_push_front_def flag_set_def

text \<open>
  At every moment every accepted task is in exactly one place (in a call of \<open>submit\<close>, in
  the master queue or a worker's queue, in a worker's hand, called, or dropped when the queues were
  cleared), and none is called twice, thefts included.
\<close>

theorem sp_tasks_conserved:
  assumes "sp_reach n u s"
  shows "sp_submitted s = image_mset fst (sp_submitting s) + image_mset fst (sp_pushing s) +
      mset (real_tasks (sp_master s)) + in_queues s + over_threads sp_held s + sp_called s + sp_dropped s \<and>
    Multiset.count (sp_called s) a \<le> 1"
proof -
  have eq: "sp_submitted s = image_mset fst (sp_submitting s) + image_mset fst (sp_pushing s) +
      mset (real_tasks (sp_master s)) + in_queues s + over_threads sp_held s + sp_called s + sp_dropped s"
    and le: "Multiset.count (sp_submitted s) a \<le> 1"
    using sp_reach_inv [OF assms] unfolding sp_accounted_def by blast+
  have "Multiset.count (sp_called s) a \<le> Multiset.count (sp_submitted s) a" unfolding eq by simp
  with eq le show ?thesis by simp
qed

text \<open>
  Property C36: when \<open>join\<close> has returned on a pool that runs until empty, and nothing was being submitted
  when it was called or since, every task ever accepted has finished and none was dropped, under
  every interleaving of workers, thefts and wake-ups.
\<close>

theorem sp_join_completes:
  assumes "sp_reach n True s" "sp_joined s" "\<not> sp_late s"
  shows "sp_finished s = sp_submitted s \<and> sp_dropped s = {#}"
proof -
  have "sp_quiet s" "sp_submitted s \<subseteq># sp_finished s"
    using sp_reach_join_inv [OF assms(1)] assms(2,3)
    by (auto simp: sp_join_inv_def split: sp_ctl_pc.splits if_splits)
  moreover have "sp_finished s \<subseteq># sp_submitted s"
    using sp_reach_inv [OF assms(1)] by (simp add: sp_accounted_def)
  ultimately show ?thesis by (simp add: sp_quiet_def subset_mset.antisym)
qed

text \<open>All workers blocked, a task in the master queue, and \<open>join\<close> waiting for that queue to empty.\<close>

definition sp_stuck :: "'a steal_pool \<Rightarrow> bool" where
  "sp_stuck s \<longleftrightarrow> (\<forall>i \<in> set [0..<sp_worker_num s]. sp_threads s i = SBlocked) \<and> sp_master s \<noteq> [] \<and>
     sp_ctl s = JMaster \<and> sp_notify s = 0 \<and> sp_submitting s = {#} \<and> sp_pushing s = {#}"

lemma sp_stuck_stays:
  assumes "sp_stuck s" "sp_event_step e s = Some s'" "s' \<noteq> s"
  shows "e \<in> {SpSubmit a me |a me. True} \<union> range SpSpurious"
proof (cases e)
  case (SpMove i)
  with assms have "i < sp_worker_num s" "sp_worker i s = Some s'" by (auto split: if_splits)
  moreover from this(1) assms(1) have "sp_threads s i = SBlocked" by (simp add: sp_stuck_def)
  ultimately show ?thesis by (simp add: sp_worker_def)
next
  case SpCtl
  moreover have "s\<lparr>sp_ctl := JMaster\<rparr> = s" using assms(1) by (simp add: sp_stuck_def)
  ultimately show ?thesis using assms by (simp add: sp_stuck_def sp_controller_def tsq_size_def)
qed (use assms in \<open>auto simp: sp_stuck_def sp_notify_lost_def split: if_splits\<close>)

text \<open>
  \<open>submit\<close> notifies without holding \<open>m_cv_mutex\<close>, so its notification can fall between
  a worker's test of the predicate and its blocking. Then the pool is stuck: the task stays in the
  master queue, the only worker sleeps, \<open>join\<close> spins on the queue's size, and no step but another
  submission or a spurious wake-up changes anything.
\<close>

theorem sp_lost_wakeup:
  "\<exists>s. sp_run (replicate 8 (SpMove 0) @ [SpSubmit (7 :: nat) None, SpChoose 7 None, SpPush 7 None,
         SpNotifyLost, SpMove 0, SpJoin]) (sp_new 1 True) = Some s \<and>
     sp_master s = [Task 7] \<and> sp_threads s 0 = SBlocked \<and> sp_ctl s = JMaster \<and>
     {e. case sp_event_step e s of None \<Rightarrow> False | Some s' \<Rightarrow> s' \<noteq> s} \<subseteq>
       {SpSubmit a me |a me. True} \<union> range SpSpurious"
proof -
  let ?es = "replicate 8 (SpMove 0) @ [SpSubmit (7 :: nat) None, SpChoose 7 None, SpPush 7 None,
         SpNotifyLost, SpMove 0, SpJoin]"
  obtain s where s: "sp_run ?es (sp_new 1 True) = Some s"
    and c: "sp_master s = [Task 7]" "sp_threads s 0 = SBlocked" "sp_ctl s = JMaster" "sp_stuck s"
    by (simp add: numeral_eq_Suc sp_exec_simps sp_stuck_def)
  have "{e. case sp_event_step e s of None \<Rightarrow> False | Some s' \<Rightarrow> s' \<noteq> s} \<subseteq>
      {SpSubmit a me |a me. True} \<union> range SpSpurious"
    using sp_stuck_stays [OF c(4)] by (fastforce split: option.splits)
  with s c(1-3) show ?thesis by blast
qed

text \<open>
  A task that submits another while \<open>join\<close> looks at the queues is abandoned: \<open>join\<close> reads the
  queues one after the other and does not wait for the task that is running, so the task accepted
  from it before \<open>m_done\<close> is set is dropped, never called, and \<open>join\<close> has returned.
\<close>

theorem sp_join_abandons:
  "\<exists>s. sp_run [SpSubmit (1 :: nat) None, SpChoose 1 None, SpPush 1 None, SpNotifyLost, SpMove 0, SpMove 0,
         SpMove 0, SpMove 0, SpSubmit 2 (Some 0), SpJoin, SpCtl, SpCtl, SpCtl, SpCtl, SpChoose 2 (Some 0),
         SpPush 2 (Some 0), SpCtl, SpCtl, SpMove 0, SpMove 0, SpCtl, SpCtl, SpCtl, SpCtl, SpCtl]
         (sp_new 1 True) = Some s \<and>
     sp_joined s \<and> sp_submitted s = {#1, 2#} \<and> sp_finished s = {#1#} \<and> sp_dropped s = {#2#}"
  by (simp add: sp_exec_simps)

theorem sp_join_completes_witness:
  "\<exists>s. sp_run [SpSubmit (7 :: nat) None, SpChoose 7 None, SpPush 7 None, SpNotifyLost, SpMove 0, SpMove 0, SpMove 0,
         SpMove 0, SpMove 0, SpJoin, SpCtl, SpCtl, SpCtl, SpCtl, SpCtl, SpCtl, SpCtl, SpCtl, SpCtl, SpMove 0, SpCtl,
         SpCtl] (sp_new 1 True) = Some s \<and> sp_submitted s = {#7#} \<and> sp_finished s = sp_submitted s"
proof -
  obtain s where s: "sp_run [SpSubmit (7 :: nat) None, SpChoose 7 None, SpPush 7 None, SpNotifyLost, SpMove 0,
      SpMove 0, SpMove 0, SpMove 0, SpMove 0, SpJoin, SpCtl, SpCtl, SpCtl, SpCtl, SpCtl, SpCtl, SpCtl, SpCtl,
      SpCtl, SpMove 0, SpCtl, SpCtl] (sp_new 1 True) = Some s"
    and c: "sp_submitted s = {#7#}" "sp_joined s" "\<not> sp_late s"
    by (simp add: sp_exec_simps)
  show ?thesis using s c(1) sp_join_completes [OF sp_run_new [OF s] c(2,3)] by simp
qed

end
