(* ===== verification/ParallelFor.thy ===== *)
theory ParallelFor
  imports HkuPrelude
begin

text \<open>
  The \<open>parallel_for\<close> functions of \<open>thread/algorithm.h\<close>: an index interval is cut into ranges, a
  task per range (or per index) goes to a thread pool, and the results are collected through the
  tasks' futures in the order of submission. The user's function \<open>f\<close> maps an index to a value or an
  exception; it is assumed to depend on its argument only, so that a task's future holds the same
  result whenever and wherever the pool runs it (that it runs each task once is the subject of
  \<open>ThreadPool\<close> and \<open>StealThreadPool\<close>). \<open>hw\<close> is \<open>std::thread::hardware_concurrency()\<close>.
\<close>

section \<open>Loops over \<open>size_t\<close>\<close>

text \<open>The indices \<open>for (size_t i = a; i < b; i++)\<close> runs through.\<close>

function for_range :: "u64 \<Rightarrow> u64 \<Rightarrow> u64 list" where
  "for_range a b = (if a < b then a # for_range (a + 1) b else [])"
  by auto
termination
proof (relation "measure (\<lambda>(a, b). unat b - unat a)")
  fix a b :: u64 assume "a < b"
  then have "unat a < unat b" by (simp add: word_less_nat_alt)
  moreover have "unat (a + 1) = unat a + 1"
    using unat_add_less [of a 1] unat_less_exp [of b] \<open>unat a < unat b\<close> by simp
  ultimately show "((a + 1, b), a, b) \<in> measure (\<lambda>(a, b). unat b - unat a)" by simp
qed simp

declare for_range.simps [simp del]

text \<open>Running \<open>f\<close> over indices, stopping at the first exception.\<close>

fun for_each :: "(u64 \<Rightarrow> 'b result) \<Rightarrow> u64 list \<Rightarrow> 'b list result" where
  "for_each f [] = Inr []"
| "for_each f (i # is) = bind_result (f i) (\<lambda>y. bind_result (for_each f is) (\<lambda>ys. Inr (y # ys)))"

text \<open>The indices \<open>f\<close> is called on in such a run, the one that throws included.\<close>

fun calls_of :: "(u64 \<Rightarrow> 'b result) \<Rightarrow> u64 list \<Rightarrow> u64 list" where
  "calls_of f [] = []"
| "calls_of f (i # is) = i # (if is_ok (f i) then calls_of f is else [])"

section \<open>\<open>parallelIndexRange\<close>\<close>

definition parallelIndexRange :: "u64 \<Rightarrow> u64 \<Rightarrow> u64 \<Rightarrow> u64 \<Rightarrow> (u64 \<times> u64) list" where
  "parallelIndexRange hw start end_i cpu_num =
     (if start \<ge> end_i then []
      else
        let total_num = end_i - start;
            cpus = (if cpu_num = 0 then hw else cpu_num)
        in if cpus \<le> 1 then [(start, end_i)]
           else
             let per_num = total_num div cpus
             in (if per_num > 0
                 then map (\<lambda>i. (i * per_num + start, i * per_num + start + per_num)) (for_range 0 cpus)
                 else []) @
                map (\<lambda>i. (i, i + 1)) (for_range (per_num * cpus + start) end_i))"

section \<open>\<open>parallel_for\<close>\<close>

text \<open>The task of a range, and the collection of the futures in order.\<close>

definition range_task :: "(u64 \<Rightarrow> 'b result) \<Rightarrow> u64 \<times> u64 \<Rightarrow> 'b list result" where
  "range_task f r = for_each f (for_range (fst r) (snd r))"

fun collect :: "'b list result list \<Rightarrow> 'b list result" where
  "collect [] = Inr []"
| "collect (t # ts) = bind_result t (\<lambda>one. bind_result (collect ts) (\<lambda>ret. Inr (one @ ret)))"

text \<open>
  The number of threads of the pool a call makes for itself, whose creation is taken to succeed.
  \<open>hardware_concurrency()\<close> may be 0 when it is not known: then a submission to the \<open>MQThreadPool\<close> goes
  to the first of no queues, and nobody runs what is submitted to a \<open>ThreadPool\<close>, so that the futures
  are never ready: \<open>None\<close>.
\<close>

definition pool_size :: "u64 \<Rightarrow> u64 \<Rightarrow> u64" where
  "pool_size hw cpu_num = (if cpu_num = 0 then hw else cpu_num)"

definition parallel_for_index ::
  "u64 \<Rightarrow> u64 \<Rightarrow> u64 \<Rightarrow> (u64 \<Rightarrow> 'b result) \<Rightarrow> u64 \<Rightarrow> 'b list result option" where
  "parallel_for_index hw start end_i f cpu_num =
     (let ranges = parallelIndexRange hw start end_i cpu_num
      in if ranges = [] then Some (Inr [])
         else if pool_size hw cpu_num = 0 then None
         else Some (collect (map (range_task f) ranges)))"

text \<open>
  Without results nobody reads the futures: an exception ends its range and is lost. The calls made,
  range by range. \<open>cpu_num\<close> is an \<open>int\<close> here and is converted to \<open>size_t\<close> for the ranges.
\<close>

definition parallel_for_index_void ::
  "u64 \<Rightarrow> u64 \<Rightarrow> u64 \<Rightarrow> (u64 \<Rightarrow> 'b result) \<Rightarrow> 32 word \<Rightarrow> u64 list list option" where
  "parallel_for_index_void hw start end_i f cpu_num =
     (let ranges = parallelIndexRange hw start end_i (scast cpu_num)
      in if ranges = [] then Some []
         else if pool_size hw (scast cpu_num) = 0 then None
         else Some (map (\<lambda>r. calls_of f (for_range (fst r) (snd r))) ranges))"

definition parallel_for_range ::
  "u64 \<Rightarrow> u64 \<Rightarrow> u64 \<Rightarrow> (u64 \<times> u64 \<Rightarrow> 'b list result) \<Rightarrow> u64 \<Rightarrow> 'b list result option" where
  "parallel_for_range hw start end_i f cpu_num =
     (let ranges = parallelIndexRange hw start end_i cpu_num
      in if ranges = [] then Some (Inr [])
         else if pool_size hw cpu_num = 0 then None
         else Some (collect (map f ranges)))"

definition parallel_for_index_single ::
  "u64 \<Rightarrow> u64 \<Rightarrow> u64 \<Rightarrow> (u64 \<Rightarrow> 'b result) \<Rightarrow> u64 \<Rightarrow> 'b list result option" where
  "parallel_for_index_single hw start end_i f cpu_num =
     (if start \<ge> end_i then Some (Inr [])
      else if pool_size hw cpu_num = 0 then None
      else Some (collect (map (\<lambda>i. bind_result (f i) (\<lambda>y. Inr [y])) (for_range start end_i))))"

text \<open>\<open>join\<close> on a \<open>ThreadPool\<close> without threads drops what was submitted.\<close>

definition parallel_for_index_void_single ::
  "u64 \<Rightarrow> u64 \<Rightarrow> u64 \<Rightarrow> (u64 \<Rightarrow> 'b result) \<Rightarrow> 32 word \<Rightarrow> u64 list list" where
  "parallel_for_index_void_single hw start end_i f cpu_num =
     (if start \<ge> end_i \<or> pool_size hw (scast cpu_num) = 0 then []
      else map (\<lambda>i. calls_of f [i]) (for_range start end_i))"

text \<open>
  The functions on the global pool: below the threshold, or in a worker thread when nesting is off,
  the loop runs in the caller; otherwise the pool must exist (\<open>HKU_ASSERT\<close>), \<open>worker_num\<close> being its
  size (\<open>None\<close> without a pool). Here every future is read, so an exception reaches the caller.
\<close>

definition runs_inline :: "u64 \<Rightarrow> u64 \<Rightarrow> u64 \<Rightarrow> bool \<Rightarrow> bool \<Rightarrow> bool" where
  "runs_inline start end_i threshold enable_nested is_work_thread \<longleftrightarrow>
     end_i - start < threshold \<or> (\<not> enable_nested \<and> is_work_thread)"

definition global_parallel_for_index ::
  "u64 \<Rightarrow> u64 option \<Rightarrow> bool \<Rightarrow> u64 \<Rightarrow> u64 \<Rightarrow> (u64 \<Rightarrow> 'b result) \<Rightarrow> u64 \<Rightarrow> bool \<Rightarrow> 'b list result" where
  "global_parallel_for_index hw worker_num is_work_thread start end_i f threshold enable_nested =
     (if start \<ge> end_i then Inr []
      else if runs_inline start end_i threshold enable_nested is_work_thread
      then for_each f (for_range start end_i)
      else case worker_num of
             None \<Rightarrow> Inl HkuException
           | Some n \<Rightarrow>
               (let ranges = parallelIndexRange hw start end_i n
                in if ranges = [] then Inr [] else collect (map (range_task f) ranges)))"

definition global_parallel_for_index_void ::
  "u64 \<Rightarrow> u64 option \<Rightarrow> bool \<Rightarrow> u64 \<Rightarrow> u64 \<Rightarrow> (u64 \<Rightarrow> 'b result) \<Rightarrow> u64 \<Rightarrow> bool \<Rightarrow> unit result" where
  "global_parallel_for_index_void hw worker_num is_work_thread start end_i f threshold enable_nested =
     (if start \<ge> end_i then Inr ()
      else if runs_inline start end_i threshold enable_nested is_work_thread
      then bind_result (for_each f (for_range start end_i)) (\<lambda>_. Inr ())
      else case worker_num of
             None \<Rightarrow> Inl HkuException
           | Some n \<Rightarrow>
               (let ranges = parallelIndexRange hw start end_i n
                in if ranges = [] then Inr ()
                   else bind_result (collect (map (range_task f) ranges)) (\<lambda>_. Inr ())))"

definition global_parallel_for_index_single ::
  "bool \<Rightarrow> bool \<Rightarrow> u64 \<Rightarrow> u64 \<Rightarrow> (u64 \<Rightarrow> 'b result) \<Rightarrow> u64 \<Rightarrow> bool \<Rightarrow> 'b list result" where
  "global_parallel_for_index_single have_pool is_work_thread start end_i f threshold enable_nested =
     (if start \<ge> end_i then Inr []
      else if runs_inline start end_i threshold enable_nested is_work_thread
      then for_each f (for_range start end_i)
      else if \<not> have_pool then Inl HkuException
      else collect (map (\<lambda>i. bind_result (f i) (\<lambda>y. Inr [y])) (for_range start end_i)))"

definition global_parallel_for_index_void_single ::
  "bool \<Rightarrow> bool \<Rightarrow> u64 \<Rightarrow> u64 \<Rightarrow> (u64 \<Rightarrow> 'b result) \<Rightarrow> u64 \<Rightarrow> bool \<Rightarrow> unit result" where
  "global_parallel_for_index_void_single have_pool is_work_thread start end_i f threshold enable_nested =
     (if start \<ge> end_i then Inr ()
      else if runs_inline start end_i threshold enable_nested is_work_thread
      then bind_result (for_each f (for_range start end_i)) (\<lambda>_. Inr ())
      else if \<not> have_pool then Inl HkuException
      else bind_result (collect (map (\<lambda>i. bind_result (f i) (\<lambda>y. Inr [y])) (for_range start end_i))) (\<lambda>_. Inr ()))"

section \<open>The ranges partition the interval\<close>

lemma unat_Suc_less: "unat (a :: u64) < unat (b :: u64) \<Longrightarrow> unat (a + 1) = Suc (unat a)"
  using unat_add_less [of a 1] unat_less_exp [of b] by simp

lemma for_range_upt: "for_range a b = map word_of_nat [unat a..<unat b]"
proof (induction a b rule: for_range.induct)
  case (1 a b)
  show ?case
  proof (cases "a < b")
    case True
    then have lt: "unat a < unat b" by (simp add: word_less_nat_alt)
    have "for_range a b = a # map word_of_nat [Suc (unat a)..<unat b]"
      using True 1 by (subst for_range.simps) (simp add: unat_Suc_less [OF lt])
    then show ?thesis using lt by (simp add: upt_conv_Cons)
  next
    case False
    then show ?thesis by (subst for_range.simps) (simp add: word_less_nat_alt)
  qed
qed

lemma length_for_range [simp]: "length (for_range a b) = unat b - unat a"
  by (simp add: for_range_upt)

lemma for_range_empty [simp]: "b \<le> a \<Longrightarrow> for_range a b = []"
  by (simp add: for_range_upt word_le_nat_alt)

lemma set_for_range [simp]: "set (for_range a b) = {i. a \<le> i \<and> i < b}"
proof -
  have "i \<in> word_of_nat ` {unat a..<unat b} \<longleftrightarrow> a \<le> i \<and> i < b" for i :: u64
  proof
    assume "i \<in> word_of_nat ` {unat a..<unat b}"
    then obtain n where n: "i = word_of_nat n" "unat a \<le> n" "n < unat b" by auto
    then have "unat i = n" using unat_less_exp [of b] by (simp add: unat_of_nat take_bit_nat_eq_self)
    then show "a \<le> i \<and> i < b" using n by (simp add: word_le_nat_alt word_less_nat_alt)
  next
    assume "a \<le> i \<and> i < b"
    then have "unat i \<in> {unat a..<unat b}" by (simp add: word_le_nat_alt word_less_nat_alt)
    then show "i \<in> word_of_nat ` {unat a..<unat b}" 
      using image_eqI [of i word_of_nat "unat i"] by simp
  qed
  then show ?thesis by (auto simp: for_range_upt)
qed

lemma distinct_for_range: "distinct (for_range a b)"
proof -
  have "inj_on (word_of_nat :: nat \<Rightarrow> u64) {unat a..<unat b}"
  proof (rule inj_onI)
    fix m n assume *: "m \<in> {unat a..<unat b}" "n \<in> {unat a..<unat b}" "(word_of_nat m :: u64) = word_of_nat n"
    have "unat (word_of_nat k :: u64) = k" if "k \<in> {unat a..<unat b}" for k
      using that unat_less_exp [of b] by (intro unat_of_nat_less) simp
    then show "m = n" using * by metis
  qed
  then show ?thesis by (simp add: for_range_upt distinct_map)
qed

lemma for_range_append: "a \<le> b \<Longrightarrow> b \<le> c \<Longrightarrow> for_range a b @ for_range b c = for_range a c"
proof -
  assume le: "a \<le> b" "b \<le> c"
  then have "unat a \<le> unat b" "unat b \<le> unat c" by (simp_all add: word_le_nat_alt)
  then have "[unat a..<unat b] @ [unat b..<unat c] = [unat a..<unat c]"
    using upt_add_eq_append [of "unat a" "unat b" "unat c - unat b"] by simp
  then show ?thesis by (simp only: for_range_upt flip: map_append)
qed

lemma for_range_single: "i < b \<Longrightarrow> for_range i (i + 1) = [i]"
  using unat_Suc_less [of i b] by (simp add: for_range_upt word_less_nat_alt)

lemma for_range_singles:
  "concat (map (\<lambda>r. for_range (fst r) (snd r)) (map (\<lambda>i. (i, i + 1)) (for_range a b))) = for_range a b"
proof -
  have "concat (map (\<lambda>i. for_range i (i + 1)) xs) = xs" if "\<forall>i \<in> set xs. i < b" for xs
    using that by (induction xs) (auto intro: for_range_single)
  from this [of "for_range a b"] show ?thesis by (simp add: comp_def)
qed

lemma blocks_concat:
  fixes p s e :: u64
  assumes "unat s + k * unat p \<le> unat e"
  shows "concat (map (\<lambda>i. for_range (word_of_nat i * p + s) (word_of_nat i * p + s + p)) [0..<k]) =
    for_range s (s + word_of_nat k * p) \<and> unat (s + word_of_nat k * p) = unat s + k * unat p"
  using assms
proof (induction k)
  case 0
  then show ?case by simp
next
  case (Suc k)
  let ?m = "s + word_of_nat k * p"
  have IH: "concat (map (\<lambda>i. for_range (word_of_nat i * p + s) (word_of_nat i * p + s + p)) [0..<k]) =
      for_range s ?m" and um: "unat ?m = unat s + k * unat p"
    using Suc by simp_all
  have next_m: "s + word_of_nat (Suc k) * p = ?m + p" by (simp add: algebra_simps)
  have "unat (?m + p) = unat ?m + unat p"
    using Suc.prems um unat_less_exp [of e] by (intro unat_add_less) simp
  then have un: "unat (s + word_of_nat (Suc k) * p) = unat s + Suc k * unat p"
    using um by (simp only: next_m) simp
  have "for_range s ?m @ for_range ?m (?m + p) = for_range s (?m + p)"
    using um \<open>unat (?m + p) = unat ?m + unat p\<close> by (intro for_range_append) (simp_all add: word_le_nat_alt)
  then have "concat (map (\<lambda>i. for_range (word_of_nat i * p + s) (word_of_nat i * p + s + p)) [0..<Suc k]) =
      for_range s (s + word_of_nat (Suc k) * p)"
    using IH by (simp only: next_m) (simp add: add.commute)
  with un show ?case by simp
qed

lemma parallelIndexRange_concat:
  "concat (map (\<lambda>r. for_range (fst r) (snd r)) (parallelIndexRange hw s e n)) = for_range s e"
proof -
  define c where "c = (if n = 0 then hw else n)"
  define p where "p = (e - s) div c"
  show ?thesis
  proof (cases "e \<le> s \<or> c \<le> 1")
    case True
    then show ?thesis
      by (cases "e \<le> s") (simp_all add: parallelIndexRange_def Let_def c_def)
  next
    case False
    then have lt: "unat s < unat e" by (simp add: word_le_nat_alt)
    then have total: "unat (e - s) = unat e - unat s" by (simp add: unat_sub word_le_nat_alt)
    have "unat p = (unat e - unat s) div unat c" by (simp add: p_def total unat_div)
    then have "unat c * unat p \<le> unat e - unat s" by simp
    then have le: "unat s + unat c * unat p \<le> unat e" using lt by linarith
    have m: "p * c + s = s + word_of_nat (unat c) * p" by (simp add: mult.commute add.commute)
    note B = blocks_concat [OF le]
    have bl: "concat (map (\<lambda>r. for_range (fst r) (snd r))
        (map (\<lambda>i. (i * p + s, i * p + s + p)) (for_range 0 c))) = for_range s (p * c + s)"
      using B by (simp add: for_range_upt [of 0] comp_def m)
    have mid: "s \<le> p * c + s" "p * c + s \<le> e"
      using B le by (simp_all only: m word_le_nat_alt)
    have join: "for_range s (p * c + s) @ for_range (p * c + s) e = for_range s e"
      using mid by (rule for_range_append)
    have range: "parallelIndexRange hw s e n =
        (if p > 0 then map (\<lambda>i. (i * p + s, i * p + s + p)) (for_range 0 c) else []) @
        map (\<lambda>i. (i, i + 1)) (for_range (p * c + s) e)"
      using False by (simp add: parallelIndexRange_def Let_def c_def p_def)
    show ?thesis
    proof (cases "p > 0")
      case True
      then show ?thesis
        using join range
        by (simp only: map_append concat_append for_range_singles bl if_True)
    next
      case False
      then have "p = 0" by (simp add: word_gt_0)
      then show ?thesis
        using range for_range_singles [of s e] by simp
    qed
  qed
qed

lemma parallelIndexRange_empty: "parallelIndexRange hw s e n = [] \<longleftrightarrow> \<not> s < e"
proof (cases "s < e")
  case True
  then have "for_range s e \<noteq> []" by (subst for_range.simps) simp
  then show ?thesis using True parallelIndexRange_concat [of hw s e n] by auto
next
  case False
  then have "e \<le> s" by simp
  then show ?thesis by (simp add: parallelIndexRange_def)
qed

section \<open>Parallel and sequential loops agree\<close>

lemma for_each_append:
  "for_each f (xs @ ys) = bind_result (for_each f xs) (\<lambda>a. bind_result (for_each f ys) (\<lambda>b. Inr (a @ b)))"
proof (induction xs)
  case Nil
  then show ?case by (cases "for_each f ys") simp_all
next
  case (Cons x xs)
  then show ?case by (cases "f x"; cases "for_each f xs"; cases "for_each f ys") simp_all
qed

lemma collect_range_tasks:
  "collect (map (range_task f) rs) = for_each f (concat (map (\<lambda>r. for_range (fst r) (snd r)) rs))"
  by (induction rs) (simp_all add: for_each_append range_task_def)

lemma collect_single_tasks:
  "collect (map (\<lambda>i. bind_result (f i) (\<lambda>y. Inr [y])) xs) = for_each f xs"
proof (induction xs)
  case (Cons i xs)
  then show ?case by (cases "f i") simp_all
qed simp

lemma collect_ranges:
  "(if parallelIndexRange hw s e n = [] then Inr []
    else collect (map (range_task f) (parallelIndexRange hw s e n))) = for_each f (for_range s e)"
  using collect_range_tasks [of f "parallelIndexRange hw s e n"] by (auto simp: parallelIndexRange_concat)

lemma calls_of_ok: "\<forall>i \<in> set xs. is_ok (f i) \<Longrightarrow> calls_of f xs = xs"
  by (induction xs) simp_all

lemma for_each_ok: "\<forall>i \<in> set xs. f i = Inr (g i) \<Longrightarrow> for_each f xs = Inr (map g xs)"
  by (induction xs) simp_all

lemma for_each_error:
  "for_each f xs = Inl err \<longleftrightarrow>
    (\<exists>ys x zs. xs = ys @ x # zs \<and> f x = Inl err \<and> (\<forall>y \<in> set ys. is_ok (f y)))"
proof (induction xs)
  case (Cons i xs)
  show ?case
  proof (cases "f i")
    case (Inl e)
    then have "for_each f (i # xs) = Inl err \<longleftrightarrow> e = err" by simp
    moreover have "(\<exists>ys x zs. i # xs = ys @ x # zs \<and> f x = Inl err \<and> (\<forall>y \<in> set ys. is_ok (f y))) \<longleftrightarrow> e = err"
      (is "?L \<longleftrightarrow> _")
    proof
      assume ?L then show "e = err" using Inl by (auto simp: Cons_eq_append_conv)
    next
      assume "e = err"
      then have "i # xs = [] @ i # xs \<and> f i = Inl err \<and> (\<forall>y \<in> set []. is_ok (f y))" using Inl by simp
      then show ?L by blast
    qed
    ultimately show ?thesis by simp
  next
    case (Inr y)
    then have "for_each f (i # xs) = Inl err \<longleftrightarrow> for_each f xs = Inl err"
      by (cases "for_each f xs") simp_all
    moreover have "(\<exists>ys x zs. i # xs = ys @ x # zs \<and> f x = Inl err \<and> (\<forall>y \<in> set ys. is_ok (f y))) \<longleftrightarrow>
        (\<exists>ys x zs. xs = ys @ x # zs \<and> f x = Inl err \<and> (\<forall>y \<in> set ys. is_ok (f y)))" (is "?L \<longleftrightarrow> ?R")
    proof
      assume ?L
      then obtain ys x zs where *: "i # xs = ys @ x # zs" "f x = Inl err" "\<forall>y \<in> set ys. is_ok (f y)" by blast
      then show ?R using Inr by (cases ys) auto
    next
      assume ?R
      then obtain ys x zs where "xs = ys @ x # zs" "f x = Inl err" "\<forall>y \<in> set ys. is_ok (f y)" by blast
      then have "i # xs = (i # ys) @ x # zs \<and> f x = Inl err \<and> (\<forall>y \<in> set (i # ys). is_ok (f y))"
        using Inr by simp
      then show ?L by blast
    qed
    ultimately show ?thesis using Cons by simp
  qed
qed simp

text \<open>
  Property C28: all the \<open>parallel_for\<close> functions that return values compute exactly what the sequential
  loop computes, whatever the number of threads: the values in the order of the indices, or the
  exception of the smallest index that throws one. The functions that make a pool of their own return
  no value in one case, that of a pool without threads: a non-empty interval, the default number
  of threads, and a system that does not know its number of processors.
\<close>
theorem parallel_for_sequential:
  "parallel_for_index hw s e f n =
     (if s < e \<and> n = 0 \<and> hw = 0 then None else Some (for_each f (for_range s e))) \<and>
   parallel_for_range hw s e (range_task f) n =
     (if s < e \<and> n = 0 \<and> hw = 0 then None else Some (for_each f (for_range s e))) \<and>
   parallel_for_index_single hw s e f n =
     (if s < e \<and> n = 0 \<and> hw = 0 then None else Some (for_each f (for_range s e))) \<and>
   global_parallel_for_index hw (Some n) w s e f threshold nested = for_each f (for_range s e) \<and>
   global_parallel_for_index_single True w s e f threshold nested = for_each f (for_range s e)"
proof -
  have empty: "parallelIndexRange hw s e n = [] \<longleftrightarrow> \<not> s < e" by (rule parallelIndexRange_empty)
  have "for_each f (for_range s e) = Inr []" if "\<not> s < e" using that by (subst for_range.simps) simp
  then show ?thesis
    using collect_ranges [of hw s e n f] empty
    by (auto simp: parallel_for_index_def parallel_for_range_def parallel_for_index_single_def pool_size_def
        global_parallel_for_index_def global_parallel_for_index_single_def Let_def collect_single_tasks)
qed

text \<open>
  The \<open>void\<close> functions call \<open>f\<close> on every index of the interval exactly once when no call
  throws; the ones that make their own pool swallow exceptions, and in a range cut short by one the
  indices behind it are skipped without a trace.
\<close>
lemma parallel_for_void_calls:
  "(\<forall>i. s \<le> i \<and> i < e \<longrightarrow> is_ok (f i)) \<Longrightarrow> pool_size hw (scast n) \<noteq> 0 \<Longrightarrow>
   map_option concat (parallel_for_index_void hw s e f n) = Some (for_range s e) \<and>
   concat (parallel_for_index_void_single hw s e f n) = for_range s e \<and> distinct (for_range s e)"
proof -
  assume ok: "\<forall>i. s \<le> i \<and> i < e \<longrightarrow> is_ok (f i)" and pool: "pool_size hw (scast n) \<noteq> 0"
  let ?rs = "parallelIndexRange hw s e (scast n)"
  have sub: "\<forall>r \<in> set ?rs. set (for_range (fst r) (snd r)) \<subseteq> set (for_range s e)"
    unfolding parallelIndexRange_concat [of hw s e "scast n", symmetric] by force
  have "map (\<lambda>r. calls_of f (for_range (fst r) (snd r))) ?rs = map (\<lambda>r. for_range (fst r) (snd r)) ?rs"
  proof (rule map_cong [OF refl], rule calls_of_ok)
    fix r assume "r \<in> set ?rs"
    then have "set (for_range (fst r) (snd r)) \<subseteq> set (for_range s e)" using sub by blast
    then show "\<forall>i \<in> set (for_range (fst r) (snd r)). is_ok (f i)" using ok by (simp add: subset_iff)
  qed
  then have calls: "concat (map (\<lambda>r. calls_of f (for_range (fst r) (snd r))) ?rs) = for_range s e"
    by (simp only: parallelIndexRange_concat)
  moreover have "for_range s e = []" if "?rs = []" using calls that by simp
  moreover have "parallel_for_index_void_single hw s e f n = map (\<lambda>i. [i]) (for_range s e)"
    using ok pool by (auto simp: parallel_for_index_void_single_def)
  moreover have "concat (map (\<lambda>i. [i]) xs) = xs" for xs :: "u64 list" by (induction xs) simp_all
  ultimately show ?thesis
    using pool calls by (auto simp: parallel_for_index_void_def Let_def distinct_for_range)
qed

end
