(* ===== verification/Gregorian.thy ===== *)
theory Gregorian
  imports HkuPrelude
begin

text \<open>
  The Gregorian calendar with its day numbers, as the documentation of \<open>boost::gregorian\<close> describes
  them: dates are counted by the Julian day number. This is the reference the laws about boost and
  the properties of \<open>Datetime\<close> are stated with; the conversion \<open>ymd_of\<close> back from day numbers shows
  that every day number is a date, and makes the concrete calendar of \<open>Datetime\<close> executable.
\<close>

section \<open>Years and months\<close>

definition leap :: "int \<Rightarrow> bool" where
  "leap y \<longleftrightarrow> 4 dvd y \<and> (\<not> 100 dvd y \<or> 400 dvd y)"

definition month_len :: "int \<Rightarrow> int \<Rightarrow> int" where
  "month_len y m =
     (if m = 2 then (if leap y then 29 else 28) else if m \<in> {4, 6, 9, 11} then 30 else 31)"

definition valid_ymd :: "int \<Rightarrow> int \<Rightarrow> int \<Rightarrow> bool" where
  "valid_ymd y m d \<longleftrightarrow> 1 \<le> m \<and> m \<le> 12 \<and> 1 \<le> d \<and> d \<le> month_len y m"

definition days_before_year :: "int \<Rightarrow> int" where
  "days_before_year y = 365 * (y - 1) + (y - 1) div 4 - (y - 1) div 100 + (y - 1) div 400"

definition days_before_month :: "int \<Rightarrow> int \<Rightarrow> int" where
  "days_before_month y m =
     (if m \<le> 1 then 0 else if m = 2 then 31
      else (if leap y then 1 else 0) +
        (if m = 3 then 59 else if m = 4 then 90 else if m = 5 then 120 else if m = 6 then 151
         else if m = 7 then 181 else if m = 8 then 212 else if m = 9 then 243
         else if m = 10 then 273 else if m = 11 then 304 else 334))"

definition jdn :: "int \<Rightarrow> int \<Rightarrow> int \<Rightarrow> int" where
  "jdn y m d = 1721425 + days_before_year y + days_before_month y m + d"

lemma month_cases [consumes 2]:
  fixes m :: int
  assumes "1 \<le> m" "m \<le> 12"
  obtains "m = 1" | "m = 2" | "m = 3" | "m = 4" | "m = 5" | "m = 6" | "m = 7" | "m = 8"
    | "m = 9" | "m = 10" | "m = 11" | "m = 12"
proof -
  have "m = 1 \<or> m = 2 \<or> m = 3 \<or> m = 4 \<or> m = 5 \<or> m = 6 \<or> m = 7 \<or> m = 8 \<or> m = 9 \<or> m = 10 \<or>
    m = 11 \<or> m = 12"
    using assms by presburger
  then show thesis using that by blast
qed

lemma month_len_bounds: "28 \<le> month_len y m" "month_len y m \<le> 31"
  by (simp_all add: month_len_def)

lemma div_next:
  fixes y b :: int
  assumes "0 < b"
  shows "y div b = (y - 1) div b + (if b dvd y then 1 else 0)"
proof (cases "b dvd y")
  case True
  then obtain k where "y = b * k" by blast
  moreover have "(b * k - 1) div b = k - 1"
    using assms by (intro int_div_pos_eq [where r = "b - 1"]) (simp_all add: algebra_simps)
  ultimately show ?thesis using assms by simp
next
  case False
  then have "0 < y mod b" using assms by (metis dvd_eq_mod_eq_0 order_le_less pos_mod_sign)
  moreover have "y mod b < b" using assms by simp
  ultimately have "(y - 1) div b = y div b"
    by (intro int_div_pos_eq [where r = "y mod b - 1"]) (simp_all add: algebra_simps)
  with False show ?thesis by simp
qed

lemma leap_count:
  fixes a b c a' b' c' y :: int
  assumes "q \<longrightarrow> p" "r \<longrightarrow> q" "a' = a + (if p then 1 else 0)"
    "b' = b + (if q then 1 else 0)" "c' = c + (if r then 1 else 0)"
  shows "365 * y + a' - b' + c' =
    365 * (y - 1) + a - b + c + (if p \<and> (\<not> q \<or> r) then 366 else 365)"
  using assms by (cases p; cases q; cases r; simp)

lemma days_before_year_Suc:
  "days_before_year (y + 1) = days_before_year y + (if leap y then 366 else 365)"
proof -
  have "(4 :: int) dvd 100" "(100 :: int) dvd 400" by simp_all
  then have "100 dvd y \<longrightarrow> 4 dvd y" "400 dvd y \<longrightarrow> 100 dvd y" by (blast intro: dvd_trans)+
  moreover have "y div 4 = (y - 1) div 4 + (if 4 dvd y then 1 else 0)"
    "y div 100 = (y - 1) div 100 + (if 100 dvd y then 1 else 0)"
    "y div 400 = (y - 1) div 400 + (if 400 dvd y then 1 else 0)"
    by (rule div_next; simp)+
  ultimately have "365 * y + y div 4 - y div 100 + y div 400 =
      days_before_year y + (if leap y then 366 else 365)"
    unfolding leap_def days_before_year_def by (rule leap_count)
  then show ?thesis by (simp only: days_before_year_def add_diff_cancel_right')
qed

text \<open>The day after the last of a month is the first of the next one.\<close>

lemma jdn_next_month:
  "1 \<le> m \<Longrightarrow> m < 12 \<Longrightarrow> jdn y m (month_len y m) + 1 = jdn y (m + 1) 1"
  by (cases m rule: month_cases) (simp_all add: jdn_def days_before_month_def month_len_def)

lemma jdn_next_year: "jdn y 12 31 + 1 = jdn (y + 1) 1 1"
  by (simp add: jdn_def days_before_month_def days_before_year_Suc)

lemma jdn_add: "jdn y m d + n = jdn y m (d + n)"
  by (simp add: jdn_def)

section \<open>Order\<close>

lemma days_before_month_step:
  "1 \<le> m \<Longrightarrow> m < m' \<Longrightarrow> m' \<le> 12 \<Longrightarrow> days_before_month y m + month_len y m \<le> days_before_month y m'"
proof -
  assume a: "1 \<le> m" "m < m'" "m' \<le> 12"
  then show ?thesis
  proof (induct "nat (m' - m)" arbitrary: m)
    case 0
    then show ?case by simp
  next
    case (Suc k)
    have step: "days_before_month y m + month_len y m = days_before_month y (m + 1)"
      using jdn_next_month [of m y] Suc.prems by (simp add: jdn_def)
    show ?case
    proof (cases "m + 1 = m'")
      case True
      with step show ?thesis by simp
    next
      case False
      with Suc.prems have "m + 1 < m'" by simp
      with Suc have "days_before_month y (m + 1) + month_len y (m + 1) \<le> days_before_month y m'"
        by simp
      with step month_len_bounds(1) [of y "m + 1"] show ?thesis by simp
    qed
  qed
qed

lemma day_of_year_bound:
  assumes "valid_ymd y m d"
  shows "1 \<le> days_before_month y m + d"
    and "days_before_month y m + d \<le> (if leap y then 366 else 365)"
proof -
  from assms have "1 \<le> m" "m \<le> 12" "1 \<le> d" "d \<le> month_len y m" by (simp_all add: valid_ymd_def)
  then show "1 \<le> days_before_month y m + d"
    and "days_before_month y m + d \<le> (if leap y then 366 else 365)"
    by (cases m rule: month_cases; simp add: days_before_month_def month_len_def split: if_splits)+
qed

lemma days_before_year_mono:
  assumes "y < y'"
  shows "days_before_year y + (if leap y then 366 else 365) \<le> days_before_year y'"
proof -
  have "days_before_year (y + 1) \<le> days_before_year (y + 1 + int k)" for k
  proof (induct k)
    case (Suc k)
    have "y + 1 + int (Suc k) = (y + 1 + int k) + 1" by simp
    then have "days_before_year (y + 1 + int k) \<le> days_before_year (y + 1 + int (Suc k))"
      by (simp only: days_before_year_Suc) simp
    with Suc show ?case by (rule order_trans)
  qed simp
  from this [of "nat (y' - (y + 1))"] have "days_before_year (y + 1) \<le> days_before_year y'"
    using assms by simp
  then show ?thesis by (simp only: days_before_year_Suc)
qed

lemma jdn_less:
  assumes "valid_ymd y m d" "valid_ymd y' m' d'"
    and "y < y' \<or> y = y' \<and> (m < m' \<or> m = m' \<and> d < d')"
  shows "jdn y m d < jdn y' m' d'"
  using assms(3)
proof (elim disjE conjE)
  assume "y < y'"
  with days_before_year_mono [of y y'] day_of_year_bound [OF assms(1)] day_of_year_bound [OF assms(2)]
  show ?thesis by (simp add: jdn_def)
next
  assume "y = y'" "m < m'"
  with days_before_month_step [of m m' y] assms(1,2) show ?thesis
    by (simp add: jdn_def valid_ymd_def)
qed (simp add: jdn_def)

lemma jdn_less_iff:
  assumes "valid_ymd y m d" "valid_ymd y' m' d'"
  shows "jdn y m d < jdn y' m' d' \<longleftrightarrow> y < y' \<or> y = y' \<and> (m < m' \<or> m = m' \<and> d < d')"
proof (cases "y < y' \<or> y = y' \<and> (m < m' \<or> m = m' \<and> d < d')")
  case True
  with assms show ?thesis by (simp add: jdn_less)
next
  case False
  then consider "y = y'" "m = m'" "d = d'" | "y' < y \<or> y' = y \<and> (m' < m \<or> m' = m \<and> d' < d)"
    by linarith
  then show ?thesis
    by cases (use False jdn_less [OF assms(2,1)] in auto)
qed

lemma jdn_inject:
  assumes "valid_ymd y m d" "valid_ymd y' m' d'" "jdn y m d = jdn y' m' d'"
  shows "y = y' \<and> m = m' \<and> d = d'"
  using jdn_less_iff [OF assms(1,2)] jdn_less_iff [OF assms(2,1)] assms(3) by auto

section \<open>From a day number to its date\<close>

text \<open>
  Days since 0001-01-01 split into cycles of 400 years, centuries, cycles of 4 years and years; the
  last day of a leap cycle would otherwise count into a fifth century or a fifth year.
\<close>

definition year_split :: "int \<Rightarrow> int \<times> int" where
  "year_split n =
     (let q400 = n div 146097; r = n mod 146097;
          q100 = min 3 (r div 36524); r = r - 36524 * q100;
          q4 = r div 1461; r = r mod 1461;
          q1 = min 3 (r div 365)
      in (400 * q400 + 100 * q100 + 4 * q4 + q1 + 1, r - 365 * q1))"

definition month_split :: "int \<Rightarrow> int \<Rightarrow> int \<times> int" where
  "month_split y r =
     (let m = (if r \<ge> days_before_month y 12 then 12 else if r \<ge> days_before_month y 11 then 11
               else if r \<ge> days_before_month y 10 then 10 else if r \<ge> days_before_month y 9 then 9
               else if r \<ge> days_before_month y 8 then 8 else if r \<ge> days_before_month y 7 then 7
               else if r \<ge> days_before_month y 6 then 6 else if r \<ge> days_before_month y 5 then 5
               else if r \<ge> days_before_month y 4 then 4 else if r \<ge> days_before_month y 3 then 3
               else if r \<ge> days_before_month y 2 then 2 else 1)
      in (m, r - days_before_month y m + 1))"

definition ymd_of :: "int \<Rightarrow> int \<times> int \<times> int" where
  "ymd_of n = (let (y, r) = year_split (n - 1721426) in (y, month_split y r))"

lemma dvd_remainder: "0 < x \<Longrightarrow> x \<le> n \<Longrightarrow> n dvd n * k + x \<longleftrightarrow> x = n" for x n k :: int
  using zdvd_imp_le [of n x] by (auto simp: dvd_add_right_iff)

lemma days_before_cycles:
  fixes a b c e :: int
  assumes "0 \<le> b" "b \<le> 3" "0 \<le> c" "c \<le> 24" "0 \<le> e" "e \<le> 3"
  shows "days_before_year (400 * a + 100 * b + 4 * c + e + 1) =
      146097 * a + 36524 * b + 1461 * c + 365 * e"
    and "leap (400 * a + 100 * b + 4 * c + e + 1) \<longleftrightarrow> e = 3 \<and> (c \<noteq> 24 \<or> b = 3)"
proof -
  let ?y = "400 * a + 100 * b + 4 * c + e"
  have "?y div 4 = 100 * a + 25 * b + c"
    using assms by (intro int_div_pos_eq [where r = e]) simp_all
  moreover have "?y div 100 = 4 * a + b"
    using assms by (intro int_div_pos_eq [where r = "4 * c + e"]) simp_all
  moreover have "?y div 400 = a"
    using assms by (intro int_div_pos_eq [where r = "100 * b + 4 * c + e"]) simp_all
  ultimately show "days_before_year (?y + 1) = 146097 * a + 36524 * b + 1461 * c + 365 * e"
    by (simp add: days_before_year_def)
  have y: "?y + 1 = 4 * (100 * a + 25 * b + c) + (e + 1)"
    "?y + 1 = 100 * (4 * a + b) + (4 * c + e + 1)"
    "?y + 1 = 400 * a + (100 * b + 4 * c + e + 1)" by simp_all
  have "4 dvd ?y + 1 \<longleftrightarrow> e + 1 = 4"
    unfolding y(1) by (rule dvd_remainder) (use assms in simp_all)
  moreover have "100 dvd ?y + 1 \<longleftrightarrow> 4 * c + e + 1 = 100"
    unfolding y(2) by (rule dvd_remainder) (use assms in simp_all)
  moreover have "400 dvd ?y + 1 \<longleftrightarrow> 100 * b + 4 * c + e + 1 = 400"
    unfolding y(3) by (rule dvd_remainder) (use assms in simp_all)
  moreover have "e + 1 = 4 \<longleftrightarrow> e = 3" by linarith
  moreover have "4 * c + e + 1 = 100 \<longleftrightarrow> e = 3 \<and> c = 24" using assms by linarith
  moreover have "100 * b + 4 * c + e + 1 = 400 \<longleftrightarrow> e = 3 \<and> c = 24 \<and> b = 3" using assms by linarith
  ultimately show "leap (?y + 1) \<longleftrightarrow> e = 3 \<and> (c \<noteq> 24 \<or> b = 3)"
    unfolding leap_def by blast
qed

lemma cap_div:
  fixes r b k :: int
  assumes "0 \<le> r" "0 < b" "0 \<le> k" "r < b * (k + 1) + 1"
  defines "q \<equiv> min k (r div b)"
  shows "0 \<le> q" "q \<le> k" "0 \<le> r - b * q" "r - b * q < b \<or> q = k \<and> r - b * q = b"
proof -
  have d: "r = b * (r div b) + r mod b" "0 \<le> r mod b" "r mod b < b" using assms by simp_all
  have "0 \<le> r div b" using assms by (simp add: pos_imp_zdiv_nonneg_iff)
  then show "0 \<le> q" "q \<le> k" using assms by simp_all
  show "0 \<le> r - b * q" "r - b * q < b \<or> q = k \<and> r - b * q = b"
  proof -
    consider "r div b \<le> k" | "k < r div b" by linarith
    then have "0 \<le> r - b * q \<and> (r - b * q < b \<or> q = k \<and> r - b * q = b)"
    proof cases
      case 1
      then have "r - b * q = r mod b" by (simp add: q_def minus_mult_div_eq_mod)
      with d show ?thesis by simp
    next
      case 2
      then have "b * (k + 1) \<le> b * (r div b)" using assms(2) by simp
      with d assms(4) have "r = b * (k + 1)" by linarith
      moreover have "q = k" using 2 by (simp add: q_def)
      ultimately show ?thesis using assms(2) by (simp add: algebra_simps)
    qed
    then show "0 \<le> r - b * q" "r - b * q < b \<or> q = k \<and> r - b * q = b" by blast+
  qed
qed

lemma year_split_spec:
  assumes "year_split n = (y, r)"
  shows "n = days_before_year y + r \<and> 0 \<le> r \<and> r < (if leap y then 366 else 365)"
proof -
  define a where "a = n div 146097"
  define r1 where "r1 = n mod 146097"
  define b where "b = min 3 (r1 div 36524)"
  define r2 where "r2 = r1 - 36524 * b"
  define c where "c = r2 div 1461"
  define r3 where "r3 = r2 mod 1461"
  define e where "e = min 3 (r3 div 365)"
  have "(y, r) = (400 * a + 100 * b + 4 * c + e + 1, r3 - 365 * e)"
    unfolding a_def r1_def b_def r2_def c_def r3_def e_def
    using assms [unfolded year_split_def Let_def] by (rule sym)
  then have y: "y = 400 * a + 100 * b + 4 * c + e + 1" and r: "r = r3 - 365 * e"
    by (simp_all only: prod.inject)
  have n: "n = 146097 * a + r1" "0 \<le> r1" "r1 < 146097"
    unfolding a_def r1_def by (simp_all only: mult_div_mod_eq pos_mod_sign pos_mod_bound zero_less_numeral)
  have b: "0 \<le> b" "b \<le> 3" "0 \<le> r2" "r2 < 36524 \<or> b = 3 \<and> r2 = 36524"
    unfolding r2_def b_def by (rule cap_div; use n(2,3) in simp)+
  have r2: "r2 = 1461 * c + r3" "0 \<le> r3" "r3 < 1461"
    unfolding c_def r3_def by (simp_all only: mult_div_mod_eq pos_mod_sign pos_mod_bound zero_less_numeral)
  have c: "0 \<le> c" "c \<le> 24" "c = 24 \<longrightarrow> r3 < 1460 \<or> b = 3" using b(3,4) r2 by linarith+
  have e: "0 \<le> e" "e \<le> 3" "0 \<le> r" "r < 365 \<or> e = 3 \<and> r = 365"
    unfolding r e_def by (rule cap_div; use r2(2,3) in simp)+
  have "n = days_before_year y + r"
    using days_before_cycles(1) [of b c e a] b(1,2) c(1,2) e(1,2) n(1) r2(1)
    by (simp add: y r r2_def)
  moreover have "r < (if leap y then 366 else 365)"
  proof -
    have "leap y \<longleftrightarrow> e = 3 \<and> (c \<noteq> 24 \<or> b = 3)"
      unfolding y by (rule days_before_cycles(2)) (use b c e in simp_all)
    moreover have "r3 = r + 365 * e" by (simp add: r)
    ultimately show ?thesis using c(3) e(4) by (cases "leap y") auto
  qed
  ultimately show ?thesis using e(3) by simp
qed

lemma dbm_num:
  "days_before_month y 1 = 0" "days_before_month y 2 = 31"
  "days_before_month y 3 = 59 + (if leap y then 1 else 0)"
  "days_before_month y 4 = 90 + (if leap y then 1 else 0)"
  "days_before_month y 5 = 120 + (if leap y then 1 else 0)"
  "days_before_month y 6 = 151 + (if leap y then 1 else 0)"
  "days_before_month y 7 = 181 + (if leap y then 1 else 0)"
  "days_before_month y 8 = 212 + (if leap y then 1 else 0)"
  "days_before_month y 9 = 243 + (if leap y then 1 else 0)"
  "days_before_month y 10 = 273 + (if leap y then 1 else 0)"
  "days_before_month y 11 = 304 + (if leap y then 1 else 0)"
  "days_before_month y 12 = 334 + (if leap y then 1 else 0)"
  by (simp_all add: days_before_month_def)

lemma month_split_spec:
  assumes "0 \<le> r" "r < (if leap y then 366 else 365)" "month_split y r = (m, d)"
  shows "valid_ymd y m d \<and> days_before_month y m + d = r + 1"
proof -
  show ?thesis
    using assms unfolding month_split_def Let_def
    by (cases "leap y"; simp add: dbm_num split: if_splits; auto simp: dbm_num valid_ymd_def month_len_def)
qed

lemma ymd_of_jdn: "ymd_of n = (y, m, d) \<longleftrightarrow> valid_ymd y m d \<and> jdn y m d = n"
proof -
  obtain y0 r where s: "year_split (n - 1721426) = (y0, r)" by fastforce
  obtain m0 d0 where t: "month_split y0 r = (m0, d0)" by fastforce
  note ys = year_split_spec [OF s]
  have v: "valid_ymd y0 m0 d0" "days_before_month y0 m0 + d0 = r + 1"
    using month_split_spec [OF _ _ t] ys by simp_all
  have j: "jdn y0 m0 d0 = n" using v(2) ys by (simp add: jdn_def)
  have of_n: "ymd_of n = (y0, m0, d0)" by (simp add: ymd_of_def s t)
  show ?thesis
  proof
    assume "ymd_of n = (y, m, d)"
    with of_n v(1) j show "valid_ymd y m d \<and> jdn y m d = n" by simp
  next
    assume "valid_ymd y m d \<and> jdn y m d = n"
    with jdn_inject [OF _ v(1), of y m d] j of_n show "ymd_of n = (y, m, d)" by simp
  qed
qed

lemma jdn_ymd_of: "jdn (fst (ymd_of n)) (fst (snd (ymd_of n))) (snd (snd (ymd_of n))) = n"
  and valid_ymd_of: "valid_ymd (fst (ymd_of n)) (fst (snd (ymd_of n))) (snd (snd (ymd_of n)))"
  using ymd_of_jdn [of n "fst (ymd_of n)" "fst (snd (ymd_of n))" "snd (snd (ymd_of n))"] by simp_all

lemma ymd_of_inverse: "valid_ymd y m d \<Longrightarrow> ymd_of (jdn y m d) = (y, m, d)"
  by (simp add: ymd_of_jdn)

section \<open>Days of the week\<close>

text \<open>Sunday is 0: the day number 0 was a Monday.\<close>

definition weekday :: "int \<Rightarrow> int" where
  "weekday n = (n + 1) mod 7"

lemma weekday_bounds: "0 \<le> weekday n" "weekday n < 7" "weekday n \<le> 6"
  using pos_mod_bound [of 7 "n + 1"] by (simp_all add: weekday_def)

lemma weekday_example: "weekday (jdn 2024 2 29) = 4"
  by (simp add: weekday_def jdn_def days_before_year_def days_before_month_def)

end
