(* ===== verification/Datetime.thy ===== *)
theory Datetime
  imports Gregorian StringUtil TimeDelta
begin

text \<open>
  \<open>hikyuu/utilities/datetime/Datetime.{h,cpp}\<close>: points in time over \<open>boost::posix_time::ptime\<close> and
  \<open>boost::gregorian::date\<close>. Both are parameters: a record of the operations the class calls, and
  the locale \<open>boost_datetime\<close> with what boost documents of them, in terms of day numbers
  (\<open>Gregorian\<close>) and microseconds. The interpretation at the end of the definitions is a calendar
  that computes. Values of \<open>long\<close> and \<open>int64_t\<close> are integers, values of \<open>uint64_t\<close> are words; the
  clock and the zone offset of the system are arguments. Not modelled: \<open>to_time_t\<close> (\<open>mktime\<close>).
\<close>

section \<open>The boost types\<close>

record ('b, 'p, 'd) datetime_ops =
  dur :: "'d duration_ops"
  hms_of :: "int \<Rightarrow> int \<Rightarrow> int \<Rightarrow> int \<Rightarrow> 'd"   \<comment> \<open>\<open>time_duration(h, m, s, fractional)\<close>\<close>
  frac_of :: "'d \<Rightarrow> int"                        \<comment> \<open>\<open>fractional_seconds()\<close>\<close>
  duration_from_string :: "string \<Rightarrow> 'd result"
  bd_ymd :: "int \<Rightarrow> int \<Rightarrow> int \<Rightarrow> 'b result"      \<comment> \<open>\<open>date(year, month, day)\<close>\<close>
  bd_pos_infin :: 'b
  bd_min_date_time :: 'b
  bd_max_date_time :: 'b
  bd_from_string :: "string \<Rightarrow> 'b result"
  bd_from_undelimited_string :: "string \<Rightarrow> 'b result"
  bd_year :: "'b \<Rightarrow> int result"
  bd_month :: "'b \<Rightarrow> int result"
  bd_day :: "'b \<Rightarrow> int result"
  bd_day_of_week :: "'b \<Rightarrow> int result"
  bd_day_of_year :: "'b \<Rightarrow> int result"
  bd_end_of_month :: "'b \<Rightarrow> 'b result"
  bd_plus :: "'b \<Rightarrow> int \<Rightarrow> 'b"
  bd_minus :: "'b \<Rightarrow> int \<Rightarrow> 'b"
  bd_eq :: "'b \<Rightarrow> 'b \<Rightarrow> bool"
  bt_ptime :: "'b \<Rightarrow> 'd \<Rightarrow> 'p"
  bt_from_iso_string :: "string \<Rightarrow> 'p result"
  bt_time_from_string :: "string \<Rightarrow> 'p result"
  bt_date :: "'p \<Rightarrow> 'b"
  bt_time_of_day :: "'p \<Rightarrow> 'd"
  bt_plus :: "'p \<Rightarrow> 'd \<Rightarrow> 'p"
  bt_minus :: "'p \<Rightarrow> 'd \<Rightarrow> 'p"
  bt_diff :: "'p \<Rightarrow> 'p \<Rightarrow> 'd"
  bt_eq :: "'p \<Rightarrow> 'p \<Rightarrow> bool"
  bt_less :: "'p \<Rightarrow> 'p \<Rightarrow> bool"

section \<open>Definitions\<close>

record 'p datetime =
  m_data :: 'p

definition null_u64 :: u64 where
  "null_u64 = - 1"

text \<open>\<open>(unsigned short)x\<close>; and a \<open>noexcept\<close> function that turns every exception into the null value.\<close>

definition ushort :: "int \<Rightarrow> int" where
  "ushort x = x mod 65536"

definition or_null :: "u64 result \<Rightarrow> u64" where
  "or_null m = (case m of Inl e \<Rightarrow> null_u64 | Inr v \<Rightarrow> v)"

subsection \<open>Construction\<close>

definition dt_of_date :: "('b, 'p, 'd) datetime_ops \<Rightarrow> 'b \<Rightarrow> 'p datetime" where
  "dt_of_date X d = \<lparr>m_data = bt_ptime X d (hms_of X 0 0 0 0)\<rparr>"

definition dt_of_ptime :: "'p \<Rightarrow> 'p datetime" where
  "dt_of_ptime p = \<lparr>m_data = p\<rparr>"

definition dt_Null :: "('b, 'p, 'd) datetime_ops \<Rightarrow> 'p datetime" where
  "dt_Null X = \<lparr>m_data = bt_ptime X (bd_pos_infin X) (hms_of X 0 0 0 0)\<rparr>"

definition dt_full :: "('b, 'p, 'd) datetime_ops \<Rightarrow> int \<Rightarrow> int \<Rightarrow> int \<Rightarrow> int \<Rightarrow> int \<Rightarrow> int \<Rightarrow> int \<Rightarrow> int \<Rightarrow>
    'p datetime result" where
  "dt_full X year month day hh mm sec millisec microsec =
     (if \<not> (millisec \<ge> 0 \<and> millisec \<le> 999) then Inl HkuException
      else if \<not> (microsec \<ge> 0 \<and> microsec \<le> 999) then Inl HkuException
      else bind_result (bd_ymd X (ushort year) (ushort month) (ushort day)) (\<lambda>d.
        Inr \<lparr>m_data = bt_ptime X d (hms_of X hh mm sec (millisec * 1000 + microsec))\<rparr>))"

text \<open>\<open>Datetime(year, month, day)\<close>: the other arguments are 0 by default.\<close>

definition dt_ymd :: "('b, 'p, 'd) datetime_ops \<Rightarrow> int \<Rightarrow> int \<Rightarrow> int \<Rightarrow> 'p datetime result" where
  "dt_ymd X year month day = dt_full X year month day 0 0 0 0 0"

text \<open>
  From a number of the form YYYYMMDD, YYYYMMDDhhmm or YYYYMMDDhhmmss. The quotients and remainders
  are those of the value: no unsigned operation of the code wraps around here.
\<close>

definition dt_of_number :: "('b, 'p, 'd) datetime_ops \<Rightarrow> u64 \<Rightarrow> 'p datetime result" where
  "dt_of_number X number =
     (if number = null_u64 then Inr \<lparr>m_data = bt_ptime X (bd_pos_infin X) (hms_of X 0 0 0 0)\<rparr>
      else let datetime = uint number in
      if datetime \<le> 99999999 then
        let year = datetime div 10000;
            month = (datetime - year * 10000) div 100;
            day = datetime - datetime div 100 * 100
        in bind_result (bd_ymd X (ushort year) (ushort month) (ushort day)) (\<lambda>d.
             Inr \<lparr>m_data = bt_ptime X d (hms_of X 0 0 0 0)\<rparr>)
      else if datetime \<le> 999999999999 then
        let year = datetime div 100000000;
            month = (datetime - year * 100000000) div 1000000;
            day = (datetime - datetime div 1000000 * 1000000) div 10000;
            hh = (datetime - datetime div 10000 * 10000) div 100;
            mm = datetime - datetime div 100 * 100
        in if \<not> hh < 24 then Inl OutOfRange
           else if \<not> mm < 60 then Inl OutOfRange
           else bind_result (bd_ymd X (ushort year) (ushort month) (ushort day)) (\<lambda>d.
             Inr \<lparr>m_data = bt_ptime X d (hms_of X (ushort hh) (ushort mm) 0 0)\<rparr>)
      else if datetime \<le> 99999999999999 then
        let year = datetime div 10000000000;
            month = (datetime - year * 10000000000) div 100000000;
            day = (datetime - datetime div 100000000 * 100000000) div 1000000;
            hh = (datetime - datetime div 1000000 * 1000000) div 10000;
            mm = (datetime - datetime div 10000 * 10000) div 100;
            ss = datetime - datetime div 100 * 100
        in if \<not> hh < 24 then Inl OutOfRange
           else if \<not> mm < 60 then Inl OutOfRange
           else bind_result (bd_ymd X (ushort year) (ushort month) (ushort day)) (\<lambda>d.
             Inr \<lparr>m_data = bt_ptime X d (hms_of X (ushort hh) (ushort mm) ss 0)\<rparr>)
      else Inl OutOfRange)"

definition dt_fromHex :: "('b, 'p, 'd) datetime_ops \<Rightarrow> u64 \<Rightarrow> 'p datetime result" where
  "dt_fromHex X time =
     (if null_u64 = time then Inr (dt_Null X)
      else let second = 0xFF AND time;
               minute = drop_bit 8 (0xFF00 AND time);
               hour = drop_bit 16 (0xFF0000 AND time);
               day = drop_bit 24 (0xFF000000 AND time);
               month = drop_bit 32 (0xFF00000000 AND time);
               low_y = drop_bit 40 (0xFF0000000000 AND time);
               high_y = drop_bit 48 (0xFF000000000000 AND time);
               year = high_y * 100 + low_y
           in dt_full X (sint year) (sint month) (sint day) (sint hour) (sint minute) (sint second) 0 0)"

text \<open>The string constructor: which of boost's parsers reads the trimmed, upper-case text.\<close>

definition dt_of_string :: "('b, 'p, 'd) datetime_ops \<Rightarrow> string \<Rightarrow> 'p datetime result" where
  "dt_of_string X ts =
     (if \<not> length ts \<ge> 8 then Inl HkuException
      else let timeStr = trim ts in
      if timeStr = ''+infinity''
      then Inr \<lparr>m_data = bt_ptime X (bd_pos_infin X) (hms_of X 0 0 0 0)\<rparr>
      else let timeStr = to_upper timeStr in
      if find_char_from timeStr (CHR ''T'') 0 \<noteq> None
      then bind_result (bt_from_iso_string X timeStr) (\<lambda>p. Inr \<lparr>m_data = p\<rparr>)
      else let pos1 = find_char_from timeStr (CHR ''-'') 0;
               pos2 = find_char_from timeStr (CHR ''/'') 0
        in case find_char_from timeStr (CHR '' '') 0 of
             None \<Rightarrow>
               bind_result (if pos1 \<noteq> None \<or> pos2 \<noteq> None then bd_from_string X timeStr
                            else bd_from_undelimited_string X timeStr)
                 (\<lambda>d. Inr \<lparr>m_data = bt_ptime X d (hms_of X 0 0 0 0)\<rparr>)
           | Some pos \<Rightarrow>
               (if pos1 \<noteq> None \<or> pos2 \<noteq> None
                then bind_result (bt_time_from_string X timeStr) (\<lambda>p. Inr \<lparr>m_data = p\<rparr>)
                else bind_result (bd_from_undelimited_string X (take pos timeStr)) (\<lambda>d.
                  bind_result (duration_from_string X (drop (pos + 1) timeStr)) (\<lambda>t.
                  Inr \<lparr>m_data = bt_ptime X d t\<rparr>))))"

subsection \<open>Comparison\<close>

definition dt_eq :: "('b, 'p, 'd) datetime_ops \<Rightarrow> 'p datetime \<Rightarrow> 'p datetime \<Rightarrow> bool" where
  "dt_eq X d1 d2 = bt_eq X (m_data d1) (m_data d2)"

definition dt_greater :: "('b, 'p, 'd) datetime_ops \<Rightarrow> 'p datetime \<Rightarrow> 'p datetime \<Rightarrow> bool" where
  "dt_greater X d1 d2 = bt_less X (m_data d2) (m_data d1)"

definition dt_less :: "('b, 'p, 'd) datetime_ops \<Rightarrow> 'p datetime \<Rightarrow> 'p datetime \<Rightarrow> bool" where
  "dt_less X d1 d2 = bt_less X (m_data d1) (m_data d2)"

definition dt_isNull :: "('b, 'p, 'd) datetime_ops \<Rightarrow> 'p datetime \<Rightarrow> bool" where
  "dt_isNull X d = bt_eq X (m_data d) (bt_ptime X (bd_pos_infin X) (hms_of X 0 0 0 0))"

subsection \<open>Fields\<close>

definition dt_date :: "('b, 'p, 'd) datetime_ops \<Rightarrow> 'p datetime \<Rightarrow> 'b" where
  "dt_date X d = bt_date X (m_data d)"

definition dt_year :: "('b, 'p, 'd) datetime_ops \<Rightarrow> 'p datetime \<Rightarrow> int result" where
  "dt_year X d = (if dt_isNull X d then Inl LogicError else bd_year X (bt_date X (m_data d)))"

definition dt_month :: "('b, 'p, 'd) datetime_ops \<Rightarrow> 'p datetime \<Rightarrow> int result" where
  "dt_month X d = (if dt_isNull X d then Inl LogicError else bd_month X (bt_date X (m_data d)))"

definition dt_day :: "('b, 'p, 'd) datetime_ops \<Rightarrow> 'p datetime \<Rightarrow> int result" where
  "dt_day X d = (if dt_isNull X d then Inl LogicError else bd_day X (bt_date X (m_data d)))"

definition dt_hour :: "('b, 'p, 'd) datetime_ops \<Rightarrow> 'p datetime \<Rightarrow> int result" where
  "dt_hour X d =
     (if dt_isNull X d then Inl LogicError else Inr (hours_of (dur X) (bt_time_of_day X (m_data d))))"

definition dt_minute :: "('b, 'p, 'd) datetime_ops \<Rightarrow> 'p datetime \<Rightarrow> int result" where
  "dt_minute X d =
     (if dt_isNull X d then Inl LogicError else Inr (minutes_of (dur X) (bt_time_of_day X (m_data d))))"

definition dt_second :: "('b, 'p, 'd) datetime_ops \<Rightarrow> 'p datetime \<Rightarrow> int result" where
  "dt_second X d =
     (if dt_isNull X d then Inl LogicError else Inr (seconds_of (dur X) (bt_time_of_day X (m_data d))))"

definition dt_millisecond :: "('b, 'p, 'd) datetime_ops \<Rightarrow> 'p datetime \<Rightarrow> int result" where
  "dt_millisecond X d =
     (if dt_isNull X d then Inl LogicError else Inr (frac_of X (bt_time_of_day X (m_data d)) sdiv 1000))"

definition dt_microsecond :: "('b, 'p, 'd) datetime_ops \<Rightarrow> 'p datetime \<Rightarrow> int result" where
  "dt_microsecond X d =
     (if dt_isNull X d then Inl LogicError else Inr (frac_of X (bt_time_of_day X (m_data d)) smod 1000))"

definition dt_dayOfWeek :: "('b, 'p, 'd) datetime_ops \<Rightarrow> 'p datetime \<Rightarrow> int result" where
  "dt_dayOfWeek X d = bd_day_of_week X (dt_date X d)"

definition dt_dayOfYear :: "('b, 'p, 'd) datetime_ops \<Rightarrow> 'p datetime \<Rightarrow> int result" where
  "dt_dayOfYear X d = bd_day_of_year X (dt_date X d)"

subsection \<open>Limits, the clock\<close>

definition dt_min :: "('b, 'p, 'd) datetime_ops \<Rightarrow> 'p datetime result" where
  "dt_min X = (let d = bd_min_date_time X in
     bind_result (bd_year X d) (\<lambda>y. bind_result (bd_month X d) (\<lambda>m. bind_result (bd_day X d) (\<lambda>dd.
       dt_ymd X y m dd))))"

definition dt_max :: "('b, 'p, 'd) datetime_ops \<Rightarrow> 'p datetime result" where
  "dt_max X = (let d = bd_max_date_time X in
     bind_result (bd_year X d) (\<lambda>y. bind_result (bd_month X d) (\<lambda>m. bind_result (bd_day X d) (\<lambda>dd.
       dt_ymd X y m dd))))"

definition dt_now :: "'p \<Rightarrow> 'p datetime" where
  "dt_now local_time = dt_of_ptime local_time"

definition dt_today :: "('b, 'p, 'd) datetime_ops \<Rightarrow> 'p \<Rightarrow> 'p datetime result" where
  "dt_today X local_time = (let x = dt_now local_time in
     bind_result (dt_year X x) (\<lambda>y. bind_result (dt_month X x) (\<lambda>m. bind_result (dt_day X x) (\<lambda>d.
       dt_ymd X y m d))))"

text \<open>\<open>if (result > max()) result = max()\<close>, and its counterpart.\<close>

definition at_most_max :: "('b, 'p, 'd) datetime_ops \<Rightarrow> 'p datetime \<Rightarrow> 'p datetime result" where
  "at_most_max X r =
     bind_result (dt_max X) (\<lambda>mx. if dt_greater X r mx then dt_max X else Inr r)"

definition at_least_min :: "('b, 'p, 'd) datetime_ops \<Rightarrow> 'p datetime \<Rightarrow> 'p datetime result" where
  "at_least_min X r =
     bind_result (dt_min X) (\<lambda>mn. if dt_less X r mn then dt_min X else Inr r)"

subsection \<open>Arithmetic with durations\<close>

definition dt_plus :: "('b, 'p, 'd) datetime_ops \<Rightarrow> 'p datetime \<Rightarrow> 'd timedelta \<Rightarrow> 'p datetime" where
  "dt_plus X d t = dt_of_ptime (bt_plus X (m_data d) (m_duration t))"

definition dt_minus :: "('b, 'p, 'd) datetime_ops \<Rightarrow> 'p datetime \<Rightarrow> 'd timedelta \<Rightarrow> 'p datetime" where
  "dt_minus X d t = dt_of_ptime (bt_minus X (m_data d) (m_duration t))"

definition dt_diff ::
    "('b, 'p, 'd) datetime_ops \<Rightarrow> 'p datetime \<Rightarrow> 'p datetime \<Rightarrow> 'd timedelta result" where
  "dt_diff X d1 d2 = td_of_duration (dur X) (bt_diff X (m_data d1) (m_data d2))"

definition dt_fromTimestamp :: "('b, 'p, 'd) datetime_ops \<Rightarrow> int \<Rightarrow> 'p datetime result" where
  "dt_fromTimestamp X timestamp =
     bind_result (fromTicks (dur X) timestamp) (\<lambda>delta.
     bind_result (dt_ymd X 1970 1 1) (\<lambda>date. Inr (dt_plus X date delta)))"

definition dt_fromTimestampUTC ::
    "('b, 'p, 'd) datetime_ops \<Rightarrow> 'd timedelta \<Rightarrow> int \<Rightarrow> 'p datetime result" where
  "dt_fromTimestampUTC X UTCOffset timestamp =
     bind_result (dt_fromTimestamp X timestamp) (\<lambda>d. Inr (dt_plus X d UTCOffset))"

subsection \<open>Numbers\<close>

definition dt_number :: "('b, 'p, 'd) datetime_ops \<Rightarrow> 'p datetime \<Rightarrow> u64" where
  "dt_number X d = or_null
     (if dt_isNull X d then Inr null_u64
      else bind_result (dt_year X d) (\<lambda>y. bind_result (dt_month X d) (\<lambda>m.
        bind_result (dt_day X d) (\<lambda>dd. bind_result (dt_hour X d) (\<lambda>h.
        bind_result (dt_minute X d) (\<lambda>mm.
        Inr (word_of_int y * 100000000 + word_of_int m * 1000000 + word_of_int dd * 10000 +
             word_of_int h * 100 + word_of_int mm)))))))"

definition dt_ym :: "('b, 'p, 'd) datetime_ops \<Rightarrow> 'p datetime \<Rightarrow> u64" where
  "dt_ym X d = or_null
     (if dt_isNull X d then Inr null_u64
      else bind_result (dt_year X d) (\<lambda>y. bind_result (dt_month X d) (\<lambda>m.
        Inr (word_of_int y * 100 + word_of_int m))))"

definition dt_ymd_number :: "('b, 'p, 'd) datetime_ops \<Rightarrow> 'p datetime \<Rightarrow> u64" where
  "dt_ymd_number X d = or_null
     (if dt_isNull X d then Inr null_u64
      else bind_result (dt_year X d) (\<lambda>y. bind_result (dt_month X d) (\<lambda>m.
        bind_result (dt_day X d) (\<lambda>dd.
        Inr (word_of_int y * 10000 + word_of_int m * 100 + word_of_int dd)))))"

definition dt_ymdh :: "('b, 'p, 'd) datetime_ops \<Rightarrow> 'p datetime \<Rightarrow> u64" where
  "dt_ymdh X d = or_null
     (if dt_isNull X d then Inr null_u64
      else bind_result (dt_year X d) (\<lambda>y. bind_result (dt_month X d) (\<lambda>m.
        bind_result (dt_day X d) (\<lambda>dd. bind_result (dt_hour X d) (\<lambda>h.
        Inr (word_of_int y * 1000000 + word_of_int m * 10000 + word_of_int dd * 100 +
             word_of_int h))))))"

definition dt_ymdhm :: "('b, 'p, 'd) datetime_ops \<Rightarrow> 'p datetime \<Rightarrow> u64" where
  "dt_ymdhm X d = or_null
     (if dt_isNull X d then Inr null_u64
      else bind_result (dt_year X d) (\<lambda>y. bind_result (dt_month X d) (\<lambda>m.
        bind_result (dt_day X d) (\<lambda>dd. bind_result (dt_hour X d) (\<lambda>h.
        bind_result (dt_minute X d) (\<lambda>mm.
        Inr (word_of_int y * 100000000 + word_of_int m * 1000000 + word_of_int dd * 10000 +
             word_of_int h * 100 + word_of_int mm)))))))"

definition dt_ymdhms :: "('b, 'p, 'd) datetime_ops \<Rightarrow> 'p datetime \<Rightarrow> u64" where
  "dt_ymdhms X d = or_null
     (if dt_isNull X d then Inr null_u64
      else bind_result (dt_year X d) (\<lambda>y. bind_result (dt_month X d) (\<lambda>m.
        bind_result (dt_day X d) (\<lambda>dd. bind_result (dt_hour X d) (\<lambda>h.
        bind_result (dt_minute X d) (\<lambda>mm. bind_result (dt_second X d) (\<lambda>s.
        Inr (word_of_int y * 10000000000 + word_of_int m * 100000000 + word_of_int dd * 1000000 +
             word_of_int h * 10000 + word_of_int mm * 100 + word_of_int s))))))))"

definition dt_hex :: "('b, 'p, 'd) datetime_ops \<Rightarrow> 'p datetime \<Rightarrow> u64" where
  "dt_hex X d = or_null
     (if bd_eq X (bt_date X (m_data d)) (bd_pos_infin X) then Inr null_u64
      else bind_result (dt_second X d) (\<lambda>s. bind_result (dt_minute X d) (\<lambda>mm.
        bind_result (dt_hour X d) (\<lambda>h. bind_result (dt_day X d) (\<lambda>dd.
        bind_result (dt_month X d) (\<lambda>m. bind_result (dt_year X d) (\<lambda>yy.
          let ret = word_of_int s;
              ret = ret OR push_bit 8 (word_of_int mm);
              ret = ret OR push_bit 16 (word_of_int h);
              ret = ret OR push_bit 24 (word_of_int dd);
              ret = ret OR push_bit 32 (word_of_int m);
              y = word_of_int yy;
              high_y = y div 100;
              low_y = y - high_y * 100;
              ret = ret OR push_bit 40 low_y
          in Inr (ret OR push_bit 48 high_y))))))))"

definition dt_ticks :: "('b, 'p, 'd) datetime_ops \<Rightarrow> 'p datetime \<Rightarrow> u64" where
  "dt_ticks X d = or_null
     (if dt_isNull X d then Inr null_u64
      else bind_result (dt_min X) (\<lambda>mn. bind_result (dt_diff X d mn) (\<lambda>t.
        Inr (word_of_int (td_ticks (dur X) t)))))"

definition dt_timestamp :: "('b, 'p, 'd) datetime_ops \<Rightarrow> 'p datetime \<Rightarrow> u64" where
  "dt_timestamp X d = or_null
     (if dt_isNull X d then Inr null_u64
      else bind_result (dt_ymd X 1970 1 1) (\<lambda>e. bind_result (dt_diff X d e) (\<lambda>t.
        Inr (word_of_int (td_ticks (dur X) t)))))"

definition dt_timestampUTC ::
    "('b, 'p, 'd) datetime_ops \<Rightarrow> 'd timedelta \<Rightarrow> 'p datetime \<Rightarrow> u64" where
  "dt_timestampUTC X UTCOffset d = or_null
     (if dt_isNull X d then Inr null_u64
      else bind_result (dt_ymd X 1970 1 1) (\<lambda>e. bind_result (dt_diff X d e) (\<lambda>t.
        bind_result (td_minus (dur X) t UTCOffset) (\<lambda>t.
        Inr (word_of_int (td_ticks (dur X) t))))))"

subsection \<open>Printing\<close>

text \<open>
  fmt's \<open>{:>4d}\<close>, \<open>{:0>2d}\<close> and \<open>{:0<9s}\<close>: padded on the left or on the right. Seconds with a
  fraction are printed by \<open>{:0<9.6f}\<close> from a \<open>double\<close> below 60; its error is far below half of the
  last of six decimals, so the digits are those of the exact number.
\<close>

definition pad_left :: "char \<Rightarrow> nat \<Rightarrow> string \<Rightarrow> string" where
  "pad_left c w s = replicate (w - length s) c @ s"

definition pad_right :: "char \<Rightarrow> nat \<Rightarrow> string \<Rightarrow> string" where
  "pad_right c w s = s @ replicate (w - length s) c"

definition show_6f :: "int \<Rightarrow> string" where
  "show_6f micros =
     show_int (micros div 1000000) @ ''.'' @ pad_left (CHR ''0'') 6 (show_int (micros mod 1000000))"

definition dt_str :: "('b, 'p, 'd) datetime_ops \<Rightarrow> 'p datetime \<Rightarrow> string result" where
  "dt_str X d =
     (if dt_isNull X d then Inr ''+infinity''
      else bind_result (dt_millisecond X d) (\<lambda>ms. bind_result (dt_microsecond X d) (\<lambda>us.
        bind_result (dt_year X d) (\<lambda>y. bind_result (dt_month X d) (\<lambda>m.
        bind_result (dt_day X d) (\<lambda>dd. bind_result (dt_hour X d) (\<lambda>h.
        bind_result (dt_minute X d) (\<lambda>mm. bind_result (dt_second X d) (\<lambda>s.
        let microseconds = ms * 1000 + us; two = (\<lambda>n. pad_left (CHR ''0'') 2 (show_int n)) in
        Inr (pad_left (CHR '' '') 4 (show_int y) @ ''-'' @ two m @ ''-'' @ two dd @ '' '' @
             two h @ '':'' @ two mm @ '':'' @
             (if microseconds = 0 then two s
              else pad_right (CHR ''0'') 9 (show_6f (s * 1000000 + microseconds)))))))))))))"

definition dt_repr :: "('b, 'p, 'd) datetime_ops \<Rightarrow> 'p datetime \<Rightarrow> string result" where
  "dt_repr X d =
     (if dt_isNull X d then Inr ''Datetime()''
      else bind_result (dt_year X d) (\<lambda>y. bind_result (dt_month X d) (\<lambda>m.
        bind_result (dt_day X d) (\<lambda>dd. bind_result (dt_hour X d) (\<lambda>h.
        bind_result (dt_minute X d) (\<lambda>mm. bind_result (dt_second X d) (\<lambda>s.
        bind_result (dt_millisecond X d) (\<lambda>ms. bind_result (dt_microsecond X d) (\<lambda>us.
        Inr (''Datetime('' @ show_int y @ '','' @ show_int m @ '','' @ show_int dd @ '','' @
             show_int h @ '','' @ show_int mm @ '','' @ show_int s @ '','' @ show_int ms @ '','' @
             show_int us @ '')''))))))))))"

subsection \<open>Days, weeks and the other periods\<close>

text \<open>\<open>try { ... } catch (...) { result = min(); }\<close>\<close>

definition or_min :: "('b, 'p, 'd) datetime_ops \<Rightarrow> 'p datetime result \<Rightarrow> 'p datetime result" where
  "or_min X m = (case m of Inl e \<Rightarrow> dt_min X | Inr r \<Rightarrow> Inr r)"

definition dt_startOfDay :: "('b, 'p, 'd) datetime_ops \<Rightarrow> 'p datetime \<Rightarrow> 'p datetime" where
  "dt_startOfDay X d = dt_of_date X (dt_date X d)"

definition dt_endOfDay :: "('b, 'p, 'd) datetime_ops \<Rightarrow> 'p datetime \<Rightarrow> 'p datetime result" where
  "dt_endOfDay X d =
     (if dt_eq X d (dt_Null X) then Inr (dt_Null X)
      else if \<not> bd_eq X (dt_date X d) (bd_max_date_time X)
      then bind_result (dt_year X d) (\<lambda>y. bind_result (dt_month X d) (\<lambda>m.
        bind_result (dt_day X d) (\<lambda>dd. dt_full X y m dd 23 59 59 0 0)))
      else dt_max X)"

definition dt_nextDay :: "('b, 'p, 'd) datetime_ops \<Rightarrow> 'p datetime \<Rightarrow> 'p datetime result" where
  "dt_nextDay X d =
     (if dt_eq X d (dt_Null X) then Inr d
      else bind_result (dt_max X) (\<lambda>mx. if dt_eq X d mx then Inr d
        else Inr (dt_of_date X (bd_plus X (dt_date X d) 1))))"

definition dt_preDay :: "('b, 'p, 'd) datetime_ops \<Rightarrow> 'p datetime \<Rightarrow> 'p datetime result" where
  "dt_preDay X d =
     (if dt_eq X d (dt_Null X) then Inr d
      else bind_result (dt_min X) (\<lambda>mn. if dt_eq X d mn then Inr d
        else Inr (dt_of_date X (bd_minus X (dt_date X d) 1))))"

definition dt_dateOfWeek :: "('b, 'p, 'd) datetime_ops \<Rightarrow> 'p datetime \<Rightarrow> int \<Rightarrow> 'p datetime result" where
  "dt_dateOfWeek X d day =
     (if dt_eq X d (dt_Null X) then Inr d
      else let dd = (if day < 0 then 0 else if day > 6 then 6 else day) in
        bind_result (dt_dayOfWeek X d) (\<lambda>today.
        let result = dt_of_date X (bd_plus X (dt_date X d) (dd - today)) in
        bind_result (dt_max X) (\<lambda>mx.
          if dt_greater X result mx then dt_max X else at_least_min X result)))"

definition dt_startOfWeek :: "('b, 'p, 'd) datetime_ops \<Rightarrow> 'p datetime \<Rightarrow> 'p datetime result" where
  "dt_startOfWeek X d =
     (if dt_eq X d (dt_Null X) then Inr (dt_Null X)
      else bind_result (dt_dayOfWeek X d) (\<lambda>today.
        at_least_min X
          (if today = 0 then dt_of_date X (bd_plus X (dt_date X d) (-6))
           else dt_of_date X (bd_plus X (dt_date X d) (1 - today)))))"

definition dt_endOfWeek :: "('b, 'p, 'd) datetime_ops \<Rightarrow> 'p datetime \<Rightarrow> 'p datetime result" where
  "dt_endOfWeek X d =
     (if dt_eq X d (dt_Null X) then Inr (dt_Null X)
      else bind_result (dt_dayOfWeek X d) (\<lambda>today.
        at_most_max X
          (if today = 0 then dt_of_date X (dt_date X d)
           else dt_of_date X (bd_plus X (dt_date X d) (7 - today)))))"

definition dt_nextWeek :: "('b, 'p, 'd) datetime_ops \<Rightarrow> 'p datetime \<Rightarrow> 'p datetime result" where
  "dt_nextWeek X d =
     (if dt_eq X d (dt_Null X) then Inr (dt_Null X)
      else bind_result (dt_endOfWeek X d) (\<lambda>e.
        at_most_max X (dt_of_date X (bd_plus X (dt_date X e) 1))))"

definition dt_preWeek :: "('b, 'p, 'd) datetime_ops \<Rightarrow> 'p datetime \<Rightarrow> 'p datetime result" where
  "dt_preWeek X d =
     (if dt_eq X d (dt_Null X) then Inr (dt_Null X)
      else or_min X (dt_startOfWeek X (dt_of_date X (bd_minus X (dt_date X d) 7))))"

definition dt_startOfMonth :: "('b, 'p, 'd) datetime_ops \<Rightarrow> 'p datetime \<Rightarrow> 'p datetime result" where
  "dt_startOfMonth X d =
     (if dt_eq X d (dt_Null X) then Inr d
      else bind_result (dt_year X d) (\<lambda>y. bind_result (dt_month X d) (\<lambda>m. dt_ymd X y m 1)))"

definition dt_endOfMonth :: "('b, 'p, 'd) datetime_ops \<Rightarrow> 'p datetime \<Rightarrow> 'p datetime result" where
  "dt_endOfMonth X d =
     (if dt_eq X d (dt_Null X) then Inr d
      else bind_result (bd_end_of_month X (dt_date X d)) (\<lambda>e. Inr (dt_of_date X e)))"

definition dt_nextMonth :: "('b, 'p, 'd) datetime_ops \<Rightarrow> 'p datetime \<Rightarrow> 'p datetime result" where
  "dt_nextMonth X d =
     (if dt_eq X d (dt_Null X) then Inr (dt_Null X)
      else bind_result (dt_endOfMonth X d) (\<lambda>e.
        at_most_max X (dt_of_date X (bd_plus X (dt_date X e) 1))))"

definition dt_preMonth :: "('b, 'p, 'd) datetime_ops \<Rightarrow> 'p datetime \<Rightarrow> 'p datetime result" where
  "dt_preMonth X d =
     (if dt_eq X d (dt_Null X) then Inr (dt_Null X)
      else or_min X (bind_result (dt_month X d) (\<lambda>m. bind_result (dt_year X d) (\<lambda>y.
        if m = 1 then dt_ymd X (y - 1) 12 1 else dt_ymd X y (m - 1) 1))))"

definition dt_startOfQuarter :: "('b, 'p, 'd) datetime_ops \<Rightarrow> 'p datetime \<Rightarrow> 'p datetime result" where
  "dt_startOfQuarter X d =
     (if dt_eq X d (dt_Null X) then Inr (dt_Null X)
      else bind_result (dt_month X d) (\<lambda>m. bind_result (dt_year X d) (\<lambda>y.
        if m \<le> 3 then dt_ymd X y 1 1 else if m \<le> 6 then dt_ymd X y 4 1
        else if m \<le> 9 then dt_ymd X y 7 1 else if m \<le> 12 then dt_ymd X y 10 1
        else Inr (dt_Null X))))"

definition dt_endOfQuarter :: "('b, 'p, 'd) datetime_ops \<Rightarrow> 'p datetime \<Rightarrow> 'p datetime result" where
  "dt_endOfQuarter X d =
     (if dt_eq X d (dt_Null X) then Inr (dt_Null X)
      else bind_result (dt_month X d) (\<lambda>m. bind_result (dt_year X d) (\<lambda>y.
        if m \<le> 3 then dt_ymd X y 3 31 else if m \<le> 6 then dt_ymd X y 6 30
        else if m \<le> 9 then dt_ymd X y 9 30 else if m \<le> 12 then dt_ymd X y 12 31
        else Inr (dt_Null X))))"

definition dt_nextQuarter :: "('b, 'p, 'd) datetime_ops \<Rightarrow> 'p datetime \<Rightarrow> 'p datetime result" where
  "dt_nextQuarter X d =
     (if dt_eq X d (dt_Null X) then Inr (dt_Null X)
      else bind_result (dt_endOfQuarter X d) (\<lambda>e.
        at_most_max X (dt_of_date X (bd_plus X (dt_date X e) 1))))"

definition dt_preQuarter :: "('b, 'p, 'd) datetime_ops \<Rightarrow> 'p datetime \<Rightarrow> 'p datetime result" where
  "dt_preQuarter X d =
     (if dt_eq X d (dt_Null X) then Inr (dt_Null X)
      else or_min X (bind_result (dt_startOfQuarter X d) (\<lambda>q. bind_result (dt_month X q) (\<lambda>m.
        bind_result (dt_year X d) (\<lambda>y.
        if m = 1 then dt_ymd X (y - 1) 10 1 else dt_ymd X y (m - 3) 1)))))"

definition dt_startOfHalfyear :: "('b, 'p, 'd) datetime_ops \<Rightarrow> 'p datetime \<Rightarrow> 'p datetime result" where
  "dt_startOfHalfyear X d =
     (if dt_eq X d (dt_Null X) then Inr d
      else bind_result (dt_month X d) (\<lambda>m. bind_result (dt_year X d) (\<lambda>y.
        if m \<le> 6 then dt_ymd X y 1 1 else dt_ymd X y 7 1)))"

definition dt_endOfHalfyear :: "('b, 'p, 'd) datetime_ops \<Rightarrow> 'p datetime \<Rightarrow> 'p datetime result" where
  "dt_endOfHalfyear X d =
     (if dt_eq X d (dt_Null X) then Inr d
      else bind_result (dt_month X d) (\<lambda>m. bind_result (dt_year X d) (\<lambda>y.
        if m \<le> 6 then dt_ymd X y 6 30 else dt_ymd X y 12 31)))"

definition dt_nextHalfyear :: "('b, 'p, 'd) datetime_ops \<Rightarrow> 'p datetime \<Rightarrow> 'p datetime result" where
  "dt_nextHalfyear X d =
     (if dt_eq X d (dt_Null X) then Inr (dt_Null X)
      else bind_result (dt_endOfHalfyear X d) (\<lambda>e.
        at_most_max X (dt_of_date X (bd_plus X (dt_date X e) 1))))"

definition dt_preHalfyear :: "('b, 'p, 'd) datetime_ops \<Rightarrow> 'p datetime \<Rightarrow> 'p datetime result" where
  "dt_preHalfyear X d =
     (if dt_eq X d (dt_Null X) then Inr (dt_Null X)
      else or_min X (bind_result (dt_startOfHalfyear X d) (\<lambda>h. bind_result (dt_month X h) (\<lambda>m.
        bind_result (dt_year X d) (\<lambda>y.
        if m \<le> 6 then dt_ymd X (y - 1) 7 1 else dt_ymd X y 1 1)))))"

definition dt_startOfYear :: "('b, 'p, 'd) datetime_ops \<Rightarrow> 'p datetime \<Rightarrow> 'p datetime result" where
  "dt_startOfYear X d =
     (if dt_eq X d (dt_Null X) then Inr d else bind_result (dt_year X d) (\<lambda>y. dt_ymd X y 1 1))"

definition dt_endOfYear :: "('b, 'p, 'd) datetime_ops \<Rightarrow> 'p datetime \<Rightarrow> 'p datetime result" where
  "dt_endOfYear X d =
     (if dt_eq X d (dt_Null X) then Inr (dt_Null X)
      else bind_result (dt_year X d) (\<lambda>y. dt_ymd X y 12 31))"

definition dt_nextYear :: "('b, 'p, 'd) datetime_ops \<Rightarrow> 'p datetime \<Rightarrow> 'p datetime result" where
  "dt_nextYear X d =
     (if dt_eq X d (dt_Null X) then Inr (dt_Null X)
      else bind_result (dt_endOfYear X d) (\<lambda>e.
        at_most_max X (dt_of_date X (bd_plus X (dt_date X e) 1))))"

definition dt_preYear :: "('b, 'p, 'd) datetime_ops \<Rightarrow> 'p datetime \<Rightarrow> 'p datetime result" where
  "dt_preYear X d =
     (if dt_eq X d (dt_Null X) then Inr (dt_Null X)
      else or_min X (bind_result (dt_year X d) (\<lambda>y. dt_ymd X (y - 1) 1 1)))"

subsection \<open>Ranges of dates\<close>

text \<open>
  The loop over the days of a \<open>date_period\<close>, whose end is its last day plus one. It stops at the end
  only: \<open>None\<close> is a loop that never gets there.
\<close>

partial_function (option) range_loop ::
    "('b, 'p, 'd) datetime_ops \<Rightarrow> 'b \<Rightarrow> 'b \<Rightarrow> 'p datetime list option" where
  "range_loop X iter stop =
     (if bd_eq X iter stop then Some []
      else Option.bind (range_loop X (bd_plus X iter 1) stop) (\<lambda>ds. Some (dt_of_date X iter # ds)))"

definition getDateRange ::
    "('b, 'p, 'd) datetime_ops \<Rightarrow> 'p datetime \<Rightarrow> 'p datetime \<Rightarrow> 'p datetime list option result" where
  "getDateRange X start stop =
     bind_result (if dt_eq X stop (dt_Null X) then dt_max X else Inr stop) (\<lambda>end_datetime.
     let start_day = dt_date X start;
         end_day = dt_date X end_datetime;
         last = bd_minus X end_day 1
     in Inr (range_loop X start_day (bd_plus X last 1)))"

end
