(* ===== verification/CalendarLaws.thy ===== *)
theory CalendarLaws
  imports Datetime
begin

text \<open>
  What boost documents of its dates and times, as the locale \<open>boost_datetime\<close>, the facts about
  \<open>Datetime\<close> every property needs (construction, fields, comparison, limits), proved once inside
  it, and an instance that computes: dates are day numbers, times are microseconds.
\<close>

section \<open>The laws\<close>

text \<open>
  A finite date is its day number, a finite time its number of microseconds since the start of day 0.
  Both types have the special values of boost. Years go from 1400 to 9999; a date object may leave
  that range by arithmetic, and it is when its year, month or day is read that boost throws.
\<close>

datatype bpoint = Finite int | PosInfin | NegInfin | NotADate

definition day_us :: int where
  "day_us = 86400000000"

definition first_day :: int where
  "first_day = 2232400"

definition last_day :: int where
  "last_day = 5373484"

definition near :: "int \<Rightarrow> bool" where
  "near n \<longleftrightarrow> first_day - 400 \<le> n \<and> n \<le> last_day + 400"

definition boost_ymd :: "int \<Rightarrow> int \<Rightarrow> int \<Rightarrow> bool" where
  "boost_ymd y m d \<longleftrightarrow> 1400 \<le> y \<and> y \<le> 9999 \<and> valid_ymd y m d"

definition day_count :: "int \<Rightarrow> bool" where
  "day_count n \<longleftrightarrow> 0 < n \<and> n < 2 ^ 32 - 2"

definition time_count :: "int \<Rightarrow> bool" where
  "time_count u \<longleftrightarrow> 0 \<le> u \<and> u < 2 ^ 62"

definition plain :: "bpoint \<Rightarrow> bool" where
  "plain v \<longleftrightarrow> v \<noteq> NegInfin \<and> v \<noteq> NotADate"

locale boost_datetime =
  fixes X :: "('b, 'p, 'd) datetime_ops" and dv :: "'b \<Rightarrow> bpoint" and pv :: "'p \<Rightarrow> bpoint"
  assumes durations: "boost_duration (dur X)"
    and hms: "0 \<le> h \<Longrightarrow> 0 \<le> m \<Longrightarrow> 0 \<le> s \<Longrightarrow> 0 \<le> f \<Longrightarrow> h < 2 ^ 31 \<Longrightarrow> m < 2 ^ 31 \<Longrightarrow> s < 2 ^ 31 \<Longrightarrow>
      f < 1000000 \<Longrightarrow> ticks_of (dur X) (hms_of X h m s f) = ((h * 60 + m) * 60 + s) * 1000000 + f"
    and frac: "frac_of X t = ticks_of (dur X) t smod 1000000"
    and ymd_good: "boost_ymd y m d \<Longrightarrow> \<exists>b. bd_ymd X y m d = Inr b \<and> dv b = Finite (jdn y m d)"
    and ymd_bad: "0 \<le> y \<Longrightarrow> y < 65536 \<Longrightarrow> 0 \<le> m \<Longrightarrow> m < 65536 \<Longrightarrow> 0 \<le> d \<Longrightarrow> d < 65536 \<Longrightarrow>
      \<not> boost_ymd y m d \<Longrightarrow> bd_ymd X y m d = Inl OutOfRange"
    and infin: "dv (bd_pos_infin X) = PosInfin"
    and limits: "dv (bd_min_date_time X) = Finite first_day" "dv (bd_max_date_time X) = Finite last_day"
    and fields: "boost_ymd y m d \<Longrightarrow> dv b = Finite (jdn y m d) \<Longrightarrow>
      bd_year X b = Inr y \<and> bd_month X b = Inr m \<and> bd_day X b = Inr d"
    and day_of_week: "first_day \<le> n \<Longrightarrow> n \<le> last_day \<Longrightarrow> dv b = Finite n \<Longrightarrow>
      bd_day_of_week X b = Inr (weekday n)"
    and day_of_year: "boost_ymd y m d \<Longrightarrow> dv b = Finite (jdn y m d) \<Longrightarrow>
      bd_day_of_year X b = Inr (jdn y m d - jdn y 1 1 + 1)"
    and end_of_month: "boost_ymd y m d \<Longrightarrow> dv b = Finite (jdn y m d) \<Longrightarrow>
      \<exists>e. bd_end_of_month X b = Inr e \<and> dv e = Finite (jdn y m (month_len y m))"
    and beyond: "near n \<Longrightarrow> n < first_day \<or> last_day < n \<Longrightarrow> dv b = Finite n \<Longrightarrow>
      bd_year X b = Inl OutOfRange \<and> bd_month X b = Inl OutOfRange \<and> bd_day X b = Inl OutOfRange \<and>
      bd_day_of_week X b = Inl OutOfRange"
    and days_plus: "dv b = Finite n \<Longrightarrow> day_count n \<Longrightarrow> day_count (n + k) \<Longrightarrow> dv (bd_plus X b k) = Finite (n + k)"
    and days_minus: "dv b = Finite n \<Longrightarrow> day_count n \<Longrightarrow> day_count (n - k) \<Longrightarrow> dv (bd_minus X b k) = Finite (n - k)"
    and infin_plus: "dv b = PosInfin \<Longrightarrow> dv (bd_plus X b k) = PosInfin"
    and days_eq: "plain (dv b) \<Longrightarrow> plain (dv c) \<Longrightarrow> bd_eq X b c \<longleftrightarrow> dv b = dv c"
    and ptime_new: "dv b = Finite n \<Longrightarrow> 0 \<le> ticks_of (dur X) t \<Longrightarrow> 0 \<le> n \<Longrightarrow>
      time_count (n * day_us + ticks_of (dur X) t) \<Longrightarrow>
      pv (bt_ptime X b t) = Finite (n * day_us + ticks_of (dur X) t)"
    and ptime_infin: "dv b = PosInfin \<Longrightarrow> pv (bt_ptime X b t) = PosInfin"
    and ptime_date: "pv p = Finite u \<Longrightarrow> time_count u \<Longrightarrow> dv (bt_date X p) = Finite (u div day_us)"
    and date_infin: "pv p = PosInfin \<Longrightarrow> dv (bt_date X p) = PosInfin"
    and ptime_tod: "pv p = Finite u \<Longrightarrow> time_count u \<Longrightarrow>
      ticks_of (dur X) (bt_time_of_day X p) = u mod day_us"
    and time_plus: "pv p = Finite u \<Longrightarrow> time_count u \<Longrightarrow> time_count (u + ticks_of (dur X) t) \<Longrightarrow>
      pv (bt_plus X p t) = Finite (u + ticks_of (dur X) t)"
    and time_minus: "pv p = Finite u \<Longrightarrow> time_count u \<Longrightarrow> time_count (u - ticks_of (dur X) t) \<Longrightarrow>
      pv (bt_minus X p t) = Finite (u - ticks_of (dur X) t)"
    and time_diff: "pv p = Finite u \<Longrightarrow> pv q = Finite v \<Longrightarrow> time_count u \<Longrightarrow> time_count v \<Longrightarrow>
      ticks_of (dur X) (bt_diff X p q) = u - v"
    and time_eq: "plain (pv p) \<Longrightarrow> plain (pv q) \<Longrightarrow> bt_eq X p q \<longleftrightarrow> pv p = pv q"
    and time_less: "pv p = Finite u \<Longrightarrow> pv q = Finite v \<Longrightarrow> bt_less X p q \<longleftrightarrow> u < v"
    and less_infin: "pv p = Finite u \<Longrightarrow> pv q = PosInfin \<Longrightarrow> bt_less X p q"
    and infin_less: "pv p = PosInfin \<Longrightarrow> plain (pv q) \<Longrightarrow> \<not> bt_less X p q"

section \<open>Values of datetimes\<close>

text \<open>
  What a \<open>Datetime\<close> is: the null value, or a point of the days from 1400-01-01 to 9999-12-31.
  \<open>gives pv m u\<close>: the computation returns a \<open>Datetime\<close> at the microsecond \<open>u\<close>.
\<close>

definition moment :: "int \<Rightarrow> bool" where
  "moment u \<longleftrightarrow> first_day * day_us \<le> u \<and> u < (last_day + 1) * day_us"

definition dt_valid :: "('p \<Rightarrow> bpoint) \<Rightarrow> 'p datetime \<Rightarrow> bool" where
  "dt_valid pv d \<longleftrightarrow> (case pv (m_data d) of Finite u \<Rightarrow> moment u | v \<Rightarrow> v = PosInfin)"

definition gives :: "('p \<Rightarrow> bpoint) \<Rightarrow> 'p datetime result \<Rightarrow> int \<Rightarrow> bool" where
  "gives pv m u \<longleftrightarrow> (\<exists>r. m = Inr r \<and> pv (m_data r) = Finite u)"

lemma first_last_day: "first_day = jdn 1400 1 1" "last_day = jdn 9999 12 31"
  by (simp_all add: first_day_def last_day_def jdn_def days_before_year_def days_before_month_def leap_def)

lemma boost_ymd_range:
  assumes "boost_ymd y m d"
  shows "first_day \<le> jdn y m d" "jdn y m d \<le> last_day"
proof -
  have v: "valid_ymd y m d" "1400 \<le> y" "y \<le> 9999" using assms by (simp_all add: boost_ymd_def)
  have e: "valid_ymd 1400 1 1" "valid_ymd 9999 12 31" by (simp_all add: valid_ymd_def month_len_def)
  show "first_day \<le> jdn y m d"
    using jdn_less_iff [OF v(1) e(1)] v by (auto simp: first_last_day valid_ymd_def not_less [symmetric])
  show "jdn y m d \<le> last_day"
    using jdn_less_iff [OF e(2) v(1)] v month_len_bounds(2) [of y m]
    by (fastforce simp: first_last_day valid_ymd_def not_less [symmetric] month_len_def)
qed

lemma range_boost_ymd:
  assumes "first_day \<le> n" "n \<le> last_day"
  obtains y m d where "boost_ymd y m d" "n = jdn y m d"
proof -
  obtain y m d where s: "ymd_of n = (y, m, d)" by (cases "ymd_of n") auto
  then have v: "valid_ymd y m d" "jdn y m d = n" by (simp_all add: ymd_of_jdn)
  have e: "valid_ymd 1400 1 1" "valid_ymd 9999 12 31" by (simp_all add: valid_ymd_def month_len_def)
  have "1400 \<le> y" using jdn_less [OF v(1) e(1)] v(2) assms(1) by (force simp: first_last_day)
  moreover have "y \<le> 9999" using jdn_less [OF e(2) v(1)] v(2) assms(2) by (force simp: first_last_day)
  ultimately show thesis using v that [of y m d] by (simp add: boost_ymd_def)
qed

lemma div_bounds:
  fixes u a b c :: int
  assumes "0 < b"
  shows "a * b \<le> u \<Longrightarrow> a \<le> u div b" and "u < c * b \<Longrightarrow> u div b < c"
proof -
  have u: "u = u div b * b + u mod b" "0 \<le> u mod b" "u mod b < b" using assms by simp_all
  show "a \<le> u div b" if "a * b \<le> u"
  proof (rule ccontr)
    assume "\<not> a \<le> u div b"
    then have "(u div b + 1) * b \<le> a * b" using assms by (intro mult_right_mono) simp_all
    then have "u div b * b + b \<le> a * b" by (simp only: distrib_right mult_1)
    with u that show False by linarith
  qed
  show "u div b < c" if "u < c * b"
  proof -
    have "u div b * b < c * b" using u that by linarith
    then show ?thesis using assms by (simp only: mult_less_cancel_right_pos)
  qed
qed

lemma moment_split:
  assumes "moment u"
  obtains y m d t where "boost_ymd y m d" "0 \<le> t" "t < day_us" "u = jdn y m d * day_us + t"
proof -
  have n: "first_day \<le> u div day_us" "u div day_us \<le> last_day"
    using assms div_bounds(1) [of day_us first_day u] div_bounds(2) [of day_us u "last_day + 1"]
    by (simp_all add: moment_def day_us_def)
  from range_boost_ymd [OF n] obtain y m d where "boost_ymd y m d" "u div day_us = jdn y m d" .
  moreover have "u = u div day_us * day_us + u mod day_us" by (simp only: div_mult_mod_eq)
  ultimately show thesis using that [of y m d "u mod day_us"] by (simp add: day_us_def)
qed

lemma givesI: "m = Inr r \<Longrightarrow> pv (m_data r) = Finite u \<Longrightarrow> gives pv m u"
  by (simp add: gives_def)

lemma gives_bind:
  "gives pv m u \<Longrightarrow> (\<And>r. pv (m_data r) = Finite u \<Longrightarrow> gives pv (f r) v) \<Longrightarrow>
    gives pv (bind_result m f) v"
  by (auto simp: gives_def)

lemma moment_time_count: "moment u \<Longrightarrow> time_count u"
  by (simp add: moment_def time_count_def first_day_def last_day_def day_us_def)

lemma near_counts: "near n \<Longrightarrow> 0 \<le> n \<and> day_count n \<and> time_count (n * day_us)"
  by (simp add: near_def day_count_def time_count_def first_day_def last_day_def day_us_def)

lemma day_near: "first_day \<le> n \<Longrightarrow> n \<le> last_day \<Longrightarrow> near n"
  by (simp add: near_def)

lemma moment_day:
  assumes "first_day \<le> n" "n \<le> last_day" "0 \<le> t" "t < day_us"
  shows "moment (n * day_us + t)" "(n * day_us + t) div day_us = n" "(n * day_us + t) mod day_us = t"
proof -
  show "moment (n * day_us + t)" using assms by (simp add: moment_def day_us_def)
  show "(n * day_us + t) div day_us = n"
    using assms by (intro int_div_pos_eq [where r = t]) (simp_all add: algebra_simps)
  show "(n * day_us + t) mod day_us = t"
    using assms by (intro int_mod_pos_eq [where q = n]) (simp_all add: algebra_simps)
qed

text \<open>A \<open>Datetime\<close> on the day \<open>y-m-dd\<close>, \<open>t\<close> microseconds after midnight.\<close>

definition dt_at :: "('p \<Rightarrow> bpoint) \<Rightarrow> 'p datetime \<Rightarrow> int \<Rightarrow> int \<Rightarrow> int \<Rightarrow> int \<Rightarrow> bool" where
  "dt_at pv d y m dd t \<longleftrightarrow>
     boost_ymd y m dd \<and> 0 \<le> t \<and> t < day_us \<and> pv (m_data d) = Finite (jdn y m dd * day_us + t)"

lemma dt_valid_cases:
  assumes "dt_valid pv d"
  obtains (null) "pv (m_data d) = PosInfin"
    | (at) y m dd t where "dt_at pv d y m dd t"
proof (cases "pv (m_data d)")
  case (Finite u)
  with assms have "moment u" by (simp add: dt_valid_def)
  then show thesis by (rule moment_split) (use Finite at in \<open>auto simp: dt_at_def\<close>)
qed (use assms null in \<open>simp_all add: dt_valid_def\<close>)

lemma dt_at_moment:
  assumes "dt_at pv d y m dd t"
  shows "moment (jdn y m dd * day_us + t)"
  using assms boost_ymd_range [of y m dd] moment_day(1) by (simp add: dt_at_def)

lemma gives_valid: "gives pv m u \<Longrightarrow> moment u \<Longrightarrow> \<exists>r. m = Inr r \<and> dt_valid pv r"
  by (auto simp: gives_def dt_valid_def)

section \<open>Facts about every calendar with these laws\<close>

context boost_datetime begin

lemma zero_hms: "ticks_of (dur X) (hms_of X 0 0 0 0) = 0"
  by (simp add: hms)

lemma of_date_value:
  assumes "dv b = Finite n" "near n"
  shows "pv (m_data (dt_of_date X b)) = Finite (n * day_us)"
  using ptime_new [OF assms(1), of "hms_of X 0 0 0 0"] near_counts [OF assms(2)] zero_hms
  by (simp add: dt_of_date_def)

lemma null_value: "pv (m_data (dt_Null X)) = PosInfin"
  by (simp add: dt_Null_def ptime_infin infin)

lemma eq_finite: "pv (m_data d) = Finite u \<Longrightarrow> pv (m_data e) = Finite v \<Longrightarrow> dt_eq X d e \<longleftrightarrow> u = v"
  by (simp add: dt_eq_def time_eq plain_def)

lemma finite_not_null:
  assumes "pv (m_data d) = Finite u"
  shows "\<not> dt_eq X d (dt_Null X)" "\<not> dt_isNull X d"
  using assms null_value by (simp_all add: dt_eq_def dt_isNull_def time_eq plain_def dt_Null_def)

lemma infin_null:
  assumes "pv (m_data d) = PosInfin"
  shows "dt_eq X d (dt_Null X)" "dt_isNull X d"
  using assms null_value by (simp_all add: dt_eq_def dt_isNull_def time_eq plain_def dt_Null_def)

lemma ushort_small: "0 \<le> x \<Longrightarrow> x < 65536 \<Longrightarrow> ushort x = x"
  by (simp add: ushort_def)

lemma boost_ymd_ushort: "boost_ymd y m d \<Longrightarrow> ushort y = y \<and> ushort m = m \<and> ushort d = d"
  using month_len_bounds(2) [of y m] by (simp add: boost_ymd_def valid_ymd_def ushort_def)

lemma full_value:
  assumes "boost_ymd y m d" "0 \<le> hh" "hh < 24" "0 \<le> mm" "mm < 60" "0 \<le> s" "s < 60"
    "0 \<le> ms" "ms \<le> 999" "0 \<le> us" "us \<le> 999"
  shows "gives pv (dt_full X y m d hh mm s ms us)
    (jdn y m d * day_us + ((hh * 60 + mm) * 60 + s) * 1000000 + ms * 1000 + us)"
proof -
  obtain b where b: "bd_ymd X y m d = Inr b" "dv b = Finite (jdn y m d)"
    using ymd_good [OF assms(1)] by blast
  let ?t = "((hh * 60 + mm) * 60 + s) * 1000000 + (ms * 1000 + us)"
  have t: "ticks_of (dur X) (hms_of X hh mm s (ms * 1000 + us)) = ?t"
    using assms by (intro hms) simp_all
  have "0 \<le> ?t" "?t < day_us" using assms by (simp_all add: day_us_def)
  moreover have "moment (jdn y m d * day_us + ?t)"
    using boost_ymd_range [OF assms(1)] \<open>0 \<le> ?t\<close> \<open>?t < day_us\<close> by (rule moment_day(1))
  moreover have "0 \<le> jdn y m d"
    using boost_ymd_range(1) [OF assms(1)] by (simp add: first_day_def)
  ultimately have "pv (bt_ptime X b (hms_of X hh mm s (ms * 1000 + us))) =
      Finite (jdn y m d * day_us + ?t)"
    using ptime_new [OF b(2), of "hms_of X hh mm s (ms * 1000 + us)"] t moment_time_count by simp
  then show ?thesis
    using assms b(1) boost_ymd_ushort [OF assms(1)] by (simp add: dt_full_def gives_def add.assoc)
qed

lemma ymd_value: "boost_ymd y m d \<Longrightarrow> gives pv (dt_ymd X y m d) (jdn y m d * day_us)"
  using full_value [of y m d 0 0 0 0 0] by (simp add: dt_ymd_def)

lemma ymd_before:
  "1 \<le> m \<Longrightarrow> m \<le> 12 \<Longrightarrow> 1 \<le> d \<Longrightarrow> d \<le> 31 \<Longrightarrow> dt_ymd X 1399 m d = Inl OutOfRange"
  using ymd_bad [of 1399 m d] by (simp add: dt_ymd_def dt_full_def ushort_def boost_ymd_def)

lemma boost_ymd_ends: "boost_ymd 1400 1 1" "boost_ymd 9999 12 31" "boost_ymd 1970 1 1"
  by (simp_all add: boost_ymd_def valid_ymd_def month_len_def)

lemma min_value: "gives pv (dt_min X) (first_day * day_us)"
  using fields [OF boost_ymd_ends(1)] limits(1) ymd_value [OF boost_ymd_ends(1)]
  by (simp add: dt_min_def first_last_day)

lemma max_value: "gives pv (dt_max X) (last_day * day_us)"
  using fields [OF boost_ymd_ends(2)] limits(2) ymd_value [OF boost_ymd_ends(2)]
  by (simp add: dt_max_def first_last_day)

lemma at_most_max_value:
  "pv (m_data r) = Finite u \<Longrightarrow> gives pv (at_most_max X r) (min u (last_day * day_us))"
  unfolding at_most_max_def
  by (rule gives_bind [OF max_value])
    (use max_value in \<open>auto simp: dt_greater_def time_less min_def intro: givesI\<close>)

lemma at_least_min_value:
  "pv (m_data r) = Finite u \<Longrightarrow> gives pv (at_least_min X r) (max u (first_day * day_us))"
  unfolding at_least_min_def
  by (rule gives_bind [OF min_value])
    (use min_value in \<open>auto simp: dt_less_def time_less max_def intro: givesI\<close>)

lemma at_fields:
  assumes "dt_at pv d y m dd t"
  shows "dt_year X d = Inr y" "dt_month X d = Inr m" "dt_day X d = Inr dd"
    and "dv (dt_date X d) = Finite (jdn y m dd)"
    and "dt_hour X d = Inr (t div 3600000000)" "dt_minute X d = Inr (t div 60000000 mod 60)"
    and "dt_second X d = Inr (t div 1000000 mod 60)"
    and "dt_millisecond X d = Inr (t div 1000 mod 1000)" "dt_microsecond X d = Inr (t mod 1000)"
    and "dt_dayOfWeek X d = Inr (weekday (jdn y m dd))"
proof -
  note a = assms [unfolded dt_at_def]
  note r = boost_ymd_range [of y m dd]
  have day: "(jdn y m dd * day_us + t) div day_us = jdn y m dd"
    "(jdn y m dd * day_us + t) mod day_us = t"
    using moment_day(2,3) a r by blast+
  have c: "time_count (jdn y m dd * day_us + t)"
    using dt_at_moment [OF assms] by (rule moment_time_count)
  have dv: "dv (bt_date X (m_data d)) = Finite (jdn y m dd)" using ptime_date [OF _ c] a day by simp
  then show "dv (dt_date X d) = Finite (jdn y m dd)" by (simp add: dt_date_def)
  have n: "\<not> dt_isNull X d" using a finite_not_null by blast
  show "dt_year X d = Inr y" "dt_month X d = Inr m" "dt_day X d = Inr dd"
    using fields [OF _ dv] a n by (simp_all add: dt_year_def dt_month_def dt_day_def)
  show "dt_dayOfWeek X d = Inr (weekday (jdn y m dd))"
    using day_of_week [OF _ _ dv] a r by (simp add: dt_dayOfWeek_def dt_date_def)
  have tod: "ticks_of (dur X) (bt_time_of_day X (m_data d)) = t" using ptime_tod [OF _ c] a day by simp
  show "dt_hour X d = Inr (t div 3600000000)" "dt_minute X d = Inr (t div 60000000 mod 60)"
    "dt_second X d = Inr (t div 1000000 mod 60)"
    using n tod a boost_fields [OF durations]
    by (simp_all add: dt_hour_def dt_minute_def dt_second_def sdiv_nonneg smod_nonneg
        pos_imp_zdiv_nonneg_iff)
  have "t mod 1000000 div 1000 = t div 1000 mod 1000" by (rule day_fields(4))
  then show "dt_millisecond X d = Inr (t div 1000 mod 1000)" "dt_microsecond X d = Inr (t mod 1000)"
    using n tod a frac
    by (simp_all add: dt_millisecond_def dt_microsecond_def sdiv_nonneg smod_nonneg mod_mod_cancel)
qed

end

section \<open>A calendar that computes\<close>

text \<open>Durations are microseconds; the arithmetic of dates leaves the counter at \<open>NotADate\<close>.\<close>

definition int_duration :: "int duration_ops" where
  "int_duration = \<lparr>of_ticks = (\<lambda>n. n), ticks_of = (\<lambda>d. d), hours_of = (\<lambda>d. d sdiv 3600000000),
     minutes_of = (\<lambda>d. (d sdiv 60000000) smod 60), seconds_of = (\<lambda>d. (d sdiv 1000000) smod 60),
     is_negative_of = (\<lambda>d. d < 0), plus_of = (+), minus_of = (-), eq_of = (=), less_of = (<)\<rparr>"

lemma int_duration_ok: "boost_duration int_duration"
  by (simp add: boost_duration_def int_duration_def)

fun shift_day :: "bpoint \<Rightarrow> int \<Rightarrow> bpoint" where
  "shift_day (Finite n) k = (if day_count (n + k) then Finite (n + k) else NotADate)"
| "shift_day v k = v"

fun shift_time :: "bpoint \<Rightarrow> int \<Rightarrow> bpoint" where
  "shift_time (Finite u) k = Finite (u + k)"
| "shift_time v k = v"

fun scale_point :: "(int \<Rightarrow> int) \<Rightarrow> bpoint \<Rightarrow> bpoint" where
  "scale_point f (Finite n) = Finite (f n)"
| "scale_point f v = v"

fun point_less :: "bpoint \<Rightarrow> bpoint \<Rightarrow> bool" where
  "point_less (Finite u) (Finite v) = (u < v)"
| "point_less (Finite u) w = (w = PosInfin)"
| "point_less NegInfin w = (w \<noteq> NegInfin \<and> w \<noteq> NotADate)"
| "point_less w v = False"

definition from_day :: "(int \<times> int \<times> int \<Rightarrow> 'a) \<Rightarrow> bpoint \<Rightarrow> 'a result" where
  "from_day f b = (case b of
     Finite n \<Rightarrow> if first_day \<le> n \<and> n \<le> last_day then Inr (f (ymd_of n)) else Inl OutOfRange
   | v \<Rightarrow> Inl OutOfRange)"

definition std_calendar :: "(bpoint, bpoint, int) datetime_ops" where
  "std_calendar = \<lparr>
     dur = int_duration,
     hms_of = (\<lambda>h m s f. ((h * 60 + m) * 60 + s) * 1000000 + f),
     frac_of = (\<lambda>d. d smod 1000000),
     duration_from_string = (\<lambda>s. Inl OutOfRange),
     bd_ymd = (\<lambda>y m d. if boost_ymd y m d then Inr (Finite (jdn y m d)) else Inl OutOfRange),
     bd_pos_infin = PosInfin,
     bd_min_date_time = Finite first_day,
     bd_max_date_time = Finite last_day,
     bd_from_string = (\<lambda>s. Inl OutOfRange),
     bd_from_undelimited_string = (\<lambda>s. Inl OutOfRange),
     bd_year = from_day (\<lambda>(y, m, d). y),
     bd_month = from_day (\<lambda>(y, m, d). m),
     bd_day = from_day (\<lambda>(y, m, d). d),
     bd_day_of_week = from_day (\<lambda>(y, m, d). weekday (jdn y m d)),
     bd_day_of_year = from_day (\<lambda>(y, m, d). jdn y m d - jdn y 1 1 + 1),
     bd_end_of_month = from_day (\<lambda>(y, m, d). Finite (jdn y m (month_len y m))),
     bd_plus = shift_day,
     bd_minus = (\<lambda>b k. shift_day b (- k)),
     bd_eq = (=),
     bt_ptime = (\<lambda>b t. scale_point (\<lambda>n. n * day_us + t) b),
     bt_from_iso_string = (\<lambda>s. Inl OutOfRange),
     bt_time_from_string = (\<lambda>s. Inl OutOfRange),
     bt_date = scale_point (\<lambda>u. u div day_us),
     bt_time_of_day = (\<lambda>p. case p of Finite u \<Rightarrow> u mod day_us | v \<Rightarrow> 0),
     bt_plus = shift_time,
     bt_minus = (\<lambda>p t. shift_time p (- t)),
     bt_diff = (\<lambda>p q. case p of Finite u \<Rightarrow> (case q of Finite v \<Rightarrow> u - v | v \<Rightarrow> 0) | v \<Rightarrow> 0),
     bt_eq = (=),
     bt_less = point_less\<rparr>"

lemma from_day_jdn:
  assumes "boost_ymd y m d"
  shows "from_day f (Finite (jdn y m d)) = Inr (f (y, m, d))"
  using boost_ymd_range [OF assms] assms
  by (simp add: from_day_def boost_ymd_def ymd_of_inverse)

lemma from_day_weekday:
  "first_day \<le> n \<Longrightarrow> n \<le> last_day \<Longrightarrow>
    from_day (\<lambda>(y, m, d). weekday (jdn y m d)) (Finite n) = Inr (weekday n)"
  by (cases "ymd_of n") (auto simp: from_day_def ymd_of_jdn ymd_of_inverse)

lemma from_day_beyond: "n < first_day \<or> last_day < n \<Longrightarrow> from_day f (Finite n) = Inl OutOfRange"
  by (auto simp: from_day_def)

lemma int_ticks: "ticks_of int_duration d = d"
  by (simp add: int_duration_def)

interpretation std: boost_datetime std_calendar "\<lambda>b. b" "\<lambda>p. p"
  by unfold_locales
    (auto simp: std_calendar_def int_duration_ok int_ticks from_day_jdn from_day_weekday from_day_beyond
      plain_def)

end
