(* ===== verification/DatetimeNumbers.thy ===== *)
theory DatetimeNumbers
  imports CalendarLaws
begin

text \<open>
  The numbers of a \<open>Datetime\<close> (\<open>number()\<close>, \<open>ymd()\<close>, \<open>ymdhms()\<close>, \<open>hex()\<close>, \<open>ticks()\<close>, \<open>timestamp()\<close>):
  their digits, the constructors that read them back, and their order. Over every calendar with the
  laws of \<open>boost_datetime\<close>.
\<close>

section \<open>Words and digits\<close>

lemma uint_small: "0 \<le> k \<Longrightarrow> k < 2 ^ 64 \<Longrightarrow> uint (word_of_int k :: u64) = k"
  by (simp add: uint_word_of_int_eq take_bit_int_eq_self)

lemma not_null: "0 \<le> k \<Longrightarrow> k < 2 ^ 64 - 1 \<Longrightarrow> (word_of_int k :: u64) \<noteq> null_u64"
proof
  assume k: "0 \<le> k" "k < 2 ^ 64 - 1" and "(word_of_int k :: u64) = null_u64"
  then have "uint (word_of_int k :: u64) = uint (- 1 :: u64)" by (simp add: null_u64_def)
  with k show False by (simp add: uint_small unsigned_minus_1_eq_mask mask_eq_exp_minus_1)
qed

text \<open>The lower digits of a number and the rest of it.\<close>

lemma digits:
  fixes a b k :: int
  assumes "0 \<le> b" "b < k"
  shows "(a * k + b) div k = a" "a * k + b - (a * k + b) div k * k = b"
proof -
  show "(a * k + b) div k = a"
    using assms by (intro int_div_pos_eq [where r = b]) (simp_all add: algebra_simps)
  then show "a * k + b - (a * k + b) div k * k = b" by simp
qed

lemma day_parts:
  fixes t :: int
  assumes "0 \<le> t" "t < day_us"
  shows "0 \<le> t div 3600000000" "t div 3600000000 < 24"
    and "0 \<le> t div 60000000 mod 60" "t div 60000000 mod 60 < 60"
    and "0 \<le> t div 1000000 mod 60" "t div 1000000 mod 60 < 60"
    and "((t div 3600000000 * 60 + t div 60000000 mod 60) * 60) * 1000000 = t - t mod 60000000"
    and "((t div 3600000000 * 60 + t div 60000000 mod 60) * 60 + t div 1000000 mod 60) * 1000000 =
      t - t mod 1000000"
proof -
  show "0 \<le> t div 3600000000" "0 \<le> t div 60000000 mod 60" "t div 60000000 mod 60 < 60"
    "0 \<le> t div 1000000 mod 60" "t div 1000000 mod 60 < 60"
    using assms by (simp_all add: pos_imp_zdiv_nonneg_iff)
  show "t div 3600000000 < 24"
    using assms div_bounds(2) [of 3600000000 t 24] by (simp add: day_us_def)
  have h: "t div 3600000000 * 60 + t div 60000000 mod 60 = t div 60000000"
    using div_step [of 60000000 60 t] by simp
  have m: "t div 60000000 * 60 + t div 1000000 mod 60 = t div 1000000"
    using div_step [of 1000000 60 t] by simp
  show "((t div 3600000000 * 60 + t div 60000000 mod 60) * 60) * 1000000 = t - t mod 60000000"
    unfolding h by (simp add: minus_mod_eq_div_mult)
  show "((t div 3600000000 * 60 + t div 60000000 mod 60) * 60 + t div 1000000 mod 60) * 1000000 =
      t - t mod 1000000"
    unfolding h m by (simp add: minus_mod_eq_div_mult)
qed

text \<open>The number with the digits of a date, of its minute and of its second.\<close>

definition ymd_digits :: "int \<Rightarrow> int \<Rightarrow> int \<Rightarrow> int" where
  "ymd_digits y m dd = y * 10000 + m * 100 + dd"

definition hm_digits :: "int \<Rightarrow> int" where
  "hm_digits t = t div 3600000000 * 100 + t div 60000000 mod 60"

definition hms_digits :: "int \<Rightarrow> int" where
  "hms_digits t = hm_digits t * 100 + t div 1000000 mod 60"

lemma ymd_digits_bounds:
  assumes "boost_ymd y m dd"
  shows "14000101 \<le> ymd_digits y m dd" "ymd_digits y m dd \<le> 99991231"
  using assms month_len_bounds(2) [of y m] by (simp_all add: ymd_digits_def boost_ymd_def valid_ymd_def)

lemma hm_digits_bounds:
  assumes "0 \<le> t" "t < day_us"
  shows "0 \<le> hm_digits t" "hm_digits t \<le> 2359" "0 \<le> hms_digits t" "hms_digits t \<le> 235959"
proof -
  have b: "0 \<le> h * 100 + mi \<and> h * 100 + mi \<le> 2359 \<and> 0 \<le> (h * 100 + mi) * 100 + s \<and>
      (h * 100 + mi) * 100 + s \<le> 235959"
    if "0 \<le> h" "h < 24" "0 \<le> mi" "mi < 60" "0 \<le> s" "s < 60" for h mi s :: int
    using that by simp
  show "0 \<le> hm_digits t" "hm_digits t \<le> 2359" "0 \<le> hms_digits t" "hms_digits t \<le> 235959"
    unfolding hms_digits_def hm_digits_def using b [OF day_parts(1-6) [OF assms]] by blast+
qed

context boost_datetime begin

lemma number_values:
  assumes "dt_at pv d y m dd t"
  shows "dt_ymd_number X d = word_of_int (ymd_digits y m dd)"
    and "dt_ym X d = word_of_int (y * 100 + m)"
    and "dt_ymdh X d = word_of_int (ymd_digits y m dd * 100 + t div 3600000000)"
    and "dt_number X d = word_of_int (ymd_digits y m dd * 10000 + hm_digits t)"
    and "dt_ymdhm X d = word_of_int (ymd_digits y m dd * 10000 + hm_digits t)"
    and "dt_ymdhms X d = word_of_int (ymd_digits y m dd * 1000000 + hms_digits t)"
proof -
  have n: "\<not> dt_isNull X d" using assms finite_not_null(2) by (simp add: dt_at_def)
  note f = at_fields [OF assms]
  let ?h = "t div 3600000000" and ?mi = "t div 60000000 mod 60" and ?s = "t div 1000000 mod 60"
  have flat: "ymd_digits y m dd * 100 + ?h = y * 1000000 + m * 10000 + dd * 100 + ?h"
    "ymd_digits y m dd * 10000 + hm_digits t =
      y * 100000000 + m * 1000000 + dd * 10000 + ?h * 100 + ?mi"
    "ymd_digits y m dd * 1000000 + hms_digits t =
      y * 10000000000 + m * 100000000 + dd * 1000000 + ?h * 10000 + ?mi * 100 + ?s"
    by (simp_all add: ymd_digits_def hm_digits_def hms_digits_def)
  show "dt_ymd_number X d = word_of_int (ymd_digits y m dd)"
    by (simp add: dt_ymd_number_def or_null_def n f ymd_digits_def)
  show "dt_ym X d = word_of_int (y * 100 + m)" by (simp add: dt_ym_def or_null_def n f)
  show "dt_ymdh X d = word_of_int (ymd_digits y m dd * 100 + ?h)"
    unfolding flat by (simp add: dt_ymdh_def or_null_def n f)
  show "dt_number X d = word_of_int (ymd_digits y m dd * 10000 + hm_digits t)"
    unfolding flat by (simp add: dt_number_def or_null_def n f)
  show "dt_ymdhm X d = word_of_int (ymd_digits y m dd * 10000 + hm_digits t)"
    unfolding flat by (simp add: dt_ymdhm_def or_null_def n f)
  show "dt_ymdhms X d = word_of_int (ymd_digits y m dd * 1000000 + hms_digits t)"
    unfolding flat by (simp add: dt_ymdhms_def or_null_def n f)
qed

lemma number_null:
  assumes "pv (m_data d) = PosInfin"
  shows "dt_ymd_number X d = null_u64" "dt_number X d = null_u64" "dt_ymdhms X d = null_u64"
    "dt_hex X d = null_u64" "dt_ticks X d = null_u64" "dt_timestamp X d = null_u64"
  using infin_null(2) [OF assms] date_infin [OF assms] infin
  by (simp_all add: dt_ymd_number_def dt_number_def dt_ymdhms_def dt_hex_def dt_ticks_def
      dt_timestamp_def or_null_def days_eq plain_def)

end

section \<open>Reading numbers back\<close>

lemma ymd_digits_fields:
  fixes y m dd :: int
  assumes "0 \<le> m" "m < 100" "0 \<le> dd" "dd < 100"
  defines "v \<equiv> ymd_digits y m dd"
  shows "v div 10000 = y" "(v - v div 10000 * 10000) div 100 = m" "v - v div 100 * 100 = dd"
proof -
  have v: "v = y * 10000 + (m * 100 + dd)" "v = (y * 100 + m) * 100 + dd"
    by (simp_all add: v_def ymd_digits_def)
  show "v div 10000 = y" unfolding v(1) using assms by (intro digits) simp_all
  have "v - v div 10000 * 10000 = m * 100 + dd"
    unfolding v(1) using assms by (intro digits) simp_all
  moreover have "(m * 100 + dd) div 100 = m" using assms by (intro digits) simp_all
  ultimately show "(v - v div 10000 * 10000) div 100 = m" by simp
  show "v - v div 100 * 100 = dd" unfolding v(2) using assms by (intro digits) simp_all
qed

text \<open>
  \<open>w\<close> is a date followed by \<open>k\<close> further digits: the positions of the date are found the same way.
\<close>

lemma shifted_digits:
  fixes y m dd r k :: int
  assumes "0 \<le> m" "m < 100" "0 \<le> dd" "dd < 100" "0 \<le> r" "r < k" "0 < k"
  defines "w \<equiv> ymd_digits y m dd * k + r"
  shows "w div (10000 * k) = y"
    and "(w - y * (10000 * k)) div (100 * k) = m"
    and "(w - w div (100 * k) * (100 * k)) div k = dd"
    and "w - w div k * k = r"
proof -
  have "dd * k + r < 100 * k"
  proof -
    have "dd * k \<le> 99 * k" using assms by (intro mult_right_mono) simp_all
    with assms(6) show ?thesis by linarith
  qed
  moreover have "0 \<le> dd * k" using assms by simp
  ultimately have low: "0 \<le> dd * k + r" "dd * k + r < 100 * k" using assms by simp_all
  have "m * (100 * k) \<le> 99 * (100 * k)" using assms by (intro mult_right_mono) simp_all
  moreover have "0 \<le> m * (100 * k)" using assms by simp
  ultimately have mid: "0 \<le> m * (100 * k) + (dd * k + r)" "m * (100 * k) + (dd * k + r) < 10000 * k"
    using low by linarith+
  have w: "w = y * (10000 * k) + (m * (100 * k) + (dd * k + r))"
    "w = (y * 100 + m) * (100 * k) + (dd * k + r)" "w = ymd_digits y m dd * k + r"
    by (simp_all add: w_def ymd_digits_def algebra_simps)
  show "w div (10000 * k) = y" unfolding w(1) using mid by (rule digits)
  have "w - y * (10000 * k) = m * (100 * k) + (dd * k + r)" unfolding w(1) by simp
  then show "(w - y * (10000 * k)) div (100 * k) = m" using low by (simp only: digits)
  have "w - w div (100 * k) * (100 * k) = dd * k + r" unfolding w(2) using low by (rule digits)
  then show "(w - w div (100 * k) * (100 * k)) div k = dd" using assms by (simp only: digits)
  show "w - w div k * k = r" unfolding w(3) using assms by (intro digits)
qed

context boost_datetime begin

lemma ptime_at:
  assumes "boost_ymd y m dd" "0 \<le> h" "h < 24" "0 \<le> mi" "mi < 60" "0 \<le> s" "s < 60"
  shows "gives pv (bind_result (bd_ymd X (ushort y) (ushort m) (ushort dd)) (\<lambda>b.
      Inr \<lparr>m_data = bt_ptime X b (hms_of X (ushort h) (ushort mi) s 0)\<rparr>))
    (jdn y m dd * day_us + ((h * 60 + mi) * 60 + s) * 1000000)"
  using full_value [OF assms, of 0 0] assms by (simp add: dt_full_def ushort_small)

lemma ptime_at_midnight:
  assumes "boost_ymd y m dd"
  shows "gives pv (bind_result (bd_ymd X (ushort y) (ushort m) (ushort dd)) (\<lambda>b.
      Inr \<lparr>m_data = bt_ptime X b (hms_of X 0 0 0 0)\<rparr>)) (jdn y m dd * day_us)"
  using ymd_value [OF assms] by (simp add: dt_ymd_def dt_full_def)

lemma of_ymd_digits:
  assumes "boost_ymd y m dd"
  shows "gives pv (dt_of_number X (word_of_int (ymd_digits y m dd))) (jdn y m dd * day_us)"
proof -
  have r: "0 \<le> m" "m < 100" "0 \<le> dd" "dd < 100"
    using assms month_len_bounds(2) [of y m] by (simp_all add: boost_ymd_def valid_ymd_def)
  note b = ymd_digits_bounds [OF assms]
  have "uint (word_of_int (ymd_digits y m dd) :: u64) = ymd_digits y m dd"
    "(word_of_int (ymd_digits y m dd) :: u64) \<noteq> null_u64"
    using b by (simp_all add: uint_small not_null)
  then show ?thesis
    using ptime_at_midnight [OF assms] b ymd_digits_fields [OF r, of y]
    by (simp add: dt_of_number_def Let_def)
qed

lemma of_ymdhm_digits:
  assumes "boost_ymd y m dd" "0 \<le> h" "h < 24" "0 \<le> mi" "mi < 60"
  defines "w \<equiv> ymd_digits y m dd * 10000 + (h * 100 + mi)"
  shows "gives pv (dt_of_number X (word_of_int w)) (jdn y m dd * day_us + (h * 60 + mi) * 60 * 1000000)"
proof -
  have r: "0 \<le> m" "m < 100" "0 \<le> dd" "dd < 100"
    using assms(1) month_len_bounds(2) [of y m] by (simp_all add: boost_ymd_def valid_ymd_def)
  have b: "99999999 < w" "w \<le> 999999999999"
    using ymd_digits_bounds [OF assms(1)] assms(2-) by simp_all
  then have u: "uint (word_of_int w :: u64) = w" "(word_of_int w :: u64) \<noteq> null_u64"
    by (simp_all add: uint_small not_null)
  have k: "0 \<le> h * 100 + mi" "h * 100 + mi < 10000" "(0 :: int) < 10000" using assms by simp_all
  have f: "w div 100000000 = y" "(w - y * 100000000) div 1000000 = m"
    "(w - w div 1000000 * 1000000) div 10000 = dd" "w - w div 10000 * 10000 = h * 100 + mi"
    using shifted_digits [OF r k, of y, folded w_def] by (simp_all only: arith_simps)
  have hm: "(h * 100 + mi) div 100 = h" using assms by (intro digits) simp_all
  have w2: "w = (ymd_digits y m dd * 100 + h) * 100 + mi" by (simp add: w_def)
  have mi: "w - w div 100 * 100 = mi" unfolding w2 using assms by (intro digits) simp_all
  show ?thesis
    using ptime_at [OF assms(1-5), of 0] b assms(2-5) by (simp add: dt_of_number_def Let_def u f hm mi)
qed

lemma of_ymdhms_digits:
  assumes "boost_ymd y m dd" "0 \<le> h" "h < 24" "0 \<le> mi" "mi < 60" "0 \<le> s" "s < 60"
  defines "w \<equiv> ymd_digits y m dd * 1000000 + ((h * 100 + mi) * 100 + s)"
  shows "gives pv (dt_of_number X (word_of_int w))
    (jdn y m dd * day_us + ((h * 60 + mi) * 60 + s) * 1000000)"
proof -
  have r: "0 \<le> m" "m < 100" "0 \<le> dd" "dd < 100"
    using assms(1) month_len_bounds(2) [of y m] by (simp_all add: boost_ymd_def valid_ymd_def)
  have b: "999999999999 < w" "w \<le> 99999999999999"
    using ymd_digits_bounds [OF assms(1)] assms(2-) by simp_all
  then have u: "uint (word_of_int w :: u64) = w" "(word_of_int w :: u64) \<noteq> null_u64"
    by (simp_all add: uint_small not_null)
  have k: "0 \<le> (h * 100 + mi) * 100 + s" "(h * 100 + mi) * 100 + s < 1000000" "(0 :: int) < 1000000"
    using assms by simp_all
  have f: "w div 10000000000 = y" "(w - y * 10000000000) div 100000000 = m"
    "(w - w div 100000000 * 100000000) div 1000000 = dd"
    "w - w div 1000000 * 1000000 = (h * 100 + mi) * 100 + s"
    using shifted_digits [OF r k, of y, folded w_def] by (simp_all only: arith_simps)
  have "(h * 100 + mi) * 100 + s = h * 10000 + (mi * 100 + s)" by simp
  moreover have "(h * 10000 + (mi * 100 + s)) div 10000 = h" using assms by (intro digits) simp_all
  ultimately have hm: "(w - w div 1000000 * 1000000) div 10000 = h" by (simp only: f(4))
  have w2: "w = (ymd_digits y m dd * 100 + h) * 10000 + (mi * 100 + s)"
    "w = (ymd_digits y m dd * 10000 + (h * 100 + mi)) * 100 + s" by (simp_all add: w_def)
  have "w - w div 10000 * 10000 = mi * 100 + s" unfolding w2(1) using assms by (intro digits) simp_all
  moreover have "(mi * 100 + s) div 100 = mi" using assms by (intro digits) simp_all
  ultimately have mi: "(w - w div 10000 * 10000) div 100 = mi" by simp
  have s: "w - w div 100 * 100 = s" unfolding w2(2) using assms by (intro digits) simp_all
  show ?thesis
    using ptime_at [OF assms(1-7)] b assms(2-7) by (simp add: dt_of_number_def Let_def u f(1-3) hm mi s)
qed

lemma number_back:
  assumes "dt_at pv d y m dd t"
  shows "gives pv (dt_of_number X (dt_ymd_number X d)) (jdn y m dd * day_us)"
    and "gives pv (dt_of_number X (dt_number X d)) (jdn y m dd * day_us + (t - t mod 60000000))"
    and "gives pv (dt_of_number X (dt_ymdhms X d)) (jdn y m dd * day_us + (t - t mod 1000000))"
proof -
  from assms have b: "boost_ymd y m dd" and t: "0 \<le> t" "t < day_us" by (simp_all add: dt_at_def)
  note n = number_values [OF assms] and p = day_parts [OF t]
  show "gives pv (dt_of_number X (dt_ymd_number X d)) (jdn y m dd * day_us)"
    unfolding n using b by (rule of_ymd_digits)
  show "gives pv (dt_of_number X (dt_number X d)) (jdn y m dd * day_us + (t - t mod 60000000))"
    unfolding n hm_digits_def p(7) [symmetric] using b p(1-4) by (rule of_ymdhm_digits)
  show "gives pv (dt_of_number X (dt_ymdhms X d)) (jdn y m dd * day_us + (t - t mod 1000000))"
    unfolding n hm_digits_def hms_digits_def p(8) [symmetric] using b p(1-6) by (rule of_ymdhms_digits)
qed

end

section \<open>The Oracle format\<close>

text \<open>Seven bytes in one word; every byte is found again by its mask and shift.\<close>

definition pack7 :: "u64 \<Rightarrow> u64 \<Rightarrow> u64 \<Rightarrow> u64 \<Rightarrow> u64 \<Rightarrow> u64 \<Rightarrow> u64 \<Rightarrow> u64" where
  "pack7 a0 a1 a2 a3 a4 a5 a6 =
     a0 OR push_bit 8 a1 OR push_bit 16 a2 OR push_bit 24 a3 OR push_bit 32 a4 OR push_bit 40 a5 OR
     push_bit 48 a6"

lemma small_bits: "a < 256 \<Longrightarrow> bit a n \<Longrightarrow> n < 8" for a :: u64
  using bit_unat_less [of a 8 n] by (simp add: word_less_nat_alt)

lemma bit_masked:
  "k \<le> 56 \<Longrightarrow> bit (drop_bit k (push_bit k (mask 8) AND w)) n \<longleftrightarrow> n < 8 \<and> bit w (k + n)" for w :: u64
  using bit_imp_le_length [of w "k + n"]
  by (auto simp: bit_simps)

lemma bit_shifted:
  fixes a :: u64
  assumes "a < 256"
  shows "bit (push_bit 8 a) n \<longleftrightarrow> 8 \<le> n \<and> bit a (n - 8)"
    "bit (push_bit 16 a) n \<longleftrightarrow> 16 \<le> n \<and> bit a (n - 16)"
    "bit (push_bit 24 a) n \<longleftrightarrow> 24 \<le> n \<and> bit a (n - 24)"
    "bit (push_bit 32 a) n \<longleftrightarrow> 32 \<le> n \<and> bit a (n - 32)"
    "bit (push_bit 40 a) n \<longleftrightarrow> 40 \<le> n \<and> bit a (n - 40)"
    "bit (push_bit 48 a) n \<longleftrightarrow> 48 \<le> n \<and> bit a (n - 48)"
  by (auto simp: bit_push_bit_iff dest: small_bits [OF assms])

lemma byte_masks:
  "(0xFF00 :: u64) = push_bit 8 (mask 8)"
  "(0xFF0000 :: u64) = push_bit 16 (mask 8)" "(0xFF000000 :: u64) = push_bit 24 (mask 8)"
  "(0xFF00000000 :: u64) = push_bit 32 (mask 8)" "(0xFF0000000000 :: u64) = push_bit 40 (mask 8)"
  "(0xFF000000000000 :: u64) = push_bit 48 (mask 8)"
  by (simp_all add: mask_eq_exp_minus_1 push_bit_eq_mult)

lemma unpack7:
  assumes "a0 < 256" "a1 < 256" "a2 < 256" "a3 < 256" "a4 < 256" "a5 < 256" "a6 < 256"
  defines "w \<equiv> pack7 a0 a1 a2 a3 a4 a5 a6"
  shows "0xFF AND w = a0" "drop_bit 8 (0xFF00 AND w) = a1" "drop_bit 16 (0xFF0000 AND w) = a2"
    "drop_bit 24 (0xFF000000 AND w) = a3" "drop_bit 32 (0xFF00000000 AND w) = a4"
    "drop_bit 40 (0xFF0000000000 AND w) = a5" "drop_bit 48 (0xFF000000000000 AND w) = a6"
proof -
  note b = small_bits [OF assms(1)] small_bits [OF assms(2)] small_bits [OF assms(3)]
    small_bits [OF assms(4)] small_bits [OF assms(5)] small_bits [OF assms(6)] small_bits [OF assms(7)]
  have w: "bit w n \<longleftrightarrow> bit a0 n \<or> 8 \<le> n \<and> bit a1 (n - 8) \<or> 16 \<le> n \<and> bit a2 (n - 16) \<or>
      24 \<le> n \<and> bit a3 (n - 24) \<or> 32 \<le> n \<and> bit a4 (n - 32) \<or> 40 \<le> n \<and> bit a5 (n - 40) \<or>
      48 \<le> n \<and> bit a6 (n - 48)" for n
    unfolding w_def pack7_def bit_or_iff
    by (simp only: bit_shifted [OF assms(2)] bit_shifted [OF assms(3)] bit_shifted [OF assms(4)]
        bit_shifted [OF assms(5)] bit_shifted [OF assms(6)] bit_shifted [OF assms(7)] disj_assoc)
  have "mask 8 AND w = a0"
    by (rule bit_eqI) (auto simp: bit_and_iff bit_mask_iff w dest: b)
  then show "0xFF AND w = a0" by (simp add: mask_eq_exp_minus_1)
  show "drop_bit 8 (0xFF00 AND w) = a1"
    unfolding byte_masks by (rule bit_eqI, subst bit_masked, simp) (auto simp: w dest: b)
  show "drop_bit 16 (0xFF0000 AND w) = a2"
    unfolding byte_masks by (rule bit_eqI, subst bit_masked, simp) (auto simp: w dest: b)
  show "drop_bit 24 (0xFF000000 AND w) = a3"
    unfolding byte_masks by (rule bit_eqI, subst bit_masked, simp) (auto simp: w dest: b)
  show "drop_bit 32 (0xFF00000000 AND w) = a4"
    unfolding byte_masks by (rule bit_eqI, subst bit_masked, simp) (auto simp: w dest: b)
  show "drop_bit 40 (0xFF0000000000 AND w) = a5"
    unfolding byte_masks by (rule bit_eqI, subst bit_masked, simp) (auto simp: w dest: b)
  show "drop_bit 48 (0xFF000000000000 AND w) = a6"
    unfolding byte_masks by (rule bit_eqI, subst bit_masked, simp) (auto simp: w dest: b)
qed

context boost_datetime begin

lemma hex_value:
  assumes "dt_at pv d y m dd t"
  shows "dt_hex X d = pack7 (word_of_int (t div 1000000 mod 60)) (word_of_int (t div 60000000 mod 60))
    (word_of_int (t div 3600000000)) (word_of_int dd) (word_of_int m)
    (word_of_int (y mod 100)) (word_of_int (y div 100))"
proof -
  have y: "1400 \<le> y" "y \<le> 9999" using assms by (simp_all add: dt_at_def boost_ymd_def)
  then have yd: "y div 100 < 100" "0 \<le> y div 100" "y mod 100 = y - y div 100 * 100"
    using div_bounds [of 100 0 y] div_bounds(2) [of 100 y 100]
    by (simp_all add: minus_div_mult_eq_mod)
  have "uint ((word_of_int y :: u64) div 100) = y div 100"
    using y by (simp add: uint_div uint_small)
  also have "\<dots> = uint (word_of_int (y div 100) :: u64)" using yd(1,2) by (simp add: uint_small)
  finally have high: "(word_of_int y :: u64) div 100 = word_of_int (y div 100)"
    by (simp only: word_uint_eq_iff)
  have low: "(word_of_int (y mod 100) :: u64) = word_of_int y - word_of_int (y div 100) * 100"
    unfolding yd(3) by simp
  have nn: "dv (bt_date X (m_data d)) = Finite (jdn y m dd)"
    using at_fields(4) [OF assms] by (simp add: dt_date_def)
  have n: "\<not> bd_eq X (bt_date X (m_data d)) (bd_pos_infin X)"
    using nn infin by (simp add: days_eq plain_def)
  have "dt_hex X d = pack7 (word_of_int (t div 1000000 mod 60)) (word_of_int (t div 60000000 mod 60))
    (word_of_int (t div 3600000000)) (word_of_int dd) (word_of_int m)
    (word_of_int y - word_of_int y div 100 * 100) (word_of_int y div 100)"
    by (simp only: dt_hex_def n if_False at_fields [OF assms] bind_result.simps Let_def or_null_def
        sum.case pack7_def or.assoc)
  then show ?thesis by (simp only: high low)
qed

lemma hex_back:
  assumes "dt_at pv d y m dd t"
  shows "gives pv (dt_fromHex X (dt_hex X d)) (jdn y m dd * day_us + (t - t mod 1000000))"
proof -
  from assms have b: "boost_ymd y m dd" and t: "0 \<le> t" "t < day_us" by (simp_all add: dt_at_def)
  note p = day_parts [OF t]
  let ?s = "t div 1000000 mod 60" and ?mi = "t div 60000000 mod 60" and ?h = "t div 3600000000"
  let ?w = "dt_hex X d"
  have small: "(word_of_int k :: u64) < 256 \<and> sint (word_of_int k :: u64) = k"
    if "0 \<le> k" "k < 256" for k :: int
    using that by (simp add: word_less_def uint_small sint_of_int64 is_int64_def)
  have ymd: "0 \<le> dd" "dd < 256" "0 \<le> m" "m < 256" "1400 \<le> y" "y \<le> 9999"
    using b month_len_bounds(2) [of y m] by (simp_all add: boost_ymd_def valid_ymd_def)
  have yb: "0 \<le> y mod 100" "y mod 100 < 256" "0 \<le> y div 100" "y div 100 < 256"
    using ymd(5,6) div_bounds(1) [of 100 0 y] div_bounds(2) [of 100 y 256]
      pos_mod_bound [of 100 y] by simp_all
  have hb: "0 \<le> ?s" "?s < 256" "0 \<le> ?mi" "?mi < 256" "0 \<le> ?h" "?h < 256"
    using p(1-6) by linarith+
  note u = unpack7 [OF small [THEN conjunct1, OF hb(1,2)] small [THEN conjunct1, OF hb(3,4)]
      small [THEN conjunct1, OF hb(5,6)] small [THEN conjunct1, OF ymd(1,2)]
      small [THEN conjunct1, OF ymd(3,4)] small [THEN conjunct1, OF yb(1,2)]
      small [THEN conjunct1, OF yb(3,4)], folded hex_value [OF assms]]
  have year: "(word_of_int (y div 100) :: u64) * 100 + word_of_int (y mod 100) = word_of_int y"
  proof -
    have "(word_of_int (y div 100) :: u64) * 100 + word_of_int (y mod 100) =
        word_of_int (y div 100 * 100 + y mod 100)"
      by (simp only: of_int_add of_int_mult of_int_numeral)
    then show ?thesis by (simp only: div_mult_mod_eq)
  qed
  have sy: "sint (word_of_int y :: u64) = y" using ymd by (intro sint_of_int64) (simp add: is_int64_def)
  have "?w \<noteq> null_u64"
  proof
    assume "?w = null_u64"
    with u(1) have "(word_of_int ?s :: u64) = 0xFF" by (simp add: null_u64_def)
    with small [OF hb(1,2)] have "?s = sint (0xFF :: u64)" by metis
    with p(6) show False by simp
  qed
  then have "dt_fromHex X ?w = dt_full X y m dd ?h ?mi ?s 0 0"
    by (simp only: dt_fromHex_def Let_def u year sy small hb ymd if_False eq_commute [of null_u64])
  with full_value [OF b p(1-6), of 0 0, unfolded p(8)] show ?thesis by simp
qed

end

section \<open>Microseconds\<close>

definition epoch_day :: int where
  "epoch_day = 2440588"

lemma epoch_jdn: "jdn 1970 1 1 = epoch_day"
  by (simp add: epoch_day_def jdn_def days_before_year_def days_before_month_def)

lemma moment_span:
  assumes "moment u" "moment v"
  shows "in_total_range (u - v)" "is_int64 (u - v)" "u - v < 2 ^ 62"
  using assms
  by (simp_all add: moment_def first_day_def last_day_def day_us_def in_total_range_def is_int64_def
      m_min_micro_seconds_def m_max_micro_seconds_def)

lemma moment_ends: "moment (first_day * day_us)" "moment (epoch_day * day_us)"
  by (simp_all add: moment_def first_day_def last_day_def day_us_def epoch_day_def)

context boost_datetime begin

lemma diff_value:
  assumes "pv (m_data d) = Finite u" "pv (m_data e) = Finite v" "moment u" "moment v"
  shows "\<exists>t. dt_diff X d e = Inr t \<and> td_ticks (dur X) t = u - v \<and> td_valid (dur X) t"
proof -
  have "ticks_of (dur X) (bt_diff X (m_data d) (m_data e)) = u - v"
    using assms by (intro time_diff moment_time_count)
  then show ?thesis
    using moment_span(1) [OF assms(3,4)]
    by (simp add: dt_diff_def td_of_duration_def td_ticks_def td_valid_def)
qed

lemma plus_value:
  assumes "pv (m_data d) = Finite u" "moment u" "moment (u + td_ticks (dur X) t)"
  shows "pv (m_data (dt_plus X d t)) = Finite (u + td_ticks (dur X) t)"
  using time_plus [OF assms(1), of "m_duration t"] assms(2,3) moment_time_count
  by (simp add: dt_plus_def dt_of_ptime_def td_ticks_def)

lemma ticks_value:
  assumes "pv (m_data d) = Finite u" "moment u"
  shows "dt_ticks X d = word_of_int (u - first_day * day_us)"
proof -
  obtain mn where mn: "dt_min X = Inr mn" "pv (m_data mn) = Finite (first_day * day_us)"
    using min_value by (auto simp: gives_def)
  from diff_value [OF assms(1) mn(2) assms(2) moment_ends(1)] show ?thesis
    using mn(1) finite_not_null(2) [OF assms(1)] by (auto simp: dt_ticks_def or_null_def)
qed

lemma epoch_value: "\<exists>e. dt_ymd X 1970 1 1 = Inr e \<and> pv (m_data e) = Finite (epoch_day * day_us)"
  using ymd_value [OF boost_ymd_ends(3)] by (simp add: gives_def epoch_jdn)

lemma timestamp_value:
  assumes "pv (m_data d) = Finite u" "moment u"
  shows "dt_timestamp X d = word_of_int (u - epoch_day * day_us)"
proof -
  obtain e where e: "dt_ymd X 1970 1 1 = Inr e" "pv (m_data e) = Finite (epoch_day * day_us)"
    using epoch_value by blast
  from diff_value [OF assms(1) e(2) assms(2) moment_ends(2)] show ?thesis
    using e(1) finite_not_null(2) [OF assms(1)] by (auto simp: dt_timestamp_def or_null_def)
qed

lemma timestampUTC_value:
  assumes "pv (m_data d) = Finite u" "moment u" "\<bar>td_ticks (dur X) off\<bar> \<le> day_us"
  shows "dt_timestampUTC X off d = word_of_int (u - epoch_day * day_us - td_ticks (dur X) off)"
proof -
  obtain e where e: "dt_ymd X 1970 1 1 = Inr e" "pv (m_data e) = Finite (epoch_day * day_us)"
    using epoch_value by blast
  obtain t where t: "dt_diff X d e = Inr t" "td_ticks (dur X) t = u - epoch_day * day_us"
    using diff_value [OF assms(1) e(2) assms(2) moment_ends(2)] by blast
  have r: "in_total_range (u - epoch_day * day_us - td_ticks (dur X) off)"
    using assms(2,3)
    by (simp add: moment_def first_day_def last_day_def day_us_def in_total_range_def epoch_day_def
      m_min_micro_seconds_def m_max_micro_seconds_def abs_le_iff)
  have "ticks_of (dur X) (minus_of (dur X) (m_duration t) (m_duration off)) =
      td_ticks (dur X) t - td_ticks (dur X) off"
    using durations r t(2) td_range_int64 by (simp add: boost_duration_def td_ticks_def)
  then show ?thesis
    using t e(1) r finite_not_null(2) [OF assms(1)]
    by (simp add: dt_timestampUTC_def or_null_def td_minus_def td_of_duration_def td_ticks_def)
qed

lemma fromTimestamp_value:
  assumes "moment (epoch_day * day_us + n)"
  shows "gives pv (dt_fromTimestamp X n) (epoch_day * day_us + n)"
proof -
  obtain e where e: "dt_ymd X 1970 1 1 = Inr e" "pv (m_data e) = Finite (epoch_day * day_us)"
    using epoch_value by blast
  have r: "in_total_range n" using moment_span(1) [OF assms moment_ends(2)] by simp
  have t: "td_ticks (dur X) \<lparr>m_duration = of_ticks (dur X) n\<rparr> = n"
    using durations r by (rule td_ticks_of_ticks)
  show ?thesis
    using plus_value [OF e(2) moment_ends(2), of "\<lparr>m_duration = of_ticks (dur X) n\<rparr>"] e(1) assms r
    by (simp add: dt_fromTimestamp_def fromTicks_spec [OF durations] t gives_def)
qed

lemma fromTimestampUTC_value:
  assumes "moment (epoch_day * day_us + n)" "moment (epoch_day * day_us + n + td_ticks (dur X) off)"
  shows "gives pv (dt_fromTimestampUTC X off n) (epoch_day * day_us + n + td_ticks (dur X) off)"
  unfolding dt_fromTimestampUTC_def
  by (rule gives_bind [OF fromTimestamp_value [OF assms(1)]], rule givesI [OF refl])
    (rule plus_value [OF _ assms])

lemma compare_value:
  assumes "pv (m_data d) = Finite u" "pv (m_data e) = Finite v"
  shows "dt_less X d e \<longleftrightarrow> u < v" "dt_greater X d e \<longleftrightarrow> v < u" "dt_eq X d e \<longleftrightarrow> u = v"
  using assms by (simp_all add: dt_less_def dt_greater_def dt_eq_def time_less time_eq plain_def)

end

section \<open>What the constructors do not check\<close>

text \<open>
  Years are truncated to 16 bits before boost sees them; seconds of a number of 14 digits may reach
  99, and hours, minutes and seconds of the constructor from fields are not checked at all.
\<close>

lemma dt_year_wraps: "dt_full X (y + 65536) m d hh mm s ms us = dt_full X y m d hh mm s ms us"
  by (simp add: dt_full_def ushort_def)

lemma jdn_2001: "jdn 2001 1 1 = 2451911"
  by (simp add: jdn_def days_before_year_def days_before_month_def)

lemma boost_2001: "boost_ymd 2001 1 1"
  by (simp add: boost_ymd_def valid_ymd_def month_len_def)

lemma dt_seconds_unchecked:
  "dt_of_number std_calendar 20010101000099 = Inr \<lparr>m_data = Finite (jdn 2001 1 1 * day_us + 99000000)\<rparr>"
  by (simp add: dt_of_number_def null_u64_def Let_def std_calendar_def boost_2001 ushort_def)

lemma dt_hours_unchecked:
  "dt_full std_calendar 2001 1 1 25 0 0 0 0 = Inr \<lparr>m_data = Finite (jdn 2001 1 1 * day_us + 90000000000)\<rparr>"
  by (simp add: dt_full_def std_calendar_def boost_2001 ushort_def)

text \<open>
  The string of a time with microseconds: seconds below 10 are filled up with a zero on the right,
  not on the left.
\<close>

lemma dt_str_fills_right:
  "dt_str std_calendar \<lparr>m_data = Finite (jdn 2001 1 1 * day_us + 5000001)\<rparr> =
    Inr ''2001-01-01 00:00:5.0000010''"
proof -
  let ?d = "\<lparr>m_data = Finite (jdn 2001 1 1 * day_us + 5000001)\<rparr>"
  have at: "dt_at (\<lambda>p. p) ?d 2001 1 1 5000001" by (simp add: dt_at_def boost_2001 day_us_def)
  have n: "\<not> dt_isNull std_calendar ?d" by (rule std.finite_not_null(2)) simp
  have "show_int 2001 = ''2001''" "show_int 1 = ''1''" "show_int 0 = ''0''" "show_int 5 = ''5''" by code_simp+
  moreover have r: "replicate 5 CHR ''0'' = ''00000''" by code_simp
  ultimately show ?thesis
    by (simp add: dt_str_def n std.at_fields [OF at] Let_def show_6f_def pad_left_def pad_right_def r)
qed

section \<open>Properties\<close>

text \<open>
  Property C6: the numbers of a \<open>Datetime\<close> have the digits of its date and time, and the constructor
  from a number reads each of them back: \<open>ymd()\<close> to midnight, \<open>number()\<close> to the minute, \<open>ymdhms()\<close>
  to the second; the byte format of \<open>hex()\<close> is read back by \<open>fromHex\<close>. The null value has the null
  number in every format.
\<close>

theorem datetime_number_roundtrip:
  assumes "boost_datetime X dv pv"
  shows "(dt_at pv d y m dd t \<longrightarrow>
      uint (dt_ymd_number X d) = ymd_digits y m dd \<and>
      uint (dt_number X d) = ymd_digits y m dd * 10000 + hm_digits t \<and>
      uint (dt_ymdhms X d) = ymd_digits y m dd * 1000000 + hms_digits t \<and>
      gives pv (dt_of_number X (dt_ymd_number X d)) (jdn y m dd * day_us) \<and>
      gives pv (dt_of_number X (dt_number X d)) (jdn y m dd * day_us + (t - t mod 60000000)) \<and>
      gives pv (dt_of_number X (dt_ymdhms X d)) (jdn y m dd * day_us + (t - t mod 1000000)) \<and>
      gives pv (dt_fromHex X (dt_hex X d)) (jdn y m dd * day_us + (t - t mod 1000000))) \<and>
    (pv (m_data d) = PosInfin \<longrightarrow>
      dt_of_number X (dt_ymd_number X d) = Inr (dt_Null X) \<and>
      dt_of_number X (dt_number X d) = Inr (dt_Null X) \<and>
      dt_of_number X (dt_ymdhms X d) = Inr (dt_Null X) \<and>
      dt_fromHex X (dt_hex X d) = Inr (dt_Null X))"
proof (rule conjI; rule impI)
  assume at: "dt_at pv d y m dd t"
  then have b: "boost_ymd y m dd" and t: "0 \<le> t" "t < day_us" by (simp_all add: dt_at_def)
  note v = boost_datetime.number_values [OF assms at]
  have u: "uint (dt_ymd_number X d) = ymd_digits y m dd"
    "uint (dt_number X d) = ymd_digits y m dd * 10000 + hm_digits t"
    "uint (dt_ymdhms X d) = ymd_digits y m dd * 1000000 + hms_digits t"
    unfolding v using ymd_digits_bounds [OF b] hm_digits_bounds [OF t] by (intro uint_small; simp)+
  show "uint (dt_ymd_number X d) = ymd_digits y m dd \<and>
      uint (dt_number X d) = ymd_digits y m dd * 10000 + hm_digits t \<and>
      uint (dt_ymdhms X d) = ymd_digits y m dd * 1000000 + hms_digits t \<and>
      gives pv (dt_of_number X (dt_ymd_number X d)) (jdn y m dd * day_us) \<and>
      gives pv (dt_of_number X (dt_number X d)) (jdn y m dd * day_us + (t - t mod 60000000)) \<and>
      gives pv (dt_of_number X (dt_ymdhms X d)) (jdn y m dd * day_us + (t - t mod 1000000)) \<and>
      gives pv (dt_fromHex X (dt_hex X d)) (jdn y m dd * day_us + (t - t mod 1000000))"
    by (intro conjI u boost_datetime.number_back [OF assms at] boost_datetime.hex_back [OF assms at])
next
  assume "pv (m_data d) = PosInfin"
  note n = boost_datetime.number_null [OF assms this]
  show "dt_of_number X (dt_ymd_number X d) = Inr (dt_Null X) \<and>
      dt_of_number X (dt_number X d) = Inr (dt_Null X) \<and>
      dt_of_number X (dt_ymdhms X d) = Inr (dt_Null X) \<and> dt_fromHex X (dt_hex X d) = Inr (dt_Null X)"
    by (simp add: n dt_of_number_def dt_fromHex_def dt_Null_def)
qed

text \<open>1999-12-31 23:59:59.999999 on the calendar of \<open>CalendarLaws\<close>.\<close>

definition last_second :: "bpoint datetime" where
  "last_second = \<lparr>m_data = Finite (jdn 1999 12 31 * day_us + 86399999999)\<rparr>"

lemma last_second_at: "dt_at (\<lambda>p. p) last_second 1999 12 31 86399999999"
  by (simp add: dt_at_def last_second_def boost_ymd_def valid_ymd_def month_len_def day_us_def)

theorem datetime_number_roundtrip_witness:
  "uint (dt_ymdhms std_calendar last_second) = 19991231235959 \<and>
   gives (\<lambda>p. p) (dt_of_number std_calendar (dt_ymdhms std_calendar last_second))
     (jdn 1999 12 31 * day_us + 86399000000) \<and>
   gives (\<lambda>p. p) (dt_fromHex std_calendar (dt_hex std_calendar last_second))
     (jdn 1999 12 31 * day_us + 86399000000)"
  using datetime_number_roundtrip [OF std.boost_datetime_axioms, of last_second 1999 12 31 86399999999]
    last_second_at
  by (simp add: ymd_digits_def hms_digits_def hm_digits_def)

text \<open>
  \<open>ticks()\<close> counts the microseconds since 1400-01-01 and orders datetimes as the
  comparison operators do; \<open>timestamp()\<close>, read as a signed number, counts them since 1970-01-01 (also
  before it), and \<open>fromTimestamp\<close> is its inverse on every point in time of the supported years; so
  are the UTC versions for every offset of at most a day.
\<close>

theorem datetime_timestamp_roundtrip:
  assumes "boost_datetime X dv pv"
    and "pv (m_data d) = Finite u" "moment u" "pv (m_data e) = Finite v" "moment v"
  shows "uint (dt_ticks X d) = u - first_day * day_us \<and>
    (dt_less X d e \<longleftrightarrow> uint (dt_ticks X d) < uint (dt_ticks X e)) \<and>
    (dt_eq X d e \<longleftrightarrow> dt_ticks X d = dt_ticks X e) \<and>
    sint (dt_timestamp X d) = u - epoch_day * day_us \<and>
    gives pv (dt_fromTimestamp X (sint (dt_timestamp X d))) u \<and>
    (\<bar>td_ticks (dur X) off\<bar> \<le> day_us \<and> moment (u - td_ticks (dur X) off) \<longrightarrow>
      gives pv (dt_fromTimestampUTC X off (sint (dt_timestampUTC X off d))) u)"
proof (intro conjI impI)
  note v = boost_datetime.ticks_value [OF assms(1)] boost_datetime.timestamp_value [OF assms(1)]
  have r: "0 \<le> w - first_day * day_us" "w - first_day * day_us < 2 ^ 64" if "moment w" for w
    using that moment_span(3) [OF that moment_ends(1)] by (simp_all add: moment_def)
  have ticks: "uint (dt_ticks X d) = u - first_day * day_us" "uint (dt_ticks X e) = v - first_day * day_us"
    unfolding v(1) [OF assms(2,3)] v(1) [OF assms(4,5)]
    by (rule uint_small [OF r [OF assms(3)]], rule uint_small [OF r [OF assms(5)]])
  note c = boost_datetime.compare_value [OF assms(1,2,4)]
  show "uint (dt_ticks X d) = u - first_day * day_us" by (rule ticks)
  show "dt_less X d e \<longleftrightarrow> uint (dt_ticks X d) < uint (dt_ticks X e)" using c ticks by simp
  show "dt_eq X d e \<longleftrightarrow> dt_ticks X d = dt_ticks X e" using c ticks by (simp add: word_uint_eq_iff)
  show ts: "sint (dt_timestamp X d) = u - epoch_day * day_us"
    unfolding v(2) [OF assms(2,3)] by (rule sint_of_int64 [OF moment_span(2) [OF assms(3) moment_ends(2)]])
  show "gives pv (dt_fromTimestamp X (sint (dt_timestamp X d))) u"
    using boost_datetime.fromTimestamp_value [OF assms(1), of "u - epoch_day * day_us"] assms(3)
    by (simp add: ts)
  assume off: "\<bar>td_ticks (dur X) off\<bar> \<le> day_us \<and> moment (u - td_ticks (dur X) off)"
  then have "is_int64 (u - epoch_day * day_us - td_ticks (dur X) off)"
    using moment_span(2) [OF _ moment_ends(2), of "u - td_ticks (dur X) off"]
    by (simp add: diff_diff_add add.commute)
  then have "sint (dt_timestampUTC X off d) = u - epoch_day * day_us - td_ticks (dur X) off"
    using boost_datetime.timestampUTC_value [OF assms(1-3)] off by (simp only: sint_of_int64)
  then show "gives pv (dt_fromTimestampUTC X off (sint (dt_timestampUTC X off d))) u"
    using boost_datetime.fromTimestampUTC_value [OF assms(1), of "u - epoch_day * day_us - td_ticks (dur X) off" off]
      off assms(3) by simp
qed

end
