(* ===== verification/DatetimePeriods.thy ===== *)
theory DatetimePeriods
  imports CalendarLaws
begin

text \<open>
  Days, weeks, months, quarters, half years and years of a \<open>Datetime\<close>: the day numbers at which the
  operations of \<open>Datetime.cpp\<close> place their results, the bounds they keep, and the ranges of dates.
\<close>

section \<open>Blocks of months\<close>

text \<open>
  A year is divided into blocks of \<open>k\<close> months: months, quarters, half years and the year for \<open>k\<close> = 1,
  3, 6 and 12.
\<close>

definition block_first :: "int \<Rightarrow> int \<Rightarrow> int" where
  "block_first k m = (m - 1) div k * k + 1"

definition period_start :: "int \<Rightarrow> int \<Rightarrow> int \<Rightarrow> int" where
  "period_start k y m = jdn y (block_first k m) 1"

definition period_end :: "int \<Rightarrow> int \<Rightarrow> int \<Rightarrow> int" where
  "period_end k y m = (let b = block_first k m + k - 1 in jdn y b (month_len y b))"

definition previous_start :: "int \<Rightarrow> int \<Rightarrow> int \<Rightarrow> int" where
  "previous_start k y m =
     (if block_first k m = 1 then jdn (y - 1) (13 - k) 1 else jdn y (block_first k m - k) 1)"

text \<open>The months that begin and end a block.\<close>

lemma blocks:
  assumes "1 \<le> m" "m \<le> 12"
  shows "block_first 1 m = m"
    and "block_first 3 m = (if m \<le> 3 then 1 else if m \<le> 6 then 4 else if m \<le> 9 then 7 else 10)"
    and "block_first 6 m = (if m \<le> 6 then 1 else 7)" "block_first 12 m = 1"
  using assms by (cases m rule: month_cases; simp add: block_first_def)+

lemma block_day:
  assumes "k \<in> {1, 3, 6, 12}" "boost_ymd y m dd"
  defines "b \<equiv> block_first k m"
  shows "boost_ymd y b 1" "boost_ymd y (b + k - 1) (month_len y (b + k - 1))"
    and "b \<le> m" "m \<le> b + k - 1" "b \<noteq> 1 \<Longrightarrow> boost_ymd y (b - k) 1" "b = 1 \<or> 1 < b"
proof -
  have m: "1 \<le> m" "m \<le> 12" and y: "1400 \<le> y" "y \<le> 9999"
    using assms(2) by (simp_all add: boost_ymd_def valid_ymd_def)
  have b: "1 \<le> b \<and> b + k - 1 \<le> 12 \<and> b \<le> m \<and> m \<le> b + k - 1 \<and> (b \<noteq> 1 \<longrightarrow> 1 \<le> b - k)"
    using assms(1) blocks [OF m] m by (auto simp: b_def)
  have k: "1 \<le> k" "k \<le> 12" using assms(1) by auto
  show "boost_ymd y b 1" "boost_ymd y (b + k - 1) (month_len y (b + k - 1))"
    "b \<le> m" "m \<le> b + k - 1" "b \<noteq> 1 \<Longrightarrow> boost_ymd y (b - k) 1" "b = 1 \<or> 1 < b"
    using b k y month_len_bounds(1) [of y b] month_len_bounds(1) [of y "b + k - 1"]
      month_len_bounds(1) [of y "b - k"]
    by (auto simp: boost_ymd_def valid_ymd_def)
qed

text \<open>A day lies in its block; blocks follow each other without a gap.\<close>

lemma jdn_le:
  assumes "valid_ymd y m d" "valid_ymd y m' d'" "m < m' \<or> m = m' \<and> d \<le> d'"
  shows "jdn y m d \<le> jdn y m' d'"
  using jdn_less_iff [OF assms(2,1)] assms(3) by (auto simp: not_less [symmetric])

lemma day_in_block:
  assumes "k \<in> {1, 3, 6, 12}" "boost_ymd y m dd"
  shows "period_start k y m \<le> jdn y m dd" "jdn y m dd \<le> period_end k y m"
proof -
  note b = block_day [OF assms]
  have v: "valid_ymd y m dd" using assms(2) by (simp add: boost_ymd_def)
  show "period_start k y m \<le> jdn y m dd"
    unfolding period_start_def using b(1,3) v by (intro jdn_le) (auto simp: boost_ymd_def valid_ymd_def)
  define e where "e = block_first k m + k - 1"
  have "m < e \<or> m = e \<and> dd \<le> month_len y e"
    using b(4) v by (cases "m = e") (auto simp: e_def [symmetric] valid_ymd_def)
  then show "jdn y m dd \<le> period_end k y m"
    unfolding period_end_def Let_def e_def [symmetric] using b(2) v
    by (intro jdn_le) (simp_all add: boost_ymd_def e_def [symmetric])
qed

lemma block_after:
  assumes "k \<in> {1, 3, 6, 12}" "1 \<le> m" "m + k \<le> 12"
  shows "period_end k y m + 1 = period_start k y (m + k)"
proof -
  have b: "block_first k (m + k) = block_first k m + k" "block_first k m + k - 1 < 12" "1 \<le> block_first k m + k - 1"
    using assms blocks [of m] blocks [of "m + k"] by auto
  then show ?thesis
    using jdn_next_month [of "block_first k m + k - 1" y] assms
    by (simp add: period_end_def period_start_def Let_def)
qed

lemma blocks_follow:
  assumes "k \<in> {1, 3, 6, 12}" "1 \<le> m" "m \<le> 12"
  shows "previous_start k y m =
    (if m \<le> k then period_start k (y - 1) (m + 12 - k) else period_start k y (m - k))"
    and "m \<le> k \<Longrightarrow> period_end k (y - 1) (m + 12 - k) + 1 = period_start k y m"
    and "\<not> m \<le> k \<Longrightarrow> period_end k y (m - k) + 1 = period_start k y m"
proof -
  have "block_first k m = 1 \<longleftrightarrow> m \<le> k" using assms blocks [OF assms(2,3)] by (auto split: if_splits)
  moreover have "block_first k (m + 12 - k) = 13 - k" if "m \<le> k"
    using assms that blocks [of "m + 12 - k"] by auto
  moreover have "block_first k (m - k) = block_first k m - k" if "\<not> m \<le> k"
    using assms that blocks [of m] blocks [of "m - k"] by auto
  ultimately show "previous_start k y m =
    (if m \<le> k then period_start k (y - 1) (m + 12 - k) else period_start k y (m - k))"
    and "m \<le> k \<Longrightarrow> period_end k (y - 1) (m + 12 - k) + 1 = period_start k y m"
    using jdn_next_year [of "y - 1"]
    by (auto simp: previous_start_def period_start_def period_end_def Let_def month_len_def)
  show "\<not> m \<le> k \<Longrightarrow> period_end k y (m - k) + 1 = period_start k y m"
    using block_after [OF assms(1), of "m - k" y] assms by simp
qed

section \<open>The operations\<close>

lemma min_day: "min (a * day_us) (b * day_us) = min a b * day_us"
  and max_day: "max (a * day_us) (b * day_us) = max a b * day_us"
  by (auto simp: min_def max_def day_us_def)

context boost_datetime begin

lemma gives_ymd: "boost_ymd y m d \<Longrightarrow> u = jdn y m d * day_us \<Longrightarrow> gives pv (dt_ymd X y m d) u"
  using ymd_value by simp

lemma day_value:
  assumes "dv b = Finite n" "near n"
  shows "gives pv (Inr (dt_of_date X b)) (n * day_us)"
  using of_date_value [OF assms] by (simp add: gives_def)

lemma date_of_midnight:
  assumes "pv (m_data e) = Finite (n * day_us)" "first_day \<le> n" "n \<le> last_day"
  shows "dv (dt_date X e) = Finite n"
  using ptime_date [OF assms(1) moment_time_count] moment_day(1,2) [OF assms(2,3), of 0] assms
  by (simp add: dt_date_def day_us_def)

lemma not_null_at:
  assumes "dt_at pv d y m dd t"
  shows "\<not> dt_eq X d (dt_Null X)"
  using assms finite_not_null(1) by (auto simp: dt_at_def)

lemma at_month: "dt_at pv d y m dd t \<Longrightarrow> 1 \<le> m \<and> m \<le> 12"
  by (simp add: dt_at_def boost_ymd_def valid_ymd_def)

text \<open>\<open>Datetime(e.date() + date_duration(1))\<close>, then \<open>max()\<close> if it is later.\<close>

lemma next_day_clamped:
  assumes "pv (m_data e) = Finite (n * day_us)" "first_day \<le> n" "n \<le> last_day"
  shows "gives pv (at_most_max X (dt_of_date X (bd_plus X (dt_date X e) 1)))
    (min (n + 1) last_day * day_us)"
proof -
  have c: "near n" "near (n + 1)" using assms(2,3) by (simp_all add: near_def)
  have "dv (bd_plus X (dt_date X e) 1) = Finite (n + 1)"
    using date_of_midnight [OF assms] near_counts [OF c(1)] near_counts [OF c(2)]
    by (intro days_plus) blast+
  then have "pv (m_data (dt_of_date X (bd_plus X (dt_date X e) 1))) = Finite ((n + 1) * day_us)"
    using c(2) by (rule of_date_value)
  from at_most_max_value [OF this] show ?thesis by (simp only: min_day)
qed

lemma start_values:
  assumes "dt_at pv d y m dd t"
  shows "gives pv (dt_startOfMonth X d) (period_start 1 y m * day_us)"
    and "gives pv (dt_startOfQuarter X d) (period_start 3 y m * day_us)"
    and "gives pv (dt_startOfHalfyear X d) (period_start 6 y m * day_us)"
    and "gives pv (dt_startOfYear X d) (period_start 12 y m * day_us)"
proof -
  from assms have b: "boost_ymd y m dd" by (simp add: dt_at_def)
  have m: "1 \<le> m" "m \<le> 12" using at_month [OF assms] by simp_all
  note n = not_null_at [OF assms] and f = at_fields [OF assms]
  note v = block_day(1) [OF _ b, of 1] block_day(1) [OF _ b, of 3] block_day(1) [OF _ b, of 6]
    block_day(1) [OF _ b, of 12]
  show "gives pv (dt_startOfMonth X d) (period_start 1 y m * day_us)"
    using v(1) by (simp add: dt_startOfMonth_def n f gives_ymd period_start_def blocks [OF m])
  show "gives pv (dt_startOfQuarter X d) (period_start 3 y m * day_us)"
    using v(2) m by (simp add: dt_startOfQuarter_def n f gives_ymd period_start_def blocks [OF m]
        split: if_splits)
  show "gives pv (dt_startOfHalfyear X d) (period_start 6 y m * day_us)"
    using v(3) by (simp add: dt_startOfHalfyear_def n f gives_ymd period_start_def blocks [OF m]
        split: if_splits)
  show "gives pv (dt_startOfYear X d) (period_start 12 y m * day_us)"
    using v(4) by (simp add: dt_startOfYear_def n f gives_ymd period_start_def blocks [OF m])
qed

lemma end_values:
  assumes "dt_at pv d y m dd t"
  shows "gives pv (dt_endOfMonth X d) (period_end 1 y m * day_us)"
    and "gives pv (dt_endOfQuarter X d) (period_end 3 y m * day_us)"
    and "gives pv (dt_endOfHalfyear X d) (period_end 6 y m * day_us)"
    and "gives pv (dt_endOfYear X d) (period_end 12 y m * day_us)"
proof -
  from assms have b: "boost_ymd y m dd" by (simp add: dt_at_def)
  have m: "1 \<le> m" "m \<le> 12" using at_month [OF assms] by simp_all
  note n = not_null_at [OF assms] and f = at_fields [OF assms]
  note v = block_day(2) [OF _ b, of 1] block_day(2) [OF _ b, of 3] block_day(2) [OF _ b, of 6]
    block_day(2) [OF _ b, of 12]
  obtain e where e: "bd_end_of_month X (dt_date X d) = Inr e" "dv e = Finite (jdn y m (month_len y m))"
    using end_of_month [OF b f(4)] by blast
  have "near (jdn y m (month_len y m))"
    using boost_ymd_range [of y m "month_len y m"] v(1) by (intro day_near) (simp_all add: blocks [OF m])
  from of_date_value [OF e(2) this]
  show "gives pv (dt_endOfMonth X d) (period_end 1 y m * day_us)"
    by (simp add: dt_endOfMonth_def n e(1) gives_def period_end_def blocks [OF m])
  show "gives pv (dt_endOfQuarter X d) (period_end 3 y m * day_us)"
    using v(2) m by (simp add: dt_endOfQuarter_def n f gives_ymd period_end_def blocks [OF m]
        month_len_def split: if_splits)
  show "gives pv (dt_endOfHalfyear X d) (period_end 6 y m * day_us)"
    using v(3) by (simp add: dt_endOfHalfyear_def n f gives_ymd period_end_def blocks [OF m]
        month_len_def split: if_splits)
  show "gives pv (dt_endOfYear X d) (period_end 12 y m * day_us)"
    using v(4) by (simp add: dt_endOfYear_def n f gives_ymd period_end_def blocks [OF m]
        month_len_def)
qed

lemma period_end_range:
  assumes "k \<in> {1, 3, 6, 12}" "boost_ymd y m dd"
  shows "first_day \<le> period_end k y m" "period_end k y m \<le> last_day"
  using boost_ymd_range [OF block_day(2) [OF assms]] by (simp_all add: period_end_def Let_def)

lemma next_values:
  assumes "dt_at pv d y m dd t"
  shows "gives pv (dt_nextMonth X d) (min (period_end 1 y m + 1) last_day * day_us)"
    and "gives pv (dt_nextQuarter X d) (min (period_end 3 y m + 1) last_day * day_us)"
    and "gives pv (dt_nextHalfyear X d) (min (period_end 6 y m + 1) last_day * day_us)"
    and "gives pv (dt_nextYear X d) (min (period_end 12 y m + 1) last_day * day_us)"
proof -
  from assms have b: "boost_ymd y m dd" by (simp add: dt_at_def)
  note n = not_null_at [OF assms] and e = end_values [OF assms]
  have r: "gives pv (bind_result r (\<lambda>e. at_most_max X (dt_of_date X (bd_plus X (dt_date X e) 1))))
      (min (period_end k y m + 1) last_day * day_us)"
    if "k \<in> {1, 3, 6, 12}" "gives pv r (period_end k y m * day_us)" for k r
    using that(2) next_day_clamped period_end_range [OF that(1) b] by (auto intro: gives_bind)
  show "gives pv (dt_nextMonth X d) (min (period_end 1 y m + 1) last_day * day_us)"
    by (simp only: dt_nextMonth_def n if_False) (rule r [OF _ e(1)], simp)
  show "gives pv (dt_nextQuarter X d) (min (period_end 3 y m + 1) last_day * day_us)"
    by (simp only: dt_nextQuarter_def n if_False) (rule r [OF _ e(2)], simp)
  show "gives pv (dt_nextHalfyear X d) (min (period_end 6 y m + 1) last_day * day_us)"
    by (simp only: dt_nextHalfyear_def n if_False) (rule r [OF _ e(3)], simp)
  show "gives pv (dt_nextYear X d) (min (period_end 12 y m + 1) last_day * day_us)"
    by (simp only: dt_nextYear_def n if_False) (rule r [OF _ e(4)], simp)
qed

end

text \<open>The week of the day \<open>n\<close> begins on its Monday.\<close>

definition monday :: "int \<Rightarrow> int" where
  "monday n = n - (weekday n + 6) mod 7"

lemma monday_weekday:
  "monday n = (if weekday n = 0 then n - 6 else n + (1 - weekday n))"
  "weekday (monday n) = 1" "monday n \<le> n" "n < monday n + 7" "monday (n - 7) = monday n - 7"
proof -
  have w: "0 \<le> weekday n" "weekday n \<le> 6" by (rule weekday_bounds)+
  have e: "(x + 6) mod 7 = (if x = 0 then 6 else x - 1)" if "0 \<le> x" "x \<le> 6" for x :: int
    using that by presburger
  show s: "monday n = (if weekday n = 0 then n - 6 else n + (1 - weekday n))"
    by (simp add: monday_def e [OF w])
  have "(if x = 0 then n - 6 else n + (1 - x)) \<le> n \<and> n < (if x = 0 then n - 6 else n + (1 - x)) + 7"
    if "0 \<le> x" "x \<le> 6" for x using that by simp
  from this [OF w] show "monday n \<le> n" "n < monday n + 7" unfolding s by blast+
  have "weekday (monday n) = (n + 1 - ((n + 1) mod 7 + 6) mod 7) mod 7"
    by (simp add: weekday_def monday_def algebra_simps)
  also have "\<dots> = (n + 1 - (n + 1 + 6)) mod 7" by (simp only: mod_simps)
  finally show "weekday (monday n) = 1" by simp
  have "weekday (n - 7) = weekday n" unfolding weekday_def by presburger
  then show "monday (n - 7) = monday n - 7" by (simp add: monday_def)
qed

lemma near_shift:
  "first_day \<le> n \<Longrightarrow> n \<le> last_day \<Longrightarrow> - 20 \<le> k \<Longrightarrow> k \<le> 20 \<Longrightarrow> near (n + k)"
  by (simp add: near_def)

context boost_datetime begin

lemma or_min_value: "gives pv r u \<Longrightarrow> gives pv (or_min X r) u"
  by (auto simp: or_min_def gives_def)

lemma or_min_error: "gives pv (or_min X (Inl e)) (first_day * day_us)"
  using min_value by (simp add: or_min_def)

lemma or_min_ymd:
  assumes "1399 \<le> y" "y \<le> 9999" "1 \<le> m" "m \<le> 12"
  shows "gives pv (or_min X (dt_ymd X y m 1)) (max (jdn y m 1) first_day * day_us)"
proof (cases "y = 1399")
  case True
  have v: "valid_ymd 1399 m 1" "valid_ymd 1400 1 1"
    using assms month_len_bounds(1) [of 1399 m] by (simp_all add: valid_ymd_def month_len_def)
  then have "jdn 1399 m 1 < first_day" unfolding first_last_day by (rule jdn_less) simp
  then show ?thesis using True or_min_error ymd_before [of m 1] assms by (simp add: max_def)
next
  case False
  then have b: "boost_ymd y m 1"
    using assms month_len_bounds(1) [of y m] by (simp add: boost_ymd_def valid_ymd_def)
  then show ?thesis
    using or_min_value [OF ymd_value] boost_ymd_range(1) [OF b] by (simp add: max_def)
qed

lemma at_block:
  assumes "boost_ymd y b 1" "pv (m_data q) = Finite (jdn y b 1 * day_us)"
  shows "dt_month X q = Inr b"
  using at_fields(2) [of q y b 1 0] assms by (simp add: dt_at_def day_us_def)

lemma pre_values:
  assumes "dt_at pv d y m dd t"
  shows "gives pv (dt_preMonth X d) (max (previous_start 1 y m) first_day * day_us)"
    and "gives pv (dt_preQuarter X d) (max (previous_start 3 y m) first_day * day_us)"
    and "gives pv (dt_preHalfyear X d) (max (previous_start 6 y m) first_day * day_us)"
    and "gives pv (dt_preYear X d) (max (previous_start 12 y m) first_day * day_us)"
proof -
  from assms have b: "boost_ymd y m dd" by (simp add: dt_at_def)
  then have y: "1400 \<le> y" "y \<le> 9999" by (simp_all add: boost_ymd_def)
  have m: "1 \<le> m" "m \<le> 12" using at_month [OF assms] by simp_all
  note n = not_null_at [OF assms] and f = at_fields [OF assms] and bl = blocks [OF m]
  have prev: "gives pv (or_min X (if block_first k m = 1 then dt_ymd X (y - 1) (13 - k) 1
      else dt_ymd X y (block_first k m - k) 1)) (max (previous_start k y m) first_day * day_us)"
    if k: "k \<in> {1, 3, 6, 12}" for k
    using or_min_ymd [of "y - 1" "13 - k"] or_min_ymd [of y "block_first k m - k"] y
      block_day(5) [OF k b] that
    by (auto simp: previous_start_def boost_ymd_def valid_ymd_def)
  show "gives pv (dt_preMonth X d) (max (previous_start 1 y m) first_day * day_us)"
    using prev [of 1] by (simp add: dt_preMonth_def n f bl split: if_splits)
  show "gives pv (dt_preYear X d) (max (previous_start 12 y m) first_day * day_us)"
    using prev [of 12] by (simp add: dt_preYear_def n f bl split: if_splits)
  have q: "bind_result r (\<lambda>q. bind_result (dt_month X q) g) = g (block_first k m)"
    if "k \<in> {1, 3, 6, 12}" "gives pv r (period_start k y m * day_us)" for k r and g :: "int \<Rightarrow> 'p datetime result"
    using that(2) at_block block_day(1) [OF that(1) b] by (auto simp: gives_def period_start_def)
  note s = start_values [OF assms]
  show "gives pv (dt_preQuarter X d) (max (previous_start 3 y m) first_day * day_us)"
    using prev [of 3] by (simp add: dt_preQuarter_def n f q [OF _ s(2)] split: if_splits)
  have "block_first 6 m \<le> 6 \<longleftrightarrow> block_first 6 m = 1" "block_first 6 m \<noteq> 1 \<Longrightarrow> block_first 6 m - 6 = 1"
    by (simp_all add: bl split: if_splits)
  then show "gives pv (dt_preHalfyear X d) (max (previous_start 6 y m) first_day * day_us)"
    using prev [of 6] by (auto simp: dt_preHalfyear_def n f q [OF _ s(3)] split: if_splits)
qed

lemma shifted_date:
  assumes "dt_at pv d y m dd t" "- 20 \<le> k" "k \<le> 20"
  shows "pv (m_data (dt_of_date X (bd_plus X (dt_date X d) k))) = Finite ((jdn y m dd + k) * day_us)"
    and "pv (m_data (dt_of_date X (bd_minus X (dt_date X d) k))) = Finite ((jdn y m dd - k) * day_us)"
    and "pv (m_data (dt_of_date X (dt_date X d))) = Finite (jdn y m dd * day_us)"
proof -
  let ?n = "jdn y m dd"
  have r: "first_day \<le> ?n" "?n \<le> last_day" using boost_ymd_range assms(1) by (simp_all add: dt_at_def)
  have c: "near ?n" "near (?n + k)" "near (?n - k)"
    using near_shift [OF r] assms(2,3) by (simp_all add: near_shift [OF r, of 0, simplified] near_shift [OF r, of "- k", simplified])
  note f = at_fields(4) [OF assms(1)]
  have "dv (bd_plus X (dt_date X d) k) = Finite (?n + k)" "dv (bd_minus X (dt_date X d) k) = Finite (?n - k)"
    using near_counts [OF c(1)] near_counts [OF c(2)] near_counts [OF c(3)]
    by (simp_all add: days_plus [OF f] days_minus [OF f])
  then show "pv (m_data (dt_of_date X (bd_plus X (dt_date X d) k))) = Finite ((?n + k) * day_us)"
    "pv (m_data (dt_of_date X (bd_minus X (dt_date X d) k))) = Finite ((?n - k) * day_us)"
    using c by (simp_all add: of_date_value)
  show "pv (m_data (dt_of_date X (dt_date X d))) = Finite (?n * day_us)"
    using f c(1) by (rule of_date_value)
qed

end

lemma whole_days:
  fixes n k t b :: int
  assumes "0 \<le> t" "t < b"
  shows "n * b + t = k * b \<longleftrightarrow> n = k \<and> t = 0"
proof
  assume e: "n * b + t = k * b"
  have "(n * b + t) div b = n" using assms by (intro int_div_pos_eq [where r = t]) (simp_all add: algebra_simps)
  moreover have "k * b div b = k" using assms by simp
  ultimately show "n = k \<and> t = 0" using e by simp
qed simp

context boost_datetime begin

lemma start_of_week:
  assumes "dt_at pv d y m dd t"
  shows "gives pv (dt_startOfWeek X d) (max (monday (jdn y m dd)) first_day * day_us)"
proof -
  let ?n = "jdn y m dd"
  note n = not_null_at [OF assms] and f = at_fields(10) [OF assms]
  have w: "0 \<le> weekday ?n" "weekday ?n \<le> 6" by (rule weekday_bounds)+
  let ?k = "if weekday ?n = 0 then - 6 else 1 - weekday ?n"
  have k: "- 20 \<le> ?k" "?k \<le> 20" using w by simp_all
  have "monday ?n = ?n + ?k" by (simp add: monday_weekday(1))
  then have "gives pv (at_least_min X (dt_of_date X (bd_plus X (dt_date X d) ?k)))
      (max (monday ?n) first_day * day_us)"
    using at_least_min_value [OF shifted_date(1) [OF assms k]] by (simp only: max_day)
  moreover have "dt_startOfWeek X d = at_least_min X (dt_of_date X (bd_plus X (dt_date X d) ?k))"
    by (simp add: dt_startOfWeek_def n f)
  ultimately show ?thesis by simp
qed

lemma end_of_week:
  assumes "dt_at pv d y m dd t"
  shows "gives pv (dt_endOfWeek X d) (min (monday (jdn y m dd) + 6) last_day * day_us)"
proof -
  let ?n = "jdn y m dd"
  note n = not_null_at [OF assms] and f = at_fields(10) [OF assms]
  have w: "0 \<le> weekday ?n" "weekday ?n \<le> 6" by (rule weekday_bounds)+
  show ?thesis
  proof (cases "weekday ?n = 0")
    case True
    then have "monday ?n + 6 = ?n" by (simp add: monday_weekday(1))
    then show ?thesis
      using at_most_max_value [OF shifted_date(3) [OF assms, of 0]] True
      by (simp add: dt_endOfWeek_def n f min_day)
  next
    case False
    then have e: "?n + (7 - weekday ?n) = monday ?n + 6" by (simp add: monday_weekday(1))
    have k: "- 20 \<le> 7 - weekday ?n" "7 - weekday ?n \<le> 20" using w by simp_all
    show ?thesis
      using at_most_max_value [OF shifted_date(1) [OF assms k], unfolded e min_day] False
      by (simp add: dt_endOfWeek_def n f)
  qed
qed

lemma next_week:
  assumes "dt_at pv d y m dd t"
  shows "gives pv (dt_nextWeek X d) (min (monday (jdn y m dd) + 7) last_day * day_us)"
proof -
  let ?n = "jdn y m dd"
  have r: "first_day \<le> ?n" "?n \<le> last_day" using boost_ymd_range assms by (simp_all add: dt_at_def)
  let ?e = "min (monday ?n + 6) last_day"
  have e: "first_day \<le> ?e" "?e \<le> last_day" "min (?e + 1) last_day = min (monday ?n + 7) last_day"
    using monday_weekday(4) [of ?n] r by (simp_all add: min_def)
  have "gives pv (bind_result (dt_endOfWeek X d)
      (\<lambda>e. at_most_max X (dt_of_date X (bd_plus X (dt_date X e) 1)))) (min (?e + 1) last_day * day_us)"
    using end_of_week [OF assms] next_day_clamped e(1,2) by (auto intro: gives_bind)
  then show ?thesis by (simp add: dt_nextWeek_def not_null_at [OF assms] e(3))
qed

lemma at_midnight:
  assumes "pv (m_data e) = Finite (n * day_us)" "first_day \<le> n" "n \<le> last_day"
  obtains y m dd where "dt_at pv e y m dd 0" "jdn y m dd = n"
proof -
  obtain y m dd where n: "boost_ymd y m dd" "n = jdn y m dd" using range_boost_ymd [OF assms(2,3)] .
  show thesis
  proof (rule that)
    show "dt_at pv e y m dd 0" using n assms(1) by (simp add: dt_at_def day_us_def)
    show "jdn y m dd = n" by (rule n(2) [symmetric])
  qed
qed

lemma pre_week:
  assumes "dt_at pv d y m dd t"
  shows "gives pv (dt_preWeek X d) (max (monday (jdn y m dd) - 7) first_day * day_us)"
proof -
  let ?n = "jdn y m dd" and ?e = "dt_of_date X (bd_minus X (dt_date X d) 7)"
  have r: "first_day \<le> ?n" "?n \<le> last_day" using boost_ymd_range assms by (simp_all add: dt_at_def)
  have e: "pv (m_data ?e) = Finite ((?n - 7) * day_us)" using shifted_date(2) [OF assms, of 7] by simp
  have "gives pv (or_min X (dt_startOfWeek X ?e)) (max (monday ?n - 7) first_day * day_us)"
  proof (cases "first_day \<le> ?n - 7")
    case True
    moreover have "?n - 7 \<le> last_day" using r by simp
    ultimately obtain y' m' dd' where at: "dt_at pv ?e y' m' dd' 0" "jdn y' m' dd' = ?n - 7"
      using at_midnight [OF e] by blast
    from start_of_week [OF at(1)] show ?thesis
      by (intro or_min_value) (simp add: at(2) monday_weekday(5))
  next
    case False
    have ne: "near (?n - 7)" using near_shift [OF r, of "- 7"] by simp
    have "time_count ((?n - 7) * day_us)" using near_counts [OF ne] by blast
    from ptime_date [OF e this] have "dv (dt_date X ?e) = Finite (?n - 7)"
      by (simp add: dt_date_def day_us_def)
    then have "dt_dayOfWeek X ?e = Inl OutOfRange"
      using beyond [OF ne] False by (simp add: dt_dayOfWeek_def)
    then have "dt_startOfWeek X ?e = Inl OutOfRange"
      using finite_not_null(1) [OF e] by (simp add: dt_startOfWeek_def)
    moreover have "max (monday ?n - 7) first_day = first_day"
      using monday_weekday(3) [of ?n] False by simp
    ultimately show ?thesis using or_min_error by simp
  qed
  then show ?thesis by (simp add: dt_preWeek_def not_null_at [OF assms])
qed

lemma date_of_week:
  assumes "dt_at pv d y m dd t"
  shows "gives pv (dt_dateOfWeek X d k)
    (max first_day (min last_day (jdn y m dd - weekday (jdn y m dd) + max 0 (min 6 k))) * day_us)"
proof -
  let ?n = "jdn y m dd" and ?k = "max 0 (min 6 k)"
  note n = not_null_at [OF assms] and f = at_fields(10) [OF assms]
  have w: "0 \<le> weekday ?n" "weekday ?n \<le> 6" by (rule weekday_bounds)+
  have dd: "(if k < 0 then 0 else if k > 6 then 6 else k) = ?k" by (simp add: min_def max_def)
  let ?r = "dt_of_date X (bd_plus X (dt_date X d) (?k - weekday ?n))"
  have k: "- 20 \<le> ?k - weekday ?n" "?k - weekday ?n \<le> 20" using w by simp_all
  define v where "v = ?n - weekday ?n + ?k"
  have r: "pv (m_data ?r) = Finite (v * day_us)"
    using shifted_date(1) [OF assms k] by (simp add: v_def algebra_simps)
  obtain mx where mx: "dt_max X = Inr mx" "pv (m_data mx) = Finite (last_day * day_us)"
    using max_value by (auto simp: gives_def)
  have less: "dt_greater X ?r mx \<longleftrightarrow> last_day < v"
    using r mx(2) by (simp add: dt_greater_def time_less day_us_def)
  have "dt_dateOfWeek X d k = (if last_day < v then dt_max X else at_least_min X ?r)"
    by (simp add: dt_dateOfWeek_def n f dd Let_def mx(1) less)
  moreover have "gives pv (at_least_min X ?r) (max v first_day * day_us)"
    using at_least_min_value [OF r] by (simp only: max_day)
  moreover have "first_day \<le> last_day" by (simp add: first_day_def last_day_def)
  ultimately have "gives pv (dt_dateOfWeek X d k) (max first_day (min last_day v) * day_us)"
    using max_value by (cases "last_day < v") (simp_all add: max.commute)
  then show ?thesis by (simp only: v_def)
qed

lemma day_values:
  assumes "dt_at pv d y m dd t"
  shows "gives pv (Inr (dt_startOfDay X d)) (jdn y m dd * day_us)"
    and "gives pv (dt_endOfDay X d)
      (if jdn y m dd = last_day then last_day * day_us else jdn y m dd * day_us + 86399000000)"
    and "gives pv (dt_nextDay X d)
      (if jdn y m dd = last_day \<and> t = 0 then last_day * day_us else (jdn y m dd + 1) * day_us)"
    and "gives pv (dt_preDay X d)
      (if jdn y m dd = first_day \<and> t = 0 then first_day * day_us else (jdn y m dd - 1) * day_us)"
proof -
  let ?n = "jdn y m dd"
  from assms have b: "boost_ymd y m dd" and t: "0 \<le> t" "t < day_us"
    and p: "pv (m_data d) = Finite (?n * day_us + t)" by (simp_all add: dt_at_def)
  note n = not_null_at [OF assms] and f = at_fields [OF assms]
  show "gives pv (Inr (dt_startOfDay X d)) (?n * day_us)"
    using shifted_date(3) [OF assms, of 0] by (simp add: gives_def dt_startOfDay_def)
  have "bd_eq X (dt_date X d) (bd_max_date_time X) \<longleftrightarrow> ?n = last_day"
    using f(4) limits(2) by (simp add: days_eq plain_def)
  then show "gives pv (dt_endOfDay X d)
      (if ?n = last_day then last_day * day_us else ?n * day_us + 86399000000)"
    using max_value full_value [OF b, of 23 59 59 0 0] by (simp add: dt_endOfDay_def n f)
  note eq = whole_days [OF t, of ?n]
  obtain mx where mx: "dt_max X = Inr mx" "pv (m_data mx) = Finite (last_day * day_us)"
    using max_value by (auto simp: gives_def)
  obtain mn where mn: "dt_min X = Inr mn" "pv (m_data mn) = Finite (first_day * day_us)"
    using min_value by (auto simp: gives_def)
  show "gives pv (dt_nextDay X d)
      (if ?n = last_day \<and> t = 0 then last_day * day_us else (?n + 1) * day_us)"
    using shifted_date(1) [OF assms, of 1] p eq_finite [OF p mx(2)] eq
    by (auto simp: dt_nextDay_def n mx(1) gives_def)
  show "gives pv (dt_preDay X d)
      (if ?n = first_day \<and> t = 0 then first_day * day_us else (?n - 1) * day_us)"
    using shifted_date(2) [OF assms, of 1] p eq_finite [OF p mn(2)] eq
    by (auto simp: dt_preDay_def n mn(1) gives_def)
qed

end

section \<open>Ranges of dates\<close>

lemma near_day_count: "near n \<Longrightarrow> day_count n"
  using near_counts by blast

context boost_datetime begin

lemma range_up:
  assumes "dv c = Finite n" "dv s = Finite (n + int k)" "near n" "near (n + int k)"
  shows "\<exists>ds. range_loop X c s = Some ds \<and>
    map (\<lambda>d. pv (m_data d)) ds = map (\<lambda>i. Finite ((n + int i) * day_us)) [0..<k]"
  using assms
proof (induct k arbitrary: c n)
  case 0
  then have "bd_eq X c s" by (simp add: days_eq plain_def)
  then show ?case by (subst range_loop.simps) simp
next
  case (Suc k)
  have ne: "\<not> bd_eq X c s" using Suc.prems(1,2) by (simp add: days_eq plain_def)
  have nn: "near (n + 1)" using Suc.prems(3,4) by (simp add: near_def)
  have "dv (bd_plus X c 1) = Finite (n + 1)"
    using Suc.prems(1) near_day_count [OF Suc.prems(3)] near_day_count [OF nn] by (rule days_plus)
  moreover have "dv s = Finite (n + 1 + int k)" "near (n + 1 + int k)"
    using Suc.prems(2,4) by (simp_all add: add_ac)
  ultimately obtain ds where ds: "range_loop X (bd_plus X c 1) s = Some ds"
    "map (\<lambda>d. pv (m_data d)) ds = map (\<lambda>i. Finite ((n + 1 + int i) * day_us)) [0..<k]"
    using Suc.hyps [of "bd_plus X c 1" "n + 1"] nn by blast
  have "range_loop X c s = Some (dt_of_date X c # ds)"
    using ne ds(1) by (subst range_loop.simps) simp
  moreover have "pv (m_data (dt_of_date X c)) = Finite (n * day_us)"
    using Suc.prems(1,3) by (rule of_date_value)
  ultimately show ?case
    using ds(2) by (simp add: upt_conv_Cons map_Suc_upt [symmetric] add_ac del: upt_Suc)
qed

text \<open>A loop that starts behind its end returns nothing before the day counter is exhausted.\<close>

lemma range_down:
  assumes "dv c = Finite n" "dv s = Finite e" "e < n" "day_count n" "range_loop X c s = Some ds"
  shows "2 ^ 32 - 2 - n \<le> int (length ds)"
  using assms(1,3-)
proof (induct "nat (2 ^ 32 - 2 - n)" arbitrary: c n ds)
  case 0
  then show ?case by (simp add: day_count_def)
next
  case (Suc k)
  have ne: "\<not> bd_eq X c s" using Suc.prems(1,2) assms(2) by (simp add: days_eq plain_def)
  obtain ds' where ds': "range_loop X (bd_plus X c 1) s = Some ds'" "length ds = Suc (length ds')"
    using Suc.prems(4) ne
    by (subst (asm) range_loop.simps) (auto split: bind_splits)
  show ?case
  proof (cases "day_count (n + 1)")
    case True
    with Suc.prems(1,3) have "dv (bd_plus X c 1) = Finite (n + 1)" by (intro days_plus)
    then have "2 ^ 32 - 2 - (n + 1) \<le> int (length ds')"
      using Suc.hyps(1) [of "n + 1" "bd_plus X c 1" ds'] Suc.hyps(2) Suc.prems(2) True ds'(1) by simp
    then show ?thesis using ds'(2) by simp
  next
    case False
    then show ?thesis using Suc.prems(3) ds'(2) by (simp add: day_count_def)
  qed
qed

lemma date_at_moment:
  assumes "pv (m_data d) = Finite u" "moment u"
  shows "dv (dt_date X d) = Finite (u div day_us)" "near (u div day_us)"
proof -
  show "dv (dt_date X d) = Finite (u div day_us)"
    using ptime_date [OF assms(1) moment_time_count [OF assms(2)]] by (simp add: dt_date_def)
  have "first_day \<le> u div day_us" "u div day_us \<le> last_day"
    using assms(2) div_bounds(1) [of day_us first_day u] div_bounds(2) [of day_us u "last_day + 1"]
    by (simp_all add: moment_def day_us_def)
  then show "near (u div day_us)" by (rule day_near)
qed

text \<open>The end of the \<open>date_period\<close> of \<open>getDateRange\<close>.\<close>

lemma period_stop:
  assumes "dv b = Finite n" "near n" "near (n - 1)"
  shows "dv (bd_plus X (bd_minus X b 1) 1) = Finite n"
proof -
  have "dv (bd_minus X b 1) = Finite (n - 1)"
    using assms(1) near_day_count [OF assms(2)] near_day_count [OF assms(3)] by (rule days_minus)
  then show ?thesis
    using near_day_count [OF assms(2)] near_day_count [OF assms(3)] days_plus [of _ "n - 1" 1] by simp
qed

lemma range_value:
  assumes "pv (m_data a) = Finite u" "moment u"
    and "pv (m_data b) = Finite v \<and> moment v \<or> pv (m_data b) = PosInfin \<and> v = last_day * day_us"
  obtains s where "getDateRange X a b = Inr (range_loop X (dt_date X a) s)" "dv s = Finite (v div day_us)"
    "near (v div day_us)"
proof -
  have ends: "moment (last_day * day_us)" by (simp add: moment_def first_day_def last_day_def day_us_def)
  obtain mx where mx: "dt_max X = Inr mx" "pv (m_data mx) = Finite (last_day * day_us)"
    using max_value by (auto simp: gives_def)
  define e where "e = (if dt_eq X b (dt_Null X) then mx else b)"
  have e: "pv (m_data e) = Finite v" "moment v"
    using assms(3) mx(2) ends finite_not_null(1) [of b] infin_null(1) [of b] by (auto simp: e_def)
  have r: "first_day \<le> v div day_us" "v div day_us \<le> last_day"
    using e(2) div_bounds(1) [of day_us first_day v] div_bounds(2) [of day_us v "last_day + 1"]
    by (simp_all add: moment_def day_us_def)
  have "dv (bd_plus X (bd_minus X (dt_date X e) 1) 1) = Finite (v div day_us)"
    using date_at_moment [OF e] near_shift [OF r, of "- 1"] by (intro period_stop) simp_all
  moreover have "getDateRange X a b =
      Inr (range_loop X (dt_date X a) (bd_plus X (bd_minus X (dt_date X e) 1) 1))"
    by (simp add: getDateRange_def mx(1) e_def)
  ultimately show thesis using that date_at_moment(2) [OF e] by blast
qed

end

section \<open>Staying within the supported years\<close>

lemma previous_before:
  assumes "k \<in> {1, 3, 6, 12}" "boost_ymd y m dd"
  shows "previous_start k y m \<le> last_day"
proof (cases "block_first k m = 1")
  case True
  have m: "1 \<le> 13 - k" "13 - k \<le> 12" using assms(1) by auto
  have "valid_ymd (y - 1) (13 - k) 1" "valid_ymd y m dd"
    using m month_len_bounds(1) [of "y - 1" "13 - k"] assms(2) by (simp_all add: valid_ymd_def boost_ymd_def)
  then have "jdn (y - 1) (13 - k) 1 < jdn y m dd" by (rule jdn_less) simp
  then show ?thesis using True boost_ymd_range(2) [OF assms(2)] by (simp add: previous_start_def)
next
  case False
  then show ?thesis
    using boost_ymd_range(2) [OF block_day(5) [OF assms False]] by (simp add: previous_start_def)
qed

context boost_datetime begin

lemma valid_day:
  assumes "gives pv r (n * day_us)" "first_day \<le> n" "n \<le> last_day"
  shows "\<exists>x. r = Inr x \<and> dt_valid pv x"
proof -
  have "moment (n * day_us)" using moment_day(1) [OF assms(2,3), of 0] by (simp add: day_us_def)
  with assms(1) show ?thesis by (rule gives_valid)
qed

lemma ends_order: "first_day \<le> last_day"
  by (simp add: first_day_def last_day_def)

lemma null_valid: "dt_valid pv (dt_Null X)"
  by (simp add: dt_valid_def null_value)

lemma periods_valid:
  assumes "dt_valid pv d"
  shows "\<forall>r \<in> set [dt_startOfMonth X d, dt_endOfMonth X d, dt_nextMonth X d, dt_preMonth X d,
      dt_startOfQuarter X d, dt_endOfQuarter X d, dt_nextQuarter X d, dt_preQuarter X d,
      dt_startOfHalfyear X d, dt_endOfHalfyear X d, dt_nextHalfyear X d, dt_preHalfyear X d,
      dt_startOfYear X d, dt_endOfYear X d, dt_nextYear X d, dt_preYear X d].
    \<exists>x. r = Inr x \<and> dt_valid pv x"
  using assms
proof (cases rule: dt_valid_cases)
  case null
  from infin_null(1) [OF null] assms null_valid show ?thesis
    by (simp add: dt_startOfMonth_def dt_endOfMonth_def dt_nextMonth_def dt_preMonth_def
        dt_startOfQuarter_def dt_endOfQuarter_def dt_nextQuarter_def dt_preQuarter_def
        dt_startOfHalfyear_def dt_endOfHalfyear_def dt_nextHalfyear_def dt_preHalfyear_def
        dt_startOfYear_def dt_endOfYear_def dt_nextYear_def dt_preYear_def)
next
  case (at y m dd t)
  then have b: "boost_ymd y m dd" by (simp add: dt_at_def)
  have r: "first_day \<le> period_start k y m" "period_start k y m \<le> last_day"
    "first_day \<le> period_end k y m" "period_end k y m \<le> last_day"
    "first_day \<le> period_end k y m + 1" "previous_start k y m \<le> last_day" if "k \<in> {1, 3, 6, 12}" for k
    using boost_ymd_range [OF block_day(1) [OF that b]] period_end_range [OF that b]
      previous_before [OF that b] ends_order
    by (simp_all add: period_start_def)
  note v = start_values [OF at] end_values [OF at] next_values [OF at] pre_values [OF at]
  note d = v [THEN valid_day]
  show ?thesis by (simp add: d r ends_order min_le_iff_disj le_max_iff_disj)
qed

lemma weeks_valid:
  assumes "dt_valid pv d"
  shows "\<forall>r \<in> set [dt_startOfWeek X d, dt_endOfWeek X d, dt_nextWeek X d, dt_preWeek X d,
      dt_dateOfWeek X d k, Inr (dt_startOfDay X d), dt_endOfDay X d].
    \<exists>x. r = Inr x \<and> dt_valid pv x"
  using assms
proof (cases rule: dt_valid_cases)
  case null
  have "dt_valid pv (dt_startOfDay X d)"
    using date_infin [OF null] by (simp add: dt_startOfDay_def dt_of_date_def dt_date_def dt_valid_def ptime_infin)
  with infin_null(1) [OF null] assms null_valid show ?thesis
    by (simp add: dt_startOfWeek_def dt_endOfWeek_def dt_nextWeek_def dt_preWeek_def dt_dateOfWeek_def
        dt_endOfDay_def)
next
  case (at y m dd t)
  let ?n = "jdn y m dd"
  have n: "first_day \<le> ?n" "?n \<le> last_day" using boost_ymd_range at by (simp_all add: dt_at_def)
  have m: "monday ?n \<le> ?n" "?n < monday ?n + 7" by (rule monday_weekday)+
  note v = start_of_week [OF at] end_of_week [OF at] next_week [OF at] pre_week [OF at]
    date_of_week [OF at, of k] day_values(1) [OF at]
  note d = v [THEN valid_day]
  have "moment (?n * day_us + 86399000000)" "moment (last_day * day_us)"
    using moment_day(1) [OF n, of 86399000000] ends_order moment_day(1) [of last_day 0]
    by (simp_all add: day_us_def)
  then have e: "\<exists>x. dt_endOfDay X d = Inr x \<and> dt_valid pv x"
    by (intro gives_valid [OF day_values(2) [OF at]]) simp
  have "dt_valid pv (dt_startOfDay X d)" using d(6) n by simp
  then show ?thesis using m n ends_order by (simp add: d e)
qed

lemma next_day_valid:
  assumes "dt_valid pv d"
  shows "\<exists>r. dt_nextDay X d = Inr r \<and>
    (if \<exists>u. pv (m_data d) = Finite u \<and> last_day * day_us < u then dt_year X r = Inl OutOfRange
     else dt_valid pv r)"
  using assms
proof (cases rule: dt_valid_cases)
  case null
  then show ?thesis using infin_null(1) [OF null] assms by (simp add: dt_nextDay_def)
next
  case (at y m dd t)
  let ?n = "jdn y m dd"
  have n: "first_day \<le> ?n" "?n \<le> last_day" using boost_ymd_range at by (simp_all add: dt_at_def)
  have t: "0 \<le> t" "t < day_us" and p: "pv (m_data d) = Finite (?n * day_us + t)"
    using at by (simp_all add: dt_at_def)
  have late: "last_day * day_us < ?n * day_us + t \<longleftrightarrow> ?n = last_day \<and> 0 < t"
    using n t by (auto simp: day_us_def)
  obtain r where r: "dt_nextDay X d = Inr r" "pv (m_data r) =
      Finite (if ?n = last_day \<and> t = 0 then last_day * day_us else (?n + 1) * day_us)"
    using day_values(3) [OF at] by (auto simp: gives_def)
  show ?thesis
  proof (cases "?n = last_day \<and> 0 < t")
    case True
    have nb: "near (last_day + 1)" by (simp add: near_def first_day_def last_day_def)
    have rv: "pv (m_data r) = Finite ((last_day + 1) * day_us)" using r(2) True by simp
    have "dv (bt_date X (m_data r)) = Finite (last_day + 1)"
      using ptime_date [OF rv] near_counts [OF nb] by (simp add: day_us_def)
    then have "dt_year X r = Inl OutOfRange"
      using beyond [OF nb] finite_not_null(2) [OF rv] by (simp add: dt_year_def)
    then show ?thesis using r(1) p late True by simp
  next
    case False
    have "moment (if ?n = last_day \<and> t = 0 then last_day * day_us else (?n + 1) * day_us)"
      using False n t by (auto simp: moment_def day_us_def first_day_def last_day_def)
    then show ?thesis using r p late False by (simp add: dt_valid_def)
  qed
qed

lemma pre_day_valid:
  assumes "dt_valid pv d"
  shows "\<exists>r. dt_preDay X d = Inr r \<and>
    (if \<exists>u. pv (m_data d) = Finite u \<and> first_day * day_us < u \<and> u < (first_day + 1) * day_us
     then dt_year X r = Inl OutOfRange else dt_valid pv r)"
  using assms
proof (cases rule: dt_valid_cases)
  case null
  then show ?thesis using infin_null(1) [OF null] assms by (simp add: dt_preDay_def)
next
  case (at y m dd t)
  let ?n = "jdn y m dd"
  have n: "first_day \<le> ?n" "?n \<le> last_day" using boost_ymd_range at by (simp_all add: dt_at_def)
  have t: "0 \<le> t" "t < day_us" and p: "pv (m_data d) = Finite (?n * day_us + t)"
    using at by (simp_all add: dt_at_def)
  have early: "first_day * day_us < ?n * day_us + t \<and> ?n * day_us + t < (first_day + 1) * day_us \<longleftrightarrow>
      ?n = first_day \<and> 0 < t"
  proof (cases "?n = first_day")
    case True
    then show ?thesis using t by (simp add: day_us_def algebra_simps)
  next
    case False
    then have "first_day + 1 \<le> ?n" using n by simp
    then show ?thesis using False t(1) by (simp add: day_us_def)
  qed
  obtain r where r: "dt_preDay X d = Inr r" "pv (m_data r) =
      Finite (if ?n = first_day \<and> t = 0 then first_day * day_us else (?n - 1) * day_us)"
    using day_values(4) [OF at] by (auto simp: gives_def)
  show ?thesis
  proof (cases "?n = first_day \<and> 0 < t")
    case True
    have nb: "near (first_day - 1)" by (simp add: near_def first_day_def last_day_def)
    have rv: "pv (m_data r) = Finite ((first_day - 1) * day_us)" using r(2) True by simp
    have "dv (bt_date X (m_data r)) = Finite (first_day - 1)"
      using ptime_date [OF rv] near_counts [OF nb] by (simp add: day_us_def)
    then have "dt_year X r = Inl OutOfRange"
      using beyond [OF nb] finite_not_null(2) [OF rv] by (simp add: dt_year_def)
    then show ?thesis using r(1) p early True by simp
  next
    case False
    have "moment (if ?n = first_day \<and> t = 0 then first_day * day_us else (?n - 1) * day_us)"
      using False n t by (auto simp: moment_def day_us_def first_day_def last_day_def)
    then have "dt_valid pv r" using r(2) by (simp add: dt_valid_def)
    moreover have "\<not> (\<exists>u. pv (m_data d) = Finite u \<and> first_day * day_us < u \<and> u < (first_day + 1) * day_us)"
      using p early False by auto
    ultimately show ?thesis using r(1) by (simp only: if_False) blast
  qed
qed

end

section \<open>Properties\<close>

text \<open>
  Property C7: for the month, quarter, half year and year of a point in time, the start and the end
  are the first and the last day of the block of months that contains it; the next period starts
  the day after that end, or at the last day boost knows; the previous one starts where the block
  before it starts, or at the first day.
\<close>

theorem datetime_periods:
  assumes "boost_datetime X dv pv" "dt_at pv d y m dd t"
  shows "\<forall>(k, start, stop, next, pre) \<in> set
      [(1, dt_startOfMonth X d, dt_endOfMonth X d, dt_nextMonth X d, dt_preMonth X d),
       (3, dt_startOfQuarter X d, dt_endOfQuarter X d, dt_nextQuarter X d, dt_preQuarter X d),
       (6, dt_startOfHalfyear X d, dt_endOfHalfyear X d, dt_nextHalfyear X d, dt_preHalfyear X d),
       (12, dt_startOfYear X d, dt_endOfYear X d, dt_nextYear X d, dt_preYear X d)].
    period_start k y m \<le> jdn y m dd \<and> jdn y m dd \<le> period_end k y m \<and>
    gives pv start (period_start k y m * day_us) \<and> gives pv stop (period_end k y m * day_us) \<and>
    gives pv next (min (period_end k y m + 1) last_day * day_us) \<and>
    gives pv pre (max (previous_start k y m) first_day * day_us)"
proof -
  note s = boost_datetime.start_values [OF assms] boost_datetime.end_values [OF assms]
    boost_datetime.next_values [OF assms] boost_datetime.pre_values [OF assms]
  from assms(2) have b: "boost_ymd y m dd" by (simp add: dt_at_def)
  show ?thesis
    by (simp add: s day_in_block [OF _ b])
qed

definition leap_noon :: "bpoint datetime" where
  "leap_noon = \<lparr>m_data = Finite (jdn 2024 2 29 * day_us + 43200000000)\<rparr>"

lemma leap_noon_at: "dt_at (\<lambda>p. p) leap_noon 2024 2 29 43200000000"
  by (simp add: dt_at_def leap_noon_def boost_ymd_def valid_ymd_def month_len_def day_us_def leap_def)

theorem datetime_periods_witness:
  "gives (\<lambda>p. p) (dt_endOfMonth std_calendar leap_noon) (jdn 2024 2 29 * day_us) \<and>
   gives (\<lambda>p. p) (dt_preQuarter std_calendar leap_noon) (jdn 2023 10 1 * day_us)"
proof -
  note p = datetime_periods [OF std.boost_datetime_axioms leap_noon_at]
  have "period_end 1 2024 2 = jdn 2024 2 29" "previous_start 3 2024 2 = jdn 2023 10 1"
    by (simp_all add: period_end_def previous_start_def block_first_def month_len_def leap_def)
  moreover have "max (jdn 2023 10 1) first_day = jdn 2023 10 1"
    by (simp add: jdn_def days_before_year_def days_before_month_def leap_def first_day_def)
  ultimately show ?thesis using p by simp
qed

text \<open>
  Weeks run from Monday to Sunday. The start, the end, the next and the previous week
  are where the calendar has them, cut at the first and the last day of boost; \<open>dateOfWeek\<close> counts
  from Sunday and takes a number outside 0..6 for the nearest of them.
\<close>

theorem datetime_weeks:
  assumes "boost_datetime X dv pv" "dt_at pv d y m dd t"
  defines "n \<equiv> jdn y m dd"
  shows "weekday (monday n) = 1 \<and> monday n \<le> n \<and> n < monday n + 7 \<and>
    gives pv (dt_startOfWeek X d) (max (monday n) first_day * day_us) \<and>
    gives pv (dt_endOfWeek X d) (min (monday n + 6) last_day * day_us) \<and>
    gives pv (dt_nextWeek X d) (min (monday n + 7) last_day * day_us) \<and>
    gives pv (dt_preWeek X d) (max (monday n - 7) first_day * day_us) \<and>
    gives pv (dt_dateOfWeek X d k)
      (max first_day (min last_day (n - weekday n + max 0 (min 6 k))) * day_us)"
  unfolding n_def
  by (intro conjI monday_weekday(2-4) boost_datetime.start_of_week [OF assms(1,2)]
      boost_datetime.end_of_week [OF assms(1,2)] boost_datetime.next_week [OF assms(1,2)]
      boost_datetime.pre_week [OF assms(1,2)] boost_datetime.date_of_week [OF assms(1,2)])

text \<open>
  Property C15: no operation on days, weeks or longer periods throws on a valid \<open>Datetime\<close>, and each
  returns a valid one: the null value or a point of the supported years. \<open>nextDay\<close> and \<open>preDay\<close> are the
  exceptions: from any time after midnight of 9999-12-31 the one, and of 1400-01-01 the other, returns
  an object outside the supported years, whose year cannot be read.
\<close>

theorem datetime_stays_valid:
  assumes "boost_datetime X dv pv" "dt_valid pv d"
  shows "(\<forall>r \<in> set [dt_startOfMonth X d, dt_endOfMonth X d, dt_nextMonth X d, dt_preMonth X d,
      dt_startOfQuarter X d, dt_endOfQuarter X d, dt_nextQuarter X d, dt_preQuarter X d,
      dt_startOfHalfyear X d, dt_endOfHalfyear X d, dt_nextHalfyear X d, dt_preHalfyear X d,
      dt_startOfYear X d, dt_endOfYear X d, dt_nextYear X d, dt_preYear X d].
      \<exists>x. r = Inr x \<and> dt_valid pv x) \<and>
    (\<forall>r \<in> set [dt_startOfWeek X d, dt_endOfWeek X d, dt_nextWeek X d, dt_preWeek X d,
      dt_dateOfWeek X d k, Inr (dt_startOfDay X d), dt_endOfDay X d].
      \<exists>x. r = Inr x \<and> dt_valid pv x) \<and>
    (\<exists>x. dt_nextDay X d = Inr x \<and>
      (if \<exists>u. pv (m_data d) = Finite u \<and> last_day * day_us < u then dt_year X x = Inl OutOfRange
       else dt_valid pv x)) \<and>
    (\<exists>x. dt_preDay X d = Inr x \<and>
      (if \<exists>u. pv (m_data d) = Finite u \<and> first_day * day_us < u \<and> u < (first_day + 1) * day_us
       then dt_year X x = Inl OutOfRange else dt_valid pv x))"
  by (intro conjI boost_datetime.periods_valid [OF assms] boost_datetime.weeks_valid [OF assms]
      boost_datetime.next_day_valid [OF assms] boost_datetime.pre_day_valid [OF assms])

definition last_noon :: "bpoint datetime" where
  "last_noon = \<lparr>m_data = Finite (last_day * day_us + 43200000000)\<rparr>"

lemma last_noon_valid: "dt_valid (\<lambda>p. p) last_noon"
  by (simp add: dt_valid_def last_noon_def moment_def first_day_def last_day_def day_us_def)

definition first_noon :: "bpoint datetime" where
  "first_noon = \<lparr>m_data = Finite (first_day * day_us + 43200000000)\<rparr>"

lemma first_noon_valid: "dt_valid (\<lambda>p. p) first_noon"
  by (simp add: dt_valid_def first_noon_def moment_def first_day_def last_day_def day_us_def)

theorem datetime_stays_valid_witness:
  "(\<exists>x. dt_nextWeek std_calendar last_noon = Inr x \<and> dt_valid (\<lambda>p. p) x) \<and>
   (\<exists>x. dt_nextDay std_calendar last_noon = Inr x \<and> dt_year std_calendar x = Inl OutOfRange) \<and>
   (\<exists>x. dt_preDay std_calendar last_noon = Inr x \<and> dt_valid (\<lambda>p. p) x) \<and>
   (\<exists>x. dt_preDay std_calendar first_noon = Inr x \<and> dt_year std_calendar x = Inl OutOfRange)"
proof -
  note l = datetime_stays_valid [OF std.boost_datetime_axioms last_noon_valid]
    and f = datetime_stays_valid [OF std.boost_datetime_axioms first_noon_valid]
  have "\<exists>u. m_data last_noon = Finite u \<and> last_day * day_us < u"
    "\<not> (\<exists>u. m_data last_noon = Finite u \<and> first_day * day_us < u \<and> u < (first_day + 1) * day_us)"
    "\<exists>u. m_data first_noon = Finite u \<and> first_day * day_us < u \<and> u < (first_day + 1) * day_us"
    by (simp_all add: last_noon_def first_noon_def day_us_def first_day_def last_day_def)
  with l f show ?thesis by simp
qed

text \<open>
  Property C27: \<open>getDateRange(start, end)\<close> returns midnight of every day from the day of \<open>start\<close> up to,
  and without, the day of \<open>end\<close> or 9999-12-31 for a null end. If the day of \<open>start\<close> is after that of
  \<open>end\<close>, the loop passes every day number the counter can hold: no result of less than about four
  billion dates exists.
\<close>

theorem datetime_range:
  assumes "boost_datetime X dv pv" "pv (m_data a) = Finite u" "moment u"
    and "pv (m_data b) = Finite v \<and> moment v \<or> pv (m_data b) = PosInfin \<and> v = last_day * day_us"
  shows "(u div day_us \<le> v div day_us \<longrightarrow> (\<exists>ds. getDateRange X a b = Inr (Some ds) \<and>
      map (\<lambda>d. pv (m_data d)) ds = map (\<lambda>i. Finite ((u div day_us + int i) * day_us))
        [0..<nat (v div day_us - u div day_us)])) \<and>
    (v div day_us < u div day_us \<longrightarrow>
      (\<forall>ds. getDateRange X a b = Inr (Some ds) \<longrightarrow> 2 ^ 32 - 2 - u div day_us \<le> int (length ds)))"
proof (intro conjI impI allI)
  obtain s where s: "getDateRange X a b = Inr (range_loop X (dt_date X a) s)"
    "dv s = Finite (v div day_us)" "near (v div day_us)"
    using boost_datetime.range_value [OF assms] .
  note a = boost_datetime.date_at_moment [OF assms(1-3)]
  show "\<exists>ds. getDateRange X a b = Inr (Some ds) \<and>
      map (\<lambda>d. pv (m_data d)) ds = map (\<lambda>i. Finite ((u div day_us + int i) * day_us))
        [0..<nat (v div day_us - u div day_us)]" if "u div day_us \<le> v div day_us"
    using boost_datetime.range_up [OF assms(1) a(1), of s "nat (v div day_us - u div day_us)"] a(2) s that
    by simp
  show "2 ^ 32 - 2 - u div day_us \<le> int (length ds)"
    if "v div day_us < u div day_us" "getDateRange X a b = Inr (Some ds)" for ds
    using boost_datetime.range_down [OF assms(1) a(1) s(2) that(1) near_day_count [OF a(2)]] that(2) s(1)
    by simp
qed

theorem datetime_range_witness:
  "\<exists>ds. getDateRange std_calendar leap_noon \<lparr>m_data = Finite (jdn 2024 3 2 * day_us)\<rparr> = Inr (Some ds) \<and>
     map m_data ds = [Finite (jdn 2024 2 29 * day_us), Finite (jdn 2024 3 1 * day_us)]"
proof -
  have n: "jdn 2024 2 29 = 2460370" "jdn 2024 3 1 = 2460371" "jdn 2024 3 2 = 2460372"
    by (simp_all add: jdn_def days_before_year_def days_before_month_def leap_def)
  have p: "m_data leap_noon = Finite (2460370 * day_us + 43200000000)" by (simp add: leap_noon_def n)
  have m: "moment (2460370 * day_us + 43200000000)" "moment (2460372 * day_us)"
    by (simp_all add: moment_def first_day_def last_day_def day_us_def)
  have "m_data \<lparr>m_data = Finite (jdn 2024 3 2 * day_us)\<rparr> = Finite (2460372 * day_us) \<and>
      moment (2460372 * day_us) \<or> False" using m by (simp add: n)
  then show ?thesis
    using datetime_range [OF std.boost_datetime_axioms p m(1),
        of "\<lparr>m_data = Finite (jdn 2024 3 2 * day_us)\<rparr>" "2460372 * day_us"]
    by (auto simp: n day_us_def upt_rec numeral_2_eq_2)
qed

end
