(* ===== verification/TimerManager.thy ===== *)
theory TimerManager
  imports CalendarLaws "HOL-Library.AList"
begin

text \<open>
  \<open>TimerManager.h\<close>: timers with a number of repetitions, a daily window or a daily time, and a thread
  that submits their functions to a \<open>ThreadPool\<close> when they are due. Points in time and durations are
  those of \<open>Datetime\<close> and \<open>TimeDelta\<close>; every reading of the clock is an argument. A function is its
  identity; what the pool accepted is a list. The second half models the two threads at the
  granularity of the mutex, for the end of the detecting thread.
\<close>

section \<open>State\<close>

definition int_max :: int where
  "int_max = 2147483647"

record ('p, 'd, 'f) timer =
  m_start_date :: "'p datetime"
  m_end_date :: "'p datetime"
  m_start_time :: "'d timedelta"
  m_end_time :: "'d timedelta"
  m_timer_duration :: "'d timedelta"
  m_repeat_num :: int
  m_func :: 'f

record 'p interval =
  m_time_point :: "'p datetime"
  m_timer_id :: int

text \<open>
  \<open>m_queue\<close> is a \<open>std::priority_queue\<close>; what a heap returns among equally early entries is not
  specified, so the queue is the list of its entries and \<open>is_top\<close> says which may be on top.
  \<open>m_timers\<close> is an \<open>unordered_map\<close>: a list of pairs, in any order, without equal keys.
\<close>

record ('p, 'd, 'f) timer_manager =
  tm_queue :: "'p interval list"
  tm_stop :: bool
  tm_timers :: "(int \<times> ('p, 'd, 'f) timer) list"
  tm_current_timer_id :: int
  tm_submitted :: "(int \<times> 'f) list"   \<comment> \<open>accepted by \<open>m_tg\<close>, latest last\<close>
  tm_added :: "('f \<times> int) list"       \<comment> \<open>a record of the past: functions and their repetitions\<close>
  tm_pool_done :: bool                \<comment> \<open>\<open>m_tg->done()\<close>\<close>

definition tm_new :: "('p, 'd, 'f) timer_manager" where
  "tm_new = \<lparr>tm_queue = [], tm_stop = False, tm_timers = [], tm_current_timer_id = -1,
     tm_submitted = [], tm_added = [], tm_pool_done = False\<rparr>"

definition interval_less :: "('b, 'p, 'd) datetime_ops \<Rightarrow> 'p interval \<Rightarrow> 'p interval \<Rightarrow> bool" where
  "interval_less X s other = dt_greater X (m_time_point s) (m_time_point other)"

definition is_top :: "('b, 'p, 'd) datetime_ops \<Rightarrow> 'p interval \<Rightarrow> 'p interval list \<Rightarrow> bool" where
  "is_top X s q \<longleftrightarrow> s \<in> set q \<and> (\<forall>x \<in> set q. \<not> interval_less X s x)"

definition tm_size :: "('p, 'd, 'f) timer_manager \<Rightarrow> nat" where
  "tm_size st = length (tm_timers st)"

definition tm_empty :: "('p, 'd, 'f) timer_manager \<Rightarrow> bool" where
  "tm_empty st \<longleftrightarrow> tm_size st = 0"

section \<open>Time arithmetic\<close>

text \<open>\<open>TimeDelta(days)\<close> for the small constants of the code, and comparisons of the two classes.\<close>

definition td_whole_days :: "('b, 'p, 'd) datetime_ops \<Rightarrow> int \<Rightarrow> 'd timedelta" where
  "td_whole_days X n = \<lparr>m_duration = of_ticks (dur X) (n * 86400000000)\<rparr>"

lemma td_whole_days_new:
  "\<bar>n\<bar> \<le> 1 \<Longrightarrow> td_new (dur X) n 0 0 0 0 0 = Inr (td_whole_days X n)"
  by (auto simp: td_new_def td_whole_days_def td_total_def in_total_range_def m_min_micro_seconds_def
      m_max_micro_seconds_def Let_def mult.commute)

definition dt_ge :: "('b, 'p, 'd) datetime_ops \<Rightarrow> 'p datetime \<Rightarrow> 'p datetime \<Rightarrow> bool" where
  "dt_ge X a b \<longleftrightarrow> \<not> dt_less X a b"

definition td_ge :: "'d duration_ops \<Rightarrow> 'd timedelta \<Rightarrow> 'd timedelta \<Rightarrow> bool" where
  "td_ge B a b \<longleftrightarrow> \<not> td_less B a b"

text \<open>
  \<open>duration * double(x)\<close> and \<open>int(gap / duration)\<close>: quotient and product are exact here, as all
  values stay below 2^53, so both are computed on the ticks. A quotient that is no \<open>int\<close> (a duration
  below 41 microseconds, as a gap is shorter than a day) has no defined value in C++; here it is the integer.
\<close>

definition td_times :: "'d duration_ops \<Rightarrow> 'd timedelta \<Rightarrow> int \<Rightarrow> 'd timedelta result" where
  "td_times B t x = fromTicks B (td_ticks B t * x)"

text \<open>
  The first run of a timer with a window: into the window of that day or the next, and there to the
  next multiple of the duration after the start of the window.
\<close>

definition tm_align :: "('b, 'p, 'd) datetime_ops \<Rightarrow> 'd timedelta \<Rightarrow> 'd timedelta \<Rightarrow> 'd timedelta \<Rightarrow>
    'p datetime \<Rightarrow> 'p datetime result" where
  "tm_align X start_time end_time duration time_point =
     (let point_date = dt_startOfDay X time_point in
      bind_result (dt_diff X time_point point_date) (\<lambda>point.
      if td_less (dur X) point start_time then Inr (dt_plus X point_date start_time)
      else if td_less (dur X) end_time point
      then Inr (dt_plus X (dt_plus X point_date start_time) (td_whole_days X 1))
      else bind_result (td_minus (dur X) point start_time) (\<lambda>gap.
        bind_result (td_mod (dur X) gap duration) (\<lambda>r.
        if \<not> td_eq (dur X) r (td_whole_days X 0)
        then let x = td_ticks (dur X) gap sdiv td_ticks (dur X) duration + 1 in
          bind_result (td_times (dur X) duration x) (\<lambda>d.
            Inr (dt_plus X (dt_plus X point_date start_time) d))
        else Inr time_point))))"

text \<open>The point of a timer without a time of day of its own, before the alignment.\<close>

definition tm_interval_point :: "('b, 'p, 'd) datetime_ops \<Rightarrow> 'p datetime \<Rightarrow> ('p, 'd, 'f) timer \<Rightarrow>
    'p datetime result" where
  "tm_interval_point X now t =
     (let p = (if dt_ge X (m_start_date t) (dt_startOfDay X now)
               then dt_plus X (dt_plus X (m_start_date t) (m_start_time t)) (m_timer_duration t)
               else dt_plus X now (m_timer_duration t))
      in if \<not> td_eq (dur X) (m_start_time t) (m_end_time t)
         then tm_align X (m_start_time t) (m_end_time t) (m_timer_duration t) p
         else Inr p)"

section \<open>Adding and removing\<close>

text \<open>\<open>getNewTimerId\<close>: the next number that no timer has.\<close>

definition next_id :: "int \<Rightarrow> int" where
  "next_id i = (if i \<ge> int_max then 0 else i + 1)"

partial_function (option) free_id :: "(int \<times> 't) list \<Rightarrow> int \<Rightarrow> int option" where
  "free_id timers i = (if map_of timers i \<noteq> None then free_id timers (next_id i) else Some i)"

definition getNewTimerId :: "('p, 'd, 'f) timer_manager \<Rightarrow> (int \<times> ('p, 'd, 'f) timer_manager) option" where
  "getNewTimerId st =
     (if int (length (tm_timers st)) \<ge> int_max then Some (-1, st)
      else Option.bind (free_id (tm_timers st) (next_id (tm_current_timer_id st)))
        (\<lambda>i. Some (i, st\<lparr>tm_current_timer_id := i\<rparr>)))"

text \<open>
  \<open>_addFunc\<close>, with the clock read as \<open>now\<close>: the first point in time, then the entries under a new
  number. \<open>None\<close> is a search for a number that does not end.
\<close>

definition tm_first_point :: "('b, 'p, 'd) datetime_ops \<Rightarrow> 'p datetime \<Rightarrow> ('p, 'd, 'f) timer \<Rightarrow>
    'p datetime result" where
  "tm_first_point X now t =
     (let today = dt_startOfDay X now in
      if td_less (dur X) (m_start_time t) (td_whole_days X 0)
      then let first_start_time = dt_plus X (m_start_date t) (m_end_time t) in
        if dt_ge X first_start_time now then Inr first_start_time
        else if \<not> m_repeat_num t > 1 then Inl HkuException
        else let p = dt_plus X today (m_end_time t) in
          Inr (if dt_less X p now then dt_plus X p (td_whole_days X 1) else p)
      else tm_interval_point X now t)"

definition tm_add_timer :: "('b, 'p, 'd) datetime_ops \<Rightarrow> 'p datetime \<Rightarrow> ('p, 'd, 'f) timer \<Rightarrow>
    ('p, 'd, 'f) timer_manager \<Rightarrow> (int \<times> ('p, 'd, 'f) timer_manager) result option" where
  "tm_add_timer X now t st =
     (let today = dt_startOfDay X now in
      if \<not> dt_ge X (m_end_date t) today then Some (Inl HkuException)
      else case dt_max X of Inl e \<Rightarrow> Some (Inl e) | Inr mx \<Rightarrow>
      if \<not> dt_eq X (m_end_date t) mx \<and> \<not> dt_ge X (dt_plus X (m_end_date t) (m_end_time t)) now
      then Some (Inl HkuException)
      else case tm_first_point X now t of Inl e \<Rightarrow> Some (Inl e) | Inr p \<Rightarrow>
        Option.bind (getNewTimerId st) (\<lambda>(i, st).
          if i < 0 then Some (Inl HkuException)
          else Some (Inr (i, st\<lparr>tm_timers := AList.update i t (tm_timers st),
                 tm_queue := tm_queue st @ [\<lparr>m_time_point = p, m_timer_id = i\<rparr>],
                 tm_added := tm_added st @ [(m_func t, m_repeat_num t)]\<rparr>))))"

text \<open>The public versions: what they check and which timer they add.\<close>

definition td_last_tick :: "('b, 'p, 'd) datetime_ops \<Rightarrow> 'd timedelta" where
  "td_last_tick X = \<lparr>m_duration = of_ticks (dur X) 86399999999\<rparr>"

lemma td_last_tick_new: "td_new (dur X) 0 23 59 59 999 999 = Inr (td_last_tick X)"
  by (simp add: td_new_def td_last_tick_def td_total_def in_total_range_def m_min_micro_seconds_def
      m_max_micro_seconds_def)

definition time_of_day_ok :: "('b, 'p, 'd) datetime_ops \<Rightarrow> 'd timedelta \<Rightarrow> bool" where
  "time_of_day_ok X t \<longleftrightarrow>
     td_ge (dur X) t (td_whole_days X 0) \<and> td_ge (dur X) (td_last_tick X) t"

definition addFunc :: "('b, 'p, 'd) datetime_ops \<Rightarrow> 'p datetime \<Rightarrow> 'p datetime \<Rightarrow> 'p datetime \<Rightarrow>
    'd timedelta \<Rightarrow> 'd timedelta \<Rightarrow> int \<Rightarrow> 'd timedelta \<Rightarrow> 'f \<Rightarrow> ('p, 'd, 'f) timer_manager \<Rightarrow>
    (int \<times> ('p, 'd, 'f) timer_manager) result option" where
  "addFunc X now start_date end_date start_time end_time repeat_num duration f st =
     (if dt_isNull X start_date then Some (Inl HkuException)
      else if dt_isNull X end_date then Some (Inl HkuException)
      else let start = dt_startOfDay X start_date; stop = dt_startOfDay X end_date in
      if \<not> dt_ge X stop start then Some (Inl HkuException)
      else if \<not> time_of_day_ok X start_time then Some (Inl HkuException)
      else if \<not> time_of_day_ok X end_time then Some (Inl HkuException)
      else if \<not> td_ge (dur X) end_time start_time then Some (Inl HkuException)
      else if \<not> repeat_num > 0 then Some (Inl HkuException)
      else if \<not> td_less (dur X) (td_whole_days X 0) duration then Some (Inl HkuException)
      else tm_add_timer X now \<lparr>m_start_date = start, m_end_date = stop, m_start_time = start_time,
        m_end_time = end_time, m_timer_duration = duration, m_repeat_num = repeat_num, m_func = f\<rparr> st)"

definition tm_unbounded :: "('b, 'p, 'd) datetime_ops \<Rightarrow> ('p datetime \<Rightarrow> 'p datetime \<Rightarrow> 'a result option) \<Rightarrow>
    'a result option" where
  "tm_unbounded X k =
     (case dt_min X of Inl e \<Rightarrow> Some (Inl e) | Inr mn \<Rightarrow>
      case dt_max X of Inl e \<Rightarrow> Some (Inl e) | Inr mx \<Rightarrow> k mn mx)"

definition addDurationFunc :: "('b, 'p, 'd) datetime_ops \<Rightarrow> 'p datetime \<Rightarrow> int \<Rightarrow> 'd timedelta \<Rightarrow> 'f \<Rightarrow>
    ('p, 'd, 'f) timer_manager \<Rightarrow> (int \<times> ('p, 'd, 'f) timer_manager) result option" where
  "addDurationFunc X now repeat_num duration f st =
     (if \<not> repeat_num > 0 then Some (Inl HkuException)
      else if \<not> td_less (dur X) (td_whole_days X 0) duration then Some (Inl HkuException)
      else tm_unbounded X (\<lambda>mn mx. tm_add_timer X now \<lparr>m_start_date = mn, m_end_date = mx,
        m_start_time = td_whole_days X 0, m_end_time = td_whole_days X 0, m_timer_duration = duration,
        m_repeat_num = repeat_num, m_func = f\<rparr> st))"

definition addDelayFunc :: "('b, 'p, 'd) datetime_ops \<Rightarrow> 'p datetime \<Rightarrow> 'd timedelta \<Rightarrow> 'f \<Rightarrow>
    ('p, 'd, 'f) timer_manager \<Rightarrow> (int \<times> ('p, 'd, 'f) timer_manager) result option" where
  "addDelayFunc X now delay f st =
     (if \<not> td_less (dur X) (td_whole_days X 0) delay then Some (Inl HkuException)
      else tm_unbounded X (\<lambda>mn mx. tm_add_timer X now \<lparr>m_start_date = mn, m_end_date = mx,
        m_start_time = td_whole_days X 0, m_end_time = td_whole_days X 0, m_timer_duration = delay,
        m_repeat_num = 1, m_func = f\<rparr> st))"

text \<open>The clock is read twice: for the check and in \<open>_addFunc\<close>.\<close>

definition addFuncAtTime :: "('b, 'p, 'd) datetime_ops \<Rightarrow> 'p datetime \<Rightarrow> 'p datetime \<Rightarrow> 'p datetime \<Rightarrow> 'f \<Rightarrow>
    ('p, 'd, 'f) timer_manager \<Rightarrow> (int \<times> ('p, 'd, 'f) timer_manager) result option" where
  "addFuncAtTime X now now' time_point f st =
     (if \<not> dt_less X now time_point then Some (Inl HkuException)
      else let point_date = dt_startOfDay X time_point in
      case dt_diff X time_point point_date of Inl e \<Rightarrow> Some (Inl e) | Inr point \<Rightarrow>
      case dt_max X of Inl e \<Rightarrow> Some (Inl e) | Inr mx \<Rightarrow>
      tm_add_timer X now' \<lparr>m_start_date = dt_startOfDay X time_point, m_end_date = mx,
        m_start_time = td_whole_days X (-1), m_end_time = point, m_timer_duration = td_whole_days X 0,
        m_repeat_num = 1, m_func = f\<rparr> st)"

definition addFuncAtTimeEveryDay :: "('b, 'p, 'd) datetime_ops \<Rightarrow> 'p datetime \<Rightarrow> 'p datetime \<Rightarrow>
    'p datetime \<Rightarrow> 'd timedelta \<Rightarrow> 'f \<Rightarrow> ('p, 'd, 'f) timer_manager \<Rightarrow>
    (int \<times> ('p, 'd, 'f) timer_manager) result option" where
  "addFuncAtTimeEveryDay X now start_date end_date time f st =
     (if \<not> (\<not> dt_isNull X start_date \<and> \<not> dt_isNull X end_date) then Some (Inl HkuException)
      else if \<not> time_of_day_ok X time then Some (Inl HkuException)
      else let start = dt_startOfDay X start_date; stop = dt_startOfDay X end_date in
      if \<not> dt_ge X stop start then Some (Inl HkuException)
      else tm_unbounded X (\<lambda>mn mx. tm_add_timer X now \<lparr>m_start_date = mn, m_end_date = mx,
        m_start_time = td_whole_days X (-1), m_end_time = time, m_timer_duration = td_whole_days X 0,
        m_repeat_num = int_max, m_func = f\<rparr> st))"

definition addFuncAtTimeEveryDay_always :: "('b, 'p, 'd) datetime_ops \<Rightarrow> 'p datetime \<Rightarrow> 'd timedelta \<Rightarrow>
    'f \<Rightarrow> ('p, 'd, 'f) timer_manager \<Rightarrow> (int \<times> ('p, 'd, 'f) timer_manager) result option" where
  "addFuncAtTimeEveryDay_always X now time f st =
     tm_unbounded X (\<lambda>mn mx. addFuncAtTimeEveryDay X now mn mx time f st)"

definition removeTimer :: "int \<Rightarrow> ('p, 'd, 'f) timer_manager \<Rightarrow> ('p, 'd, 'f) timer_manager" where
  "removeTimer timerid st =
     (case map_of (tm_timers st) timerid of
        None \<Rightarrow> st
      | Some t \<Rightarrow> st\<lparr>tm_timers := AList.update timerid (t\<lparr>m_repeat_num := 0\<rparr>) (tm_timers st)\<rparr>)"

definition tm_erase :: "int \<Rightarrow> ('p, 'd, 'f) timer_manager \<Rightarrow> ('p, 'd, 'f) timer_manager" where
  "tm_erase i st = st\<lparr>tm_timers := AList.delete i (tm_timers st)\<rparr>"

section \<open>Running\<close>

text \<open>
  The body of \<open>detectThread\<close>, one round under the mutex: with an empty queue it waits; an entry at
  \<open>min()\<close> ends the thread; an entry in the future is waited for; else the entry is taken out and its
  timer is run. \<open>s\<close> is the entry the heap has on top, \<open>now\<close> and \<open>now'\<close> are the two readings of the
  clock. An exception leaves the thread, which ends the program.
\<close>

datatype ('d, 's) round = WaitForever | WaitFor 'd | EndThread | Goes 's

text \<open>The next point of a timer that has just been run.\<close>

definition tm_next_point :: "('b, 'p, 'd) datetime_ops \<Rightarrow> 'p datetime \<Rightarrow> ('p, 'd, 'f) timer \<Rightarrow>
    'p datetime \<Rightarrow> 'p datetime result" where
  "tm_next_point X now t time_point =
     (let today = dt_startOfDay X now in
      if td_ge (dur X) (m_start_time t) (td_whole_days X 0)
      then let p = dt_plus X time_point (m_timer_duration t);
               p = (if dt_less X p now then now else p)
        in Inr (if \<not> td_eq (dur X) (m_start_time t) (m_end_time t) \<and>
                   dt_greater X p (dt_plus X today (m_end_time t))
                then dt_plus X (dt_plus X today (m_start_time t)) (td_whole_days X 1)
                else p)
      else bind_result (dt_diff X today (dt_startOfDay X time_point)) (\<lambda>d.
        bind_result (td_plus (dur X) d (td_whole_days X 1)) (\<lambda>d.
          Inr (dt_plus X time_point d))))"

definition tm_run_top :: "('b, 'p, 'd) datetime_ops \<Rightarrow> 'p datetime \<Rightarrow> 'p interval \<Rightarrow>
    ('p, 'd, 'f) timer_manager \<Rightarrow> ('p, 'd, 'f) timer_manager result" where
  "tm_run_top X now s st =
     (let st = st\<lparr>tm_queue := remove1 s (tm_queue st)\<rparr>; i = m_timer_id s in
      case map_of (tm_timers st) i of
        None \<Rightarrow> Inr st
      | Some t \<Rightarrow>
          if tm_pool_done st then Inl LogicError
          else let st = st\<lparr>tm_submitted := tm_submitted st @ [(i, m_func t)]\<rparr>;
                   t = (if m_repeat_num t \<noteq> int_max then t\<lparr>m_repeat_num := m_repeat_num t - 1\<rparr> else t);
                   st = st\<lparr>tm_timers := AList.update i t (tm_timers st)\<rparr>
            in if m_repeat_num t \<le> 0 then Inr (tm_erase i st)
               else bind_result (tm_next_point X now t (m_time_point s)) (\<lambda>p.
                 bind_result (dt_max X) (\<lambda>mx.
                 if \<not> dt_eq X (m_end_date t) mx \<and>
                    dt_greater X p (dt_plus X (m_end_date t) (m_end_time t))
                 then Inr (tm_erase i st)
                 else Inr (st\<lparr>tm_queue := tm_queue st @ [s\<lparr>m_time_point := p\<rparr>]\<rparr>))))"

definition detect_round :: "('b, 'p, 'd) datetime_ops \<Rightarrow> 'p datetime \<Rightarrow> 'p datetime \<Rightarrow> 'p interval \<Rightarrow>
    ('p, 'd, 'f) timer_manager \<Rightarrow> ('d timedelta, ('p, 'd, 'f) timer_manager) round result" where
  "detect_round X now now' s st =
     (if tm_queue st = [] then Inr WaitForever
      else bind_result (dt_min X) (\<lambda>mn.
        if dt_eq X (m_time_point s) mn then Inr EndThread
        else bind_result (dt_diff X (m_time_point s) now) (\<lambda>diff.
          if td_less (dur X) (td_whole_days X 0) diff then Inr (WaitFor diff)
          else bind_result (tm_run_top X now' s st) (\<lambda>st'. Inr (Goes st')))))"

section \<open>Starting and stopping\<close>

text \<open>
  \<open>start\<close> builds the queue again from the timers, in the order of the map, and removes those whose
  runs or dates are over (\<open>None\<close>). The clock is read once for each timer.
\<close>

definition tm_restart_point :: "('b, 'p, 'd) datetime_ops \<Rightarrow> 'p datetime \<Rightarrow> ('p, 'd, 'f) timer \<Rightarrow>
    'p datetime option result" where
  "tm_restart_point X now t =
     bind_result (dt_max X) (\<lambda>mx.
     if m_repeat_num t \<le> 0 \<or> (\<not> dt_eq X (m_end_date t) mx \<and>
          dt_less X (dt_plus X (m_end_date t) (m_end_time t)) now)
     then Inr None
     else if td_less (dur X) (m_start_time t) (td_whole_days X 0)
     then let first_start_time = dt_plus X (m_start_date t) (m_end_time t) in
       if dt_ge X first_start_time now then Inr (Some first_start_time)
       else if m_repeat_num t \<le> 1 then Inr None
       else let p = dt_plus X (dt_startOfDay X now) (m_end_time t) in
         Inr (Some (if dt_less X p now then dt_plus X p (td_whole_days X 1) else p))
     else bind_result (tm_interval_point X now t) (\<lambda>p. Inr (Some p)))"

fun tm_rebuild :: "('b, 'p, 'd) datetime_ops \<Rightarrow> (int \<Rightarrow> 'p datetime) \<Rightarrow>
    (int \<times> ('p, 'd, 'f) timer) list \<Rightarrow> ('p interval list \<times> int list) result" where
  "tm_rebuild X clock [] = Inr ([], [])"
| "tm_rebuild X clock ((i, t) # timers) =
     bind_result (tm_restart_point X (clock i) t) (\<lambda>p.
     bind_result (tm_rebuild X clock timers) (\<lambda>(queue, invalid).
       case p of None \<Rightarrow> Inr (queue, i # invalid)
       | Some p \<Rightarrow> Inr (\<lparr>m_time_point = p, m_timer_id = i\<rparr> # queue, invalid)))"

definition tm_start :: "('b, 'p, 'd) datetime_ops \<Rightarrow> (int \<Rightarrow> 'p datetime) \<Rightarrow> ('p, 'd, 'f) timer_manager \<Rightarrow>
    ('p, 'd, 'f) timer_manager result" where
  "tm_start X clock st =
     (if \<not> tm_stop st then Inr st
      else let st = st\<lparr>tm_stop := False, tm_queue := []\<rparr> in
        bind_result (tm_rebuild X clock (tm_timers st)) (\<lambda>(queue, invalid).
          Inr (fold tm_erase invalid (st\<lparr>tm_queue := queue\<rparr>))))"

definition tm_do_stop :: "('p, 'd, 'f) timer_manager \<Rightarrow> ('p, 'd, 'f) timer_manager" where
  "tm_do_stop st = (if \<not> tm_stop st then st\<lparr>tm_queue := [], tm_stop := True\<rparr> else st)"

section \<open>Runs of a manager\<close>

text \<open>
  Any sequence of the operations and of rounds of the detecting thread, whatever the clock shows. An
  external pool may be stopped at any time. Functions are distinct, so that their runs can be counted.
\<close>

inductive tm_step :: "('b, 'p, 'd) datetime_ops \<Rightarrow> ('p, 'd, 'f) timer_manager \<Rightarrow>
    ('p, 'd, 'f) timer_manager \<Rightarrow> bool" for X where
  add: "tm_add_timer X now t st = Some (Inr (i, st')) \<Longrightarrow> 0 < m_repeat_num t \<Longrightarrow>
    m_repeat_num t \<le> int_max \<Longrightarrow> m_func t \<notin> fst ` set (tm_added st) \<Longrightarrow> tm_step X st st'"
| remove: "tm_step X st (removeTimer i st)"
| detect: "\<not> tm_stop st \<Longrightarrow> is_top X s (tm_queue st) \<Longrightarrow> detect_round X now now' s st = Inr (Goes st') \<Longrightarrow>
    tm_step X st st'"
| start: "tm_start X clock st = Inr st' \<Longrightarrow> tm_step X st st'"
| stop: "tm_step X st (tm_do_stop st)"
| pool_done: "tm_step X st (st\<lparr>tm_pool_done := True\<rparr>)"

inductive tm_reach :: "('b, 'p, 'd) datetime_ops \<Rightarrow> ('p, 'd, 'f) timer_manager \<Rightarrow> bool" for X where
  init: "tm_reach X tm_new"
| step: "tm_reach X st \<Longrightarrow> tm_step X st st' \<Longrightarrow> tm_reach X st'"

section \<open>New numbers\<close>

lemma next_id_range: "- 1 \<le> i \<Longrightarrow> i \<le> int_max \<Longrightarrow> 0 \<le> next_id i \<and> next_id i \<le> int_max"
  by (auto simp: next_id_def int_max_def)

lemma free_id_fresh:
  assumes "free_id timers i = Some j"
  shows "map_of timers j = None \<and> (0 \<le> i \<and> i \<le> int_max \<longrightarrow> 0 \<le> j \<and> j \<le> int_max)"
proof (rule free_id.raw_induct
    [where P = "\<lambda>timers i j. map_of timers j = None \<and> (0 \<le> i \<and> i \<le> int_max \<longrightarrow> 0 \<le> j \<and> j \<le> int_max)",
      OF _ assms])
  fix g timers i j
  assume IH: "\<And>timers i j. g timers i = Some j \<Longrightarrow>
      map_of timers j = None \<and> (0 \<le> i \<and> i \<le> int_max \<longrightarrow> 0 \<le> j \<and> j \<le> int_max)"
    and r: "(if map_of timers i \<noteq> None then g timers (next_id i) else Some i) = Some j"
  show "map_of timers j = None \<and> (0 \<le> i \<and> i \<le> int_max \<longrightarrow> 0 \<le> j \<and> j \<le> int_max)"
  proof (cases "map_of timers i = None")
    case False
    with r have "g timers (next_id i) = Some j" by simp
    with IH next_id_range [of i] show ?thesis by simp
  qed (use r in simp)
qed

lemma next_id_mod: "0 \<le> i \<Longrightarrow> i \<le> int_max \<Longrightarrow> next_id i = (i + 1) mod 2147483648"
  by (simp add: next_id_def int_max_def)

lemma free_id_found:
  assumes "0 \<le> i" "i \<le> int_max" "map_of timers ((i + int k) mod 2147483648) = None"
  shows "\<exists>j. free_id timers i = Some j"
  using assms
proof (induction k arbitrary: i)
  case 0
  then have "i mod 2147483648 = i" by (simp add: int_max_def)
  with 0 show ?case by (subst free_id.simps) simp
next
  case (Suc k)
  have b: "0 \<le> next_id i" "next_id i \<le> int_max" using Suc.prems by (auto simp: next_id_def int_max_def)
  have "(next_id i + int k) mod 2147483648 = (i + int (Suc k)) mod 2147483648"
    using Suc.prems(1,2) by (simp add: next_id_mod mod_simps add_ac)
  then have "\<exists>j. free_id timers (next_id i) = Some j" using Suc b by simp
  then show ?case by (subst free_id.simps) auto
qed

lemma free_id_ends:
  assumes "0 \<le> i" "i \<le> int_max" "int (length timers) < 2147483648"
  shows "\<exists>j. free_id timers i = Some j"
proof -
  let ?ids = "(\<lambda>k. (i + int k) mod 2147483648) ` {..<2147483648}"
  have "inj_on (\<lambda>k. (i + int k) mod 2147483648) {..<2147483648 :: nat}"
  proof (rule inj_onI)
    fix k l :: nat
    assume kl: "k \<in> {..<2147483648}" "l \<in> {..<2147483648}"
      "(i + int k) mod 2147483648 = (i + int l) mod 2147483648"
    from kl(3) have "(i + int k - i) mod 2147483648 = (i + int l - i) mod 2147483648"
      by (rule mod_diff_cong) simp
    then show "k = l" using kl(1,2) by simp
  qed
  then have "card ?ids = 2147483648" by (simp add: card_image)
  moreover have "card (fst ` set timers) \<le> length timers"
    by (metis List.finite_set card_image_le card_length le_trans)
  ultimately have "\<not> ?ids \<subseteq> fst ` set timers"
    using assms(3) card_mono [of "fst ` set timers" ?ids] by force
  then obtain k where "(i + int k) mod 2147483648 \<notin> fst ` set timers" by blast
  then have "map_of timers ((i + int k) mod 2147483648) = None" by (simp add: map_of_eq_None_iff)
  then show ?thesis using free_id_found assms(1,2) by blast
qed

lemma new_id:
  assumes "- 1 \<le> tm_current_timer_id st" "tm_current_timer_id st \<le> int_max"
  obtains (full) "int (length (tm_timers st)) \<ge> int_max" "getNewTimerId st = Some (-1, st)"
    | (new) i where "getNewTimerId st = Some (i, st\<lparr>tm_current_timer_id := i\<rparr>)"
      "0 \<le> i" "i \<le> int_max" "map_of (tm_timers st) i = None"
proof (cases "int (length (tm_timers st)) \<ge> int_max")
  case False
  have b: "0 \<le> next_id (tm_current_timer_id st)" "next_id (tm_current_timer_id st) \<le> int_max"
    using assms by (auto simp: next_id_def int_max_def)
  obtain i where i: "free_id (tm_timers st) (next_id (tm_current_timer_id st)) = Some i"
    using free_id_ends [OF b, of "tm_timers st"] False by (force simp: int_max_def)
  show thesis
    using new [of i] i free_id_fresh [OF i] b False by (simp add: getNewTimerId_def)
qed (use full in \<open>simp add: getNewTimerId_def\<close>)

section \<open>The invariant\<close>

text \<open>
  Numbers are unique in the map and in the queue; every entry of the queue has its timer, and while
  the manager runs every timer has its entry.
\<close>

abbreviation queue_ids :: "('p, 'd, 'f) timer_manager \<Rightarrow> int list" where
  "queue_ids st \<equiv> map m_timer_id (tm_queue st)"

abbreviation timer_ids :: "('p, 'd, 'f) timer_manager \<Rightarrow> int set" where
  "timer_ids st \<equiv> fst ` set (tm_timers st)"

definition tm_ok :: "('p, 'd, 'f) timer_manager \<Rightarrow> bool" where
  "tm_ok st \<longleftrightarrow> distinct (map fst (tm_timers st)) \<and> distinct (queue_ids st) \<and>
     set (queue_ids st) \<subseteq> timer_ids st \<and> (\<not> tm_stop st \<longrightarrow> timer_ids st \<subseteq> set (queue_ids st)) \<and>
     timer_ids st \<subseteq> {0..int_max} \<and> - 1 \<le> tm_current_timer_id st \<and> tm_current_timer_id st \<le> int_max"

text \<open>
  A function added with a finite number of repetitions has run at most so often, and while its timer
  exists, at least one run is left: a removed timer keeps its entry, and runs once more.
\<close>

definition runs_of :: "('p, 'd, 'f) timer_manager \<Rightarrow> 'f \<Rightarrow> int" where
  "runs_of st f = int (count_list (map snd (tm_submitted st)) f)"

definition tm_runs :: "('p, 'd, 'f) timer_manager \<Rightarrow> bool" where
  "tm_runs st \<longleftrightarrow> distinct (map fst (tm_added st)) \<and>
     snd ` set (tm_submitted st) \<subseteq> fst ` set (tm_added st) \<and>
     (\<forall>i t. map_of (tm_timers st) i = Some t \<longrightarrow> (\<exists>n. (m_func t, n) \<in> set (tm_added st) \<and>
        (n \<noteq> int_max \<longrightarrow> runs_of st (m_func t) + max 1 (m_repeat_num t) \<le> n))) \<and>
     (\<forall>i j t u. map_of (tm_timers st) i = Some t \<and> map_of (tm_timers st) j = Some u \<and>
        m_func t = m_func u \<longrightarrow> i = j) \<and>
     (\<forall>f n. (f, n) \<in> set (tm_added st) \<and> n \<noteq> int_max \<longrightarrow> n \<le> int_max \<and> runs_of st f \<le> n)"

lemma keys_delete: "fst ` set (AList.delete k al) = fst ` set al - {k}"
  by (simp only: set_map [symmetric] delete_keys set_removeAll)

lemma ids_remove1:
  assumes "distinct (map m_timer_id q)" "s \<in> set q"
  shows "distinct (map m_timer_id (remove1 s q))"
    and "set (map m_timer_id (remove1 s q)) = set (map m_timer_id q) - {m_timer_id s}"
proof -
  have d: "distinct q" using assms(1) by (simp add: distinct_map)
  show "distinct (map m_timer_id (remove1 s q))"
    using assms(1) d by (auto simp: distinct_map intro: inj_on_subset)
  show "set (map m_timer_id (remove1 s q)) = set (map m_timer_id q) - {m_timer_id s}"
    using assms d by (auto simp: distinct_map dest: inj_onD)
qed

text \<open>What a round that runs the entry on top does.\<close>

lemma run_top_cases:
  assumes "tm_run_top X now s st = Inr st'"
  obtains (gone) "map_of (tm_timers st) (m_timer_id s) = None"
      "st' = st\<lparr>tm_queue := remove1 s (tm_queue st)\<rparr>"
    | (ended) t where "map_of (tm_timers st) (m_timer_id s) = Some t"
      "st' = st\<lparr>tm_queue := remove1 s (tm_queue st),
         tm_timers := AList.delete (m_timer_id s) (tm_timers st),
         tm_submitted := tm_submitted st @ [(m_timer_id s, m_func t)]\<rparr>"
    | (again) t r p where "map_of (tm_timers st) (m_timer_id s) = Some t" "0 < r"
      "r = (if m_repeat_num t \<noteq> int_max then m_repeat_num t - 1 else m_repeat_num t)"
      "tm_next_point X now (t\<lparr>m_repeat_num := r\<rparr>) (m_time_point s) = Inr p"
      "st' = st\<lparr>tm_queue := remove1 s (tm_queue st) @ [s\<lparr>m_time_point := p\<rparr>],
         tm_timers := AList.update (m_timer_id s) (t\<lparr>m_repeat_num := r\<rparr>) (tm_timers st),
         tm_submitted := tm_submitted st @ [(m_timer_id s, m_func t)]\<rparr>"
proof (cases "map_of (tm_timers st) (m_timer_id s)")
  case None
  then show thesis using assms gone by (simp add: tm_run_top_def Let_def)
next
  case (Some t)
  have r: "(if m_repeat_num t \<noteq> int_max then t\<lparr>m_repeat_num := m_repeat_num t - 1\<rparr> else t) =
      t\<lparr>m_repeat_num := (if m_repeat_num t \<noteq> int_max then m_repeat_num t - 1 else m_repeat_num t)\<rparr>"
    by simp
  show thesis
    using assms Some ended [OF Some] again [OF Some]
    by (auto simp: tm_run_top_def Let_def r tm_erase_def delete_update_same not_le split: if_splits)
qed

lemma detect_round_goes: "detect_round X now now' s st = Inr (Goes st') \<Longrightarrow> tm_run_top X now' s st = Inr st'"
  by (auto simp: detect_round_def split: if_splits)

lemma add_timer_cases:
  assumes "tm_add_timer X now t st = Some (Inr (i, st'))" "tm_ok st"
  obtains p where "0 \<le> i" "i \<le> int_max" "map_of (tm_timers st) i = None"
    "tm_first_point X now t = Inr p"
    "st' = st\<lparr>tm_current_timer_id := i, tm_timers := AList.update i t (tm_timers st),
       tm_queue := tm_queue st @ [\<lparr>m_time_point = p, m_timer_id = i\<rparr>],
       tm_added := tm_added st @ [(m_func t, m_repeat_num t)]\<rparr>"
proof -
  have c: "- 1 \<le> tm_current_timer_id st" "tm_current_timer_id st \<le> int_max"
    using assms(2) by (simp_all add: tm_ok_def)
  show thesis
  proof (cases rule: new_id [OF c])
    case 1
    with assms(1) show thesis
      by (auto simp: tm_add_timer_def Let_def split: if_splits sum.splits)
  next
    case (2 j)
    with assms(1) that show thesis
      by (auto simp: tm_add_timer_def Let_def split: if_splits sum.splits)
  qed
qed

section \<open>Its steps\<close>

lemma ok_run_top:
  assumes "tm_ok st" "s \<in> set (tm_queue st)" "tm_run_top X now s st = Inr st'"
  shows "tm_ok st'"
proof -
  note o = assms(1) [unfolded tm_ok_def]
  have d: "distinct (map m_timer_id (tm_queue st))" using o by simp
  note q = ids_remove1 [OF d assms(2)]
  have i: "m_timer_id s \<in> timer_ids st" using o assms(2) by auto
  from assms(3) show ?thesis
  proof (cases rule: run_top_cases)
    case gone
    then show ?thesis using i by (simp add: map_of_eq_None_iff)
  next
    case (ended t)
    then show ?thesis
      using o q by (auto simp: tm_ok_def distinct_delete keys_delete simp del: set_map)
  next
    case (again t r p)
    then show ?thesis
      using o q i by (auto simp: tm_ok_def distinct_update dom_update simp del: set_map)
  qed
qed

lemma rebuild_Cons:
  assumes "tm_rebuild X clock ((i, t) # timers) = Inr (q, invalid)"
  obtains (over) invalid' where "tm_rebuild X clock timers = Inr (q, invalid')" "invalid = i # invalid'"
    | (waits) p q' where "tm_rebuild X clock timers = Inr (q', invalid)"
      "q = \<lparr>m_time_point = p, m_timer_id = i\<rparr> # q'"
proof -
  from assms have "\<exists>p r. tm_rebuild X clock timers = Inr r \<and>
    (case r of (queue, invalid) \<Rightarrow> case p of None \<Rightarrow> Inr (queue, i # invalid)
       | Some p \<Rightarrow> Inr (\<lparr>m_time_point = p, m_timer_id = i\<rparr> # queue, invalid)) = (Inr (q, invalid) :: _ result)"
    by (simp only: tm_rebuild.simps bind_result_Inr_iff) blast
  then obtain p r where "tm_rebuild X clock timers = Inr r"
    "(case r of (queue, invalid) \<Rightarrow> case p of None \<Rightarrow> Inr (queue, i # invalid)
       | Some p \<Rightarrow> Inr (\<lparr>m_time_point = p, m_timer_id = i\<rparr> # queue, invalid)) = (Inr (q, invalid) :: _ result)"
    by blast
  then show thesis using over waits by (cases r; cases p) auto
qed

lemma rebuild_ids:
  assumes "tm_rebuild X clock timers = Inr (q, invalid)"
  shows "set (map m_timer_id q) \<union> set invalid = fst ` set timers"
    and "distinct (map fst timers) \<Longrightarrow> distinct (map m_timer_id q) \<and> set (map m_timer_id q) \<inter> set invalid = {}"
  using assms
proof (induction timers arbitrary: q invalid)
  case (Cons x timers)
  obtain i t where x: "x = (i, t)" by fastforce
  { case 1
    from 1 [unfolded x] show ?case
    proof (cases rule: rebuild_Cons)
      case (over inv')
      with Cons.IH(1) [OF over(1), symmetric] show ?thesis by (simp add: x)
    next
      case (waits p q')
      with Cons.IH(1) [OF waits(1), symmetric] show ?thesis by (simp add: x)
    qed }
  { case 2
    from 2(2) [unfolded x] show ?case
    proof (cases rule: rebuild_Cons)
      case (over inv')
      with Cons.IH(1) [OF over(1), symmetric] Cons.IH(2) [OF _ over(1)] 2(1) show ?thesis by (simp add: x)
    next
      case (waits p q')
      with Cons.IH(1) [OF waits(1), symmetric] Cons.IH(2) [OF _ waits(1)] 2(1) show ?thesis by (simp add: x)
    qed }
qed simp_all

lemma fold_erase:
  "tm_queue (fold tm_erase is st) = tm_queue st" "tm_stop (fold tm_erase is st) = tm_stop st"
  "tm_current_timer_id (fold tm_erase is st) = tm_current_timer_id st"
  "tm_submitted (fold tm_erase is st) = tm_submitted st" "tm_added (fold tm_erase is st) = tm_added st"
  "timer_ids (fold tm_erase is st) = timer_ids st - set is"
  "distinct (map fst (tm_timers st)) \<Longrightarrow> distinct (map fst (tm_timers (fold tm_erase is st)))"
  "map_of (tm_timers (fold tm_erase is st)) i = (if i \<in> set is then None else map_of (tm_timers st) i)"
  by (induction "is" arbitrary: st)
    (auto simp: tm_erase_def keys_delete distinct_delete delete_conv' simp del: set_map)

lemma start_cases:
  assumes "tm_start X clock st = Inr st'"
  obtains (running) "\<not> tm_stop st" "st' = st"
    | (rebuilt) q invalid where "tm_rebuild X clock (tm_timers st) = Inr (q, invalid)"
      "st' = fold tm_erase invalid (st\<lparr>tm_stop := False, tm_queue := q\<rparr>)"
proof (cases "tm_stop st")
  case True
  with assms obtain r where r: "tm_rebuild X clock (tm_timers st) = Inr r"
    "(case r of (queue, invalid) \<Rightarrow>
       Inr (fold tm_erase invalid (st\<lparr>tm_stop := False, tm_queue := []\<rparr>\<lparr>tm_queue := queue\<rparr>))) = (Inr st' :: _ result)"
    by (simp only: tm_start_def Let_def bind_result_Inr_iff) auto
  obtain q invalid where q: "r = (q, invalid)" by fastforce
  show thesis
  proof (rule rebuilt)
    show "tm_rebuild X clock (tm_timers st) = Inr (q, invalid)" using r(1) by (simp only: q)
    show "st' = fold tm_erase invalid (st\<lparr>tm_stop := False, tm_queue := q\<rparr>)"
      using r(2) by (simp add: q)
  qed
next
  case False
  then have "st' = st" using assms by (simp add: tm_start_def)
  with False show thesis by (rule running)
qed

lemma ok_step: "tm_step X st st' \<Longrightarrow> tm_ok st \<Longrightarrow> tm_ok st'"
proof (induction rule: tm_step.induct)
  case (add now t st i st')
  from add.hyps(1) add.prems show ?case
  proof (cases rule: add_timer_cases)
    case (1 p)
    then have "i \<notin> timer_ids st" by (simp add: map_of_eq_None_iff)
    with 1 add.prems show ?thesis
      by (auto simp: tm_ok_def distinct_update dom_update simp del: set_map)
  qed
next
  case (remove st i)
  then show ?case
    by (auto simp: removeTimer_def tm_ok_def distinct_update dom_update insert_absorb
        split: option.splits dest!: map_of_SomeD simp del: set_map)
next
  case (detect st s now now' st')
  then show ?case using ok_run_top detect_round_goes by (fastforce simp: is_top_def)
next
  case (start clock st st')
  from start.hyps show ?case
  proof (cases rule: start_cases)
    case (rebuilt q invalid)
    with rebuild_ids [OF rebuilt(1)] start.prems show ?thesis
      by (auto simp: tm_ok_def fold_erase simp del: set_map)
  qed (use start.prems in simp)
next
  case (stop st)
  then show ?case by (simp add: tm_ok_def tm_do_stop_def)
next
  case (pool_done st)
  then show ?case by (simp add: tm_ok_def)
qed

lemma ok_reach: "tm_reach X st \<Longrightarrow> tm_ok st"
proof (induction rule: tm_reach.induct)
  case init
  show ?case by (simp add: tm_ok_def tm_new_def int_max_def)
qed (rule ok_step)

lemma runs_parts:
  assumes "tm_runs st"
  shows "distinct (map fst (tm_added st))" "snd ` set (tm_submitted st) \<subseteq> fst ` set (tm_added st)"
    and "\<forall>i t. map_of (tm_timers st) i = Some t \<longrightarrow> (\<exists>n. (m_func t, n) \<in> set (tm_added st) \<and>
        (n \<noteq> int_max \<longrightarrow> runs_of st (m_func t) + max 1 (m_repeat_num t) \<le> n))"
    and "\<forall>i j t u. map_of (tm_timers st) i = Some t \<and> map_of (tm_timers st) j = Some u \<and>
        m_func t = m_func u \<longrightarrow> i = j"
    and "\<forall>f n. (f, n) \<in> set (tm_added st) \<and> n \<noteq> int_max \<longrightarrow> n \<le> int_max \<and> runs_of st f \<le> n"
proof -
  note ra = assms [unfolded tm_runs_def]
  note rb = conjunct2 [OF ra]
  note rc = conjunct2 [OF rb]
  note rd = conjunct2 [OF rc]
  show "distinct (map fst (tm_added st))" by (rule conjunct1 [OF ra])
  show "snd ` set (tm_submitted st) \<subseteq> fst ` set (tm_added st)" by (rule conjunct1 [OF rb])
  show "\<forall>i t. map_of (tm_timers st) i = Some t \<longrightarrow> (\<exists>n. (m_func t, n) \<in> set (tm_added st) \<and>
        (n \<noteq> int_max \<longrightarrow> runs_of st (m_func t) + max 1 (m_repeat_num t) \<le> n))"
    by (rule conjunct1 [OF rc])
  show "\<forall>i j t u. map_of (tm_timers st) i = Some t \<and> map_of (tm_timers st) j = Some u \<and>
        m_func t = m_func u \<longrightarrow> i = j"
    by (rule conjunct1 [OF rd])
  show "\<forall>f n. (f, n) \<in> set (tm_added st) \<and> n \<noteq> int_max \<longrightarrow> n \<le> int_max \<and> runs_of st f \<le> n"
    by (rule conjunct2 [OF rd])
qed

lemma runsD:
  assumes "tm_runs st" "map_of (tm_timers st) i = Some t"
  obtains n where "(m_func t, n) \<in> set (tm_added st)"
    "n \<noteq> int_max \<longrightarrow> runs_of st (m_func t) + max 1 (m_repeat_num t) \<le> n" "n \<noteq> int_max \<longrightarrow> n \<le> int_max"
proof -
  obtain n where n: "(m_func t, n) \<in> set (tm_added st)"
    "n \<noteq> int_max \<longrightarrow> runs_of st (m_func t) + max 1 (m_repeat_num t) \<le> n"
    using runs_parts(3) [OF assms(1), rule_format, OF assms(2)] by blast
  show thesis
    by (rule that [OF n]) (use runs_parts(5) [OF assms(1), rule_format] n(1) in blast)
qed

lemma runs_inject:
  assumes "tm_runs st" "map_of (tm_timers st) i = Some t" "map_of (tm_timers st) j = Some u" "m_func t = m_func u"
  shows "i = j"
  using runs_parts(4) [OF assms(1), rule_format] assms(2-4) by blast

text \<open>Steps that run nothing may drop timers and lower the repetitions of others.\<close>

lemma runs_mono:
  fixes st st' :: "('p, 'd, 'f) timer_manager"
  assumes "tm_runs st" "tm_submitted st' = tm_submitted st" "tm_added st' = tm_added st"
    and "\<And>i t'. map_of (tm_timers st') i = Some t' \<Longrightarrow> \<exists>t. map_of (tm_timers st) i = Some t \<and>
      m_func t = m_func t' \<and> max 1 (m_repeat_num t') \<le> max 1 (m_repeat_num t)"
  shows "tm_runs st'"
proof -
  have r: "runs_of st' f = runs_of st f" for f using assms(2) by (simp add: runs_of_def)
  have "\<exists>n. (m_func t', n) \<in> set (tm_added st) \<and>
      (n \<noteq> int_max \<longrightarrow> runs_of st (m_func t') + max 1 (m_repeat_num t') \<le> n)"
    if m: "map_of (tm_timers st') i = Some t'" for i t'
  proof -
    obtain t where t: "map_of (tm_timers st) i = Some t" "m_func t = m_func t'"
      "max 1 (m_repeat_num t') \<le> max 1 (m_repeat_num t)" using assms(4) [OF m] by blast
    obtain n where "(m_func t', n) \<in> set (tm_added st)"
      "n \<noteq> int_max \<longrightarrow> runs_of st (m_func t') + max 1 (m_repeat_num t) \<le> n"
      by (rule runsD [OF assms(1) t(1), unfolded t(2)])
    with t(3) show ?thesis by (intro exI [of _ n]) linarith
  qed
  moreover have "i = j" if a: "map_of (tm_timers st') i = Some t" "map_of (tm_timers st') j = Some u"
    "m_func t = m_func u" for i j t u
  proof -
    obtain t' where t: "map_of (tm_timers st) i = Some t'" "m_func t' = m_func t"
      using assms(4) [OF a(1)] by blast
    obtain u' where u: "map_of (tm_timers st) j = Some u'" "m_func u' = m_func u"
      using assms(4) [OF a(2)] by blast
    show ?thesis by (rule runs_inject [OF assms(1) t(1) u(1)]) (simp only: t(2) u(2) a(3))
  qed
  ultimately show ?thesis
    unfolding tm_runs_def r assms(2,3)
    by (intro conjI runs_parts [OF assms(1)]) blast+
qed

lemma func_update:
  assumes "\<And>j u k v. m j = Some u \<Longrightarrow> m k = Some v \<Longrightarrow> m_func u = m_func v \<Longrightarrow> j = k"
    and "\<And>j u. m j = Some u \<Longrightarrow> j \<noteq> i \<Longrightarrow> m_func u \<noteq> m_func t"
    and "(m(i \<mapsto> t)) j = Some u" "(m(i \<mapsto> t)) k = Some v" "m_func u = m_func v"
  shows "j = k"
proof (cases "j = i")
  case True
  then have "u = t" using assms(3) by simp
  then show ?thesis using assms(2) [of k v] assms(4,5) True by (cases "k = i") simp_all
next
  case j: False
  show ?thesis
  proof (cases "k = i")
    case True
    then have "v = t" using assms(4) by simp
    then show ?thesis using assms(2) [of j u] assms(3,5) j by simp
  next
    case False
    then show ?thesis using assms(1) [of j u k v] assms(3,4,5) j by simp
  qed
qed

lemma runs_run_top:
  assumes "tm_runs st" "tm_run_top X now s st = Inr st'"
  shows "tm_runs st'"
  using assms(2)
proof (cases rule: run_top_cases)
  case gone
  show ?thesis
    by (rule runs_mono [OF assms(1)]) (simp_all add: gone(2))
next
  case (ended t)
  let ?f = "m_func t" and ?i = "m_timer_id s"
  have r: "runs_of st' g = (if g = ?f then runs_of st g + 1 else runs_of st g)" for g
    by (simp add: ended(2) runs_of_def)
  have m: "map_of (tm_timers st') = (map_of (tm_timers st))(?i := None)" by (simp add: ended(2) delete_conv')
  have other: "m_func u \<noteq> ?f" if "map_of (tm_timers st) j = Some u" "j \<noteq> ?i" for j u
    using runs_inject [OF assms(1) ended(1) that(1)] that(2) by auto
  obtain n where n: "(?f, n) \<in> set (tm_added st)" "n \<noteq> int_max \<longrightarrow> runs_of st ?f + 1 \<le> n"
    by (rule runsD [OF assms(1) ended(1)]) force
  have a: "tm_added st' = tm_added st" "snd ` set (tm_submitted st') = insert ?f (snd ` set (tm_submitted st))"
    by (simp_all add: ended(2))
  have "m = n" if "(?f, m) \<in> set (tm_added st)" for m
    by (rule eq_key_imp_eq_value [OF runs_parts(1) [OF assms(1)] that n(1)])
  then have le: "runs_of st ?f + 1 \<le> k" if "(?f, k) \<in> set (tm_added st)" "k \<noteq> int_max" for k
    using n(2) that by blast
  show ?thesis
    unfolding tm_runs_def r m a
  proof (intro conjI allI impI)
    show "distinct (map fst (tm_added st))" by (rule runs_parts(1) [OF assms(1)])
    show "insert ?f (snd ` set (tm_submitted st)) \<subseteq> fst ` set (tm_added st)"
      using runs_parts(2) [OF assms(1)] n(1) by force
  next
    fix j w
    assume "((map_of (tm_timers st))(?i := None)) j = Some w"
    then have w: "map_of (tm_timers st) j = Some w" "j \<noteq> ?i" by (simp_all split: if_splits)
    show "\<exists>n. (m_func w, n) \<in> set (tm_added st) \<and> (n \<noteq> int_max \<longrightarrow>
        (if m_func w = ?f then runs_of st (m_func w) + 1 else runs_of st (m_func w)) +
          max 1 (m_repeat_num w) \<le> n)"
      using runs_parts(3) [OF assms(1), rule_format, OF w(1)] other [OF w] by simp
  next
    fix j k w v
    assume "((map_of (tm_timers st))(?i := None)) j = Some w \<and>
      ((map_of (tm_timers st))(?i := None)) k = Some v \<and> m_func w = m_func v"
    then show "j = k" using runs_inject [OF assms(1), of j w k v] by (simp split: if_splits)
  next
    fix f k
    assume fk: "(f, k) \<in> set (tm_added st) \<and> k \<noteq> int_max"
    then show "k \<le> int_max" using runs_parts(5) [OF assms(1)] by blast
    show "(if f = ?f then runs_of st f + 1 else runs_of st f) \<le> k"
      using fk runs_parts(5) [OF assms(1)] le [of k] by (cases "f = ?f") simp_all
  qed
next
  case (again t r p)
  let ?f = "m_func t" and ?i = "m_timer_id s"
  have ru: "runs_of st' g = (if g = ?f then runs_of st g + 1 else runs_of st g)" for g
    by (simp add: again(5) runs_of_def)
  have m: "map_of (tm_timers st') = (map_of (tm_timers st))(?i \<mapsto> t\<lparr>m_repeat_num := r\<rparr>)"
    by (simp add: again(5) update_conv')
  have other: "m_func u \<noteq> ?f" if "map_of (tm_timers st) j = Some u" "j \<noteq> ?i" for j u
    using runs_inject [OF assms(1) again(1) that(1)] that(2) by auto
  obtain n where n: "(?f, n) \<in> set (tm_added st)"
    "n \<noteq> int_max \<longrightarrow> runs_of st ?f + max 1 (m_repeat_num t) \<le> n" "n \<noteq> int_max \<longrightarrow> n \<le> int_max"
    by (rule runsD [OF assms(1) again(1)])
  have pos: "0 \<le> runs_of st ?f" by (simp add: runs_of_def)
  have n': "n \<noteq> int_max \<longrightarrow> runs_of st ?f + 1 + max 1 r \<le> n"
    using n(2,3) again(2,3) pos by (auto simp: max_def split: if_splits)
  have a: "tm_added st' = tm_added st" "snd ` set (tm_submitted st') = insert ?f (snd ` set (tm_submitted st))"
    by (simp_all add: again(5))
  have u: "m = n" if "(?f, m) \<in> set (tm_added st)" for m
    by (rule eq_key_imp_eq_value [OF runs_parts(1) [OF assms(1)] that n(1)])
  show ?thesis
    unfolding tm_runs_def ru m a
  proof (intro conjI allI impI)
    show "distinct (map fst (tm_added st))" by (rule runs_parts(1) [OF assms(1)])
    show "insert ?f (snd ` set (tm_submitted st)) \<subseteq> fst ` set (tm_added st)"
      using runs_parts(2) [OF assms(1)] n(1) by force
  next
    fix j w
    assume w: "((map_of (tm_timers st))(?i \<mapsto> t\<lparr>m_repeat_num := r\<rparr>)) j = Some w"
    show "\<exists>n. (m_func w, n) \<in> set (tm_added st) \<and> (n \<noteq> int_max \<longrightarrow>
        (if m_func w = ?f then runs_of st (m_func w) + 1 else runs_of st (m_func w)) +
          max 1 (m_repeat_num w) \<le> n)"
    proof (cases "j = ?i")
      case True
      with w n(1) n' show ?thesis by (intro exI [of _ n]) auto
    next
      case False
      then have "map_of (tm_timers st) j = Some w" using w by simp
      then show ?thesis
        using runs_parts(3) [OF assms(1), rule_format] other [OF _ False] by simp
    qed
  next
    fix j k w v
    assume "((map_of (tm_timers st))(?i \<mapsto> t\<lparr>m_repeat_num := r\<rparr>)) j = Some w \<and>
      ((map_of (tm_timers st))(?i \<mapsto> t\<lparr>m_repeat_num := r\<rparr>)) k = Some v \<and> m_func w = m_func v"
    then show "j = k"
      using func_update [where m = "map_of (tm_timers st)" and i = ?i and t = "t\<lparr>m_repeat_num := r\<rparr>" and j = j and k = k
          and u = w and v = v] runs_inject [OF assms(1)] other
      by simp
  next
    fix f m
    assume fm: "(f, m) \<in> set (tm_added st) \<and> m \<noteq> int_max"
    then show "m \<le> int_max" using runs_parts(5) [OF assms(1)] by blast
    show "(if f = ?f then runs_of st f + 1 else runs_of st f) \<le> m"
      using fm runs_parts(5) [OF assms(1)] n' u [of m] by (cases "f = ?f") (auto simp: max_def split: if_splits)
  qed
qed

lemma runs_add:
  assumes "tm_runs st" "tm_ok st" "tm_add_timer X now t st = Some (Inr (i, st'))"
    and "0 < m_repeat_num t" "m_repeat_num t \<le> int_max" "m_func t \<notin> fst ` set (tm_added st)"
  shows "tm_runs st'"
  using assms(3,2)
proof (cases rule: add_timer_cases)
  case (1 p)
  have r: "runs_of st' f = runs_of st f" for f by (simp add: 1(5) runs_of_def)
  have zero: "runs_of st (m_func t) = 0"
  proof -
    have "m_func t \<notin> set (map snd (tm_submitted st))" using runs_parts(2) [OF assms(1)] assms(6) by auto
    then show ?thesis by (simp add: runs_of_def count_list_0_iff)
  qed
  have m: "map_of (tm_timers st') = (map_of (tm_timers st))(i \<mapsto> t)" by (simp add: 1(5) update_conv')
  have a: "tm_added st' = tm_added st @ [(m_func t, m_repeat_num t)]" "tm_submitted st' = tm_submitted st"
    by (simp_all add: 1(5))
  have other: "m_func u \<noteq> m_func t" if u: "map_of (tm_timers st) j = Some u" and "j \<noteq> i" for j u
    by (rule runsD [OF assms(1) u]) (use assms(6) in force)
  show ?thesis
    unfolding tm_runs_def r m a
  proof (intro conjI allI impI)
    show "distinct (map fst (tm_added st @ [(m_func t, m_repeat_num t)]))"
      using runs_parts(1) [OF assms(1)] assms(6) by simp
    show "snd ` set (tm_submitted st) \<subseteq> fst ` set (tm_added st @ [(m_func t, m_repeat_num t)])"
      using runs_parts(2) [OF assms(1)] by auto
  next
    fix j u
    assume u: "((map_of (tm_timers st))(i \<mapsto> t)) j = Some u"
    show "\<exists>n. (m_func u, n) \<in> set (tm_added st @ [(m_func t, m_repeat_num t)]) \<and>
        (n \<noteq> int_max \<longrightarrow> runs_of st (m_func u) + max 1 (m_repeat_num u) \<le> n)"
    proof (cases "j = i")
      case True
      with u zero assms(4) show ?thesis by (intro exI [of _ "m_repeat_num t"]) simp
    next
      case False
      then have "map_of (tm_timers st) j = Some u" using u by simp
      then show ?thesis using runs_parts(3) [OF assms(1), rule_format] by auto
    qed
  next
    fix j k u v
    assume "((map_of (tm_timers st))(i \<mapsto> t)) j = Some u \<and> ((map_of (tm_timers st))(i \<mapsto> t)) k = Some v \<and>
      m_func u = m_func v"
    then show "j = k"
      using func_update [where m = "map_of (tm_timers st)" and i = i and t = t and j = j and k = k and u = u
          and v = v] runs_inject [OF assms(1)] other by simp
  next
    fix f n
    assume fn: "(f, n) \<in> set (tm_added st @ [(m_func t, m_repeat_num t)]) \<and> n \<noteq> int_max"
    show "n \<le> int_max" using fn assms(5) runs_parts(5) [OF assms(1)] by auto
    show "runs_of st f \<le> n" using fn zero assms(4) runs_parts(5) [OF assms(1)] by auto
  qed
qed

lemma runs_step: "tm_step X st st' \<Longrightarrow> tm_ok st \<Longrightarrow> tm_runs st \<Longrightarrow> tm_runs st'"
proof (induction rule: tm_step.induct)
  case (add now t st i st')
  show ?case by (rule runs_add [OF add.prems(2,1) add.hyps])
next
  case (remove st i)
  show ?case
    by (rule runs_mono [OF remove.prems(2)])
      (auto simp: removeTimer_def update_conv' split: option.splits if_splits)
next
  case (detect st s now now' st')
  show ?case by (rule runs_run_top [OF detect.prems(2) detect_round_goes [OF detect.hyps(3)]])
next
  case (start clock st st')
  from start.hyps show ?case
  proof (cases rule: start_cases)
    case running
    then show ?thesis using start.prems(2) by simp
  next
    case (rebuilt q invalid)
    show ?thesis
      by (rule runs_mono [OF start.prems(2)]) (auto simp: rebuilt(2) fold_erase split: if_splits)
  qed
next
  case (stop st)
  show ?case by (rule runs_mono [OF stop(2)]) (simp_all add: tm_do_stop_def split: if_splits)
next
  case (pool_done st)
  show ?case by (rule runs_mono [OF pool_done(2)]) auto
qed

lemma runs_reach: "tm_reach X st \<Longrightarrow> tm_runs st"
proof (induction rule: tm_reach.induct)
  case init
  show ?case by (simp add: tm_runs_def tm_new_def)
next
  case (step st st')
  then show ?case using runs_step ok_reach by blast
qed

section \<open>Properties\<close>

text \<open>
  Property C13: in every state the operations and the detecting thread can reach, whatever the clock
  shows, numbers are unique among the timers and in the queue, every entry belongs to a timer and,
  while the manager runs, every timer has its entry; a function added with a finite number of
  repetitions has been submitted at most so often, over removals and restarts.
\<close>

theorem timer_manager_invariant:
  assumes "tm_reach X st"
  shows "distinct (map fst (tm_timers st)) \<and> distinct (map m_timer_id (tm_queue st)) \<and>
    set (map m_timer_id (tm_queue st)) \<subseteq> fst ` set (tm_timers st) \<and>
    (\<not> tm_stop st \<longrightarrow> set (map m_timer_id (tm_queue st)) = fst ` set (tm_timers st)) \<and>
    (\<forall>f n. (f, n) \<in> set (tm_added st) \<and> n \<noteq> int_max \<longrightarrow>
       int (count_list (map snd (tm_submitted st)) f) \<le> n)"
proof -
  note ok = ok_reach [OF assms, unfolded tm_ok_def]
  have "set (queue_ids st) = timer_ids st" if "\<not> tm_stop st" using ok that by blast
  then show ?thesis
    using ok runs_parts(5) [OF runs_reach [OF assms], unfolded runs_of_def] by (intro conjI) simp_all
qed

definition one_shot :: "(bpoint, int, nat) timer" where
  "one_shot = \<lparr>m_start_date = \<lparr>m_data = Finite (first_day * day_us)\<rparr>,
     m_end_date = \<lparr>m_data = Finite (last_day * day_us)\<rparr>, m_start_time = \<lparr>m_duration = 0\<rparr>,
     m_end_time = \<lparr>m_duration = 0\<rparr>, m_timer_duration = \<lparr>m_duration = 1000\<rparr>, m_repeat_num = 2, m_func = 7\<rparr>"

definition early :: "bpoint datetime" where
  "early = \<lparr>m_data = Finite (2460370 * day_us)\<rparr>"

lemma std_gives: "gives (\<lambda>p. p) m u \<Longrightarrow> m = Inr \<lparr>m_data = Finite u\<rparr>"
  by (auto simp: gives_def)

lemmas std_limits = std_gives [OF std.max_value] std_gives [OF std.min_value]

lemmas std_eval = dt_of_ptime_def dt_of_date_def dt_date_def dt_startOfDay_def dt_plus_def dt_diff_def
  dt_eq_def dt_less_def dt_greater_def dt_ge_def td_less_def td_eq_def td_ge_def td_whole_days_def
  td_of_duration_def range_defs std_calendar_def int_duration_def

lemma one_shot_added:
  "\<exists>st. tm_add_timer std_calendar early one_shot tm_new = Some (Inr (0, st)) \<and>
     tm_queue st = [\<lparr>m_time_point = \<lparr>m_data = Finite (2460370 * day_us + 1000)\<rparr>, m_timer_id = 0\<rparr>] \<and>
     tm_timers st = [(0, one_shot)] \<and> tm_added st = [(7, 2)] \<and> tm_submitted st = [] \<and>
     \<not> tm_stop st \<and> \<not> tm_pool_done st"
proof -
  have p: "tm_first_point std_calendar early one_shot = Inr \<lparr>m_data = Finite (2460370 * day_us + 1000)\<rparr>"
    by (simp add: tm_first_point_def tm_interval_point_def one_shot_def early_def std_eval Let_def
        day_us_def first_day_def)
  have i: "getNewTimerId (tm_new :: (bpoint, int, nat) timer_manager) =
      Some (0, tm_new\<lparr>tm_current_timer_id := 0\<rparr>)"
    by (simp add: getNewTimerId_def tm_new_def next_id_def int_max_def free_id.simps)
  show ?thesis
    unfolding tm_add_timer_def p i std_limits
    by (simp add: one_shot_def early_def std_eval Let_def day_us_def last_day_def tm_new_def)
qed

theorem timer_manager_invariant_witness:
  "\<exists>st. tm_reach std_calendar st \<and> tm_added st = [(7 :: nat, 2)] \<and>
     distinct (map m_timer_id (tm_queue st)) \<and> count_list (map snd (tm_submitted st)) 7 \<le> 2"
proof -
  obtain st where st: "tm_add_timer std_calendar early one_shot tm_new = Some (Inr (0, st))"
    "tm_added st = [(7, 2)]" using one_shot_added by blast
  have "tm_step std_calendar tm_new st"
    by (rule tm_step.add [OF st(1)]) (simp_all add: one_shot_def tm_new_def int_max_def)
  then have r: "tm_reach std_calendar st" by (rule tm_reach.step [OF tm_reach.init])
  show ?thesis
    by (rule exI [of _ st]) (use r st(2) timer_manager_invariant [OF r] in \<open>simp add: int_max_def\<close>)
qed

text \<open>
  \<open>removeTimer\<close> only sets the repetitions to 0. While the manager runs, a removed timer
  keeps its entry in the queue, and when the entry is due its function is submitted once more; only
  then the timer is erased.
\<close>

theorem timer_removed_runs_once_more:
  assumes "tm_reach X st" "\<not> tm_stop st" "map_of (tm_timers st) i = Some t" "\<not> tm_pool_done st"
  shows "\<exists>s. s \<in> set (tm_queue (removeTimer i st)) \<and> m_timer_id s = i \<and>
    (\<exists>st'. tm_run_top X now s (removeTimer i st) = Inr st' \<and>
       tm_submitted st' = tm_submitted st @ [(i, m_func t)] \<and>
       i \<notin> fst ` set (tm_timers st') \<and> i \<notin> set (map m_timer_id (tm_queue st')))"
proof -
  note ok = ok_reach [OF assms(1), unfolded tm_ok_def]
  have "i \<in> timer_ids st" using assms(3) by (force dest: map_of_SomeD)
  then have "i \<in> set (queue_ids st)" using ok assms(2) by blast
  then obtain s where s: "s \<in> set (tm_queue st)" "m_timer_id s = i" by auto
  have q: "i \<notin> set (map m_timer_id (remove1 s (tm_queue st)))"
    using ids_remove1(2) [OF _ s(1)] ok s(2) by simp
  define st' where "st' = st\<lparr>tm_queue := remove1 s (tm_queue st),
    tm_timers := AList.delete i (tm_timers st), tm_submitted := tm_submitted st @ [(i, m_func t)]\<rparr>"
  have m: "map_of (AList.update i (t\<lparr>m_repeat_num := 0\<rparr>) (tm_timers st)) i = Some (t\<lparr>m_repeat_num := 0\<rparr>)"
    by (simp add: update_conv')
  have r: "removeTimer i st = st\<lparr>tm_timers := AList.update i (t\<lparr>m_repeat_num := 0\<rparr>) (tm_timers st)\<rparr>"
    by (simp add: removeTimer_def assms(3))
  have "tm_run_top X now s (removeTimer i st) = Inr st'"
    using m s(2) assms(4)
    by (simp add: r tm_run_top_def Let_def st'_def tm_erase_def delete_update_same int_max_def)
  moreover have "i \<notin> fst ` set (tm_timers st')" by (simp add: st'_def keys_delete)
  moreover have "s \<in> set (tm_queue (removeTimer i st))" using s(1) by (simp add: r)
  ultimately show ?thesis using s(2) q by (intro exI [of _ s]) (simp add: st'_def)
qed

end
