(* ===== verification/TimerPoints.thy ===== *)
theory TimerPoints
  imports TimerManager DatetimeNumbers
begin

text \<open>
  When the timers of \<open>TimerManager\<close> run: the points in time its functions compute, as numbers of
  microseconds, over every calendar with the laws of \<open>boost_datetime\<close>.
\<close>

section \<open>Days and times of day\<close>

text \<open>A \<open>Datetime\<close> \<open>t\<close> microseconds into the day \<open>k\<close>, which has a day after it.\<close>

definition day_point :: "('p \<Rightarrow> bpoint) \<Rightarrow> 'p datetime \<Rightarrow> int \<Rightarrow> int \<Rightarrow> bool" where
  "day_point pv d k t \<longleftrightarrow> first_day \<le> k \<and> k < last_day \<and> 0 \<le> t \<and> t < day_us \<and>
     pv (m_data d) = Finite (k * day_us + t)"

lemma day_point_moments:
  assumes "day_point pv d k t"
  shows "moment (k * day_us + t)" "moment (k * day_us)"
    and "0 \<le> s \<Longrightarrow> s < day_us \<Longrightarrow> moment (k * day_us + s) \<and> moment ((k + 1) * day_us + s)"
proof -
  have k: "first_day \<le> k" "k \<le> last_day" "0 \<le> t" "t < day_us" "first_day \<le> k + 1" "k + 1 \<le> last_day"
    using assms by (simp_all add: day_point_def)
  show "moment (k * day_us + t)" by (rule moment_day(1) [OF k(1-4)])
  show "moment (k * day_us)" using moment_day(1) [OF k(1,2), of 0] by (simp add: day_us_def)
  show "0 \<le> s \<Longrightarrow> s < day_us \<Longrightarrow> moment (k * day_us + s) \<and> moment ((k + 1) * day_us + s)"
    using moment_day(1) [OF k(1,2)] moment_day(1) [OF k(5,6)] by blast
qed

context boost_datetime begin

lemma less_ticks: "td_less (dur X) a b \<longleftrightarrow> td_ticks (dur X) a < td_ticks (dur X) b"
  using durations by (simp add: td_less_def td_ticks_def boost_duration_def)

lemma eq_ticks: "td_eq (dur X) a b \<longleftrightarrow> td_ticks (dur X) a = td_ticks (dur X) b"
  using durations by (simp add: td_eq_def td_ticks_def boost_duration_def)

lemma whole_days_ticks: "\<bar>n\<bar> \<le> 1 \<Longrightarrow> td_ticks (dur X) (td_whole_days X n) = n * day_us"
proof -
  assume "\<bar>n\<bar> \<le> 1"
  then have "in_total_range (n * 86400000000)" unfolding range_defs by linarith
  from td_ticks_of_ticks [OF durations this] show ?thesis by (simp add: td_whole_days_def day_us_def)
qed

lemma plus_ticks:
  assumes "in_total_range (td_ticks (dur X) a + td_ticks (dur X) b)"
  shows "\<exists>c. td_plus (dur X) a b = Inr c \<and> td_ticks (dur X) c = td_ticks (dur X) a + td_ticks (dur X) b"
proof -
  have "ticks_of (dur X) (plus_of (dur X) (m_duration b) (m_duration a)) =
      td_ticks (dur X) a + td_ticks (dur X) b"
    using durations td_range_int64 [OF assms] by (simp add: boost_duration_def td_ticks_def add.commute)
  then show ?thesis using assms by (simp add: td_plus_def td_of_duration_def) (simp add: td_ticks_def)
qed

lemma minus_ticks:
  assumes "in_total_range (td_ticks (dur X) a - td_ticks (dur X) b)"
  shows "\<exists>c. td_minus (dur X) a b = Inr c \<and> td_ticks (dur X) c = td_ticks (dur X) a - td_ticks (dur X) b"
proof -
  have "ticks_of (dur X) (minus_of (dur X) (m_duration a) (m_duration b)) =
      td_ticks (dur X) a - td_ticks (dur X) b"
    using durations td_range_int64 [OF assms] by (simp add: boost_duration_def td_ticks_def)
  then show ?thesis using assms by (simp add: td_minus_def td_of_duration_def) (simp add: td_ticks_def)
qed

lemma less_points:
  "pv (m_data d) = Finite u \<Longrightarrow> pv (m_data e) = Finite v \<Longrightarrow> dt_less X d e \<longleftrightarrow> u < v"
  "pv (m_data d) = Finite u \<Longrightarrow> pv (m_data e) = Finite v \<Longrightarrow> dt_greater X d e \<longleftrightarrow> v < u"
  "pv (m_data d) = Finite u \<Longrightarrow> pv (m_data e) = Finite v \<Longrightarrow> dt_ge X d e \<longleftrightarrow> v \<le> u"
  by (auto simp: dt_less_def dt_greater_def dt_ge_def time_less)

lemma midnight_value:
  assumes "day_point pv d k t"
  shows "pv (m_data (dt_startOfDay X d)) = Finite (k * day_us)" "day_point pv (dt_startOfDay X d) k 0"
proof -
  have k: "first_day \<le> k" "k \<le> last_day" "0 \<le> t" "t < day_us" using assms by (simp_all add: day_point_def)
  have p: "pv (m_data d) = Finite (k * day_us + t)" using assms by (simp add: day_point_def)
  have "dv (dt_date X d) = Finite k"
    using ptime_date [OF p moment_time_count [OF moment_day(1) [OF k]]] moment_day(2) [OF k]
    by (simp add: dt_date_def)
  then show "pv (m_data (dt_startOfDay X d)) = Finite (k * day_us)"
    using of_date_value day_near [OF k(1,2)] by (simp add: dt_startOfDay_def)
  then show "day_point pv (dt_startOfDay X d) k 0" using assms by (simp add: day_point_def day_us_def)
qed

text \<open>A time of day after a midnight, and the same on the next day.\<close>

lemma time_on_day:
  assumes "day_point pv d k t" "td_ticks (dur X) s = v" "0 \<le> v" "v < day_us"
  shows "pv (m_data (dt_plus X (dt_startOfDay X d) s)) = Finite (k * day_us + v)"
    and "pv (m_data (dt_plus X (dt_plus X (dt_startOfDay X d) s) (td_whole_days X 1))) =
      Finite ((k + 1) * day_us + v)"
proof -
  note m = day_point_moments(3) [OF assms(1,3,4)]
  show p: "pv (m_data (dt_plus X (dt_startOfDay X d) s)) = Finite (k * day_us + v)"
    using plus_value [OF midnight_value(1) [OF assms(1)] day_point_moments(2) [OF assms(1)]] m assms(2) by simp
  have e: "(k + 1) * day_us + v = k * day_us + v + day_us" by (simp add: algebra_simps)
  show "pv (m_data (dt_plus X (dt_plus X (dt_startOfDay X d) s) (td_whole_days X 1))) =
      Finite ((k + 1) * day_us + v)"
    using plus_value [OF p conjunct1 [OF m], of "td_whole_days X 1"] conjunct2 [OF m]
    by (simp only: e whole_days_ticks [of 1, simplified])
qed

end

section \<open>The next run\<close>

text \<open>Where a timer goes that has just been run: at \<open>u\<close> on day \<open>j\<close>, while the clock shows \<open>t\<close> on day \<open>k\<close>.\<close>

definition next_run :: "int \<Rightarrow> int \<Rightarrow> int \<Rightarrow> int \<Rightarrow> int \<Rightarrow> int \<Rightarrow> int \<Rightarrow> int \<Rightarrow> int" where
  "next_run start stop every k t j u day =
     (let p = max (k * day + t) (j * day + u + every) in
      if start \<noteq> stop \<and> k * day + stop < p then (k + 1) * day + start else p)"

context boost_datetime begin

lemma next_daily:
  assumes "day_point pv now k t" "day_point pv p j u" "td_ticks (dur X) (m_start_time x) < 0"
  shows "gives pv (tm_next_point X now x p) ((k + 1) * day_us + u)"
proof -
  have g: "\<not> td_ge (dur X) (m_start_time x) (td_whole_days X 0)"
    using assms(3) by (simp add: td_ge_def less_ticks whole_days_ticks)
  note n = midnight_value [OF assms(1)] and q = midnight_value [OF assms(2)]
  obtain d where d: "dt_diff X (dt_startOfDay X now) (dt_startOfDay X p) = Inr d"
    "td_ticks (dur X) d = k * day_us - j * day_us"
    using diff_value [OF n(1) q(1) day_point_moments(2) [OF assms(1)] day_point_moments(2) [OF assms(2)]] by blast
  have r: "in_total_range (td_ticks (dur X) d + td_ticks (dur X) (td_whole_days X 1))"
    using assms(1,2) unfolding d(2) whole_days_ticks [of 1, simplified] day_point_def
    by (simp add: range_defs first_day_def last_day_def day_us_def)
  obtain e where e: "td_plus (dur X) d (td_whole_days X 1) = Inr e"
    "td_ticks (dur X) e = k * day_us - j * day_us + day_us"
    using plus_ticks [OF r] by (auto simp: d(2) whole_days_ticks)
  have u: "0 \<le> u" "u < day_us" "pv (m_data p) = Finite (j * day_us + u)"
    using assms(2) by (simp_all add: day_point_def)
  have s: "j * day_us + u + td_ticks (dur X) e = (k + 1) * day_us + u" by (simp add: e(2) algebra_simps)
  have "pv (m_data (dt_plus X p e)) = Finite ((k + 1) * day_us + u)"
    using plus_value [OF u(3) day_point_moments(1) [OF assms(2)], of e] day_point_moments(3) [OF assms(1) u(1,2)]
    by (simp add: s)
  then show ?thesis by (simp add: tm_next_point_def g d(1) e(1) gives_def Let_def)
qed

lemma next_interval:
  assumes "day_point pv now k t" "day_point pv p j u"
    and "td_ticks (dur X) (m_start_time x) = a" "td_ticks (dur X) (m_end_time x) = b"
    and "td_ticks (dur X) (m_timer_duration x) = i" "0 \<le> a" "a < day_us" "0 \<le> b" "b < day_us"
    and "moment (j * day_us + u + i)"
  shows "gives pv (tm_next_point X now x p) (next_run a b i k t j u day_us)"
proof -
  have g: "td_ge (dur X) (m_start_time x) (td_whole_days X 0)"
    using assms(3,6) by (simp add: td_ge_def less_ticks whole_days_ticks)
  have n: "pv (m_data now) = Finite (k * day_us + t)" "pv (m_data p) = Finite (j * day_us + u)"
    using assms(1,2) by (simp_all add: day_point_def)
  have p: "pv (m_data (dt_plus X p (m_timer_duration x))) = Finite (j * day_us + u + i)"
    using plus_value [OF n(2) day_point_moments(1) [OF assms(2)], of "m_timer_duration x"] assms(5,10) by simp
  let ?p = "if dt_less X (dt_plus X p (m_timer_duration x)) now then now else dt_plus X p (m_timer_duration x)"
  have q: "pv (m_data ?p) = Finite (max (k * day_us + t) (j * day_us + u + i))"
    using less_points(1) [OF p n(1)] p n(1) by (simp add: max_def)
  note e = time_on_day [OF assms(1) assms(4,8,9)] and f = time_on_day [OF assms(1) assms(3,6,7)]
  have c: "dt_greater X ?p (dt_plus X (dt_startOfDay X now) (m_end_time x)) \<longleftrightarrow>
      k * day_us + b < max (k * day_us + t) (j * day_us + u + i)"
    by (rule less_points(2) [OF q e(1)])
  have w: "td_eq (dur X) (m_start_time x) (m_end_time x) \<longleftrightarrow> a = b" by (simp only: eq_ticks assms(3,4))
  show ?thesis
  proof (cases "a \<noteq> b \<and> k * day_us + b < max (k * day_us + t) (j * day_us + u + i)")
    case True
    then have "tm_next_point X now x p =
        Inr (dt_plus X (dt_plus X (dt_startOfDay X now) (m_start_time x)) (td_whole_days X 1))"
      using g w c by (simp only: tm_next_point_def Let_def if_True simp_thms)
    then show ?thesis using True f(2) by (simp add: gives_def next_run_def Let_def)
  next
    case False
    then have "tm_next_point X now x p = Inr ?p"
      using g w c by (simp only: tm_next_point_def Let_def if_True if_False simp_thms)
    then show ?thesis using q by (simp only: gives_def next_run_def Let_def if_not_P [OF False]) blast
  qed
qed

end

text \<open>
  Property C17: after a run, a timer with a time of day waits for that time on the day after the clock's
  day, so one that is run late, after midnight, skips that day. Every other timer waits for its
  duration from the point at which it was due, but not for a point in the past; with a window, a point
  behind the end of today's window is replaced by the start of tomorrow's. The start of today's
  window is not looked at: a timer woken up late, before that start, is run again at once.
\<close>

theorem timer_next_run:
  assumes "boost_datetime X dv pv" "day_point pv now k t" "day_point pv p j u"
  shows "(td_ticks (dur X) (m_start_time x) < 0 \<longrightarrow>
      gives pv (tm_next_point X now x p) ((k + 1) * day_us + u)) \<and>
    (td_ticks (dur X) (m_start_time x) = a \<and> td_ticks (dur X) (m_end_time x) = b \<and>
     td_ticks (dur X) (m_timer_duration x) = i \<and> 0 \<le> a \<and> a < day_us \<and> 0 \<le> b \<and> b < day_us \<and>
     moment (j * day_us + u + i) \<longrightarrow>
      gives pv (tm_next_point X now x p) (next_run a b i k t j u day_us))"
  using boost_datetime.next_daily [OF assms] boost_datetime.next_interval [OF assms] by blast

definition at_nine :: "bpoint datetime" where
  "at_nine = \<lparr>m_data = Finite (2460370 * day_us + 32400000000)\<rparr>"

definition two_at_night :: "bpoint datetime" where
  "two_at_night = \<lparr>m_data = Finite (2460371 * day_us + 7200000000)\<rparr>"

definition daily :: "(bpoint, int, nat) timer" where
  "daily = one_shot\<lparr>m_start_time := \<lparr>m_duration = - 86400000000\<rparr>, m_end_time := \<lparr>m_duration = 32400000000\<rparr>\<rparr>"

definition windowed :: "(bpoint, int, nat) timer" where
  "windowed = one_shot\<lparr>m_start_time := \<lparr>m_duration = 32400000000\<rparr>, m_end_time := \<lparr>m_duration = 36000000000\<rparr>,
     m_timer_duration := \<lparr>m_duration = 1500000000\<rparr>\<rparr>"

lemma std_points: "day_point (\<lambda>p. p) at_nine 2460370 32400000000" "day_point (\<lambda>p. p) two_at_night 2460371 7200000000"
  by (simp_all add: day_point_def at_nine_def two_at_night_def first_day_def last_day_def day_us_def)

lemma std_ticks: "td_ticks (dur std_calendar) d = m_duration d"
  by (simp add: td_ticks_def std_calendar_def int_duration_def)

theorem timer_next_run_witness:
  "gives (\<lambda>p. p) (tm_next_point std_calendar two_at_night daily at_nine) (2460372 * day_us + 32400000000) \<and>
   gives (\<lambda>p. p) (tm_next_point std_calendar two_at_night windowed at_nine) (2460371 * day_us + 7200000000)"
proof -
  note r = timer_next_run [OF std.boost_datetime_axioms std_points(2) std_points(1)]
  have m: "moment (2460370 * day_us + 32400000000 + 1500000000)"
    by (simp add: moment_def first_day_def last_day_def day_us_def)
  have n: "next_run 32400000000 36000000000 1500000000 2460371 7200000000 2460370 32400000000 day_us =
      2460371 * day_us + 7200000000"
    by (simp add: next_run_def day_us_def)
  show ?thesis
    using r [of daily 0 0 0] r [of windowed 32400000000 36000000000 1500000000] m
    by (simp add: daily_def windowed_def std_ticks n) (simp add: day_us_def)
qed

section \<open>The first run\<close>

lemma ceiling_steps:
  fixes g i :: int
  assumes "0 \<le> g" "0 < i"
  shows "(g + i - 1) div i = (if g mod i = 0 then g div i else g div i + 1)"
proof -
  have g: "g = g div i * i + g mod i" "0 \<le> g mod i" "g mod i < i" using assms by simp_all
  have "(g + i - 1) div i = (g mod i + i - 1 + g div i * i) div i" by (rule arg_cong [where f = "\<lambda>x. x div i"]) (use g in linarith)
  also have "\<dots> = (g mod i + i - 1) div i + g div i" using assms(2) by simp
  also have "(g mod i + i - 1) div i = (if g mod i = 0 then 0 else 1)"
    using g(2,3) by (auto intro: int_div_pos_eq [where r = "g mod i - 1"])
  finally show ?thesis by simp
qed

text \<open>The point at or after \<open>t\<close> that is a whole number of steps from the start of the window.\<close>

definition aligned :: "int \<Rightarrow> int \<Rightarrow> int \<Rightarrow> int" where
  "aligned start every t = start + (t - start + every - 1) div every * every"

definition first_in_window :: "int \<Rightarrow> int \<Rightarrow> int \<Rightarrow> int \<Rightarrow> int \<Rightarrow> int \<Rightarrow> int" where
  "first_in_window start stop every k t day =
     (if t < start then k * day + start
      else if stop < t then (k + 1) * day + start
      else k * day + aligned start every t)"

lemma aligned_bounds:
  assumes "a \<le> t" "0 < i"
  shows "t \<le> aligned a i t" "aligned a i t < t + i" "i dvd aligned a i t - a"
    and "i dvd t - a \<Longrightarrow> aligned a i t = t"
    and "\<not> i dvd t - a \<Longrightarrow> aligned a i t = a + i * ((t - a) div i + 1)"
proof -
  have g: "t - a = (t - a) div i * i + (t - a) mod i" "0 \<le> (t - a) mod i" "(t - a) mod i < i"
    using assms(2) by simp_all
  have c: "aligned a i t = a + (if (t - a) mod i = 0 then (t - a) div i else (t - a) div i + 1) * i"
    using ceiling_steps [of "t - a" i] assms by (simp add: aligned_def)
  define q r where "q = (t - a) div i * i" and "r = (t - a) mod i"
  have "aligned a i t = a + q + (if r = 0 then 0 else i)" by (simp add: c q_def r_def distrib_right)
  moreover have "t = a + q + r" "0 \<le> r" "r < i" using g unfolding q_def r_def by linarith+
  ultimately show "t \<le> aligned a i t" "aligned a i t < t + i" using assms(2) by simp_all
  show "i dvd aligned a i t - a" by (simp add: c)
  show "i dvd t - a \<Longrightarrow> aligned a i t = t" using g(1) c by (simp add: mod_0_imp_dvd dvd_eq_mod_eq_0)
  show "\<not> i dvd t - a \<Longrightarrow> aligned a i t = a + i * ((t - a) div i + 1)"
    using c by (simp add: dvd_eq_mod_eq_0 mult.commute)
qed

context boost_datetime begin

lemma align_value:
  assumes "day_point pv p k t" "td_ticks (dur X) s = a" "td_ticks (dur X) e = b" "td_ticks (dur X) d = i"
    and "0 \<le> a" "a < day_us" "0 \<le> b" "b < day_us" "0 < i" "moment (k * day_us + t + i)"
  shows "gives pv (tm_align X s e d p) (first_in_window a b i k t day_us)"
proof -
  let ?m = "dt_startOfDay X p"
  have u: "0 \<le> t" "t < day_us" "pv (m_data p) = Finite (k * day_us + t)"
    using assms(1) by (simp_all add: day_point_def)
  obtain point where point: "dt_diff X p ?m = Inr point" "td_ticks (dur X) point = t"
    using diff_value [OF u(3) midnight_value(1) [OF assms(1)] day_point_moments(1,2) [OF assms(1)]] by auto
  note at = time_on_day [OF assms(1,2,5,6)]
  have bt: "td_less (dur X) point s \<longleftrightarrow> t < a" "td_less (dur X) e point \<longleftrightarrow> b < t"
    by (simp_all add: less_ticks point(2) assms(2,3))
  consider "t < a" | "a \<le> t" "b < t" | "a \<le> t" "t \<le> b" by linarith
  then show ?thesis
  proof cases
    case 1
    then show ?thesis using at(1) by (simp add: tm_align_def Let_def point(1) bt gives_def first_in_window_def)
  next
    case 2
    then show ?thesis using at(2) by (simp add: tm_align_def Let_def point(1) bt gives_def first_in_window_def)
  next
    case 3
    have g: "in_total_range (td_ticks (dur X) point - td_ticks (dur X) s)"
      using u(1,2) assms(5,6) by (simp add: point(2) assms(2) range_defs day_us_def)
    obtain gap where gap: "td_minus (dur X) point s = Inr gap" "td_ticks (dur X) gap = t - a"
      using minus_ticks [OF g] by (auto simp: point(2) assms(2))
    have r: "in_total_range ((t - a) smod i)"
      by (rule smod_range) (use g in \<open>simp add: point(2) assms(2)\<close>)
    have md: "td_mod (dur X) gap d = Inr \<lparr>m_duration = of_ticks (dur X) ((t - a) smod i)\<rparr>"
      using assms(9) r by (simp add: td_mod_def assms(4) gap(2) fromTicks_spec [OF durations])
    have z: "td_eq (dur X) \<lparr>m_duration = of_ticks (dur X) ((t - a) smod i)\<rparr> (td_whole_days X 0) \<longleftrightarrow> i dvd t - a"
      by (simp add: eq_ticks td_ticks_of_ticks [OF durations r] whole_days_ticks smod_eq_0)
    have w: "first_in_window a b i k t day_us = k * day_us + aligned a i t"
      using 3 by (simp add: first_in_window_def)
    show ?thesis
    proof (cases "i dvd t - a")
      case True
      then show ?thesis
        using 3 u(3) aligned_bounds(4) [OF 3(1) assms(9) True]
        by (simp add: tm_align_def Let_def point(1) bt gap(1) md z gives_def w)
    next
      case False
      let ?x = "(t - a) sdiv i + 1"
      have x: "a + i * ?x = aligned a i t"
        using aligned_bounds(5) [OF 3(1) assms(9) False] 3(1) assms(9) by (simp add: sdiv_nonneg)
      note ab = aligned_bounds(1,2) [OF 3(1) assms(9)]
      have m: "moment (k * day_us + aligned a i t)"
        using ab assms(10) day_point_moments(1) [OF assms(1)] unfolding moment_def by linarith
      have r': "in_total_range (i * ?x)"
        using ab x u(1,2) assms(5,6,10) assms(1)
        by (simp add: range_defs moment_def day_point_def first_day_def last_day_def day_us_def)
      have c: "td_times (dur X) d ?x = Inr \<lparr>m_duration = of_ticks (dur X) (i * ?x)\<rparr>"
        by (simp add: td_times_def assms(4) fromTicks_spec [OF durations] r')
      have y: "k * day_us + a + i * ?x = k * day_us + aligned a i t" using x by linarith
      have "pv (m_data (dt_plus X (dt_plus X ?m s) \<lparr>m_duration = of_ticks (dur X) (i * ?x)\<rparr>)) =
          Finite (k * day_us + aligned a i t)"
        using plus_value [OF at(1) conjunct1 [OF day_point_moments(3) [OF assms(1,5,6)]],
            of "\<lparr>m_duration = of_ticks (dur X) (i * ?x)\<rparr>"] m
        by (simp only: td_ticks_of_ticks [OF durations r'] y)
      then show ?thesis
        using 3 False
        by (simp add: tm_align_def Let_def point(1) bt gap md z gives_def w assms(4) c)
    qed
  qed
qed

end

text \<open>
  The first run of a timer with a window is moved to the start of the window of its day
  when it lies before it, to the start of the next day's window when it lies behind it, and else to
  the next point that is a whole number of durations after the start of the window. That point is not
  compared with the end of the window: it may lie up to a duration behind it.
\<close>

theorem timer_window_start:
  assumes "boost_datetime X dv pv" "day_point pv p k t"
    and "td_ticks (dur X) s = a" "td_ticks (dur X) e = b" "td_ticks (dur X) d = i"
    and "0 \<le> a" "a < day_us" "0 \<le> b" "b < day_us" "0 < i" "moment (k * day_us + t + i)"
  shows "gives pv (tm_align X s e d p) (first_in_window a b i k t day_us) \<and>
    (a \<le> t \<longrightarrow> t \<le> aligned a i t \<and> aligned a i t < t + i \<and> i dvd aligned a i t - a)"
  using boost_datetime.align_value [OF assms] aligned_bounds(1-3) [OF _ assms(10)] by blast

definition before_ten :: "bpoint datetime" where
  "before_ten = \<lparr>m_data = Finite (2460370 * day_us + 35700000000)\<rparr>"

section \<open>Every day\<close>

context boost_datetime begin

lemma limit_values:
  obtains mn mx where "dt_min X = Inr mn" "pv (m_data mn) = Finite (first_day * day_us)"
    "dt_max X = Inr mx" "pv (m_data mx) = Finite (last_day * day_us)"
  using min_value max_value by (auto simp: gives_def)

text \<open>The first run of a timer with a time of day that repeats and was allowed from the first day on.\<close>

lemma first_daily:
  assumes "day_point pv now k t" "pv (m_data (m_start_date x)) = Finite (first_day * day_us)"
    and "td_ticks (dur X) (m_start_time x) < 0" "td_ticks (dur X) (m_end_time x) = v" "0 \<le> v" "v < day_us"
    and "1 < m_repeat_num x"
  shows "gives pv (tm_first_point X now x) ((if t \<le> v then k else k + 1) * day_us + v)"
proof -
  have n: "pv (m_data now) = Finite (k * day_us + t)" and k: "first_day \<le> k"
    using assms(1) by (simp_all add: day_point_def)
  have z: "td_less (dur X) (m_start_time x) (td_whole_days X 0)"
    using assms(3) by (simp add: less_ticks whole_days_ticks)
  have f: "moment (first_day * day_us + v)"
    using moment_day(1) [of first_day v] assms(5,6) by (simp add: first_day_def last_day_def)
  have p: "pv (m_data (dt_plus X (m_start_date x) (m_end_time x))) = Finite (first_day * day_us + v)"
    using plus_value [OF assms(2) moment_ends(1), of "m_end_time x"] f assms(4) by simp
  note q = time_on_day [OF assms(1,4,5,6)]
  have ge: "dt_ge X (dt_plus X (m_start_date x) (m_end_time x)) now \<longleftrightarrow> k * day_us + t \<le> first_day * day_us + v"
    by (rule less_points(3) [OF p n])
  have less: "dt_less X (dt_plus X (dt_startOfDay X now) (m_end_time x)) now \<longleftrightarrow> v < t"
    using less_points(1) [OF q(1) n] by simp
  show ?thesis
  proof (cases "k * day_us + t \<le> first_day * day_us + v")
    case True
    then have "k = first_day" "t \<le> v" using k assms(1,6) by (auto simp: day_point_def day_us_def)
    with True p z ge show ?thesis by (simp add: tm_first_point_def Let_def gives_def)
  next
    case False
    then show ?thesis using z ge less assms(7) q by (simp add: tm_first_point_def Let_def gives_def)
  qed
qed

end

context boost_datetime begin

lemma every_day_added:
  assumes "tm_reach X st" "int (length (tm_timers st)) < int_max"
    and "day_point pv now k t" "day_point pv start_date j u" "day_point pv end_date l w" "j \<le> l"
    and "td_ticks (dur X) time = v" "0 \<le> v" "v < day_us"
  shows "\<exists>i st' p x. addFuncAtTimeEveryDay X now start_date end_date time f st = Some (Inr (i, st')) \<and>
    tm_queue st' = tm_queue st @ [\<lparr>m_time_point = p, m_timer_id = i\<rparr>] \<and>
    pv (m_data p) = Finite ((if t \<le> v then k else k + 1) * day_us + v) \<and>
    i \<notin> fst ` set (tm_timers st) \<and> map_of (tm_timers st') i = Some x \<and> m_func x = f \<and>
    m_repeat_num x = int_max \<and> dt_min X = Inr (m_start_date x) \<and> dt_max X = Inr (m_end_date x)"
proof -
  obtain mn mx where limits: "dt_min X = Inr mn" "pv (m_data mn) = Finite (first_day * day_us)"
    "dt_max X = Inr mx" "pv (m_data mx) = Finite (last_day * day_us)" by (rule limit_values)
  define x where "x = \<lparr>m_start_date = mn, m_end_date = mx, m_start_time = td_whole_days X (-1),
    m_end_time = time, m_timer_duration = td_whole_days X 0, m_repeat_num = int_max, m_func = f\<rparr>"
  have "td_ticks (dur X) (m_start_time x) < 0" by (simp add: x_def whole_days_ticks day_us_def)
  moreover have "pv (m_data (m_start_date x)) = Finite (first_day * day_us)" "td_ticks (dur X) (m_end_time x) = v"
    "1 < m_repeat_num x" by (simp_all add: x_def limits(2) assms(7) int_max_def)
  ultimately obtain p where p: "tm_first_point X now x = Inr p"
    "pv (m_data p) = Finite ((if t \<le> v then k else k + 1) * day_us + v)"
    using first_daily [OF assms(3), of x v] assms(8,9) by (auto simp: gives_def)
  have ok: "- 1 \<le> tm_current_timer_id st" "tm_current_timer_id st \<le> int_max"
    using ok_reach [OF assms(1)] by (simp_all add: tm_ok_def)
  obtain i where i: "getNewTimerId st = Some (i, st\<lparr>tm_current_timer_id := i\<rparr>)" "0 \<le> i"
    "map_of (tm_timers st) i = None"
    using assms(2) by (cases rule: new_id [OF ok]) auto
  define st' where "st' = st\<lparr>tm_current_timer_id := i, tm_timers := AList.update i x (tm_timers st),
    tm_queue := tm_queue st @ [\<lparr>m_time_point = p, m_timer_id = i\<rparr>],
    tm_added := tm_added st @ [(f, int_max)]\<rparr>"
  have today: "dt_ge X mx (dt_startOfDay X now)"
    using less_points(3) [OF limits(4) midnight_value(1) [OF assms(3)]] assms(3)
    by (simp add: day_point_def day_us_def)
  have "dt_eq X mx mx" using eq_finite [OF limits(4) limits(4)] by simp
  then have add: "tm_add_timer X now x st = Some (Inr (i, st'))"
    using today i(2) by (simp add: tm_add_timer_def Let_def limits(3) p(1) i(1) st'_def) (simp add: x_def)
  have dates: "\<not> dt_isNull X start_date" "\<not> dt_isNull X end_date"
    using finite_not_null(2) assms(4,5) by (auto simp: day_point_def)
  have tod: "time_of_day_ok X time"
    using assms(7-9) td_ticks_of_ticks [OF durations, of 86399999999]
    by (simp add: time_of_day_ok_def td_ge_def less_ticks whole_days_ticks td_last_tick_def range_defs day_us_def)
  have "dt_ge X (dt_startOfDay X end_date) (dt_startOfDay X start_date)"
    using less_points(3) [OF midnight_value(1) [OF assms(5)] midnight_value(1) [OF assms(4)]] assms(6)
    by (simp add: day_us_def)
  then have "addFuncAtTimeEveryDay X now start_date end_date time f st = Some (Inr (i, st'))"
    using dates tod by (simp add: addFuncAtTimeEveryDay_def tm_unbounded_def limits add flip: x_def)
  moreover have "map_of (tm_timers st') i = Some x" by (simp add: st'_def update_conv')
  moreover have "i \<notin> fst ` set (tm_timers st)" using i(3) by (simp add: map_of_eq_None_iff)
  ultimately show ?thesis
    using p(2) limits by (intro exI [of _ i] exI [of _ st'] exI [of _ p] exI [of _ x]) (simp add: st'_def x_def)
qed

end

text \<open>
  Property C31: \<open>addFuncAtTimeEveryDay\<close> checks the dates it is given and then forgets them: whatever
  they are, in the future or in the past, the timer is added for all dates and without an end, and
  runs first at its time today or, when that time is over, tomorrow.
\<close>

theorem timer_every_day:
  assumes "boost_datetime X dv pv" "tm_reach X st" "int (length (tm_timers st)) < int_max"
    and "day_point pv now k t" "day_point pv start_date j u" "day_point pv end_date l w" "j \<le> l"
    and "td_ticks (dur X) time = v" "0 \<le> v" "v < day_us"
  shows "\<exists>i st' p x. addFuncAtTimeEveryDay X now start_date end_date time f st = Some (Inr (i, st')) \<and>
    tm_queue st' = tm_queue st @ [\<lparr>m_time_point = p, m_timer_id = i\<rparr>] \<and>
    pv (m_data p) = Finite ((if t \<le> v then k else k + 1) * day_us + v) \<and>
    i \<notin> fst ` set (tm_timers st) \<and> map_of (tm_timers st') i = Some x \<and> m_func x = f \<and>
    m_repeat_num x = int_max \<and> dt_min X = Inr (m_start_date x) \<and> dt_max X = Inr (m_end_date x)"
  by (rule boost_datetime.every_day_added [OF assms])

definition last_week :: "bpoint datetime" where
  "last_week = \<lparr>m_data = Finite (2460363 * day_us)\<rparr>"

theorem timer_every_day_witness:
  "\<exists>i st p. addFuncAtTimeEveryDay std_calendar two_at_night last_week last_week \<lparr>m_duration = 32400000000\<rparr>
     (7 :: nat) tm_new = Some (Inr (i, st)) \<and> tm_queue st = [\<lparr>m_time_point = p, m_timer_id = i\<rparr>] \<and>
     m_data p = Finite (2460371 * day_us + 32400000000)"
proof -
  have p: "day_point (\<lambda>p. p) last_week 2460363 0"
    by (simp add: day_point_def last_week_def first_day_def last_day_def day_us_def)
  have "32400000000 < day_us" by (simp add: day_us_def)
  then show ?thesis
    using timer_every_day [OF std.boost_datetime_axioms tm_reach.init _ std_points(2) p p,
        of "\<lparr>m_duration = 32400000000\<rparr>" 32400000000 "7 :: nat"]
    by (auto simp: std_ticks tm_new_def int_max_def)
qed

section \<open>Waiting and running\<close>

text \<open>
  Property C18: no timer runs before its time. With the clock at \<open>n\<close> and the earliest entry at \<open>u\<close>, a
  round waits for \<open>u - n\<close> when that is positive, and else runs the timer of that entry, which is not
  later than any other; an entry at the first microsecond of the calendar ends the thread.
\<close>

theorem timer_round:
  assumes "boost_datetime X dv pv" "is_top X s (tm_queue st)"
    and "pv (m_data (m_time_point s)) = Finite u" "moment u" "pv (m_data now) = Finite n" "moment n"
  shows "(\<forall>x v. x \<in> set (tm_queue st) \<and> pv (m_data (m_time_point x)) = Finite v \<longrightarrow> u \<le> v) \<and>
    (if u = first_day * day_us then detect_round X now now' s st = Inr EndThread
     else if n < u then \<exists>d. detect_round X now now' s st = Inr (WaitFor d) \<and> td_ticks (dur X) d = u - n
     else detect_round X now now' s st = map_sum id Goes (tm_run_top X now' s st))"
proof (intro conjI allI impI)
  fix x v
  assume "x \<in> set (tm_queue st) \<and> pv (m_data (m_time_point x)) = Finite v"
  then show "u \<le> v"
    using boost_datetime.less_points(2) [OF assms(1,3)] assms(2)
    by (auto simp: is_top_def interval_less_def)
next
  obtain mn where mn: "dt_min X = Inr mn" "pv (m_data mn) = Finite (first_day * day_us)"
    by (rule boost_datetime.limit_values [OF assms(1)])
  obtain d where d: "dt_diff X (m_time_point s) now = Inr d" "td_ticks (dur X) d = u - n"
    using boost_datetime.diff_value [OF assms(1,3,5,4,6)] by blast
  have q: "tm_queue st \<noteq> []" using assms(2) by (auto simp: is_top_def)
  have e: "dt_eq X (m_time_point s) mn \<longleftrightarrow> u = first_day * day_us"
    by (rule boost_datetime.eq_finite [OF assms(1,3) mn(2)])
  have l: "td_less (dur X) (td_whole_days X 0) d \<longleftrightarrow> n < u"
    by (simp add: boost_datetime.less_ticks [OF assms(1)] boost_datetime.whole_days_ticks [OF assms(1)] d(2))
  show "if u = first_day * day_us then detect_round X now now' s st = Inr EndThread
     else if n < u then \<exists>d. detect_round X now now' s st = Inr (WaitFor d) \<and> td_ticks (dur X) d = u - n
     else detect_round X now now' s st = map_sum id Goes (tm_run_top X now' s st)"
    by (cases "tm_run_top X now' s st") (simp_all add: detect_round_def q mn(1) e d l)
qed

theorem timer_round_witness:
  "\<exists>d. detect_round std_calendar at_nine at_nine \<lparr>m_time_point = two_at_night, m_timer_id = 0\<rparr>
     (tm_new\<lparr>tm_queue := [\<lparr>m_time_point = two_at_night, m_timer_id = 0\<rparr>]\<rparr> :: (bpoint, int, nat) timer_manager) =
     Inr (WaitFor d) \<and> td_ticks (dur std_calendar) d = 61200000000"
proof -
  have m: "moment (2460371 * day_us + 7200000000)" "moment (2460370 * day_us + 32400000000)"
    by (simp_all add: moment_def first_day_def last_day_def day_us_def)
  have v: "m_data two_at_night = Finite (2460371 * day_us + 7200000000)"
    "m_data at_nine = Finite (2460370 * day_us + 32400000000)"
    by (simp_all add: two_at_night_def at_nine_def)
  have t: "is_top std_calendar \<lparr>m_time_point = two_at_night, m_timer_id = 0\<rparr>
      (tm_queue (tm_new\<lparr>tm_queue := [\<lparr>m_time_point = two_at_night, m_timer_id = 0\<rparr>]\<rparr> ::
        (bpoint, int, nat) timer_manager))"
    using std.less_points(2) [OF v(1) v(1)] by (simp add: is_top_def interval_less_def)
  have "2460371 * day_us + 7200000000 \<noteq> first_day * day_us"
    "2460370 * day_us + 32400000000 < 2460371 * day_us + 7200000000"
    "2460371 * day_us + 7200000000 - (2460370 * day_us + 32400000000) = 61200000000"
    by (simp_all add: day_us_def first_day_def)
  with timer_round [OF std.boost_datetime_axioms t _ m(1) v(2) m(2)] v(1)
  show ?thesis by simp
qed

end
