(* ===== verification/TimerThreads.thy ===== *)
theory TimerThreads
  imports TimerManager
begin

text \<open>
  The end of a \<open>TimerManager\<close>: the detecting thread against a caller of \<open>stop\<close>, every critical section of
  the mutex one step. \<open>m_stop\<close> is read by the thread before it takes the mutex; a notification reaches
  the thread only while it waits.
\<close>

datatype detect_pc = Testing | Locking | Waiting | Sleeping | Ended

datatype stop_pc = Checking | Clearing | Notifying | Joining | Joined

record ('p, 'd, 'f) timer_threads =
  tt_manager :: "('p, 'd, 'f) timer_manager"
  tt_detect :: detect_pc
  tt_caller :: stop_pc

text \<open>What a round leaves, and where it leaves the thread.\<close>

fun after_round :: "('d timedelta, ('p, 'd, 'f) timer_manager) round \<Rightarrow> ('p, 'd, 'f) timer_threads \<Rightarrow>
    ('p, 'd, 'f) timer_threads" where
  "after_round WaitForever t = t\<lparr>tt_detect := Waiting\<rparr>"
| "after_round (WaitFor d) t = t\<lparr>tt_detect := Sleeping\<rparr>"
| "after_round EndThread t = t\<lparr>tt_detect := Ended\<rparr>"
| "after_round (Goes st) t = t\<lparr>tt_detect := Testing, tt_manager := st\<rparr>"

definition wake :: "detect_pc \<Rightarrow> detect_pc" where
  "wake pc = (if pc = Waiting \<or> pc = Sleeping then Testing else pc)"

inductive tt_step :: "('b, 'p, 'd) datetime_ops \<Rightarrow> ('p, 'd, 'f) timer_threads \<Rightarrow>
    ('p, 'd, 'f) timer_threads \<Rightarrow> bool" for X where
  test: "tt_detect t = Testing \<Longrightarrow>
    tt_step X t (t\<lparr>tt_detect := if tm_stop (tt_manager t) then Ended else Locking\<rparr>)"
| round: "tt_detect t = Locking \<Longrightarrow> tm_queue (tt_manager t) = [] \<or> is_top X s (tm_queue (tt_manager t)) \<Longrightarrow>
    detect_round X now now' s (tt_manager t) = Inr r \<Longrightarrow> tt_step X t (after_round r t)"
| timeout: "tt_detect t = Sleeping \<Longrightarrow> tt_step X t (t\<lparr>tt_detect := Testing\<rparr>)"
| check: "tt_caller t = Checking \<Longrightarrow>
    tt_step X t (t\<lparr>tt_caller := if tm_stop (tt_manager t) then Joining else Clearing\<rparr>)"
| clear: "tt_caller t = Clearing \<Longrightarrow>
    tt_step X t (t\<lparr>tt_manager := (tt_manager t)\<lparr>tm_queue := [], tm_stop := True\<rparr>, tt_caller := Notifying\<rparr>)"
| notify: "tt_caller t = Notifying \<Longrightarrow>
    tt_step X t (t\<lparr>tt_detect := wake (tt_detect t), tt_caller := Joining\<rparr>)"
| join: "tt_caller t = Joining \<Longrightarrow> tt_detect t = Ended \<Longrightarrow> tt_step X t (t\<lparr>tt_caller := Joined\<rparr>)"

inductive tt_reach :: "('b, 'p, 'd) datetime_ops \<Rightarrow> ('p, 'd, 'f) timer_manager \<Rightarrow>
    ('p, 'd, 'f) timer_threads \<Rightarrow> bool" for X st where
  init: "tt_reach X st \<lparr>tt_manager = st, tt_detect = Testing, tt_caller = Checking\<rparr>"
| step: "tt_reach X st t \<Longrightarrow> tt_step X t t' \<Longrightarrow> tt_reach X st t'"

text \<open>The manager is stopped, with an empty queue, exactly after the critical section of \<open>stop\<close>.\<close>

definition tt_ok :: "('p, 'd, 'f) timer_threads \<Rightarrow> bool" where
  "tt_ok t \<longleftrightarrow>
     (if tt_caller t \<in> {Checking, Clearing} then \<not> tm_stop (tt_manager t)
      else tm_stop (tt_manager t) \<and> tm_queue (tt_manager t) = []) \<and>
     (tt_caller t = Joined \<longrightarrow> tt_detect t = Ended)"

lemma empty_round: "tm_queue st = [] \<Longrightarrow> detect_round X now now' s st = Inr WaitForever"
  by (simp add: detect_round_def)

lemma run_top_stop:
  assumes "tm_run_top X now s st = Inr st'"
  shows "tm_stop st' = tm_stop st"
  using assms by (cases rule: run_top_cases) simp_all

lemma ok_tt_step:
  assumes "tt_step X t t'" "tt_ok t"
  shows "tt_ok t'"
  using assms
proof (induction rule: tt_step.induct)
  case (round t s now now' r)
  show ?case
  proof (cases "tm_queue (tt_manager t) = []")
    case True
    then have "r = WaitForever" using round.hyps(3) by (simp add: empty_round)
    with round show ?thesis by (auto simp: tt_ok_def)
  next
    case False
    with round.prems have c: "tt_caller t \<in> {Checking, Clearing}" "\<not> tm_stop (tt_manager t)"
      by (auto simp: tt_ok_def split: if_splits)
    have "\<not> tm_stop st'" if "r = Goes st'" for st'
      using run_top_stop [OF detect_round_goes] round.hyps(3) that c(2) by blast
    then show ?thesis using c by (cases r) (auto simp: tt_ok_def)
  qed
qed (auto simp: tt_ok_def wake_def split: if_splits)

lemma ok_tt_reach: "tt_reach X st t \<Longrightarrow> \<not> tm_stop st \<Longrightarrow> tt_ok t"
proof (induction rule: tt_reach.induct)
  case init
  then show ?case by (simp add: tt_ok_def)
qed (blast intro: ok_tt_step)

lemma stuck_cases:
  assumes "tt_ok t" "\<And>t'. \<not> tt_step X t t'"
  shows "tt_caller t = Joined \<or> tt_caller t = Joining \<and> tt_detect t = Waiting"
proof -
  have c: "tt_caller t = Joining \<or> tt_caller t = Joined"
    using assms(2) tt_step.check tt_step.clear tt_step.notify by (metis stop_pc.exhaust)
  then have "tm_queue (tt_manager t) = []" using assms(1) by (auto simp: tt_ok_def)
  then have "tt_detect t \<noteq> Locking" using assms(2) tt_step.round [OF _ _ empty_round] by blast
  then show ?thesis using assms(2) c tt_step.test tt_step.timeout tt_step.join by (metis detect_pc.exhaust)
qed

text \<open>
  Property C39: \<open>stop\<close> can hang. The detecting thread may find \<open>m_stop\<close> unset, then the caller sets
  it and notifies nobody, then the thread finds the queue empty and waits: nothing wakes it up, and
  \<open>stop\<close> joins it for ever. This is the only way in which the two come to rest before \<open>stop\<close> has
  joined the thread.
\<close>

theorem timer_stop_lost_wakeup:
  assumes "\<not> tm_stop st"
  shows "(\<exists>t. tt_reach X st t \<and> tt_caller t = Joining \<and> tt_detect t = Waiting \<and> (\<forall>t'. \<not> tt_step X t t')) \<and>
    (\<forall>t. tt_reach X st t \<and> (\<forall>t'. \<not> tt_step X t t') \<longrightarrow>
       tt_caller t = Joined \<or> tt_caller t = Joining \<and> tt_detect t = Waiting)"
proof (intro conjI allI impI)
  let ?st = "st\<lparr>tm_queue := [], tm_stop := True\<rparr>"
  let ?t = "\<lambda>st d c. \<lparr>tt_manager = st, tt_detect = d, tt_caller = c\<rparr> :: (_, _, _) timer_threads"
  have "tt_reach X st (?t st Locking Checking)"
    using tt_reach.step [OF tt_reach.init tt_step.test, of st X] assms by simp
  then have "tt_reach X st (?t st Locking Clearing)"
    using tt_reach.step [OF _ tt_step.check] assms by fastforce
  then have "tt_reach X st (?t ?st Locking Notifying)"
    using tt_reach.step [OF _ tt_step.clear] by fastforce
  then have "tt_reach X st (?t ?st Locking Joining)"
    using tt_reach.step [OF _ tt_step.notify] by (fastforce simp: wake_def)
  then have "tt_reach X st (after_round WaitForever (?t ?st Locking Joining))"
    by (rule tt_reach.step) (rule tt_step.round [OF _ _ empty_round], simp_all)
  then have r: "tt_reach X st (?t ?st Waiting Joining)" by simp
  have "\<not> tt_step X (?t ?st Waiting Joining) t'" for t' by (auto elim: tt_step.cases)
  then show "\<exists>t. tt_reach X st t \<and> tt_caller t = Joining \<and> tt_detect t = Waiting \<and> (\<forall>t'. \<not> tt_step X t t')"
    using r by force
next
  fix t
  assume "tt_reach X st t \<and> (\<forall>t'. \<not> tt_step X t t')"
  then show "tt_caller t = Joined \<or> tt_caller t = Joining \<and> tt_detect t = Waiting"
    using stuck_cases ok_tt_reach [OF _ assms] by blast
qed

theorem timer_stop_lost_wakeup_witness:
  "\<exists>t. tt_reach std_calendar (tm_new :: (bpoint, int, nat) timer_manager) t \<and> tt_caller t = Joining \<and>
     tt_detect t = Waiting \<and> (\<forall>t'. \<not> tt_step std_calendar t t')"
proof -
  have "\<not> tm_stop (tm_new :: (bpoint, int, nat) timer_manager)" by (simp add: tm_new_def)
  from conjunct1 [OF timer_stop_lost_wakeup [OF this, of std_calendar]] show ?thesis .
qed

end
