(* ===== verification/FilterNode.thy ===== *)
theory FilterNode
  imports HkuPrelude
begin

text \<open>
  \<open>FilterNode.h\<close>: trees of nodes that filter and process data, and the processor that runs them for
  events, one event after the other. Nodes are shared pointers, so they live in a store and may have
  several parents or be their own ancestors; the virtual functions \<open>filter\<close> and \<open>process\<close> are a
  parameter and may change the store.
\<close>

section \<open>Nodes\<close>

record 'v filter_node =
  fn_value :: "'v option"
  fn_children :: "nat list"
  fn_exclusive :: bool

record ('v, 'u) filter_world =
  fw_nodes :: "nat \<Rightarrow> 'v filter_node"
  fw_user :: 'u

record ('d, 'v, 'u) node_class =
  vt_filter :: "nat \<Rightarrow> 'd \<Rightarrow> ('v, 'u) filter_world \<Rightarrow> bool result \<times> ('v, 'u) filter_world"
  vt_process :: "nat \<Rightarrow> 'd \<Rightarrow> ('v, 'u) filter_world \<Rightarrow> ('v, 'u) filter_world outcome"

definition fn_new :: "bool \<Rightarrow> 'v filter_node" where
  "fn_new exclusive = \<lparr>fn_value = None, fn_children = [], fn_exclusive = exclusive\<rparr>"

definition upd_node :: "nat \<Rightarrow> ('v filter_node \<Rightarrow> 'v filter_node) \<Rightarrow> ('v, 'u) filter_world \<Rightarrow>
    ('v, 'u) filter_world" where
  "upd_node n f w = w\<lparr>fw_nodes := (fw_nodes w)(n := f (fw_nodes w n))\<rparr>"

text \<open>Copy assignment copies the list of pointers, not the children.\<close>

definition fn_assign :: "nat \<Rightarrow> nat \<Rightarrow> ('v, 'u) filter_world \<Rightarrow> ('v, 'u) filter_world" where
  "fn_assign n rv w =
     (if n = rv then w
      else upd_node n (\<lambda>_. \<lparr>fn_value = fn_value (fw_nodes w rv), fn_children = fn_children (fw_nodes w rv),
        fn_exclusive = fn_exclusive (fw_nodes w rv)\<rparr>) w)"

definition addChild :: "nat \<Rightarrow> nat option \<Rightarrow> ('v, 'u) filter_world \<Rightarrow> (nat \<times> ('v, 'u) filter_world) result" where
  "addChild n child w =
     (case child of
        None \<Rightarrow> Inl HkuException
      | Some c \<Rightarrow> Inr (c, upd_node n (\<lambda>x. x\<lparr>fn_children := c # fn_children x\<rparr>) w))"

definition fn_set_exclusive :: "nat \<Rightarrow> bool \<Rightarrow> ('v, 'u) filter_world \<Rightarrow> ('v, 'u) filter_world" where
  "fn_set_exclusive n b = upd_node n (\<lambda>x. x\<lparr>fn_exclusive := b\<rparr>)"

definition fn_set_value :: "nat \<Rightarrow> 'v \<Rightarrow> ('v, 'u) filter_world \<Rightarrow> ('v, 'u) filter_world" where
  "fn_set_value n v = upd_node n (\<lambda>x. x\<lparr>fn_value := Some v\<rparr>)"

definition fn_has_value :: "nat \<Rightarrow> ('v, 'u) filter_world \<Rightarrow> bool" where
  "fn_has_value n w \<longleftrightarrow> fn_value (fw_nodes w n) \<noteq> None"

text \<open>The wrappers that catch every exception: a filter that throws rejects.\<close>

definition filter_caught :: "('d, 'v, 'u) node_class \<Rightarrow> 'd \<Rightarrow> nat \<Rightarrow> ('v, 'u) filter_world \<Rightarrow>
    bool \<times> ('v, 'u) filter_world" where
  "filter_caught C d n w =
     (case vt_filter C n d w of (Inr b, w) \<Rightarrow> (b, w) | (Inl e, w) \<Rightarrow> (False, w))"

definition process_caught :: "('d, 'v, 'u) node_class \<Rightarrow> 'd \<Rightarrow> nat \<Rightarrow> ('v, 'u) filter_world \<Rightarrow>
    ('v, 'u) filter_world" where
  "process_caught C d n w = snd (vt_process C n d w)"

text \<open>
  \<open>run\<close> and its loop over the children, as one function of what is still to run. The loop reads
  \<open>m_exclusive\<close> after each child; a child that is added meanwhile stands in front of the iterator.
  \<open>None\<close> is a recursion that does not end.
\<close>

datatype run_item = RunNode nat | RunChildren nat "nat list"

partial_function (option) fn_run :: "('d, 'v, 'u) node_class \<Rightarrow> 'd \<Rightarrow> run_item \<Rightarrow> ('v, 'u) filter_world \<Rightarrow>
    (bool \<times> ('v, 'u) filter_world) option" where
  "fn_run C d item w =
     (case item of
        RunNode n \<Rightarrow>
          (case filter_caught C d n w of (accepted, w) \<Rightarrow>
             if accepted
             then let w = process_caught C d n w in
               fn_run C d (RunChildren n (fn_children (fw_nodes w n))) w
             else Some (False, w))
      | RunChildren n nodes \<Rightarrow>
          (case nodes of
             [] \<Rightarrow> Some (True, w)
           | node # nodes \<Rightarrow>
               Option.bind (fn_run C d (RunNode node) w) (\<lambda>(ran, w).
                 if ran \<and> fn_exclusive (fw_nodes w n) then Some (True, w)
                 else fn_run C d (RunChildren n nodes) w)))"

text \<open>\<open>BindFilterNode\<close>: functions that may be missing.\<close>

definition bind_filter :: "(nat \<Rightarrow> 'd \<Rightarrow> 'w \<Rightarrow> bool result \<times> 'w) option \<Rightarrow> nat \<Rightarrow> 'd \<Rightarrow> 'w \<Rightarrow>
    bool result \<times> 'w" where
  "bind_filter f n d w = (case f of Some g \<Rightarrow> g n d w | None \<Rightarrow> (Inr True, w))"

definition bind_process :: "(nat \<Rightarrow> 'd \<Rightarrow> 'w \<Rightarrow> 'w outcome) option \<Rightarrow> nat \<Rightarrow> 'd \<Rightarrow> 'w \<Rightarrow> 'w outcome" where
  "bind_process f n d w = (case f of Some g \<Rightarrow> g n d w | None \<Rightarrow> (None, w))"

section \<open>Events\<close>

text \<open>
  \<open>AsyncSerialEventProcessor\<close>: one worker takes the dispatched events in their order. The first action
  of an event is the root, the later ones are its children.
\<close>

record ('e, 'd, 'v, 'u) event_processor =
  ap_trees :: "'e \<Rightarrow> nat option"
  ap_tasks :: "('e \<times> 'd) list"
  ap_world :: "('v, 'u) filter_world"
  ap_quit_wait :: bool

definition addAction :: "'e \<Rightarrow> nat option \<Rightarrow> ('e, 'd, 'v, 'u) event_processor \<Rightarrow>
    (nat \<times> ('e, 'd, 'v, 'u) event_processor) result" where
  "addAction event action st =
     (case action of
        None \<Rightarrow> Inl HkuException
      | Some a \<Rightarrow>
          (case ap_trees st event of
             Some root \<Rightarrow> bind_result (addChild root (Some a) (ap_world st)) (\<lambda>(c, w). Inr (a, st\<lparr>ap_world := w\<rparr>))
           | None \<Rightarrow> Inr (a, st\<lparr>ap_trees := (ap_trees st)(event \<mapsto> a)\<rparr>)))"

definition dispatch :: "'e \<Rightarrow> 'd \<Rightarrow> ('e, 'd, 'v, 'u) event_processor \<Rightarrow> ('e, 'd, 'v, 'u) event_processor" where
  "dispatch event d st = st\<lparr>ap_tasks := ap_tasks st @ [(event, d)]\<rparr>"

definition ap_task :: "('d, 'v, 'u) node_class \<Rightarrow> ('e \<Rightarrow> nat option) \<Rightarrow> 'e \<times> 'd \<Rightarrow> ('v, 'u) filter_world \<Rightarrow>
    ('v, 'u) filter_world option" where
  "ap_task C trees x w =
     (case trees (fst x) of
        None \<Rightarrow> Some w
      | Some root \<Rightarrow> map_option snd (fn_run C (snd x) (RunNode root) w))"

fun ap_tasks_run :: "('d, 'v, 'u) node_class \<Rightarrow> ('e \<Rightarrow> nat option) \<Rightarrow> ('e \<times> 'd) list \<Rightarrow>
    ('v, 'u) filter_world \<Rightarrow> ('v, 'u) filter_world option" where
  "ap_tasks_run C trees [] w = Some w"
| "ap_tasks_run C trees (x # xs) w = Option.bind (ap_task C trees x w) (ap_tasks_run C trees xs)"

text \<open>The destructor joins the pool, or stops it and drops what is queued.\<close>

definition ap_close :: "('d, 'v, 'u) node_class \<Rightarrow> ('e, 'd, 'v, 'u) event_processor \<Rightarrow>
    ('e, 'd, 'v, 'u) event_processor option" where
  "ap_close C st =
     (if ap_quit_wait st
      then map_option (\<lambda>w. st\<lparr>ap_tasks := [], ap_world := w\<rparr>) (ap_tasks_run C (ap_trees st) (ap_tasks st) (ap_world st))
      else Some (st\<lparr>ap_tasks := []\<rparr>))"

section \<open>What a finite tree runs\<close>

datatype ftree = FTree (froot: nat) (fonly: bool) (fsub: "ftree list")

fun tree_at :: "('v, 'u) filter_world \<Rightarrow> ftree \<Rightarrow> bool" where
  "tree_at w (FTree n only ts) \<longleftrightarrow> fn_exclusive (fw_nodes w n) = only \<and>
     fn_children (fw_nodes w n) = map froot ts \<and> (\<forall>t \<in> set ts. tree_at w t)"

fun first_nonempty :: "'a list list \<Rightarrow> 'a list" where
  "first_nonempty [] = []"
| "first_nonempty (l # ls) = (if l = [] then first_nonempty ls else l)"

text \<open>The accepted nodes from the root down, in an exclusive node those of the first accepted child.\<close>

fun picked :: "(nat \<Rightarrow> bool) \<Rightarrow> ftree \<Rightarrow> nat list" where
  "picked acc (FTree n only ts) =
     (if acc n then n # (if only then first_nonempty (map (picked acc) ts) else concat (map (picked acc) ts))
      else [])"

lemma picked_empty: "picked acc t = [] \<longleftrightarrow> \<not> acc (froot t)"
  by (cases t) simp

text \<open>Virtual functions that leave the tree alone, filters that decide by node and data.\<close>

definition same_shape :: "('v, 'u) filter_world \<Rightarrow> ('v, 'u) filter_world \<Rightarrow> bool" where
  "same_shape w w' \<longleftrightarrow> (\<forall>n. fn_children (fw_nodes w n) = fn_children (fw_nodes w' n) \<and>
     fn_exclusive (fw_nodes w n) = fn_exclusive (fw_nodes w' n))"

definition plain_class :: "('d, 'v, 'u) node_class \<Rightarrow> ('d \<Rightarrow> nat \<Rightarrow> bool) \<Rightarrow> bool" where
  "plain_class C acc \<longleftrightarrow> (\<forall>d n w. filter_caught C d n w = (acc d n, w)) \<and>
     (\<forall>d n w. same_shape w (process_caught C d n w))"

definition process_all :: "('d, 'v, 'u) node_class \<Rightarrow> 'd \<Rightarrow> nat list \<Rightarrow> ('v, 'u) filter_world \<Rightarrow>
    ('v, 'u) filter_world" where
  "process_all C d = fold (process_caught C d)"

lemma process_all_simps [simp]:
  "process_all C d [] w = w" "process_all C d (n # ns) w = process_all C d ns (process_caught C d n w)"
  "process_all C d (ns @ ms) w = process_all C d ms (process_all C d ns w)"
  by (simp_all add: process_all_def)

lemma tree_at_shape: "same_shape w w' \<Longrightarrow> tree_at w t \<Longrightarrow> tree_at w' t"
  by (induction t) (auto simp: same_shape_def)

lemma process_all_shape: "plain_class C acc \<Longrightarrow> same_shape w (process_all C d ns w)"
proof (induction ns arbitrary: w)
  case (Cons n ns)
  then have "same_shape w (process_caught C d n w)" by (simp add: plain_class_def)
  then show ?case using Cons.IH [OF Cons.prems, of "process_caught C d n w"] by (simp add: same_shape_def)
qed (simp add: same_shape_def)

lemmas tree_at_kept = tree_at_shape [OF process_all_shape]

lemma run_children:
  assumes "plain_class C acc" "fn_exclusive (fw_nodes w n) = only" "\<forall>t \<in> set ts. tree_at w t"
    and "\<And>t w. t \<in> set ts \<Longrightarrow> tree_at w t \<Longrightarrow> fn_run C d (RunNode (froot t)) w =
      Some (acc d (froot t), process_all C d (picked (acc d) t) w)"
  shows "fn_run C d (RunChildren n (map froot ts)) w =
    Some (True, process_all C d (if only then first_nonempty (map (picked (acc d)) ts)
      else concat (map (picked (acc d)) ts)) w)"
  using assms(2-4)
proof (induction ts arbitrary: w)
  case Nil
  show ?case by (subst fn_run.simps) simp
next
  case (Cons t ts)
  let ?w = "process_all C d (picked (acc d) t) w"
  have s: "same_shape w ?w" by (rule process_all_shape [OF assms(1)])
  have e: "fn_exclusive (fw_nodes ?w n) = only" using s Cons.prems(1) by (simp add: same_shape_def)
  have "\<forall>u \<in> set ts. tree_at ?w u" using tree_at_shape [OF s] Cons.prems(2) by simp
  then have "fn_run C d (RunChildren n (map froot ts)) ?w =
      Some (True, process_all C d (if only then first_nonempty (map (picked (acc d)) ts)
        else concat (map (picked (acc d)) ts)) ?w)"
    by (rule Cons.IH [OF e]) (rule Cons.prems(3), simp_all)
  moreover have "fn_run C d (RunNode (froot t)) w = Some (acc d (froot t), ?w)"
    using Cons.prems(2,3) by simp
  ultimately show ?case
    using e picked_empty [of "acc d" t] by (subst fn_run.simps) auto
qed

lemma run_tree:
  assumes "plain_class C acc" "tree_at w t"
  shows "fn_run C d (RunNode (froot t)) w = Some (acc d (froot t), process_all C d (picked (acc d) t) w)"
  using assms(2)
proof (induction t arbitrary: w)
  case (FTree n only ts)
  have f: "filter_caught C d n w = (acc d n, w)" using assms(1) by (simp add: plain_class_def)
  show ?case
  proof (cases "acc d n")
    case True
    let ?w = "process_caught C d n w"
    have s: "same_shape w ?w" using assms(1) by (simp add: plain_class_def)
    have t: "tree_at ?w (FTree n only ts)" by (rule tree_at_shape [OF s FTree.prems])
    then have "fn_run C d (RunChildren n (map froot ts)) ?w = Some (True, process_all C d
        (if only then first_nonempty (map (picked (acc d)) ts) else concat (map (picked (acc d)) ts)) ?w)"
      by (intro run_children [OF assms(1)] FTree.IH) simp_all
    then show ?thesis using True f t by (subst fn_run.simps) (simp add: Let_def)
  next
    case False
    then show ?thesis using f by (subst fn_run.simps) simp
  qed
qed

section \<open>Properties\<close>

text \<open>
  Property C29: on a finite tree whose filters decide by node and data, \<open>run\<close> returns, returns whether
  the root accepts, and processes exactly the accepted nodes below accepted ones, each node before
  its children and children in order, with only the first accepted child of an exclusive node; what
  \<open>process\<close> throws changes nothing of that.
\<close>

theorem filter_node_run:
  assumes "plain_class C acc" "tree_at w t"
  shows "fn_run C d (RunNode (froot t)) w = Some (acc d (froot t), fold (process_caught C d) (picked (acc d) t) w)"
  using run_tree [OF assms] by (simp add: process_all_def)

definition odd_class :: "(nat, nat, unit) node_class" where
  "odd_class = \<lparr>vt_filter = \<lambda>n d w. if n = 9 then (Inl RuntimeError, w) else (Inr (odd n), w),
     vt_process = \<lambda>n d w. if n = 7 then (Some RuntimeError, w) else (None, fn_set_value n (n + d) w)\<rparr>"

definition odd_world :: "(nat, unit) filter_world" where
  "odd_world = \<lparr>fw_nodes = (\<lambda>_. fn_new False)
     (1 := \<lparr>fn_value = None, fn_children = [9, 2, 3, 5], fn_exclusive = True\<rparr>,
      2 := \<lparr>fn_value = None, fn_children = [13], fn_exclusive = False\<rparr>,
      3 := \<lparr>fn_value = None, fn_children = [7, 4, 11], fn_exclusive = False\<rparr>), fw_user = ()\<rparr>"

definition odd_tree :: ftree where
  "odd_tree = FTree 1 True [FTree 9 False [], FTree 2 False [FTree 13 False []],
     FTree 3 False [FTree 7 False [], FTree 4 False [], FTree 11 False []], FTree 5 False []]"

lemma odd_plain: "plain_class odd_class (\<lambda>d n. odd n \<and> n \<noteq> 9)"
  by (simp add: plain_class_def odd_class_def filter_caught_def process_caught_def same_shape_def
      fn_set_value_def upd_node_def)

theorem filter_node_run_witness:
  "\<exists>w. fn_run odd_class 100 (RunNode 1) odd_world = Some (True, w) \<and>
     map (\<lambda>n. fn_value (fw_nodes w n)) [1, 9, 2, 13, 3, 7, 4, 11, 5] =
       [Some 101, None, None, None, Some 103, None, None, Some 111, None]"
proof -
  have t: "tree_at odd_world odd_tree" by (simp add: odd_tree_def odd_world_def fn_new_def)
  have p: "picked (\<lambda>n. odd n \<and> n \<noteq> 9) odd_tree = [1, 3, 7, 11]" by (simp add: odd_tree_def)
  show ?thesis
    using filter_node_run [OF odd_plain t, of 100]
    by (simp add: p) (simp add: odd_tree_def odd_class_def odd_world_def process_caught_def fn_set_value_def
        upd_node_def fn_new_def)
qed

lemma tasks_run:
  assumes "plain_class C acc"
    and "\<forall>e r. trees e = Some r \<longrightarrow> froot (T e) = r \<and> tree_at w (T e)"
  shows "ap_tasks_run C trees xs w = Some (fold (\<lambda>(e, d) w. if trees e = None then w
    else fold (process_caught C d) (picked (acc d) (T e)) w) xs w)"
  using assms(2)
proof (induction xs arbitrary: w)
  case (Cons x xs)
  obtain e d where x: "x = (e, d)" by fastforce
  show ?case
  proof (cases "trees e")
    case None
    then show ?thesis using Cons.IH [OF Cons.prems] x by (simp add: ap_task_def)
  next
    case (Some r)
    let ?w = "process_all C d (picked (acc d) (T e)) w"
    have t: "froot (T e) = r" "tree_at w (T e)" using Cons.prems Some by blast+
    have "ap_task C trees x w = Some ?w"
      using run_tree [OF assms(1) t(2)] t(1) Some x by (simp add: ap_task_def)
    moreover have "ap_tasks_run C trees xs ?w = Some (fold (\<lambda>(e, d) w. if trees e = None then w
        else fold (process_caught C d) (picked (acc d) (T e)) w) xs ?w)"
      by (rule Cons.IH) (use Cons.prems tree_at_kept [OF assms(1)] in blast)
    ultimately show ?thesis using Some x by (simp add: process_all_def)
  qed
qed simp

text \<open>A node that is its own child is run for ever, once it accepts.\<close>

lemma self_child_runs_on:
  fixes C :: "('d, 'v, 'u) node_class" and w :: "('v, 'u) filter_world"
  assumes "fn_run C d item w = Some y" "plain_class C acc" "acc d a" "fn_children (fw_nodes w a) = a # cs"
  shows "item \<noteq> RunNode a \<and> item \<noteq> RunChildren a (a # cs)"
proof (rule fn_run.raw_induct [where P = "\<lambda>C d item w y. plain_class C acc \<longrightarrow> acc d a \<longrightarrow>
      fn_children (fw_nodes w a) = a # cs \<longrightarrow> item \<noteq> RunNode a \<and> item \<noteq> RunChildren a (a # cs)",
      OF _ assms(1), rule_format, OF _ assms(2-4)])
  fix g and C :: "('d, 'v, 'u) node_class" and d item and w :: "('v, 'u) filter_world" and y
  assume IH: "\<And>C d item w y. g C d item (w :: ('v, 'u) filter_world) = Some y \<Longrightarrow> plain_class C acc \<Longrightarrow>
      acc d a \<Longrightarrow> fn_children (fw_nodes w a) = a # cs \<Longrightarrow> item \<noteq> RunNode a \<and> item \<noteq> RunChildren a (a # cs)"
    and r: "(case item of
        RunNode n \<Rightarrow>
          (case filter_caught C d n w of (accepted, w) \<Rightarrow>
             if accepted
             then let w = process_caught C d n w in g C d (RunChildren n (fn_children (fw_nodes w n))) w
             else Some (False, w))
      | RunChildren n nodes \<Rightarrow>
          (case nodes of
             [] \<Rightarrow> Some (True, w)
           | node # nodes \<Rightarrow>
               Option.bind (g C d (RunNode node) w) (\<lambda>(ran, w).
                 if ran \<and> fn_exclusive (fw_nodes w n) then Some (True, w)
                 else g C d (RunChildren n nodes) w))) = Some y"
    and p: "plain_class C acc" "acc d a" "fn_children (fw_nodes w a) = a # cs"
  have f: "filter_caught C d a w = (True, w)" "same_shape w (process_caught C d a w)"
    using p(1,2) by (simp_all add: plain_class_def)
  then have c: "fn_children (fw_nodes (process_caught C d a w) a) = a # cs"
    using p(3) by (simp add: same_shape_def)
  show "item \<noteq> RunNode a \<and> item \<noteq> RunChildren a (a # cs)"
  proof (intro conjI notI)
    assume i: "item = RunNode a"
    with r f(1) c have "g C d (RunChildren a (a # cs)) (process_caught C d a w) = Some y"
      by (simp add: Let_def)
    from IH [OF this] p(1,2) c show False by blast
  next
    assume i: "item = RunChildren a (a # cs)"
    with r obtain z where "g C d (RunNode a) w = Some z" by (cases "g C d (RunNode a) w") auto
    from IH [OF this] p show False by blast
  qed
qed

text \<open>
  With \<open>quit_wait\<close>, the destructor of the event processor has run every dispatched event
  in the order of \<open>dispatch\<close>, each on the tree of its event, and events without a tree not at all. An
  action that is added twice for the same event becomes its own child: running it then does not end.
\<close>

theorem event_processor_serial:
  assumes "plain_class C acc"
  shows "(ap_quit_wait st \<and> (\<forall>e r. ap_trees st e = Some r \<longrightarrow> froot (T e) = r \<and> tree_at (ap_world st) (T e)) \<longrightarrow>
      ap_close C st = Some (st\<lparr>ap_tasks := [], ap_world := fold (\<lambda>(e, d) w. if ap_trees st e = None then w
        else fold (process_caught C d) (picked (acc d) (T e)) w) (ap_tasks st) (ap_world st)\<rparr>)) \<and>
    (ap_trees st e = None \<and> acc d a \<and> addAction e (Some a) st = Inr (a, st1) \<and>
       addAction e (Some a) st1 = Inr (a, st2) \<longrightarrow> ap_task C (ap_trees st2) (e, d) (ap_world st2) = None)"
proof (intro conjI impI)
  assume a: "ap_quit_wait st \<and> (\<forall>e r. ap_trees st e = Some r \<longrightarrow> froot (T e) = r \<and> tree_at (ap_world st) (T e))"
  from tasks_run [OF assms conjunct2 [OF a], of "ap_tasks st"]
  show "ap_close C st = Some (st\<lparr>ap_tasks := [], ap_world := fold (\<lambda>(e, d) w. if ap_trees st e = None then w
        else fold (process_caught C d) (picked (acc d) (T e)) w) (ap_tasks st) (ap_world st)\<rparr>)"
    using a by (simp add: ap_close_def)
next
  assume a: "ap_trees st e = None \<and> acc d a \<and> addAction e (Some a) st = Inr (a, st1) \<and>
       addAction e (Some a) st1 = Inr (a, st2)"
  then have "ap_trees st2 e = Some a"
    "fn_children (fw_nodes (ap_world st2) a) = a # fn_children (fw_nodes (ap_world st) a)"
    by (auto simp: addAction_def addChild_def upd_node_def)
  then show "ap_task C (ap_trees st2) (e, d) (ap_world st2) = None"
    using self_child_runs_on [OF _ assms, of d "RunNode a" "ap_world st2" _ a] a
    by (cases "fn_run C d (RunNode a) (ap_world st2)") (auto simp: ap_task_def)
qed

definition odd_events :: "(nat, nat, nat, unit) event_processor" where
  "odd_events = \<lparr>ap_trees = [1 \<mapsto> 1], ap_tasks = [(1, 100), (2, 0), (1, 200)], ap_world = odd_world,
     ap_quit_wait = True\<rparr>"

end
