(* ===== verification/MySQL.thy ===== *)
theory MySQL
  imports SQLStatement CalendarLaws
begin

text \<open>
  The MySQL driver, \<open>db_connect/mysql/MySQLConnect.cpp\<close> and \<open>MySQLStatement.cpp\<close>. The C library is a
  parameter: a record of the functions the driver calls, on a state \<open>'e\<close> that holds the session with
  the server and the prepared statement in use. Buffers that the library reads or writes through
  pointers are positions in the driver's vectors. A result \<open>None\<close> is a call through a null or
  dangling pointer.
\<close>

section \<open>The library\<close>

datatype my_type = TypeLonglong | TypeLong | TypeShort | TypeTiny | TypeDouble | TypeFloat | TypeVarString
  | TypeString | TypeBlob | TypeTinyBlob | TypeVarchar | TypeDatetime | TypeDate | TypeNull | TypeOther int

datatype my_time_kind = TimestampDate | TimestampDatetime | TimestampOther

record my_time =
  mt_year :: int
  mt_month :: int
  mt_day :: int
  mt_hour :: int
  mt_minute :: int
  mt_second :: int
  mt_second_part :: int
  mt_kind :: my_time_kind

text \<open>What a buffer, a \<open>boost::any\<close>, holds.\<close>

datatype 'd my_value = MyInt64 u64 | MyInt32 u32 | MyInt16 "16 word" | MyInt8 byte | MyDouble 'd | MyFloat 'd
  | MyChars string | MyString string | MyTime my_time

text \<open>\<open>MYSQL_BIND\<close>: type, position of the buffer and its length.\<close>

record my_slot =
  ms_type :: my_type
  ms_buffer :: "nat option"
  ms_length :: nat

record my_field =
  mf_type :: my_type
  mf_length :: nat

text \<open>What a fetch writes for a column: into its buffer, and the flags.\<close>

record 'd my_cell =
  cl_value :: "'d my_value"
  cl_length :: nat
  cl_null :: bool
  cl_error :: bool

datatype my_option = OptReconnect | OptSslMode

record ('e, 'd) mysql_api =
  mysql_init :: "'e \<Rightarrow> bool \<times> 'e"
  mysql_options :: "my_option \<Rightarrow> 'e \<Rightarrow> int \<times> 'e"
  mysql_real_connect :: "'e \<Rightarrow> bool \<times> 'e"
  mysql_set_character_set :: "string \<Rightarrow> 'e \<Rightarrow> int \<times> 'e"
  mysql_close :: "'e \<Rightarrow> 'e"
  mysql_errno :: "'e \<Rightarrow> int"
  mysql_ping :: "'e \<Rightarrow> int \<times> 'e"
  mysql_query :: "string \<Rightarrow> 'e \<Rightarrow> int \<times> 'e"
  mysql_affected_rows :: "'e \<Rightarrow> u64"
  mysql_store_result :: "'e \<Rightarrow> bool \<times> 'e"
  mysql_field_count :: "'e \<Rightarrow> nat"
  mysql_next_result :: "'e \<Rightarrow> int \<times> 'e"
  mysql_stmt_init :: "'e \<Rightarrow> bool \<times> 'e"
  mysql_stmt_prepare :: "string \<Rightarrow> 'e \<Rightarrow> int \<times> 'e"
  mysql_stmt_close :: "'e \<Rightarrow> 'e"
  mysql_stmt_param_count :: "'e \<Rightarrow> nat"
  mysql_stmt_result_metadata :: "'e \<Rightarrow> nat option \<times> 'e"  \<comment> \<open>its number of columns\<close>
  mysql_stmt_reset :: "'e \<Rightarrow> int \<times> 'e"
  mysql_stmt_bind_param :: "(my_type \<times> 'd my_value option \<times> nat) list \<Rightarrow> 'e \<Rightarrow> int \<times> 'e"
  mysql_stmt_execute :: "'e \<Rightarrow> int \<times> 'e"
  mysql_fetch_field :: "'e \<Rightarrow> my_field option \<times> 'e"
  mysql_stmt_bind_result :: "my_slot list \<Rightarrow> 'e \<Rightarrow> int \<times> 'e"
  mysql_stmt_store_result :: "'e \<Rightarrow> int \<times> 'e"
  mysql_stmt_fetch :: "'e \<Rightarrow> int \<times> 'd my_cell list \<times> 'e"
  mysql_stmt_insert_id :: "'e \<Rightarrow> u64"
  mysql_stmt_field_count :: "'e \<Rightarrow> nat"

abbreviation CR_SERVER_GONE_ERROR :: int where "CR_SERVER_GONE_ERROR \<equiv> 2006"
abbreviation CR_OUT_OF_MEMORY :: int where "CR_OUT_OF_MEMORY \<equiv> 2008"
abbreviation CR_SERVER_LOST :: int where "CR_SERVER_LOST \<equiv> 2013"
abbreviation MYSQL_DATA_TRUNCATED :: int where "MYSQL_DATA_TRUNCATED \<equiv> 101"

section \<open>Connections\<close>

text \<open>A connection: whether \<open>m_mysql\<close> is set, and the library's state.\<close>

record 'e mysql_conn =
  my_open :: bool
  my_engine :: 'e

definition my_close :: "('e, 'd) mysql_api \<Rightarrow> 'e mysql_conn \<Rightarrow> 'e mysql_conn" where
  "my_close A c = (if my_open c then c\<lparr>my_engine := mysql_close A (my_engine c), my_open := False\<rparr> else c)"

text \<open>
  \<open>connect\<close>: with a client library older than 8.0.34 automatic reconnection is asked for. Whatever
  fails, the handle is closed and \<open>hku::exception\<close> is thrown.
\<close>

definition my_connect_steps :: "('e, 'd) mysql_api \<Rightarrow> bool \<Rightarrow> 'e \<Rightarrow> bool \<times> 'e" where
  "my_connect_steps A old_client e =
     (case mysql_init A e of (ok, e) \<Rightarrow> if \<not> ok then (False, e)
      else case (if old_client then mysql_options A OptReconnect e else (0, e)) of (r, e) \<Rightarrow>
      if r \<noteq> 0 then (False, e)
      else case mysql_options A OptSslMode e of (r, e) \<Rightarrow> if r \<noteq> 0 then (False, e)
      else case mysql_real_connect A e of (ok, e) \<Rightarrow> if \<not> ok then (False, e)
      else case mysql_set_character_set A ''utf8'' e of (r, e) \<Rightarrow> (r = 0, e))"

definition my_connect :: "('e, 'd) mysql_api \<Rightarrow> bool \<Rightarrow> 'e mysql_conn \<Rightarrow> 'e mysql_conn outcome" where
  "my_connect A old_client c =
     (case my_connect_steps A old_client (my_engine c) of (ok, e) \<Rightarrow>
        let c = c\<lparr>my_open := True, my_engine := e\<rparr> in
        if ok then (None, c) else (Some HkuException, my_close A c))"

definition my_tryConnect :: "('e, 'd) mysql_api \<Rightarrow> bool \<Rightarrow> 'e mysql_conn \<Rightarrow> bool \<times> 'e mysql_conn" where
  "my_tryConnect A old_client c =
     (case my_connect A old_client (my_close A c) of (err, c) \<Rightarrow> (err = None, c))"

definition my_ping :: "('e, 'd) mysql_api \<Rightarrow> bool \<Rightarrow> 'e mysql_conn \<Rightarrow> bool \<times> 'e mysql_conn" where
  "my_ping A old_client c =
     (case (if my_open c then (True, c) else my_tryConnect A old_client c) of (ok, c) \<Rightarrow>
        if \<not> ok then (False, c)
        else case mysql_ping A (my_engine c) of (ret, e) \<Rightarrow>
          let c = c\<lparr>my_engine := e\<rparr> in
          if ret \<noteq> 0 then my_tryConnect A old_client c else (True, c))"

text \<open>The loop of \<open>exec\<close> over the results of the statements in the text.\<close>

partial_function (option) my_results :: "('e, 'd) mysql_api \<Rightarrow> 'e \<Rightarrow> 'e outcome option" where
  "my_results A e =
     (case mysql_store_result A e of (result, e) \<Rightarrow>
        if \<not> result \<and> mysql_field_count A e \<noteq> 0 then Some (Some (SqlException 0), e)
        else case mysql_next_result A e of (r, e) \<Rightarrow>
          if r = 0 then my_results A e else Some (None, e))"

text \<open>The query of \<open>exec\<close>, which is sent again after a successful \<open>ping\<close>.\<close>

definition my_query :: "('e, 'd) mysql_api \<Rightarrow> bool \<Rightarrow> string \<Rightarrow> 'e mysql_conn \<Rightarrow> int \<times> 'e mysql_conn" where
  "my_query A old_client sql c =
     (case mysql_query A sql (my_engine c) of (ret, e) \<Rightarrow>
        let c = c\<lparr>my_engine := e\<rparr> in
        if ret \<noteq> 0
        then case my_ping A old_client c of (ok, c) \<Rightarrow>
          if ok then case mysql_query A sql (my_engine c) of (ret, e) \<Rightarrow> (ret, c\<lparr>my_engine := e\<rparr>)
          else (ret, c)
        else (0, c))"

text \<open>
  \<open>exec\<close>. Without a handle it connects, and throws when that succeeds; when it does not, the query is
  made with a null pointer.
\<close>

definition my_exec :: "('e, 'd) mysql_api \<Rightarrow> bool \<Rightarrow> string \<Rightarrow> 'e mysql_conn \<Rightarrow>
    (int result \<times> 'e mysql_conn) option" where
  "my_exec A old_client sql c =
     (if \<not> my_open c
      then case my_tryConnect A old_client c of (ok, c) \<Rightarrow> if ok then Some (Inl HkuException, c) else None
      else case my_query A old_client sql c of (ret, c) \<Rightarrow>
        if ret \<noteq> 0 then Some (Inl (SqlException ret), c)
        else let n = mysql_affected_rows A (my_engine c); rows = (if n = - 1 then 0 else sint n) in
          (case my_results A (my_engine c) of
             None \<Rightarrow> None
           | Some (Some err, e) \<Rightarrow> Some (Inl err, c\<lparr>my_engine := e\<rparr>)
           | Some (None, e) \<Rightarrow> Some (Inr rows, c\<lparr>my_engine := e\<rparr>)))"

definition my_transaction :: "('e, 'd) mysql_api \<Rightarrow> bool \<Rightarrow> 'e mysql_conn \<Rightarrow> (int result \<times> 'e mysql_conn) option" where
  "my_transaction A old_client = my_exec A old_client ''BEGIN''"

definition my_commit :: "('e, 'd) mysql_api \<Rightarrow> bool \<Rightarrow> 'e mysql_conn \<Rightarrow> (int result \<times> 'e mysql_conn) option" where
  "my_commit A old_client = my_exec A old_client ''COMMIT''"

definition my_rollback :: "('e, 'd) mysql_api \<Rightarrow> bool \<Rightarrow> 'e mysql_conn \<Rightarrow> 'e mysql_conn option" where
  "my_rollback A old_client c = map_option snd (my_exec A old_client ''ROLLBACK'' c)"

section \<open>Statements\<close>

record ('e, 'd) mysql_stmt =
  my_conn :: "'e mysql_conn"
  my_needs_reset :: bool
  my_has_bind_result :: bool
  my_has_meta :: bool
  my_param_bind :: "my_slot list"
  my_param_buffer :: "'d my_value list"
  my_result_bind :: "my_slot list"
  my_result_buffer :: "'d my_value list"
  my_result_length :: "nat list"
  my_result_is_null :: "bool list"
  my_result_error :: "bool list"

abbreviation eng :: "('e, 'd) mysql_stmt \<Rightarrow> 'e" where
  "eng st \<equiv> my_engine (my_conn st)"

definition set_eng :: "'e \<Rightarrow> ('e, 'd) mysql_stmt \<Rightarrow> ('e, 'd) mysql_stmt" where
  "set_eng e st = st\<lparr>my_conn := (my_conn st)\<lparr>my_engine := e\<rparr>\<rparr>"

definition no_slot :: my_slot where
  "no_slot = \<lparr>ms_type = TypeOther 0, ms_buffer = None, ms_length = 0\<rparr>"

text \<open>
  \<open>_prepare\<close>: a second attempt after any failure but a lack of memory; before it, for a lost connection
  and for the status 1, which the library returns for every error, \<open>ping\<close>.
\<close>

definition my_prepare_again :: "('e, 'd) mysql_api \<Rightarrow> string \<Rightarrow> 'e mysql_conn \<Rightarrow> 'e mysql_conn outcome option" where
  "my_prepare_again A sql c =
     (if \<not> my_open c then None
      else case mysql_stmt_init A (my_engine c) of (ok, e) \<Rightarrow>
      if \<not> ok then None
      else case mysql_stmt_prepare A sql e of (ret, e) \<Rightarrow>
        if ret = 0 then Some (None, c\<lparr>my_engine := e\<rparr>)
        else Some (Some HkuException, c\<lparr>my_engine := mysql_stmt_close A e\<rparr>))"

definition my_prepare :: "('e, 'd) mysql_api \<Rightarrow> bool \<Rightarrow> string \<Rightarrow> 'e mysql_conn \<Rightarrow> 'e mysql_conn outcome option" where
  "my_prepare A old_client sql c =
     (case mysql_stmt_init A (my_engine c) of (ok, e) \<Rightarrow>
        if \<not> ok then Some (Some HkuException, c\<lparr>my_engine := e\<rparr>)
        else case mysql_stmt_prepare A sql e of (ret, e) \<Rightarrow>
          if ret = 0 then Some (None, c\<lparr>my_engine := e\<rparr>)
          else let c = c\<lparr>my_engine := mysql_stmt_close A e\<rparr> in
            if ret = 1 \<or> ret = CR_SERVER_LOST \<or> ret = CR_SERVER_GONE_ERROR
            then case my_ping A old_client c of (ok, c) \<Rightarrow>
              if ok then my_prepare_again A sql c else Some (Some HkuException, c)
            else if ret = CR_OUT_OF_MEMORY then Some (Some HkuException, c)
            else my_prepare_again A sql c)"

definition my_new :: "('e, 'd) mysql_api \<Rightarrow> bool \<Rightarrow> string \<Rightarrow> 'e mysql_conn \<Rightarrow>
    ((cpp_error \<times> 'e mysql_conn) + ('e, 'd) mysql_stmt) option" where
  "my_new A old_client sql c =
     (if \<not> my_open c then None
      else case my_prepare A old_client sql c of
        None \<Rightarrow> None
      | Some (Some err, c) \<Rightarrow> Some (Inl (err, c))
      | Some (None, c) \<Rightarrow>
          (case mysql_stmt_result_metadata A (my_engine c) of (columns, e) \<Rightarrow>
             let n = (case columns of None \<Rightarrow> 0 | Some n \<Rightarrow> n) in
             Some (Inr \<lparr>my_conn = c\<lparr>my_engine := e\<rparr>, my_needs_reset = False, my_has_bind_result = False,
               my_has_meta = (columns \<noteq> None),
               my_param_bind = replicate (mysql_stmt_param_count A (my_engine c)) no_slot, my_param_buffer = [],
               my_result_bind = replicate n no_slot, my_result_buffer = [],
               my_result_length = replicate n 0, my_result_is_null = replicate n False,
               my_result_error = replicate n False\<rparr>)))"

definition my_reset :: "('e, 'd) mysql_api \<Rightarrow> ('e, 'd) mysql_stmt \<Rightarrow> ('e, 'd) mysql_stmt outcome" where
  "my_reset A st =
     (if my_needs_reset st
      then case mysql_stmt_reset A (eng st) of (ret, e) \<Rightarrow>
        if ret \<noteq> 0 then (Some (SqlException ret), set_eng e st)
        else (None, (set_eng e st)\<lparr>my_result_buffer := [], my_needs_reset := False, my_has_bind_result := False\<rparr>)
      else (None, st))"

text \<open>What the parameters point at, as the library reads it.\<close>

definition my_sent :: "('e, 'd) mysql_stmt \<Rightarrow> (my_type \<times> 'd my_value option \<times> nat) list" where
  "my_sent st = map (\<lambda>b. (ms_type b, map_option ((!) (my_param_buffer st)) (ms_buffer b), ms_length b))
     (my_param_bind st)"

definition my_stmt_exec :: "('e, 'd) mysql_api \<Rightarrow> ('e, 'd) mysql_stmt \<Rightarrow> ('e, 'd) mysql_stmt outcome" where
  "my_stmt_exec A st =
     then_do (my_reset A st) (\<lambda>st.
       let st = st\<lparr>my_needs_reset := True\<rparr> in
       then_do (if my_param_bind st \<noteq> []
                then case mysql_stmt_bind_param A (my_sent st) (eng st) of (ret, e) \<Rightarrow>
                  (if ret = 0 then None else Some (SqlException ret), set_eng e st)
                else (None, st)) (\<lambda>st.
         case mysql_stmt_execute A (eng st) of (ret, e) \<Rightarrow>
           (if ret = 0 then None else Some (SqlException ret), set_eng e st)))"

section \<open>Parameters\<close>

text \<open>A bound value is appended to the buffers; \<open>m_param_bind[idx]\<close> then points at it.\<close>

definition my_push_param :: "my_type \<Rightarrow> 'd my_value \<Rightarrow> nat option \<Rightarrow> nat \<Rightarrow> ('e, 'd) mysql_stmt \<Rightarrow>
    ('e, 'd) mysql_stmt outcome" where
  "my_push_param ty v len idx st =
     (if \<not> idx < length (my_param_bind st) then (Some HkuException, st)
      else (None, st\<lparr>my_param_buffer := my_param_buffer st @ [v],
        my_param_bind := (my_param_bind st)[idx := (my_param_bind st ! idx)
          \<lparr>ms_type := ty, ms_buffer := Some (length (my_param_buffer st)),
           ms_length := (case len of None \<Rightarrow> ms_length (my_param_bind st ! idx) | Some n \<Rightarrow> n)\<rparr>]\<rparr>))"

definition my_bindNull :: "nat \<Rightarrow> ('e, 'd) mysql_stmt \<Rightarrow> ('e, 'd) mysql_stmt outcome" where
  "my_bindNull idx st =
     (if \<not> idx < length (my_param_bind st) then (Some HkuException, st)
      else (None, st\<lparr>my_param_bind := (my_param_bind st)[idx := (my_param_bind st ! idx)\<lparr>ms_type := TypeNull\<rparr>]\<rparr>))"

definition my_bindInt :: "nat \<Rightarrow> u64 \<Rightarrow> ('e, 'd) mysql_stmt \<Rightarrow> ('e, 'd) mysql_stmt outcome" where
  "my_bindInt idx v = my_push_param TypeLonglong (MyInt64 v) None idx"

definition my_bindDouble :: "nat \<Rightarrow> 'd \<Rightarrow> ('e, 'd) mysql_stmt \<Rightarrow> ('e, 'd) mysql_stmt outcome" where
  "my_bindDouble idx v = my_push_param TypeDouble (MyDouble v) None idx"

definition my_bindText :: "nat \<Rightarrow> string \<Rightarrow> ('e, 'd) mysql_stmt \<Rightarrow> ('e, 'd) mysql_stmt outcome" where
  "my_bindText idx s = my_push_param TypeVarString (MyString s) (Some (length s)) idx"

text \<open>The overload for a pointer with a length makes a string of it up to the first zero.\<close>

definition my_bindChars :: "nat \<Rightarrow> string \<Rightarrow> nat \<Rightarrow> ('e, 'd) mysql_stmt \<Rightarrow> ('e, 'd) mysql_stmt outcome" where
  "my_bindChars idx s len =
     (let t = takeWhile (\<lambda>c. c \<noteq> CHR 0x00) s in my_push_param TypeVarString (MyString t) (Some (length t)) idx)"

definition my_bindBlob :: "nat \<Rightarrow> string \<Rightarrow> ('e, 'd) mysql_stmt \<Rightarrow> ('e, 'd) mysql_stmt outcome" where
  "my_bindBlob idx s = my_push_param TypeBlob (MyString s) (Some (length s)) idx"

definition my_bindBlobChars :: "nat \<Rightarrow> string \<Rightarrow> ('e, 'd) mysql_stmt \<Rightarrow> ('e, 'd) mysql_stmt outcome" where
  "my_bindBlobChars idx s = my_push_param TypeBlob (MyChars s) (Some (length s)) idx"

text \<open>\<open>sizeof(MYSQL_TIME)\<close> is the library's.\<close>

definition my_time_of :: "('b, 'p, 'u) datetime_ops \<Rightarrow> 'p datetime \<Rightarrow> my_time result" where
  "my_time_of X t =
     bind_result (dt_year X t) (\<lambda>y. bind_result (dt_month X t) (\<lambda>m. bind_result (dt_day X t) (\<lambda>d.
     bind_result (dt_hour X t) (\<lambda>h. bind_result (dt_minute X t) (\<lambda>mi. bind_result (dt_second X t) (\<lambda>s.
     bind_result (dt_millisecond X t) (\<lambda>ms. bind_result (dt_microsecond X t) (\<lambda>us.
       Inr \<lparr>mt_year = y, mt_month = m, mt_day = d, mt_hour = h, mt_minute = mi, mt_second = s,
         mt_second_part = ms * 1000 + us, mt_kind = TimestampDatetime\<rparr>))))))))"

definition my_bindDatetime :: "('b, 'p, 'u) datetime_ops \<Rightarrow> nat \<Rightarrow> nat \<Rightarrow> 'p datetime \<Rightarrow> ('e, 'd) mysql_stmt \<Rightarrow>
    ('e, 'd) mysql_stmt outcome" where
  "my_bindDatetime X sizeof_time idx t st =
     (if dt_eq X t (dt_Null X) then my_bindNull idx st
      else if \<not> idx < length (my_param_bind st) then (Some HkuException, st)
      else case my_time_of X t of
        Inl e \<Rightarrow> (Some e, st)
      | Inr tm \<Rightarrow> my_push_param TypeDatetime (MyTime tm) (Some sizeof_time) idx st)"

section \<open>Rows\<close>

text \<open>The buffer that \<open>_bindResult\<close> makes for a column, and its length; \<open>None\<close> is an unsupported type.\<close>

fun my_buffer_for :: "my_field \<Rightarrow> 'd \<Rightarrow> ('d my_value \<times> nat option) option" where
  "my_buffer_for f zero =
     (case mf_type f of
        TypeLonglong \<Rightarrow> Some (MyInt64 0, None)
      | TypeLong \<Rightarrow> Some (MyInt32 0, None)
      | TypeDouble \<Rightarrow> Some (MyDouble zero, None)
      | TypeFloat \<Rightarrow> Some (MyFloat zero, None)
      | TypeVarString \<Rightarrow> Some (MyChars (replicate (mf_length f + 1) CHR 0x00), Some (mf_length f + 1))
      | TypeString \<Rightarrow> Some (MyChars (replicate (mf_length f + 1) CHR 0x00), Some (mf_length f + 1))
      | TypeBlob \<Rightarrow> Some (MyChars (replicate (mf_length f + 1) CHR 0x00), Some (mf_length f + 1))
      | TypeTinyBlob \<Rightarrow> Some (MyChars (replicate (mf_length f + 1) CHR 0x00), Some (mf_length f + 1))
      | TypeVarchar \<Rightarrow> Some (MyChars (replicate (mf_length f + 1) CHR 0x00), Some (mf_length f + 1))
      | TypeTiny \<Rightarrow> Some (MyInt8 0, None)
      | TypeShort \<Rightarrow> Some (MyInt16 0, None)
      | TypeDatetime \<Rightarrow> Some (MyTime \<lparr>mt_year = 0, mt_month = 0, mt_day = 0, mt_hour = 0, mt_minute = 0,
          mt_second = 0, mt_second_part = 0, mt_kind = TimestampDate\<rparr>, None)
      | TypeDate \<Rightarrow> Some (MyTime \<lparr>mt_year = 0, mt_month = 0, mt_day = 0, mt_hour = 0, mt_minute = 0,
          mt_second = 0, mt_second_part = 0, mt_kind = TimestampDate\<rparr>, None)
      | _ \<Rightarrow> None)"

text \<open>
  The loop of \<open>_bindResult\<close> over the fields that are left of the metadata. The library returns a field
  for each column at most, so \<open>idx\<close> stays below the number of columns.
\<close>

fun my_bind_fields :: "('e, 'd) mysql_api \<Rightarrow> 'd \<Rightarrow> nat \<Rightarrow> nat \<Rightarrow> ('e, 'd) mysql_stmt \<Rightarrow>
    ('e, 'd) mysql_stmt outcome" where
  "my_bind_fields A zero idx 0 st = (None, st)"
| "my_bind_fields A zero idx (Suc n) st =
     (case mysql_fetch_field A (eng st) of
        (None, e) \<Rightarrow> (None, set_eng e st)
      | (Some f, e) \<Rightarrow>
          let slot = (my_result_bind st ! idx)\<lparr>ms_type := mf_type f\<rparr>;
              st = (set_eng e st)\<lparr>my_result_bind := (my_result_bind st)[idx := slot]\<rparr> in
          (case my_buffer_for f zero of
             None \<Rightarrow> (Some HkuException, st)
           | Some (v, len) \<Rightarrow>
               my_bind_fields A zero (idx + 1) n
                 (st\<lparr>my_result_buffer := my_result_buffer st @ [v],
                     my_result_bind := (my_result_bind st)[idx := slot
                       \<lparr>ms_buffer := Some (length (my_result_buffer st)),
                        ms_length := (case len of None \<Rightarrow> ms_length slot | Some k \<Rightarrow> k)\<rparr>]\<rparr>)))"

definition my_bindResult :: "('e, 'd) mysql_api \<Rightarrow> 'd \<Rightarrow> ('e, 'd) mysql_stmt \<Rightarrow> ('e, 'd) mysql_stmt outcome" where
  "my_bindResult A zero st =
     (if \<not> my_has_meta st then (None, st) else my_bind_fields A zero 0 (length (my_result_bind st)) st)"

text \<open>What a fetch writes through the bound pointers; \<open>None\<close> when one of them dangles.\<close>

fun my_write :: "my_slot list \<Rightarrow> 'd my_cell list \<Rightarrow> 'd my_value list \<Rightarrow> 'd my_value list option" where
  "my_write (s # ss) (c # cs) buffer =
     (case ms_buffer s of
        None \<Rightarrow> my_write ss cs buffer
      | Some k \<Rightarrow> if k < length buffer then my_write ss cs (buffer[k := cl_value c]) else None)"
| "my_write ss cs buffer = Some buffer"

definition my_bound :: "('e, 'd) mysql_api \<Rightarrow> 'd \<Rightarrow> ('e, 'd) mysql_stmt \<Rightarrow> ('e, 'd) mysql_stmt outcome" where
  "my_bound A zero st =
     (if my_has_bind_result st then (None, st)
      else then_do (my_bindResult A zero st) (\<lambda>st.
        let st = st\<lparr>my_has_bind_result := True\<rparr> in
        case mysql_stmt_bind_result A (my_result_bind st) (eng st) of (ret, e) \<Rightarrow>
          if ret \<noteq> 0 then (Some (SqlException ret), set_eng e st)
          else case mysql_stmt_store_result A e of (ret, e) \<Rightarrow>
            (if ret = 0 then None else Some (SqlException ret), set_eng e st)))"

definition my_moveNext :: "('e, 'd) mysql_api \<Rightarrow> 'd \<Rightarrow> ('e, 'd) mysql_stmt \<Rightarrow>
    (bool result \<times> ('e, 'd) mysql_stmt) option" where
  "my_moveNext A zero st =
     (case my_bound A zero st of
        (Some err, st) \<Rightarrow> Some (Inl err, st)
      | (None, st) \<Rightarrow>
          (case mysql_stmt_fetch A (eng st) of (ret, cells, e) \<Rightarrow>
             if ret = 0 \<or> ret = MYSQL_DATA_TRUNCATED
             then (case my_write (my_result_bind st) cells (my_result_buffer st) of
                 None \<Rightarrow> None
               | Some buffer \<Rightarrow> Some (Inr (ret = 0), (set_eng e st)\<lparr>my_result_buffer := buffer,
                   my_result_length := map cl_length cells, my_result_is_null := map cl_null cells,
                   my_result_error := map cl_error cells\<rparr>))
             else if ret = 1 then Some (Inl (SqlException ret), set_eng e st)
             else Some (Inr False, set_eng e st)))"

section \<open>Columns\<close>

text \<open>The checks all columns begin with: whether the column is null.\<close>

definition my_column :: "nat \<Rightarrow> ('e, 'd) mysql_stmt \<Rightarrow> bool result" where
  "my_column idx st =
     (if \<not> idx < length (my_result_buffer st) then Inl HkuException
      else if my_result_error st ! idx then Inl HkuException
      else Inr (my_result_is_null st ! idx))"

definition my_columnInt64 :: "nat \<Rightarrow> ('e, 'd) mysql_stmt \<Rightarrow> u64 result" where
  "my_columnInt64 idx st =
     bind_result (my_column idx st) (\<lambda>is_null. if is_null then Inr 0
     else case (ms_type (my_result_bind st ! idx), my_result_buffer st ! idx) of
        (TypeLonglong, MyInt64 w) \<Rightarrow> Inr w
      | (TypeLong, MyInt32 w) \<Rightarrow> Inr (word_of_int (sint w))
      | (TypeTiny, MyInt8 w) \<Rightarrow> Inr (word_of_int (sint w))
      | (TypeShort, MyInt16 w) \<Rightarrow> Inr (word_of_int (sint w))
      | _ \<Rightarrow> Inl HkuException)"

definition my_columnDouble :: "(int \<Rightarrow> 'd) \<Rightarrow> nat \<Rightarrow> ('e, 'd) mysql_stmt \<Rightarrow> 'd result" where
  "my_columnDouble to_double idx st =
     bind_result (my_column idx st) (\<lambda>is_null. if is_null then Inr (to_double 0)
     else case (ms_type (my_result_bind st ! idx), my_result_buffer st ! idx) of
        (TypeDouble, MyDouble d) \<Rightarrow> Inr d
      | (TypeFloat, MyFloat d) \<Rightarrow> Inr d
      | _ \<Rightarrow> Inl HkuException)"

text \<open>
  \<open>boost::any_cast\<close> of a pointer returns a null pointer for another type, which these functions
  dereference: \<open>None\<close>.
\<close>

definition my_datetime_of :: "('b, 'p, 'u) datetime_ops \<Rightarrow> my_time \<Rightarrow> 'p datetime result" where
  "my_datetime_of X tm =
     (case (case mt_kind tm of
        TimestampDatetime \<Rightarrow>
          let millisec = mt_second_part tm div 1000; microsec = mt_second_part tm - millisec * 1000 in
          dt_full X (mt_year tm) (mt_month tm) (mt_day tm) (mt_hour tm) (mt_minute tm) (mt_second tm) millisec microsec
      | TimestampDate \<Rightarrow> dt_ymd X (mt_year tm) (mt_month tm) (mt_day tm)
      | TimestampOther \<Rightarrow> Inl HkuException) of
        Inl e \<Rightarrow> Inl HkuException | Inr d \<Rightarrow> Inr d)"

definition my_columnDatetime :: "('b, 'p, 'u) datetime_ops \<Rightarrow> nat \<Rightarrow> ('e, 'd) mysql_stmt \<Rightarrow>
    'p datetime result option" where
  "my_columnDatetime X idx st =
     (case my_column idx st of
        Inl e \<Rightarrow> Some (Inl e)
      | Inr is_null \<Rightarrow> if is_null then Some (Inr (dt_Null X))
          else (case my_result_buffer st ! idx of MyTime tm \<Rightarrow> Some (my_datetime_of X tm) | _ \<Rightarrow> None))"

definition my_columnText :: "nat \<Rightarrow> ('e, 'd) mysql_stmt \<Rightarrow> string result option" where
  "my_columnText idx st =
     (case my_column idx st of
        Inl e \<Rightarrow> Some (Inl e)
      | Inr is_null \<Rightarrow> if is_null then Some (Inr [])
          else let n = my_result_length st ! idx in
            (case my_result_buffer st ! idx of
               MyChars s \<Rightarrow> if n \<le> length s then Some (Inr (take n s)) else None
             | _ \<Rightarrow> if n = 0 then Some (Inr []) else None))"

definition my_columnBlob :: "nat \<Rightarrow> ('e, 'd) mysql_stmt \<Rightarrow> string result option" where
  "my_columnBlob = my_columnText"

definition my_columnBlobChars :: "nat \<Rightarrow> ('e, 'd) mysql_stmt \<Rightarrow> string result option" where
  "my_columnBlobChars idx st =
     (case my_column idx st of
        Inl e \<Rightarrow> Some (Inl e)
      | Inr is_null \<Rightarrow> if is_null then Some (Inr [])
          else let n = my_result_length st ! idx in
            (case my_result_buffer st ! idx of
               MyChars s \<Rightarrow> if n \<le> length s then Some (Inr (take n s)) else None
             | _ \<Rightarrow> None))"

definition my_getNumColumns :: "('e, 'd) mysql_api \<Rightarrow> ('e, 'd) mysql_stmt \<Rightarrow> nat" where
  "my_getNumColumns A st = mysql_stmt_field_count A (eng st)"

definition my_getLastRowid :: "('e, 'd) mysql_api \<Rightarrow> ('e, 'd) mysql_stmt \<Rightarrow> u64" where
  "my_getLastRowid A st = mysql_stmt_insert_id A (eng st)"

text \<open>\<open>tableExist\<close>: whatever goes wrong counts as no table.\<close>

definition my_tableExist :: "('e, 'd) mysql_api \<Rightarrow> bool \<Rightarrow> string \<Rightarrow> 'e mysql_conn \<Rightarrow>
    (bool \<times> 'e mysql_conn) option" where
  "my_tableExist A old_client table c =
     (case my_new A old_client (''SELECT 1 FROM '' @ table @ '' LIMIT 1;'') c of
        None \<Rightarrow> None
      | Some (Inl (e, c)) \<Rightarrow> Some (False, c)
      | Some (Inr st) \<Rightarrow> (case my_stmt_exec A st of (err, st) \<Rightarrow> Some (err = None, my_conn st)))"

section \<open>What is sent\<close>

text \<open>Every slot points into the buffers.\<close>

definition my_params_ok :: "('e, 'd) mysql_stmt \<Rightarrow> bool" where
  "my_params_ok st \<longleftrightarrow>
     (\<forall>b \<in> set (my_param_bind st). \<forall>k. ms_buffer b = Some k \<longrightarrow> k < length (my_param_buffer st))"

lemma push_param_sends:
  assumes "my_params_ok st" "idx < length (my_param_bind st)"
  shows "\<exists>st'. my_push_param ty v len idx st = (None, st') \<and> my_params_ok st' \<and>
    length (my_param_buffer st') = length (my_param_buffer st) + 1 \<and>
    my_sent st' = (my_sent st)[idx := (ty, Some v, case len of None \<Rightarrow> ms_length (my_param_bind st ! idx) | Some n \<Rightarrow> n)]"
proof -
  let ?l = "case len of None \<Rightarrow> ms_length (my_param_bind st ! idx) | Some n \<Rightarrow> n"
  let ?b = "(my_param_bind st ! idx)\<lparr>ms_type := ty, ms_buffer := Some (length (my_param_buffer st)), ms_length := ?l\<rparr>"
  define st' where "st' = st\<lparr>my_param_buffer := my_param_buffer st @ [v],
    my_param_bind := (my_param_bind st)[idx := ?b]\<rparr>"
  have "my_params_ok st'"
    using assms(1) set_update_subset_insert [of "my_param_bind st" idx ?b]
    by (fastforce simp: my_params_ok_def st'_def)
  moreover have "my_sent st' = (my_sent st)[idx := (ty, Some v, ?l)]"
  proof (rule nth_equalityI)
    show "length (my_sent st') = length ((my_sent st)[idx := (ty, Some v, ?l)])"
      by (simp add: my_sent_def st'_def)
    fix i
    assume "i < length (my_sent st')"
    then have i: "i < length (my_param_bind st)" by (simp add: my_sent_def st'_def)
    then have "ms_buffer (my_param_bind st ! i) = Some k \<Longrightarrow> k < length (my_param_buffer st)" for k
      using assms(1) nth_mem [OF i] by (auto simp only: my_params_ok_def)
    then show "my_sent st' ! i = (my_sent st)[idx := (ty, Some v, ?l)] ! i"
      using i assms(2) by (cases "i = idx"; cases "ms_buffer (my_param_bind st ! i)")
        (simp_all add: my_sent_def st'_def nth_append)
  qed
  moreover have "my_push_param ty v len idx st = (None, st')"
    using assms(2) by (simp add: my_push_param_def st'_def)
  ultimately show ?thesis by (intro exI [of _ st']) (simp add: st'_def)
qed

lemma new_params_ok: "my_new A old_client sql c = Some (Inr st) \<Longrightarrow> my_params_ok st \<and> my_param_buffer st = []"
  by (auto simp: my_new_def my_params_ok_def no_slot_def Let_def split: if_splits option.splits prod.splits)

text \<open>After a binding, the parameter \<open>idx\<close> is \<open>p\<close> and all others are as before.\<close>

definition sends_at :: "('e, 'd) mysql_stmt outcome \<Rightarrow> ('e, 'd) mysql_stmt \<Rightarrow> nat \<Rightarrow>
    my_type \<times> 'd my_value option \<times> nat \<Rightarrow> bool" where
  "sends_at r st idx p \<longleftrightarrow> (\<exists>st'. r = (None, st') \<and> my_params_ok st' \<and>
     length (my_param_bind st') = length (my_param_bind st) \<and> my_sent st' = (my_sent st)[idx := p])"

lemma sent_length: "length (my_sent st) = length (my_param_bind st)"
  by (simp add: my_sent_def)

lemma sends_atI:
  "r = (None, st') \<Longrightarrow> my_params_ok st' \<Longrightarrow> my_sent st' = (my_sent st)[idx := p] \<Longrightarrow> sends_at r st idx p"
  using sent_length [of st] sent_length [of st'] by (simp add: sends_at_def)

lemma push_param_at:
  assumes "my_params_ok st" "idx < length (my_param_bind st)"
  shows "sends_at (my_push_param ty v (Some n) idx st) st idx (ty, Some v, n)"
    and "sends_at (my_push_param ty v None idx st) st idx (ty, Some v, snd (snd (my_sent st ! idx)))"
proof -
  show "sends_at (my_push_param ty v (Some n) idx st) st idx (ty, Some v, n)"
    using push_param_sends [OF assms, of ty v "Some n"] by (auto intro: sends_atI)
  have "snd (snd (my_sent st ! idx)) = ms_length (my_param_bind st ! idx)"
    using assms(2) by (simp add: my_sent_def)
  then show "sends_at (my_push_param ty v None idx st) st idx (ty, Some v, snd (snd (my_sent st ! idx)))"
    using push_param_sends [OF assms, of ty v None] by (auto intro: sends_atI)
qed

lemma bindNull_at:
  assumes "my_params_ok st" "idx < length (my_param_bind st)"
  shows "sends_at (my_bindNull idx st) st idx (TypeNull, snd (my_sent st ! idx))"
proof -
  let ?b = "(my_param_bind st ! idx)\<lparr>ms_type := TypeNull\<rparr>"
  let ?st = "st\<lparr>my_param_bind := (my_param_bind st)[idx := ?b]\<rparr>"
  have "my_params_ok ?st"
    using assms set_update_subset_insert [of "my_param_bind st" idx ?b]
    by (fastforce simp: my_params_ok_def)
  moreover have "my_sent ?st = (my_sent st)[idx := (TypeNull, snd (my_sent st ! idx))]"
    using assms(2) by (simp add: my_sent_def map_update)
  moreover have "my_bindNull idx st = (None, ?st)" using assms(2) by (simp add: my_bindNull_def)
  ultimately show ?thesis by (auto intro: sends_atI)
qed

lemma reset_params:
  "my_param_buffer (snd (my_reset A st)) = my_param_buffer st \<and> my_param_bind (snd (my_reset A st)) = my_param_bind st"
  by (auto simp: my_reset_def set_eng_def split: prod.splits)

lemma exec_sends:
  assumes "my_stmt_exec A st = (None, st1)" "my_param_bind st \<noteq> []"
  shows "\<exists>e e1. mysql_stmt_bind_param A (my_sent st) e = (0, e1) \<and> mysql_stmt_execute A e1 = (0, eng st1)"
proof -
  obtain st2 where r: "my_reset A st = (None, st2)"
    using assms(1) by (cases "my_reset A st"; cases "fst (my_reset A st)") (auto simp: my_stmt_exec_def)
  have s: "my_sent (st2\<lparr>my_needs_reset := True\<rparr>) = my_sent st" "my_param_bind st2 = my_param_bind st"
    using reset_params [of A st] r by (simp_all add: my_sent_def)
  show ?thesis
    using assms r s by (fastforce simp: my_stmt_exec_def Let_def set_eng_def split: prod.splits if_splits)
qed

text \<open>
  Property C35: each of the bind functions makes its value what is sent for its parameter, with its
  type and length, and disturbs no other parameter, although the vector the library's pointers lead
  into is a single one that grows with every value: a number, a text or blob given as a string or a
  vector, null, and a point in time with its fields (null for the null value; nothing changes when
  one of its fields throws). A text given as a pointer and a length ignores the length and is cut at
  its first zero. An index outside the statement throws and changes nothing. What \<open>exec\<close> hands to the
  library before it executes is exactly these values.
\<close>

theorem mysql_bind_sends:
  assumes "my_params_ok st"
  shows "(idx < length (my_param_bind st) \<longrightarrow>
      sends_at (my_bindInt idx v st) st idx (TypeLonglong, Some (MyInt64 v), snd (snd (my_sent st ! idx))) \<and>
      sends_at (my_bindDouble idx d st) st idx (TypeDouble, Some (MyDouble d), snd (snd (my_sent st ! idx))) \<and>
      sends_at (my_bindText idx s st) st idx (TypeVarString, Some (MyString s), length s) \<and>
      (CHR 0x00 \<notin> set s \<longrightarrow>
        sends_at (my_bindChars idx (s @ CHR 0x00 # rest) len st) st idx (TypeVarString, Some (MyString s), length s)) \<and>
      sends_at (my_bindBlob idx s st) st idx (TypeBlob, Some (MyString s), length s) \<and>
      sends_at (my_bindBlobChars idx s st) st idx (TypeBlob, Some (MyChars s), length s) \<and>
      sends_at (my_bindNull idx st) st idx (TypeNull, snd (my_sent st ! idx)) \<and>
      (if dt_eq X t (dt_Null X)
       then sends_at (my_bindDatetime X sizeof_time idx t st) st idx (TypeNull, snd (my_sent st ! idx))
       else case my_time_of X t of
         Inr tm \<Rightarrow> sends_at (my_bindDatetime X sizeof_time idx t st) st idx (TypeDatetime, Some (MyTime tm), sizeof_time)
       | Inl e \<Rightarrow> my_bindDatetime X sizeof_time idx t st = (Some e, st))) \<and>
    (length (my_param_bind st) \<le> idx \<longrightarrow> my_bindInt idx v st = (Some HkuException, st) \<and>
      my_bindDouble idx d st = (Some HkuException, st) \<and> my_bindText idx s st = (Some HkuException, st) \<and>
      my_bindChars idx s len st = (Some HkuException, st) \<and> my_bindBlob idx s st = (Some HkuException, st) \<and>
      my_bindBlobChars idx s st = (Some HkuException, st) \<and> my_bindNull idx st = (Some HkuException, st) \<and>
      my_bindDatetime X sizeof_time idx t st = (Some HkuException, st)) \<and>
    (my_stmt_exec A st = (None, st1) \<and> my_param_bind st \<noteq> [] \<longrightarrow>
      (\<exists>e e1. mysql_stmt_bind_param A (my_sent st) e = (0, e1) \<and> mysql_stmt_execute A e1 = (0, eng st1)))"
proof (intro conjI impI)
  assume i: "idx < length (my_param_bind st)"
  note p = push_param_at [OF assms i]
  show "sends_at (my_bindInt idx v st) st idx (TypeLonglong, Some (MyInt64 v), snd (snd (my_sent st ! idx)))"
    unfolding my_bindInt_def by (rule p)
  show "sends_at (my_bindDouble idx d st) st idx (TypeDouble, Some (MyDouble d), snd (snd (my_sent st ! idx)))"
    unfolding my_bindDouble_def by (rule p)
  show "sends_at (my_bindText idx s st) st idx (TypeVarString, Some (MyString s), length s)"
    unfolding my_bindText_def by (rule p)
  show "sends_at (my_bindBlob idx s st) st idx (TypeBlob, Some (MyString s), length s)"
    unfolding my_bindBlob_def by (rule p)
  show "sends_at (my_bindBlobChars idx s st) st idx (TypeBlob, Some (MyChars s), length s)"
    unfolding my_bindBlobChars_def by (rule p)
  show "sends_at (my_bindNull idx st) st idx (TypeNull, snd (my_sent st ! idx))" by (rule bindNull_at [OF assms i])
  show "sends_at (my_bindChars idx (s @ CHR 0x00 # rest) len st) st idx (TypeVarString, Some (MyString s), length s)"
    if "CHR 0x00 \<notin> set s"
  proof -
    have "takeWhile (\<lambda>c. c \<noteq> CHR 0x00) (s @ CHR 0x00 # rest) = s"
      using that by (induction s) auto
    then show ?thesis using p(1) by (simp add: my_bindChars_def Let_def)
  qed
  show "if dt_eq X t (dt_Null X)
     then sends_at (my_bindDatetime X sizeof_time idx t st) st idx (TypeNull, snd (my_sent st ! idx))
     else case my_time_of X t of
       Inr tm \<Rightarrow> sends_at (my_bindDatetime X sizeof_time idx t st) st idx (TypeDatetime, Some (MyTime tm), sizeof_time)
     | Inl e \<Rightarrow> my_bindDatetime X sizeof_time idx t st = (Some e, st)"
    using i p(1) bindNull_at [OF assms i] by (simp add: my_bindDatetime_def split: sum.split)
next
  assume "my_stmt_exec A st = (None, st1) \<and> my_param_bind st \<noteq> []"
  then show "\<exists>e e1. mysql_stmt_bind_param A (my_sent st) e = (0, e1) \<and> mysql_stmt_execute A e1 = (0, eng st1)"
    using exec_sends by blast
qed (simp_all add: my_bindInt_def my_bindDouble_def my_bindText_def my_bindChars_def my_bindBlob_def
    my_bindBlobChars_def my_bindNull_def my_bindDatetime_def my_push_param_def Let_def)

definition two_params :: "(unit, unit) mysql_stmt" where
  "two_params = \<lparr>my_conn = \<lparr>my_open = True, my_engine = ()\<rparr>, my_needs_reset = False, my_has_bind_result = False,
     my_has_meta = False, my_param_bind = [no_slot, no_slot\<lparr>ms_type := TypeLonglong, ms_buffer := Some 0\<rparr>],
     my_param_buffer = [MyInt64 5], my_result_bind = [], my_result_buffer = [], my_result_length = [],
     my_result_is_null = [], my_result_error = []\<rparr>"

text \<open>A text bound to the first of two parameters is cut; the index 2 is out of range.\<close>

theorem mysql_bind_sends_witness:
  "\<exists>st. my_bindChars 0 (''ab'' @ CHR 0x00 # ''cd'') 5 two_params = (None, st) \<and>
     my_sent st = [(TypeVarString, Some (MyString ''ab''), 2), (TypeLonglong, Some (MyInt64 5), 0)] \<and>
     my_bindDouble 2 () two_params = (Some HkuException, two_params)"
proof -
  have ok: "my_params_ok two_params" by (simp add: two_params_def my_params_ok_def no_slot_def)
  have i: "0 < length (my_param_bind two_params)" "length (my_param_bind two_params) \<le> 2"
    by (simp_all add: two_params_def)
  have sent: "my_sent two_params = [(TypeOther 0, None, 0), (TypeLonglong, Some (MyInt64 5), 0)]"
    by (simp add: two_params_def my_sent_def no_slot_def)
  have "CHR 0x00 \<notin> set ''ab''" by simp
  then have "sends_at (my_bindChars 0 (''ab'' @ CHR 0x00 # ''cd'') 5 two_params) two_params 0
      (TypeVarString, Some (MyString ''ab''), 2)" "my_bindDouble 2 () two_params = (Some HkuException, two_params)"
    using mysql_bind_sends [OF ok, where idx = 0 and s = "''ab''" and rest = "''cd''" and len = 5 and X = std_calendar]
      mysql_bind_sends [OF ok, where idx = 2 and d = "()" and X = std_calendar] i
    by (simp_all add: numeral_2_eq_2)
  then show ?thesis using sent by (auto simp: sends_at_def)
qed

section \<open>Points in time\<close>

lemma time_digits:
  fixes t :: int
  shows "((t div 3600000000 * 60 + t div 60000000 mod 60) * 60 + t div 1000000 mod 60) * 1000000 +
    (t div 1000 mod 1000 * 1000 + t mod 1000) = t"
proof -
  define a where "a = t div 1000"
  define b where "b = a div 1000"
  define c where "c = b div 60"
  have d: "t div 1000000 = b" "t div 60000000 = c" "t div 3600000000 = c div 60"
    by (simp_all add: a_def b_def c_def zdiv_zmult2_eq [symmetric])
  have e: "t = a * 1000 + t mod 1000" "a = b * 1000 + a mod 1000" "b = c * 60 + b mod 60"
    "c = c div 60 * 60 + c mod 60"
    by (simp_all only: a_def b_def c_def div_mult_mod_eq)
  have "((g * 60 + c0) * 60 + b0) * 1000000 + (a0 * 1000 + t0) = t'"
    if "t' = a' * 1000 + t0" "a' = b' * 1000 + a0" "b' = c' * 60 + b0" "c' = g * 60 + c0"
    for g c0 b0 a0 t0 t' a' b' c' :: int using that by simp
  from this [OF e] show ?thesis unfolding d a_def [symmetric] .
qed

context boost_datetime begin

lemma time_of_value:
  assumes "dt_at pv d y m dd t"
  shows "my_time_of X d = Inr \<lparr>mt_year = y, mt_month = m, mt_day = dd, mt_hour = t div 3600000000,
    mt_minute = t div 60000000 mod 60, mt_second = t div 1000000 mod 60,
    mt_second_part = t div 1000 mod 1000 * 1000 + t mod 1000, mt_kind = TimestampDatetime\<rparr>"
  by (simp add: my_time_of_def at_fields [OF assms])

lemma time_read_back:
  assumes "dt_at pv d y m dd t"
  shows "\<exists>tm d'. my_time_of X d = Inr tm \<and> my_datetime_of X tm = Inr d' \<and> pv (m_data d') = pv (m_data d)"
proof -
  have a: "boost_ymd y m dd" "0 \<le> t" "t < day_us" "pv (m_data d) = Finite (jdn y m dd * day_us + t)"
    using assms by (simp_all add: dt_at_def)
  define ms us where "ms = t div 1000 mod 1000" and "us = t mod 1000"
  have r: "0 \<le> ms" "ms \<le> 999" "0 \<le> us" "us \<le> 999" by (simp_all add: ms_def us_def zle_diff1_eq [symmetric])
  have p: "(ms * 1000 + us) div 1000 = ms" "ms * 1000 + us - ms * 1000 = us" using r by simp_all
  have h: "0 \<le> t div 3600000000" "t div 3600000000 < 24"
    using a(2,3) div_bounds(2) [of 3600000000 t 24] by (simp_all add: day_us_def pos_imp_zdiv_nonneg_iff)
  have "gives pv (dt_full X y m dd (t div 3600000000) (t div 60000000 mod 60) (t div 1000000 mod 60) ms us)
      (jdn y m dd * day_us + ((t div 3600000000 * 60 + t div 60000000 mod 60) * 60 + t div 1000000 mod 60) * 1000000 +
        ms * 1000 + us)"
    by (rule full_value [OF a(1) h _ _ _ _ r]) simp_all
  moreover have "jdn y m dd * day_us + ((t div 3600000000 * 60 + t div 60000000 mod 60) * 60 +
      t div 1000000 mod 60) * 1000000 + ms * 1000 + us = jdn y m dd * day_us + t"
    using time_digits [of t] unfolding ms_def us_def by linarith
  ultimately obtain d' where d': "dt_full X y m dd (t div 3600000000) (t div 60000000 mod 60)
      (t div 1000000 mod 60) ms us = Inr d'" "pv (m_data d') = Finite (jdn y m dd * day_us + t)"
    by (auto simp: gives_def)
  have "my_datetime_of X \<lparr>mt_year = y, mt_month = m, mt_day = dd, mt_hour = t div 3600000000,
      mt_minute = t div 60000000 mod 60, mt_second = t div 1000000 mod 60,
      mt_second_part = ms * 1000 + us, mt_kind = TimestampDatetime\<rparr> = Inr d'"
    by (simp only: my_datetime_of_def my_time.simps my_time_kind.case Let_def p d'(1) sum.case)
  then show ?thesis
    by (intro exI conjI) (rule time_of_value [OF assms], simp only: ms_def us_def, simp only: d'(2) a(4))
qed

end

text \<open>
  Property C38: a \<open>Datetime\<close> that is bound as a parameter is sent with all its fields, to the
  microsecond, and a column that holds what was sent is read back as the same point in time; the null
  value is sent as null, and a null column is read as the null value.
\<close>

theorem mysql_datetime_roundtrip:
  assumes "boost_datetime X dv pv" "my_params_ok st" "idx < length (my_param_bind st)"
  shows "(dt_at pv d y m dd t \<longrightarrow> (\<exists>tm st'. my_bindDatetime X n idx d st = (None, st') \<and>
      my_sent st' = (my_sent st)[idx := (TypeDatetime, Some (MyTime tm), n)] \<and>
      (\<forall>row k. my_column k row = Inr False \<and> my_result_buffer row ! k = MyTime tm \<longrightarrow>
         (\<exists>d'. my_columnDatetime X k row = Some (Inr d') \<and> pv (m_data d') = pv (m_data d))))) \<and>
    (dt_eq X d (dt_Null X) \<longrightarrow> my_bindDatetime X n idx d st = my_bindNull idx st) \<and>
    (\<forall>row k. my_column k row = Inr True \<longrightarrow> my_columnDatetime X k row = Some (Inr (dt_Null X)))"
proof (intro conjI impI allI)
  assume a: "dt_at pv d y m dd t"
  obtain tm d' where tm: "my_time_of X d = Inr tm" "my_datetime_of X tm = Inr d'" "pv (m_data d') = pv (m_data d)"
    using boost_datetime.time_read_back [OF assms(1) a] by blast
  have "\<not> dt_eq X d (dt_Null X)"
    using boost_datetime.finite_not_null(1) [OF assms(1)] a by (auto simp: dt_at_def)
  then have "my_bindDatetime X n idx d st = my_push_param TypeDatetime (MyTime tm) (Some n) idx st"
    using assms(3) tm(1) by (simp add: my_bindDatetime_def)
  then show "\<exists>tm st'. my_bindDatetime X n idx d st = (None, st') \<and>
      my_sent st' = (my_sent st)[idx := (TypeDatetime, Some (MyTime tm), n)] \<and>
      (\<forall>row k. my_column k row = Inr False \<and> my_result_buffer row ! k = MyTime tm \<longrightarrow>
         (\<exists>d'. my_columnDatetime X k row = Some (Inr d') \<and> pv (m_data d') = pv (m_data d)))"
    using push_param_sends [OF assms(2,3), of TypeDatetime "MyTime tm" "Some n"] tm(2,3)
    by (force simp: my_columnDatetime_def)
qed (simp_all add: my_bindDatetime_def my_columnDatetime_def)

theorem mysql_datetime_roundtrip_witness:
  "\<exists>tm st. my_bindDatetime std_calendar 48 0 \<lparr>m_data = Finite (jdn 2024 2 29 * day_us + 43200000001)\<rparr> two_params = (None, st) \<and>
     my_sent st = [(TypeDatetime, Some (MyTime tm), 48), (TypeLonglong, Some (MyInt64 5), 0)]"
proof -
  have ok: "my_params_ok two_params" by (simp add: two_params_def my_params_ok_def no_slot_def)
  have i: "0 < length (my_param_bind two_params)" by (simp add: two_params_def)
  have "dt_at (\<lambda>p. p) \<lparr>m_data = Finite (jdn 2024 2 29 * day_us + 43200000001)\<rparr> 2024 2 29 43200000001"
    by (simp add: dt_at_def boost_ymd_def valid_ymd_def month_len_def day_us_def leap_def)
  moreover have "my_sent two_params = [(TypeOther 0, None, 0), (TypeLonglong, Some (MyInt64 5), 0)]"
    by (simp add: two_params_def my_sent_def no_slot_def)
  ultimately show ?thesis
    using mysql_datetime_roundtrip [OF std.boost_datetime_axioms ok i] by fastforce
qed

section \<open>Rows of a statement\<close>

text \<open>The fields the metadata still has, one after the other.\<close>

fun fetches :: "('e, 'd) mysql_api \<Rightarrow> my_field list \<Rightarrow> 'e \<Rightarrow> 'e option" where
  "fetches A [] e = Some e"
| "fetches A (f # fs) e =
     (case mysql_fetch_field A e of (g, e) \<Rightarrow> if g = Some f then fetches A fs e else None)"

definition my_supported :: "my_field \<Rightarrow> bool" where
  "my_supported f \<longleftrightarrow> my_buffer_for f (0 :: int) \<noteq> None"

lemma buffer_for_supported: "my_supported f \<Longrightarrow> \<exists>v len. my_buffer_for f zero = Some (v, len)"
  by (cases "mf_type f") (simp_all add: my_supported_def)

text \<open>The slots from \<open>idx\<close> on point at the buffers of the same number and have the fields' types.\<close>

definition slots_at :: "nat \<Rightarrow> my_field list \<Rightarrow> my_slot list \<Rightarrow> bool" where
  "slots_at idx fs slots \<longleftrightarrow> (\<forall>i < length fs. ms_buffer (slots ! (idx + i)) = Some (idx + i) \<and>
     ms_type (slots ! (idx + i)) = mf_type (fs ! i))"

lemma slots_at_Cons:
  "slots_at idx (f # fs) slots \<longleftrightarrow> ms_buffer (slots ! idx) = Some idx \<and> ms_type (slots ! idx) = mf_type f \<and>
    slots_at (Suc idx) fs slots"
  by (auto simp: slots_at_def nth_Cons' less_Suc_eq_0_disj)

lemma bind_fields_done:
  assumes "fetches A fs (eng st) = Some e" "\<forall>f \<in> set fs. my_supported f"
    and "idx + length fs = length (my_result_bind st)" "length (my_result_buffer st) = idx"
  shows "\<exists>st'. my_bind_fields A zero idx (length fs) st = (None, st') \<and> eng st' = e \<and>
    length (my_result_buffer st') = idx + length fs \<and> length (my_result_bind st') = length (my_result_bind st) \<and>
    slots_at idx fs (my_result_bind st') \<and> (\<forall>i < idx. my_result_bind st' ! i = my_result_bind st ! i)"
  using assms
proof (induction fs arbitrary: idx st)
  case Nil
  then show ?case by (simp add: slots_at_def)
next
  case (Cons f fs)
  obtain e1 where f: "mysql_fetch_field A (eng st) = (Some f, e1)" "fetches A fs e1 = Some e"
    using Cons.prems(1) by (auto split: prod.splits if_splits)
  obtain v len where v: "my_buffer_for f zero = Some (v, len)"
    using Cons.prems(2) buffer_for_supported by (metis list.set_intros(1))
  let ?slot = "(my_result_bind st ! idx)\<lparr>ms_type := mf_type f\<rparr>"
  let ?s = "?slot\<lparr>ms_buffer := Some idx, ms_length := (case len of None \<Rightarrow> ms_length ?slot | Some k \<Rightarrow> k)\<rparr>"
  define st1 where "st1 = (set_eng e1 st)\<lparr>my_result_buffer := my_result_buffer st @ [v],
    my_result_bind := (my_result_bind st)[idx := ?s]\<rparr>"
  have b: "my_bind_fields A zero idx (length (f # fs)) st = my_bind_fields A zero (Suc idx) (length fs) st1"
    using f(1) v Cons.prems(4) by (simp add: Let_def st1_def set_eng_def del: my_buffer_for.simps)
  have i: "idx < length (my_result_bind st)" using Cons.prems(3) by simp
  have "\<exists>st'. my_bind_fields A zero (Suc idx) (length fs) st1 = (None, st') \<and> eng st' = e \<and>
      length (my_result_buffer st') = Suc idx + length fs \<and>
      length (my_result_bind st') = length (my_result_bind st1) \<and>
      slots_at (Suc idx) fs (my_result_bind st') \<and> (\<forall>i < Suc idx. my_result_bind st' ! i = my_result_bind st1 ! i)"
    by (rule Cons.IH) (use f(2) Cons.prems in \<open>simp_all add: st1_def set_eng_def\<close>)
  then obtain st' where st': "my_bind_fields A zero (Suc idx) (length fs) st1 = (None, st')" "eng st' = e"
    "length (my_result_buffer st') = Suc idx + length fs"
    "length (my_result_bind st') = length (my_result_bind st1)"
    "slots_at (Suc idx) fs (my_result_bind st')" "\<forall>i < Suc idx. my_result_bind st' ! i = my_result_bind st1 ! i"
    by blast
  have "my_result_bind st' ! idx = ?s" using st'(6) i by (simp add: st1_def)
  then have "slots_at idx (f # fs) (my_result_bind st')" using st'(5) by (simp add: slots_at_Cons)
  moreover have "\<forall>i < idx. my_result_bind st' ! i = my_result_bind st ! i" using st'(6) by (simp add: st1_def)
  ultimately show ?case
    using st'(1-4) b by (intro exI [of _ st']) (simp add: st1_def)
qed

lemma write_all:
  assumes "slots_at idx fs slots" "length slots = idx + length fs" "length cells = length fs"
    and "length before = idx" "length buffer = length fs"
  shows "my_write (drop idx slots) cells (before @ buffer) = Some (before @ map cl_value cells)"
  using assms
proof (induction fs arbitrary: idx cells before buffer)
  case (Cons f fs)
  obtain c cs where c: "cells = c # cs" using Cons.prems(3) by (cases cells) simp_all
  obtain b bs where b: "buffer = b # bs" using Cons.prems(5) by (cases buffer) simp_all
  have d: "drop idx slots = slots ! idx # drop (Suc idx) slots"
    using Cons.prems(2) by (simp add: Cons_nth_drop_Suc)
  have "my_write (drop (Suc idx) slots) cs ((before @ [cl_value c]) @ bs) =
      Some ((before @ [cl_value c]) @ map cl_value cs)"
    by (rule Cons.IH) (use Cons.prems c b in \<open>simp_all add: slots_at_Cons\<close>)
  then show ?case
    using Cons.prems(1,4) by (simp add: d c b slots_at_Cons list_update_append)
qed simp

text \<open>
  What is meant to be read from a cell, by the type of its field: the integer, the floating point
  number and the characters that the library wrote.
\<close>

fun cell_int :: "my_type \<Rightarrow> 'd my_value \<Rightarrow> int option" where
  "cell_int TypeLonglong (MyInt64 w) = Some (sint w)"
| "cell_int TypeLong (MyInt32 w) = Some (sint w)"
| "cell_int TypeShort (MyInt16 w) = Some (sint w)"
| "cell_int TypeTiny (MyInt8 w) = Some (sint w)"
| "cell_int _ _ = None"

fun cell_double :: "my_type \<Rightarrow> 'd my_value \<Rightarrow> 'd option" where
  "cell_double TypeDouble (MyDouble d) = Some d"
| "cell_double TypeFloat (MyFloat d) = Some d"
| "cell_double _ _ = None"

definition reads_value :: "('b, 'p, 'u) datetime_ops \<Rightarrow> (int \<Rightarrow> 'd) \<Rightarrow> my_type \<Rightarrow> 'd my_cell \<Rightarrow> nat \<Rightarrow>
    ('e, 'd) mysql_stmt \<Rightarrow> bool" where
  "reads_value X to_double ty c k st \<longleftrightarrow>
     (case cell_int ty (cl_value c) of
        Some n \<Rightarrow> (\<exists>w. my_columnInt64 k st = Inr w \<and> sint w = n)
      | None \<Rightarrow> my_columnInt64 k st = Inl HkuException) \<and>
     my_columnDouble to_double k st =
       (case cell_double ty (cl_value c) of Some d \<Rightarrow> Inr d | None \<Rightarrow> Inl HkuException) \<and>
     (\<forall>s rest. cl_value c = MyChars (s @ rest) \<and> cl_length c = length s \<longrightarrow>
        my_columnText k st = Some (Inr s) \<and> my_columnBlob k st = Some (Inr s) \<and>
        my_columnBlobChars k st = Some (Inr s)) \<and>
     (\<forall>tm ms us. cl_value c = MyTime tm \<and> mt_kind tm = TimestampDatetime \<and>
        mt_second_part tm = 1000 * ms + us \<and> 0 \<le> us \<and> us < 1000 \<longrightarrow>
        my_columnDatetime X k st =
          Some (case dt_full X (mt_year tm) (mt_month tm) (mt_day tm) (mt_hour tm) (mt_minute tm) (mt_second tm) ms us of
                  Inl e \<Rightarrow> Inl HkuException | Inr d \<Rightarrow> Inr d)) \<and>
     (\<forall>tm. cl_value c = MyTime tm \<and> mt_kind tm = TimestampDate \<longrightarrow>
        my_columnDatetime X k st =
          Some (case dt_ymd X (mt_year tm) (mt_month tm) (mt_day tm) of Inl e \<Rightarrow> Inl HkuException | Inr d \<Rightarrow> Inr d))"

definition reads_null :: "('b, 'p, 'u) datetime_ops \<Rightarrow> (int \<Rightarrow> 'd) \<Rightarrow> nat \<Rightarrow> ('e, 'd) mysql_stmt \<Rightarrow> bool" where
  "reads_null X to_double k st \<longleftrightarrow> my_columnInt64 k st = Inr 0 \<and> my_columnDouble to_double k st = Inr (to_double 0) \<and>
     my_columnText k st = Some (Inr []) \<and> my_columnBlob k st = Some (Inr []) \<and>
     my_columnBlobChars k st = Some (Inr []) \<and> my_columnDatetime X k st = Some (Inr (dt_Null X))"

definition reads_throw :: "('b, 'p, 'u) datetime_ops \<Rightarrow> (int \<Rightarrow> 'd) \<Rightarrow> nat \<Rightarrow> ('e, 'd) mysql_stmt \<Rightarrow> bool" where
  "reads_throw X to_double k st \<longleftrightarrow> my_columnInt64 k st = Inl HkuException \<and>
     my_columnDouble to_double k st = Inl HkuException \<and> my_columnText k st = Some (Inl HkuException) \<and>
     my_columnBlob k st = Some (Inl HkuException) \<and> my_columnBlobChars k st = Some (Inl HkuException) \<and>
     my_columnDatetime X k st = Some (Inl HkuException)"

definition reads_cell :: "('b, 'p, 'u) datetime_ops \<Rightarrow> (int \<Rightarrow> 'd) \<Rightarrow> my_type \<Rightarrow> 'd my_cell \<Rightarrow> nat \<Rightarrow>
    ('e, 'd) mysql_stmt \<Rightarrow> bool" where
  "reads_cell X to_double ty c k st \<longleftrightarrow>
     (if cl_error c then reads_throw X to_double k st
      else if cl_null c then reads_null X to_double k st
      else reads_value X to_double ty c k st)"

lemma int64_of_cell:
  assumes "my_column k st = Inr False"
  shows "case cell_int (ms_type (my_result_bind st ! k)) (my_result_buffer st ! k) of
      Some n \<Rightarrow> (\<exists>w. my_columnInt64 k st = Inr w \<and> sint w = n)
    | None \<Rightarrow> my_columnInt64 k st = Inl HkuException"
proof -
  have "sint (scast (a :: u32) :: u64) = sint a" "sint (scast (b :: 16 word) :: u64) = sint b"
    "sint (scast (c :: byte) :: u64) = sint c" for a b c
    by (simp_all add: sint_up_scast is_up)
  then show ?thesis
    using assms by (cases "ms_type (my_result_bind st ! k)"; cases "my_result_buffer st ! k")
      (simp_all add: my_columnInt64_def)
qed

lemma double_of_cell:
  assumes "my_column k st = Inr False"
  shows "my_columnDouble to_double k st =
    (case cell_double (ms_type (my_result_bind st ! k)) (my_result_buffer st ! k) of Some d \<Rightarrow> Inr d | None \<Rightarrow> Inl HkuException)"
  using assms by (cases "ms_type (my_result_bind st ! k)"; cases "my_result_buffer st ! k")
    (simp_all add: my_columnDouble_def)

lemma datetime_of_cell:
  assumes "my_column k st = Inr False" "my_result_buffer st ! k = MyTime tm"
  shows "mt_kind tm = TimestampDatetime \<Longrightarrow> mt_second_part tm = 1000 * ms + us \<Longrightarrow> 0 \<le> us \<Longrightarrow> us < 1000 \<Longrightarrow>
      my_columnDatetime X k st =
        Some (case dt_full X (mt_year tm) (mt_month tm) (mt_day tm) (mt_hour tm) (mt_minute tm) (mt_second tm) ms us of
                Inl e \<Rightarrow> Inl HkuException | Inr d \<Rightarrow> Inr d)"
    and "mt_kind tm = TimestampDate \<Longrightarrow> my_columnDatetime X k st =
        Some (case dt_ymd X (mt_year tm) (mt_month tm) (mt_day tm) of Inl e \<Rightarrow> Inl HkuException | Inr d \<Rightarrow> Inr d)"
  using assms by (simp_all add: my_columnDatetime_def my_datetime_of_def Let_def)

lemma column_reads_cell:
  assumes "k < length (my_result_buffer st)" "my_result_buffer st ! k = cl_value c"
    and "my_result_error st ! k = cl_error c" "my_result_is_null st ! k = cl_null c"
    and "my_result_length st ! k = cl_length c" "ms_type (my_result_bind st ! k) = ty"
  shows "reads_cell X to_double ty c k st"
proof -
  have "my_column k st = (if cl_error c then Inl HkuException else Inr (cl_null c))"
    using assms by (simp add: my_column_def)
  then consider "cl_error c" "my_column k st = Inl HkuException"
    | "\<not> cl_error c" "cl_null c" "my_column k st = Inr True"
    | "\<not> cl_error c" "\<not> cl_null c" "my_column k st = Inr False"
    by (cases "cl_error c"; cases "cl_null c") simp_all
  then show ?thesis
  proof cases
    case 3
    note numbers = int64_of_cell [OF 3(3), unfolded assms(2,6)] double_of_cell [OF 3(3), unfolded assms(2,6)]
    have "reads_value X to_double ty c k st"
      unfolding reads_value_def
    proof (intro conjI allI impI)
      show "case cell_int ty (cl_value c) of
          Some n \<Rightarrow> (\<exists>w. my_columnInt64 k st = Inr w \<and> sint w = n)
        | None \<Rightarrow> my_columnInt64 k st = Inl HkuException" by (rule numbers)
      show "my_columnDouble to_double k st =
          (case cell_double ty (cl_value c) of Some d \<Rightarrow> Inr d | None \<Rightarrow> Inl HkuException)" by (rule numbers)
    qed (use assms(2,5) 3(3) datetime_of_cell [OF 3(3), where X = X]
        in \<open>simp_all add: my_columnText_def my_columnBlob_def my_columnBlobChars_def Let_def\<close>)
    then show ?thesis using 3 by (simp add: reads_cell_def)
  qed (simp_all add: reads_cell_def reads_throw_def reads_null_def my_columnInt64_def my_columnDouble_def
      my_columnText_def my_columnBlob_def my_columnBlobChars_def my_columnDatetime_def)
qed

text \<open>The buffers are bound, one for each field.\<close>

definition fields_bound :: "my_field list \<Rightarrow> ('e, 'd) mysql_stmt \<Rightarrow> bool" where
  "fields_bound fs st \<longleftrightarrow> my_has_bind_result st \<and> slots_at 0 fs (my_result_bind st) \<and>
     length (my_result_bind st) = length fs \<and> length (my_result_buffer st) = length fs"

lemma bound_fetch_reads:
  assumes "my_bound A zero st = (None, st1)" "fields_bound fs st1"
    and "mysql_stmt_fetch A (eng st1) = (0, cells, e)" "length cells = length fs"
  shows "\<exists>st'. my_moveNext A zero st = Some (Inr True, st') \<and> fields_bound fs st' \<and> eng st' = e \<and>
    (\<forall>k < length fs. reads_cell X to_double (mf_type (fs ! k)) (cells ! k) k st')"
proof -
  have f: "slots_at 0 fs (my_result_bind st1)" "length (my_result_bind st1) = length fs"
    "length (my_result_buffer st1) = length fs" "my_has_bind_result st1"
    using assms(2) by (simp_all add: fields_bound_def)
  have w: "my_write (my_result_bind st1) cells (my_result_buffer st1) = Some (map cl_value cells)"
    using write_all [OF f(1), of cells "[]" "my_result_buffer st1"] f(2,3) assms(4) by simp
  define st' where "st' = (set_eng e st1)\<lparr>my_result_buffer := map cl_value cells,
    my_result_length := map cl_length cells, my_result_is_null := map cl_null cells,
    my_result_error := map cl_error cells\<rparr>"
  have "my_moveNext A zero st = Some (Inr True, st')"
    using assms(1,3) w by (simp add: my_moveNext_def st'_def set_eng_def)
  moreover have "fields_bound fs st'" "eng st' = e"
    using f assms(4) by (simp_all add: fields_bound_def st'_def set_eng_def)
  moreover have "reads_cell X to_double (mf_type (fs ! k)) (cells ! k) k st'" if "k < length fs" for k
    by (rule column_reads_cell) (use that f assms(4) in \<open>simp_all add: st'_def set_eng_def slots_at_def\<close>)
  ultimately show ?thesis by blast
qed

text \<open>
  Property C21: the first fetch of a statement binds a buffer for every column, and after it, as after
  every further fetch of the same execution, each column is read as what the library wrote for it: an
  integer of any width with its value, a floating point number, as many characters as the library
  says, as text or as a blob, and a point in time with its fields. A null column is read as zero, the
  empty text or the null time, and one with an error, or a number of another type, throws. The second
  execution of the statement clears the buffers; the metadata has been read to its end, so no new ones
  are bound, and the next fetch that finds a row writes through the old, dangling pointers, while
  every column throws.
\<close>

theorem mysql_rows:
  assumes "my_has_meta st" "mysql_stmt_store_result A e2 = (0, e3)"
    and "mysql_stmt_fetch A e3 = (0, cells, e4)" "length cells = length (my_result_bind st)"
  shows "(\<not> my_has_bind_result st \<and> my_result_buffer st = [] \<and> fetches A fs (eng st) = Some e1 \<and>
      length fs = length (my_result_bind st) \<and> (\<forall>f \<in> set fs. my_supported f) \<and>
      (\<forall>slots. mysql_stmt_bind_result A slots e1 = (0, e2)) \<longrightarrow>
        (\<exists>st'. my_moveNext A zero st = Some (Inr True, st') \<and> fields_bound fs st' \<and> eng st' = e4 \<and>
           (\<forall>k < length fs. reads_cell X to_double (mf_type (fs ! k)) (cells ! k) k st'))) \<and>
    (fields_bound fs st \<and> eng st = e3 \<longrightarrow>
        (\<exists>st'. my_moveNext A zero st = Some (Inr True, st') \<and> fields_bound fs st' \<and> eng st' = e4 \<and>
           (\<forall>k < length fs. reads_cell X to_double (mf_type (fs ! k)) (cells ! k) k st'))) \<and>
    (my_needs_reset st0 \<and> my_stmt_exec A st0 = (None, st) \<and> mysql_fetch_field A (eng st) = (None, e1) \<and>
      mysql_stmt_bind_result A (my_result_bind st) e1 = (0, e2) \<and>
      (\<exists>j s slots. my_result_bind st = s # slots \<and> ms_buffer s = Some j) \<longrightarrow>
        my_moveNext A zero st = None \<and> (\<forall>k. reads_throw X to_double k st))"
proof (intro conjI impI)
  assume a: "\<not> my_has_bind_result st \<and> my_result_buffer st = [] \<and> fetches A fs (eng st) = Some e1 \<and>
      length fs = length (my_result_bind st) \<and> (\<forall>f \<in> set fs. my_supported f) \<and>
      (\<forall>slots. mysql_stmt_bind_result A slots e1 = (0, e2))"
  obtain st1 where st1: "my_bind_fields A zero 0 (length fs) st = (None, st1)" "eng st1 = e1"
    "length (my_result_buffer st1) = length fs" "length (my_result_bind st1) = length (my_result_bind st)"
    "slots_at 0 fs (my_result_bind st1)"
    using bind_fields_done [of A fs st e1 0 zero] a by auto
  show "\<exists>st'. my_moveNext A zero st = Some (Inr True, st') \<and> fields_bound fs st' \<and> eng st' = e4 \<and>
      (\<forall>k < length fs. reads_cell X to_double (mf_type (fs ! k)) (cells ! k) k st')"
  proof (rule bound_fetch_reads)
    show "my_bound A zero st = (None, set_eng e3 (st1\<lparr>my_has_bind_result := True\<rparr>))"
      using a assms(1,2) st1(1,2) by (simp add: my_bound_def my_bindResult_def set_eng_def)
  qed (use a assms(3,4) st1 in \<open>simp_all add: fields_bound_def set_eng_def\<close>)
next
  assume a: "fields_bound fs st \<and> eng st = e3"
  show "\<exists>st'. my_moveNext A zero st = Some (Inr True, st') \<and> fields_bound fs st' \<and> eng st' = e4 \<and>
      (\<forall>k < length fs. reads_cell X to_double (mf_type (fs ! k)) (cells ! k) k st')"
    by (rule bound_fetch_reads [of A zero st st]) (use a assms(3,4) in \<open>simp_all add: fields_bound_def my_bound_def\<close>)
next
  assume a: "my_needs_reset st0 \<and> my_stmt_exec A st0 = (None, st) \<and> mysql_fetch_field A (eng st) = (None, e1) \<and>
      mysql_stmt_bind_result A (my_result_bind st) e1 = (0, e2) \<and>
      (\<exists>j s slots. my_result_bind st = s # slots \<and> ms_buffer s = Some j)"
  then have r: "my_result_buffer st = []" "\<not> my_has_bind_result st"
    by (auto simp: my_stmt_exec_def my_reset_def set_eng_def Let_def split: prod.splits if_splits)
  obtain j s slots where s: "my_result_bind st = s # slots" "ms_buffer s = Some j" using a by blast
  obtain c cs where c: "cells = c # cs" using assms(4) s(1) by (cases cells) simp_all
  have "my_bound A zero st = (None, set_eng e3 (st\<lparr>my_has_bind_result := True\<rparr>))"
    using a assms(1,2) r(2) s(1) by (simp add: my_bound_def my_bindResult_def set_eng_def)
  then show "my_moveNext A zero st = None"
    using assms(3) s c r(1) by (simp add: my_moveNext_def set_eng_def)
  show "\<forall>k. reads_throw X to_double k st"
    using r(1) by (simp add: reads_throw_def my_columnInt64_def my_columnDouble_def my_columnText_def
        my_columnBlob_def my_columnBlobChars_def my_columnDatetime_def my_column_def)
qed

section \<open>The end of a transaction\<close>

text \<open>
  Property C25: \<open>commit\<close> reports success when the server has committed, and also when the connection was
  lost before: \<open>exec\<close> reconnects, sends COMMIT again in the new session, where it does nothing, and
  the work of the transaction is gone. Without a handle, \<open>exec\<close> throws after it has connected.
\<close>

theorem mysql_commit:
  assumes "mysql_query A ''COMMIT'' (my_engine c) = (ret, e1)"
    and "\<forall>e. my_results A e = Some (None, e)" "cm e1 = (if ret = 0 then w else cm (my_engine c))"
    and "mysql_ping A e1 = (0, e2)" "cm e2 = cm e1" "mysql_query A ''COMMIT'' e2 = (0, e3)" "cm e3 = cm e2"
  shows "(my_open c \<longrightarrow> (\<exists>n c'. my_commit A old_client c = Some (Inr n, c') \<and>
      cm (my_engine c') = (if ret = 0 then w else cm (my_engine c)))) \<and>
    (\<not> my_open c \<and> my_tryConnect A old_client c = (True, c1) \<longrightarrow>
      my_commit A old_client c = Some (Inl HkuException, c1))"
proof (intro conjI impI)
  assume o: "my_open c"
  show "\<exists>n c'. my_commit A old_client c = Some (Inr n, c') \<and>
      cm (my_engine c') = (if ret = 0 then w else cm (my_engine c))"
    using o assms by (cases "ret = 0") (auto simp: my_commit_def my_exec_def my_query_def my_ping_def Let_def)
next
  assume "\<not> my_open c \<and> my_tryConnect A old_client c = (True, c1)"
  then show "my_commit A old_client c = Some (Inl HkuException, c1)"
    by (simp add: my_commit_def my_exec_def)
qed

text \<open>A server with one table of numbers, to whose sessions the state belongs.\<close>

record my_server =
  srv_rows :: "nat list"
  srv_work :: "nat list option"
  srv_lost :: bool
  srv_fields :: "my_field list"
  srv_left :: "nat list"

definition number_field :: my_field where
  "number_field = \<lparr>mf_type = TypeLong, mf_length = 11\<rparr>"

definition text_field :: my_field where
  "text_field = \<lparr>mf_type = TypeVarString, mf_length = 3\<rparr>"

definition toy_cells :: "nat \<Rightarrow> unit my_cell list" where
  "toy_cells n =
     [\<lparr>cl_value = MyInt32 (- word_of_nat n), cl_length = 4, cl_null = False, cl_error = False\<rparr>,
      \<lparr>cl_value = MyChars (''ab'' @ [CHR 0x00, CHR 0x00]), cl_length = 2, cl_null = False, cl_error = False\<rparr>]"

definition toy_mysql :: "(my_server, unit) mysql_api" where
  "toy_mysql = \<lparr>mysql_init = (\<lambda>e. (True, e)), mysql_options = (\<lambda>_ e. (0, e)), mysql_real_connect = (\<lambda>e. (True, e)),
     mysql_set_character_set = (\<lambda>s e. (0, e)), mysql_close = (\<lambda>e. e), mysql_errno = (\<lambda>e. 0),
     mysql_ping = (\<lambda>e. (0, e\<lparr>srv_lost := False\<rparr>)),
     mysql_query = (\<lambda>sql e. if srv_lost e then (1, e\<lparr>srv_work := None\<rparr>)
       else if sql = ''COMMIT'' then (0, e\<lparr>srv_rows := (case srv_work e of None \<Rightarrow> srv_rows e | Some w \<Rightarrow> w),
         srv_work := None\<rparr>) else (0, e)),
     mysql_affected_rows = (\<lambda>e. 0), mysql_store_result = (\<lambda>e. (False, e)), mysql_field_count = (\<lambda>e. 0),
     mysql_next_result = (\<lambda>e. (- 1, e)), mysql_stmt_init = (\<lambda>e. (True, e)), mysql_stmt_prepare = (\<lambda>s e. (0, e)),
     mysql_stmt_close = (\<lambda>e. e), mysql_stmt_param_count = (\<lambda>e. 0),
     mysql_stmt_result_metadata = (\<lambda>e. (Some 2, e\<lparr>srv_fields := [number_field, text_field]\<rparr>)),
     mysql_stmt_reset = (\<lambda>e. (0, e)), mysql_stmt_bind_param = (\<lambda>p e. (0, e)),
     mysql_stmt_execute = (\<lambda>e. (0, e\<lparr>srv_left := srv_rows e\<rparr>)),
     mysql_fetch_field = (\<lambda>e. case srv_fields e of [] \<Rightarrow> (None, e) | f # fs \<Rightarrow> (Some f, e\<lparr>srv_fields := fs\<rparr>)),
     mysql_stmt_bind_result = (\<lambda>s e. (0, e)), mysql_stmt_store_result = (\<lambda>e. (0, e)),
     mysql_stmt_fetch = (\<lambda>e. case srv_left e of [] \<Rightarrow> (100, [], e)
       | n # ns \<Rightarrow> (0, toy_cells n, e\<lparr>srv_left := ns\<rparr>)),
     mysql_stmt_insert_id = (\<lambda>e. 0), mysql_stmt_field_count = (\<lambda>e. 2)\<rparr>"

definition toy_server :: "bool \<Rightarrow> my_server" where
  "toy_server lost = \<lparr>srv_rows = [7], srv_work = Some [7, 8], srv_lost = lost, srv_fields = [], srv_left = []\<rparr>"

lemma toy_results: "my_results toy_mysql e = Some (None, e)"
  by (subst my_results.simps) (simp add: toy_mysql_def)

theorem mysql_commit_witness:
  "\<exists>n c. my_commit toy_mysql False \<lparr>my_open = True, my_engine = toy_server True\<rparr> = Some (Inr n, c) \<and>
     srv_rows (my_engine c) = [7]"
  using mysql_commit [of toy_mysql "\<lparr>my_open = True, my_engine = toy_server True\<rparr>" 1
      "(toy_server True)\<lparr>srv_work := None\<rparr>" srv_rows "[7, 8]"
      "(toy_server True)\<lparr>srv_work := None, srv_lost := False\<rparr>"
      "(toy_server True)\<lparr>srv_work := None, srv_lost := False\<rparr>"]
    toy_results
  by (simp add: toy_mysql_def toy_server_def)

definition toy_stmt :: "my_field list \<Rightarrow> my_slot list \<Rightarrow> bool \<Rightarrow> nat list \<Rightarrow> (my_server, unit) mysql_stmt" where
  "toy_stmt fs slots used left = \<lparr>my_conn = \<lparr>my_open = True,
       my_engine = (toy_server False)\<lparr>srv_fields := fs, srv_left := left\<rparr>\<rparr>,
     my_needs_reset = True, my_has_bind_result = used, my_has_meta = True, my_param_bind = [], my_param_buffer = [],
     my_result_bind = slots, my_result_buffer = [], my_result_length = [0, 0], my_result_is_null = [False, False],
     my_result_error = [False, False]\<rparr>"

abbreviation toy_slots :: "my_slot list" where
  "toy_slots \<equiv> [\<lparr>ms_type = TypeLong, ms_buffer = Some 0, ms_length = 0\<rparr>,
     \<lparr>ms_type = TypeVarString, ms_buffer = Some 1, ms_length = 4\<rparr>]"

text \<open>The row with -7 and a text is read; after the second execution its fetch writes into freed memory.\<close>

theorem mysql_rows_witness:
  "(\<exists>st w. my_moveNext toy_mysql () (toy_stmt [number_field, text_field] [no_slot, no_slot] False [7]) =
        Some (Inr True, st) \<and>
      my_columnInt64 0 st = Inr w \<and> sint w = - 7 \<and> my_columnText 1 st = Some (Inr ''ab'')) \<and>
   my_stmt_exec toy_mysql (toy_stmt [] toy_slots True []) = (None, toy_stmt [] toy_slots False [7]) \<and>
   my_moveNext toy_mysql () (toy_stmt [] toy_slots False [7]) = None"
proof (intro conjI)
  let ?fs = "[number_field, text_field]"
  let ?st = "toy_stmt ?fs [no_slot, no_slot] False [7]"
  let ?e = "(toy_server False)\<lparr>srv_fields := [], srv_left := [7]\<rparr>"
  let ?f = "(toy_server False)\<lparr>srv_fields := [], srv_left := []\<rparr>"
  have lib: "mysql_stmt_store_result toy_mysql ?e = (0, ?e)" "mysql_stmt_fetch toy_mysql ?e = (0, toy_cells 7, ?f)"
    by (simp_all add: toy_mysql_def toy_server_def)
  have first: "my_has_meta ?st" "length (toy_cells 7) = length (my_result_bind ?st)"
    by (simp_all add: toy_stmt_def toy_cells_def)
  have fields: "\<not> my_has_bind_result ?st \<and> my_result_buffer ?st = [] \<and> fetches toy_mysql ?fs (eng ?st) = Some ?e \<and>
      length ?fs = length (my_result_bind ?st) \<and> (\<forall>f \<in> set ?fs. my_supported f) \<and>
      (\<forall>slots. mysql_stmt_bind_result toy_mysql slots ?e = (0, ?e))"
    by (simp add: toy_stmt_def toy_mysql_def my_supported_def number_field_def text_field_def toy_server_def)
  obtain st where st: "my_moveNext toy_mysql () ?st = Some (Inr True, st)"
    and reads: "\<forall>k < length ?fs. reads_cell std_calendar (\<lambda>_. ()) (mf_type (?fs ! k)) (toy_cells 7 ! k) k st"
    using mysql_rows [OF first(1) lib first(2), of ?fs ?e "()" std_calendar "\<lambda>_. ()"] fields by blast
  have "sint (- 7 :: u32) = - 7" by simp
  then have "\<exists>w. my_columnInt64 0 st = Inr w \<and> sint w = - 7"
    using reads [rule_format, of 0] by (simp add: reads_cell_def reads_value_def toy_cells_def number_field_def)
  moreover have "my_columnText 1 st = Some (Inr ''ab'')"
    using reads [rule_format, of 1] by (simp add: reads_cell_def reads_value_def toy_cells_def)
  ultimately show "\<exists>st w. my_moveNext toy_mysql () ?st = Some (Inr True, st) \<and>
      my_columnInt64 0 st = Inr w \<and> sint w = - 7 \<and> my_columnText 1 st = Some (Inr ''ab'')"
    using st by blast
  show x: "my_stmt_exec toy_mysql (toy_stmt [] toy_slots True []) = (None, toy_stmt [] toy_slots False [7])"
    by (simp add: my_stmt_exec_def my_reset_def toy_stmt_def toy_mysql_def toy_server_def set_eng_def Let_def)
  have second: "my_has_meta (toy_stmt [] toy_slots False [7])"
    "length (toy_cells 7) = length (my_result_bind (toy_stmt [] toy_slots False [7]))"
    by (simp_all add: toy_stmt_def toy_cells_def)
  show "my_moveNext toy_mysql () (toy_stmt [] toy_slots False [7]) = None"
    using mysql_rows [OF second(1) lib second(2), of ?fs ?e "()" std_calendar "\<lambda>_. ()" "toy_stmt [] toy_slots True []"] x
    by (simp add: toy_stmt_def toy_mysql_def toy_server_def)
qed

end
