(* ===== verification/MQThreadPool.thy ===== *)
theory MQThreadPool
  imports ThreadPool
begin

text \<open>
  \<open>thread/MQThreadPool.h\<close>: a pool with a queue for each worker, in the vocabulary of \<open>ThreadPool\<close>. A
  submission looks at the workers one after the other, their stop flag and the size of their queue,
  and pushes to the queue it has chosen; other threads move in between.
\<close>

section \<open>State\<close>

text \<open>
  A caller of \<open>submit\<close>: at the flag of a worker, with the smallest size so far (\<open>None\<close> for the largest
  \<open>size_t\<close>) and the index that goes with it; at the size of that worker's queue; about to push.
\<close>

datatype submit_pc = ScanFlag nat "nat option" nat | ScanSize nat "nat option" nat | Chosen nat

text \<open>
  The caller of \<open>join\<close> or \<open>stop\<close>: at the stop flag or the queue of a worker, waiting for the threads, or
  at the end.
\<close>

datatype mq_ctl_pc = MqFree | MqJoinFlag nat | MqJoinPush nat | MqJoinWait | MqJoinClear
  | MqStopFlag nat | MqStopPush nat | MqStopWait | MqStopClear

record 'a mq_pool =
  mq_done :: bool
  mq_worker_num :: nat
  mq_until_empty :: bool
  mq_queues :: "nat \<Rightarrow> 'a task list"
  mq_need_stop :: "nat \<Rightarrow> interrupt_flag"
  mq_threads :: "nat \<Rightarrow> 'a worker_pc"
  mq_ctl :: mq_ctl_pc
  mq_inflight :: "'a \<Rightarrow> submit_pc option"
  mq_submitted :: "'a set"
  mq_called :: "'a set"
  mq_finished :: "'a set"
  mq_dropped :: "'a set"
  mq_before :: "'a set"
  mq_joined :: bool

definition mq_new :: "nat \<Rightarrow> bool \<Rightarrow> 'a mq_pool" where
  "mq_new n until_empty = \<lparr>mq_done = False, mq_worker_num = n, mq_until_empty = until_empty,
     mq_queues = (\<lambda>_. []), mq_need_stop = (\<lambda>_. flag_new), mq_threads = (\<lambda>_. AtLoop), mq_ctl = MqFree,
     mq_inflight = (\<lambda>_. None), mq_submitted = {}, mq_called = {}, mq_finished = {}, mq_dropped = {},
     mq_before = {}, mq_joined = False\<rparr>"

definition mq_remain_task_count :: "'a mq_pool \<Rightarrow> nat" where
  "mq_remain_task_count s = sum_list (map (\<lambda>i. tsq_size (mq_queues s i)) [0..<mq_worker_num s])"

section \<open>Operations\<close>

definition mq_submit :: "'a \<Rightarrow> 'a mq_pool \<Rightarrow> 'a mq_pool result" where
  "mq_submit a s =
     (if mq_done s then Inl LogicError
      else Inr (s\<lparr>mq_inflight := (mq_inflight s)(a \<mapsto> ScanFlag 0 None 0),
                  mq_submitted := insert a (mq_submitted s)\<rparr>))"

definition mq_submit_step :: "'a \<Rightarrow> 'a mq_pool \<Rightarrow> 'a mq_pool option" where
  "mq_submit_step a s =
     (case mq_inflight s a of
        None \<Rightarrow> None
      | Some (ScanFlag i min_count index) \<Rightarrow>
          Some (s\<lparr>mq_inflight := (mq_inflight s)(a \<mapsto>
            (if \<not> i < mq_worker_num s then Chosen index
             else if \<not> flag_isSet (mq_need_stop s i) then ScanSize i min_count index
             else ScanFlag (i + 1) min_count index))\<rparr>)
      | Some (ScanSize i min_count index) \<Rightarrow>
          (let cur_count = tsq_size (mq_queues s i) in
           Some (s\<lparr>mq_inflight := (mq_inflight s)(a \<mapsto>
             (if cur_count = 0 then Chosen i
              else if (case min_count of None \<Rightarrow> True | Some m \<Rightarrow> cur_count < m)
              then ScanFlag (i + 1) (Some cur_count) i
              else ScanFlag (i + 1) min_count index))\<rparr>))
      | Some (Chosen index) \<Rightarrow>
          Some (s\<lparr>mq_queues := (mq_queues s)(index := tsq_push (Task a) (mq_queues s index)),
                  mq_inflight := (mq_inflight s)(a := None)\<rparr>))"

definition mq_worker :: "nat \<Rightarrow> 'a mq_pool \<Rightarrow> 'a mq_pool option" where
  "mq_worker i s =
     (case mq_threads s i of
        AtLoop \<Rightarrow> Some (s\<lparr>mq_threads := (mq_threads s)
          (i := if \<not> flag_isSet (mq_need_stop s i) \<or> \<not> mq_done s then AtPop else Exited)\<rparr>)
      | AtPop \<Rightarrow>
          (case tsq_wait_and_pop (mq_queues s i) of
             None \<Rightarrow> None
           | Some (task, q) \<Rightarrow>
               Some (s\<lparr>mq_queues := (mq_queues s)(i := q), mq_threads := (mq_threads s)(i := Holding task)\<rparr>))
      | Holding task \<Rightarrow>
          (if isNullTask task
           then Some (s\<lparr>mq_need_stop := (mq_need_stop s)(i := flag_set (mq_need_stop s i)),
                        mq_threads := (mq_threads s)(i := Exited)\<rparr>)
           else case call_task task of
             None \<Rightarrow> Some (s\<lparr>mq_threads := (mq_threads s)(i := AtLoop)\<rparr>)
           | Some a \<Rightarrow> Some (s\<lparr>mq_threads := (mq_threads s)(i := Running a), mq_called := insert a (mq_called s)\<rparr>))
      | Running a \<Rightarrow> Some (s\<lparr>mq_threads := (mq_threads s)(i := AtLoop), mq_finished := insert a (mq_finished s)\<rparr>)
      | Exited \<Rightarrow> None)"

definition mq_all_exited :: "'a mq_pool \<Rightarrow> bool" where
  "mq_all_exited s \<longleftrightarrow> (\<forall>i \<in> set [0..<mq_worker_num s]. mq_threads s i = Exited)"

definition mq_join :: "'a mq_pool \<Rightarrow> 'a mq_pool" where
  "mq_join s =
     (if mq_done s then s
      else s\<lparr>mq_done := \<not> mq_until_empty s,
             mq_ctl := (if mq_until_empty s then MqJoinPush 0 else MqJoinFlag 0),
             mq_before := {a \<in> mq_submitted s. mq_inflight s a = None}\<rparr>)"

definition mq_stop :: "'a mq_pool \<Rightarrow> 'a mq_pool" where
  "mq_stop s = (if mq_done s then s else s\<lparr>mq_done := True, mq_ctl := MqStopFlag 0\<rparr>)"

definition mq_set_flag :: "nat \<Rightarrow> 'a mq_pool \<Rightarrow> 'a mq_pool" where
  "mq_set_flag k s = s\<lparr>mq_need_stop := (mq_need_stop s)(k := flag_set (mq_need_stop s k))\<rparr>"

definition mq_push_null :: "nat \<Rightarrow> 'a mq_pool \<Rightarrow> 'a mq_pool" where
  "mq_push_null k s = s\<lparr>mq_queues := (mq_queues s)(k := tsq_push NullTask (mq_queues s k))\<rparr>"

definition mq_clear :: "'a mq_pool \<Rightarrow> 'a mq_pool" where
  "mq_clear s = s\<lparr>mq_queues := (\<lambda>i. if i < mq_worker_num s then tsq_clear (mq_queues s i) else mq_queues s i),
     mq_dropped := mq_dropped s \<union> (\<Union>i \<in> {..<mq_worker_num s}. set (real_tasks (mq_queues s i)))\<rparr>"

text \<open>\<open>join\<close> leaves what is in the queues where it is; \<open>stop\<close> clears them.\<close>

definition mq_control :: "'a mq_pool \<Rightarrow> 'a mq_pool option" where
  "mq_control s =
     (case mq_ctl s of
        MqFree \<Rightarrow> None
      | MqJoinFlag k \<Rightarrow>
          (if k < mq_worker_num s then Some ((mq_set_flag k s)\<lparr>mq_ctl := MqJoinFlag (k + 1)\<rparr>)
           else Some (s\<lparr>mq_ctl := MqJoinPush 0\<rparr>))
      | MqJoinPush k \<Rightarrow>
          (if k < mq_worker_num s then Some ((mq_push_null k s)\<lparr>mq_ctl := MqJoinPush (k + 1)\<rparr>)
           else Some (s\<lparr>mq_ctl := MqJoinWait\<rparr>))
      | MqJoinWait \<Rightarrow> (if mq_all_exited s then Some (s\<lparr>mq_ctl := MqJoinClear\<rparr>) else None)
      | MqJoinClear \<Rightarrow> Some (s\<lparr>mq_done := True, mq_ctl := MqFree, mq_joined := True\<rparr>)
      | MqStopFlag k \<Rightarrow>
          (if k < mq_worker_num s then Some ((mq_set_flag k s)\<lparr>mq_ctl := MqStopPush k\<rparr>)
           else Some (s\<lparr>mq_ctl := MqStopWait\<rparr>))
      | MqStopPush k \<Rightarrow> Some ((mq_push_null k s)\<lparr>mq_ctl := MqStopFlag (k + 1)\<rparr>)
      | MqStopWait \<Rightarrow> (if mq_all_exited s then Some (s\<lparr>mq_ctl := MqStopClear\<rparr>) else None)
      | MqStopClear \<Rightarrow> Some ((mq_clear s)\<lparr>mq_ctl := MqFree\<rparr>))"

inductive mq_step :: "'a mq_pool \<Rightarrow> 'a mq_pool \<Rightarrow> bool" where
  submit: "a \<notin> mq_submitted s \<Longrightarrow> mq_submit a s = Inr s' \<Longrightarrow> mq_step s s'"
| scan: "mq_submit_step a s = Some s' \<Longrightarrow> mq_step s s'"
| worker: "i < mq_worker_num s \<Longrightarrow> mq_worker i s = Some s' \<Longrightarrow> mq_step s s'"
| join: "mq_ctl s = MqFree \<Longrightarrow> mq_step s (mq_join s)"
| stop: "mq_ctl s = MqFree \<Longrightarrow> mq_step s (mq_stop s)"
| control: "mq_control s = Some s' \<Longrightarrow> mq_step s s'"

inductive mq_reach :: "nat \<Rightarrow> bool \<Rightarrow> 'a mq_pool \<Rightarrow> bool" for n until_empty where
  init: "mq_reach n until_empty (mq_new n until_empty)"
| step: "mq_reach n until_empty s \<Longrightarrow> mq_step s s' \<Longrightarrow> mq_reach n until_empty s'"

section \<open>Where the tasks are\<close>

text \<open>Submissions choose a worker of the pool; every accepted task is somewhere.\<close>

fun pc_ok :: "nat \<Rightarrow> submit_pc \<Rightarrow> bool" where
  "pc_ok n (ScanFlag i m index) \<longleftrightarrow> index < n"
| "pc_ok n (ScanSize i m index) \<longleftrightarrow> i < n \<and> index < n"
| "pc_ok n (Chosen index) \<longleftrightarrow> index < n"

definition mq_placed :: "'a mq_pool \<Rightarrow> 'a \<Rightarrow> bool" where
  "mq_placed s a \<longleftrightarrow> mq_inflight s a \<noteq> None \<or> (\<exists>i < mq_worker_num s. Task a \<in> set (mq_queues s i)) \<or>
     (\<exists>i < mq_worker_num s. mq_threads s i = Holding (Task a)) \<or> a \<in> mq_called s \<or> a \<in> mq_dropped s"

definition mq_accounted :: "'a mq_pool \<Rightarrow> bool" where
  "mq_accounted s \<longleftrightarrow> (\<forall>a \<in> mq_submitted s. mq_placed s a) \<and>
     (\<forall>a \<in> mq_called s. a \<in> mq_finished s \<or> (\<exists>i < mq_worker_num s. mq_threads s i = Running a)) \<and>
     (\<forall>a pc. mq_inflight s a = Some pc \<longrightarrow> pc_ok (mq_worker_num s) pc)"

lemma mq_params:
  "mq_step s s' \<Longrightarrow> mq_worker_num s' = mq_worker_num s \<and> mq_until_empty s' = mq_until_empty s"
  by (induction rule: mq_step.induct)
    (auto simp: mq_submit_def mq_submit_step_def mq_worker_def mq_control_def mq_join_def mq_stop_def
      mq_push_null_def mq_set_flag_def mq_clear_def Let_def split: option.splits submit_pc.splits worker_pc.splits
      mq_ctl_pc.splits if_splits)

lemma mq_reach_params: "mq_reach n u s \<Longrightarrow> mq_worker_num s = n \<and> mq_until_empty s = u"
  by (induction rule: mq_reach.induct) (auto simp: mq_new_def dest: mq_params)

lemma acc_submit:
  assumes "mq_accounted s" "0 < mq_worker_num s" "mq_submit a s = Inr s'"
  shows "mq_accounted s'"
proof -
  have s': "s' = s\<lparr>mq_inflight := (mq_inflight s)(a \<mapsto> ScanFlag 0 None 0), mq_submitted := insert a (mq_submitted s)\<rparr>"
    using assms(3) by (simp add: mq_submit_def split: if_splits)
  have "mq_placed s' b" if "b = a \<or> mq_placed s b" for b using that by (auto simp: s' mq_placed_def)
  then show ?thesis using assms(1,2) by (simp add: mq_accounted_def s')
qed

lemma acc_thread:
  assumes "mq_accounted s" "\<And>b. mq_placed s b \<Longrightarrow> mq_placed s' b" "mq_submitted s' = mq_submitted s"
    and "mq_inflight s' = mq_inflight s" "mq_worker_num s' = mq_worker_num s"
    and "mq_threads s' = (mq_threads s)(i := p)" "mq_finished s \<subseteq> mq_finished s'"
    and "\<And>b. b \<in> mq_called s' \<Longrightarrow> b \<in> mq_called s \<or> (p = Running b \<and> i < mq_worker_num s)"
    and "\<And>b. mq_threads s i = Running b \<Longrightarrow> b \<in> mq_finished s'"
  shows "mq_accounted s'"
proof -
  note acc = assms(1) [unfolded mq_accounted_def]
  have "b \<in> mq_finished s' \<or> (\<exists>j < mq_worker_num s. mq_threads s' j = Running b)" if "b \<in> mq_called s'" for b
    using assms(8) [OF that]
  proof
    assume "b \<in> mq_called s"
    then consider "b \<in> mq_finished s" | j where "j < mq_worker_num s" "mq_threads s j = Running b" using acc by blast
    then show ?thesis
    proof cases
      case 2
      then show ?thesis using assms(6,9) by (cases "j = i") auto
    qed (use assms(7) in blast)
  next
    assume "p = Running b \<and> i < mq_worker_num s"
    then show ?thesis using assms(6) by (intro disjI2 exI [of _ i]) simp
  qed
  then show ?thesis using acc assms(2-5) by (simp add: mq_accounted_def)
qed

lemma acc_inflight:
  assumes "mq_accounted s" "pc_ok (mq_worker_num s) pc"
  shows "mq_accounted (s\<lparr>mq_inflight := (mq_inflight s)(a \<mapsto> pc)\<rparr>)"
proof -
  have "mq_placed (s\<lparr>mq_inflight := (mq_inflight s)(a \<mapsto> pc)\<rparr>) b" if "mq_placed s b" for b
    using that by (auto simp: mq_placed_def)
  then show ?thesis using assms by (simp add: mq_accounted_def)
qed

lemma acc_scan:
  assumes "mq_accounted s" "mq_submit_step a s = Some s'"
  shows "mq_accounted s'"
proof -
  note acc = assms(1) [unfolded mq_accounted_def]
  obtain pc where pc: "mq_inflight s a = Some pc" using assms(2) by (auto simp: mq_submit_step_def split: option.splits)
  then have ok: "pc_ok (mq_worker_num s) pc" using acc by blast
  show ?thesis
  proof (cases pc)
    case (Chosen index)
    have s': "s' = s\<lparr>mq_queues := (mq_queues s)(index := mq_queues s index @ [Task a]),
        mq_inflight := (mq_inflight s)(a := None)\<rparr>"
      using assms(2) pc Chosen by (simp add: mq_submit_step_def tsq_push_def)
    have i: "index < mq_worker_num s" using ok Chosen by simp
    have "mq_placed s' b" if "mq_placed s b" for b
    proof (cases "b = a")
      case True
      then show ?thesis using i by (auto simp: s' mq_placed_def)
    next
      case False
      with that show ?thesis by (auto simp: s' mq_placed_def)
    qed
    then show ?thesis using acc by (auto simp: mq_accounted_def s')
  next
    case (ScanFlag i m index)
    then show ?thesis using assms(2) pc ok by (auto simp: mq_submit_step_def intro!: acc_inflight [OF assms(1)])
  next
    case (ScanSize i m index)
    then show ?thesis
      using assms(2) pc ok by (auto simp: mq_submit_step_def Let_def intro!: acc_inflight [OF assms(1)])
  qed
qed

lemma acc_worker:
  assumes "mq_accounted s" "i < mq_worker_num s" "mq_worker i s = Some s'"
  shows "mq_accounted s'"
proof -
  note acc = assms(1) [unfolded mq_accounted_def]
  have other: "mq_placed s' b" if b: "mq_placed s b"
    and keep: "mq_inflight s' = mq_inflight s" "mq_called s \<subseteq> mq_called s'" "mq_dropped s' = mq_dropped s"
      "mq_worker_num s' = mq_worker_num s"
    and q: "\<And>j. j < mq_worker_num s \<Longrightarrow> Task b \<in> set (mq_queues s j) \<Longrightarrow>
      Task b \<in> set (mq_queues s' j) \<or> mq_threads s' j = Holding (Task b)"
    and h: "\<And>j. j < mq_worker_num s \<Longrightarrow> mq_threads s j = Holding (Task b) \<Longrightarrow>
      mq_threads s' j = Holding (Task b) \<or> b \<in> mq_called s'" for b
    using b keep q h unfolding mq_placed_def by (metis subsetD)
  show ?thesis
  proof (cases "mq_threads s i")
    case AtPop
    with assms(3) obtain t q where tq: "mq_queues s i = t # q"
      "s' = s\<lparr>mq_queues := (mq_queues s)(i := q), mq_threads := (mq_threads s)(i := Holding t)\<rparr>"
      by (cases "mq_queues s i") (auto simp: mq_worker_def)
    have "mq_placed s' b" if "mq_placed s b" for b
      by (rule other [OF that]) (use tq AtPop in \<open>auto split: if_splits\<close>)
    then show ?thesis using tq(2) AtPop by (intro acc_thread [OF assms(1), where i = i and p = "Holding t"]) auto
  next
    case (Holding t)
    show ?thesis
    proof (cases t)
      case NullTask
      with Holding assms(3) have s': "s' = s\<lparr>mq_need_stop := (mq_need_stop s)(i := flag_set (mq_need_stop s i)),
          mq_threads := (mq_threads s)(i := Exited)\<rparr>" by (simp add: mq_worker_def)
      have "mq_placed s' b" if "mq_placed s b" for b
        by (rule other [OF that]) (use s' Holding NullTask in \<open>auto split: if_splits\<close>)
      then show ?thesis using s' Holding by (intro acc_thread [OF assms(1), where i = i and p = Exited]) auto
    next
      case (Task a)
      with Holding assms(3) have s': "s' = s\<lparr>mq_threads := (mq_threads s)(i := Running a),
          mq_called := insert a (mq_called s)\<rparr>" by (simp add: mq_worker_def)
      have "mq_placed s' b" if "mq_placed s b" for b
        by (rule other [OF that]) (use s' Holding Task in \<open>auto split: if_splits\<close>)
      then show ?thesis using s' Holding assms(2)
        by (intro acc_thread [OF assms(1), where i = i and p = "Running a"]) auto
    qed
  next
    case (Running a)
    with assms(3) have s': "s' = s\<lparr>mq_threads := (mq_threads s)(i := AtLoop),
        mq_finished := insert a (mq_finished s)\<rparr>" by (simp add: mq_worker_def)
    have "mq_placed s' b" if "mq_placed s b" for b
      by (rule other [OF that]) (use s' Running in \<open>auto split: if_splits\<close>)
    then show ?thesis using s' Running by (intro acc_thread [OF assms(1), where i = i and p = AtLoop]) auto
  next
    case AtLoop
    with assms(3) obtain p where p: "s' = s\<lparr>mq_threads := (mq_threads s)(i := p)\<rparr>" by (auto simp: mq_worker_def)
    have "mq_placed s' b" if "mq_placed s b" for b
      by (rule other [OF that]) (use p AtLoop in \<open>auto split: if_splits\<close>)
    then show ?thesis using p AtLoop by (intro acc_thread [OF assms(1), where i = i and p = p]) auto
  qed (use assms(3) in \<open>simp add: mq_worker_def\<close>)
qed

lemma acc_push_null: "mq_accounted s \<Longrightarrow> mq_accounted (mq_push_null k s)"
  by (auto simp: mq_accounted_def mq_placed_def mq_push_null_def tsq_push_def)

lemma acc_clear: "mq_accounted s \<Longrightarrow> mq_accounted (mq_clear s)"
  unfolding mq_accounted_def mq_placed_def mq_clear_def
  by (simp add: set_real_tasks) blast

lemma acc_fields:
  "mq_accounted (s\<lparr>mq_ctl := c\<rparr>) = mq_accounted s" "mq_accounted (s\<lparr>mq_done := d\<rparr>) = mq_accounted s"
  "mq_accounted (s\<lparr>mq_need_stop := f\<rparr>) = mq_accounted s" "mq_accounted (s\<lparr>mq_before := b\<rparr>) = mq_accounted s"
  "mq_accounted (s\<lparr>mq_joined := j\<rparr>) = mq_accounted s"
  by (simp_all add: mq_accounted_def mq_placed_def)

lemma acc_control: "mq_accounted s \<Longrightarrow> mq_control s = Some s' \<Longrightarrow> mq_accounted s'"
  by (auto simp: mq_control_def mq_set_flag_def acc_fields acc_push_null acc_clear split: mq_ctl_pc.splits if_splits)

lemma acc_calls: "mq_accounted s \<Longrightarrow> mq_accounted (mq_join s)" "mq_accounted s \<Longrightarrow> mq_accounted (mq_stop s)"
  by (simp_all add: mq_join_def mq_stop_def acc_fields)

lemma mq_reach_accounted:
  assumes "0 < n" "mq_reach n u s"
  shows "mq_accounted s"
  using assms(2)
proof (induction rule: mq_reach.induct)
  case init
  show ?case by (simp add: mq_accounted_def mq_new_def)
next
  case (step s s')
  note params = mq_reach_params [OF step.hyps(1)]
  from step.hyps(2) step.IH params assms(1) show ?case
    by (cases rule: mq_step.cases) (auto intro: acc_submit acc_scan acc_worker acc_control acc_calls)
qed

section \<open>What a join leaves done\<close>

text \<open>
  In a pool that runs until empty, the stop message in each queue stands behind every task pushed
  there before the call, and a worker that has met it leaves no such task in its queue.
\<close>

abbreviation mq_seen :: "'a mq_pool \<Rightarrow> nat \<Rightarrow> bool" where
  "mq_seen s i \<equiv> mq_threads s i \<in> {Exited, Holding NullTask}"

definition mq_fresh :: "'a mq_pool \<Rightarrow> bool" where
  "mq_fresh s \<longleftrightarrow> (\<forall>i < mq_worker_num s. NullTask \<notin> set (mq_queues s i) \<and> \<not> mq_seen s i) \<and> mq_dropped s = {}"

definition queue_ok :: "'a mq_pool \<Rightarrow> nat \<Rightarrow> bool" where
  "queue_ok s i \<longleftrightarrow> behind_stop (mq_queues s i) \<inter> mq_before s = {} \<and>
     (mq_seen s i \<longrightarrow> set (real_tasks (mq_queues s i)) \<inter> mq_before s = {})"

definition mq_joining :: "'a mq_pool \<Rightarrow> bool" where
  "mq_joining s \<longleftrightarrow> mq_before s \<subseteq> mq_submitted s \<and> (\<forall>a \<in> mq_before s. mq_inflight s a = None) \<and>
     mq_dropped s = {} \<and> (\<forall>i < mq_worker_num s. queue_ok s i)"

definition mq_join_inv :: "'a mq_pool \<Rightarrow> bool" where
  "mq_join_inv s \<longleftrightarrow>
     (case mq_ctl s of
        MqFree \<Rightarrow> if mq_done s then mq_joined s \<longrightarrow> mq_before s \<subseteq> mq_finished s
                   else mq_fresh s \<and> \<not> mq_joined s
      | MqJoinFlag k \<Rightarrow> False
      | MqJoinPush k \<Rightarrow> mq_joining s \<and> \<not> mq_done s \<and> \<not> mq_joined s
      | MqJoinWait \<Rightarrow> mq_joining s \<and> \<not> mq_done s \<and> \<not> mq_joined s
      | MqJoinClear \<Rightarrow> mq_joining s \<and> mq_all_exited s \<and> \<not> mq_done s \<and> \<not> mq_joined s
      | _ \<Rightarrow> mq_done s \<and> \<not> mq_joined s)"

lemma queue_okI:
  assumes "queue_ok s i" "mq_before s' = mq_before s"
    and "set (real_tasks (mq_queues s' i)) \<inter> mq_before s \<subseteq> set (real_tasks (mq_queues s i))"
    and "behind_stop (mq_queues s' i) \<inter> mq_before s \<subseteq> behind_stop (mq_queues s i)"
    and "mq_seen s' i \<Longrightarrow> mq_seen s i \<or> set (real_tasks (mq_queues s' i)) \<inter> mq_before s = {}"
  shows "queue_ok s' i"
  using assms unfolding queue_ok_def by blast

lemma joining_worker:
  assumes "mq_joining s" "\<not> mq_done s" "i < mq_worker_num s" "mq_worker i s = Some s'"
  shows "mq_joining s'"
proof -
  note j = assms(1) [unfolded mq_joining_def]
  have other: "mq_joining s'" if "mq_before s' = mq_before s" "mq_submitted s' = mq_submitted s"
    "mq_inflight s' = mq_inflight s" "mq_dropped s' = mq_dropped s" "mq_worker_num s' = mq_worker_num s"
    "\<And>k. k \<noteq> i \<Longrightarrow> mq_queues s' k = mq_queues s k \<and> mq_threads s' k = mq_threads s k" "queue_ok s' i"
  proof -
    have "queue_ok s' k" if "k < mq_worker_num s" for k
      using that j \<open>queue_ok s' i\<close> \<open>\<And>k. k \<noteq> i \<Longrightarrow> mq_queues s' k = mq_queues s k \<and> mq_threads s' k = mq_threads s k\<close>
        \<open>mq_before s' = mq_before s\<close>
      by (cases "k = i") (simp_all add: queue_ok_def)
    then show ?thesis using j that by (simp add: mq_joining_def)
  qed
  have ok: "queue_ok s i" using j assms(3) by blast
  show ?thesis
  proof (cases "mq_threads s i")
    case AtPop
    with assms(4) obtain t q where q: "mq_queues s i = t # q"
      "s' = s\<lparr>mq_queues := (mq_queues s)(i := q), mq_threads := (mq_threads s)(i := Holding t)\<rparr>"
      by (cases "mq_queues s i") (auto simp: mq_worker_def)
    have "queue_ok s' i"
    proof (cases t)
      case NullTask
      then have "behind_stop q \<subseteq> set (real_tasks q)" by (auto simp: set_real_tasks dest: set_dropWhileD)
      with ok q NullTask show ?thesis by (auto simp: queue_ok_def)
    next
      case (Task a)
      with ok q show ?thesis by (auto simp: queue_ok_def)
    qed
    then show ?thesis using q by (intro other) simp_all
  next
    case (Holding t)
    show ?thesis
    proof (cases t)
      case NullTask
      with Holding assms(4) have "s' = s\<lparr>mq_need_stop := (mq_need_stop s)(i := flag_set (mq_need_stop s i)),
          mq_threads := (mq_threads s)(i := Exited)\<rparr>" by (simp add: mq_worker_def)
      then show ?thesis using ok Holding NullTask by (intro other) (simp_all add: queue_ok_def)
    next
      case (Task a)
      with Holding assms(4) have "s' = s\<lparr>mq_threads := (mq_threads s)(i := Running a),
          mq_called := insert a (mq_called s)\<rparr>" by (simp add: mq_worker_def)
      then show ?thesis using ok by (intro other) (simp_all add: queue_ok_def)
    qed
  next
    case (Running a)
    with assms(4) have "s' = s\<lparr>mq_threads := (mq_threads s)(i := AtLoop),
        mq_finished := insert a (mq_finished s)\<rparr>" by (simp add: mq_worker_def)
    then show ?thesis using ok by (intro other) (simp_all add: queue_ok_def)
  next
    case AtLoop
    with assms(2,4) have "s' = s\<lparr>mq_threads := (mq_threads s)(i := AtPop)\<rparr>" by (simp add: mq_worker_def)
    then show ?thesis using ok by (intro other) (simp_all add: queue_ok_def)
  qed (use assms(4) in \<open>simp add: mq_worker_def\<close>)
qed

lemma fresh_worker:
  assumes "mq_fresh s" "\<not> mq_done s" "i < mq_worker_num s" "mq_worker i s = Some s'"
  shows "mq_fresh s'"
  using assms
  by (fastforce simp: mq_fresh_def mq_worker_def isNullTask_iff
      split: worker_pc.splits option.splits if_splits elim: tsq_wait_and_pop.elims)

lemma join_inv_worker:
  assumes "mq_join_inv s" "i < mq_worker_num s" "mq_worker i s = Some s'"
  shows "mq_join_inv s'"
proof -
  have same: "mq_ctl s' = mq_ctl s" "mq_done s' = mq_done s" "mq_joined s' = mq_joined s"
    "mq_before s' = mq_before s" "mq_finished s \<subseteq> mq_finished s'"
    using assms(3) by (auto simp: mq_worker_def split: worker_pc.splits option.splits if_splits)
  have "mq_threads s i \<noteq> Exited" using assms(3) by (auto simp: mq_worker_def)
  then have "\<not> mq_all_exited s" using assms(2) by (auto simp: mq_all_exited_def)
  then show ?thesis
    using assms(1) joining_worker [OF _ _ assms(2,3)] fresh_worker [OF _ _ assms(2,3)] same
    by (auto simp: mq_join_inv_def split: mq_ctl_pc.splits if_splits)
qed

text \<open>Steps of submissions: they push behind whatever is in the queues, and no task of before.\<close>

lemma joining_push:
  assumes "mq_joining s" "a \<notin> mq_before s"
  shows "mq_joining (s\<lparr>mq_queues := (mq_queues s)(k := tsq_push (Task a) (mq_queues s k)),
    mq_inflight := (mq_inflight s)(a := None)\<rparr>)" (is "mq_joining ?s")
proof -
  have "queue_ok ?s i" if "i < mq_worker_num s" for i
  proof (rule queue_okI)
    show "queue_ok s i" using assms(1) that by (simp add: mq_joining_def)
    show "behind_stop (mq_queues ?s i) \<inter> mq_before s \<subseteq> behind_stop (mq_queues s i)"
      using behind_stop_snoc [of "mq_queues s k" "Task a"] assms(2) by (auto simp: tsq_push_def)
  qed (use assms(2) in \<open>auto simp: tsq_push_def\<close>)
  then show ?thesis using assms(1) by (simp add: mq_joining_def)
qed

lemma joining_inflight:
  "mq_joining s \<Longrightarrow> a \<notin> mq_before s \<Longrightarrow> mq_joining (s\<lparr>mq_inflight := (mq_inflight s)(a \<mapsto> pc)\<rparr>)"
  by (auto simp: mq_joining_def queue_ok_def)

lemma join_inv_scan:
  assumes "mq_join_inv s" "mq_submit_step a s = Some s'"
  shows "mq_join_inv s'"
proof -
  obtain pc where pc: "mq_inflight s a = Some pc" using assms(2) by (auto simp: mq_submit_step_def split: option.splits)
  have b: "mq_joining s \<Longrightarrow> a \<notin> mq_before s" using pc by (auto simp: mq_joining_def)
  consider (push) k where "s' = s\<lparr>mq_queues := (mq_queues s)(k := tsq_push (Task a) (mq_queues s k)),
      mq_inflight := (mq_inflight s)(a := None)\<rparr>"
    | (scan) pc' where "s' = s\<lparr>mq_inflight := (mq_inflight s)(a \<mapsto> pc')\<rparr>"
    using assms(2) pc by (cases pc) (auto simp: mq_submit_step_def Let_def)
  then show ?thesis
  proof cases
    case (push k)
    have "mq_fresh s'" if "mq_fresh s" using that by (auto simp: push mq_fresh_def tsq_push_def)
    with assms(1) b joining_push [of s a k] show ?thesis
      by (auto simp: mq_join_inv_def push mq_all_exited_def split: mq_ctl_pc.splits if_splits)
  next
    case (scan pc')
    have "mq_fresh s'" if "mq_fresh s" using that by (auto simp: scan mq_fresh_def)
    with assms(1) b joining_inflight [of s a pc'] show ?thesis
      by (auto simp: mq_join_inv_def scan mq_all_exited_def split: mq_ctl_pc.splits if_splits)
  qed
qed

lemma join_inv_submit:
  assumes "mq_join_inv s" "a \<notin> mq_submitted s" "mq_submit a s = Inr s'"
  shows "mq_join_inv s'"
proof -
  have s': "s' = (s\<lparr>mq_inflight := (mq_inflight s)(a \<mapsto> ScanFlag 0 None 0)\<rparr>)\<lparr>mq_submitted := insert a (mq_submitted s)\<rparr>"
    using assms(3) by (simp add: mq_submit_def split: if_splits)
  have "mq_joining s'" if j: "mq_joining s"
  proof -
    have "a \<notin> mq_before s" using j assms(2) by (auto simp: mq_joining_def)
    then show ?thesis using j by (auto simp: s' mq_joining_def queue_ok_def)
  qed
  moreover have "mq_fresh s'" if "mq_fresh s" using that by (auto simp: s' mq_fresh_def)
  ultimately show ?thesis
    using assms(1) by (auto simp: mq_join_inv_def s' mq_all_exited_def split: mq_ctl_pc.splits if_splits)
qed

lemma join_inv_join:
  assumes "mq_join_inv s" "mq_until_empty s" "mq_ctl s = MqFree"
  shows "mq_join_inv (mq_join s)"
proof (cases "mq_done s")
  case False
  then have "mq_fresh s" "\<not> mq_joined s" using assms by (simp_all add: mq_join_inv_def)
  with False assms(2) show ?thesis
    by (auto simp: mq_join_inv_def mq_join_def mq_fresh_def mq_joining_def queue_ok_def dropWhile_real)
qed (use assms in \<open>simp add: mq_join_def\<close>)

lemma join_inv_stop: "mq_join_inv s \<Longrightarrow> mq_ctl s = MqFree \<Longrightarrow> mq_join_inv (mq_stop s)"
  by (auto simp: mq_join_inv_def mq_stop_def)

lemma joining_null: "mq_joining s \<Longrightarrow> mq_joining (mq_push_null k s)"
  by (auto simp: mq_joining_def queue_ok_def mq_push_null_def tsq_push_def behind_stop_null)

lemma joining_ctl: "mq_joining (s\<lparr>mq_ctl := c\<rparr>) = mq_joining s"
  by (simp add: mq_joining_def queue_ok_def)

lemma joining_finished:
  assumes "mq_joining s" "mq_all_exited s" "mq_accounted s"
  shows "mq_before s \<subseteq> mq_finished s"
proof
  fix a assume a: "a \<in> mq_before s"
  have e: "mq_threads s i = Exited" if "i < mq_worker_num s" for i
    using assms(2) that by (simp add: mq_all_exited_def)
  have "mq_placed s a" using assms(1,3) a by (auto simp: mq_joining_def mq_accounted_def)
  moreover have "Task a \<notin> set (mq_queues s i)" if "i < mq_worker_num s" for i
  proof -
    have "set (real_tasks (mq_queues s i)) \<inter> mq_before s = {}"
      using assms(1) e [OF that] that by (simp add: mq_joining_def queue_ok_def)
    then show ?thesis using a by (auto simp: set_real_tasks)
  qed
  moreover have "mq_inflight s a = None" "a \<notin> mq_dropped s" using assms(1) a by (auto simp: mq_joining_def)
  ultimately have "a \<in> mq_called s" using e by (auto simp: mq_placed_def)
  then show "a \<in> mq_finished s" using assms(3) e by (auto simp: mq_accounted_def)
qed

lemma join_inv_control:
  assumes "mq_join_inv s" "mq_accounted s" "mq_control s = Some s'"
  shows "mq_join_inv s'"
proof (cases "mq_ctl s")
  case (MqJoinPush k)
  then have j: "mq_joining s" "\<not> mq_done s" "\<not> mq_joined s" using assms(1) by (simp_all add: mq_join_inv_def)
  consider "s' = (mq_push_null k s)\<lparr>mq_ctl := MqJoinPush (k + 1)\<rparr>" | "s' = s\<lparr>mq_ctl := MqJoinWait\<rparr>"
    using assms(3) MqJoinPush by (auto simp: mq_control_def split: if_splits)
  then show ?thesis
  proof cases
    case 1
    moreover have "\<not> mq_done (mq_push_null k s)" "\<not> mq_joined (mq_push_null k s)"
      using j by (simp_all add: mq_push_null_def)
    ultimately show ?thesis using joining_null [OF j(1), of k] by (simp add: mq_join_inv_def joining_ctl)
  qed (use j in \<open>simp add: mq_join_inv_def joining_ctl\<close>)
next
  case MqJoinWait
  with assms(1,3) show ?thesis
    by (auto simp: mq_join_inv_def mq_control_def mq_all_exited_def joining_ctl split: if_splits)
next
  case MqJoinClear
  then have j: "mq_joining s" "mq_all_exited s" using assms(1) by (simp_all add: mq_join_inv_def)
  show ?thesis
    using joining_finished [OF j assms(2)] assms(3) MqJoinClear by (auto simp: mq_join_inv_def mq_control_def)
qed (use assms in \<open>auto simp: mq_join_inv_def mq_control_def mq_push_null_def mq_set_flag_def mq_clear_def split: if_splits\<close>)

lemma mq_reach_join_inv:
  assumes "0 < n" "mq_reach n True s"
  shows "mq_join_inv s"
  using assms(2)
proof (induction rule: mq_reach.induct)
  case init
  show ?case by (simp add: mq_join_inv_def mq_new_def mq_fresh_def)
next
  case (step s s')
  note params = mq_reach_params [OF step.hyps(1)] and acc = mq_reach_accounted [OF assms(1) step.hyps(1)]
  from step.hyps(2) step.IH params acc show ?case
    by (cases rule: mq_step.cases)
      (auto intro: join_inv_submit join_inv_scan join_inv_worker join_inv_join join_inv_stop join_inv_control)
qed

section \<open>A submission that comes too late\<close>

text \<open>When every worker has left, nothing is called any more.\<close>

lemma exited_step:
  assumes "mq_step s s'" "mq_all_exited s"
  shows "mq_all_exited s' \<and> mq_called s' = mq_called s"
  using assms
proof (induction rule: mq_step.induct)
  case (worker i s s')
  then show ?case by (simp add: mq_all_exited_def mq_worker_def)
qed (auto simp: mq_all_exited_def mq_submit_def mq_submit_step_def mq_control_def mq_join_def mq_stop_def
      mq_push_null_def mq_set_flag_def mq_clear_def Let_def split: option.splits submit_pc.splits mq_ctl_pc.splits if_splits)

lemma exited_steps:
  assumes "mq_step\<^sup>*\<^sup>* s s'" "mq_all_exited s"
  shows "mq_all_exited s' \<and> mq_called s' = mq_called s"
  using assms
proof (induction rule: rtranclp_induct)
  case (step t u)
  then show ?case using exited_step [of t u] by simp
qed simp

text \<open>A pool of one worker; the caller chooses its queue only after \<open>join\<close> has made it leave.\<close>

lemma late_submission:
  "\<exists>s. mq_reach 1 True s \<and> mq_joined s \<and> mq_ctl s = MqFree \<and> mq_all_exited s \<and> mq_submitted s = {a} \<and>
     mq_called s = {} \<and> mq_queues s 0 = [Task a]"
proof -
  let ?s = "\<lambda>d q f p c pc. (mq_new 1 True)\<lparr>mq_done := d, mq_queues := (\<lambda>_. [])(0 := q),
    mq_need_stop := (\<lambda>_. flag_new)(0 := f), mq_threads := (\<lambda>_. AtLoop)(0 := p), mq_ctl := c,
    mq_inflight := (\<lambda>_. None)(a := pc), mq_submitted := {a}\<rparr>"
  have e: "{b. b = a \<and> (if b = a then Some x else None) = None} = {}" for x :: submit_pc by auto
  have "mq_submit a (mq_new 1 True) = Inr (?s False [] False AtLoop MqFree (Some (ScanFlag 0 None 0)))"
    by (simp add: mq_submit_def mq_new_def flag_new_def fun_upd_idem)
  then have "mq_reach 1 True (?s False [] False AtLoop MqFree (Some (ScanFlag 0 None 0)))"
    by (intro mq_reach.step [OF mq_reach.init] mq_step.submit [of a]) (simp_all add: mq_new_def)
  then have "mq_reach 1 True (mq_join (?s False [] False AtLoop MqFree (Some (ScanFlag 0 None 0))))"
    by (rule mq_reach.step) (rule mq_step.join, simp)
  then have "mq_reach 1 True (?s False [] False AtLoop (MqJoinPush 0) (Some (ScanFlag 0 None 0)))"
    by (simp add: mq_join_def mq_new_def e)
  then have "mq_reach 1 True (?s False [NullTask] False AtLoop (MqJoinPush 1) (Some (ScanFlag 0 None 0)))"
    by (rule mq_reach.step)
      (rule mq_step.control, simp add: mq_control_def mq_push_null_def mq_new_def tsq_push_def)
  then have "mq_reach 1 True (?s False [NullTask] False AtLoop MqJoinWait (Some (ScanFlag 0 None 0)))"
    by (rule mq_reach.step) (rule mq_step.control, simp add: mq_control_def mq_new_def)
  then have "mq_reach 1 True (?s False [NullTask] False AtPop MqJoinWait (Some (ScanFlag 0 None 0)))"
    by (rule mq_reach.step)
      (rule mq_step.worker [of 0], simp_all add: mq_worker_def mq_new_def flag_isSet_def)
  then have "mq_reach 1 True (?s False [] False (Holding NullTask) MqJoinWait (Some (ScanFlag 0 None 0)))"
    by (rule mq_reach.step) (rule mq_step.worker [of 0], simp_all add: mq_worker_def mq_new_def)
  then have "mq_reach 1 True (?s False [] True Exited MqJoinWait (Some (ScanFlag 0 None 0)))"
    by (rule mq_reach.step) (rule mq_step.worker [of 0], simp_all add: mq_worker_def mq_new_def flag_set_def)
  then have "mq_reach 1 True (?s False [] True Exited MqJoinWait (Some (ScanFlag 1 None 0)))"
    by (rule mq_reach.step)
      (rule mq_step.scan [of a], simp add: mq_submit_step_def mq_new_def flag_isSet_def)
  then have "mq_reach 1 True (?s False [] True Exited MqJoinWait (Some (Chosen 0)))"
    by (rule mq_reach.step) (rule mq_step.scan [of a], simp add: mq_submit_step_def mq_new_def)
  then have "mq_reach 1 True (?s False [] True Exited MqJoinClear (Some (Chosen 0)))"
    by (rule mq_reach.step) (rule mq_step.control, simp add: mq_control_def mq_new_def mq_all_exited_def)
  then have "mq_reach 1 True ((?s True [] True Exited MqFree (Some (Chosen 0)))\<lparr>mq_joined := True\<rparr>)"
    by (rule mq_reach.step) (rule mq_step.control, simp add: mq_control_def mq_new_def)
  then have "mq_reach 1 True ((?s True [Task a] True Exited MqFree None)\<lparr>mq_joined := True\<rparr>)"
    by (rule mq_reach.step)
      (rule mq_step.scan [of a], simp add: mq_submit_step_def mq_new_def tsq_push_def)
  then show ?thesis
    by (intro exI [of _ "(?s True [Task a] True Exited MqFree None)\<lparr>mq_joined := True\<rparr>"])
      (simp add: mq_new_def mq_all_exited_def)
qed

text \<open>The caller that pushes first: its task is called before \<open>join\<close> begins.\<close>

lemma early_submission: "\<exists>s. mq_reach 1 True s \<and> mq_joined s \<and> mq_before s = {a}"
proof -
  let ?s = "\<lambda>d q f p c pc cl fi be. (mq_new 1 True)\<lparr>mq_done := d, mq_queues := (\<lambda>_. [])(0 := q),
    mq_need_stop := (\<lambda>_. flag_new)(0 := f), mq_threads := (\<lambda>_. AtLoop)(0 := p), mq_ctl := c,
    mq_inflight := (\<lambda>_. None)(a := pc), mq_submitted := {a}, mq_called := cl, mq_finished := fi, mq_before := be\<rparr>"
  note steps = mq_submit_step_def mq_worker_def mq_control_def mq_new_def flag_new_def flag_isSet_def
  have "mq_submit a (mq_new 1 True) = Inr (?s False [] False AtLoop MqFree (Some (ScanFlag 0 None 0)) {} {} {})"
    by (simp add: mq_submit_def mq_new_def flag_new_def fun_upd_idem)
  then have "mq_reach 1 True (?s False [] False AtLoop MqFree (Some (ScanFlag 0 None 0)) {} {} {})"
    by (intro mq_reach.step [OF mq_reach.init] mq_step.submit [of a]) (simp_all add: mq_new_def)
  then have "mq_reach 1 True (?s False [] False AtLoop MqFree (Some (ScanSize 0 None 0)) {} {} {})"
    by (rule mq_reach.step) (rule mq_step.scan [of a], simp add: steps)
  then have "mq_reach 1 True (?s False [] False AtLoop MqFree (Some (Chosen 0)) {} {} {})"
    by (rule mq_reach.step) (rule mq_step.scan [of a], simp add: steps Let_def tsq_size_def)
  then have "mq_reach 1 True (?s False [Task a] False AtLoop MqFree None {} {} {})"
    by (rule mq_reach.step) (rule mq_step.scan [of a], simp add: steps tsq_push_def)
  then have "mq_reach 1 True (?s False [Task a] False AtPop MqFree None {} {} {})"
    by (rule mq_reach.step) (rule mq_step.worker [of 0], simp_all add: steps)
  then have "mq_reach 1 True (?s False [] False (Holding (Task a)) MqFree None {} {} {})"
    by (rule mq_reach.step) (rule mq_step.worker [of 0], simp_all add: steps)
  then have "mq_reach 1 True (?s False [] False (Running a) MqFree None {a} {} {})"
    by (rule mq_reach.step) (rule mq_step.worker [of 0], simp_all add: steps)
  then have "mq_reach 1 True (?s False [] False AtLoop MqFree None {a} {a} {})"
    by (rule mq_reach.step) (rule mq_step.worker [of 0], simp_all add: steps)
  then have "mq_reach 1 True (mq_join (?s False [] False AtLoop MqFree None {a} {a} {}))"
    by (rule mq_reach.step) (rule mq_step.join, simp)
  then have "mq_reach 1 True (?s False [] False AtLoop (MqJoinPush 0) None {a} {a} {a})"
    by (simp add: mq_join_def mq_new_def)
  then have "mq_reach 1 True (?s False [NullTask] False AtLoop (MqJoinPush 1) None {a} {a} {a})"
    by (rule mq_reach.step) (rule mq_step.control, simp add: steps mq_push_null_def tsq_push_def)
  then have "mq_reach 1 True (?s False [NullTask] False AtLoop MqJoinWait None {a} {a} {a})"
    by (rule mq_reach.step) (rule mq_step.control, simp add: steps)
  then have "mq_reach 1 True (?s False [NullTask] False AtPop MqJoinWait None {a} {a} {a})"
    by (rule mq_reach.step) (rule mq_step.worker [of 0], simp_all add: steps)
  then have "mq_reach 1 True (?s False [] False (Holding NullTask) MqJoinWait None {a} {a} {a})"
    by (rule mq_reach.step) (rule mq_step.worker [of 0], simp_all add: steps)
  then have "mq_reach 1 True (?s False [] True Exited MqJoinWait None {a} {a} {a})"
    by (rule mq_reach.step) (rule mq_step.worker [of 0], simp_all add: steps flag_set_def)
  then have "mq_reach 1 True (?s False [] True Exited MqJoinClear None {a} {a} {a})"
    by (rule mq_reach.step) (rule mq_step.control, simp add: steps mq_all_exited_def)
  then have "mq_reach 1 True ((?s True [] True Exited MqFree None {a} {a} {a})\<lparr>mq_joined := True\<rparr>)"
    by (rule mq_reach.step) (rule mq_step.control, simp add: steps)
  then show ?thesis
    by (intro exI [of _ "(?s True [] True Exited MqFree None {a} {a} {a})\<lparr>mq_joined := True\<rparr>"]) simp
qed

text \<open>
  Property C40: when \<open>join\<close> has returned on a pool that runs until empty, every task pushed before the
  call has been called and has finished, whatever was submitted meanwhile. A submission that passed
  the test of \<open>m_done\<close> before may still be looking for a queue then: no exception is thrown, the task
  goes to the queue of a worker that has left, and is never called.
\<close>

theorem mq_join_completes:
  assumes "0 < n"
  shows "(\<forall>s. mq_reach n True s \<and> mq_joined s \<longrightarrow> mq_before s \<subseteq> mq_finished s) \<and>
    (\<exists>s. mq_reach 1 True s \<and> mq_joined s \<and> a \<in> mq_submitted s \<and> Task a \<in> set (mq_queues s 0) \<and>
       (\<forall>s'. mq_step\<^sup>*\<^sup>* s s' \<longrightarrow> a \<notin> mq_called s'))"
proof (intro conjI allI impI)
  fix s :: "'a mq_pool"
  assume s: "mq_reach n True s \<and> mq_joined s"
  then have "mq_join_inv s" using mq_reach_join_inv [OF assms] by blast
  then show "mq_before s \<subseteq> mq_finished s"
    using s by (auto simp: mq_join_inv_def split: mq_ctl_pc.splits if_splits)
next
  obtain s where s: "mq_reach 1 True s" "mq_joined s" "mq_all_exited s" "mq_submitted s = {a}"
    "mq_called s = {}" "mq_queues s 0 = [Task a]" using late_submission [of a] by blast
  have "a \<notin> mq_called s'" if "mq_step\<^sup>*\<^sup>* s s'" for s' using exited_steps [OF that s(3)] s(5) by simp
  then show "\<exists>s. mq_reach 1 True s \<and> mq_joined s \<and> a \<in> mq_submitted s \<and> Task a \<in> set (mq_queues s 0) \<and>
       (\<forall>s'. mq_step\<^sup>*\<^sup>* s s' \<longrightarrow> a \<notin> mq_called s')"
    using s(1,2,4,6) by (intro exI [of _ s]) simp
qed

theorem mq_join_completes_witness:
  "\<exists>s. mq_reach 1 True s \<and> mq_joined s \<and> mq_before s = {0 :: nat} \<and> 0 \<in> mq_finished s"
proof -
  obtain s where s: "mq_reach 1 True s" "mq_joined s" "mq_before s = {0 :: nat}"
    using early_submission [of "0 :: nat"] by (elim exE conjE) (rule that)
  then have "mq_before s \<subseteq> mq_finished s" using conjunct1 [OF mq_join_completes [of 1], rule_format, of s] by simp
  then show ?thesis using s by (intro exI [of _ s]) simp
qed

end
