(* ===== verification/ConnectPool.thy ===== *)
theory ConnectPool
  imports HkuPrelude "HOL-Library.Multiset"
begin

text \<open>
  \<open>ConnectPool.h\<close>: the older pool of connections. Every operation holds the mutex and is one step; the
  deleter of a handed out pointer calls \<open>returnDriver\<close>. Creating a connection is user code: \<open>None\<close> is an
  exception of its constructor, which ends the program in \<open>getConnect\<close>, as that is \<open>noexcept\<close>.
\<close>

record 'c connect_pool =
  cp_maxConnect :: u64
  cp_maxIdle :: u64
  cp_count :: u64
  cp_list :: "'c list"
  cp_out :: "'c multiset"  \<comment> \<open>a record: what is handed out\<close>

definition cp_new :: "u64 \<Rightarrow> u64 \<Rightarrow> 'c connect_pool" where
  "cp_new maxConnect maxIdleConnect =
     \<lparr>cp_maxConnect = maxConnect, cp_maxIdle = maxIdleConnect, cp_count = 0, cp_list = [], cp_out = {#}\<rparr>"

definition cp_getConnect :: "'c option \<Rightarrow> 'c connect_pool \<Rightarrow> ('c option \<times> 'c connect_pool) option" where
  "cp_getConnect new P =
     (case cp_list P of
        [] \<Rightarrow>
          if 0 < cp_maxConnect P \<and> cp_maxConnect P \<le> cp_count P then Some (None, P)
          else (case new of
              None \<Rightarrow> None
            | Some c \<Rightarrow> Some (Some c, P\<lparr>cp_count := cp_count P + 1, cp_out := add_mset c (cp_out P)\<rparr>))
      | p # ps \<Rightarrow> Some (Some p, P\<lparr>cp_list := ps, cp_out := add_mset p (cp_out P)\<rparr>))"

definition cp_returnDriver :: "'c \<Rightarrow> 'c connect_pool \<Rightarrow> 'c connect_pool" where
  "cp_returnDriver c P =
     (let P = P\<lparr>cp_out := cp_out P - {#c#}\<rparr> in
      if of_nat (length (cp_list P)) < cp_maxIdle P then P\<lparr>cp_list := cp_list P @ [c]\<rparr>
      else P\<lparr>cp_count := cp_count P - 1\<rparr>)"

definition cp_idleCount :: "'c connect_pool \<Rightarrow> nat" where
  "cp_idleCount P = length (cp_list P)"

definition cp_releaseIdleConnect :: "'c connect_pool \<Rightarrow> 'c connect_pool" where
  "cp_releaseIdleConnect P = P\<lparr>cp_list := [], cp_count := cp_count P - of_nat (length (cp_list P))\<rparr>"

text \<open>
  \<open>getAndWait\<close> over what its calls of \<open>getConnect\<close> return, one every 100 milliseconds; \<open>None\<close>: still
  waiting after them. The check of the timeout stands behind the call.
\<close>

fun cp_retry :: "int \<Rightarrow> int \<Rightarrow> 'c option list \<Rightarrow> 'c result option" where
  "cp_retry timeout tries [] = None"
| "cp_retry timeout tries (r # rs) =
     (if 0 < timeout \<and> \<not> tries < timeout div 100 then Some (Inl HkuException)
      else (case r of Some c \<Rightarrow> Some (Inr c) | None \<Rightarrow> cp_retry timeout (tries + 1) rs))"

fun cp_getAndWait :: "int \<Rightarrow> 'c option list \<Rightarrow> 'c result option" where
  "cp_getAndWait timeout [] = None"
| "cp_getAndWait timeout (Some c # rs) = Some (Inr c)"
| "cp_getAndWait timeout (None # rs) = cp_retry timeout 0 rs"

inductive cp_step :: "'c connect_pool \<Rightarrow> 'c connect_pool \<Rightarrow> bool" where
  get: "cp_getConnect new P = Some (r, P') \<Longrightarrow> cp_step P P'"
| give_back: "c \<in># cp_out P \<Longrightarrow> cp_step P (cp_returnDriver c P)"
| release: "cp_step P (cp_releaseIdleConnect P)"

inductive cp_reach :: "u64 \<Rightarrow> u64 \<Rightarrow> 'c connect_pool \<Rightarrow> bool" for m i where
  init: "cp_reach m i (cp_new m i)"
| step: "cp_reach m i P \<Longrightarrow> cp_step P P' \<Longrightarrow> cp_reach m i P'"

section \<open>Accounting\<close>

text \<open>
  The counter is the number of idle and handed out connections; with a limit there are at most so
  many, and never more idle ones than allowed.
\<close>

definition cp_ok :: "u64 \<Rightarrow> u64 \<Rightarrow> 'c connect_pool \<Rightarrow> bool" where
  "cp_ok m i P \<longleftrightarrow> cp_maxConnect P = m \<and> cp_maxIdle P = i \<and>
     cp_count P = of_nat (length (cp_list P) + size (cp_out P)) \<and> length (cp_list P) \<le> unat i \<and>
     (0 < m \<longrightarrow> length (cp_list P) + size (cp_out P) \<le> unat m)"

lemma ok_get:
  assumes "cp_ok m i P" "cp_getConnect new P = Some (r, P')"
  shows "cp_ok m i P'"
proof (cases "cp_list P")
  case Nil
  then consider "P' = P"
    | c where "\<not> (0 < m \<and> m \<le> cp_count P)" "P' = P\<lparr>cp_count := cp_count P + 1, cp_out := add_mset c (cp_out P)\<rparr>"
    using assms by (auto simp: cp_getConnect_def cp_ok_def split: option.splits if_splits)
  then show ?thesis
  proof cases
    case (2 c)
    have "size (cp_out P) < unat m" if "0 < m"
    proof -
      have le: "size (cp_out P) \<le> unat m" using assms(1) Nil that by (simp add: cp_ok_def)
      then have "size (cp_out P) < 2 ^ 64" using unat_less_exp [of m] by simp
      then have "unat (cp_count P) = size (cp_out P)"
        using assms(1) Nil by (simp add: cp_ok_def unsigned_of_nat take_bit_nat_eq_self)
      moreover have "cp_count P < m" using 2(1) that by (simp add: not_le)
      ultimately show ?thesis by (simp add: word_less_nat_alt)
    qed
    then show ?thesis using assms(1) 2(2) Nil by (auto simp: cp_ok_def Suc_le_eq)
  qed (use assms(1) in simp)
next
  case (Cons p ps)
  then show ?thesis using assms by (auto simp: cp_getConnect_def cp_ok_def)
qed

lemma ok_give_back:
  assumes "cp_ok m i P" "c \<in># cp_out P"
  shows "cp_ok m i (cp_returnDriver c P)"
proof -
  obtain M where m: "cp_out P = add_mset c M" using assms(2) by (metis insert_DiffM)
  have "length (cp_list P) < unat i" if "of_nat (length (cp_list P)) < i"
  proof -
    have "length (cp_list P) < 2 ^ 64" using assms(1) unat_less_exp [of i] by (auto simp: cp_ok_def)
    then have "unat (of_nat (length (cp_list P)) :: u64) = length (cp_list P)"
      by (simp add: unsigned_of_nat take_bit_nat_eq_self)
    then show ?thesis using that by (simp add: word_less_nat_alt)
  qed
  then show ?thesis using assms(1) m by (auto simp: cp_ok_def cp_returnDriver_def Let_def)
qed

lemma ok_reach_pool: "cp_reach m i P \<Longrightarrow> cp_ok m i P"
proof (induction rule: cp_reach.induct)
  case init
  show ?case by (simp add: cp_ok_def cp_new_def)
next
  case (step P P')
  from step.hyps(2) step.IH show ?case
  proof (cases rule: cp_step.cases)
    case (get new r)
    show ?thesis by (rule ok_get [OF step.IH get])
  next
    case (give_back c)
    show ?thesis unfolding give_back(1) by (rule ok_give_back [OF step.IH give_back(2)])
  next
    case release
    have "of_nat (a + b) - of_nat a = (of_nat b :: u64)" for a b by (simp only: of_nat_add add_diff_cancel_left')
    with release show ?thesis
      using step.IH by (simp only: cp_ok_def cp_releaseIdleConnect_def) auto
  qed
qed

section \<open>Waiting\<close>

text \<open>
  With a timeout, the first connection among the first call and the following \<open>timeout / 100\<close> is
  returned; the call after them is made as well, but what it returns is thrown away.
\<close>

lemma retry_in_time:
  "\<forall>j < k. rs ! j = None \<Longrightarrow> k < length rs \<Longrightarrow> rs ! k = Some c \<Longrightarrow>
    \<not> 0 < timeout \<or> n + int k < timeout div 100 \<Longrightarrow> cp_retry timeout n rs = Some (Inr c)"
proof (induction rs arbitrary: k n)
  case (Cons r rs)
  show ?case
  proof (cases k)
    case 0
    with Cons.prems show ?thesis by auto
  next
    case (Suc j)
    have "\<forall>l < j. rs ! l = None" using Cons.prems(1) Suc by force
    then have "cp_retry timeout (n + 1) rs = Some (Inr c)"
      using Cons.IH [of j "n + 1"] Cons.prems(2-4) Suc by (simp add: algebra_simps)
    moreover have "r = None" using Cons.prems(1) Suc by force
    moreover have "\<not> (0 < timeout \<and> \<not> n < timeout div 100)" using Cons.prems(4) by auto
    ultimately show ?thesis by simp
  qed
qed simp

lemma retry_too_late:
  "\<forall>j < k. rs ! j = None \<Longrightarrow> k < length rs \<Longrightarrow> 0 < timeout \<Longrightarrow> n + int k = timeout div 100 \<Longrightarrow>
    cp_retry timeout n rs = Some (Inl HkuException)"
proof (induction rs arbitrary: k n)
  case (Cons r rs)
  show ?case
  proof (cases k)
    case 0
    with Cons.prems show ?thesis by simp
  next
    case (Suc j)
    have "\<forall>l < j. rs ! l = None" using Cons.prems(1) Suc by force
    then have "cp_retry timeout (n + 1) rs = Some (Inl HkuException)"
      using Cons.IH [of j "n + 1"] Cons.prems(2-4) Suc by simp
    moreover have "r = None" using Cons.prems(1) Suc by force
    ultimately show ?thesis by auto
  qed
qed simp

lemma connect_wait:
  assumes "0 < timeout" "\<forall>j < k. rs ! j = None" "k < length rs" "rs ! k = Some c"
  shows "int k \<le> timeout div 100 \<Longrightarrow> cp_getAndWait timeout rs = Some (Inr c)"
    and "int k = timeout div 100 + 1 \<Longrightarrow> cp_getAndWait timeout rs = Some (Inl HkuException)"
proof -
  obtain r rs' where rs: "rs = r # rs'" using assms(3) by (cases rs) simp_all
  have z: "0 \<le> timeout div 100" using assms(1) by (simp add: pos_imp_zdiv_nonneg_iff)
  have n: "r = None" "\<forall>l < j. rs' ! l = None" if "k = Suc j" for j
    using assms(2) that rs by force+
  show "cp_getAndWait timeout rs = Some (Inr c)" if "int k \<le> timeout div 100"
  proof (cases k)
    case 0
    then show ?thesis using assms(4) rs by simp
  next
    case (Suc j)
    then show ?thesis
      using retry_in_time [OF n(2) [OF Suc], of c timeout 0] n(1) [OF Suc] assms(3,4) that rs by simp
  qed
  show "cp_getAndWait timeout rs = Some (Inl HkuException)" if "int k = timeout div 100 + 1"
  proof (cases k)
    case 0
    then show ?thesis using that z by simp
  next
    case (Suc j)
    then show ?thesis
      using retry_too_late [OF n(2) [OF Suc], of timeout 0] n(1) [OF Suc] assms(1,3) that rs by simp
  qed
qed

end
