(* ===== verification/DBConnect.thy ===== *)
theory DBConnect
  imports TableSchema
begin

text \<open>
  \<open>db_connect/DBConnectBase.h\<close>: saving, loading, updating and removing objects through a database
  connection, and the transactions around these operations. The pure virtual functions of
  \<open>DBConnectBase\<close>, which each driver implements, are the fields of a record. The type \<open>'w\<close> is
  everything a driver can change: the database, the transaction that is open and the statement in
  use (the templates have one statement at a time; \<open>getStatement\<close> replaces it).
\<close>

section \<open>The connection and the bound class\<close>

record ('w, 'd, 't) db_conn =
  conn_stmt :: "('w, 'd, 't) sql_driver"
  conn_transaction :: "'w \<Rightarrow> 'w outcome"
  conn_commit :: "'w \<Rightarrow> 'w outcome"
  conn_rollback :: "'w \<Rightarrow> 'w"
  conn_exec :: "string \<Rightarrow> 'w \<Rightarrow> 'w outcome"
  conn_getStatement :: "string \<Rightarrow> 'w \<Rightarrow> 'w outcome"
  conn_tableExist :: "string \<Rightarrow> 'w \<Rightarrow> bool result \<times> 'w"

text \<open>
  What the templates use of their class argument \<open>T\<close>, its statement functions applied to the driver.
\<close>

record ('w, 'x) row_class =
  rc_new :: 'x
  rc_valid :: "'x \<Rightarrow> bool"
  rc_rowid :: "'x \<Rightarrow> u64"
  rc_setRowid :: "u64 \<Rightarrow> 'x \<Rightarrow> 'x"
  rc_tableName :: string
  rc_insertSQL :: string
  rc_updateSQL :: string
  rc_selectSQL :: string
  rc_save :: "'x \<Rightarrow> 'w \<Rightarrow> 'w outcome"
  rc_update :: "'x \<Rightarrow> 'w \<Rightarrow> 'w outcome"
  rc_load :: "'w \<Rightarrow> 'x \<Rightarrow> 'x \<times> cpp_error option"

text \<open>
  A class bound by one of the macros, if it declares all of this: the templates do not compile for
  a class without fields or without a default constructor.
\<close>

definition row_class_of ::
  "('w, 'd, 't) db_conn \<Rightarrow> ('d, 'o) sql_codec \<Rightarrow> (string \<Rightarrow> ('d, 't, 'o) sql_item) \<Rightarrow>
   ('w, 'd, 't, 'o) table_class \<Rightarrow> ('w, ('d, 't, 'o) table_obj) row_class option" where
  "row_class_of K C df T =
     (case (getInsertSQL T, getUpdateSQL T, save T, update T, default_ctor T) of
        (Some ins, Some upd, Some sv, Some up, Some ctor) \<Rightarrow>
          Some \<lparr>rc_new = ctor df, rc_valid = valid T, rc_rowid = getRowid T, rc_setRowid = setRowid T,
            rc_tableName = getTableName T, rc_insertSQL = ins, rc_updateSQL = upd,
            rc_selectSQL = getSelectSQL T, rc_save = sv (conn_stmt K) C, rc_update = up (conn_stmt K) C,
            rc_load = load T (conn_stmt K) C\<rparr>
      | _ \<Rightarrow> None)"

section \<open>Errors and transactions\<close>

text \<open>The catch clauses: an SQL exception keeps its code, any other becomes an \<open>hku::exception\<close>.\<close>

fun rethrow :: "cpp_error \<Rightarrow> cpp_error" where
  "rethrow (SqlException code) = SqlException code"
| "rethrow e = HkuException"

definition with_obj :: "'x \<Rightarrow> 'w outcome \<Rightarrow> ('x \<times> 'w) outcome" where
  "with_obj x r = (fst r, (x, snd r))"

text \<open>
  The frame every changing operation has: begin the transaction (outside the \<open>try\<close>), run the body
  and commit inside it, and in the handlers roll back and throw again. \<open>'x\<close> is what the operation
  changes of the caller's data, which no rollback restores.
\<close>

definition in_transaction ::
  "('w, 'd, 't) db_conn \<Rightarrow> bool \<Rightarrow> ('x \<times> 'w \<Rightarrow> ('x \<times> 'w) outcome) \<Rightarrow> 'x \<times> 'w \<Rightarrow> ('x \<times> 'w) outcome" where
  "in_transaction K autotrans body s =
     then_do (with_obj (fst s) (if autotrans then conn_transaction K (snd s) else (None, snd s)))
       (\<lambda>s1. case then_do (body s1)
                (\<lambda>s2. if autotrans then with_obj (fst s2) (conn_commit K (snd s2)) else (None, s2)) of
               (None, s3) \<Rightarrow> (None, s3)
             | (Some e, (x, w)) \<Rightarrow> (Some (rethrow e), (x, if autotrans then conn_rollback K w else w)))"

section \<open>Saving, updating and removing\<close>

definition insert_item ::
  "('w, 'd, 't) db_conn \<Rightarrow> ('w, 'x) row_class \<Rightarrow> 'x \<times> 'w \<Rightarrow> ('x \<times> 'w) outcome" where
  "insert_item K T s =
     then_do (with_obj (fst s) (then_do (rc_save T (fst s) (snd s)) (st_exec (conn_stmt K))))
       (\<lambda>(x, w). (None, (rc_setRowid T (st_getLastRowid (conn_stmt K) w) x, w)))"

definition update_item ::
  "('w, 'd, 't) db_conn \<Rightarrow> ('w, 'x) row_class \<Rightarrow> 'x \<times> 'w \<Rightarrow> ('x \<times> 'w) outcome" where
  "update_item K T s =
     with_obj (fst s) (then_do (rc_update T (fst s) (snd s)) (st_exec (conn_stmt K)))"

definition db_save ::
  "('w, 'd, 't) db_conn \<Rightarrow> ('w, 'x) row_class \<Rightarrow> bool \<Rightarrow> 'x \<times> 'w \<Rightarrow> ('x \<times> 'w) outcome" where
  "db_save K T autotrans s =
     then_do (with_obj (fst s)
         (conn_getStatement K (if rc_valid T (fst s) then rc_updateSQL T else rc_insertSQL T) (snd s)))
       (in_transaction K autotrans (if rc_valid T (fst s) then update_item K T else insert_item K T))"

text \<open>\<open>for (iter = first; iter != last; ++iter)\<close>, each item changed in place.\<close>

fun for_items :: "('x \<times> 'w \<Rightarrow> ('x \<times> 'w) outcome) \<Rightarrow> 'x list \<times> 'w \<Rightarrow> ('x list \<times> 'w) outcome" where
  "for_items f ([], w) = (None, ([], w))"
| "for_items f (x # xs, w) =
     (case f (x, w) of
        (Some e, (y, w1)) \<Rightarrow> (Some e, (y # xs, w1))
      | (None, (y, w1)) \<Rightarrow> (let (e, (ys, w2)) = for_items f (xs, w1) in (e, (y # ys, w2))))"

definition db_batchSave ::
  "('w, 'd, 't) db_conn \<Rightarrow> ('w, 'x) row_class \<Rightarrow> bool \<Rightarrow> 'x list \<times> 'w \<Rightarrow> ('x list \<times> 'w) outcome" where
  "db_batchSave K T autotrans s =
     (if fst s = [] then (None, s)
      else then_do (with_obj (fst s) (conn_getStatement K (rc_insertSQL T) (snd s)))
             (in_transaction K autotrans (for_items (insert_item K T))))"

definition db_batchUpdate ::
  "('w, 'd, 't) db_conn \<Rightarrow> ('w, 'x) row_class \<Rightarrow> bool \<Rightarrow> 'x list \<times> 'w \<Rightarrow> ('x list \<times> 'w) outcome" where
  "db_batchUpdate K T autotrans s =
     (if fst s = [] then (None, s)
      else then_do (with_obj (fst s) (conn_getStatement K (rc_updateSQL T) (snd s)))
             (in_transaction K autotrans (for_items (update_item K T))))"

text \<open>The two lists are copies: the caller's items stay as they are.\<close>

definition db_batchSaveOrUpdate ::
  "('w, 'd, 't) db_conn \<Rightarrow> ('w, 'x) row_class \<Rightarrow> bool \<Rightarrow> 'x list \<times> 'w \<Rightarrow> ('x list \<times> 'w) outcome" where
  "db_batchSaveOrUpdate K T autotrans s =
     (let update_list = filter (rc_valid T) (fst s);
          save_list = filter (\<lambda>x. \<not> rc_valid T x) (fst s)
      in case db_batchSave K T autotrans (save_list, snd s) of
           (Some e, (_, w1)) \<Rightarrow> (Some e, (fst s, w1))
         | (None, (_, w1)) \<Rightarrow>
             (case db_batchUpdate K T autotrans (update_list, w1) of (e, (_, w2)) \<Rightarrow> (e, (fst s, w2))))"

definition delete_row_sql :: "string \<Rightarrow> u64 \<Rightarrow> string" where
  "delete_row_sql table rowid = ''delete from '' @ table @ '' where id='' @ show_nat (unat rowid)"

definition db_remove ::
  "('w, 'd, 't) db_conn \<Rightarrow> ('w, 'x) row_class \<Rightarrow> bool \<Rightarrow> 'x \<times> 'w \<Rightarrow> ('x \<times> 'w) outcome" where
  "db_remove K T autotrans s =
     (if \<not> rc_valid T (fst s) then (Some HkuException, s)
      else
        then_do (with_obj (fst s)
            (conn_getStatement K (delete_row_sql (rc_tableName T) (rc_rowid T (fst s))) (snd s)))
          (\<lambda>s1. then_do (in_transaction K autotrans
                          (\<lambda>(x, w). with_obj x (st_exec (conn_stmt K) w)) s1)
                  (\<lambda>(x, w). (None, (rc_setRowid T 0 x, w)))))"

text \<open>\<open>remove(*iter)\<close> takes its default argument: each item has a transaction of its own.\<close>

definition db_batchRemove ::
  "('w, 'd, 't) db_conn \<Rightarrow> ('w, 'x) row_class \<Rightarrow> bool \<Rightarrow> 'x list \<times> 'w \<Rightarrow> ('x list \<times> 'w) outcome" where
  "db_batchRemove K T autotrans s =
     (if fst s = [] then (None, s)
      else in_transaction K autotrans (for_items (db_remove K T True)) s)"

definition delete_where_sql :: "string \<Rightarrow> string \<Rightarrow> string" where
  "delete_where_sql table cond =
     (if cond = '''' \<or> cond = ''1=1'' then ''delete from '' @ table
      else ''delete from '' @ table @ '' where '' @ cond)"

definition db_remove_where ::
  "('w, 'd, 't) db_conn \<Rightarrow> string \<Rightarrow> string \<Rightarrow> bool \<Rightarrow> 'w \<Rightarrow> 'w outcome" where
  "db_remove_where K table cond autotrans w =
     (case in_transaction K autotrans (\<lambda>(x, w1). with_obj x (conn_exec K (delete_where_sql table cond) w1))
             ((), w) of (e, (_, w2)) \<Rightarrow> (e, w2))"

section \<open>Loading and querying\<close>

definition first_row ::
  "('w, 'd, 't) db_conn \<Rightarrow> ('w, 'x) row_class \<Rightarrow> string \<Rightarrow> 'x \<times> 'w \<Rightarrow> ('x \<times> 'w) outcome" where
  "first_row K T sql s =
     then_do (with_obj (fst s) (then_do (conn_getStatement K sql (snd s)) (st_exec (conn_stmt K))))
       (\<lambda>(x, w). case st_moveNext (conn_stmt K) w of
          (Inl e, w1) \<Rightarrow> (Some e, (x, w1))
        | (Inr False, w1) \<Rightarrow> (None, (x, w1))
        | (Inr True, w1) \<Rightarrow> (let (y, e) = rc_load T w1 x in (e, (y, w1))))"

definition db_load ::
  "('w, 'd, 't) db_conn \<Rightarrow> ('w, 'x) row_class \<Rightarrow> string \<Rightarrow> 'x \<times> 'w \<Rightarrow> ('x \<times> 'w) outcome" where
  "db_load K T cond s =
     first_row K T
       (if cond \<noteq> '''' then rc_selectSQL T @ '' where '' @ cond @ '' limit 1''
        else rc_selectSQL T @ '' limit 1'') s"

definition db_loadView ::
  "('w, 'd, 't) db_conn \<Rightarrow> ('w, 'x) row_class \<Rightarrow> string \<Rightarrow> 'x \<times> 'w \<Rightarrow> ('x \<times> 'w) outcome" where
  "db_loadView K T sql s = first_row K T sql s"

text \<open>\<open>while (st->moveNext())\<close>: \<open>None\<close> if the driver never comes to the end of the rows.\<close>

partial_function (option) load_rows ::
  "('w, 'd, 't) db_conn \<Rightarrow> ('w, 'x) row_class \<Rightarrow> 'x list \<Rightarrow> 'w \<Rightarrow> ('x list \<times> 'w) outcome option" where
  [code]: "load_rows K T container w =
     (case st_moveNext (conn_stmt K) w of
        (Inl e, w1) \<Rightarrow> Some (Some e, (container, w1))
      | (Inr has_row, w1) \<Rightarrow>
          (if \<not> has_row then Some (None, (container, w1))
           else (case rc_load T w1 (rc_new T) of
                   (tmp, Some e) \<Rightarrow> Some (Some e, (container, w1))
                 | (tmp, None) \<Rightarrow> load_rows K T (container @ [tmp]) w1)))"

definition all_rows ::
  "('w, 'd, 't) db_conn \<Rightarrow> ('w, 'x) row_class \<Rightarrow> string \<Rightarrow> 'x list \<times> 'w \<Rightarrow> ('x list \<times> 'w) outcome option" where
  "all_rows K T sql s =
     (case then_do (conn_getStatement K sql (snd s)) (st_exec (conn_stmt K)) of
        (Some e, w1) \<Rightarrow> Some (Some e, (fst s, w1))
      | (None, w1) \<Rightarrow> load_rows K T (fst s) w1)"

definition db_batchLoad ::
  "('w, 'd, 't) db_conn \<Rightarrow> ('w, 'x) row_class \<Rightarrow> string \<Rightarrow> 'x list \<times> 'w \<Rightarrow> ('x list \<times> 'w) outcome option" where
  "db_batchLoad K T cond s =
     all_rows K T (if cond \<noteq> '''' then rc_selectSQL T @ '' where '' @ cond else rc_selectSQL T) s"

definition db_batchLoadView ::
  "('w, 'd, 't) db_conn \<Rightarrow> ('w, 'x) row_class \<Rightarrow> string \<Rightarrow> 'x list \<times> 'w \<Rightarrow> ('x list \<times> 'w) outcome option" where
  "db_batchLoadView K T sql s = all_rows K T sql s"

text \<open>
  \<open>queryNumber\<close> for an integer type: \<open>Null<T>()\<close> is the largest value of the 32- and 64-bit types
  and 0 for the others.
\<close>

definition null_int :: "bool \<Rightarrow> nat \<Rightarrow> int" where
  "null_int sg bits = (if bits = 32 \<or> bits = 64 then 2 ^ (if sg then bits - 1 else bits) - 1 else 0)"

definition not_one_element :: "bool \<Rightarrow> nat \<Rightarrow> int \<Rightarrow> int result" where
  "not_one_element sg bits default_val =
     (if default_val \<noteq> null_int sg bits then Inr default_val else Inl HkuException)"

definition db_queryNumber ::
  "('w, 'd, 't) db_conn \<Rightarrow> bool \<Rightarrow> nat \<Rightarrow> string \<Rightarrow> int \<Rightarrow> 'w \<Rightarrow> int result \<times> 'w" where
  "db_queryNumber K sg bits sql default_val w =
     (let D = conn_stmt K in
      case then_do (conn_getStatement K sql w) (st_exec D) of
        (Some e, w1) \<Rightarrow> (Inl e, w1)
      | (None, w1) \<Rightarrow>
          (case st_moveNext D w1 of
             (Inl e, w2) \<Rightarrow> (Inl e, w2)
           | (Inr has_row, w2) \<Rightarrow>
               (if \<not> (has_row \<and> st_getNumColumns D w2 = 1) then (not_one_element sg bits default_val, w2)
                else case sub_getColumnAsInt64 D 0 w2 of
                       Inl e \<Rightarrow> (Inl e, w2)
                     | Inr v \<Rightarrow>
                         (case st_moveNext D w2 of
                            (Inl e, w3) \<Rightarrow> (Inl e, w3)
                          | (Inr again, w3) \<Rightarrow>
                              (if again then not_one_element sg bits default_val
                               else Inr (int_cast sg bits (sint v)), w3)))))"

definition db_queryInt :: "('w, 'd, 't) db_conn \<Rightarrow> string \<Rightarrow> int \<Rightarrow> 'w \<Rightarrow> int result \<times> 'w" where
  "db_queryInt K sql default_val w = db_queryNumber K True 32 sql default_val w"

section \<open>The contract of a transactional connection\<close>

text \<open>
  What a database with transactions promises, over its observable state: \<open>cm w\<close> is the committed
  content, \<open>wk w\<close> the content the open transaction works on, if one is open, and \<open>pl w\<close> says that
  the statement in use is a plain data statement. A transaction does not nest; a failed statement
  may end it (SQLite does so on some errors), but only a commit changes the committed content while
  one is open. \<open>data_sql\<close> tells the texts of single data statements.
\<close>

definition data_sql :: "string \<Rightarrow> bool" where
  "data_sql sql \<longleftrightarrow> take 7 sql \<in> {''insert '', ''update '', ''delete '', ''select ''} \<and> CHR '';'' \<notin> set sql"

definition txn_works :: "('w \<Rightarrow> 'db) \<Rightarrow> ('w \<Rightarrow> 'db option) \<Rightarrow> ('w \<Rightarrow> bool) \<Rightarrow> 'w \<Rightarrow> 'w outcome \<Rightarrow> bool" where
  "txn_works cm wk pl w r \<longleftrightarrow>
     (wk w \<noteq> None \<longrightarrow> pl w \<longrightarrow> cm (snd r) = cm w \<and> (fst r = None \<longrightarrow> wk (snd r) \<noteq> None \<and> pl (snd r)))"

definition txn_conn ::
  "('w, 'd, 't) db_conn \<Rightarrow> ('w \<Rightarrow> 'db) \<Rightarrow> ('w \<Rightarrow> 'db option) \<Rightarrow> ('w \<Rightarrow> bool) \<Rightarrow> bool" where
  "txn_conn K cm wk pl \<longleftrightarrow>
     (\<forall>w e w'. conn_transaction K w = (e, w') \<longrightarrow> cm w' = cm w \<and> pl w' = pl w \<and>
        (e = None \<longrightarrow> wk w = None \<and> wk w' = Some (cm w)) \<and> (e \<noteq> None \<longrightarrow> wk w' = wk w)) \<and>
     (\<forall>w e w'. conn_commit K w = (e, w') \<longrightarrow>
        (e = None \<longrightarrow> wk w = Some (cm w') \<and> wk w' = None) \<and> (e \<noteq> None \<longrightarrow> cm w' = cm w)) \<and>
     (\<forall>w. cm (conn_rollback K w) = cm w \<and> wk (conn_rollback K w) = None) \<and>
     (\<forall>sql w e w'. data_sql sql \<longrightarrow> conn_getStatement K sql w = (e, w') \<longrightarrow>
        cm w' = cm w \<and> wk w' = wk w \<and> (e = None \<longrightarrow> pl w')) \<and>
     (\<forall>w. txn_works cm wk pl w (st_exec (conn_stmt K) w)) \<and>
     (\<forall>sql w e w'. data_sql sql \<longrightarrow> wk w \<noteq> None \<longrightarrow> conn_exec K sql w = (e, w') \<longrightarrow>
        cm w' = cm w \<and> (e = None \<longrightarrow> wk w' \<noteq> None))"

text \<open>The class side: its texts are data statements and its functions only bind parameters.\<close>

definition txn_class ::
  "('w, 'x) row_class \<Rightarrow> ('w \<Rightarrow> 'db) \<Rightarrow> ('w \<Rightarrow> 'db option) \<Rightarrow> ('w \<Rightarrow> bool) \<Rightarrow> bool" where
  "txn_class T cm wk pl \<longleftrightarrow>
     data_sql (rc_insertSQL T) \<and> data_sql (rc_updateSQL T) \<and> CHR '';'' \<notin> set (rc_tableName T) \<and>
     (\<forall>x w. txn_works cm wk pl w (rc_save T x w) \<and> txn_works cm wk pl w (rc_update T x w))"

text \<open>Bodies of a transaction.\<close>

definition txn_body ::
  "('w \<Rightarrow> 'db) \<Rightarrow> ('w \<Rightarrow> 'db option) \<Rightarrow> ('w \<Rightarrow> bool) \<Rightarrow> ('x \<times> 'w \<Rightarrow> ('y \<times> 'w) outcome) \<Rightarrow> bool" where
  "txn_body cm wk pl body \<longleftrightarrow>
     (\<forall>s. txn_works cm wk pl (snd s) (fst (body s), snd (snd (body s))))"

lemma txn_bodyI:
  "(\<And>x w e y w1. body (x, w) = (e, (y, w1)) \<Longrightarrow> txn_works cm wk pl w (e, w1)) \<Longrightarrow> txn_body cm wk pl body"
  by (metis txn_body_def prod.collapse)

lemma txn_bodyD:
  "txn_body cm wk pl body \<Longrightarrow> body (x, w) = (e, (y, w1)) \<Longrightarrow> txn_works cm wk pl w (e, w1)"
  unfolding txn_body_def by (metis fst_conv snd_conv)

lemma txn_works_then:
  "txn_works cm wk pl w m \<Longrightarrow> (\<And>w1. txn_works cm wk pl w1 (f w1)) \<Longrightarrow> txn_works cm wk pl w (then_do m f)"
  by (cases m; cases "fst m") (auto simp: txn_works_def)

lemma with_obj_simps [simp]: "fst (with_obj x r) = fst r" "snd (with_obj x r) = (x, snd r)"
  by (simp_all add: with_obj_def)

lemma with_obj_pair: "with_obj x (e, w) = (e, (x, w))"
  by (simp add: with_obj_def)

lemma txn_body_insert:
  assumes "txn_conn K cm wk pl" "txn_class T cm wk pl"
  shows "txn_body cm wk pl (insert_item K T)"
proof (rule txn_bodyI)
  fix x w e y w1 assume run: "insert_item K T (x, w) = (e, (y, w1))"
  have "txn_works cm wk pl w (then_do (rc_save T x w) (st_exec (conn_stmt K)))"
    using assms by (intro txn_works_then) (simp_all add: txn_class_def txn_conn_def)
  then show "txn_works cm wk pl w (e, w1)"
    using run by (cases "then_do (rc_save T x w) (st_exec (conn_stmt K))"; cases "fst (then_do (rc_save T x w) (st_exec (conn_stmt K)))")
      (auto simp: insert_item_def with_obj_pair)
qed

lemma txn_body_update:
  assumes "txn_conn K cm wk pl" "txn_class T cm wk pl"
  shows "txn_body cm wk pl (update_item K T)"
proof (rule txn_bodyI)
  fix x w e y w1 assume run: "update_item K T (x, w) = (e, (y, w1))"
  have "txn_works cm wk pl w (then_do (rc_update T x w) (st_exec (conn_stmt K)))"
    using assms by (intro txn_works_then) (simp_all add: txn_class_def txn_conn_def)
  moreover have "then_do (rc_update T x w) (st_exec (conn_stmt K)) = (e, w1)"
    using run by (cases "then_do (rc_update T x w) (st_exec (conn_stmt K))") (simp add: update_item_def with_obj_def)
  ultimately show "txn_works cm wk pl w (e, w1)" by simp
qed

lemma txn_body_for_items:
  assumes "txn_body cm wk pl f"
  shows "txn_body cm wk pl (for_items f)"
proof -
  have "for_items f (xs, w) = (e, (ys, w1)) \<Longrightarrow> txn_works cm wk pl w (e, w1)" for xs w e ys w1
  proof (induction xs arbitrary: w e ys w1)
    case Nil
    then show ?case by (simp add: txn_works_def)
  next
    case (Cons x xs)
    obtain e' y w' where f: "f (x, w) = (e', (y, w'))" by (metis surj_pair)
    obtain e2 zs w2 where r: "for_items f (xs, w') = (e2, (zs, w2))" by (metis surj_pair)
    have "txn_works cm wk pl w (e', w')" using txn_bodyD [OF assms f] .
    moreover have "txn_works cm wk pl w' (e2, w2)" using Cons.IH [OF r] .
    ultimately show ?case
      using Cons.prems f r by (cases e') (auto simp: txn_works_def)
  qed
  then show ?thesis by (rule txn_bodyI)
qed

text \<open>The frame around a body: everything or nothing, and no transaction is left open.\<close>

definition atomic_outcome ::
  "('w \<Rightarrow> 'db) \<Rightarrow> ('w \<Rightarrow> 'db option) \<Rightarrow> 'w \<Rightarrow> cpp_error option \<Rightarrow> 'w \<Rightarrow> bool" where
  "atomic_outcome cm wk w e w' \<longleftrightarrow> wk w' = None \<and> (e \<noteq> None \<longrightarrow> cm w' = cm w)"

lemma txn_connD:
  assumes "txn_conn K cm wk pl"
  shows txn_begin: "conn_transaction K w = (e, w') \<Longrightarrow> cm w' = cm w \<and> pl w' = pl w \<and>
      (e = None \<longrightarrow> wk w = None \<and> wk w' = Some (cm w)) \<and> (e \<noteq> None \<longrightarrow> wk w' = wk w)"
    and txn_commit: "conn_commit K w = (e, w') \<Longrightarrow>
      (e = None \<longrightarrow> wk w = Some (cm w') \<and> wk w' = None) \<and> (e \<noteq> None \<longrightarrow> cm w' = cm w)"
    and txn_rollback: "cm (conn_rollback K w) = cm w \<and> wk (conn_rollback K w) = None"
    and txn_getStatement: "data_sql sql \<Longrightarrow> conn_getStatement K sql w = (e, w') \<Longrightarrow>
      cm w' = cm w \<and> wk w' = wk w \<and> (e = None \<longrightarrow> pl w')"
    and txn_exec: "txn_works cm wk pl w (st_exec (conn_stmt K) w)"
  using assms unfolding txn_conn_def by blast+

lemma txn_exec_sql:
  assumes "txn_conn K cm wk pl" "data_sql sql"
  shows "txn_works cm wk (\<lambda>_. True) w (conn_exec K sql w)"
proof -
  have "\<forall>w e w'. wk w \<noteq> None \<longrightarrow> conn_exec K sql w = (e, w') \<longrightarrow> cm w' = cm w \<and> (e = None \<longrightarrow> wk w' \<noteq> None)"
    using assms unfolding txn_conn_def by blast
  then show ?thesis by (cases "conn_exec K sql w") (auto simp: txn_works_def)
qed

lemma in_transaction_cases:
  assumes K: "txn_conn K cm wk pl" and body: "txn_body cm wk pb body"
    and pb: "\<And>w e w1. conn_transaction K w = (e, w1) \<Longrightarrow> pb w1 = pb w"
    and "wk w = None" "pb w" and run: "in_transaction K True body (x, w) = (e, (x', w'))"
  shows "atomic_outcome cm wk w e w' \<and>
    (e = None \<longrightarrow> (\<exists>w1 w2. conn_transaction K w = (None, w1) \<and> body (x, w1) = (None, (x', w2)) \<and>
                        wk w2 = Some (cm w')))"
proof -
  obtain e1 w1 where b: "conn_transaction K w = (e1, w1)" by (metis surj_pair)
  show ?thesis
  proof (cases e1)
    case (Some err)
    then show ?thesis
      using run b txn_begin [OF K b] \<open>wk w = None\<close>
      by (auto simp: in_transaction_def with_obj_pair atomic_outcome_def)
  next
    case None
    obtain e2 x2 w2 where y: "body (x, w1) = (e2, (x2, w2))" by (metis surj_pair)
    have w1: "cm w1 = cm w" "pb w1" "wk w1 = Some (cm w)"
      using txn_begin [OF K b] pb [OF b] None \<open>pb w\<close> by simp_all
    then have w2: "cm w2 = cm w" "e2 = None \<longrightarrow> wk w2 \<noteq> None"
      using txn_bodyD [OF body y] by (auto simp: txn_works_def)
    obtain e3 w3 where c: "conn_commit K w2 = (e3, w3)" by (metis surj_pair)
    show ?thesis
      using run y w2 txn_commit [OF K c] txn_rollback [OF K] b None c
      by (cases e2; cases e3) (auto simp: in_transaction_def with_obj_pair atomic_outcome_def)
  qed
qed

lemma getStatement_then_atomic:
  assumes K: "txn_conn K cm wk pl" and body: "txn_body cm wk pl body"
    and "data_sql sql" "wk w = None"
    and run: "then_do (with_obj x (conn_getStatement K sql w)) (in_transaction K True body) = (e, (x', w'))"
  shows "atomic_outcome cm wk w e w'"
proof -
  obtain e1 w1 where g: "conn_getStatement K sql w = (e1, w1)" by (metis surj_pair)
  have w1: "cm w1 = cm w" "wk w1 = None" "e1 = None \<longrightarrow> pl w1"
    using txn_getStatement [OF K assms(3) g] assms(4) by simp_all
  show ?thesis
  proof (cases e1)
    case (Some err)
    then show ?thesis using run g w1 by (auto simp: with_obj_pair atomic_outcome_def)
  next
    case None
    then show ?thesis
      using in_transaction_cases [OF K body _ w1(2), of x e x' w'] txn_begin [OF K] run g w1
      by (simp add: with_obj_pair atomic_outcome_def)
  qed
qed

lemma data_sql_delete_row: "CHR '';'' \<notin> set table \<Longrightarrow> data_sql (delete_row_sql table rowid)"
proof -
  have "CHR '';'' \<notin> set (show_nat n)" for n
    using show_nat_chars [of "CHR '';''" n] by auto
  then show "CHR '';'' \<notin> set table \<Longrightarrow> data_sql (delete_row_sql table rowid)"
    by (simp add: data_sql_def delete_row_sql_def)
qed

lemma txn_body_exec:
  assumes "txn_conn K cm wk pl"
  shows "txn_body cm wk pl (\<lambda>(x, w). with_obj x (st_exec (conn_stmt K) w))"
    and "data_sql sql \<Longrightarrow> txn_body cm wk (\<lambda>_. True) (\<lambda>(x, w). with_obj x (conn_exec K sql w))"
  using txn_exec [OF assms] txn_exec_sql [OF assms] by (auto simp: txn_body_def)

lemma db_remove_fails:
  assumes "txn_conn K cm wk pl" "txn_class T cm wk pl" "wk w \<noteq> None"
  shows "\<exists>err w'. db_remove K T True (x, w) = (Some err, (x, w')) \<and> cm w' = cm w"
proof (cases "rc_valid T x")
  case True
  let ?sql = "delete_row_sql (rc_tableName T) (rc_rowid T x)"
  obtain e1 w1 where g: "conn_getStatement K ?sql w = (e1, w1)" by (metis surj_pair)
  have w1: "cm w1 = cm w" "wk w1 = wk w"
    using txn_getStatement [OF assms(1) data_sql_delete_row g] assms(2) by (auto simp: txn_class_def)
  obtain e2 w2 where b: "conn_transaction K w1 = (e2, w2)" by (metis surj_pair)
  have "e2 \<noteq> None" "cm w2 = cm w1" using txn_begin [OF assms(1) b] assms(3) w1 by auto
  then show ?thesis
    using True g b w1 by (cases e1) (auto simp: db_remove_def in_transaction_def with_obj_pair)
next
  case False
  then show ?thesis by (simp add: db_remove_def)
qed

lemma db_save_atomic:
  assumes "txn_conn K cm wk pl" "txn_class T cm wk pl" "wk w = None"
    "db_save K T True (x, w) = (e, (x', w'))"
  shows "atomic_outcome cm wk w e w'"
proof -
  have "txn_body cm wk pl (if rc_valid T x then update_item K T else insert_item K T)"
    using txn_body_insert [OF assms(1,2)] txn_body_update [OF assms(1,2)] by simp
  moreover have "data_sql (if rc_valid T x then rc_updateSQL T else rc_insertSQL T)"
    using assms(2) by (simp add: txn_class_def)
  ultimately show ?thesis
    using getStatement_then_atomic [OF assms(1) _ _ assms(3) assms(4) [unfolded db_save_def fst_conv snd_conv]]
    by blast
qed

lemma db_batchSave_atomic:
  assumes "txn_conn K cm wk pl" "txn_class T cm wk pl" "wk w = None"
    "db_batchSave K T True (xs, w) = (e, (xs', w'))"
  shows "atomic_outcome cm wk w e w'"
proof (cases "xs = []")
  case True
  then show ?thesis using assms(3,4) by (simp add: db_batchSave_def atomic_outcome_def)
next
  case False
  then show ?thesis
    using assms(2,4)
    by (intro getStatement_then_atomic [OF assms(1) txn_body_for_items [OF txn_body_insert [OF assms(1,2)]] _ assms(3)])
      (auto simp: db_batchSave_def txn_class_def)
qed

lemma db_batchUpdate_atomic:
  assumes "txn_conn K cm wk pl" "txn_class T cm wk pl" "wk w = None"
    "db_batchUpdate K T True (xs, w) = (e, (xs', w'))"
  shows "atomic_outcome cm wk w e w'"
proof (cases "xs = []")
  case True
  then show ?thesis using assms(3,4) by (simp add: db_batchUpdate_def atomic_outcome_def)
next
  case False
  then show ?thesis
    using assms(2,4)
    by (intro getStatement_then_atomic [OF assms(1) txn_body_for_items [OF txn_body_update [OF assms(1,2)]] _ assms(3)])
      (auto simp: db_batchUpdate_def txn_class_def)
qed

lemma db_remove_atomic:
  assumes "txn_conn K cm wk pl" "txn_class T cm wk pl" "wk w = None"
    "db_remove K T True (x, w) = (e, (x', w'))"
  shows "atomic_outcome cm wk w e w'"
proof (cases "rc_valid T x")
  case True
  let ?m = "then_do (with_obj x (conn_getStatement K (delete_row_sql (rc_tableName T) (rc_rowid T x)) w))
    (in_transaction K True (\<lambda>(x, w). with_obj x (st_exec (conn_stmt K) w)))"
  obtain e1 x1 w1 where m: "?m = (e1, (x1, w1))" by (metis surj_pair)
  have "atomic_outcome cm wk w e1 w1"
    using assms(2) data_sql_delete_row
    by (intro getStatement_then_atomic [OF assms(1) txn_body_exec(1) [OF assms(1)] _ assms(3) m])
      (auto simp: txn_class_def)
  moreover have "e1 = e \<and> w1 = w'"
    using assms(4) m True
    by (cases "conn_getStatement K (delete_row_sql (rc_tableName T) (rc_rowid T x)) w"; cases e1;
        cases "fst (conn_getStatement K (delete_row_sql (rc_tableName T) (rc_rowid T x)) w)")
      (auto simp: db_remove_def with_obj_pair)
  ultimately show ?thesis by simp
next
  case False
  then show ?thesis using assms(3,4) by (simp add: db_remove_def atomic_outcome_def)
qed

lemma db_remove_where_atomic:
  assumes "txn_conn K cm wk pl" "data_sql (delete_where_sql table cond)" "wk w = None"
    "db_remove_where K table cond True w = (e, w')"
  shows "atomic_outcome cm wk w e w'"
proof -
  obtain e1 x1 w1 where m: "in_transaction K True
      (\<lambda>(x, w). with_obj x (conn_exec K (delete_where_sql table cond) w)) ((), w) = (e1, (x1, w1))"
    by (metis surj_pair)
  have "atomic_outcome cm wk w e1 w1"
    using in_transaction_cases [OF assms(1) txn_body_exec(2) [OF assms(1,2)] _ assms(3) _ m] by simp
  then show ?thesis using assms(4) m by (simp add: db_remove_where_def)
qed

text \<open>
  All of them: an operation in a transaction of its own is all or nothing, wherever it fails
  (preparing, beginning, binding, executing or committing), and leaves no transaction open.
\<close>

lemma db_operations_atomic:
  assumes "txn_conn K cm wk pl" "txn_class T cm wk pl" "wk w = None"
  shows "(\<forall>x e x' w'. db_save K T True (x, w) = (e, (x', w')) \<longrightarrow> atomic_outcome cm wk w e w') \<and>
    (\<forall>xs e xs' w'. db_batchSave K T True (xs, w) = (e, (xs', w')) \<longrightarrow> atomic_outcome cm wk w e w') \<and>
    (\<forall>xs e xs' w'. db_batchUpdate K T True (xs, w) = (e, (xs', w')) \<longrightarrow> atomic_outcome cm wk w e w') \<and>
    (\<forall>x e x' w'. db_remove K T True (x, w) = (e, (x', w')) \<longrightarrow> atomic_outcome cm wk w e w')"
  using db_save_atomic [OF assms] db_batchSave_atomic [OF assms] db_batchUpdate_atomic [OF assms]
    db_remove_atomic [OF assms] by blast

section \<open>What a successful operation has done\<close>

text \<open>
  \<open>stored\<close>: each object in turn is bound to the statement and the statement executed once, none of
  which fails; \<open>after\<close> is what the caller's object becomes. \<open>committed_work\<close>: the statement with the
  text \<open>sql\<close> was prepared, a transaction begun, the objects stored in it, and its content committed.
\<close>

inductive stored :: "('w, 'd, 't) sql_driver \<Rightarrow> ('x \<Rightarrow> 'w \<Rightarrow> 'w outcome) \<Rightarrow> ('w \<Rightarrow> 'x \<Rightarrow> 'x) \<Rightarrow>
    'w \<Rightarrow> 'x list \<Rightarrow> 'w \<Rightarrow> 'x list \<Rightarrow> bool" for D bind after where
  none: "stored D bind after w [] w []"
| more: "bind x w = (None, w1) \<Longrightarrow> st_exec D w1 = (None, w2) \<Longrightarrow> stored D bind after w2 xs w' ys \<Longrightarrow>
    stored D bind after w (x # xs) w' (after w2 x # ys)"

definition committed_work ::
  "('w, 'd, 't) db_conn \<Rightarrow> ('w \<Rightarrow> 'db) \<Rightarrow> ('w \<Rightarrow> 'db option) \<Rightarrow> string \<Rightarrow> ('x \<Rightarrow> 'w \<Rightarrow> 'w outcome) \<Rightarrow>
   ('w \<Rightarrow> 'x \<Rightarrow> 'x) \<Rightarrow> 'w \<Rightarrow> 'x list \<Rightarrow> 'w \<Rightarrow> 'x list \<Rightarrow> bool" where
  "committed_work K cm wk sql bind after w xs w' ys \<longleftrightarrow>
     (\<exists>w0 w1 w2. conn_getStatement K sql w = (None, w0) \<and> conn_transaction K w0 = (None, w1) \<and>
        wk w1 = Some (cm w) \<and> stored (conn_stmt K) bind after w1 xs w2 ys \<and>
        conn_commit K w2 = (None, w') \<and> wk w2 = Some (cm w'))"

definition with_rowid :: "('w, 'd, 't) db_conn \<Rightarrow> ('w, 'x) row_class \<Rightarrow> 'w \<Rightarrow> 'x \<Rightarrow> 'x" where
  "with_rowid K T w x = rc_setRowid T (st_getLastRowid (conn_stmt K) w) x"

lemma then_do_NoneE:
  assumes "then_do m f = (None, s)"
  obtains s1 where "m = (None, s1)" "f s1 = (None, s)"
  using assms by (auto simp: then_do_None_iff)

lemma with_obj_None: "with_obj x r = (None, s) \<longleftrightarrow> r = (None, snd s) \<and> fst s = x"
  by (cases r; cases s) (auto simp: with_obj_def)

lemma insert_item_ok:
  assumes "insert_item K T (x, w) = (None, (y, w'))"
  shows "\<exists>w1. rc_save T x w = (None, w1) \<and> st_exec (conn_stmt K) w1 = (None, w') \<and> y = with_rowid K T w' x"
  using assms by (auto simp: insert_item_def then_do_None_iff with_obj_None with_rowid_def)

lemma update_item_ok:
  assumes "update_item K T (x, w) = (None, (y, w'))"
  shows "\<exists>w1. rc_update T x w = (None, w1) \<and> st_exec (conn_stmt K) w1 = (None, w') \<and> y = x"
  using assms by (auto simp: update_item_def then_do_None_iff with_obj_None)

lemma for_items_ok:
  assumes "\<And>x w y w'. f (x, w) = (None, (y, w')) \<Longrightarrow>
      \<exists>w1. bind x w = (None, w1) \<and> st_exec D w1 = (None, w') \<and> y = after w' x"
    and "for_items f (xs, w) = (None, (ys, w'))"
  shows "stored D bind after w xs w' ys"
  using assms(2)
proof (induction xs arbitrary: w ys)
  case Nil
  then show ?case by (simp add: stored.none)
next
  case (Cons x xs)
  obtain e y w2 where f: "f (x, w) = (e, (y, w2))" by (metis surj_pair)
  obtain e2 zs w3 where r: "for_items f (xs, w2) = (e2, (zs, w3))" by (metis surj_pair)
  have "e = None" using Cons.prems f by (cases e) auto
  with Cons.prems f r have eq: "e2 = None" "ys = y # zs" "w3 = w'" by auto
  obtain w1 where "bind x w = (None, w1)" "st_exec D w1 = (None, w2)" "y = after w2 x"
    using assms(1) [of x w y w2] f \<open>e = None\<close> by auto
  then show ?case using Cons.IH [of w2 zs] r eq stored.more by metis
qed

lemma in_transaction_ok:
  assumes "in_transaction K True body (x, w) = (None, (y, w'))"
  shows "\<exists>w1 w2. conn_transaction K w = (None, w1) \<and> body (x, w1) = (None, (y, w2)) \<and>
    conn_commit K w2 = (None, w')"
proof -
  from assms obtain w1 where w1: "conn_transaction K w = (None, w1)"
    "then_do (body (x, w1)) (\<lambda>s2. with_obj (fst s2) (conn_commit K (snd s2))) = (None, (y, w'))"
    by (cases "conn_transaction K w"; cases "fst (conn_transaction K w)")
      (auto simp: in_transaction_def with_obj_pair split: option.splits prod.splits)
  from w1(2) obtain s2 where "body (x, w1) = (None, s2)" "with_obj (fst s2) (conn_commit K (snd s2)) = (None, (y, w'))"
    by (rule then_do_NoneE)
  with w1(1) show ?thesis by (cases s2) (auto simp: with_obj_None)
qed

lemma committed_workI:
  assumes K: "txn_conn K cm wk pl" and "data_sql sql"
    and run: "then_do (with_obj x (conn_getStatement K sql w)) (in_transaction K True body) = (None, (y, w'))"
    and body: "\<And>w1 w2. body (x, w1) = (None, (y, w2)) \<Longrightarrow> stored (conn_stmt K) bind after w1 xs w2 ys"
  shows "committed_work K cm wk sql bind after w xs w' ys"
proof -
  from run obtain w0 where g: "conn_getStatement K sql w = (None, w0)" "in_transaction K True body (x, w0) = (None, (y, w'))"
    by (auto simp: then_do_None_iff with_obj_None)
  from in_transaction_ok [OF g(2)] obtain w1 w2 where
    t: "conn_transaction K w0 = (None, w1)" "body (x, w1) = (None, (y, w2))" "conn_commit K w2 = (None, w')"
    by blast
  have "wk w1 = Some (cm w)" using txn_begin [OF K t(1)] txn_getStatement [OF K assms(2) g(1)] by simp
  moreover have "wk w2 = Some (cm w')" using txn_commit [OF K t(3)] by simp
  ultimately show ?thesis unfolding committed_work_def using g(1) t body by blast
qed

text \<open>
  All or nothing. If an operation returns, it has stored every object exactly once, in order, in one
  transaction, and the committed content is that of this transaction; if it throws, the committed
  content is what it was. No transaction is left open.
\<close>

definition all_or_nothing ::
  "('w \<Rightarrow> 'db) \<Rightarrow> ('w \<Rightarrow> 'db option) \<Rightarrow> 'w \<Rightarrow> cpp_error option \<Rightarrow> 'w \<Rightarrow> bool \<Rightarrow> bool" where
  "all_or_nothing cm wk w e w' done \<longleftrightarrow>
     wk w' = None \<and> (case e of None \<Rightarrow> done | Some _ \<Rightarrow> cm w' = cm w)"

lemma all_or_nothingI:
  "atomic_outcome cm wk w e w' \<Longrightarrow> (e = None \<Longrightarrow> done) \<Longrightarrow> all_or_nothing cm wk w e w' done"
  by (auto simp: all_or_nothing_def atomic_outcome_def split: option.splits)

lemma stored_one:
  "\<exists>w1. bind x w = (None, w1) \<and> st_exec D w1 = (None, w2) \<and> y = after w2 x \<Longrightarrow>
    stored D bind after w [x] w2 [y]"
  using stored.more [OF _ _ stored.none] by metis

lemma db_save_done:
  assumes "txn_conn K cm wk pl" "txn_class T cm wk pl" "db_save K T True (x, w) = (None, (y, w'))"
  shows "if rc_valid T x then committed_work K cm wk (rc_updateSQL T) (rc_update T) (\<lambda>_ x. x) w [x] w' [y]
     else committed_work K cm wk (rc_insertSQL T) (rc_save T) (with_rowid K T) w [x] w' [y]"
proof (cases "rc_valid T x")
  case True
  then have run: "then_do (with_obj x (conn_getStatement K (rc_updateSQL T) w)) (in_transaction K True (update_item K T)) =
      (None, (y, w'))" using assms(3) by (simp add: db_save_def)
  have "data_sql (rc_updateSQL T)" using assms(2) by (simp add: txn_class_def)
  then have "committed_work K cm wk (rc_updateSQL T) (rc_update T) (\<lambda>_ x. x) w [x] w' [y]"
    by (rule committed_workI [OF assms(1) _ run]) (rule stored_one, rule update_item_ok)
  with True show ?thesis by simp
next
  case False
  then have run: "then_do (with_obj x (conn_getStatement K (rc_insertSQL T) w)) (in_transaction K True (insert_item K T)) =
      (None, (y, w'))" using assms(3) by (simp add: db_save_def)
  have "data_sql (rc_insertSQL T)" using assms(2) by (simp add: txn_class_def)
  then have "committed_work K cm wk (rc_insertSQL T) (rc_save T) (with_rowid K T) w [x] w' [y]"
    by (rule committed_workI [OF assms(1) _ run]) (rule stored_one, rule insert_item_ok)
  with False show ?thesis by simp
qed

lemma db_batch_done:
  assumes "txn_conn K cm wk pl" "txn_class T cm wk pl"
  shows "db_batchSave K T True (xs, w) = (None, (ys, w')) \<Longrightarrow> xs \<noteq> [] \<Longrightarrow>
      committed_work K cm wk (rc_insertSQL T) (rc_save T) (with_rowid K T) w xs w' ys"
    and "db_batchUpdate K T True (xs, w) = (None, (ys, w')) \<Longrightarrow> xs \<noteq> [] \<Longrightarrow>
      committed_work K cm wk (rc_updateSQL T) (rc_update T) (\<lambda>_ x. x) w xs w' ys"
  using assms(2)
  by (auto simp: db_batchSave_def db_batchUpdate_def txn_class_def
      intro!: committed_workI [OF assms(1)] for_items_ok insert_item_ok update_item_ok)

lemma db_remove_done:
  assumes "txn_conn K cm wk pl" "txn_class T cm wk pl" "db_remove K T True (x, w) = (None, (y, w'))"
  shows "rc_valid T x \<and> committed_work K cm wk (delete_row_sql (rc_tableName T) (rc_rowid T x))
      (\<lambda>x w. (None, w)) (\<lambda>_. rc_setRowid T 0) w [x] w' [y]"
proof -
  let ?sql = "delete_row_sql (rc_tableName T) (rc_rowid T x)"
  have v: "rc_valid T x" using assms(3) by (simp add: db_remove_def split: if_splits)
  obtain w0 where g: "conn_getStatement K ?sql w = (None, w0)"
    "in_transaction K True (\<lambda>(x, w). with_obj x (st_exec (conn_stmt K) w)) (x, w0) = (None, (x, w'))"
    "y = rc_setRowid T 0 x"
  proof -
    from assms(3) v obtain w0 x1 where "conn_getStatement K ?sql w = (None, w0)"
      "in_transaction K True (\<lambda>(x, w). with_obj x (st_exec (conn_stmt K) w)) (x, w0) = (None, (x1, w'))"
      "y = rc_setRowid T 0 x1"
      by (auto simp: db_remove_def then_do_None_iff with_obj_None)
    moreover from in_transaction_ok [OF this(2)] have "x1 = x" by (auto simp: with_obj_None)
    ultimately show thesis using that by blast
  qed
  from in_transaction_ok [OF g(2)] obtain w1 w2 where
    t: "conn_transaction K w0 = (None, w1)" "st_exec (conn_stmt K) w1 = (None, w2)" "conn_commit K w2 = (None, w')"
    by (auto simp: with_obj_None)
  have "data_sql ?sql" using assms(2) data_sql_delete_row by (auto simp: txn_class_def)
  then have "wk w1 = Some (cm w)" using txn_begin [OF assms(1) t(1)] txn_getStatement [OF assms(1) _ g(1)] by simp
  moreover have "wk w2 = Some (cm w')" using txn_commit [OF assms(1) t(3)] by simp
  moreover have "stored (conn_stmt K) (\<lambda>x w. (None, w)) (\<lambda>_. rc_setRowid T 0) w1 [x] w2 [y]"
    unfolding g(3) using t(2) by (intro stored_one) simp
  ultimately show ?thesis unfolding committed_work_def using v g(1) t(1,3) by blast
qed

lemma db_operations_all_or_nothing:
  assumes K: "txn_conn K cm wk pl" and T: "txn_class T cm wk pl" and "wk w = None"
  shows "(\<forall>x e y w'. db_save K T True (x, w) = (e, (y, w')) \<longrightarrow> all_or_nothing cm wk w e w'
      (if rc_valid T x then committed_work K cm wk (rc_updateSQL T) (rc_update T) (\<lambda>_ x. x) w [x] w' [y]
       else committed_work K cm wk (rc_insertSQL T) (rc_save T) (with_rowid K T) w [x] w' [y])) \<and>
    (\<forall>xs e ys w'. db_batchSave K T True (xs, w) = (e, (ys, w')) \<longrightarrow> all_or_nothing cm wk w e w'
      (if xs = [] then ys = [] \<and> w' = w
       else committed_work K cm wk (rc_insertSQL T) (rc_save T) (with_rowid K T) w xs w' ys)) \<and>
    (\<forall>xs e ys w'. db_batchUpdate K T True (xs, w) = (e, (ys, w')) \<longrightarrow> all_or_nothing cm wk w e w'
      (if xs = [] then ys = [] \<and> w' = w
       else committed_work K cm wk (rc_updateSQL T) (rc_update T) (\<lambda>_ x. x) w xs w' ys)) \<and>
    (\<forall>x e y w'. db_remove K T True (x, w) = (e, (y, w')) \<longrightarrow> all_or_nothing cm wk w e w'
      (rc_valid T x \<and> committed_work K cm wk (delete_row_sql (rc_tableName T) (rc_rowid T x))
         (\<lambda>x w. (None, w)) (\<lambda>_. rc_setRowid T 0) w [x] w' [y]))"
  using db_save_atomic [OF assms] db_batchSave_atomic [OF assms] db_batchUpdate_atomic [OF assms]
    db_remove_atomic [OF assms] db_save_done [OF K T] db_batch_done [OF K T] db_remove_done [OF K T]
  by (intro conjI allI impI all_or_nothingI) (auto simp: db_batchSave_def db_batchUpdate_def)

text \<open>
  \<open>batchRemove\<close> cannot succeed: its items ask for a transaction inside the one it has begun.
\<close>

lemma db_batchRemove_fails:
  assumes K: "txn_conn K cm wk pl" and T: "txn_class T cm wk pl" and "wk w = None" "xs \<noteq> []"
  shows "\<exists>err w'. db_batchRemove K T True (xs, w) = (Some err, (xs, w')) \<and> atomic_outcome cm wk w (Some err) w'"
proof -
  obtain x rest where xs: "xs = x # rest" using assms(4) by (cases xs) auto
  obtain e1 w1 where b: "conn_transaction K w = (e1, w1)" by (metis surj_pair)
  show ?thesis
  proof (cases e1)
    case (Some err)
    then show ?thesis
      using b txn_begin [OF K b] assms(3) xs
      by (auto simp: db_batchRemove_def in_transaction_def with_obj_pair atomic_outcome_def)
  next
    case None
    then have "wk w1 \<noteq> None" "cm w1 = cm w" using txn_begin [OF K b] by simp_all
    then obtain err w2 where "db_remove K T True (x, w1) = (Some err, (x, w2))" "cm w2 = cm w"
      using db_remove_fails [OF K T] by metis
    then show ?thesis
      using b None xs txn_rollback [OF K, of w2]
      by (simp add: db_batchRemove_def in_transaction_def with_obj_pair atomic_outcome_def)
  qed
qed

section \<open>Bound classes\<close>

text \<open>The functions a macro declares only bind parameters.\<close>

definition txn_binds ::
  "('w, 'd, 't) sql_driver \<Rightarrow> ('w \<Rightarrow> 'db) \<Rightarrow> ('w \<Rightarrow> 'db option) \<Rightarrow> ('w \<Rightarrow> bool) \<Rightarrow> bool" where
  "txn_binds D cm wk pl \<longleftrightarrow> (\<forall>i w.
     txn_works cm wk pl w (sub_bindNull D i w) \<and>
     (\<forall>v. txn_works cm wk pl w (sub_bindInt D i v w)) \<and>
     (\<forall>v. txn_works cm wk pl w (sub_bindDouble D i v w)) \<and>
     (\<forall>v. txn_works cm wk pl w (sub_bindDatetime D i v w)) \<and>
     (\<forall>v. txn_works cm wk pl w (sub_bindText D i v w)) \<and>
     (\<forall>v. txn_works cm wk pl w (sub_bindBlob D i v w)) \<and>
     (\<forall>v. txn_works cm wk pl w (sub_bindBlobChars D i v w)))"

lemma txn_bind_item: "txn_binds D cm wk pl \<Longrightarrow> txn_works cm wk pl w (bind_item D C i x w)"
  by (cases x) (simp_all add: txn_binds_def)

lemma txn_st_bind: "txn_binds D cm wk pl \<Longrightarrow> txn_works cm wk pl w (st_bind i rs D C x w)"
proof -
  assume D: "txn_binds D cm wk pl"
  have "txn_works cm wk pl w (bind_args D C i items w)" for items w
    using D
    by (induction D C i items w rule: bind_args.induct)
      (auto simp: txn_bind_item txn_binds_def intro!: txn_works_then txn_bind_item)
  then show ?thesis by (simp add: st_bind_def)
qed

lemma table_schema_txn:
  assumes "row_class_of K C df (table_schema t fs) = Some T" "txn_binds (conn_stmt K) cm wk pl"
    and "CHR '';'' \<notin> set t" "\<forall>f \<in> set fs. CHR '';'' \<notin> set f"
  shows "txn_class T cm wk pl"
proof -
  have sep: "CHR '';'' \<notin> set sep \<Longrightarrow> \<forall>x \<in> set xs. CHR '';'' \<notin> set x \<Longrightarrow> CHR '';'' \<notin> set (sep_by sep xs)" for sep xs
    by (induction sep xs rule: sep_by.induct) auto
  have cols: "CHR '';'' \<notin> set (sep_by '','' (map (\<lambda>f. quote q f @ after) fs))"
    if "q \<noteq> CHR '';''" "CHR '';'' \<notin> set after" for q after
    using assms(4) that by (intro sep) (auto simp: quote_def)
  have params: "CHR '';'' \<notin> set (params_sql n)" for n
    unfolding params_sql_def by (rule sep) auto
  have "data_sql (insert_sql (quote q t) [] (map (quote q) fs) (params_sql n))" if "q \<noteq> CHR '';''" for q n
    using cols [OF that, of "[]"] params assms(3) that by (simp add: data_sql_def insert_sql_def quote_def [abs_def])
  moreover have "data_sql (update_sql (quote q t) (map (quote q) fs) (quote q ''id''))" if "q \<noteq> CHR '';''" for q
    using cols [OF that, of "''=?''"] assms(3) that
    by (simp add: data_sql_def update_sql_def quote_def comp_def)
  ultimately show ?thesis
    using assms by (auto simp: row_class_of_def table_schema_def Let_def txn_class_def txn_st_bind split: if_splits)
qed

section \<open>A connection in memory\<close>

text \<open>
  For instances: a database that is a number of rows, at most three of them; an insertion adds a
  row, a deletion removes all. Statements are told by the first letter of their text.
\<close>

record mem_db =
  mem_rows :: nat
  mem_work :: "nat option"
  mem_stmt :: string

definition mem_view :: "mem_db \<Rightarrow> nat" where
  "mem_view m = (case mem_work m of Some d \<Rightarrow> d | None \<Rightarrow> mem_rows m)"

definition mem_put :: "nat \<Rightarrow> mem_db \<Rightarrow> mem_db" where
  "mem_put d m = (if mem_work m = None then m\<lparr>mem_rows := d\<rparr> else m\<lparr>mem_work := Some d\<rparr>)"

definition mem_run :: "string \<Rightarrow> mem_db \<Rightarrow> mem_db outcome" where
  "mem_run sql m =
     (if take 1 sql = ''i'' then
        (if mem_view m < 3 then (None, mem_put (mem_view m + 1) m) else (Some (SqlException 13), m))
      else if take 1 sql = ''d'' then (None, mem_put 0 m)
      else (None, m))"

definition mem_driver :: "(mem_db, unit, unit) sql_driver" where
  "mem_driver = \<lparr>
     sub_exec = (\<lambda>m. mem_run (mem_stmt m) m), sub_moveNext = (\<lambda>m. (Inr False, m)),
     sub_getLastRowid = (\<lambda>m. of_nat (mem_view m)),
     sub_bindNull = (\<lambda>i. Pair None), sub_bindInt = (\<lambda>i v. Pair None), sub_bindDouble = (\<lambda>i v. Pair None),
     sub_bindDatetime = (\<lambda>i v. Pair None), sub_bindText = (\<lambda>i v. Pair None),
     sub_bindBlob = (\<lambda>i v. Pair None), sub_bindBlobChars = (\<lambda>i v. Pair None),
     sub_getNumColumns = (\<lambda>m. 0), sub_getColumnAsInt64 = (\<lambda>i m. Inr 0),
     sub_getColumnAsDouble = (\<lambda>i m. Inr ()), sub_getColumnAsDatetime = (\<lambda>i m. Inr ()),
     sub_getColumnAsText = (\<lambda>i m. Inr []), sub_getColumnAsBlob = (\<lambda>i m. Inr []),
     sub_getColumnAsBlobChars = (\<lambda>i m. Inr [])\<rparr>"

definition mem_conn :: "(mem_db, unit, unit) db_conn" where
  "mem_conn = \<lparr>
     conn_stmt = mem_driver,
     conn_transaction = (\<lambda>m. if mem_work m = None then (None, m\<lparr>mem_work := Some (mem_rows m)\<rparr>)
        else (Some (SqlException 1), m)),
     conn_commit = (\<lambda>m. case mem_work m of
          Some d \<Rightarrow> (None, m\<lparr>mem_rows := d, mem_work := None\<rparr>)
        | None \<Rightarrow> (Some (SqlException 1), m)),
     conn_rollback = (\<lambda>m. m\<lparr>mem_work := None\<rparr>),
     conn_exec = mem_run,
     conn_getStatement = (\<lambda>sql m. (None, m\<lparr>mem_stmt := sql\<rparr>)),
     conn_tableExist = (\<lambda>t m. (Inr True, m))\<rparr>"

lemmas mem_conn_defs = mem_conn_def mem_driver_def mem_run_def mem_put_def mem_view_def

lemma mem_conn_txn: "txn_conn mem_conn mem_rows mem_work (\<lambda>_. True)"
  by (auto simp: txn_conn_def txn_works_def mem_conn_defs st_exec_def split: if_splits option.splits)

lemma mem_conn_binds: "txn_binds (conn_stmt mem_conn) mem_rows mem_work (\<lambda>_. True)"
  by (simp add: txn_binds_def txn_works_def mem_conn_defs)

definition mem_class :: "(mem_db, (unit, unit, unit) table_obj) row_class" where
  "mem_class = \<lparr>rc_new = \<lparr>m_id = 0, member = (\<lambda>_. IntItem True 32 0)\<rparr>, rc_valid = (\<lambda>x. m_id x \<noteq> 0),
     rc_rowid = m_id, rc_setRowid = (\<lambda>i x. x\<lparr>m_id := i\<rparr>), rc_tableName = ''T'',
     rc_insertSQL = ''insert into `T` (`a`) values (?)'', rc_updateSQL = ''update `T` set `a`=? where `id`=?'',
     rc_selectSQL = ''select `id`,`a` from `T`'',
     rc_save = st_bind 0 [Fld ''a''] mem_driver unit_codec,
     rc_update = st_bind 0 [Fld ''a'', IdRef] mem_driver unit_codec,
     rc_load = st_getColumn 0 [IdRef, Fld ''a''] mem_driver unit_codec\<rparr>"

lemma mem_class: "row_class_of mem_conn unit_codec (\<lambda>_. IntItem True 32 0) (table_schema ''T'' [''a'']) = Some mem_class"
  by (simp add: row_class_of_def table_schema_def Let_def mem_class_def mem_conn_def insert_sql_def update_sql_def
      select_sql_def quote_def params_sql_def)

abbreviation mem_obj :: "u64 \<Rightarrow> (unit, unit, unit) table_obj" where
  "mem_obj i \<equiv> \<lparr>m_id = i, member = (\<lambda>_. IntItem True 32 7)\<rparr>"

abbreviation mem_start :: "nat \<Rightarrow> mem_db" where
  "mem_start n \<equiv> \<lparr>mem_rows = n, mem_work = None, mem_stmt = ''''\<rparr>"

lemma mem_driver_simps:
  "st_exec mem_driver m = mem_run (mem_stmt m) m" "st_getLastRowid mem_driver m = of_nat (mem_view m)"
  "conn_stmt mem_conn = mem_driver"
  by (simp_all add: mem_driver_def mem_conn_def st_exec_def st_getLastRowid_def)

lemma mem_bind: "st_bind i [Fld f] mem_driver C x m = (None, m)"
  by (cases "member x f") (simp_all add: st_bind_def mem_driver_def)

lemma mem_insert_item:
  "insert_item mem_conn mem_class (x, \<lparr>mem_rows = n, mem_work = Some d, mem_stmt = ''insert into `T` (`a`) values (?)''\<rparr>) =
    (if d < 3 then (None, (x\<lparr>m_id := of_nat (d + 1)\<rparr>,
                     \<lparr>mem_rows = n, mem_work = Some (d + 1), mem_stmt = ''insert into `T` (`a`) values (?)''\<rparr>))
     else (Some (SqlException 13), (x, \<lparr>mem_rows = n, mem_work = Some d,
             mem_stmt = ''insert into `T` (`a`) values (?)''\<rparr>)))"
  by (simp add: insert_item_def mem_class_def mem_driver_simps mem_bind mem_run_def mem_put_def mem_view_def with_obj_pair)

lemma mem_batchSave_four:
  "db_batchSave mem_conn mem_class True (replicate 4 (mem_obj 0), mem_start 0) =
     (Some (SqlException 13), ([mem_obj 1, mem_obj 2, mem_obj 3, mem_obj 0],
        \<lparr>mem_rows = 0, mem_work = None, mem_stmt = ''insert into `T` (`a`) values (?)''\<rparr>))"
proof -
  let ?sql = "''insert into `T` (`a`) values (?)''"
  have t: "conn_transaction mem_conn \<lparr>mem_rows = 0, mem_work = None, mem_stmt = ?sql\<rparr> =
      (None, \<lparr>mem_rows = 0, mem_work = Some 0, mem_stmt = ?sql\<rparr>)"
    and g: "conn_getStatement mem_conn ?sql (mem_start 0) = (None, \<lparr>mem_rows = 0, mem_work = None, mem_stmt = ?sql\<rparr>)"
    and r: "conn_rollback mem_conn \<lparr>mem_rows = 0, mem_work = Some 3, mem_stmt = ?sql\<rparr> =
      \<lparr>mem_rows = 0, mem_work = None, mem_stmt = ?sql\<rparr>"
    and q: "rc_insertSQL mem_class = ?sql"
    by (simp_all add: mem_conn_def mem_class_def)
  have "for_items (insert_item mem_conn mem_class) (replicate 4 (mem_obj 0), \<lparr>mem_rows = 0, mem_work = Some 0, mem_stmt = ?sql\<rparr>) =
      (Some (SqlException 13), ([mem_obj 1, mem_obj 2, mem_obj 3, mem_obj 0], \<lparr>mem_rows = 0, mem_work = Some 3, mem_stmt = ?sql\<rparr>))"
    by (simp add: numeral_eq_Suc mem_insert_item)
  then show ?thesis
    by (simp add: db_batchSave_def in_transaction_def with_obj_pair t g r q del: for_items.simps)
qed

lemma mem_batchSave_two:
  "db_batchSave mem_conn mem_class True (replicate 2 (mem_obj 0), mem_start 0) =
     (None, ([mem_obj 1, mem_obj 2],
        \<lparr>mem_rows = 2, mem_work = None, mem_stmt = ''insert into `T` (`a`) values (?)''\<rparr>))"
proof -
  let ?sql = "''insert into `T` (`a`) values (?)''"
  have t: "conn_transaction mem_conn \<lparr>mem_rows = 0, mem_work = None, mem_stmt = ?sql\<rparr> =
      (None, \<lparr>mem_rows = 0, mem_work = Some 0, mem_stmt = ?sql\<rparr>)"
    and g: "conn_getStatement mem_conn ?sql (mem_start 0) = (None, \<lparr>mem_rows = 0, mem_work = None, mem_stmt = ?sql\<rparr>)"
    and r: "conn_commit mem_conn \<lparr>mem_rows = 0, mem_work = Some 2, mem_stmt = ?sql\<rparr> =
      (None, \<lparr>mem_rows = 2, mem_work = None, mem_stmt = ?sql\<rparr>)"
    and q: "rc_insertSQL mem_class = ?sql"
    by (simp_all add: mem_conn_def mem_class_def)
  have "for_items (insert_item mem_conn mem_class) (replicate 2 (mem_obj 0), \<lparr>mem_rows = 0, mem_work = Some 0, mem_stmt = ?sql\<rparr>) =
      (None, ([mem_obj 1, mem_obj 2], \<lparr>mem_rows = 0, mem_work = Some 2, mem_stmt = ?sql\<rparr>))"
    by (simp add: numeral_eq_Suc mem_insert_item)
  then show ?thesis
    by (simp add: db_batchSave_def in_transaction_def with_obj_pair t g r q del: for_items.simps)
qed

end
