(* ===== verification/TransAction.thy ===== *)
theory TransAction
  imports DBConnect
begin

text \<open>
  \<open>db_connect/AutoTransAction.h\<close>: the two classes that tie a transaction to a block.
  \<open>AutoTransAction\<close> begins in its constructor and commits in its destructor, also when the block is
  left by an exception; \<open>TransAction\<close> is committed by \<open>end\<close> and rolled back by its destructor.
\<close>

section \<open>\<open>AutoTransAction\<close>\<close>

text \<open>A constructor that throws leaves no object: no destructor runs.\<close>

definition auto_trans_new :: "('w, 'd, 't) db_conn \<Rightarrow> 'w \<Rightarrow> 'w outcome" where
  "auto_trans_new K w = conn_transaction K w"

definition auto_trans_destroy :: "('w, 'd, 't) db_conn \<Rightarrow> 'w \<Rightarrow> 'w" where
  "auto_trans_destroy K w =
     (case conn_commit K w of (None, w1) \<Rightarrow> w1 | (Some e, w1) \<Rightarrow> conn_rollback K w1)"

section \<open>\<open>TransAction\<close>\<close>

record trans_action =
  m_committed :: bool
  m_started :: bool

text \<open>The driver is a pointer that may be null: \<open>None\<close>.\<close>

definition trans_new :: "('w, 'd, 't) db_conn option \<Rightarrow> 'w \<Rightarrow> trans_action result \<times> 'w" where
  "trans_new driver w =
     (case driver of
        None \<Rightarrow> (Inl HkuException, w)
      | Some K \<Rightarrow>
          (case conn_transaction K w of
             (Some e, w1) \<Rightarrow> (Inl e, w1)
           | (None, w1) \<Rightarrow> (Inr \<lparr>m_committed = False, m_started = True\<rparr>, w1)))"

definition trans_begin :: "('w, 'd, 't) db_conn \<Rightarrow> trans_action \<times> 'w \<Rightarrow> (trans_action \<times> 'w) outcome" where
  "trans_begin K s =
     (if \<not> m_started (fst s)
      then then_do (with_obj (fst s) (conn_transaction K (snd s)))
             (\<lambda>(t, w). (None, (t\<lparr>m_committed := False, m_started := True\<rparr>, w)))
      else (None, s))"

definition trans_end :: "('w, 'd, 't) db_conn \<Rightarrow> trans_action \<times> 'w \<Rightarrow> (trans_action \<times> 'w) outcome" where
  "trans_end K s =
     (if \<not> m_started (fst s) then (Some HkuException, s)
      else if \<not> m_committed (fst s)
      then then_do (with_obj (fst s) (conn_commit K (snd s)))
             (\<lambda>(t, w). (None, (t\<lparr>m_committed := True, m_started := False\<rparr>, w)))
      else (None, s))"

definition trans_destroy :: "('w, 'd, 't) db_conn \<Rightarrow> trans_action \<times> 'w \<Rightarrow> 'w" where
  "trans_destroy K s =
     (if m_started (fst s) \<and> \<not> m_committed (fst s) then conn_rollback K (snd s) else snd s)"

section \<open>A block with a \<open>TransAction\<close>\<close>

text \<open>
  What can happen between construction and destruction: \<open>begin\<close> and \<open>end\<close>, each of which may throw,
  and statements, which change the committed content only outside a transaction, where they are
  transactions of their own, and never open one.
\<close>

inductive trans_step ::
  "('w, 'd, 't) db_conn \<Rightarrow> ('w \<Rightarrow> 'db) \<Rightarrow> ('w \<Rightarrow> 'db option) \<Rightarrow> trans_action \<times> 'w \<Rightarrow> trans_action \<times> 'w \<Rightarrow> bool"
  for K cm wk where
  begin_step: "trans_begin K s = (e, s') \<Longrightarrow> trans_step K cm wk s s'"
| end_step: "trans_end K s = (e, s') \<Longrightarrow> trans_step K cm wk s s'"
| statement_step: "(wk w = None \<longrightarrow> wk w' = None) \<Longrightarrow> (wk w \<noteq> None \<longrightarrow> cm w' = cm w) \<Longrightarrow>
    trans_step K cm wk (t, w) (t, w')"

inductive_cases trans_stepE: "trans_step K cm wk s s'"

inductive trans_reach ::
  "('w, 'd, 't) db_conn \<Rightarrow> ('w \<Rightarrow> 'db) \<Rightarrow> ('w \<Rightarrow> 'db option) \<Rightarrow> 'w \<Rightarrow> trans_action \<times> 'w \<Rightarrow> bool"
  for K cm wk w0 where
  constructed: "trans_new (Some K) w0 = (Inr t, w) \<Longrightarrow> trans_reach K cm wk w0 (t, w)"
| step: "trans_reach K cm wk w0 s \<Longrightarrow> trans_step K cm wk s s' \<Longrightarrow> trans_reach K cm wk w0 s'"

text \<open>
  The invariant: a transaction is open only while the object is started, and started means not yet
  committed.
\<close>

definition trans_inv :: "('w \<Rightarrow> 'db option) \<Rightarrow> trans_action \<times> 'w \<Rightarrow> bool" where
  "trans_inv wk s \<longleftrightarrow> (wk (snd s) \<noteq> None \<longrightarrow> m_started (fst s)) \<and> (m_started (fst s) \<longleftrightarrow> \<not> m_committed (fst s))"

lemma trans_new_inv:
  assumes "txn_conn K cm wk pl" "trans_new (Some K) w0 = (Inr t, w)"
  shows "trans_inv wk (t, w) \<and> cm w = cm w0 \<and> wk w = Some (cm w0)"
proof -
  have "conn_transaction K w0 = (None, w)" "t = \<lparr>m_committed = False, m_started = True\<rparr>"
    using assms(2) by (auto simp: trans_new_def split: prod.splits option.splits)
  then show ?thesis using txn_begin [OF assms(1)] by (simp add: trans_inv_def)
qed

lemma trans_begin_inv:
  assumes K: "txn_conn K cm wk pl" and inv: "trans_inv wk s" and run: "trans_begin K s = (e, s')"
  shows "trans_inv wk s' \<and> cm (snd s') = cm (snd s)"
proof (cases "m_started (fst s)")
  case True
  then show ?thesis using inv run by (simp add: trans_begin_def)
next
  case False
  obtain e1 w1 where t: "conn_transaction K (snd s) = (e1, w1)" by (metis surj_pair)
  show ?thesis
    using False inv run t txn_begin [OF K t]
    by (cases e1; cases s) (auto simp: trans_begin_def with_obj_pair trans_inv_def)
qed

lemma trans_end_inv:
  assumes K: "txn_conn K cm wk pl" and inv: "trans_inv wk s" and run: "trans_end K s = (e, s')"
  shows "trans_inv wk s' \<and> (e \<noteq> None \<longrightarrow> cm (snd s') = cm (snd s)) \<and>
    (e = None \<longrightarrow> wk (snd s) = Some (cm (snd s')) \<and> wk (snd s') = None)"
proof -
  obtain e1 w1 where c: "conn_commit K (snd s) = (e1, w1)" by (metis surj_pair)
  show ?thesis
    using inv run c txn_commit [OF K c]
    by (cases e1; cases s) (auto simp: trans_end_def with_obj_pair trans_inv_def split: if_splits)
qed

lemma trans_step_inv: "txn_conn K cm wk pl \<Longrightarrow> trans_step K cm wk s s' \<Longrightarrow> trans_inv wk s \<Longrightarrow> trans_inv wk s'"
proof (erule trans_stepE)
  fix e assume "txn_conn K cm wk pl" "trans_inv wk s" "trans_begin K s = (e, s')"
  then show "trans_inv wk s'" using trans_begin_inv by blast
next
  fix e assume "txn_conn K cm wk pl" "trans_inv wk s" "trans_end K s = (e, s')"
  then show "trans_inv wk s'" using trans_end_inv by blast
qed (auto simp: trans_inv_def)

lemma trans_reach_inv: "trans_reach K cm wk w0 s \<Longrightarrow> txn_conn K cm wk pl \<Longrightarrow> trans_inv wk s"
  by (induction rule: trans_reach.induct) (auto dest: trans_new_inv trans_step_inv)

lemma trans_destroy_rolls_back:
  assumes "txn_conn K cm wk pl" "trans_inv wk s"
  shows "wk (trans_destroy K s) = None \<and> cm (trans_destroy K s) = cm (snd s)"
  using assms txn_rollback [OF assms(1)] by (auto simp: trans_destroy_def trans_inv_def)

text \<open>
  Property C24: however a block uses its \<open>TransAction\<close>, and wherever calls of it throw: the
  destructor leaves no transaction open and commits nothing; a transaction is open only while the
  object is started; an \<open>end\<close> that returns has committed exactly the content the transaction
  worked on; and an \<open>end\<close> or a \<open>begin\<close> that throws has committed nothing.
\<close>

theorem trans_action_safe:
  assumes "txn_conn K cm wk pl" "trans_reach K cm wk w0 s"
  shows "wk (trans_destroy K s) = None \<and> cm (trans_destroy K s) = cm (snd s) \<and>
    (wk (snd s) \<noteq> None \<longrightarrow> m_started (fst s)) \<and>
    (\<forall>e s'. trans_end K s = (e, s') \<longrightarrow>
       (e = None \<longrightarrow> wk (snd s) = Some (cm (snd s')) \<and> wk (snd s') = None) \<and>
       (e \<noteq> None \<longrightarrow> cm (snd s') = cm (snd s))) \<and>
    (\<forall>e s'. trans_begin K s = (e, s') \<longrightarrow> cm (snd s') = cm (snd s))"
proof -
  have inv: "trans_inv wk s" using trans_reach_inv [OF assms(2,1)] .
  then show ?thesis
    using trans_destroy_rolls_back [OF assms(1) inv] trans_end_inv [OF assms(1) inv]
      trans_begin_inv [OF assms(1) inv] by (auto simp: trans_inv_def)
qed

text \<open>
  An instance: two rows in memory, a third inserted in the block and the block left without \<open>end\<close>.
\<close>

theorem trans_action_safe_witness:
  "\<exists>t w. trans_reach mem_conn mem_rows mem_work (mem_start 2) (t, w) \<and> mem_work w = Some 3 \<and>
     mem_rows (trans_destroy mem_conn (t, w)) = 2"
proof -
  let ?t = "\<lparr>m_committed = False, m_started = True\<rparr>"
  let ?w = "\<lparr>mem_rows = 2, mem_work = Some 3, mem_stmt = ''''\<rparr>"
  have "trans_new (Some mem_conn) (mem_start 2) = (Inr ?t, \<lparr>mem_rows = 2, mem_work = Some 2, mem_stmt = ''''\<rparr>)"
    by (simp add: trans_new_def mem_conn_def)
  then have "trans_reach mem_conn mem_rows mem_work (mem_start 2) (?t, \<lparr>mem_rows = 2, mem_work = Some 2, mem_stmt = ''''\<rparr>)"
    by (rule trans_reach.constructed)
  then have r: "trans_reach mem_conn mem_rows mem_work (mem_start 2) (?t, ?w)"
    by (rule trans_reach.step) (rule statement_step; simp)
  have "mem_rows (trans_destroy mem_conn (?t, ?w)) = 2"
    using trans_action_safe [OF mem_conn_txn r] by simp
  with r show ?thesis by force
qed

text \<open>
  An inner pair of \<open>begin\<close> and \<open>end\<close> commits the work of the outer one, whose own \<open>end\<close> then throws.
\<close>

lemma trans_nested_end:
  assumes "txn_conn K cm wk pl" "trans_inv wk s" "m_started (fst s)" "trans_begin K s = (None, s1)"
    "trans_end K s1 = (None, s2)"
  shows "cm (snd s2) = the (wk (snd s)) \<and> trans_end K s2 = (Some HkuException, s2)"
proof -
  have "s1 = s" using assms(3,4) by (simp add: trans_begin_def)
  moreover have "\<not> m_started (fst s2)"
    using assms(2,3,5) \<open>s1 = s\<close> by (cases "conn_commit K (snd s)"; cases "fst (conn_commit K (snd s))")
      (auto simp: trans_end_def with_obj_pair trans_inv_def)
  ultimately show ?thesis
    using trans_end_inv [OF assms(1,2)] assms(5) by (auto simp: trans_end_def [of K s2])
qed

text \<open>\<open>AutoTransAction\<close> leaves no transaction open either, and commits whatever the block has done.\<close>

lemma auto_trans_block:
  assumes "txn_conn K cm wk pl"
  shows "wk (auto_trans_destroy K w) = None \<and> (cm (auto_trans_destroy K w) = cm w \<or> wk w = Some (cm (auto_trans_destroy K w)))"
proof -
  obtain e w1 where c: "conn_commit K w = (e, w1)" by (metis surj_pair)
  show ?thesis
    using c txn_commit [OF assms c] txn_rollback [OF assms]
    by (cases e) (auto simp: auto_trans_destroy_def)
qed

end
