(* ===== verification/DBCondition.thy ===== *)
theory DBCondition
  imports HkuPrelude
begin

text \<open>
  \<open>db_connect/DBCondition.h\<close> and \<open>DBCondition.cpp\<close>: a condition is the text of an SQL \<open>where\<close> clause,
  built from comparisons of fields. The texts \<open>operator<<\<close> and \<open>fmt\<close> make of values of other types
  than strings are arguments (\<open>Plain\<close>).
\<close>

section \<open>Fields\<close>

datatype cond_val = Quoted string | Plain string

fun val_text :: "cond_val \<Rightarrow> string" where
  "val_text (Quoted s) = CHR 0x22 # s @ [CHR 0x22]"
| "val_text (Plain s) = s"

datatype cond_op = Eq_op | Ne_op | Gt_op | Ge_op | Lt_op | Le_op

fun op_text :: "cond_op \<Rightarrow> string" where
  "op_text Eq_op = ''=''"
| "op_text Ne_op = ''<>''"
| "op_text Gt_op = ''>''"
| "op_text Ge_op = ''>=''"
| "op_text Lt_op = ''<''"
| "op_text Le_op = ''<=''"

definition field_compare :: "cond_op \<Rightarrow> string \<Rightarrow> cond_val \<Rightarrow> string" where
  "field_compare op name v = ''('' @ name @ op_text op @ val_text v @ '')''"

text \<open>The loop of the string versions puts a comma after each value but the last.\<close>

fun join_vals :: "cond_val list \<Rightarrow> string" where
  "join_vals [] = []"
| "join_vals [v] = val_text v"
| "join_vals (v # u # vs) = val_text v @ '','' @ join_vals (u # vs)"

definition field_in :: "string \<Rightarrow> cond_val list \<Rightarrow> string result" where
  "field_in name vals =
     (if vals = [] then Inl HkuException else Inr (''('' @ name @ '' in ('' @ join_vals vals @ ''))''))"

definition field_not_in :: "string \<Rightarrow> cond_val list \<Rightarrow> string result" where
  "field_not_in name vals =
     (if vals = [] then Inl HkuException else Inr (''('' @ name @ '' not in ('' @ join_vals vals @ ''))''))"

definition field_like :: "string \<Rightarrow> string \<Rightarrow> string" where
  "field_like name pattern = ''('' @ name @ '' like '' @ CHR 0x22 # pattern @ [CHR 0x22] @ '')''"

section \<open>Conditions\<close>

text \<open>\<open>same\<close> tells that both operands are one object.\<close>

definition cond_and :: "bool \<Rightarrow> string \<Rightarrow> string \<Rightarrow> string" where
  "cond_and same this other =
     (if same then this else if this = [] then other else ''('' @ this @ '' and '' @ other @ '')'')"

definition cond_or :: "bool \<Rightarrow> string \<Rightarrow> string \<Rightarrow> string" where
  "cond_or same this other =
     (if same then this else if this = [] then other else ''('' @ this @ '' or '' @ other @ '')'')"

definition orderBy :: "string \<Rightarrow> bool \<Rightarrow> string \<Rightarrow> string" where
  "orderBy field asc this = this @ '' order by '' @ field @ (if asc then '' ASC'' else '' DESC'')"

definition cond_asc :: "string \<Rightarrow> string \<Rightarrow> string" where
  "cond_asc this name = orderBy name True this"

definition cond_desc :: "string \<Rightarrow> string \<Rightarrow> string" where
  "cond_desc this name = orderBy name False this"

definition cond_limit :: "string \<Rightarrow> int \<Rightarrow> string" where
  "cond_limit this n = this @ '' limit '' @ show_int n"

section \<open>The grouping of a condition\<close>

text \<open>
  Conditions as trees over comparisons, the text the operators make of a tree, and a reader of the
  parentheses of a text: the part up to the parenthesis that closes the one it begins with.
\<close>

datatype cond_tree = Atom cond_op string cond_val | And cond_tree cond_tree | Or cond_tree cond_tree

fun tree_text :: "cond_tree \<Rightarrow> string" where
  "tree_text (Atom op name v) = field_compare op name v"
| "tree_text (And a b) = cond_and False (tree_text a) (tree_text b)"
| "tree_text (Or a b) = cond_or False (tree_text a) (tree_text b)"

text \<open>Parentheses count outside double quotes; the state is the depth and whether a quote is open.\<close>

fun closes_at :: "nat \<Rightarrow> bool \<Rightarrow> string \<Rightarrow> nat option" where
  "closes_at d quoted [] = None"
| "closes_at d quoted (c # s) =
     (if c = CHR 0x22 then map_option Suc (closes_at d (\<not> quoted) s)
      else if quoted then map_option Suc (closes_at d quoted s)
      else if c = CHR ''('' then map_option Suc (closes_at (d + 1) quoted s)
      else if c = CHR '')'' then (if d = 1 then Some 1 else map_option Suc (closes_at (d - 1) quoted s))
      else map_option Suc (closes_at d quoted s))"

definition plain_text :: "string \<Rightarrow> bool" where
  "plain_text s \<longleftrightarrow> CHR 0x22 \<notin> set s \<and> CHR ''('' \<notin> set s \<and> CHR '')'' \<notin> set s"

fun val_ok :: "cond_val \<Rightarrow> bool" where
  "val_ok (Quoted s) \<longleftrightarrow> CHR 0x22 \<notin> set s"
| "val_ok (Plain s) \<longleftrightarrow> plain_text s"

fun tree_ok :: "cond_tree \<Rightarrow> bool" where
  "tree_ok (Atom op name v) \<longleftrightarrow> plain_text name \<and> val_ok v"
| "tree_ok (And a b) \<longleftrightarrow> tree_ok a \<and> tree_ok b"
| "tree_ok (Or a b) \<longleftrightarrow> tree_ok a \<and> tree_ok b"

text \<open>Text that can stand inside parentheses without closing one.\<close>

definition neutral :: "string \<Rightarrow> bool" where
  "neutral s \<longleftrightarrow> (\<forall>d > 0. \<forall>r. closes_at d False (s @ r) = map_option ((+) (length s)) (closes_at d False r))"

lemma map_option_add:
  "map_option Suc (map_option ((+) n) x) = map_option ((+) (Suc n)) x"
  "map_option ((+) m) (map_option ((+) n) x) = map_option ((+) (m + n)) x"
  "map_option ((+) (0 :: nat)) y = y"
  "map_option Suc z = map_option ((+) 1) z"
  by (cases x; cases y; cases z; simp)+

lemma neutral_append: "neutral s \<Longrightarrow> neutral t \<Longrightarrow> neutral (s @ t)"
  by (simp add: neutral_def map_option_add)

lemma closes_at_plain:
  "plain_text s \<Longrightarrow> closes_at d False (s @ r) = map_option ((+) (length s)) (closes_at d False r)"
  by (induction s) (auto simp: plain_text_def map_option_add(1-3))

lemma neutral_plain: "plain_text s \<Longrightarrow> neutral s"
  by (simp add: neutral_def closes_at_plain)

lemma closes_at_quoted:
  "CHR 0x22 \<notin> set s \<Longrightarrow> closes_at d True (s @ r) = map_option ((+) (length s)) (closes_at d True r)"
  by (induction s) (auto simp: map_option_add(1-3))

lemma neutral_val: "val_ok v \<Longrightarrow> neutral (val_text v)"
  by (cases v) (auto simp: neutral_def closes_at_plain closes_at_quoted map_option_add)

lemma closes_at_group:
  "neutral s \<Longrightarrow> closes_at d False (CHR ''('' # s @ CHR '')'' # r) =
     (if d = 0 then Some (length s + 2) else map_option ((+) (length s + 2)) (closes_at d False r))"
  by (simp add: neutral_def map_option_add)

lemma neutral_group: "neutral s \<Longrightarrow> neutral (''('' @ s @ '')'')"
  using closes_at_group [of s] by (simp add: neutral_def [of "CHR ''('' # s @ _"])

lemma neutral_words: "neutral '' and ''" "neutral '' or ''" "neutral (op_text op)"
  by (simp_all add: neutral_plain plain_text_def) (cases op; simp add: neutral_plain plain_text_def)

text \<open>The text of a tree is one group: it begins with a parenthesis that its last character closes.\<close>

definition one_group :: "string \<Rightarrow> bool" where
  "one_group s \<longleftrightarrow> (\<exists>t. s = ''('' @ t @ '')'' \<and> neutral t)"

lemma one_group_neutral: "one_group s \<Longrightarrow> neutral s \<and> s \<noteq> []"
  using neutral_group by (auto simp: one_group_def)

lemma tree_one_group: "tree_ok e \<Longrightarrow> one_group (tree_text e)"
proof (induction e)
  case (Atom op name v)
  then have "neutral (name @ op_text op @ val_text v)"
    by (simp add: neutral_append neutral_plain neutral_val neutral_words)
  moreover have "tree_text (Atom op name v) = ''('' @ (name @ op_text op @ val_text v) @ '')''"
    by (simp add: field_compare_def)
  ultimately show ?case unfolding one_group_def by blast
next
  case (And a b)
  then have "neutral (tree_text a @ '' and '' @ tree_text b)" "tree_text a \<noteq> []"
    using one_group_neutral by (auto intro!: neutral_append neutral_words simp del: append_Cons)
  then show ?case unfolding one_group_def
    by (intro exI [of _ "tree_text a @ '' and '' @ tree_text b"]) (simp add: cond_and_def)
next
  case (Or a b)
  then have "neutral (tree_text a @ '' or '' @ tree_text b)" "tree_text a \<noteq> []"
    using one_group_neutral by (auto intro!: neutral_append neutral_words simp del: append_Cons)
  then show ?case unfolding one_group_def
    by (intro exI [of _ "tree_text a @ '' or '' @ tree_text b"]) (simp add: cond_or_def)
qed

text \<open>So the left operand of a combination can be read off its text.\<close>

lemma group_closes: "one_group s \<Longrightarrow> closes_at 0 False (s @ r) = Some (length s)"
  using closes_at_group [where d = 0] by (auto simp: one_group_def simp del: closes_at.simps)

text \<open>The text of a combination determines its operator and the texts of both operands.\<close>

lemma combination_text:
  assumes "tree_ok a" "e = And a b \<and> sep = '' and '' \<or> e = Or a b \<and> sep = '' or ''"
  shows "tree_text e = ''('' @ tree_text a @ sep @ tree_text b @ '')''"
    and "closes_at 0 False (tl (tree_text e)) = Some (length (tree_text a))"
proof -
  have a: "one_group (tree_text a)" and ne: "tree_text a \<noteq> []"
    using tree_one_group [OF assms(1)] one_group_neutral by blast+
  show tx: "tree_text e = ''('' @ tree_text a @ sep @ tree_text b @ '')''"
    using assms(2) ne by (auto simp: cond_and_def cond_or_def)
  show "closes_at 0 False (tl (tree_text e)) = Some (length (tree_text a))"
    using group_closes [OF a] by (simp add: tx)
qed

lemma combination_unique:
  assumes "tree_ok a" "tree_ok a'"
    and "e = And a b \<and> sep = '' and '' \<or> e = Or a b \<and> sep = '' or ''"
    and "e' = And a' b' \<and> sep' = '' and '' \<or> e' = Or a' b' \<and> sep' = '' or ''"
    and "tree_text e = tree_text e'"
  shows "sep = sep' \<and> tree_text a = tree_text a' \<and> tree_text b = tree_text b'"
proof -
  note t = combination_text(1) [OF assms(1,3)] combination_text(1) [OF assms(2,4)]
  have len: "length (tree_text a) = length (tree_text a')"
    using combination_text(2) [OF assms(1,3)] combination_text(2) [OF assms(2,4)] assms(5) by simp
  then have "tree_text a = tree_text a'" "sep @ tree_text b = sep' @ tree_text b'"
    using t assms(5) by simp_all
  then show ?thesis using assms(3,4) by auto
qed

text \<open>
  An empty condition is neutral on the left only: on the right it leaves an operator without its
  operand.
\<close>

lemma cond_empty:
  "cond_and False [] c = c" "cond_or False [] c = c"
  "c \<noteq> [] \<Longrightarrow> cond_and False c [] = ''('' @ c @ '' and )''"
  by (simp_all add: cond_and_def cond_or_def)

text \<open>A string value is put between quotes as it is: one with a quote in it ends the text early.\<close>

lemma quote_escapes:
  "field_compare Eq_op ''a'' (Quoted (CHR 0x22 # '' or 1=1 or a='' @ [CHR 0x22])) =
   ''(a='' @ [CHR 0x22, CHR 0x22] @ '' or 1=1 or a='' @ [CHR 0x22, CHR 0x22] @ '')''"
  by (simp add: field_compare_def)

end
