(* ===== verification/SQLResultSet.thy ===== *)
theory SQLResultSet
  imports DBConnect DBCondition StringUtil IniParser
begin

text \<open>
  \<open>db_connect/SQLResultSet.h\<close>: the rows of a query, read page by page through \<open>batchLoad\<close> with the
  last page kept in a buffer, and the iterator over them. \<open>ps\<close> is the template argument
  \<open>page_size\<close>, a positive number. \<open>None\<close> as a result means that a call does not return (the driver
  produces rows without end).
\<close>

section \<open>The result set\<close>

record 'x result_set =
  rs_connected :: bool
  m_buffer :: "'x list"
  m_where :: string
  m_orderby_inner :: string
  m_orderby_outer :: string
  m_current_page :: u64

definition null_size :: u64 where
  "null_size = - 1"

text \<open>\<open>std::string::rfind\<close>.\<close>

definition rfind_str :: "string \<Rightarrow> string \<Rightarrow> nat option" where
  "rfind_str s sub =
     (case filter (\<lambda>i. take (length sub) (drop i s) = sub) [0..<Suc (length s)] of
        [] \<Rightarrow> None
      | ps \<Rightarrow> Some (last ps))"

definition result_set_null :: "'x result_set" where
  "result_set_null =
     \<lparr>rs_connected = False, m_buffer = [], m_where = [], m_orderby_inner = [], m_orderby_outer = [],
      m_current_page = null_size\<rparr>"

definition result_set_new :: "bool \<Rightarrow> string \<Rightarrow> 'x result_set" where
  "result_set_new connected sql =
     (let rs = result_set_null\<lparr>rs_connected := connected, m_where := trim sql\<rparr>
      in if m_where rs = [] then rs\<lparr>m_where := ''1=1'', m_orderby_inner := ''ORDER BY id''\<rparr>
         else case rfind_str (to_upper (m_where rs)) ''ORDER'' of
                Some pos \<Rightarrow>
                  (let inner = drop pos (m_where rs) @ '', id ASC''
                   in rs\<lparr>m_orderby_inner := inner, m_orderby_outer := inner, m_where := take pos (m_where rs)\<rparr>)
              | None \<Rightarrow> rs\<lparr>m_orderby_inner := ''ORDER BY id''\<rparr>)"

text \<open>The template with its arguments: the condition that selects one page.\<close>

definition page_sql :: "string \<Rightarrow> u64 \<Rightarrow> 'x result_set \<Rightarrow> u64 \<Rightarrow> string" where
  "page_sql table ps rs page =
     ''id IN (SELECT id FROM '' @ table @ '' WHERE '' @ m_where rs @ '' '' @ m_orderby_inner rs @
     '' LIMIT '' @ show_nat (unat ps) @ '' OFFSET '' @ show_nat (unat (page * ps)) @ '') '' @ m_orderby_outer rs"

definition result_set_size ::
  "('w, 'd, 't) db_conn \<Rightarrow> ('w, 'x) row_class \<Rightarrow> 'x result_set \<Rightarrow> 'w \<Rightarrow> u64 result \<times> 'w" where
  "result_set_size K T rs w =
     (if \<not> rs_connected rs then (Inr 0, w)
      else case db_queryNumber K False 64
                  (''select count(1) from '' @ rc_tableName T @ '' where '' @ m_where rs) 0 w of
             (Inl e, w1) \<Rightarrow> (Inl e, w1)
           | (Inr n, w1) \<Rightarrow> (Inr (word_of_int n), w1))"

definition result_set_empty ::
  "('w, 'd, 't) db_conn \<Rightarrow> ('w, 'x) row_class \<Rightarrow> 'x result_set \<Rightarrow> 'w \<Rightarrow> bool result \<times> 'w" where
  "result_set_empty K T rs w =
     (case result_set_size K T rs w of (r, w1) \<Rightarrow> (bind_result r (\<lambda>n. Inr (n = 0)), w1))"

definition page_count :: "u64 \<Rightarrow> u64 \<Rightarrow> u64" where
  "page_count ps number =
     (let n = number div ps in if n * ps > number then n else n + 1)"

definition getPageCount ::
  "('w, 'd, 't) db_conn \<Rightarrow> ('w, 'x) row_class \<Rightarrow> u64 \<Rightarrow> 'x result_set \<Rightarrow> 'w \<Rightarrow> u64 result \<times> 'w" where
  "getPageCount K T ps rs w =
     (case result_set_size K T rs w of (r, w1) \<Rightarrow> (bind_result r (\<lambda>n. Inr (page_count ps n)), w1))"

text \<open>\<open>getPage\<close>, on a result set with a connection; the rows read before an exception are lost.\<close>

definition getPage ::
  "('w, 'd, 't) db_conn \<Rightarrow> ('w, 'x) row_class \<Rightarrow> u64 \<Rightarrow> 'x result_set \<Rightarrow> u64 \<Rightarrow> 'w \<Rightarrow>
   ('x list result \<times> 'w) option" where
  "getPage K T ps rs page w =
     (case db_batchLoad K T (page_sql (rc_tableName T) ps rs page) ([], w) of
        None \<Rightarrow> None
      | Some (Some e, (_, w1)) \<Rightarrow> Some (Inl e, w1)
      | Some (None, (result, w1)) \<Rightarrow> Some (Inr result, w1))"

text \<open>
  \<open>get\<close>: an exception leaves the rows read so far in the buffer and the old page number. Past the
  end the result is a default-constructed object.
\<close>

definition result_set_page ::
  "('w, 'd, 't) db_conn \<Rightarrow> ('w, 'x) row_class \<Rightarrow> u64 \<Rightarrow> u64 \<Rightarrow> 'x result_set \<times> 'w \<Rightarrow>
   ('x result_set \<times> 'w) outcome option" where
  "result_set_page K T ps page s =
     (if rs_connected (fst s) \<and> page \<noteq> m_current_page (fst s)
      then case db_batchLoad K T (page_sql (rc_tableName T) ps (fst s) page) ([], snd s) of
             None \<Rightarrow> None
           | Some (Some e, (buf, w1)) \<Rightarrow> Some (Some e, ((fst s)\<lparr>m_buffer := buf\<rparr>, w1))
           | Some (None, (buf, w1)) \<Rightarrow> Some (None, ((fst s)\<lparr>m_buffer := buf, m_current_page := page\<rparr>, w1))
      else Some (None, s))"

definition result_set_get ::
  "('w, 'd, 't) db_conn \<Rightarrow> ('w, 'x) row_class \<Rightarrow> u64 \<Rightarrow> u64 \<Rightarrow> 'x result_set \<times> 'w \<Rightarrow>
   ('x result \<times> 'x result_set \<times> 'w) option" where
  "result_set_get K T ps index s =
     (if index = null_size then Some (Inr (rc_new T), s)
      else
        let page = index div ps; pos = unat (index - page * ps) in
        case result_set_page K T ps page s of
          None \<Rightarrow> None
        | Some (Some e, s1) \<Rightarrow> Some (Inl e, s1)
        | Some (None, s1) \<Rightarrow>
            Some (Inr (if m_buffer (fst s1) = [] \<or> pos \<ge> length (m_buffer (fst s1)) then rc_new T
                       else m_buffer (fst s1) ! pos), s1))"

definition result_set_at ::
  "('w, 'd, 't) db_conn \<Rightarrow> ('w, 'x) row_class \<Rightarrow> u64 \<Rightarrow> u64 \<Rightarrow> 'x result_set \<times> 'w \<Rightarrow>
   ('x result \<times> 'x result_set \<times> 'w) option" where
  "result_set_at K T ps index s =
     (case result_set_get K T ps index s of
        None \<Rightarrow> None
      | Some (r, s1) \<Rightarrow> Some (bind_result r (\<lambda>x. if rc_valid T x then Inr x else Inl OutOfRange), s1))"

section \<open>The iterator\<close>

record 'x rs_iterator =
  m_index :: u64
  m_value :: 'x

definition iter_end :: "('w, 'x) row_class \<Rightarrow> 'x rs_iterator" where
  "iter_end T = \<lparr>m_index = null_size, m_value = rc_new T\<rparr>"

text \<open>The value at an index, and the end iterator's index in place of that of a missing row.\<close>

definition iter_fetch ::
  "('w, 'd, 't) db_conn \<Rightarrow> ('w, 'x) row_class \<Rightarrow> u64 \<Rightarrow> 'x rs_iterator \<Rightarrow> 'x result_set \<times> 'w \<Rightarrow>
   (cpp_error option \<times> 'x rs_iterator \<times> 'x result_set \<times> 'w) option" where
  "iter_fetch K T ps it s =
     (case result_set_get K T ps (m_index it) s of
        None \<Rightarrow> None
      | Some (Inl e, s1) \<Rightarrow> Some (Some e, it, s1)
      | Some (Inr x, s1) \<Rightarrow>
          Some (None, \<lparr>m_index = (if rc_valid T x then m_index it else null_size), m_value = x\<rparr>, s1))"

definition iter_new ::
  "('w, 'd, 't) db_conn \<Rightarrow> ('w, 'x) row_class \<Rightarrow> u64 \<Rightarrow> u64 \<Rightarrow> 'x result_set \<times> 'w \<Rightarrow>
   (cpp_error option \<times> 'x rs_iterator \<times> 'x result_set \<times> 'w) option" where
  "iter_new K T ps index s =
     (let it = \<lparr>m_index = index, m_value = rc_new T\<rparr>
      in if index \<noteq> null_size then iter_fetch K T ps it s else Some (None, it, s))"

definition iter_incr ::
  "('w, 'd, 't) db_conn \<Rightarrow> ('w, 'x) row_class \<Rightarrow> u64 \<Rightarrow> 'x rs_iterator \<Rightarrow> 'x result_set \<times> 'w \<Rightarrow>
   (cpp_error option \<times> 'x rs_iterator \<times> 'x result_set \<times> 'w) option" where
  "iter_incr K T ps it s =
     (if m_index it = null_size then Some (Some LogicError, it, s)
      else iter_fetch K T ps (it\<lparr>m_index := m_index it + 1\<rparr>) s)"

definition iter_neq :: "'x rs_iterator \<Rightarrow> 'x rs_iterator \<Rightarrow> bool" where
  "iter_neq a b \<longleftrightarrow> m_index a \<noteq> m_index b"

text \<open>The copy constructor and the assignment leave the value of the source behind.\<close>

definition iter_copy :: "('w, 'x) row_class \<Rightarrow> 'x rs_iterator \<Rightarrow> 'x rs_iterator" where
  "iter_copy T other = \<lparr>m_index = m_index other, m_value = rc_new T\<rparr>"

definition iter_assign :: "bool \<Rightarrow> 'x rs_iterator \<Rightarrow> 'x rs_iterator \<Rightarrow> 'x rs_iterator" where
  "iter_assign same this other = (if same then this else this\<lparr>m_index := m_index other\<rparr>)"

text \<open>\<open>for (auto it = set.begin(); it != set.end(); ++it)\<close>, collecting \<open>*it\<close>.\<close>

partial_function (option) iterate_from ::
  "('w, 'd, 't) db_conn \<Rightarrow> ('w, 'x) row_class \<Rightarrow> u64 \<Rightarrow> 'x list \<Rightarrow> 'x rs_iterator \<Rightarrow> 'x result_set \<times> 'w \<Rightarrow>
   ('x list result \<times> 'x result_set \<times> 'w) option" where
  "iterate_from K T ps acc it s =
     (if iter_neq it (iter_end T)
      then case iter_incr K T ps it s of
             None \<Rightarrow> None
           | Some (Some e, _, s1) \<Rightarrow> Some (Inl e, s1)
           | Some (None, it1, s1) \<Rightarrow> iterate_from K T ps (acc @ [m_value it]) it1 s1
      else Some (Inr acc, s))"

definition iterate ::
  "('w, 'd, 't) db_conn \<Rightarrow> ('w, 'x) row_class \<Rightarrow> u64 \<Rightarrow> 'x result_set \<times> 'w \<Rightarrow>
   ('x list result \<times> 'x result_set \<times> 'w) option" where
  "iterate K T ps s =
     (case iter_new K T ps 0 s of
        None \<Rightarrow> None
      | Some (Some e, _, s1) \<Rightarrow> Some (Inl e, s1)
      | Some (None, it, s1) \<Rightarrow> iterate_from K T ps [] it s1)"

section \<open>Reading all rows\<close>

text \<open>
  What the driver does for a query, independently of the code that reads it: after the statement has
  been prepared and executed, \<open>moveNext\<close> steps to one row after the other, from each of which \<open>load\<close>
  fills an object, and at last says that there is no other.
\<close>

inductive row_fetches ::
  "('w, 'd, 't) db_conn \<Rightarrow> ('w, 'x) row_class \<Rightarrow> 'w \<Rightarrow> 'x list \<Rightarrow> 'w \<Rightarrow> bool"
  for K :: "('w, 'd, 't) db_conn" and T :: "('w, 'x) row_class" where
  row_fetch_end: "st_moveNext (conn_stmt K) w = (Inr False, w') \<Longrightarrow> row_fetches K T w [] w'"
| row_fetch_next: "st_moveNext (conn_stmt K) w = (Inr True, w1) \<Longrightarrow> rc_load T w1 (rc_new T) = (x, None) \<Longrightarrow>
    row_fetches K T w1 xs w' \<Longrightarrow> row_fetches K T w (x # xs) w'"

definition query_yields ::
  "('w, 'd, 't) db_conn \<Rightarrow> ('w, 'x) row_class \<Rightarrow> string \<Rightarrow> 'w \<Rightarrow> 'x list \<Rightarrow> 'w \<Rightarrow> bool" where
  "query_yields K T sql w xs w' \<longleftrightarrow> (\<exists>w1 w2. conn_getStatement K sql w = (None, w1) \<and>
     st_exec (conn_stmt K) w1 = (None, w2) \<and> row_fetches K T w2 xs w')"

text \<open>The query for at most \<open>n\<close> of the matching rows, without the first \<open>off\<close> of them.\<close>

definition limit_query :: "string \<Rightarrow> string \<Rightarrow> string \<Rightarrow> string \<Rightarrow> string \<Rightarrow> nat \<Rightarrow> nat \<Rightarrow> string" where
  "limit_query select table cond inner outer n off =
     select @ '' where id IN (SELECT id FROM '' @ table @ '' WHERE '' @ cond @ '' '' @ inner @
     '' LIMIT '' @ show_nat n @ '' OFFSET '' @ show_nat off @ '') '' @ outer"

text \<open>
  A database whose rows under the condition are \<open>rows\<close>, in the order asked for, and stay so: it
  answers \<open>LIMIT\<close> and \<open>OFFSET\<close>, which are signed 64-bit numbers in SQL, as documented. \<open>P\<close> holds of
  the states in which this is the content.
\<close>

definition serves_rows ::
  "('w, 'd, 't) db_conn \<Rightarrow> ('w, 'x) row_class \<Rightarrow> 'x result_set \<Rightarrow> 'x list \<Rightarrow> ('w \<Rightarrow> bool) \<Rightarrow> bool" where
  "serves_rows K T rs rows P \<longleftrightarrow> (\<forall>w n off. P w \<longrightarrow> n < 2 ^ 63 \<longrightarrow> off < 2 ^ 63 \<longrightarrow>
     (\<exists>w'. P w' \<and> query_yields K T
        (limit_query (rc_selectSQL T) (rc_tableName T) (m_where rs) (m_orderby_inner rs) (m_orderby_outer rs) n off)
        w (take n (drop off rows)) w'))"

lemma load_rows_fetched: "row_fetches K T w xs w' \<Longrightarrow> load_rows K T acc w = Some (None, (acc @ xs, w'))"
proof (induction arbitrary: acc rule: row_fetches.induct)
  case (row_fetch_end w w')
  then show ?case by (subst load_rows.simps) simp
next
  case (row_fetch_next w w1 x xs w')
  then show ?case by (subst load_rows.simps) simp
qed

lemma batchLoad_yields:
  "query_yields K T (rc_selectSQL T @ '' where '' @ cond) w xs w' \<Longrightarrow> cond \<noteq> [] \<Longrightarrow>
   db_batchLoad K T cond ([], w) = Some (None, (xs, w'))"
  by (auto simp: query_yields_def db_batchLoad_def all_rows_def load_rows_fetched)

text \<open>The buffer is the page its number says.\<close>

definition result_set_inv ::
  "u64 \<Rightarrow> 'x result_set \<Rightarrow> 'x list \<Rightarrow> ('w \<Rightarrow> bool) \<Rightarrow> 'x result_set \<times> 'w \<Rightarrow> bool" where
  "result_set_inv ps rs0 rows P s \<longleftrightarrow>
     P (snd s) \<and> rs_connected (fst s) \<and> m_where (fst s) = m_where rs0 \<and>
     m_orderby_inner (fst s) = m_orderby_inner rs0 \<and> m_orderby_outer (fst s) = m_orderby_outer rs0 \<and>
     (m_current_page (fst s) = null_size \<or>
      m_buffer (fst s) = take (unat ps) (drop (unat (m_current_page (fst s)) * unat ps) rows))"

lemma page_sql_cong:
  "m_where rs = m_where rs0 \<Longrightarrow> m_orderby_inner rs = m_orderby_inner rs0 \<Longrightarrow>
   m_orderby_outer rs = m_orderby_outer rs0 \<Longrightarrow> page_sql t ps rs page = page_sql t ps rs0 page"
  by (simp add: page_sql_def)

lemma unat_null_size: "unat null_size = 2 ^ 64 - 1"
  by (simp add: null_size_def unsigned_minus_1_eq_mask mask_eq_exp_minus_1)

lemma below_null: "unat (i :: u64) < 2 ^ 64 - 1 \<Longrightarrow> i \<noteq> null_size"
  using unat_null_size by auto

text \<open>The text of the code asks for the rows of its page, if the offset does not wrap.\<close>

lemma page_sql_limit:
  assumes "unat page * unat ps < 2 ^ 63"
  shows "rc_selectSQL T @ '' where '' @ page_sql (rc_tableName T) ps rs page =
    limit_query (rc_selectSQL T) (rc_tableName T) (m_where rs) (m_orderby_inner rs) (m_orderby_outer rs)
      (unat ps) (unat page * unat ps)"
proof -
  have "unat page * unat ps < 2 ^ LENGTH(64)" using assms by simp
  then have "unat (page * ps) = unat page * unat ps" using unat_mult_lem [of page ps] by blast
  then show ?thesis by (simp add: page_sql_def limit_query_def)
qed

lemma result_set_page_step:
  assumes "serves_rows K T rs0 rows P" "result_set_inv ps rs0 rows P s"
    and "unat page * unat ps < 2 ^ 63" "unat ps < 2 ^ 63" "page \<noteq> null_size"
  shows "\<exists>s1. result_set_page K T ps page s = Some (None, s1) \<and> result_set_inv ps rs0 rows P s1 \<and>
    m_buffer (fst s1) = take (unat ps) (drop (unat page * unat ps) rows)"
proof (cases "page = m_current_page (fst s)")
  case True
  then show ?thesis using assms(2,5) by (auto simp: result_set_page_def result_set_inv_def)
next
  case False
  have inv: "P (snd s)" "rs_connected (fst s)"
    "page_sql (rc_tableName T) ps (fst s) page = page_sql (rc_tableName T) ps rs0 page"
    using assms(2) by (auto simp: result_set_inv_def intro: page_sql_cong)
  obtain w' where "P w'" "db_batchLoad K T (page_sql (rc_tableName T) ps rs0 page) ([], snd s) =
      Some (None, (take (unat ps) (drop (unat page * unat ps) rows), w'))"
  proof -
    have "page_sql (rc_tableName T) ps rs0 page \<noteq> []" by (simp add: page_sql_def)
    then show ?thesis
      using assms(1,3,4) inv(1) that batchLoad_yields [of K T "page_sql (rc_tableName T) ps rs0 page"]
      unfolding serves_rows_def page_sql_limit [OF assms(3)] by blast
  qed
  then show ?thesis
    using False inv assms(2) by (simp add: result_set_page_def result_set_inv_def)
qed

lemma result_set_get_row:
  assumes "serves_rows K T rs0 rows P" "result_set_inv ps rs0 rows P s"
    and "0 < ps" "unat ps < 2 ^ 63" "unat index < 2 ^ 63"
  shows "\<exists>s1. result_set_get K T ps index s =
      Some (Inr (if unat index < length rows then rows ! unat index else rc_new T), s1) \<and>
    result_set_inv ps rs0 rows P s1"
proof -
  let ?page = "index div ps" and ?i = "unat index" and ?p = "unat ps"
  have p: "0 < ?p" using assms(3) by (simp add: word_less_nat_alt)
  have page: "unat ?page = ?i div ?p" by (simp add: unat_div)
  have start: "unat (?page * ps) = ?i div ?p * ?p"
  proof -
    have "?i div ?p * ?p < 2 ^ LENGTH(64)"
      using unat_less_exp [of index] div_times_less_eq_dividend [of ?i ?p] by (rule order_le_less_trans [rotated])
    then show ?thesis using unat_mult_lem [of ?page ps] by (simp only: page)
  qed
  have pos: "unat (index - ?page * ps) = ?i mod ?p"
    by (subst unat_sub) (simp_all add: word_le_nat_alt start minus_div_mult_eq_mod)
  have "?page \<noteq> null_size"
  proof
    assume "?page = null_size"
    then have "?i div ?p = 2 ^ 64 - 1" using page unat_null_size by simp
    then have "?i \<ge> 2 ^ 64 - 1" using div_le_dividend [of ?i ?p] by simp
    then show False using assms(5) by simp
  qed
  moreover have "?i div ?p * ?p < 2 ^ 63"
    by (rule order_le_less_trans [OF div_times_less_eq_dividend assms(5)])
  ultimately obtain s1 where s1: "result_set_page K T ps ?page s = Some (None, s1)"
    "result_set_inv ps rs0 rows P s1" "m_buffer (fst s1) = take ?p (drop (?i div ?p * ?p) rows)"
    using result_set_page_step [OF assms(1,2) _ assms(4)] page by metis
  have "?i mod ?p < length (m_buffer (fst s1)) \<longleftrightarrow> ?i < length rows"
    using p by (simp add: s1(3) less_diff_conv mod_div_mult_eq)
  moreover have "m_buffer (fst s1) ! (?i mod ?p) = rows ! ?i" if "?i < length rows"
    using p that nth_drop [OF order_trans [OF div_times_less_eq_dividend less_imp_le], of ?i rows ?p "?i mod ?p"]
    by (simp add: s1(3))
  moreover have "index \<noteq> null_size" using assms(5) by (intro below_null) simp
  ultimately show ?thesis
    using s1(1,2) pos by (auto simp: result_set_get_def Let_def)
qed

lemma result_set_start: "P w \<Longrightarrow> result_set_inv ps (result_set_new True sql) rows P (result_set_new True sql, w)"
  by (auto simp: result_set_inv_def result_set_new_def result_set_null_def Let_def split: option.splits)

lemma iterate_from_rows:
  assumes serves: "serves_rows K T rs0 rows P" and "0 < ps" "unat ps < 2 ^ 63" "length rows < 2 ^ 63"
    and rows: "\<forall>x \<in> set rows. rc_valid T x" and "\<not> rc_valid T (rc_new T)"
  shows "result_set_inv ps rs0 rows P s \<Longrightarrow> unat index < length rows \<Longrightarrow> m_index it = index \<Longrightarrow>
    m_value it = rows ! unat index \<Longrightarrow>
    \<exists>s1. iterate_from K T ps acc it s = Some (Inr (acc @ drop (unat index) rows), s1) \<and> result_set_inv ps rs0 rows P s1"
proof (induction "length rows - unat index" arbitrary: index it acc s)
  case 0
  then show ?case by simp
next
  case (Suc k)
  have index: "index \<noteq> null_size" using Suc.prems(2) assms(4) by (intro below_null) simp
  have next_index: "unat (index + 1) = Suc (unat index)"
    using unat_add_less [of index 1] Suc.prems(2) assms(4) by simp
  have less: "Suc (unat index) < 2 ^ 63" using Suc.prems(2) assms(4) by simp
  then have "index + 1 \<noteq> null_size" using next_index by (intro below_null) simp
  obtain s1 where get: "result_set_get K T ps (index + 1) s =
      Some (Inr (if Suc (unat index) < length rows then rows ! Suc (unat index) else rc_new T), s1)"
    and inv: "result_set_inv ps rs0 rows P s1"
    using result_set_get_row [OF serves Suc.prems(1) assms(2,3), of "index + 1"] less next_index by auto
  have split: "drop (unat index) rows = m_value it # drop (Suc (unat index)) rows"
    using Suc.prems(2,4) by (simp add: Cons_nth_drop_Suc)
  have neq: "iter_neq it (iter_end T)" using index Suc.prems(3) by (simp add: iter_neq_def iter_end_def)
  show ?case
  proof (cases "Suc (unat index) < length rows")
    case True
    let ?it = "\<lparr>m_index = index + 1, m_value = rows ! Suc (unat index)\<rparr>"
    have "iter_incr K T ps it s = Some (None, ?it, s1)"
      using True get rows index Suc.prems(3) by (simp add: iter_incr_def iter_fetch_def)
    moreover have "\<exists>s2. iterate_from K T ps (acc @ [m_value it]) ?it s1 =
        Some (Inr ((acc @ [m_value it]) @ drop (unat (index + 1)) rows), s2) \<and> result_set_inv ps rs0 rows P s2"
      using Suc.hyps(2) inv True next_index by (intro Suc.hyps(1)) simp_all
    ultimately show ?thesis
      using neq split next_index by (subst iterate_from.simps) simp
  next
    case False
    have "iter_incr K T ps it s = Some (None, \<lparr>m_index = null_size, m_value = rc_new T\<rparr>, s1)"
      using False get assms(6) index Suc.prems(3) by (simp add: iter_incr_def iter_fetch_def)
    moreover have "iterate_from K T ps (acc @ [m_value it]) \<lparr>m_index = null_size, m_value = rc_new T\<rparr> s1 =
        Some (Inr (acc @ [m_value it]), s1)"
      by (subst iterate_from.simps) (simp add: iter_neq_def iter_end_def)
    ultimately show ?thesis
      using neq split False inv by (subst iterate_from.simps) simp
  qed
qed

text \<open>
  Property C11: let the database answer the query for at most \<open>n\<close> matching rows from the row \<open>off\<close>
  on with those rows, as documented of \<open>LIMIT\<close> and \<open>OFFSET\<close>, and let its content stay the same. Then
  iterating over a result set from \<open>begin\<close> to \<open>end\<close> terminates and yields exactly the matching rows,
  in order, whatever the page size; and \<open>at\<close>, in any order of accesses, yields the row at its index
  and throws \<open>out_of_range\<close> behind the last one, however far (for the indices below \<open>2 ^ 63\<close>, which
  an \<open>OFFSET\<close> can express), and for the null index. Without a connection it always throws.
\<close>

theorem result_set_reads_rows:
  assumes "serves_rows K T rs rows P" "result_set_inv ps rs rows P s" "0 < ps" "unat ps < 2 ^ 63"
    and "length rows < 2 ^ 63" "\<forall>x \<in> set rows. rc_valid T x" "\<not> rc_valid T (rc_new T)"
  shows "(\<exists>s1. iterate K T ps s = Some (Inr rows, s1) \<and> result_set_inv ps rs rows P s1) \<and>
    (\<forall>i. unat i < 2 ^ 63 \<longrightarrow>
      (\<exists>s1. result_set_at K T ps i s =
         Some (if unat i < length rows then Inr (rows ! unat i) else Inl OutOfRange, s1) \<and>
       result_set_inv ps rs rows P s1)) \<and>
    result_set_at K T ps null_size s = Some (Inl OutOfRange, s) \<and>
    (\<forall>i w. result_set_at K T ps i (result_set_null, w) = Some (Inl OutOfRange, (result_set_null, w)))"
proof (intro conjI)
  have zero: "(0 :: u64) \<noteq> null_size" using below_null [of 0] by simp
  obtain s1 where get: "result_set_get K T ps 0 s = Some (Inr (if 0 < length rows then rows ! 0 else rc_new T), s1)"
    and inv: "result_set_inv ps rs rows P s1"
    using result_set_get_row [OF assms(1-4), of 0] by auto
  show "\<exists>s1. iterate K T ps s = Some (Inr rows, s1) \<and> result_set_inv ps rs rows P s1"
  proof (cases "rows = []")
    case True
    then have "iter_new K T ps 0 s = Some (None, \<lparr>m_index = null_size, m_value = rc_new T\<rparr>, s1)"
      using get assms(7) zero by (simp add: iter_new_def iter_fetch_def)
    moreover have "iterate_from K T ps [] \<lparr>m_index = null_size, m_value = rc_new T\<rparr> s1 = Some (Inr [], s1)"
      by (subst iterate_from.simps) (simp add: iter_neq_def iter_end_def)
    ultimately show ?thesis using inv True by (simp add: iterate_def)
  next
    case False
    let ?it = "\<lparr>m_index = 0, m_value = rows ! 0\<rparr>"
    have "iter_new K T ps 0 s = Some (None, ?it, s1)"
      using get assms(6) zero False by (simp add: iter_new_def iter_fetch_def Let_def)
    then show ?thesis
      using iterate_from_rows [OF assms(1,3-7) inv, of 0 ?it "[]"] False by (simp add: iterate_def)
  qed
next
  show "\<forall>i. unat i < 2 ^ 63 \<longrightarrow>
      (\<exists>s1. result_set_at K T ps i s =
         Some (if unat i < length rows then Inr (rows ! unat i) else Inl OutOfRange, s1) \<and>
       result_set_inv ps rs rows P s1)"
  proof (intro allI impI)
    fix i :: u64 assume "unat i < 2 ^ 63"
    then obtain s1 where "result_set_get K T ps i s =
        Some (Inr (if unat i < length rows then rows ! unat i else rc_new T), s1)" "result_set_inv ps rs rows P s1"
      using result_set_get_row [OF assms(1-4)] by blast
    then show "\<exists>s1. result_set_at K T ps i s =
         Some (if unat i < length rows then Inr (rows ! unat i) else Inl OutOfRange, s1) \<and>
       result_set_inv ps rs rows P s1"
      using assms(6,7) by (simp add: result_set_at_def)
  qed
next
  show "result_set_at K T ps null_size s = Some (Inl OutOfRange, s)"
    using assms(7) by (simp add: result_set_at_def result_set_get_def)
next
  show "\<forall>i w. result_set_at K T ps i (result_set_null, w) = Some (Inl OutOfRange, (result_set_null, w))"
    using assms(7) by (simp add: result_set_at_def result_set_get_def result_set_page_def result_set_null_def Let_def)
qed

text \<open>
  An instance: a connection over the rows 7, 8 and 9 that reads the two numbers of the query and
  steps a cursor over the rows they select.
\<close>

record cursor =
  cur_sql :: string
  cur_next :: "u64 list"
  cur_row :: u64

definition cursor_numbers :: "string \<Rightarrow> nat \<times> nat" where
  "cursor_numbers sql =
     (let rest = drop (length ''select id from T where id IN (SELECT id FROM T WHERE 1=1 ORDER BY id LIMIT '') sql;
          n = takeWhile is_digit rest;
          off = takeWhile is_digit (drop (length n + length '' OFFSET '') rest)
      in (nat (digits_value n), nat (digits_value off)))"

definition cursor_select :: "string \<Rightarrow> u64 list" where
  "cursor_select sql = (case cursor_numbers sql of (n, off) \<Rightarrow> take n (drop off [7, 8, 9]))"

definition cursor_conn :: "(cursor, unit, unit) db_conn" where
  "cursor_conn = \<lparr>
     conn_stmt = \<lparr>
       sub_exec = (\<lambda>c. (None, c\<lparr>cur_next := cursor_select (cur_sql c)\<rparr>)),
       sub_moveNext = (\<lambda>c. case cur_next c of
          [] \<Rightarrow> (Inr False, c) | x # xs \<Rightarrow> (Inr True, c\<lparr>cur_next := xs, cur_row := x\<rparr>)),
       sub_getLastRowid = (\<lambda>c. 0),
       sub_bindNull = (\<lambda>i. Pair None), sub_bindInt = (\<lambda>i v. Pair None), sub_bindDouble = (\<lambda>i v. Pair None),
       sub_bindDatetime = (\<lambda>i v. Pair None), sub_bindText = (\<lambda>i v. Pair None),
       sub_bindBlob = (\<lambda>i v. Pair None), sub_bindBlobChars = (\<lambda>i v. Pair None),
       sub_getNumColumns = (\<lambda>c. 1), sub_getColumnAsInt64 = (\<lambda>i c. Inr (ucast (cur_row c))),
       sub_getColumnAsDouble = (\<lambda>i c. Inr ()), sub_getColumnAsDatetime = (\<lambda>i c. Inr ()),
       sub_getColumnAsText = (\<lambda>i c. Inr []), sub_getColumnAsBlob = (\<lambda>i c. Inr []),
       sub_getColumnAsBlobChars = (\<lambda>i c. Inr [])\<rparr>,
     conn_transaction = Pair None, conn_commit = Pair None, conn_rollback = id,
     conn_exec = (\<lambda>sql. Pair None), conn_getStatement = (\<lambda>sql c. (None, c\<lparr>cur_sql := sql\<rparr>)),
     conn_tableExist = (\<lambda>t c. (Inr True, c))\<rparr>"

definition cursor_class :: "(cursor, u64) row_class" where
  "cursor_class = \<lparr>rc_new = 0, rc_valid = (\<lambda>x. x \<noteq> 0), rc_rowid = id, rc_setRowid = (\<lambda>i x. i),
     rc_tableName = ''T'', rc_insertSQL = [], rc_updateSQL = [], rc_selectSQL = ''select id from T'',
     rc_save = (\<lambda>x. Pair None), rc_update = (\<lambda>x. Pair None), rc_load = (\<lambda>c x. (cur_row c, None))\<rparr>"

lemma cursor_fetches: "\<exists>c'. row_fetches cursor_conn cursor_class (c\<lparr>cur_next := xs\<rparr>) xs c'"
proof (induction xs arbitrary: c)
  case Nil
  have "st_moveNext (conn_stmt cursor_conn) (c\<lparr>cur_next := []\<rparr>) = (Inr False, c\<lparr>cur_next := []\<rparr>)"
    by (simp add: cursor_conn_def st_moveNext_def)
  then show ?case by (blast intro: row_fetch_end)
next
  case (Cons x xs)
  let ?c = "c\<lparr>cur_row := x\<rparr>"
  have "st_moveNext (conn_stmt cursor_conn) (c\<lparr>cur_next := x # xs\<rparr>) = (Inr True, ?c\<lparr>cur_next := xs\<rparr>)"
    by (simp add: cursor_conn_def st_moveNext_def)
  moreover have "rc_load cursor_class (?c\<lparr>cur_next := xs\<rparr>) (rc_new cursor_class) = (x, None)"
    by (simp add: cursor_class_def)
  ultimately show ?case using Cons.IH [of ?c] by (blast intro: row_fetch_next)
qed

lemma takeWhile_digits: "takeWhile is_digit (show_nat n @ c # cs) = show_nat n" if "\<not> is_digit c"
  using show_nat_digits [of n] that by (simp add: takeWhile_tail)

lemma cursor_numbers_query:
  "cursor_numbers (limit_query ''select id from T'' ''T'' ''1=1'' ''ORDER BY id'' outer n off) = (n, off)"
  by (simp add: cursor_numbers_def limit_query_def Let_def takeWhile_digits is_digit_def digits_value_show)

lemma cursor_serves: "serves_rows cursor_conn cursor_class (result_set_new True '''') [7, 8, 9] (\<lambda>_. True)"
proof -
  have fields: "m_where (result_set_new True '''') = ''1=1''" "m_orderby_inner (result_set_new True '''') = ''ORDER BY id''"
    by code_simp+
  have "\<exists>c'. query_yields cursor_conn cursor_class
      (limit_query ''select id from T'' ''T'' ''1=1'' ''ORDER BY id'' outer n off) c (take n (drop off [7, 8, 9])) c'"
    for outer n off c
  proof -
    let ?sql = "limit_query ''select id from T'' ''T'' ''1=1'' ''ORDER BY id'' outer n off"
    have "st_exec (conn_stmt cursor_conn) (c\<lparr>cur_sql := ?sql\<rparr>) =
        (None, (c\<lparr>cur_sql := ?sql\<rparr>)\<lparr>cur_next := take n (drop off [7, 8, 9])\<rparr>)"
      by (simp add: cursor_conn_def st_exec_def cursor_select_def cursor_numbers_query)
    then show ?thesis
      using cursor_fetches by (fastforce simp: query_yields_def cursor_conn_def)
  qed
  then show ?thesis by (simp add: serves_rows_def fields cursor_class_def)
qed

text \<open>Two pages of two rows: all three are read in order, and \<open>at(1000)\<close> throws.\<close>

theorem result_set_reads_rows_witness:
  "(\<exists>s1. iterate cursor_conn cursor_class 2 (result_set_new True '''', \<lparr>cur_sql = [], cur_next = [], cur_row = 0\<rparr>) =
      Some (Inr [7, 8, 9], s1)) \<and>
   (\<exists>s1. result_set_at cursor_conn cursor_class 2 1000
        (result_set_new True '''', \<lparr>cur_sql = [], cur_next = [], cur_row = 0\<rparr>) = Some (Inl OutOfRange, s1))"
proof -
  have inv: "result_set_inv 2 (result_set_new True '''') [7, 8, 9] (\<lambda>_. True)
      (result_set_new True '''', \<lparr>cur_sql = [], cur_next = [], cur_row = 0\<rparr>)"
    by (rule result_set_start) simp
  have valid: "\<forall>x \<in> set [7, 8, 9]. rc_valid cursor_class x" "\<not> rc_valid cursor_class (rc_new cursor_class)"
    by (simp_all add: cursor_class_def)
  note reads = result_set_reads_rows [OF cursor_serves inv _ _ _ valid]
  have "unat (1000 :: u64) < 2 ^ 63" by simp
  then show ?thesis using reads by fastforce
qed

section \<open>Pages and conditions\<close>

text \<open>
  The number of pages: the product in the test never exceeds the total, so a page too many is
  counted whenever the last one is full, and one for no rows at all.
\<close>

lemma page_count_value: "0 < ps \<Longrightarrow> page_count ps number = number div ps + 1"
proof -
  have "unat (number div ps * ps) \<le> unat number"
  proof -
    have "unat number div unat ps * unat ps < 2 ^ LENGTH(64)"
      using unat_less_exp [of number] div_times_less_eq_dividend [of "unat number" "unat ps"]
      by (rule order_le_less_trans [rotated])
    then have "unat (number div ps * ps) = unat number div unat ps * unat ps"
      using unat_mult_lem [of "number div ps" ps] by (simp only: unat_div)
    then show ?thesis by simp
  qed
  then show ?thesis by (simp add: page_count_def Let_def word_less_nat_alt)
qed

text \<open>
  A condition on a column whose name holds the word is cut in two: the rest of it is taken for the
  ordering.
\<close>

lemma order_column_split:
  "m_where (result_set_new True (field_compare Eq_op ''order_id'' (Plain ''1''))) = ''('' \<and>
   m_orderby_inner (result_set_new True (field_compare Eq_op ''order_id'' (Plain ''1''))) = ''order_id=1), id ASC''"
  by code_simp

end
