(* ===== verification/DBUpgrade.thy ===== *)
theory DBUpgrade
  imports DBConnect
begin

text \<open>
  \<open>db_connect/DBUpgrade.cpp\<close>: bringing the tables of a module to the version of its last upgrade
  script. Versions are \<open>int\<close>s; the sums of the code are assumed to stay in range. Which table
  creation text is used depends on the dynamic type of the connection.
\<close>

datatype db_kind = SQLite_db | MySQL_db | Other_db

definition newline :: string where
  "newline = [CHR 0x0A]"

definition create_version_sql :: "db_kind \<Rightarrow> string option" where
  "create_version_sql kind = (case kind of
     SQLite_db \<Rightarrow> Some (''CREATE TABLE `module_version` (`id` INTEGER PRIMARY KEY AUTOINCREMENT,`module` '' @
       ''TEXT, `version` INTEGER NOT NULL);'')
   | MySQL_db \<Rightarrow> Some (''CREATE TABLE `module_version` ('' @ newline @
       ''  `id` int NOT NULL AUTO_INCREMENT,'' @ newline @
       ''  `module` varchar(20) DEFAULT NULL,'' @ newline @
       ''  `version` int NOT NULL,'' @ newline @
       ''  PRIMARY KEY (`id`)'' @ newline @
       '') ENGINE=InnoDB AUTO_INCREMENT=1 DEFAULT CHARSET=utf8mb4 COLLATE=utf8mb4_0900_ai_ci;'')
   | Other_db \<Rightarrow> None)"

definition quoted :: "string \<Rightarrow> string" where
  "quoted s = CHR 0x22 # s @ [CHR 0x22]"

definition select_version_sql :: "string \<Rightarrow> string" where
  "select_version_sql module_name =
     ''select `version` from `module_version` where module='' @ quoted module_name @ '' limit 1''"

definition insert_version_sql :: "string \<Rightarrow> string" where
  "insert_version_sql module_name =
     ''INSERT INTO `module_version` (module, version) VALUES ('' @ quoted module_name @ '', 1);''"

definition update_version_sql :: "string \<Rightarrow> int \<Rightarrow> string" where
  "update_version_sql module_name v =
     ''UPDATE module_version SET `version`='' @ show_int v @ '' where `module`='' @ quoted module_name"

text \<open>\<open>driver->exec\<close> of several texts, one after the other; an exception ends the sequence.\<close>

fun exec_all :: "('w, 'd, 't) db_conn \<Rightarrow> string list \<Rightarrow> 'w \<Rightarrow> 'w outcome" where
  "exec_all K [] w = (None, w)"
| "exec_all K (sql # sqls) w = then_do (conn_exec K sql w) (exec_all K sqls)"

text \<open>The second part: from the version that was found.\<close>

definition run_upgrades ::
  "('w, 'd, 't) db_conn \<Rightarrow> string \<Rightarrow> string list \<Rightarrow> int \<Rightarrow> int \<Rightarrow> 'w \<Rightarrow> 'w outcome" where
  "run_upgrades K module_name scripts start_version version w =
     (if version < start_version - 1 then (None, w)
      else if length scripts = 0 then (None, w)
      else
        let to_version = start_version + int (length scripts) - 1 in
        if version \<ge> to_version then (None, w)
        else
          let start_index = (if version < start_version then 0 else version - start_version + 1)
          in then_do (exec_all K (drop (nat start_index) scripts) w)
               (conn_exec K (update_version_sql module_name to_version)))"

definition db_upgrade ::
  "('w, 'd, 't) db_conn \<Rightarrow> db_kind \<Rightarrow> string \<Rightarrow> string list \<Rightarrow> int \<Rightarrow> string option \<Rightarrow> 'w \<Rightarrow> 'w outcome" where
  "db_upgrade K kind module_name scripts start_version create_script w =
     (case conn_tableExist K ''module_version'' w of
        (Inl e, w1) \<Rightarrow> (Some e, w1)
      | (Inr exist, w1) \<Rightarrow>
          then_do (case create_version_sql kind of
                     Some sql \<Rightarrow> if exist then (None, w1) else conn_exec K sql w1
                   | None \<Rightarrow> (None, w1))
            (\<lambda>w2.
               if scripts = [] \<and> create_script = None then (None, w2)
               else case db_queryInt K (select_version_sql module_name) 0 w2 of
                 (r, w3) \<Rightarrow>
                   (let version = (case r of Inl e \<Rightarrow> 0 | Inr n \<Rightarrow> n)
                    in if version = 0
                       then case create_script of
                              None \<Rightarrow> (None, w3)
                            | Some sql \<Rightarrow>
                                then_do (exec_all K [sql, insert_version_sql module_name] w3)
                                  (run_upgrades K module_name scripts start_version 1)
                       else run_upgrades K module_name scripts start_version version w3)))"

section \<open>The plan\<close>

text \<open>
  What is to be executed for a module found at a version: the creation for version 0, then the
  scripts of the versions above, script \<open>i\<close> leading to version \<open>start_version + i\<close>, then the new
  version number.
\<close>

definition upgrade_plan :: "string \<Rightarrow> string list \<Rightarrow> int \<Rightarrow> int \<Rightarrow> string list" where
  "upgrade_plan module_name scripts start_version version =
     (let missing = map snd (filter (\<lambda>(i, s). version < start_version + int i) (zip [0..<length scripts] scripts))
      in if version < start_version - 1 \<or> missing = [] then []
         else missing @ [update_version_sql module_name (start_version + int (length scripts) - 1)])"

definition full_plan :: "string \<Rightarrow> string list \<Rightarrow> int \<Rightarrow> string option \<Rightarrow> int \<Rightarrow> string list" where
  "full_plan module_name scripts start_version create_script version =
     (if version = 0
      then case create_script of
             None \<Rightarrow> []
           | Some sql \<Rightarrow> sql # insert_version_sql module_name # upgrade_plan module_name scripts start_version 1
      else upgrade_plan module_name scripts start_version version)"

lemma exec_all_append: "exec_all K (xs @ ys) w = then_do (exec_all K xs w) (exec_all K ys)"
proof (induction xs arbitrary: w)
  case (Cons x xs)
  then show ?case by (cases "conn_exec K x w"; cases "fst (conn_exec K x w)") auto
qed simp

lemma exec_all_single: "exec_all K [x] = conn_exec K x"
proof
  show "exec_all K [x] w = conn_exec K x w" for w
    by (cases "conn_exec K x w"; cases "fst (conn_exec K x w)") auto
qed

lemma missing_scripts:
  assumes "start - 1 \<le> version"
  shows "map snd (filter (\<lambda>(i, s). version < start + int i) (zip [0..<length scripts] scripts)) =
    drop (nat (version - start + 1)) scripts"
proof -
  let ?k = "nat (version - start + 1)"
  have "filter (\<lambda>(i, s). version < start + int i) (zip [m..<m + length xs] xs) =
      drop (?k - m) (zip [m..<m + length xs] xs)" for m and xs :: "'a list"
  proof (induction xs arbitrary: m)
    case (Cons x xs)
    have up: "[m..<m + length (x # xs)] = m # [Suc m..<Suc m + length xs]" by (simp add: upt_rec [of m] Suc_le_eq)
    show ?case
    proof (cases "version < start + int m")
      case True
      then have k: "?k \<le> m" using assms by simp
      then have "drop (?k - Suc m) (zip [Suc m..<Suc m + length xs] xs) = zip [Suc m..<Suc m + length xs] xs" by simp
      with Cons [of "Suc m"] True k show ?thesis unfolding up by simp
    next
      case False
      then have "?k - m = Suc (?k - Suc m)" using assms by simp
      with Cons [of "Suc m"] False show ?thesis unfolding up by simp
    qed
  qed simp
  from this [of 0 scripts] show ?thesis by (simp add: drop_zip)
qed

lemma run_upgrades_plan:
  "run_upgrades K module_name scripts start version w = exec_all K (upgrade_plan module_name scripts start version) w"
proof (cases "version < start - 1 \<or> scripts = []")
  case True
  then show ?thesis by (auto simp: run_upgrades_def upgrade_plan_def)
next
  case False
  let ?k = "nat (version - start + 1)"
  have index: "nat (if version < start then 0 else version - start + 1) = ?k" using False by simp
  have missing: "map snd (filter (\<lambda>(i, s). version < start + int i) (zip [0..<length scripts] scripts)) = drop ?k scripts"
    using False by (intro missing_scripts) simp
  have "drop ?k scripts = [] \<longleftrightarrow> version \<ge> start + int (length scripts) - 1" using False by auto
  then show ?thesis
    using False index
    by (auto simp: run_upgrades_def upgrade_plan_def Let_def missing exec_all_append exec_all_single)
qed

lemma exec_all_run:
  "then_do (exec_all K xs w) (run_upgrades K module_name scripts start v) =
   exec_all K (xs @ upgrade_plan module_name scripts start v) w"
proof -
  have "run_upgrades K module_name scripts start v = exec_all K (upgrade_plan module_name scripts start v)"
    by (rule ext) (rule run_upgrades_plan)
  then show ?thesis by (simp only: exec_all_append)
qed

text \<open>
  Property C30: on a connection whose version table exists, \<open>DBUpgrade\<close> executes exactly the plan for
  the version it reads (0 when the query fails), in order and up to the first exception: the
  creation if the module is missing, each script whose version is above the one found, once, and
  last the update of the version number, which is left out if a script throws.
\<close>

theorem db_upgrade_executes_plan:
  assumes "conn_tableExist K ''module_version'' w = (Inr True, w1)" "scripts \<noteq> [] \<or> create_script \<noteq> None"
    and "db_queryInt K (select_version_sql module_name) 0 w1 = (r, w2)"
  shows "db_upgrade K kind module_name scripts start create_script w =
    exec_all K (full_plan module_name scripts start create_script (case r of Inl e \<Rightarrow> 0 | Inr n \<Rightarrow> n)) w2"
proof -
  have created: "then_do (case create_version_sql kind of
        Some sql \<Rightarrow> if True then (None, w1) else conn_exec K sql w1 | None \<Rightarrow> (None, w1)) f = f w1" for f
    by (cases "create_version_sql kind") simp_all
  have plan: "(if v = 0 then case create_script of None \<Rightarrow> (None, w2)
         | Some sql \<Rightarrow> then_do (exec_all K [sql, insert_version_sql module_name] w2)
             (run_upgrades K module_name scripts start 1)
       else run_upgrades K module_name scripts start v w2) =
      exec_all K (full_plan module_name scripts start create_script v) w2" for v
    by (cases create_script) (simp_all add: full_plan_def run_upgrades_plan exec_all_run del: exec_all.simps(2))
  have "\<not> (scripts = [] \<and> create_script = None)" using assms(2) by blast
  then show ?thesis
    using assms(1,3) by (simp only: db_upgrade_def created plan Let_def prod.case sum.case if_False)
qed

text \<open>At the final version there is nothing left to do; below it the number is updated last.\<close>

lemma plan_at_end:
  "scripts \<noteq> [] \<Longrightarrow> start + int (length scripts) - 1 \<le> v \<Longrightarrow> upgrade_plan m scripts start v = []"
  using missing_scripts [of start v scripts] by (auto simp: upgrade_plan_def Let_def)

lemma plan_last:
  "upgrade_plan m scripts start v \<noteq> [] \<Longrightarrow>
   last (upgrade_plan m scripts start v) = update_version_sql m (start + int (length scripts) - 1)"
  by (auto simp: upgrade_plan_def Let_def split: if_splits)

text \<open>
  Without a transaction a script that throws leaves the scripts before it executed and the version
  number as it was: the next upgrade executes them again.
\<close>

lemma plan_interrupted:
  assumes "exec_all K xs w = (None, w1)" "conn_exec K sql w1 = (Some e, w2)"
  shows "exec_all K (xs @ sql # ys) w = (Some e, w2)"
  using assms by (simp add: exec_all_append)

text \<open>
  An instance: a module that is not there yet, its creation and two upgrades, each of which inserts a
  row.
\<close>

theorem db_upgrade_executes_plan_witness:
  "\<exists>w. db_upgrade mem_conn SQLite_db ''m'' [''i 2'', ''i 3''] 2 (Some ''i 1'') (mem_start 0) = (None, w) \<and> mem_rows w = 3"
proof -
  let ?q = "db_queryInt mem_conn (select_version_sql ''m'') 0 (mem_start 0)"
  have q: "?q = (Inr 0, \<lparr>mem_rows = 0, mem_work = None, mem_stmt = select_version_sql ''m''\<rparr>)"
    by (simp add: db_queryInt_def db_queryNumber_def Let_def mem_conn_defs st_exec_def st_moveNext_def
        select_version_sql_def not_one_element_def null_int_def)
  have plan: "full_plan ''m'' [''i 2'', ''i 3''] 2 (Some ''i 1'') 0 =
      [''i 1'', insert_version_sql ''m'', ''i 2'', ''i 3'', update_version_sql ''m'' 3]"
    by (simp add: full_plan_def upgrade_plan_def)
  have t: "conn_tableExist mem_conn ''module_version'' (mem_start 0) = (Inr True, mem_start 0)"
    by (simp add: mem_conn_def)
  have "db_upgrade mem_conn SQLite_db ''m'' [''i 2'', ''i 3''] 2 (Some ''i 1'') (mem_start 0) =
      exec_all mem_conn (full_plan ''m'' [''i 2'', ''i 3''] 2 (Some ''i 1'') 0)
        \<lparr>mem_rows = 0, mem_work = None, mem_stmt = select_version_sql ''m''\<rparr>"
    using db_upgrade_executes_plan [OF t _ q, of "[''i 2'', ''i 3'']" "Some ''i 1''" SQLite_db 2] by simp
  then show ?thesis
    by (simp add: plan mem_conn_def mem_run_def mem_view_def mem_put_def insert_version_sql_def update_version_sql_def)
qed

end
