(* ===== verification/SQLite.thy ===== *)
theory SQLite
  imports DBConnect
begin

text \<open>
  The SQLite driver, \<open>db_connect/sqlite/SQLiteConnect.cpp\<close> and \<open>SQLiteStatement.cpp\<close>. The C library
  is a parameter: a record of the functions the driver calls, on a state \<open>'e\<close> that holds the
  database and the prepared statement in use. Status codes are the library's integers.
\<close>

section \<open>The library\<close>

record ('e, 'd) sqlite_api =
  sqlite3_exec :: "string \<Rightarrow> 'e \<Rightarrow> int \<times> 'e"
  sqlite3_changes :: "'e \<Rightarrow> int"
  sqlite3_prepare :: "string \<Rightarrow> 'e \<Rightarrow> int \<times> bool \<times> 'e"  \<comment> \<open>status, a statement was made\<close>
  sqlite3_step :: "'e \<Rightarrow> int \<times> 'e"
  sqlite3_reset :: "'e \<Rightarrow> int \<times> 'e"
  sqlite3_bind_null :: "nat \<Rightarrow> 'e \<Rightarrow> int \<times> 'e"
  sqlite3_bind_int64 :: "nat \<Rightarrow> u64 \<Rightarrow> 'e \<Rightarrow> int \<times> 'e"
  sqlite3_bind_double :: "nat \<Rightarrow> 'd \<Rightarrow> 'e \<Rightarrow> int \<times> 'e"
  sqlite3_bind_text :: "nat \<Rightarrow> string \<Rightarrow> 'e \<Rightarrow> int \<times> 'e"
  sqlite3_bind_blob :: "nat \<Rightarrow> string \<Rightarrow> 'e \<Rightarrow> int \<times> 'e"
  sqlite3_column_count :: "'e \<Rightarrow> nat"
  sqlite3_column_int64 :: "nat \<Rightarrow> 'e \<Rightarrow> u64"
  sqlite3_column_double :: "nat \<Rightarrow> 'e \<Rightarrow> 'd"
  sqlite3_column_text :: "nat \<Rightarrow> 'e \<Rightarrow> string option"
  sqlite3_column_blob :: "nat \<Rightarrow> 'e \<Rightarrow> string option"
  sqlite3_last_insert_rowid :: "'e \<Rightarrow> u64"

abbreviation SQLITE_OK :: int where "SQLITE_OK \<equiv> 0"
abbreviation SQLITE_ROW :: int where "SQLITE_ROW \<equiv> 100"
abbreviation SQLITE_DONE :: int where "SQLITE_DONE \<equiv> 101"

text \<open>\<open>Datetime\<close>: its null value, its text and the constructor from a text.\<close>

record 't datetime_codec =
  dt_null :: 't
  dt_str :: "'t \<Rightarrow> string"
  dt_of_str :: "string \<Rightarrow> 't result"

section \<open>Statements\<close>

record 'e sqlite_stmt =
  m_needs_reset :: bool
  m_step_status :: int
  m_at_first_step :: bool
  engine :: 'e

text \<open>\<open>SQL_CHECK(status == SQLITE_OK, status, ...)\<close> after a library call on the engine.\<close>

definition check_ok :: "int \<times> 'e \<Rightarrow> 'e sqlite_stmt \<Rightarrow> 'e sqlite_stmt outcome" where
  "check_ok r st = (if fst r = SQLITE_OK then None else Some (SqlException (fst r)), st\<lparr>engine := snd r\<rparr>)"

definition sqlite_new :: "('e, 'd) sqlite_api \<Rightarrow> string \<Rightarrow> 'e sqlite_stmt \<Rightarrow> 'e sqlite_stmt outcome" where
  "sqlite_new A sql st =
     (case sqlite3_prepare A sql (engine st) of
        (status, made, e) \<Rightarrow>
          (if status \<noteq> SQLITE_OK then (Some (SqlException status), st\<lparr>engine := e\<rparr>)
           else if \<not> made then (Some HkuException, st\<lparr>engine := e\<rparr>)
           else (None, \<lparr>m_needs_reset = False, m_step_status = SQLITE_DONE, m_at_first_step = True, engine = e\<rparr>)))"

text \<open>A failing \<open>sqlite3_reset\<close> leaves the statement marked for another one.\<close>

definition sqlite_reset :: "('e, 'd) sqlite_api \<Rightarrow> 'e sqlite_stmt \<Rightarrow> 'e sqlite_stmt outcome" where
  "sqlite_reset A st =
     (if m_needs_reset st then
        case sqlite3_reset A (engine st) of
          (status, e) \<Rightarrow>
            (if status \<noteq> SQLITE_OK
             then (Some (SqlException status), st\<lparr>engine := e, m_step_status := SQLITE_DONE\<rparr>)
             else (None, st\<lparr>engine := e, m_needs_reset := False, m_step_status := SQLITE_DONE,
                            m_at_first_step := True\<rparr>))
      else (None, st))"

definition sqlite_exec :: "('e, 'd) sqlite_api \<Rightarrow> 'e sqlite_stmt \<Rightarrow> 'e sqlite_stmt outcome" where
  "sqlite_exec A st =
     then_do (sqlite_reset A st) (\<lambda>st1.
       case sqlite3_step A (engine st1) of
         (status, e) \<Rightarrow>
           (if status \<noteq> SQLITE_DONE \<and> status \<noteq> SQLITE_ROW then Some (SqlException status) else None,
            st1\<lparr>engine := e, m_step_status := status, m_needs_reset := True\<rparr>))"

definition sqlite_moveNext :: "('e, 'd) sqlite_api \<Rightarrow> 'e sqlite_stmt \<Rightarrow> bool result \<times> 'e sqlite_stmt" where
  "sqlite_moveNext A st =
     (if m_step_status st = SQLITE_ROW then
        if m_at_first_step st then (Inr True, st\<lparr>m_at_first_step := False\<rparr>)
        else
          case sqlite3_step A (engine st) of
            (status, e) \<Rightarrow>
              (if status = SQLITE_DONE then Inr False
               else if status = SQLITE_ROW then Inr True else Inl (SqlException status),
               st\<lparr>engine := e, m_step_status := status\<rparr>)
      else (Inr False, st))"

definition sqlite_getNumColumns :: "('e, 'd) sqlite_api \<Rightarrow> 'e sqlite_stmt \<Rightarrow> nat" where
  "sqlite_getNumColumns A st =
     (if \<not> m_at_first_step st \<and> m_step_status st = SQLITE_ROW then sqlite3_column_count A (engine st) else 0)"

definition sqlite_bindNull :: "('e, 'd) sqlite_api \<Rightarrow> nat \<Rightarrow> 'e sqlite_stmt \<Rightarrow> 'e sqlite_stmt outcome" where
  "sqlite_bindNull A idx st =
     then_do (sqlite_reset A st) (\<lambda>st1. check_ok (sqlite3_bind_null A (idx + 1) (engine st1)) st1)"

definition sqlite_bindInt :: "('e, 'd) sqlite_api \<Rightarrow> nat \<Rightarrow> u64 \<Rightarrow> 'e sqlite_stmt \<Rightarrow> 'e sqlite_stmt outcome" where
  "sqlite_bindInt A idx v st =
     then_do (sqlite_reset A st) (\<lambda>st1. check_ok (sqlite3_bind_int64 A (idx + 1) v (engine st1)) st1)"

definition sqlite_bindDouble :: "('e, 'd) sqlite_api \<Rightarrow> nat \<Rightarrow> 'd \<Rightarrow> 'e sqlite_stmt \<Rightarrow> 'e sqlite_stmt outcome" where
  "sqlite_bindDouble A idx v st =
     then_do (sqlite_reset A st) (\<lambda>st1. check_ok (sqlite3_bind_double A (idx + 1) v (engine st1)) st1)"

definition sqlite_bindText :: "('e, 'd) sqlite_api \<Rightarrow> nat \<Rightarrow> string \<Rightarrow> 'e sqlite_stmt \<Rightarrow> 'e sqlite_stmt outcome" where
  "sqlite_bindText A idx v st =
     then_do (sqlite_reset A st) (\<lambda>st1. check_ok (sqlite3_bind_text A (idx + 1) v (engine st1)) st1)"

definition sqlite_bindBlob :: "('e, 'd) sqlite_api \<Rightarrow> nat \<Rightarrow> string \<Rightarrow> 'e sqlite_stmt \<Rightarrow> 'e sqlite_stmt outcome" where
  "sqlite_bindBlob A idx v st =
     then_do (sqlite_reset A st) (\<lambda>st1. check_ok (sqlite3_bind_blob A (idx + 1) v (engine st1)) st1)"

definition sqlite_bindDatetime ::
  "('e, 'd) sqlite_api \<Rightarrow> 't datetime_codec \<Rightarrow> nat \<Rightarrow> 't \<Rightarrow> 'e sqlite_stmt \<Rightarrow> 'e sqlite_stmt outcome" where
  "sqlite_bindDatetime A dc idx t st =
     (if t = dt_null dc then sqlite_bindNull A idx st else sqlite_bindText A idx (dt_str dc t) st)"

text \<open>\<open>std::string(data)\<close> of a C string ends at its first zero.\<close>

definition sqlite_columnText :: "('e, 'd) sqlite_api \<Rightarrow> nat \<Rightarrow> 'e sqlite_stmt \<Rightarrow> string" where
  "sqlite_columnText A idx st =
     (case sqlite3_column_text A idx (engine st) of
        Some s \<Rightarrow> takeWhile (\<lambda>c. c \<noteq> CHR 0x00) s | None \<Rightarrow> [])"

definition sqlite_columnBlob :: "('e, 'd) sqlite_api \<Rightarrow> nat \<Rightarrow> 'e sqlite_stmt \<Rightarrow> string result" where
  "sqlite_columnBlob A idx st =
     (case sqlite3_column_blob A idx (engine st) of None \<Rightarrow> Inl NullBlobException | Some s \<Rightarrow> Inr s)"

definition sqlite_columnDatetime ::
  "('e, 'd) sqlite_api \<Rightarrow> 't datetime_codec \<Rightarrow> nat \<Rightarrow> 'e sqlite_stmt \<Rightarrow> 't result" where
  "sqlite_columnDatetime A dc idx st =
     (let s = sqlite_columnText A idx st in if s = [] then Inr (dt_null dc) else dt_of_str dc s)"

definition sqlite_driver ::
  "('e, 'd) sqlite_api \<Rightarrow> 't datetime_codec \<Rightarrow> ('e sqlite_stmt, 'd, 't) sql_driver" where
  "sqlite_driver A dc = \<lparr>
     sub_exec = sqlite_exec A, sub_moveNext = sqlite_moveNext A,
     sub_getLastRowid = (\<lambda>st. sqlite3_last_insert_rowid A (engine st)),
     sub_bindNull = sqlite_bindNull A, sub_bindInt = sqlite_bindInt A, sub_bindDouble = sqlite_bindDouble A,
     sub_bindDatetime = sqlite_bindDatetime A dc, sub_bindText = sqlite_bindText A,
     sub_bindBlob = sqlite_bindBlob A, sub_bindBlobChars = sqlite_bindBlob A,
     sub_getNumColumns = sqlite_getNumColumns A,
     sub_getColumnAsInt64 = (\<lambda>idx st. Inr (sqlite3_column_int64 A idx (engine st))),
     sub_getColumnAsDouble = (\<lambda>idx st. Inr (sqlite3_column_double A idx (engine st))),
     sub_getColumnAsDatetime = sqlite_columnDatetime A dc,
     sub_getColumnAsText = (\<lambda>idx st. Inr (sqlite_columnText A idx st)),
     sub_getColumnAsBlob = sqlite_columnBlob A, sub_getColumnAsBlobChars = sqlite_columnBlob A\<rparr>"

section \<open>Connections\<close>

definition sqlite_ping :: "('e, 'd) sqlite_api \<Rightarrow> 'e sqlite_stmt \<Rightarrow> bool \<times> 'e sqlite_stmt" where
  "sqlite_ping A st =
     (case sqlite3_exec A ''PRAGMA synchronous;'' (engine st) of
        (rc, e) \<Rightarrow> (rc = SQLITE_OK, st\<lparr>engine := e\<rparr>))"

text \<open>\<open>exec\<close>, with the number of rows it reports.\<close>

definition sqlite_exec_rows :: "('e, 'd) sqlite_api \<Rightarrow> string \<Rightarrow> 'e sqlite_stmt \<Rightarrow> int result \<times> 'e sqlite_stmt" where
  "sqlite_exec_rows A sql st =
     (case sqlite3_exec A sql (engine st) of
        (rc, e) \<Rightarrow>
          (if rc \<noteq> SQLITE_OK then Inl (SqlException rc)
           else Inr (if sqlite3_changes A e < 0 then 0 else sqlite3_changes A e), st\<lparr>engine := e\<rparr>))"

definition sqlite_exec_sql :: "('e, 'd) sqlite_api \<Rightarrow> string \<Rightarrow> 'e sqlite_stmt \<Rightarrow> 'e sqlite_stmt outcome" where
  "sqlite_exec_sql A sql st =
     (case sqlite_exec_rows A sql st of (Inl e, st1) \<Rightarrow> (Some e, st1) | (Inr n, st1) \<Rightarrow> (None, st1))"

definition sqlite_transaction :: "('e, 'd) sqlite_api \<Rightarrow> 'e sqlite_stmt \<Rightarrow> 'e sqlite_stmt outcome" where
  "sqlite_transaction A = sqlite_exec_sql A ''BEGIN IMMEDIATE''"

definition sqlite_commit :: "('e, 'd) sqlite_api \<Rightarrow> 'e sqlite_stmt \<Rightarrow> 'e sqlite_stmt outcome" where
  "sqlite_commit A = sqlite_exec_sql A ''COMMIT TRANSACTION''"

definition sqlite_rollback :: "('e, 'd) sqlite_api \<Rightarrow> 'e sqlite_stmt \<Rightarrow> 'e sqlite_stmt" where
  "sqlite_rollback A st = snd (sqlite_exec_sql A ''ROLLBACK TRANSACTION'' st)"

definition sqlite_tableExist ::
  "('e, 'd) sqlite_api \<Rightarrow> string \<Rightarrow> 'e sqlite_stmt \<Rightarrow> bool result \<times> 'e sqlite_stmt" where
  "sqlite_tableExist A table st =
     (case then_do (sqlite_new A (''select count(1) from sqlite_master where name='' @ CHR 0x27 # table @ [CHR 0x27]) st)
             (sqlite_exec A) of
        (Some e, st1) \<Rightarrow> (Inl e, st1)
      | (None, st1) \<Rightarrow>
          (case sqlite_moveNext A st1 of
             (Inl e, st2) \<Rightarrow> (Inl e, st2)
           | (Inr has_row, st2) \<Rightarrow>
               (Inr (has_row \<and> int_cast True 32 (sint (sqlite3_column_int64 A 0 (engine st2))) = 1), st2)))"

definition sqlite_conn ::
  "('e, 'd) sqlite_api \<Rightarrow> 't datetime_codec \<Rightarrow> ('e sqlite_stmt, 'd, 't) db_conn" where
  "sqlite_conn A dc = \<lparr>
     conn_stmt = sqlite_driver A dc,
     conn_transaction = sqlite_transaction A, conn_commit = sqlite_commit A, conn_rollback = sqlite_rollback A,
     conn_exec = sqlite_exec_sql A, conn_getStatement = sqlite_new A, conn_tableExist = sqlite_tableExist A\<rparr>"

definition sqlite_resetAutoIncrement ::
  "('e, 'd) sqlite_api \<Rightarrow> 't datetime_codec \<Rightarrow> string \<Rightarrow> 'e sqlite_stmt \<Rightarrow> 'e sqlite_stmt outcome" where
  "sqlite_resetAutoIncrement A dc table st =
     (case db_queryNumber (sqlite_conn A dc) True 64 (''select count(1) from '' @ table) (null_int True 64) st of
        (Inl e, st1) \<Rightarrow> (Some e, st1)
      | (Inr n, st1) \<Rightarrow>
          (if n \<noteq> 0 then (Some HkuException, st1)
           else sqlite_exec_sql A (''UPDATE sqlite_sequence SET seq=0 WHERE name='' @ CHR 0x27 # table @ [CHR 0x27]) st1))"

text \<open>
  \<open>check\<close>: rows until one says \<open>ok\<close>, the library called directly; \<open>None\<close> if the rows do not end.
\<close>

partial_function (option) sqlite_check_rows :: "('e, 'd) sqlite_api \<Rightarrow> 'e \<Rightarrow> (bool \<times> 'e) option" where
  [code]: "sqlite_check_rows A e =
     (case sqlite3_step A e of
        (status, e1) \<Rightarrow>
          (if status = SQLITE_ROW
           then if map_option (takeWhile (\<lambda>c. c \<noteq> CHR 0x00)) (sqlite3_column_text A 0 e1) = Some ''ok'' then Some (True, e1) else sqlite_check_rows A e1
           else Some (False, e1)))"

definition sqlite_check :: "('e, 'd) sqlite_api \<Rightarrow> bool \<Rightarrow> 'e \<Rightarrow> (bool \<times> 'e) option" where
  "sqlite_check A quick e =
     (case sqlite3_prepare A (if quick then ''PRAGMA quick_check;'' else ''PRAGMA integrity_check;'') e of
        (status, made, e1) \<Rightarrow> if status = SQLITE_OK then sqlite_check_rows A e1 else Some (False, e1))"

section \<open>Rows\<close>

text \<open>Stepping yields \<open>n\<close> rows and then the end; repeated calls of \<open>moveNext\<close>.\<close>

fun yields :: "('e, 'd) sqlite_api \<Rightarrow> nat \<Rightarrow> 'e \<Rightarrow> bool" where
  "yields A 0 e \<longleftrightarrow> fst (sqlite3_step A e) = SQLITE_DONE"
| "yields A (Suc n) e \<longleftrightarrow> fst (sqlite3_step A e) = SQLITE_ROW \<and> yields A n (snd (sqlite3_step A e))"

definition stepped :: "('e, 'd) sqlite_api \<Rightarrow> nat \<Rightarrow> 'e \<Rightarrow> 'e" where
  "stepped A n e = ((\<lambda>e. snd (sqlite3_step A e)) ^^ n) e"

fun moves :: "('e, 'd) sqlite_api \<Rightarrow> nat \<Rightarrow> 'e sqlite_stmt \<Rightarrow> bool result list \<times> 'e sqlite_stmt" where
  "moves A 0 st = ([], st)"
| "moves A (Suc k) st =
     (let (r, st1) = sqlite_moveNext A st; (rs, st2) = moves A k st1 in (r # rs, st2))"

lemma stepped_Suc: "stepped A (Suc n) e = stepped A n (snd (sqlite3_step A e))"
  by (simp only: stepped_def funpow_Suc_right comp_apply)

lemma moves_done:
  "m_step_status st \<noteq> SQLITE_ROW \<Longrightarrow> moves A k st = (replicate k (Inr False), st)"
  by (induction k) (simp_all add: sqlite_moveNext_def)

lemma moves_rows:
  assumes "m_step_status st = SQLITE_ROW" "\<not> m_at_first_step st" "yields A n (engine st)"
  shows "fst (moves A k st) = map (\<lambda>i. Inr (i < n)) [0..<k] \<and>
    engine (snd (moves A k st)) = stepped A (min k (Suc n)) (engine st)"
  using assms
proof (induction k arbitrary: n st)
  case 0
  then show ?case by (simp add: stepped_def)
next
  case (Suc k)
  obtain status e where step: "sqlite3_step A (engine st) = (status, e)" by (metis surj_pair)
  have upt: "[0..<Suc k] = 0 # map Suc [0..<k]" by (simp add: upt_conv_Cons map_Suc_upt)
  show ?case
  proof (cases n)
    case 0
    then have "sqlite_moveNext A st = (Inr False, st\<lparr>engine := e, m_step_status := SQLITE_DONE\<rparr>)"
      using Suc.prems step by (simp add: sqlite_moveNext_def)
    then show ?thesis
      using 0 step by (simp add: moves_done upt comp_def map_replicate_const stepped_Suc stepped_def del: upt_Suc)
  next
    case (Suc n')
    then have "sqlite_moveNext A st = (Inr True, st\<lparr>engine := e, m_step_status := SQLITE_ROW\<rparr>)" "yields A n' e"
      using Suc.prems step by (simp_all add: sqlite_moveNext_def)
    then show ?thesis
      using Suc.IH [of "st\<lparr>engine := e, m_step_status := SQLITE_ROW\<rparr>" n'] Suc.prems \<open>n = Suc n'\<close> step
      by (simp add: upt comp_def stepped_Suc case_prod_beta Let_def del: upt_Suc)
  qed
qed

text \<open>
  After \<open>exec\<close> of a query that yields \<open>n\<close> rows, \<open>moveNext\<close> returns true exactly \<open>n\<close>
  times and false from then on; and it never steps the library beyond the end (which would run the
  statement again), however often it is called.
\<close>

theorem sqlite_moveNext_rows:
  assumes "sqlite_reset A st = (None, st0)" "yields A n (engine st0)" "m_at_first_step st0"
  shows "\<exists>st1. sqlite_exec A st = (None, st1) \<and> fst (moves A k st1) = map (\<lambda>i. Inr (i < n)) [0..<k] \<and>
    engine (snd (moves A k st1)) = stepped A (Suc (min (k - 1) n)) (engine st0)"
proof (cases n)
  case 0
  obtain status e where step: "sqlite3_step A (engine st0) = (status, e)" by (metis surj_pair)
  then have "sqlite_exec A st = (None, st0\<lparr>engine := e, m_step_status := SQLITE_DONE, m_needs_reset := True\<rparr>)"
    using assms 0 by (simp add: sqlite_exec_def)
  then show ?thesis
    using 0 step by (simp add: moves_done stepped_Suc stepped_def map_replicate_const)
next
  case (Suc n')
  obtain status e where step: "sqlite3_step A (engine st0) = (status, e)" by (metis surj_pair)
  let ?st1 = "st0\<lparr>engine := e, m_step_status := SQLITE_ROW, m_needs_reset := True\<rparr>"
  have exec: "sqlite_exec A st = (None, ?st1)" and n': "yields A n' e"
    using assms Suc step by (simp_all add: sqlite_exec_def)
  have "fst (moves A k ?st1) = map (\<lambda>i. Inr (i < n)) [0..<k] \<and>
      engine (snd (moves A k ?st1)) = stepped A (Suc (min (k - 1) n)) (engine st0)"
  proof (cases k)
    case 0
    then show ?thesis using step by (simp add: stepped_Suc stepped_def)
  next
    case (Suc j)
    have first: "sqlite_moveNext A ?st1 = (Inr True, ?st1\<lparr>m_at_first_step := False\<rparr>)"
      using assms(3) by (simp add: sqlite_moveNext_def)
    have upt: "[0..<Suc j] = 0 # map Suc [0..<j]" by (simp add: upt_conv_Cons map_Suc_upt)
    show ?thesis
      using moves_rows [of "?st1\<lparr>m_at_first_step := False\<rparr>" A n' j] n' first step Suc \<open>n = Suc n'\<close>
      by (simp add: upt comp_def case_prod_beta Let_def stepped_Suc del: upt_Suc)
  qed
  with exec show ?thesis by blast
qed

section \<open>A statement that failed\<close>

text \<open>
  A statement whose execution failed cannot be used again at once. The library reports
  the failure a second time from \<open>sqlite3_reset\<close>, so the next \<open>bind\<close> or \<open>exec\<close> throws for it, binds and
  executes nothing, and leaves the statement marked for another reset; the call after that works.
\<close>

theorem sqlite_stale_error:
  assumes "sqlite_reset A st = (None, st0)"
    and fails: "sqlite3_step A (engine st0) = (code, e1)" "code \<noteq> SQLITE_ROW" "code \<noteq> SQLITE_DONE"
    and reports: "sqlite3_reset A e1 = (code', e2)" "code' \<noteq> SQLITE_OK"
    and clear: "sqlite3_reset A e2 = (SQLITE_OK, e3)"
  shows "\<exists>st1 st2. sqlite_exec A st = (Some (SqlException code), st1) \<and>
    sqlite_bindInt A idx v st1 = (Some (SqlException code'), st2) \<and>
    sqlite_exec A st1 = (Some (SqlException code'), st2) \<and> engine st2 = e2 \<and> m_needs_reset st2 \<and>
    sqlite_bindInt A idx v st2 =
      check_ok (sqlite3_bind_int64 A (idx + 1) v e3)
        \<lparr>m_needs_reset = False, m_step_status = SQLITE_DONE, m_at_first_step = True, engine = e3\<rparr>"
proof -
  let ?st1 = "st0\<lparr>engine := e1, m_step_status := code, m_needs_reset := True\<rparr>"
  let ?st2 = "?st1\<lparr>engine := e2, m_step_status := SQLITE_DONE\<rparr>"
  have "sqlite_exec A st = (Some (SqlException code), ?st1)" using assms(1) fails by (simp add: sqlite_exec_def)
  moreover have "sqlite_bindInt A idx v ?st1 = (Some (SqlException code'), ?st2)"
    "sqlite_exec A ?st1 = (Some (SqlException code'), ?st2)"
    using reports by (simp_all add: sqlite_bindInt_def sqlite_exec_def sqlite_reset_def)
  moreover have "sqlite_bindInt A idx v ?st2 = check_ok (sqlite3_bind_int64 A (idx + 1) v e3)
      \<lparr>m_needs_reset = False, m_step_status = SQLITE_DONE, m_at_first_step = True, engine = e3\<rparr>"
    using clear by (cases st0) (simp add: sqlite_bindInt_def sqlite_reset_def)
  ultimately show ?thesis by (intro exI [of _ ?st1] exI [of _ ?st2] conjI) simp_all
qed

section \<open>The driver keeps the transaction contract\<close>

text \<open>
  The library's part of the contract: what \<open>BEGIN IMMEDIATE\<close>, \<open>COMMIT TRANSACTION\<close> and
  \<open>ROLLBACK TRANSACTION\<close> do (a rollback fails only when no transaction is open), and that steps,
  resets, bindings and other texts change the committed content only outside a transaction, where
  \<open>pl\<close> says that the statement in use is a data statement.
\<close>

definition txn_keeps :: "('e \<Rightarrow> 'db) \<Rightarrow> ('e \<Rightarrow> 'db option) \<Rightarrow> ('e \<Rightarrow> bool) \<Rightarrow> 'e \<Rightarrow> int \<times> 'e \<Rightarrow> bool" where
  "txn_keeps cm wk pl e r \<longleftrightarrow> cm (snd r) = cm e \<and> wk (snd r) = wk e \<and> pl (snd r)"

definition engine_calls ::
  "('e, 'd) sqlite_api \<Rightarrow> ('e \<Rightarrow> 'db) \<Rightarrow> ('e \<Rightarrow> 'db option) \<Rightarrow> ('e \<Rightarrow> bool) \<Rightarrow> bool" where
  "engine_calls A cm wk pl \<longleftrightarrow>
     (\<forall>e. wk e \<noteq> None \<longrightarrow> pl e \<longrightarrow>
        txn_keeps cm wk pl e (sqlite3_reset A e) \<and>
        (\<forall>i. txn_keeps cm wk pl e (sqlite3_bind_null A i e)) \<and>
        (\<forall>i v. txn_keeps cm wk pl e (sqlite3_bind_int64 A i v e)) \<and>
        (\<forall>i v. txn_keeps cm wk pl e (sqlite3_bind_double A i v e)) \<and>
        (\<forall>i v. txn_keeps cm wk pl e (sqlite3_bind_text A i v e)) \<and>
        (\<forall>i v. txn_keeps cm wk pl e (sqlite3_bind_blob A i v e)))"

definition engine_txn ::
  "('e, 'd) sqlite_api \<Rightarrow> ('e \<Rightarrow> 'db) \<Rightarrow> ('e \<Rightarrow> 'db option) \<Rightarrow> ('e \<Rightarrow> bool) \<Rightarrow> bool" where
  "engine_txn A cm wk pl \<longleftrightarrow>
     (\<forall>e rc e'. sqlite3_exec A ''BEGIN IMMEDIATE'' e = (rc, e') \<longrightarrow> cm e' = cm e \<and> pl e' = pl e \<and>
        (rc = SQLITE_OK \<longrightarrow> wk e = None \<and> wk e' = Some (cm e)) \<and> (rc \<noteq> SQLITE_OK \<longrightarrow> wk e' = wk e)) \<and>
     (\<forall>e rc e'. sqlite3_exec A ''COMMIT TRANSACTION'' e = (rc, e') \<longrightarrow>
        (rc = SQLITE_OK \<longrightarrow> wk e = Some (cm e') \<and> wk e' = None) \<and> (rc \<noteq> SQLITE_OK \<longrightarrow> cm e' = cm e)) \<and>
     (\<forall>e rc e'. sqlite3_exec A ''ROLLBACK TRANSACTION'' e = (rc, e') \<longrightarrow> cm e' = cm e \<and> wk e' = None) \<and>
     (\<forall>sql e rc e'. data_sql sql \<longrightarrow> wk e \<noteq> None \<longrightarrow> sqlite3_exec A sql e = (rc, e') \<longrightarrow>
        cm e' = cm e \<and> (rc = SQLITE_OK \<longrightarrow> wk e' \<noteq> None)) \<and>
     (\<forall>sql e rc made e'. data_sql sql \<longrightarrow> sqlite3_prepare A sql e = (rc, made, e') \<longrightarrow>
        cm e' = cm e \<and> wk e' = wk e \<and> (rc = SQLITE_OK \<longrightarrow> made \<longrightarrow> pl e')) \<and>
     (\<forall>e rc e'. wk e \<noteq> None \<longrightarrow> pl e \<longrightarrow> sqlite3_step A e = (rc, e') \<longrightarrow>
        cm e' = cm e \<and> pl e' \<and> (rc = SQLITE_DONE \<or> rc = SQLITE_ROW \<longrightarrow> wk e' \<noteq> None)) \<and>
     engine_calls A cm wk pl"

abbreviation on_engine :: "('e \<Rightarrow> 'b) \<Rightarrow> 'e sqlite_stmt \<Rightarrow> 'b" where
  "on_engine f \<equiv> \<lambda>st. f (engine st)"

lemma engine_txn_calls:
  assumes "engine_txn A cm wk pl" "wk e \<noteq> None" "pl e"
  shows engine_reset: "txn_keeps cm wk pl e (sqlite3_reset A e)"
    and engine_bind: "txn_keeps cm wk pl e (sqlite3_bind_null A i e)" "txn_keeps cm wk pl e (sqlite3_bind_int64 A i n e)"
      "txn_keeps cm wk pl e (sqlite3_bind_double A i d e)" "txn_keeps cm wk pl e (sqlite3_bind_text A i s e)"
      "txn_keeps cm wk pl e (sqlite3_bind_blob A i s e)"
proof -
  have "engine_calls A cm wk pl" using assms(1) unfolding engine_txn_def by blast
  then show "txn_keeps cm wk pl e (sqlite3_reset A e)"
    and "txn_keeps cm wk pl e (sqlite3_bind_null A i e)" "txn_keeps cm wk pl e (sqlite3_bind_int64 A i n e)"
      "txn_keeps cm wk pl e (sqlite3_bind_double A i d e)" "txn_keeps cm wk pl e (sqlite3_bind_text A i s e)"
      "txn_keeps cm wk pl e (sqlite3_bind_blob A i s e)"
    using assms(2,3) unfolding engine_calls_def by blast+
qed

lemma sqlite_reset_txn:
  assumes "engine_txn A cm wk pl"
  shows "txn_works (on_engine cm) (on_engine wk) (on_engine pl) st (sqlite_reset A st)"
  using engine_reset [OF assms, of "engine st"]
  by (cases "sqlite3_reset A (engine st)") (auto simp: sqlite_reset_def txn_works_def txn_keeps_def)

lemma sqlite_check_txn:
  "(wk (engine st) \<noteq> None \<Longrightarrow> pl (engine st) \<Longrightarrow> txn_keeps cm wk pl (engine st) r) \<Longrightarrow>
   txn_works (on_engine cm) (on_engine wk) (on_engine pl) st (check_ok r st)"
  by (auto simp: check_ok_def txn_works_def txn_keeps_def)

lemma sqlite_binds_txn:
  assumes A: "engine_txn A cm wk pl"
  shows "txn_binds (sqlite_driver A dc) (on_engine cm) (on_engine wk) (on_engine pl)"
proof -
  note steps = txn_works_then [OF sqlite_reset_txn [OF A]] sqlite_check_txn engine_bind [OF A]
  have null: "txn_works (on_engine cm) (on_engine wk) (on_engine pl) st (sqlite_bindNull A i st)" for i st
    unfolding sqlite_bindNull_def by (rule steps(1), rule steps(2), erule (1) steps)
  have int: "txn_works (on_engine cm) (on_engine wk) (on_engine pl) st (sqlite_bindInt A i v st)" for i v st
    unfolding sqlite_bindInt_def by (rule steps(1), rule steps(2), erule (1) steps)
  have double: "txn_works (on_engine cm) (on_engine wk) (on_engine pl) st (sqlite_bindDouble A i v st)" for i v st
    unfolding sqlite_bindDouble_def by (rule steps(1), rule steps(2), erule (1) steps)
  have tx: "txn_works (on_engine cm) (on_engine wk) (on_engine pl) st (sqlite_bindText A i v st)" for i v st
    unfolding sqlite_bindText_def by (rule steps(1), rule steps(2), erule (1) steps)
  have blob: "txn_works (on_engine cm) (on_engine wk) (on_engine pl) st (sqlite_bindBlob A i v st)" for i v st
    unfolding sqlite_bindBlob_def by (rule steps(1), rule steps(2), erule (1) steps)
  show ?thesis
    by (simp add: txn_binds_def sqlite_driver_def null int double tx blob sqlite_bindDatetime_def)
qed

lemma sqlite_exec_txn:
  assumes A: "engine_txn A cm wk pl"
  shows "txn_works (on_engine cm) (on_engine wk) (on_engine pl) st (sqlite_exec A st)"
  unfolding sqlite_exec_def
proof (rule txn_works_then [OF sqlite_reset_txn [OF A]])
  fix st1 :: "'a sqlite_stmt"
  obtain rc e where step: "sqlite3_step A (engine st1) = (rc, e)" by (metis surj_pair)
  moreover have "wk (engine st1) \<noteq> None \<Longrightarrow> pl (engine st1) \<Longrightarrow>
      cm e = cm (engine st1) \<and> pl e \<and> (rc = SQLITE_DONE \<or> rc = SQLITE_ROW \<longrightarrow> wk e \<noteq> None)"
    using A step unfolding engine_txn_def by blast
  ultimately show "txn_works (on_engine cm) (on_engine wk) (on_engine pl) st1
      (case sqlite3_step A (engine st1) of (status, e) \<Rightarrow>
        (if status \<noteq> SQLITE_DONE \<and> status \<noteq> SQLITE_ROW then Some (SqlException status) else None,
         st1\<lparr>engine := e, m_step_status := status, m_needs_reset := True\<rparr>))"
    by (auto simp: txn_works_def)
qed

lemma sqlite_exec_sql_eq:
  "sqlite_exec_sql A sql st =
     (if fst (sqlite3_exec A sql (engine st)) = SQLITE_OK then None
      else Some (SqlException (fst (sqlite3_exec A sql (engine st)))), st\<lparr>engine := snd (sqlite3_exec A sql (engine st))\<rparr>)"
  by (simp add: sqlite_exec_sql_def sqlite_exec_rows_def case_prod_beta)

text \<open>
  Property C14: over a library that keeps the engine's contract, the SQLite connection keeps the
  transaction contract \<open>DBConnectBase\<close> relies on, and its statements only bind parameters outside
  \<open>exec\<close>; so everything that holds of transactional connections holds of it.
\<close>

theorem sqlite_conn_is_transactional:
  assumes A: "engine_txn A cm wk pl"
  shows "txn_conn (sqlite_conn A dc) (on_engine cm) (on_engine wk) (on_engine pl) \<and>
    txn_binds (conn_stmt (sqlite_conn A dc)) (on_engine cm) (on_engine wk) (on_engine pl)"
proof
  show "txn_binds (conn_stmt (sqlite_conn A dc)) (on_engine cm) (on_engine wk) (on_engine pl)"
    using sqlite_binds_txn [OF A] by (simp add: sqlite_conn_def)
  have begin_ok: "cm (snd r) = cm e \<and> pl (snd r) = pl e \<and> (fst r = SQLITE_OK \<longrightarrow> wk e = None \<and> wk (snd r) = Some (cm e)) \<and>
      (fst r \<noteq> SQLITE_OK \<longrightarrow> wk (snd r) = wk e)" if "r = sqlite3_exec A ''BEGIN IMMEDIATE'' e" for r e
    using A that unfolding engine_txn_def by (metis prod.collapse)
  have commit_ok: "(fst r = SQLITE_OK \<longrightarrow> wk e = Some (cm (snd r)) \<and> wk (snd r) = None) \<and> (fst r \<noteq> SQLITE_OK \<longrightarrow> cm (snd r) = cm e)"
    if "r = sqlite3_exec A ''COMMIT TRANSACTION'' e" for r e
    using A that unfolding engine_txn_def by (metis prod.collapse)
  have rollback_ok: "cm (snd r) = cm e \<and> wk (snd r) = None" if "r = sqlite3_exec A ''ROLLBACK TRANSACTION'' e" for r e
    using A that unfolding engine_txn_def by (metis prod.collapse)
  have sql_ok: "cm (snd r) = cm e \<and> (fst r = SQLITE_OK \<longrightarrow> wk (snd r) \<noteq> None)"
    if "r = sqlite3_exec A sql e" "data_sql sql" "wk e \<noteq> None" for r e sql
    using A that unfolding engine_txn_def by (metis prod.collapse)
  have prepare_ok: "cm e' = cm e \<and> wk e' = wk e \<and> (rc = SQLITE_OK \<longrightarrow> made \<longrightarrow> pl e')"
    if "sqlite3_prepare A sql e = (rc, made, e')" "data_sql sql" for rc made e' e sql
    using A that unfolding engine_txn_def by blast
  show "txn_conn (sqlite_conn A dc) (on_engine cm) (on_engine wk) (on_engine pl)"
    unfolding txn_conn_def
  proof (intro conjI allI impI)
    fix st err st' assume "conn_transaction (sqlite_conn A dc) st = (err, st')"
    then have r: "err = (if fst (sqlite3_exec A ''BEGIN IMMEDIATE'' (engine st)) = SQLITE_OK then None
        else Some (SqlException (fst (sqlite3_exec A ''BEGIN IMMEDIATE'' (engine st)))))"
      "engine st' = snd (sqlite3_exec A ''BEGIN IMMEDIATE'' (engine st))"
      by (auto simp: sqlite_conn_def sqlite_transaction_def sqlite_exec_sql_eq)
    show "cm (engine st') = cm (engine st)" "pl (engine st') = pl (engine st)"
      using begin_ok [OF refl, of "engine st"] r by simp_all
    show "wk (engine st) = None" "wk (engine st') = Some (cm (engine st))" if "err = None"
      using begin_ok [OF refl, of "engine st"] r that by (simp_all split: if_splits)
    show "wk (engine st') = wk (engine st)" if "err \<noteq> None"
      using begin_ok [OF refl, of "engine st"] r that by (simp split: if_splits)
  next
    fix st err st' assume "conn_commit (sqlite_conn A dc) st = (err, st')"
    then have r: "err = (if fst (sqlite3_exec A ''COMMIT TRANSACTION'' (engine st)) = SQLITE_OK then None
        else Some (SqlException (fst (sqlite3_exec A ''COMMIT TRANSACTION'' (engine st)))))"
      "engine st' = snd (sqlite3_exec A ''COMMIT TRANSACTION'' (engine st))"
      by (auto simp: sqlite_conn_def sqlite_commit_def sqlite_exec_sql_eq)
    show "wk (engine st) = Some (cm (engine st'))" "wk (engine st') = None" if "err = None"
      using commit_ok [OF refl, of "engine st"] r that by (simp_all split: if_splits)
    show "cm (engine st') = cm (engine st)" if "err \<noteq> None"
      using commit_ok [OF refl, of "engine st"] r that by (simp split: if_splits)
  next
    fix st
    show "cm (engine (conn_rollback (sqlite_conn A dc) st)) = cm (engine st)"
      "wk (engine (conn_rollback (sqlite_conn A dc) st)) = None"
      using rollback_ok [OF refl, of "engine st"] by (simp_all add: sqlite_conn_def sqlite_rollback_def sqlite_exec_sql_eq)
  next
    fix sql st err st' assume "data_sql sql" "conn_getStatement (sqlite_conn A dc) sql st = (err, st')"
    moreover obtain rc made e where p: "sqlite3_prepare A sql (engine st) = (rc, made, e)" by (metis surj_pair)
    ultimately show "cm (engine st') = cm (engine st)" "wk (engine st') = wk (engine st)" "err = None \<Longrightarrow> pl (engine st')"
      using prepare_ok [OF p] by (auto simp: sqlite_conn_def sqlite_new_def split: if_splits)
  next
    fix st
    show "txn_works (on_engine cm) (on_engine wk) (on_engine pl) st (st_exec (conn_stmt (sqlite_conn A dc)) st)"
      using sqlite_exec_txn [OF A] by (simp add: sqlite_conn_def sqlite_driver_def st_exec_def)
  next
    fix sql st err st'
    assume "data_sql sql" "wk (engine st) \<noteq> None" "conn_exec (sqlite_conn A dc) sql st = (err, st')"
    then show "cm (engine st') = cm (engine st)" "err = None \<Longrightarrow> wk (engine st') \<noteq> None"
      using sql_ok [OF refl, of sql "engine st"] by (auto simp: sqlite_conn_def sqlite_exec_sql_eq split: if_splits)
  qed
qed

section \<open>A library in memory\<close>

text \<open>
  For instances: the table in memory of \<open>DBConnect\<close> behind the library's functions. A query has
  \<open>lite_left\<close> rows, and a failed step is reported again by the next reset.
\<close>

record lite =
  lite_db :: mem_db
  lite_left :: nat
  lite_err :: int

definition status_of :: "mem_db outcome \<Rightarrow> lite \<Rightarrow> int \<times> lite" where
  "status_of r e =
     (case r of (None, m) \<Rightarrow> (0, e\<lparr>lite_db := m\<rparr>) | (Some (SqlException c), m) \<Rightarrow> (c, e\<lparr>lite_db := m\<rparr>)
      | (Some _, m) \<Rightarrow> (1, e\<lparr>lite_db := m\<rparr>))"

definition lite_api :: "(lite, unit) sqlite_api" where
  "lite_api = \<lparr>
     sqlite3_exec = (\<lambda>sql e.
        if sql = ''BEGIN IMMEDIATE'' then status_of (conn_transaction mem_conn (lite_db e)) e
        else if sql = ''COMMIT TRANSACTION'' then status_of (conn_commit mem_conn (lite_db e)) e
        else if sql = ''ROLLBACK TRANSACTION'' then (0, e\<lparr>lite_db := conn_rollback mem_conn (lite_db e)\<rparr>)
        else status_of (mem_run sql (lite_db e)) e),
     sqlite3_changes = (\<lambda>e. 0),
     sqlite3_prepare = (\<lambda>sql e. (0, True, e\<lparr>lite_db := (lite_db e)\<lparr>mem_stmt := sql\<rparr>, lite_left := 2, lite_err := 0\<rparr>)),
     sqlite3_step = (\<lambda>e.
        if take 1 (mem_stmt (lite_db e)) = ''s''
        then if lite_left e = 0 then (101, e) else (100, e\<lparr>lite_left := lite_left e - 1\<rparr>)
        else case status_of (mem_run (mem_stmt (lite_db e)) (lite_db e)) e of
               (c, e1) \<Rightarrow> if c = 0 then (101, e1) else (c, e1\<lparr>lite_err := c\<rparr>)),
     sqlite3_reset = (\<lambda>e. (lite_err e, e\<lparr>lite_left := 2, lite_err := 0\<rparr>)),
     sqlite3_bind_null = (\<lambda>i. Pair 0), sqlite3_bind_int64 = (\<lambda>i v. Pair 0), sqlite3_bind_double = (\<lambda>i v. Pair 0),
     sqlite3_bind_text = (\<lambda>i v. Pair 0), sqlite3_bind_blob = (\<lambda>i v. Pair 0),
     sqlite3_column_count = (\<lambda>e. 1), sqlite3_column_int64 = (\<lambda>i e. 0), sqlite3_column_double = (\<lambda>i e. ()),
     sqlite3_column_text = (\<lambda>i e. None), sqlite3_column_blob = (\<lambda>i e. None),
     sqlite3_last_insert_rowid = (\<lambda>e. 0)\<rparr>"

lemma lite_txn: "engine_txn lite_api (\<lambda>e. mem_rows (lite_db e)) (\<lambda>e. mem_work (lite_db e)) (\<lambda>_. True)"
  unfolding engine_txn_def engine_calls_def
  by (auto simp: lite_api_def status_of_def mem_conn_defs txn_keeps_def data_sql_def split: if_splits option.splits)

definition lite_start :: "nat \<Rightarrow> string \<Rightarrow> lite sqlite_stmt" where
  "lite_start n sql =
     \<lparr>m_needs_reset = False, m_step_status = SQLITE_DONE, m_at_first_step = True,
      engine = \<lparr>lite_db = \<lparr>mem_rows = n, mem_work = None, mem_stmt = sql\<rparr>, lite_left = 2, lite_err = 0\<rparr>\<rparr>"

theorem sqlite_conn_is_transactional_witness:
  "txn_conn (sqlite_conn lite_api \<lparr>dt_null = (), dt_str = (\<lambda>_. []), dt_of_str = (\<lambda>_. Inr ())\<rparr>)
     (on_engine (\<lambda>e. mem_rows (lite_db e))) (on_engine (\<lambda>e. mem_work (lite_db e))) (on_engine (\<lambda>_. True))"
  using sqlite_conn_is_transactional [OF lite_txn] by blast

section \<open>Values that do not come back\<close>

text \<open>
  The library returns a null pointer for a blob of length zero, and a text ends at its first zero
  byte although all of it was stored.
\<close>

lemma sqlite_empty_blob:
  "sqlite3_column_blob A i (engine st) = None \<Longrightarrow>
   getColumn_item (sqlite_driver A dc) C i st (CharsItem s) = Inl NullBlobException"
  by (simp add: sqlite_driver_def sqlite_columnBlob_def)

lemma sqlite_text_with_zero:
  "sqlite3_column_text A i (engine st) = Some (a @ CHR 0x00 # b) \<Longrightarrow> CHR 0x00 \<notin> set a \<Longrightarrow>
   getColumn_item (sqlite_driver A dc) C i st (TextItem s) = Inr (TextItem a)"
  by (auto simp: sqlite_driver_def sqlite_columnText_def takeWhile_append)

end
