(* ===== verification/Spec2Isabelle.thy ===== *)
theory Spec2Isabelle
  imports Base64 Md5 Lru11 LruCache Snowflake TimeDelta IniParser VersionPool TableBind TableNoAutoId ColTableBind ThreadPool StealThreadPool ParallelFor DatetimeNumbers DatetimePeriods TimerPoints TimerThreads FilterNode MySQL MQThreadPool ConnectPool TransAction SQLResultSet DBUpgrade SQLite
begin

text \<open>
  A model of \<open>hku_utils\<close>, the C++ utility library under \<open>src/hikyuu/utilities\<close>, and what is proved of
  it. The library is a collection of components used by the hikyuu quantitative trading framework;
  most are independent, and those that build on each other do so in the model too.

  \<^bold>\<open>Conventions\<close> (\<open>HkuPrelude\<close>). A \<open>throw\<close> is a value: \<open>cpp_error\<close> lists the exception classes,
  \<open>'a result\<close> is \<open>cpp_error + 'a\<close>, and \<open>'s outcome\<close> pairs an optional exception with the state the
  call leaves. Machine integers are words where wrap-around can happen (\<open>u64\<close> for \<open>size_t\<close>), \<open>int\<close>
  with explicit range conditions elsewhere. Strings are lists of characters. A loop that may not end
  is a \<open>partial_function (option)\<close>; its value \<open>None\<close> is non-termination, and termination is then a
  theorem. Third-party code (boost, SQLite, serialisation) is a record of functions passed to the
  definitions, with its documented behaviour as a predicate that the theorems assume and the
  witnesses instantiate. Types and functions keep the names of the source with a prefix where a
  class has the same member names as another.

  \<^bold>\<open>Components\<close>, theory by theory (file names are under \<open>src/hikyuu/utilities\<close>):

  \<^item> \<open>Base64\<close> (\<open>base64.cpp\<close>): both alphabets, line breaks, the decoder with its table, and the encoder's
    loop; round trip, the set of accepted texts, and the argument on which the encoder never returns.
  \<^item> \<open>StringUtil\<close> (\<open>arithmetic.h/.cpp\<close>): trimming, splitting, case and hexadecimal conversion.
  \<^item> \<open>Md5\<close> (\<open>md5.cpp\<close>): the streaming implementation against \<open>Rfc1321\<close>, which writes the digest down as
    the RFC does, sharing nothing with the code, and computes one of its test vectors.
  \<^item> \<open>CacheInterface\<close>, \<open>Lru11\<close> (\<open>LRUCache11.h\<close>), \<open>LruCache\<close> (\<open>LruCache.h\<close>): two caches, an interface locale they
    interpret, clients that make any sequence of calls and see what a recency list (for \<open>LruCache\<close>: the
    list of its items) would answer, size bounds, and that a hit returns the value last written.
  \<^item> \<open>Snowflake\<close> (\<open>snowflake.h\<close>): increasing ids, and the loop that waits for the clock.
  \<^item> \<open>TimeDelta\<close> (\<open>datetime/TimeDelta.h/.cpp\<close>): durations over \<open>boost::posix_time\<close>.
  \<^item> \<open>Gregorian\<close>, \<open>Datetime\<close> (\<open>datetime/Datetime.h/.cpp\<close>): points in time over \<open>boost::gregorian\<close> and
    \<open>boost::posix_time\<close>, a record of functions; \<open>CalendarLaws\<close> holds what boost documents of them as the
    locale \<open>boost_datetime\<close>, in day numbers and microseconds, and a calendar that computes and interprets
    it. \<open>DatetimeNumbers\<close>: numbers, hexadecimal numbers and timestamps are read back; \<open>DatetimePeriods\<close>:
    weeks, months, quarters, half years and years, the operations that stay within the supported
    years, and ranges of dates.
  \<^item> \<open>TimerManager\<close>, \<open>TimerPoints\<close>, \<open>TimerThreads\<close> (\<open>TimerManager.h\<close>): timers, their queue and the round of
    the detecting thread as steps, with the invariant of queue and map and the bound on the runs of a
    function; the points in time at which timers run, over every calendar with the laws of
    \<open>boost_datetime\<close>; and the end of the detecting thread against a caller of \<open>stop\<close>.
  \<^item> \<open>FilterNode\<close> (\<open>FilterNode.h\<close>): a store of nodes, running a tree as a partial function over it, the
    trees on which it ends, and the event processor.
  \<^item> \<open>ConnectPool\<close> (\<open>ConnectPool.h\<close>): the older pool of connections, its counter and its waiting.
  \<^item> \<open>StdMap\<close>, \<open>IniParser\<close> (\<open>ini_parser\<close>): \<open>std::map\<close> as a sorted list; the reader against an
    event semantics, typed getters, and a round trip with a printer.
  \<^item> \<open>Parameter\<close> (\<open>Parameter.h/.cpp\<close>): named parameters, on which the pools' limits rest.
  \<^item> \<open>ResourcePool\<close>, \<open>VersionPool\<close> (\<open>ResourcePool.h\<close>): clients, waiting threads and closers as steps;
    accounting of resources, limits, starvation, versions.
  \<^item> \<open>SQLStatement\<close> (\<open>db_connect/SQLStatementBase.h\<close>), \<open>TableSchema\<close>, \<open>TableBind\<close>, \<open>TableNoAutoId\<close>,
    \<open>ColTableBind\<close> (\<open>TableMacro.h\<close>): the overloads of \<open>bind\<close> and \<open>getColumn\<close>, and every macro of the three
    families as a definition that yields the class it declares; one schema per family over a list of
    fields, of which the macros are shown to be instances, and the round trip of an object through a row.
  \<^item> \<open>DBConnect\<close> (\<open>DBConnectBase.h\<close>): save, load, update and remove over a connection, with the frame of
    transaction and handlers all of them have. \<open>txn_conn\<close> is the contract of a transactional
    connection, \<open>all_or_nothing\<close> what the operations then promise.
  \<^item> \<open>TransAction\<close> (\<open>AutoTransAction.h\<close>), \<open>DBCondition\<close>, \<open>SQLResultSet\<close>, \<open>DBUpgrade\<close>: transaction blocks as
    a step relation, conditions as texts whose grouping can be read back, result sets as lists of rows
    read page by page from a database that answers \<open>LIMIT\<close> and \<open>OFFSET\<close>, and upgrades as plans of statements.
  \<^item> \<open>SQLite\<close> (\<open>db_connect/sqlite\<close>): the statement's state machine and the connection over the C library;
    it is shown to keep \<open>txn_conn\<close>, so that the theorems of \<open>DBConnect\<close> apply to it.
  \<^item> \<open>MySQL\<close> (\<open>db_connect/mysql\<close>): statement and connection over the client library, a record of functions;
    buffers are positions and a null or dangling pointer is \<open>None\<close>. What each bind function sends,
    what is read from each type of column, the round trip of a datetime, and what a commit reports.
  \<^item> \<open>ThreadQueue\<close> (\<open>FuncWrapper.h\<close>, \<open>InterruptFlag.h\<close>, \<open>ThreadSafeQueue.h\<close>, \<open>WorkStealQueue.h\<close>,
    \<open>MQStealQueue.h\<close>), \<open>ThreadPool\<close>, \<open>StealThreadPool\<close>: the queues behind two interface locales, and the
    pools as interleaved steps of workers, submitters and the controlling thread; conservation of
    tasks, completion and termination of \<open>join\<close>, and the interleavings that lose a wake-up or tasks.
  \<^item> \<open>MQThreadPool\<close> (\<open>thread/MQThreadPool.h\<close>): the pool with a queue per worker, in the same style: what
    \<open>join\<close> completes, and which submissions it loses.
  \<^item> \<open>ParallelFor\<close> (\<open>thread/algorithm.h\<close>): the parallel loops against the sequential one, and the case
    in which their pool has no thread.

  \<^bold>\<open>How they interact.\<close> Pools take their limits from \<open>Parameter\<close>; timers compute
  with \<open>Datetime\<close> and \<open>TimeDelta\<close>; \<open>TableSchema\<close> calls the driver through
  \<open>SQLStatement\<close>; \<open>DBConnect\<close> uses a bound class through \<open>row_class_of\<close>, so the theorem at the end of this
  file holds for every class \<open>TABLE_BIND\<close> declares; result sets, upgrades and transaction blocks call
  \<open>DBConnect\<close>, and \<open>SQLite\<close> provides it. Properties that span components stand in this theory.

  \<^bold>\<open>Bounds and fuel.\<close> No model uses fuel. Loops over machine words carry a measure
  (\<open>for_range\<close>, the searches of \<open>StringUtil\<close>); loops that depend on a clock or on a driver are
  partial functions, with termination proved under a stated assumption on them. Schedules of threads
  and clients are arbitrary finite sequences of steps.

  \<^bold>\<open>Not modelled.\<close> Rounding of floating-point numbers and the operations on \<open>double\<close>; network, file
  system, logging, plugins, operating system services and the DuckDB driver, which are
  calls into other libraries; the coroutine code (\<open>ResourceAsioPool\<close>, the HTTP client, the adapters of
  \<open>thread/algorithm.h\<close>); the global thread pools and the multi-queue work-stealing pools.
  Memory allocation and thread creation are taken to succeed. Signed overflow, which is undefined in
  C++, is outside two models that compute with integers: the version numbers of \<open>DBUpgrade\<close>, and the
  quotient that aligns a timer whose duration is below 41 microseconds to its window.
\<close>

section \<open>Bound classes over transactional connections\<close>

text \<open>
  Property C8: for an object of any class \<open>TABLE_BIND\<close> declares, over any connection that keeps the
  transaction contract, each changing operation in a transaction of its own is all or nothing. If it
  returns, the statement was prepared, one transaction was begun, every object was bound and executed
  in it exactly once, in order and without an exception, and the committed content is the content of
  that transaction; an inserted object then has the row id of its own insertion, a removed one none.
  If it throws, wherever it failed (preparing, beginning, binding, executing or committing), the
  committed content is what it was. In both cases no transaction is left open. An empty list changes
  nothing, and \<open>remove\<close> returns only for an object that has a row id.
\<close>

theorem table_operations_atomic:
  assumes "TABLE_BIND_n t fs = Some c" "row_class_of K C df c = Some T"
    and "CHR '';'' \<notin> set t" "\<forall>f \<in> set fs. CHR '';'' \<notin> set f"
    and "txn_conn K cm wk pl" "txn_binds (conn_stmt K) cm wk pl" "wk w = None"
  shows "(\<forall>x e y w'. db_save K T True (x, w) = (e, (y, w')) \<longrightarrow> all_or_nothing cm wk w e w'
      (if rc_valid T x then committed_work K cm wk (rc_updateSQL T) (rc_update T) (\<lambda>_ x. x) w [x] w' [y]
       else committed_work K cm wk (rc_insertSQL T) (rc_save T) (with_rowid K T) w [x] w' [y])) \<and>
    (\<forall>xs e ys w'. db_batchSave K T True (xs, w) = (e, (ys, w')) \<longrightarrow> all_or_nothing cm wk w e w'
      (if xs = [] then ys = [] \<and> w' = w
       else committed_work K cm wk (rc_insertSQL T) (rc_save T) (with_rowid K T) w xs w' ys)) \<and>
    (\<forall>xs e ys w'. db_batchUpdate K T True (xs, w) = (e, (ys, w')) \<longrightarrow> all_or_nothing cm wk w e w'
      (if xs = [] then ys = [] \<and> w' = w
       else committed_work K cm wk (rc_updateSQL T) (rc_update T) (\<lambda>_ x. x) w xs w' ys)) \<and>
    (\<forall>x e y w'. db_remove K T True (x, w) = (e, (y, w')) \<longrightarrow> all_or_nothing cm wk w e w'
      (rc_valid T x \<and> committed_work K cm wk (delete_row_sql (rc_tableName T) (rc_rowid T x))
         (\<lambda>x w. (None, w)) (\<lambda>_. rc_setRowid T 0) w [x] w' [y]))"
proof -
  have "c = table_schema t fs" using assms(1) unfolding table_bind_class by (simp split: if_splits)
  then have "txn_class T cm wk pl" using table_schema_txn assms(2-4,6) by blast
  then show ?thesis by (rule db_operations_all_or_nothing [OF assms(5) _ assms(7)])
qed

text \<open>
  Four insertions into an empty table that can hold three rows: the row of none of them stays, although three of
  the objects keep the row ids they were given. Two insertions: both stay.
\<close>

theorem table_operations_atomic_witness:
  "(\<exists>w'. db_batchSave mem_conn mem_class True (replicate 4 (mem_obj 0), mem_start 0) =
       (Some (SqlException 13), ([mem_obj 1, mem_obj 2, mem_obj 3, mem_obj 0], w')) \<and>
     mem_work w' = None \<and> mem_rows w' = 0) \<and>
   (\<exists>w'. db_batchSave mem_conn mem_class True (replicate 2 (mem_obj 0), mem_start 0) =
       (None, ([mem_obj 1, mem_obj 2], w')) \<and> mem_rows w' = 2 \<and>
     committed_work mem_conn mem_rows mem_work (rc_insertSQL mem_class) (rc_save mem_class)
       (with_rowid mem_conn mem_class) (mem_start 0) (replicate 2 (mem_obj 0)) w' [mem_obj 1, mem_obj 2])"
proof -
  have c: "TABLE_BIND_n ''T'' [''a''] = Some (table_schema ''T'' [''a''])"
    by (simp add: table_bind_class)
  have "\<forall>xs e ys w'. db_batchSave mem_conn mem_class True (xs, mem_start n) = (e, (ys, w')) \<longrightarrow>
      all_or_nothing mem_rows mem_work (mem_start n) e w'
        (if xs = [] then ys = [] \<and> w' = mem_start n
         else committed_work mem_conn mem_rows mem_work (rc_insertSQL mem_class) (rc_save mem_class)
           (with_rowid mem_conn mem_class) (mem_start n) xs w' ys)" for n
    using table_operations_atomic [OF c mem_class _ _ mem_conn_txn mem_conn_binds, of "mem_start n"] by simp
  from this [of 0, rule_format, OF mem_batchSave_four] this [of 0, rule_format, OF mem_batchSave_two]
  show ?thesis
    using mem_batchSave_four mem_batchSave_two by (simp add: all_or_nothing_def)
qed

text \<open>
  Property C37: over a connection that keeps the transaction contract, where a transaction cannot be
  begun inside another (SQLite is one by C14), \<open>batchRemove\<close> with its default transaction removes
  nothing: for every non-empty list of objects it throws, because each \<open>remove\<close> inside begins a
  transaction of its own, and the content stays what it was. On a database whose BEGIN commits the
  transaction that is open, as MySQL's does, the same nesting is accepted and the contract is not kept.
\<close>

theorem table_batchRemove_fails:
  assumes "TABLE_BIND_n t fs = Some c" "row_class_of K C df c = Some T"
    and "CHR '';'' \<notin> set t" "\<forall>f \<in> set fs. CHR '';'' \<notin> set f"
    and "txn_conn K cm wk pl" "txn_binds (conn_stmt K) cm wk pl" "wk w = None" "xs \<noteq> []"
  shows "\<exists>err w'. db_batchRemove K T True (xs, w) = (Some err, (xs, w')) \<and> cm w' = cm w \<and> wk w' = None"
proof -
  have "c = table_schema t fs" using assms(1) unfolding table_bind_class by (simp split: if_splits)
  then have "txn_class T cm wk pl" using table_schema_txn assms(2-4,6) by blast
  from db_batchRemove_fails [OF assms(5) this assms(7,8)] obtain err w' where
    "db_batchRemove K T True (xs, w) = (Some err, (xs, w'))" "atomic_outcome cm wk w (Some err) w'" by blast
  then show ?thesis by (auto simp: atomic_outcome_def)
qed

theorem table_batchRemove_fails_witness:
  "\<exists>err w'. db_batchRemove mem_conn mem_class True ([mem_obj 1], mem_start 1) = (Some err, ([mem_obj 1], w')) \<and>
     mem_rows w' = 1"
proof -
  have c: "TABLE_BIND_n ''T'' [''a''] = Some (table_schema ''T'' [''a''])"
    by (simp add: table_bind_class)
  have side: "CHR '';'' \<notin> set ''T''" "\<forall>f \<in> set [''a'']. CHR '';'' \<notin> set f" "mem_work (mem_start 1) = None"
    "[mem_obj 1] \<noteq> []" and rows: "mem_rows (mem_start 1) = 1" by simp_all
  obtain err w' where run: "db_batchRemove mem_conn mem_class True ([mem_obj 1], mem_start 1) = (Some err, ([mem_obj 1], w'))"
    and "mem_rows w' = mem_rows (mem_start 1)"
    using table_batchRemove_fails [OF c mem_class side(1,2) mem_conn_txn mem_conn_binds side(3,4)]
    by (elim exE conjE)
  then have "mem_rows w' = 1" using rows by (simp only:)
  with run show ?thesis by (intro exI conjI)
qed

end
